(* ===== verification/Prelude.thy ===== *)
theory Prelude
  imports Main "HOL-Library.Word"
begin

text \<open>
  Shared vocabulary of the development: the machine integers of the Rust source, the outcome of
  a call that may return an error value or panic, byte slices, little- and big-endian encodings,
  and the 32-bit wrapping arithmetic of the release profile. Nothing here models a particular
  component; every component theory imports it.
\<close>

unbundle bit_operations_syntax

named_theorems outcome_simps
named_theorems slice_simps
named_theorems endian_simps

section \<open>Machine integers\<close>

type_synonym u8 = "8 word"
type_synonym u16 = "16 word"
type_synonym u32 = "32 word"
type_synonym u64 = "64 word"

text \<open>An \<open>f32\<close> is carried as its bit pattern.\<close>

type_synonym f32_bits = u32

text \<open>
  Signed 32-bit values are kept as \<open>int\<close>; every sum the source computes on them is wrapped
  explicitly, as the release profile does (no overflow checks).
\<close>

definition i32_wrap :: "int \<Rightarrow> int" where
  "i32_wrap x = signed_take_bit 31 x"

definition i32_range :: "int \<Rightarrow> bool" where
  "i32_range x \<longleftrightarrow> - (2 ^ 31) \<le> x \<and> x < 2 ^ 31"

lemma i32_wrap_id [simp]: "i32_range x \<Longrightarrow> i32_wrap x = x"
  by (simp add: i32_wrap_def i32_range_def signed_take_bit_int_eq_self)

lemma i32_wrap_range [simp]: "i32_range (i32_wrap x)"
  using signed_take_bit_int_greater_eq_minus_exp [of 31 x] signed_take_bit_int_less_exp [of 31 x]
  by (simp add: i32_wrap_def i32_range_def)

text \<open>\<open>usize\<close> on the 64-bit targets the server is built for.\<close>

definition usize_sub :: "nat \<Rightarrow> nat \<Rightarrow> nat" where
  "usize_sub a b = (if b \<le> a then a - b else 2 ^ 64 + a - b)"

definition usize_add :: "nat \<Rightarrow> nat \<Rightarrow> nat" where
  "usize_add a b = (a + b) mod 2 ^ 64"

lemma usize_sub_le [simp]: "b \<le> a \<Longrightarrow> usize_sub a b = a - b"
  by (simp add: usize_sub_def)

lemma usize_add_small [simp]: "a + b < 2 ^ 64 \<Longrightarrow> usize_add a b = a + b"
  by (simp add: usize_add_def)

section \<open>Outcomes: a value, an error value, or a panic\<close>

datatype ('e, 'a) outcome = Ok 'a | Err 'e | Panic

fun bind_outcome :: "('e, 'a) outcome \<Rightarrow> ('a \<Rightarrow> ('e, 'b) outcome) \<Rightarrow> ('e, 'b) outcome" where
  "bind_outcome (Ok a) f = f a"
| "bind_outcome (Err e) f = Err e"
| "bind_outcome Panic f = Panic"

lemma bind_outcome_Ok_iff [outcome_simps]:
  "bind_outcome m f = Ok b \<longleftrightarrow> (\<exists>a. m = Ok a \<and> f a = Ok b)"
  by (cases m) auto

lemma bind_outcome_Err_iff [outcome_simps]:
  "bind_outcome m f = Err e \<longleftrightarrow> m = Err e \<or> (\<exists>a. m = Ok a \<and> f a = Err e)"
  by (cases m) auto

lemma bind_outcome_Panic_iff [outcome_simps]:
  "bind_outcome m f = Panic \<longleftrightarrow> m = Panic \<or> (\<exists>a. m = Ok a \<and> f a = Panic)"
  by (cases m) auto

lemma bind_outcome_assoc:
  "bind_outcome (bind_outcome m f) g = bind_outcome m (\<lambda>a. bind_outcome (f a) g)"
  by (cases m) auto

definition is_panic :: "('e, 'a) outcome \<Rightarrow> bool" where
  "is_panic m \<longleftrightarrow> (case m of Panic \<Rightarrow> True | _ \<Rightarrow> False)"

lemma is_panic_simps [simp]: "\<not> is_panic (Ok a)" "\<not> is_panic (Err e)" "is_panic Panic"
  by (simp_all add: is_panic_def)

text \<open>\<open>common/src/error.rs\<close>: the wire error; an I/O error is told apart by its kind only.\<close>

datatype io_kind = UnexpectedEof | InvalidData | OtherIo

datatype packet_error =
    TooSmall nat nat
  | SizeMismatch nat nat
  | BlowfishBlockMisaligned nat
  | Io io_kind

section \<open>Slices\<close>

text \<open>\<open>&xs[a..b]\<close>: panics when the bounds are reversed or past the end.\<close>

definition slice_of :: "'a list \<Rightarrow> nat \<Rightarrow> nat \<Rightarrow> ('e, 'a list) outcome" where
  "slice_of xs a b = (if a \<le> b \<and> b \<le> length xs then Ok (take (b - a) (drop a xs)) else Panic)"

text \<open>\<open>xs[a..a + ys.len()].copy_from_slice(ys)\<close>, where it is in range.\<close>

definition overwrite :: "'a list \<Rightarrow> nat \<Rightarrow> 'a list \<Rightarrow> 'a list" where
  "overwrite xs a ys = take a xs @ ys @ drop (a + length ys) xs"

definition copy_from_slice :: "'a list \<Rightarrow> nat \<Rightarrow> 'a list \<Rightarrow> ('e, 'a list) outcome" where
  "copy_from_slice xs a ys = (if a + length ys \<le> length xs then Ok (overwrite xs a ys) else Panic)"

lemma length_overwrite [simp, slice_simps]:
  "a + length ys \<le> length xs \<Longrightarrow> length (overwrite xs a ys) = length xs"
  by (simp add: overwrite_def)

lemma take_overwrite_before [slice_simps]:
  "b \<le> a \<Longrightarrow> a \<le> length xs \<Longrightarrow> take b (overwrite xs a ys) = take b xs"
  by (simp add: overwrite_def min_def)

lemma drop_overwrite_after [slice_simps]:
  "a + length ys \<le> b \<Longrightarrow> a + length ys \<le> length xs \<Longrightarrow> drop b (overwrite xs a ys) = drop b xs"
  by (simp add: overwrite_def drop_append add.commute)

lemma take_drop_overwrite [slice_simps]:
  "a + length ys \<le> length xs \<Longrightarrow> take (length ys) (drop a (overwrite xs a ys)) = ys"
  by (simp add: overwrite_def)

lemma overwrite_self: "a + n \<le> length xs \<Longrightarrow> overwrite xs a (take n (drop a xs)) = xs"
  by (simp add: overwrite_def) (metis add.commute append_take_drop_id drop_drop)

lemma overwrite_overwrite:
  "length ys = length zs \<Longrightarrow> a + length ys \<le> length xs
    \<Longrightarrow> overwrite (overwrite xs a ys) a zs = overwrite xs a zs"
  by (simp add: overwrite_def)

lemma nth_overwrite:
  "a + length ys \<le> length xs \<Longrightarrow> i < length xs \<Longrightarrow>
    overwrite xs a ys ! i = (if a \<le> i \<and> i < a + length ys then ys ! (i - a) else xs ! i)"
  by (auto simp: overwrite_def nth_append min_def)

lemma overwrite_append_left:
  "a + length ys \<le> length xs \<Longrightarrow> overwrite (xs @ zs) a ys = overwrite xs a ys @ zs"
  by (simp add: overwrite_def)

lemma overwrite_append_right:
  "overwrite (xs @ zs) (length xs + a) ys = xs @ overwrite zs a ys"
  by (simp add: overwrite_def add.assoc)

section \<open>Endianness\<close>

text \<open>
  \<open>le_bytes n w\<close> is the first \<open>n\<close> bytes of \<open>w.to_le_bytes()\<close> and \<open>le_word\<close> reads them
  back; \<open>be_bytes\<close> and \<open>be_word\<close> are the same in big-endian order.
\<close>

fun le_bytes :: "nat \<Rightarrow> 'a::len word \<Rightarrow> u8 list" where
  "le_bytes 0 w = []"
| "le_bytes (Suc n) w = ucast w # le_bytes n (drop_bit 8 w)"

fun le_word :: "u8 list \<Rightarrow> 'a::len word" where
  "le_word [] = 0"
| "le_word (b # bs) = ucast b OR push_bit 8 (le_word bs)"

definition be_bytes :: "nat \<Rightarrow> 'a::len word \<Rightarrow> u8 list" where
  "be_bytes n w = rev (le_bytes n w)"

definition be_word :: "u8 list \<Rightarrow> 'a::len word" where
  "be_word bs = le_word (rev bs)"

lemma length_le_bytes [simp]: "length (le_bytes n w) = n"
  by (induction n arbitrary: w) auto

lemma length_be_bytes [simp]: "length (be_bytes n w) = n"
  by (simp add: be_bytes_def)

lemma nth_le_bytes: "i < n \<Longrightarrow> le_bytes n w ! i = ucast (drop_bit (8 * i) w)"
proof (induction n arbitrary: w i)
  case 0
  then show ?case by simp
next
  case (Suc n)
  then show ?case
    by (cases i) (auto simp: drop_bit_drop_bit add.commute)
qed

lemma bit_le_word:
  "bit (le_word bs :: 'a::len word) k \<longleftrightarrow>
     k < LENGTH('a) \<and> k div 8 < length bs \<and> bit (bs ! (k div 8)) (k mod 8)"
proof (induction bs arbitrary: k)
  case Nil
  then show ?case by simp
next
  case (Cons b bs)
  show ?case
  proof (cases "k < 8")
    case True
    then show ?thesis
      by (auto simp: bit_or_iff bit_ucast_iff bit_push_bit_iff dest: bit_imp_le_length)
  next
    case False
    then have k: "k div 8 = Suc ((k - 8) div 8)" "(k - 8) mod 8 = k mod 8" "\<not> bit b k"
      by (auto simp: le_div_geq le_mod_geq dest: bit_imp_le_length)
    with False Cons.IH [of "k - 8"] show ?thesis
      by (auto simp: bit_or_iff bit_ucast_iff bit_push_bit_iff)
  qed
qed

lemma le_word_le_bytes [simp, endian_simps]:
  fixes w :: "'a::len word"
  assumes "LENGTH('a) \<le> 8 * n"
  shows "le_word (le_bytes n w) = w"
proof (rule bit_word_eqI)
  fix k assume k: "k < LENGTH('a)"
  with assms have "k div 8 < n" by auto
  with k show "bit (le_word (le_bytes n w) :: 'a word) k \<longleftrightarrow> bit w k"
    by (simp add: bit_le_word nth_le_bytes bit_ucast_iff bit_drop_bit_eq)
qed

lemma le_bytes_le_word [simp, endian_simps]:
  assumes "8 * length bs \<le> LENGTH('a)"
  shows "le_bytes (length bs) (le_word bs :: 'a::len word) = bs"
proof (rule nth_equalityI)
  show "length (le_bytes (length bs) (le_word bs :: 'a word)) = length bs" by simp
  fix i assume "i < length (le_bytes (length bs) (le_word bs :: 'a word))"
  then have i: "i < length bs" by simp
  show "le_bytes (length bs) (le_word bs :: 'a word) ! i = bs ! i"
  proof (rule bit_word_eqI)
    fix k assume "k < LENGTH(8)"
    then have "k < 8" by simp
    with i assms show "bit (le_bytes (length bs) (le_word bs :: 'a word) ! i) k \<longleftrightarrow> bit (bs ! i) k"
      by (simp add: nth_le_bytes bit_ucast_iff bit_drop_bit_eq bit_le_word)
  qed
qed

lemma be_word_be_bytes [simp, endian_simps]:
  "LENGTH('a) \<le> 8 * n \<Longrightarrow> be_word (be_bytes n (w :: 'a::len word)) = w"
  by (simp add: be_word_def be_bytes_def)

lemma be_bytes_be_word [simp, endian_simps]:
  "8 * length bs \<le> LENGTH('a) \<Longrightarrow> be_bytes (length bs) (be_word bs :: 'a::len word) = bs"
  using le_bytes_le_word [of "rev bs", where ?'a = 'a] by (simp add: be_word_def be_bytes_def)

text \<open>The same with the length as a hypothesis, which a byte list of known size meets.\<close>

lemma le_bytes_le_word' [endian_simps]:
  "length bs = n \<Longrightarrow> 8 * n \<le> LENGTH('a) \<Longrightarrow> le_bytes n (le_word bs :: 'a::len word) = bs"
  by auto

text \<open>From here on the encodings are unfolded by name only.\<close>

lemmas endian_eval = le_bytes.simps le_word.simps be_bytes_def be_word_def

declare le_bytes.simps [simp del] le_word.simps [simp del]

section \<open>Saturating and narrow arithmetic\<close>

text \<open>\<open>saturating_add\<close> and \<open>saturating_sub\<close> of unsigned words, and wrapping \<open>i16\<close> arithmetic.\<close>

definition u32_saturating_add :: "u32 \<Rightarrow> u32 \<Rightarrow> u32" where
  "u32_saturating_add a b = (if unat a + unat b < 2 ^ 32 then a + b else 0xFFFFFFFF)"

definition u32_saturating_sub :: "u32 \<Rightarrow> u32 \<Rightarrow> u32" where
  "u32_saturating_sub a b = (if b \<le> a then a - b else 0)"

definition u64_saturating_sub :: "u64 \<Rightarrow> u64 \<Rightarrow> u64" where
  "u64_saturating_sub a b = (if b \<le> a then a - b else 0)"

definition i16_wrap :: "int \<Rightarrow> int" where
  "i16_wrap x = signed_take_bit 15 x"

lemma i16_wrap_id [simp]: "- 32768 \<le> x \<Longrightarrow> x \<le> 32767 \<Longrightarrow> i16_wrap x = x"
  by (simp add: i16_wrap_def signed_take_bit_int_eq_self)

lemma i16_wrap_range: "- 32768 \<le> i16_wrap x \<and> i16_wrap x \<le> 32767"
  using signed_take_bit_int_greater_eq_minus_exp [of 15 x] signed_take_bit_int_less_exp [of 15 x]
  by (simp add: i16_wrap_def)

section \<open>Lists\<close>

lemma take_Suc_drop: "i < length xs \<Longrightarrow> drop i xs = xs ! i # drop (Suc i) xs"
  by (simp add: Cons_nth_drop_Suc)

lemma sum_list_update_nat:
  fixes xs :: "nat list"
  shows "i < length xs \<Longrightarrow> sum_list (xs[i := v]) + xs ! i = sum_list xs + v"
  by (induction xs arbitrary: i) (auto split: nat.splits)

end
