(* ===== verification/Bitstream.thy ===== *)
theory Bitstream
  imports Prelude
begin

text \<open>
  \<open>common/src/bitstream.rs\<close>: the 2048-bit quest-completion field. The state is the byte array,
  a list of 256 bytes; bit \<open>at\<close> lives in byte \<open>at / 8\<close> at shift \<open>at % 8\<close>. Indices past the
  end read as false and are ignored by the writers, as in the source. The interface the quest
  code relies on is the locale \<open>index_set\<close>; the byte array is its interpretation.
\<close>

section \<open>The byte array\<close>

definition BITSTREAM_BITS :: nat where
  "BITSTREAM_BITS = 2048"

definition BITSTREAM_BYTES :: nat where
  "BITSTREAM_BYTES = BITSTREAM_BITS div 8"

record bitstream2048 =
  bs_data :: "u8 list"

definition bs_new :: bitstream2048 where
  "bs_new = \<lparr>bs_data = replicate BITSTREAM_BYTES 0\<rparr>"

definition bs_all_set :: bitstream2048 where
  "bs_all_set = \<lparr>bs_data = replicate BITSTREAM_BYTES 0xFF\<rparr>"

definition bs_from_slice :: "u8 list \<Rightarrow> bitstream2048" where
  "bs_from_slice bytes =
     (let out = bs_new; n = min (length bytes) BITSTREAM_BYTES
      in out\<lparr>bs_data := overwrite (bs_data out) 0 (take n bytes)\<rparr>)"

definition bs_as_bytes :: "bitstream2048 \<Rightarrow> u8 list" where
  "bs_as_bytes b = bs_data b"

definition bs_set_all :: "bitstream2048 \<Rightarrow> bool \<Rightarrow> bitstream2048" where
  "bs_set_all b to =
     (let fill = (if to then 0xFF else 0x00)
      in b\<lparr>bs_data := replicate (length (bs_data b)) fill\<rparr>)"

definition bs_get :: "bitstream2048 \<Rightarrow> nat \<Rightarrow> bool" where
  "bs_get b at =
     (if at \<ge> BITSTREAM_BITS then False
      else let byte_pos = at div 8; bit_pos = at mod 8
           in bs_data b ! byte_pos AND push_bit bit_pos 1 \<noteq> 0)"

definition bs_set :: "bitstream2048 \<Rightarrow> nat \<Rightarrow> bitstream2048" where
  "bs_set b at =
     (if at \<ge> BITSTREAM_BITS then b
      else let byte_pos = at div 8; bit_pos = at mod 8
           in b\<lparr>bs_data := (bs_data b)[byte_pos := bs_data b ! byte_pos OR push_bit bit_pos 1]\<rparr>)"

definition bs_clear :: "bitstream2048 \<Rightarrow> nat \<Rightarrow> bitstream2048" where
  "bs_clear b at =
     (if at \<ge> BITSTREAM_BITS then b
      else let byte_pos = at div 8; bit_pos = at mod 8
           in b\<lparr>bs_data := (bs_data b)[byte_pos := bs_data b ! byte_pos AND NOT (push_bit bit_pos 1)]\<rparr>)"

text \<open>\<open>u8::count_ones\<close>, and the sum over the array.\<close>

definition byte_count_ones :: "u8 \<Rightarrow> nat" where
  "byte_count_ones x = length (filter (bit x) [0..<8])"

definition bs_count_ones :: "bitstream2048 \<Rightarrow> nat" where
  "bs_count_ones b = sum_list (map byte_count_ones (bs_data b))"

definition byte_set_bits :: "nat \<Rightarrow> u8 \<Rightarrow> nat list" where
  "byte_set_bits byte_pos byte =
     map (\<lambda>bit_pos. byte_pos * 8 + bit_pos)
       (filter (\<lambda>bit_pos. byte AND push_bit bit_pos 1 \<noteq> 0) [0..<8])"

definition bs_iter_set :: "bitstream2048 \<Rightarrow> nat list" where
  "bs_iter_set b = concat (map (\<lambda>(i, x). byte_set_bits i x) (enumerate 0 (bs_data b)))"

section \<open>Well-formedness and single bits\<close>

definition bs_wf :: "bitstream2048 \<Rightarrow> bool" where
  "bs_wf b \<longleftrightarrow> length (bs_data b) = BITSTREAM_BYTES"

lemma bs_bytes_256: "BITSTREAM_BYTES = 256" and bs_bits_2048: "BITSTREAM_BITS = 2048"
  by (simp_all add: BITSTREAM_BYTES_def BITSTREAM_BITS_def)

lemmas bs_sizes = bs_bytes_256 bs_bits_2048

lemma bs_byte_index: "bs_wf b \<Longrightarrow> at < BITSTREAM_BITS \<Longrightarrow> at div 8 < length (bs_data b)"
  by (auto simp: bs_wf_def bs_sizes)

lemma byte_test_bit: "(x AND 2 ^ k \<noteq> (0 :: u8)) \<longleftrightarrow> bit x k"
  by (simp add: and_exp_eq_0_iff_not_bit)

lemma bs_get_bit: "bs_get b at \<longleftrightarrow> at < BITSTREAM_BITS \<and> bit (bs_data b ! (at div 8)) (at mod 8)"
  by (simp add: bs_get_def byte_test_bit Let_def)

lemma bs_wf_new [simp]: "bs_wf bs_new" and bs_wf_all_set [simp]: "bs_wf bs_all_set"
  by (simp_all add: bs_wf_def bs_new_def bs_all_set_def)

lemma bs_wf_from_slice [simp]: "bs_wf (bs_from_slice bytes)"
  by (simp add: bs_wf_def bs_from_slice_def bs_new_def Let_def)

lemma bs_wf_set [simp]: "bs_wf b \<Longrightarrow> bs_wf (bs_set b at)"
  and bs_wf_clear [simp]: "bs_wf b \<Longrightarrow> bs_wf (bs_clear b at)"
  and bs_wf_set_all [simp]: "bs_wf b \<Longrightarrow> bs_wf (bs_set_all b to)"
  by (simp_all add: bs_wf_def bs_set_def bs_clear_def bs_set_all_def Let_def)

lemma bs_get_new: "\<not> bs_get bs_new i"
  by (auto simp: bs_get_bit bs_new_def bs_sizes)

lemma byte_index_eq: "(i::nat) div 8 = k div 8 \<Longrightarrow> i mod 8 = k mod 8 \<longleftrightarrow> i = k"
  by (metis div_mult_mod_eq)

lemma bs_get_set:
  assumes "bs_wf b"
  shows "bs_get (bs_set b k) i \<longleftrightarrow> bs_get b i \<or> (i = k \<and> k < BITSTREAM_BITS)"
proof (cases "k < BITSTREAM_BITS \<and> i < BITSTREAM_BITS \<and> i div 8 = k div 8")
  case True
  with bs_byte_index [OF assms, of k] show ?thesis
    by (auto simp: bs_get_bit bs_set_def Let_def bit_or_iff bit_exp_iff byte_index_eq)
next
  case False
  then show ?thesis
    by (auto simp: bs_get_bit bs_set_def Let_def nth_list_update)
qed

lemma bs_get_clear:
  assumes "bs_wf b"
  shows "bs_get (bs_clear b k) i \<longleftrightarrow> bs_get b i \<and> i \<noteq> k"
proof (cases "k < BITSTREAM_BITS \<and> i < BITSTREAM_BITS \<and> i div 8 = k div 8")
  case True
  with bs_byte_index [OF assms, of k] show ?thesis
    by (auto simp: bs_get_bit bs_clear_def Let_def bit_and_iff bit_not_iff bit_exp_iff byte_index_eq dest: bit_imp_le_length)
next
  case False
  then show ?thesis
    by (auto simp: bs_get_bit bs_clear_def Let_def nth_list_update)
qed

section \<open>The interface the quest code uses\<close>

text \<open>
  A field of flags numbered from 0 to \<open>cap - 1\<close>: what a lookup returns after the writers, and
  that the writers keep the representation invariant.
\<close>

locale index_set =
  fixes empty :: 's
    and put :: "'s \<Rightarrow> nat \<Rightarrow> 's"
    and del :: "'s \<Rightarrow> nat \<Rightarrow> 's"
    and mem :: "'s \<Rightarrow> nat \<Rightarrow> bool"
    and inv :: "'s \<Rightarrow> bool"
    and cap :: nat
  assumes inv_empty: "inv empty"
    and inv_put: "inv s \<Longrightarrow> inv (put s i)"
    and inv_del: "inv s \<Longrightarrow> inv (del s i)"
    and mem_empty: "\<not> mem empty i"
    and mem_put: "inv s \<Longrightarrow> mem (put s k) i \<longleftrightarrow> mem s i \<or> (i = k \<and> k < cap)"
    and mem_del: "inv s \<Longrightarrow> mem (del s k) i \<longleftrightarrow> mem s i \<and> i \<noteq> k"
begin

lemma inv_fold_put: "inv s \<Longrightarrow> inv (fold (\<lambda>k s. put s k) ks s)"
  by (induction ks arbitrary: s) (auto intro: inv_put)

lemma inv_fold_del: "inv s \<Longrightarrow> inv (fold (\<lambda>k s. del s k) ks s)"
  by (induction ks arbitrary: s) (auto intro: inv_del)

lemma mem_fold_put:
  "inv s \<Longrightarrow> mem (fold (\<lambda>k s. put s k) ks s) i \<longleftrightarrow> mem s i \<or> (i \<in> set ks \<and> i < cap)"
  by (induction ks arbitrary: s) (auto simp: mem_put inv_put)

lemma mem_fold_del:
  "inv s \<Longrightarrow> mem (fold (\<lambda>k s. del s k) ks s) i \<longleftrightarrow> mem s i \<and> i \<notin> set ks"
  by (induction ks arbitrary: s) (auto simp: mem_del inv_del)

lemma mem_build: "mem (fold (\<lambda>k s. put s k) ks empty) i \<longleftrightarrow> i \<in> set ks \<and> i < cap"
  by (simp add: mem_fold_put inv_empty mem_empty)

end

interpretation bits: index_set bs_new bs_set bs_clear bs_get bs_wf BITSTREAM_BITS
  by unfold_locales (simp_all add: bs_get_new bs_get_set bs_get_clear)

section \<open>Iteration, population count and the wire form\<close>

lemma set_enumerate_nth: "set (enumerate 0 xs) = {(i, xs ! i) | i. i < length xs}"
  by (auto simp: in_set_enumerate_eq)

lemma set_byte_set_bits: "set (byte_set_bits i x) = {i * 8 + k | k. k < 8 \<and> bit x k}"
  by (auto simp: byte_set_bits_def byte_test_bit)

lemma set_bs_iter_set:
  assumes "bs_wf b"
  shows "set (bs_iter_set b) = {i. bs_get b i}"
proof
  show "set (bs_iter_set b) \<subseteq> {i. bs_get b i}"
    using assms by (auto simp: bs_iter_set_def set_enumerate_nth set_byte_set_bits bs_get_bit
        bs_wf_def bs_sizes)
  show "{i. bs_get b i} \<subseteq> set (bs_iter_set b)"
  proof
    fix i assume "i \<in> {i. bs_get b i}"
    then have i: "i < BITSTREAM_BITS" "bit (bs_data b ! (i div 8)) (i mod 8)"
      by (auto simp: bs_get_bit)
    then have "i div 8 < length (bs_data b)" by (simp add: bs_byte_index assms)
    moreover have "i = i div 8 * 8 + i mod 8" by simp
    ultimately show "i \<in> set (bs_iter_set b)"
      using i(2) unfolding bs_iter_set_def set_concat set_map set_enumerate_nth
      by (force simp: set_byte_set_bits)
  qed
qed

lemma length_byte_set_bits: "length (byte_set_bits i x) = byte_count_ones x"
  by (simp add: byte_set_bits_def byte_count_ones_def byte_test_bit)

lemma length_concat_enumerate:
  "length (concat (map (\<lambda>(i, x). byte_set_bits i x) (enumerate n xs))) =
     sum_list (map byte_count_ones xs)"
  by (induction xs arbitrary: n) (simp_all add: length_byte_set_bits)

lemma sorted_byte_set_bits: "sorted_wrt (<) (byte_set_bits i x)"
  by (auto simp: byte_set_bits_def sorted_wrt_map intro!: sorted_wrt_filter)

lemma concat_bits_ge:
  "k \<in> set (concat (map (\<lambda>(i, x). byte_set_bits i x) (enumerate n xs))) \<Longrightarrow> n * 8 \<le> k"
  by (auto simp: set_byte_set_bits in_set_enumerate_eq)

lemma sorted_concat_bits:
  "sorted_wrt (<) (concat (map (\<lambda>(i, x). byte_set_bits i x) (enumerate n xs)))"
proof (induction xs arbitrary: n)
  case Nil
  then show ?case by simp
next
  case (Cons x xs)
  have "k < m" if "k \<in> set (byte_set_bits n x)"
    and "m \<in> set (concat (map (\<lambda>(i, x). byte_set_bits i x) (enumerate (Suc n) xs)))" for k m
    using concat_bits_ge [OF that(2)] that(1) by (auto simp: set_byte_set_bits)
  then show ?case
    by (auto simp: sorted_wrt_append sorted_byte_set_bits Cons.IH)
qed

lemma sorted_bs_iter_set: "sorted_wrt (<) (bs_iter_set b)"
  unfolding bs_iter_set_def by (rule sorted_concat_bits)

lemma bs_ext:
  assumes "bs_wf a" and "bs_wf b" and "\<And>i. bs_get a i \<longleftrightarrow> bs_get b i"
  shows "a = b"
proof -
  have "bs_data a ! p = bs_data b ! p" if "p < BITSTREAM_BYTES" for p
  proof (rule bit_word_eqI)
    fix k assume "k < LENGTH(8)"
    then have "k < 8" by simp
    with that assms(3) [of "p * 8 + k"] show "bit (bs_data a ! p) k \<longleftrightarrow> bit (bs_data b ! p) k"
      by (simp add: bs_get_bit bs_sizes)
  qed
  with assms(1,2) have "bs_data a = bs_data b"
    by (auto simp: bs_wf_def intro: nth_equalityI)
  then show ?thesis by simp
qed

section \<open>Properties\<close>

text \<open>
  The bitfield is a faithful implementation of a set of indices below 2048. Starting from an
  empty field, setting any list of indices and then clearing another leaves exactly the in-range
  set ones that were not cleared readable, \<open>iter_set\<close> yields exactly those in increasing order,
  and \<open>count_ones\<close> is their number.
\<close>

theorem bitstream_refines_set:
  fixes puts dels :: "nat list"
  defines "b \<equiv> fold (\<lambda>k s. bs_clear s k) dels (fold (\<lambda>k s. bs_set s k) puts bs_new)"
  shows "bs_get b i = (i \<in> set puts - set dels \<and> i < BITSTREAM_BITS)
    \<and> bs_iter_set b = sorted_list_of_set ((set puts - set dels) \<inter> {..<BITSTREAM_BITS})
    \<and> bs_count_ones b = card ((set puts - set dels) \<inter> {..<BITSTREAM_BITS})"
proof -
  have wf: "bs_wf b"
    by (simp add: b_def bits.inv_fold_del bits.inv_fold_put)
  have get: "bs_get b j \<longleftrightarrow> j \<in> set puts - set dels \<and> j < BITSTREAM_BITS" for j
    by (auto simp: b_def bits.mem_fold_del bits.inv_fold_put bits.mem_build)
  then have set: "set (bs_iter_set b) = (set puts - set dels) \<inter> {..<BITSTREAM_BITS}"
    by (auto simp: set_bs_iter_set [OF wf])
  then have list: "bs_iter_set b = sorted_list_of_set ((set puts - set dels) \<inter> {..<BITSTREAM_BITS})"
    using sorted_bs_iter_set [of b]
    by (metis sorted_list_of_set.idem_if_sorted_distinct strict_sorted_iff)
  have "bs_count_ones b = length (bs_iter_set b)"
    by (simp add: bs_count_ones_def bs_iter_set_def length_concat_enumerate)
  with list get show ?thesis by simp
qed

text \<open>
  The stored form determines the field: hydrating a field from its own bytes gives the field
  back, and a short row is the same field with its missing tail clear.
\<close>

theorem bitstream_bytes_roundtrip:
  assumes "bs_wf b"
  shows "bs_from_slice (bs_as_bytes b) = b
    \<and> (\<forall>i. bs_get (bs_from_slice (take n (bs_as_bytes b))) i = (bs_get b i \<and> i div 8 < n))"
proof -
  let ?c = "bs_from_slice (take n (bs_as_bytes b))"
  have full: "bs_from_slice (bs_as_bytes b) = b"
    using assms by (simp add: bs_from_slice_def bs_as_bytes_def bs_new_def overwrite_def bs_wf_def)
  have "bs_data ?c = take n (bs_data b) @ replicate (BITSTREAM_BYTES - n) 0"
    using assms by (simp add: bs_from_slice_def bs_as_bytes_def bs_new_def overwrite_def bs_wf_def
        Let_def min_def)
  with assms have "bs_get ?c i = (bs_get b i \<and> i div 8 < n)" for i
    by (auto simp: bs_get_bit nth_append bs_wf_def bs_sizes min_def nth_append)
  with full show ?thesis by blast
qed

theorem bitstream_bytes_roundtrip_witness:
  "bs_wf (bs_set bs_new 9)
    \<and> bs_from_slice (bs_as_bytes (bs_set bs_new 9)) = bs_set bs_new 9
    \<and> (\<forall>i. bs_get (bs_from_slice (take 1 (bs_as_bytes (bs_set bs_new 9)))) i
          = (bs_get (bs_set bs_new 9) i \<and> i div 8 < 1))"
proof -
  have h: "bs_wf (bs_set bs_new 9)" by simp
  show ?thesis using h bitstream_bytes_roundtrip [OF h, of 1] by simp
qed

end
