(* ===== verification/Blowfish.thy ===== *)
theory Blowfish
  imports BlowfishTables
begin

text \<open>
  \<open>common/src/blowfish.rs\<close>: the lobby cipher. The state is the P-array and the four S-boxes; the
  key schedule sign-extends every key byte, as the client does. The locale \<open>block_cipher\<close> is the
  contract the packet layer relies on (deciphering a block undoes enciphering it and conversely);
  its interpretation is the Blowfish block transformation of the source.
\<close>

section \<open>State and block transformation\<close>

definition BF_N :: nat where
  "BF_N = 16"

record blowfish =
  bf_p :: "u32 list"
  bf_s :: "u32 list list"

definition load_u32_le :: "u8 list \<Rightarrow> nat \<Rightarrow> u32" where
  "load_u32_le bytes i = le_word [bytes ! i, bytes ! (i + 1), bytes ! (i + 2), bytes ! (i + 3)]"

definition bf_f :: "blowfish \<Rightarrow> u32 \<Rightarrow> u32" where
  "bf_f bf x0 =
     (let d = unat (x0 AND 0xFF); x1 = drop_bit 8 x0;
          c = unat (x1 AND 0xFF); x2 = drop_bit 8 x1;
          b = unat (x2 AND 0xFF); x3 = drop_bit 8 x2;
          a = unat (x3 AND 0xFF);
          y = bf_s bf ! 0 ! a + bf_s bf ! 1 ! b;
          y = y XOR bf_s bf ! 2 ! c;
          y = y + bf_s bf ! 3 ! d
      in y)"

text \<open>The loop body shared by both directions: whiten, mix, swap.\<close>

definition bf_round :: "blowfish \<Rightarrow> nat \<Rightarrow> u32 \<times> u32 \<Rightarrow> u32 \<times> u32" where
  "bf_round bf i = (\<lambda>(xl, xr).
     (let xl = xl XOR bf_p bf ! i; xr = xr XOR bf_f bf xl in (xr, xl)))"

definition encipher_block :: "blowfish \<Rightarrow> u32 \<times> u32 \<Rightarrow> u32 \<times> u32" where
  "encipher_block bf x =
     (let (xl, xr) = fold (bf_round bf) [0..<BF_N] x;
          (xl, xr) = (xr, xl)
      in (xl XOR bf_p bf ! (BF_N + 1), xr XOR bf_p bf ! BF_N))"

definition decipher_block :: "blowfish \<Rightarrow> u32 \<times> u32 \<Rightarrow> u32 \<times> u32" where
  "decipher_block bf x =
     (let (xl, xr) = fold (bf_round bf) (rev [2..<BF_N + 2]) x;
          (xl, xr) = (xr, xl)
      in (xl XOR bf_p bf ! 0, xr XOR bf_p bf ! 1))"

section \<open>Key schedule\<close>

text \<open>\<open>key[j] as i8 as i32 as u32\<close>, shifted into the accumulator; the key index cycles.\<close>

definition key_step :: "u8 list \<Rightarrow> u32 \<times> nat \<Rightarrow> u32 \<times> nat" where
  "key_step key = (\<lambda>(data, j).
     (push_bit 8 data OR (scast (key ! j) :: u32), (j + 1) mod length key))"

definition key_word :: "u8 list \<Rightarrow> nat \<Rightarrow> u32 \<times> nat" where
  "key_word key j = (key_step key ^^ 4) (0, j)"

fun xor_key :: "u8 list \<Rightarrow> nat \<Rightarrow> u32 list \<Rightarrow> u32 list" where
  "xor_key key j [] = []"
| "xor_key key j (p # ps) = (let (data, j') = key_word key j in (p XOR data) # xor_key key j' ps)"

definition initial_blowfish :: blowfish where
  "initial_blowfish =
     \<lparr>bf_p = map (\<lambda>i. load_u32_le P_VALUES (i * 4)) [0..<BF_N + 2],
      bf_s = map (\<lambda>i. map (\<lambda>j. load_u32_le S_VALUES ((i * 256 + j) * 4)) [0..<256]) [0..<4]\<rparr>"

text \<open>One step of each filling loop: encipher the running block and store it at \<open>i\<close>, \<open>i + 1\<close>.\<close>

definition fill_p :: "nat \<Rightarrow> blowfish \<times> u32 \<times> u32 \<Rightarrow> blowfish \<times> u32 \<times> u32" where
  "fill_p i = (\<lambda>(bf, x).
     (let (l, r) = encipher_block bf x
      in (bf\<lparr>bf_p := (bf_p bf)[i := l, i + 1 := r]\<rparr>, l, r)))"

definition fill_s :: "nat \<times> nat \<Rightarrow> blowfish \<times> u32 \<times> u32 \<Rightarrow> blowfish \<times> u32 \<times> u32" where
  "fill_s = (\<lambda>(i, j) (bf, x).
     (let (l, r) = encipher_block bf x
      in (bf\<lparr>bf_s := (bf_s bf)[i := (bf_s bf ! i)[j := l, j + 1 := r]]\<rparr>, l, r)))"

definition bf_initialize :: "u8 list \<Rightarrow> blowfish" where
  "bf_initialize key =
     (let bf = initial_blowfish;
          bf = bf\<lparr>bf_p := xor_key key 0 (bf_p bf)\<rparr>;
          st = fold fill_p (map (\<lambda>k. 2 * k) [0..<(BF_N + 2) div 2]) (bf, 0, 0);
          st = fold fill_s (concat (map (\<lambda>i. map (\<lambda>k. (i, 2 * k)) [0..<128]) [0..<4])) st
      in fst st)"

text \<open>\<open>Blowfish::new\<close>: an empty key panics on the first \<open>key[j]\<close>.\<close>

definition blowfish_new :: "u8 list \<Rightarrow> (packet_error, blowfish) outcome" where
  "blowfish_new key = (if key = [] then Panic else Ok (bf_initialize key))"

section \<open>Buffers\<close>

text \<open>
  The loop of \<open>encipher\<close> and \<open>decipher\<close> over a byte buffer, block by block from \<open>i\<close> to \<open>end\<close>;
  a block past the end of the buffer is an out-of-range index.
\<close>

function crypt_blocks ::
    "(u32 \<times> u32 \<Rightarrow> u32 \<times> u32) \<Rightarrow> u8 list \<Rightarrow> nat \<Rightarrow> nat \<Rightarrow> (packet_error, u8 list) outcome" where
  "crypt_blocks g data i end =
     (if i < end then
        (if i + 8 \<le> length data then
           (let (xl, xr) = g (load_u32_le data i, load_u32_le data (i + 4))
            in crypt_blocks g (overwrite data i (le_bytes 4 xl @ le_bytes 4 xr)) (i + 8) end)
         else Panic)
      else Ok data)"
  by pat_completeness auto
termination
  by (relation "measure (\<lambda>(g, data, i, end). end - i)") auto

declare crypt_blocks.simps [simp del]

definition bf_encipher :: "blowfish \<Rightarrow> u8 list \<Rightarrow> nat \<Rightarrow> nat \<Rightarrow> (packet_error, u8 list) outcome" where
  "bf_encipher bf data offset len =
     (if len mod 8 \<noteq> 0 then Err (BlowfishBlockMisaligned len)
      else crypt_blocks (encipher_block bf) data offset (usize_add offset len))"

definition bf_decipher :: "blowfish \<Rightarrow> u8 list \<Rightarrow> nat \<Rightarrow> nat \<Rightarrow> (packet_error, u8 list) outcome" where
  "bf_decipher bf data offset len =
     (if len mod 8 \<noteq> 0 then Err (BlowfishBlockMisaligned len)
      else crypt_blocks (decipher_block bf) data offset (usize_add offset len))"

section \<open>The two block transformations are inverse\<close>

text \<open>
  \<open>whitened bf m (l, r)\<close> is the state of the deciphering loop when it has undone the rounds from
  \<open>m\<close> on: the halves are swapped and whitened with the two next subkeys.
\<close>

definition whitened :: "blowfish \<Rightarrow> nat \<Rightarrow> u32 \<times> u32 \<Rightarrow> u32 \<times> u32" where
  "whitened bf m = (\<lambda>(l, r). (r XOR bf_p bf ! Suc m, l XOR bf_p bf ! m))"

lemma xor_cancel [simp]: "(a XOR b) XOR b = (a :: u32)"
  by (simp add: xor.assoc)

lemma round_undoes: "bf_round bf (Suc (Suc m)) (whitened bf (Suc m) (bf_round bf m x)) = whitened bf m x"
proof (cases x)
  case (Pair l r)
  have "((r XOR u) XOR v) XOR u = r XOR v" for u v :: u32
    by (simp add: ac_simps)
  with Pair show ?thesis by (simp add: bf_round_def whitened_def Let_def)
qed

lemma rounds_undo:
  "fold (bf_round bf) (rev [2..<n + 2]) (whitened bf n (fold (bf_round bf) [0..<n] x)) = whitened bf 0 x"
proof (induction n)
  case 0
  then show ?case by simp
next
  case (Suc n)
  then show ?case by (simp add: round_undoes)
qed

lemma decipher_encipher_block: "decipher_block bf (encipher_block bf x) = x"
proof -
  let ?y = "fold (bf_round bf) [0..<BF_N] x"
  have "encipher_block bf x = whitened bf BF_N ?y"
    by (simp add: encipher_block_def whitened_def split_beta)
  then have "fold (bf_round bf) (rev [2..<BF_N + 2]) (encipher_block bf x) = whitened bf 0 x"
    by (simp only: rounds_undo)
  then show ?thesis
    by (simp add: decipher_block_def whitened_def split_beta del: upt_Suc)
qed

text \<open>Deciphering is enciphering with the subkeys in reverse order, so the converse follows.\<close>

definition reversed_subkeys :: "blowfish \<Rightarrow> blowfish" where
  "reversed_subkeys bf = bf\<lparr>bf_p := rev (bf_p bf)\<rparr>"

definition bf_wf :: "blowfish \<Rightarrow> bool" where
  "bf_wf bf \<longleftrightarrow> length (bf_p bf) = BF_N + 2 \<and> length (bf_s bf) = 4 \<and> (\<forall>s \<in> set (bf_s bf). length s = 256)"

lemma bf_round_reversed:
  assumes "length (bf_p bf) = BF_N + 2" and "i < BF_N + 2"
  shows "bf_round (reversed_subkeys bf) i = bf_round bf (BF_N + 1 - i)"
  using assms by (simp add: bf_round_def reversed_subkeys_def bf_f_def rev_nth fun_eq_iff)

lemma fold_reversed:
  assumes "length (bf_p bf) = BF_N + 2" and "\<forall>i \<in> set is. i < BF_N + 2"
  shows "fold (bf_round (reversed_subkeys bf)) is x = fold (bf_round bf) (map (\<lambda>i. BF_N + 1 - i) is) x"
  using assms(2) by (induction "is" arbitrary: x) (simp_all add: bf_round_reversed assms(1))

lemma subkey_indices:
  "map (\<lambda>i. BF_N + 1 - i) [0..<BF_N] = rev [2..<BF_N + 2]"
  "map (\<lambda>i. BF_N + 1 - i) (rev [2..<BF_N + 2]) = [0..<BF_N]"
  by (simp_all add: BF_N_def upt_rec)

lemma encipher_reversed:
  assumes "length (bf_p bf) = BF_N + 2"
  shows "encipher_block (reversed_subkeys bf) = decipher_block bf"
    and "decipher_block (reversed_subkeys bf) = encipher_block bf"
proof -
  have p: "bf_p (reversed_subkeys bf) ! i = bf_p bf ! (BF_N + 1 - i)" if "i < BF_N + 2" for i
    using that assms by (simp add: reversed_subkeys_def rev_nth)
  have up: "fold (bf_round (reversed_subkeys bf)) [0..<BF_N] x = fold (bf_round bf) (rev [2..<BF_N + 2]) x" for x
    using fold_reversed [OF assms, of "[0..<BF_N]" x] unfolding subkey_indices(1) by auto
  have down: "fold (bf_round (reversed_subkeys bf)) (rev [2..<BF_N + 2]) x = fold (bf_round bf) [0..<BF_N] x" for x
    using fold_reversed [OF assms, of "rev [2..<BF_N + 2]" x] unfolding subkey_indices(2) by auto
  show "encipher_block (reversed_subkeys bf) = decipher_block bf"
    unfolding fun_eq_iff encipher_block_def decipher_block_def up by (simp add: p del: upt_Suc)
  show "decipher_block (reversed_subkeys bf) = encipher_block bf"
    unfolding fun_eq_iff encipher_block_def decipher_block_def down by (simp add: p)
qed

lemma encipher_decipher_block: "bf_wf bf \<Longrightarrow> encipher_block bf (decipher_block bf x) = x"
  using decipher_encipher_block [of "reversed_subkeys bf" x]
  by (simp add: encipher_reversed bf_wf_def)

section \<open>The buffer loop as a map over blocks\<close>

text \<open>
  The reference definition: a byte list cut into 8-byte blocks, each transformed on its own, an
  incomplete last block left as it is. \<open>crypt_blocks_eq\<close> shows that the indexed loop of the
  source, run over a middle part of the buffer, is this map and touches nothing else.
\<close>

definition block_bytes :: "(u32 \<times> u32 \<Rightarrow> u32 \<times> u32) \<Rightarrow> u8 list \<Rightarrow> u8 list" where
  "block_bytes g xs =
     (let (l, r) = g (le_word (take 4 xs), le_word (take 4 (drop 4 xs))) in le_bytes 4 l @ le_bytes 4 r)"

function map_blocks :: "(u32 \<times> u32 \<Rightarrow> u32 \<times> u32) \<Rightarrow> u8 list \<Rightarrow> u8 list" where
  "map_blocks g xs = (if length xs < 8 then xs else block_bytes g (take 8 xs) @ map_blocks g (drop 8 xs))"
  by pat_completeness auto
termination
  by (relation "measure (\<lambda>(g, xs). length xs)") auto

declare map_blocks.simps [simp del]

lemma length_block_bytes [simp]: "length (block_bytes g xs) = 8"
  by (simp add: block_bytes_def split_beta)

lemma map_blocks_append:
  "length ys = 8 \<Longrightarrow> map_blocks g (ys @ zs) = block_bytes g ys @ map_blocks g zs"
  by (simp add: map_blocks.simps [of g "ys @ zs"])

lemma map_blocks_short [simp]: "length xs < 8 \<Longrightarrow> map_blocks g xs = xs"
  by (simp add: map_blocks.simps)

lemma split_block:
  assumes "\<not> length xs < 8"
  obtains ys zs where "xs = ys @ zs" and "length ys = 8"
  using assms by (metis append_take_drop_id length_take min.absorb2 not_less)

lemma length_map_blocks [simp]: "length (map_blocks g xs) = length xs"
proof (induction xs rule: length_induct)
  case (1 xs)
  show ?case
  proof (cases "length xs < 8")
    case False
    then obtain ys zs where "xs = ys @ zs" and "length ys = 8" by (rule split_block)
    with "1.IH" show ?thesis by (simp add: map_blocks_append)
  qed simp
qed

lemma load_u32_le_take:
  assumes "i + 4 \<le> length data"
  shows "load_u32_le data i = le_word (take 4 (drop i data))"
proof -
  have "take 4 (drop i data) = [data ! i, data ! (i + 1), data ! (i + 2), data ! (i + 3)]"
    using assms by (intro nth_equalityI) (auto simp: less_Suc_eq numeral_eq_Suc nth_Cons split: nat.splits)
  then show ?thesis by (simp add: load_u32_le_def)
qed

lemma crypt_blocks_step:
  assumes "length ys = 8"
  shows "crypt_blocks g (pre @ ys @ zs) (length pre) (length pre + 8 + n) =
     crypt_blocks g (pre @ block_bytes g ys @ zs) (length pre + 8) (length pre + 8 + n)"
proof -
  let ?d = "pre @ ys @ zs"
  have l: "load_u32_le ?d (length pre) = le_word (take 4 ys)"
    using assms by (simp add: load_u32_le_take)
  have r: "load_u32_le ?d (length pre + 4) = le_word (take 4 (drop 4 ys))"
    using assms by (simp add: load_u32_le_take)
  have w: "overwrite ?d (length pre) bs = pre @ bs @ zs" if "length bs = 8" for bs
    using assms that by (simp add: overwrite_def)
  have "crypt_blocks g ?d (length pre) (length pre + 8 + n) =
     (let (xl, xr) = g (load_u32_le ?d (length pre), load_u32_le ?d (length pre + 4))
      in crypt_blocks g (overwrite ?d (length pre) (le_bytes 4 xl @ le_bytes 4 xr))
           (length pre + 8) (length pre + 8 + n))"
    using assms by (subst crypt_blocks.simps) simp
  also have "\<dots> = crypt_blocks g (overwrite ?d (length pre) (block_bytes g ys))
           (length pre + 8) (length pre + 8 + n)"
    by (simp add: l r block_bytes_def split_beta)
  finally show ?thesis by (simp add: w)
qed

lemma crypt_blocks_eq:
  "length mid mod 8 = 0 \<Longrightarrow>
     crypt_blocks g (pre @ mid @ post) (length pre) (length pre + length mid) =
       Ok (pre @ map_blocks g mid @ post)"
proof (induction "mid" arbitrary: pre rule: length_induct)
  case (1 xs)
  show ?case
  proof (cases "length xs < 8")
    case True
    with "1.prems" have "xs = []" by simp
    then show ?thesis by (simp add: crypt_blocks.simps)
  next
    case False
    then obtain ys zs where xs: "xs = ys @ zs" and ys: "length ys = 8" by (rule split_block)
    with "1.prems" have zs: "length zs mod 8 = 0" by simp
    have "crypt_blocks g (pre @ xs @ post) (length pre) (length pre + length xs) =
        crypt_blocks g ((pre @ block_bytes g ys) @ zs @ post) (length (pre @ block_bytes g ys))
          (length (pre @ block_bytes g ys) + length zs)"
      using crypt_blocks_step [OF ys, of g pre "zs @ post" "length zs"] by (simp add: xs ys add.assoc)
    also have "\<dots> = Ok ((pre @ block_bytes g ys) @ map_blocks g zs @ post)"
      using "1.IH" [rule_format, of zs "pre @ block_bytes g ys"] zs xs ys by simp
    finally show ?thesis by (simp add: xs ys map_blocks_append)
  qed
qed

text \<open>A region that ends past the buffer is not transformed to the end: some block is out of range.\<close>

lemma crypt_blocks_past_end:
  "n mod 8 = 0 \<Longrightarrow> i \<le> length data \<Longrightarrow> length data < i + n \<Longrightarrow> crypt_blocks g data i (i + n) = Panic"
proof (induction n arbitrary: i data rule: less_induct)
  case (less n)
  show ?case
  proof (cases "i + 8 \<le> length data")
    case False
    with less.prems show ?thesis by (subst crypt_blocks.simps) simp
  next
    case True
    with less.prems have n: "8 \<le> n" by presburger
    then have m: "(n - 8) mod 8 = 0" using less.prems(1) by (metis le_mod_geq)
    have e: "i + 8 + (n - 8) = i + n" using n by simp
    have "crypt_blocks g d (i + 8) (i + n) = Panic" if "length d = length data" for d
      using less.IH [of "n - 8" "i + 8" d] n m that True less.prems(3) e by auto
    with True n show ?thesis
      by (subst crypt_blocks.simps) (auto simp: split_beta Let_def)
  qed
qed

section \<open>The contract of a block cipher\<close>

locale block_cipher =
  fixes enc :: "u32 \<times> u32 \<Rightarrow> u32 \<times> u32"
    and dec :: "u32 \<times> u32 \<Rightarrow> u32 \<times> u32"
  assumes dec_enc: "dec (enc x) = x"
begin

lemma block_undo:
  assumes "length xs = 8"
  shows "block_bytes dec (block_bytes enc xs) = xs"
proof -
  obtain l r where lr: "enc (le_word (take 4 xs), le_word (take 4 (drop 4 xs))) = (l, r)"
    by fastforce
  then have "dec (l, r) = (le_word (take 4 xs), le_word (take 4 (drop 4 xs)))"
    using dec_enc by metis
  with lr assms show ?thesis
    by (simp add: block_bytes_def le_bytes_le_word')
qed

lemma blocks_undo: "map_blocks dec (map_blocks enc xs) = xs"
proof (induction xs rule: length_induct)
  case (1 xs)
  show ?case
  proof (cases "length xs < 8")
    case False
    then obtain ys zs where "xs = ys @ zs" and "length ys = 8" by (rule split_block)
    with "1.IH" show ?thesis by (simp add: map_blocks_append block_undo)
  qed simp
qed

lemma crypt_undo:
  assumes "crypt_blocks enc (pre @ mid @ post) (length pre) (length pre + length mid) = Ok data'"
    and "length mid mod 8 = 0"
  shows "crypt_blocks dec data' (length pre) (length pre + length mid) = Ok (pre @ mid @ post)"
  using assms crypt_blocks_eq [of "map_blocks enc mid" dec pre post]
  by (simp add: crypt_blocks_eq blocks_undo)

end

interpretation bf_cipher: block_cipher "encipher_block bf" "decipher_block bf" for bf
  by unfold_locales (rule decipher_encipher_block)

lemma bf_cipher_converse: "bf_wf bf \<Longrightarrow> block_cipher (decipher_block bf) (encipher_block bf)"
  by unfold_locales (rule encipher_decipher_block)

section \<open>Key words and sign extension\<close>

text \<open>The run of ones a negative key byte leaves from bit \<open>m\<close> upwards.\<close>

definition sign_run :: "nat \<Rightarrow> bool \<Rightarrow> u32" where
  "sign_run m c = (if c then push_bit m (- 1) else 0)"

lemma push_sign_run: "push_bit k (sign_run m c) = sign_run (k + m) c"
  by (rule bit_word_eqI) (auto simp: sign_run_def bit_simps)

lemma sign_run_32: "sign_run 32 c = 0"
  by (rule bit_word_eqI) (auto simp: sign_run_def bit_simps)

lemma scast_byte: "(scast (k :: u8) :: u32) = ucast k OR sign_run 8 (bit k 7)"
proof (rule bit_word_eqI)
  fix n assume "n < LENGTH(32)"
  moreover have "n < 7 \<or> n = 7 \<or> 8 \<le> n" by arith
  ultimately show "bit (scast k :: u32) n \<longleftrightarrow> bit (ucast k OR sign_run 8 (bit k 7) :: u32) n"
    by (auto simp: sign_run_def bit_simps min_def dest: bit_imp_le_length)
qed

lemma fold_key_bytes:
  fixes k0 k1 k2 k3 :: u8
  shows "push_bit 8 (push_bit 8 (push_bit 8 (push_bit 8 0 OR scast k0) OR scast k1) OR scast k2)
      OR (scast k3 :: u32)
    = be_word [k0, k1, k2, k3] OR sign_run 24 (bit k1 7) OR sign_run 16 (bit k2 7) OR sign_run 8 (bit k3 7)"
  by (simp add: scast_byte endian_eval push_bit_or push_sign_run sign_run_32 ac_simps)

lemma key_word_steps: "key_word key j = key_step key (key_step key (key_step key (key_step key (0, j))))"
  by (simp add: key_word_def numeral_eq_Suc)

section \<open>The schedule keeps the shape of the state\<close>

lemma length_xor_key [simp]: "length (xor_key key j ps) = length ps"
  by (induction ps arbitrary: j) (simp_all add: split_beta Let_def)

lemma bf_wf_initial: "bf_wf initial_blowfish"
  by (auto simp: bf_wf_def initial_blowfish_def BF_N_def)

lemma bf_wf_fill_p: "bf_wf (fst st) \<Longrightarrow> bf_wf (fst (fill_p i st))"
  by (simp add: fill_p_def split_beta Let_def bf_wf_def)

lemma bf_wf_fill_s: "bf_wf (fst st) \<Longrightarrow> fst ij < 4 \<Longrightarrow> bf_wf (fst (fill_s ij st))"
  by (auto simp: fill_s_def split_beta Let_def bf_wf_def dest!: set_update_subset_insert [THEN subsetD])

lemma bf_wf_fold_p: "bf_wf (fst st) \<Longrightarrow> bf_wf (fst (fold fill_p is st))"
  by (induction "is" arbitrary: st) (simp_all add: bf_wf_fill_p)

lemma bf_wf_fold_s:
  "bf_wf (fst st) \<Longrightarrow> \<forall>ij \<in> set ijs. fst ij < 4 \<Longrightarrow> bf_wf (fst (fold fill_s ijs st))"
  by (induction ijs arbitrary: st) (simp_all add: bf_wf_fill_s)

lemma bf_wf_initialize: "bf_wf (bf_initialize key)"
proof -
  have "bf_wf (initial_blowfish\<lparr>bf_p := xor_key key 0 (bf_p initial_blowfish)\<rparr>)"
    using bf_wf_initial by (simp add: bf_wf_def)
  then show ?thesis
    unfolding bf_initialize_def Let_def
    by (intro bf_wf_fold_s bf_wf_fold_p) auto
qed

section \<open>Properties\<close>

text \<open>A region of a buffer, cut out so that the block map applies.\<close>

lemma crypt_region:
  assumes "offset + len \<le> length data" and "len mod 8 = 0"
  shows "crypt_blocks g data offset (offset + len) =
    Ok (take offset data @ map_blocks g (take len (drop offset data)) @ drop (offset + len) data)"
proof -
  have "data = take offset data @ take len (drop offset data) @ drop (offset + len) data"
    by (metis add.commute append_take_drop_id drop_drop)
  moreover have "length (take offset data) = offset" "length (take len (drop offset data)) = len"
    using assms(1) by simp_all
  ultimately show ?thesis
    using assms(2) crypt_blocks_eq [of "take len (drop offset data)" g "take offset data" "drop (offset + len) data"]
    by simp
qed

lemma region_of_crypted:
  assumes "offset + len \<le> length data" and "length mid = len"
  defines "data' \<equiv> take offset data @ mid @ drop (offset + len) data"
  shows "length data' = length data" and "take offset data' = take offset data"
    and "take len (drop offset data') = mid" and "drop (offset + len) data' = drop (offset + len) data"
  using assms(1,2) by (simp_all add: data'_def)

text \<open>
  C7: Deciphering undoes enciphering on any block-aligned region of a buffer, and enciphering undoes
  deciphering. Neither fails or panics there, and neither touches a byte outside the region.
\<close>

theorem blowfish_region_roundtrip:
  assumes "offset + len \<le> length data" and "length data < 2 ^ 64" and "len mod 8 = 0" and "bf_wf bf"
  shows "\<exists>enc dec. bf_encipher bf data offset len = Ok enc \<and> bf_decipher bf enc offset len = Ok data
    \<and> bf_decipher bf data offset len = Ok dec \<and> bf_encipher bf dec offset len = Ok data
    \<and> length enc = length data \<and> take offset enc = take offset data
    \<and> drop (offset + len) enc = drop (offset + len) data"
proof -
  let ?mid = "take len (drop offset data)"
  let ?wrap = "\<lambda>mid. take offset data @ mid @ drop (offset + len) data"
  let ?enc = "?wrap (map_blocks (encipher_block bf) ?mid)"
  let ?dec = "?wrap (map_blocks (decipher_block bf) ?mid)"
  have mid: "length ?mid = len" using assms(1) by simp
  have id: "?wrap ?mid = data"
    by (metis add.commute append_take_drop_id drop_drop)
  have run: "crypt_blocks g (?wrap m) offset (offset + len) = Ok (?wrap (map_blocks g m))"
    if "length m = len" for g m
    using crypt_region [of offset len "?wrap m" g] region_of_crypted [OF assms(1) that] assms(1,3) by simp
  have e: "crypt_blocks (encipher_block bf) data offset (offset + len) = Ok ?enc"
    using run [OF mid] by (simp only: id)
  have d: "crypt_blocks (decipher_block bf) data offset (offset + len) = Ok ?dec"
    using run [OF mid] by (simp only: id)
  have de: "crypt_blocks (decipher_block bf) ?enc offset (offset + len) = Ok data"
    using run [of "map_blocks (encipher_block bf) ?mid"] mid
    by (simp only: length_map_blocks bf_cipher.blocks_undo id)
  have ed: "crypt_blocks (encipher_block bf) ?dec offset (offset + len) = Ok data"
    using run [of "map_blocks (decipher_block bf) ?mid"] mid
      block_cipher.blocks_undo [OF bf_cipher_converse [OF assms(4)]]
    by (simp only: length_map_blocks id)
  have add: "usize_add offset len = offset + len" using assms(1,2) by simp
  show ?thesis
    using e d de ed assms(3) region_of_crypted [OF assms(1), of "map_blocks (encipher_block bf) ?mid"] mid
    unfolding bf_encipher_def bf_decipher_def add by simp
qed

theorem blowfish_region_roundtrip_witness:
  "bf_wf initial_blowfish \<and> (\<exists>enc dec. bf_encipher initial_blowfish (replicate 24 7) 8 16 = Ok enc
    \<and> bf_decipher initial_blowfish enc 8 16 = Ok (replicate 24 7)
    \<and> bf_decipher initial_blowfish (replicate 24 7) 8 16 = Ok dec
    \<and> bf_encipher initial_blowfish dec 8 16 = Ok (replicate 24 7))"
  using blowfish_region_roundtrip [of 8 16 "replicate 24 7" initial_blowfish] bf_wf_initial by auto

text \<open>
  The exact failure behaviour of both buffer operations: a length that is not a whole number of
  blocks is the misalignment error, decided before any byte is touched; a block-aligned, non-empty
  region that runs past the end of the buffer panics; an aligned region inside it succeeds.
\<close>

theorem blowfish_buffer_outcomes:
  assumes "offset + len < 2 ^ 64" and "offset \<le> length data"
  shows "(bf_encipher bf data offset len = Err (BlowfishBlockMisaligned len)) = (len mod 8 \<noteq> 0)
    \<and> (bf_encipher bf data offset len = Panic) = (len mod 8 = 0 \<and> length data < offset + len)
    \<and> (bf_decipher bf data offset len = Err (BlowfishBlockMisaligned len)) = (len mod 8 \<noteq> 0)
    \<and> (bf_decipher bf data offset len = Panic) = (len mod 8 = 0 \<and> length data < offset + len)"
proof -
  have ok: "\<exists>d. crypt_blocks g data offset (offset + len) = Ok d"
    if "len mod 8 = 0" "offset + len \<le> length data" for g
    using that by (simp add: crypt_region)
  have bad: "crypt_blocks g data offset (offset + len) = Panic"
    if "len mod 8 = 0" "length data < offset + len" for g
    using crypt_blocks_past_end [of len offset data g] that assms(2) by simp
  show ?thesis
    using assms(1) ok [of "encipher_block bf"] ok [of "decipher_block bf"]
      bad [of "encipher_block bf"] bad [of "decipher_block bf"]
    unfolding bf_encipher_def bf_decipher_def by (cases "offset + len \<le> length data") auto
qed

theorem blowfish_buffer_outcomes_witness:
  "bf_encipher initial_blowfish (replicate 8 1) 0 7 = Err (BlowfishBlockMisaligned 7)
   \<and> bf_decipher initial_blowfish (replicate 8 1) 0 16 = Panic"
  using blowfish_buffer_outcomes [of 0 7 "replicate 8 1" initial_blowfish]
    blowfish_buffer_outcomes [of 0 16 "replicate 8 1" initial_blowfish] by simp

text \<open>
  \<open>Blowfish::new\<close> panics exactly on the empty key and otherwise returns a state with 18 subkeys
  and four S-boxes of 256 entries, so that every table index of the block transformation is in range.
\<close>

theorem blowfish_new_shape:
  "(blowfish_new key = Panic) = (key = [])
   \<and> (key \<noteq> [] \<longrightarrow> (\<exists>bf. blowfish_new key = Ok bf \<and> length (bf_p bf) = 18 \<and> length (bf_s bf) = 4
         \<and> (\<forall>s \<in> set (bf_s bf). length s = 256)))"
  using bf_wf_initialize [of key] by (simp add: blowfish_new_def bf_wf_def BF_N_def)

theorem blowfish_new_shape_witness:
  "\<exists>bf. blowfish_new [0x61, 0x62] = Ok bf \<and> length (bf_p bf) = 18"
  using blowfish_new_shape [of "[0x61, 0x62]"] by auto

text \<open>
  The four key bytes read at index \<open>j\<close> (cyclically) form the big-endian word of stock Blowfish,
  except that each of the last three bytes with its high bit set overwrites every more significant
  bit with ones, the sign-extension quirk of the client; in particular a key of 7-bit bytes gives
  exactly the stock schedule input.
\<close>

theorem key_word_sign_extension:
  fixes key :: "u8 list" and j :: nat
  defines "k \<equiv> \<lambda>i. key ! ((j + i) mod length key)"
  assumes "j < length key"
  shows "key_word key j = (be_word [k 0, k 1, k 2, k 3] OR sign_run 24 (bit (k 1) 7)
      OR sign_run 16 (bit (k 2) 7) OR sign_run 8 (bit (k 3) 7), (j + 4) mod length key)
    \<and> ((\<forall>b \<in> set key. b < 0x80) \<longrightarrow> fst (key_word key j) = be_word [k 0, k 1, k 2, k 3])"
proof -
  have main: "key_word key j = (be_word [k 0, k 1, k 2, k 3] OR sign_run 24 (bit (k 1) 7)
      OR sign_run 16 (bit (k 2) 7) OR sign_run 8 (bit (k 3) 7), (j + 4) mod length key)"
    unfolding key_word_steps key_step_def prod.case fold_key_bytes k_def
    using assms(2) by (simp add: mod_Suc_eq numeral_eq_Suc)
  have "\<not> bit (k i) 7" if "\<forall>b \<in> set key. b < 0x80" for i
  proof -
    have "(j + i) mod length key < length key" using assms(2) by (intro mod_less_divisor) auto
    then have "k i \<in> set key" by (simp add: k_def)
    with that have "unat (k i) < 2 ^ 7" by (auto simp: word_less_nat_alt)
    moreover have "unat (drop_bit 7 (k i)) = unat (k i) div 2 ^ 7"
      by (simp only: unat_drop_bit_eq) (simp only: drop_bit_eq_div)
    ultimately have "drop_bit 7 (k i) = 0" by (simp only: unat_eq_zero [symmetric]) simp
    then have "\<not> bit (drop_bit 7 (k i)) 0" by simp
    then show ?thesis unfolding bit_drop_bit_eq by simp
  qed
  with main show ?thesis by (auto simp: sign_run_def)
qed

theorem key_word_sign_extension_witness:
  "fst (key_word [0x64, 0x65, 0x61, 0x64] 0) = 0x64656164
   \<and> fst (key_word [0x64, 0x65, 0x61, 0xFF] 0) = 0x646561FF OR sign_run 8 True"
  using key_word_sign_extension [of 0 "[0x64, 0x65, 0x61, 0x64]"]
    key_word_sign_extension [of 0 "[0x64, 0x65, 0x61, 0xFF]"]
  by (simp add: endian_eval sign_run_def)

end
