(* ===== verification/SubPacket.thy ===== *)
theory SubPacket
  imports Prelude
begin

text \<open>
  \<open>common/src/subpacket.rs\<close>: the 16-byte subpacket header, the 16-byte game-message header, and
  the subpacket with its parser, serialiser and the target-stamping walk over a serialised stream.
  Offsets and lengths are \<open>nat\<close>; the \<open>&mut usize\<close> offset of the source is an argument and part of
  the result. The clock read by the constructor is the argument \<open>now\<close>. The locale \<open>fixed_codec\<close> is
  the contract of a fixed-size header; both headers here and the packet header interpret it.
\<close>

section \<open>Headers\<close>

definition SUBPACKET_SIZE :: nat where
  "SUBPACKET_SIZE = 0x10"

definition GAMEMESSAGE_SIZE :: nat where
  "GAMEMESSAGE_SIZE = 0x10"

definition SUBPACKET_TYPE_GAMEMESSAGE :: u16 where
  "SUBPACKET_TYPE_GAMEMESSAGE = 0x03"

lemmas sizes = SUBPACKET_SIZE_def GAMEMESSAGE_SIZE_def SUBPACKET_TYPE_GAMEMESSAGE_def

record subpacket_header =
  subpacket_size :: u16
  sp_type :: u16
  source_id :: u32
  target_id :: u32
  sp_unknown1 :: u32

record game_message_header =
  unknown4 :: u16
  opcode :: u16
  unknown5 :: u32
  gm_timestamp :: u32
  unknown6 :: u32

text \<open>A little-endian field of \<open>n\<close> bytes at \<open>pos\<close>, as the cursor reads it.\<close>

definition le_field :: "u8 list \<Rightarrow> nat \<Rightarrow> nat \<Rightarrow> 'a::len word" where
  "le_field buf pos n = le_word (take n (drop pos buf))"

definition subpacket_header_read :: "u8 list \<Rightarrow> (packet_error, subpacket_header) outcome" where
  "subpacket_header_read buf =
     (if length buf < SUBPACKET_SIZE then Err (TooSmall SUBPACKET_SIZE (length buf))
      else Ok \<lparr>subpacket_size = le_field buf 0 2, sp_type = le_field buf 2 2,
               source_id = le_field buf 4 4, target_id = le_field buf 8 4,
               sp_unknown1 = le_field buf 12 4\<rparr>)"

definition subpacket_header_write :: "subpacket_header \<Rightarrow> u8 list" where
  "subpacket_header_write h =
     le_bytes 2 (subpacket_size h) @ le_bytes 2 (sp_type h) @ le_bytes 4 (source_id h)
       @ le_bytes 4 (target_id h) @ le_bytes 4 (sp_unknown1 h)"

definition subpacket_header_default :: subpacket_header where
  "subpacket_header_default =
     \<lparr>subpacket_size = 0, sp_type = 0, source_id = 0, target_id = 0, sp_unknown1 = 0\<rparr>"

definition game_message_read :: "u8 list \<Rightarrow> (packet_error, game_message_header) outcome" where
  "game_message_read buf =
     (if length buf < GAMEMESSAGE_SIZE then Err (TooSmall GAMEMESSAGE_SIZE (length buf))
      else Ok \<lparr>unknown4 = le_field buf 0 2, opcode = le_field buf 2 2,
               unknown5 = le_field buf 4 4, gm_timestamp = le_field buf 8 4,
               unknown6 = le_field buf 12 4\<rparr>)"

definition game_message_write :: "game_message_header \<Rightarrow> u8 list" where
  "game_message_write h =
     le_bytes 2 (unknown4 h) @ le_bytes 2 (opcode h) @ le_bytes 4 (unknown5 h)
       @ le_bytes 4 (gm_timestamp h) @ le_bytes 4 (unknown6 h)"

definition game_message_default :: game_message_header where
  "game_message_default =
     \<lparr>unknown4 = 0, opcode = 0, unknown5 = 0, gm_timestamp = 0, unknown6 = 0\<rparr>"

section \<open>The contract of a fixed-size header\<close>

locale fixed_codec =
  fixes size_of :: nat
    and get :: "u8 list \<Rightarrow> (packet_error, 'h) outcome"
    and put :: "'h \<Rightarrow> u8 list"
  assumes length_put: "length (put h) = size_of"
    and get_short: "length buf < size_of \<Longrightarrow> get buf = Err (TooSmall size_of (length buf))"
    and get_put: "get (put h @ rest) = Ok h"
    and put_get: "get buf = Ok h \<Longrightarrow> put h = take size_of buf"
begin

lemma get_exact: "get (put h) = Ok h"
  using get_put [of h "[]"] by simp

lemma get_total:
  assumes "size_of \<le> length buf"
  shows "get buf = Ok h \<longleftrightarrow> put h = take size_of buf"
proof
  assume "put h = take size_of buf"
  then have "buf = put h @ drop size_of buf" by (metis append_take_drop_id)
  then show "get buf = Ok h" using get_put by metis
qed (rule put_get)

lemma get_ignores_tail:
  assumes "size_of \<le> length buf" and "get buf = Ok h"
  shows "get (take size_of buf @ rest) = Ok h"
  using assms put_get get_put by metis

lemma put_inj: "put h = put h' \<Longrightarrow> h = h'"
  using get_exact by (metis outcome.inject(1))

end

lemma le_field_append [simp]:
  "le_field (le_bytes n w @ rest) 0 n = (le_word (le_bytes n w) :: 'a::len word)"
  "m \<le> pos \<Longrightarrow> le_field (le_bytes m v @ rest) pos n = (le_field rest (pos - m) n :: 'a::len word)"
  by (simp_all add: le_field_def)

lemma le_bytes_field:
  "pos + n \<le> length buf \<Longrightarrow> 8 * n \<le> LENGTH('a) \<Longrightarrow>
     le_bytes n (le_field buf pos n :: 'a::len word) = take n (drop pos buf)"
  by (simp add: le_field_def le_bytes_le_word')

text \<open>Consecutive fields glue back to the buffer they were cut from.\<close>

lemma take_split: "take (m + n) xs = take m xs @ take n (drop m xs)"
  by (simp add: take_add)

lemma fields_16:
  "take 2 buf @ take 2 (drop 2 buf) @ take 4 (drop 4 buf) @ take 4 (drop 8 buf) @ take 4 (drop 12 buf)
     = take 16 buf"
  using take_split [of 2 14 buf] take_split [of 2 12 "drop 2 buf"] take_split [of 4 8 "drop 4 buf"]
    take_split [of 4 4 "drop 8 buf"] by simp

interpretation sp_codec: fixed_codec SUBPACKET_SIZE subpacket_header_read subpacket_header_write
proof
  fix buf :: "u8 list" and h :: subpacket_header
  assume r: "subpacket_header_read buf = Ok h"
  then have "16 \<le> length buf" by (auto simp: subpacket_header_read_def sizes split: if_splits)
  with r show "subpacket_header_write h = take SUBPACKET_SIZE buf"
    by (auto simp: subpacket_header_read_def subpacket_header_write_def le_bytes_field sizes fields_16
        split: if_splits)
qed (simp_all add: subpacket_header_read_def subpacket_header_write_def sizes)

interpretation gm_codec: fixed_codec GAMEMESSAGE_SIZE game_message_read game_message_write
proof
  fix buf :: "u8 list" and h :: game_message_header
  assume r: "game_message_read buf = Ok h"
  then have "16 \<le> length buf" by (auto simp: game_message_read_def sizes split: if_splits)
  with r show "game_message_write h = take GAMEMESSAGE_SIZE buf"
    by (auto simp: game_message_read_def game_message_write_def le_bytes_field sizes fields_16
        split: if_splits)
qed (simp_all add: game_message_read_def game_message_write_def sizes)

section \<open>The subpacket\<close>

record subpacket =
  sp_header :: subpacket_header
  sp_game_message :: game_message_header
  sp_data :: "u8 list"

definition new_with_flag :: "u32 \<Rightarrow> bool \<Rightarrow> u16 \<Rightarrow> u32 \<Rightarrow> u8 list \<Rightarrow> subpacket" where
  "new_with_flag now is_game_message op source data =
     (let gm = (if is_game_message
                then game_message_default\<lparr>opcode := op, gm_timestamp := now, unknown4 := 0x14\<rparr>
                else game_message_default);
          ty = (if is_game_message then SUBPACKET_TYPE_GAMEMESSAGE else op);
          sz = of_nat (SUBPACKET_SIZE + length data);
          sz = (if is_game_message then sz + of_nat GAMEMESSAGE_SIZE else sz)
      in \<lparr>sp_header = subpacket_header_default\<lparr>source_id := source, sp_type := ty, subpacket_size := sz\<rparr>,
          sp_game_message = gm, sp_data = data\<rparr>)"

definition subpacket_new :: "u32 \<Rightarrow> u16 \<Rightarrow> u32 \<Rightarrow> u8 list \<Rightarrow> subpacket" where
  "subpacket_new now op source data = new_with_flag now True op source data"

definition with_target :: "subpacket \<Rightarrow> u32 \<Rightarrow> subpacket" where
  "with_target other new_target =
     \<lparr>sp_header = (sp_header other)\<lparr>target_id := new_target\<rparr>,
      sp_game_message = sp_game_message other, sp_data = sp_data other\<rparr>"

definition set_target_id :: "subpacket \<Rightarrow> u32 \<Rightarrow> subpacket" where
  "set_target_id sp target = sp\<lparr>sp_header := (sp_header sp)\<lparr>target_id := target\<rparr>\<rparr>"

text \<open>The declared size at \<open>off\<close>: the first two bytes of a subpacket.\<close>

definition size_at :: "u8 list \<Rightarrow> nat \<Rightarrow> nat" where
  "size_at bytes off = unat (le_word [bytes ! off, bytes ! (off + 1)] :: u16)"

function stamp_loop :: "u32 \<Rightarrow> u8 list \<Rightarrow> nat \<Rightarrow> nat \<Rightarrow> u8 list \<times> nat" where
  "stamp_loop target bytes off stamped =
     (if off + SUBPACKET_SIZE \<le> length bytes then
        (let size = size_at bytes off
         in if size < SUBPACKET_SIZE \<or> length bytes < off + size then (bytes, stamped)
            else (let t = off + 8
                  in if take 4 (drop t bytes) = [0, 0, 0, 0]
                     then stamp_loop target (overwrite bytes t (le_bytes 4 target)) (off + size) (stamped + 1)
                     else stamp_loop target bytes (off + size) stamped))
      else (bytes, stamped))"
  by pat_completeness auto
termination
  by (relation "measure (\<lambda>(target, bytes, off, stamped). length bytes - off)")
    (auto simp: SUBPACKET_SIZE_def not_less)

declare stamp_loop.simps [simp del]

definition stamp_target_id_if_zero :: "u8 list \<Rightarrow> u32 \<Rightarrow> u8 list \<times> nat" where
  "stamp_target_id_if_zero bytes target = stamp_loop target bytes 0 0"

definition subpacket_parse :: "u8 list \<Rightarrow> nat \<Rightarrow> (packet_error, subpacket \<times> nat) outcome" where
  "subpacket_parse bytes offset =
     (if length bytes < offset + SUBPACKET_SIZE
      then Err (TooSmall (offset + SUBPACKET_SIZE) (length bytes))
      else bind_outcome (bind_outcome (slice_of bytes offset (offset + SUBPACKET_SIZE)) subpacket_header_read)
       (\<lambda>header.
         let size = unat (subpacket_size header);
             is_gm = (sp_type header = SUBPACKET_TYPE_GAMEMESSAGE);
             min_size = (if is_gm then SUBPACKET_SIZE + GAMEMESSAGE_SIZE else SUBPACKET_SIZE)
         in if size < min_size then Err (SizeMismatch size (length bytes - offset))
            else if length bytes < offset + size then Err (SizeMismatch size (length bytes - offset))
            else bind_outcome
              (if is_gm
               then bind_outcome
                 (slice_of bytes (offset + SUBPACKET_SIZE) (offset + SUBPACKET_SIZE + GAMEMESSAGE_SIZE))
                 game_message_read
               else Ok game_message_default)
              (\<lambda>gm.
                let data_start = (if is_gm then offset + SUBPACKET_SIZE + GAMEMESSAGE_SIZE
                                  else offset + SUBPACKET_SIZE);
                    data_end = offset + size
                in bind_outcome (slice_of bytes data_start data_end)
                  (\<lambda>data. Ok (\<lparr>sp_header = header, sp_game_message = gm, sp_data = data\<rparr>, offset + size)))))"

definition subpacket_try_parse :: "u8 list \<Rightarrow> nat \<Rightarrow> nat \<Rightarrow> (subpacket \<times> nat) option" where
  "subpacket_try_parse buffer offset bytes_read =
     (if bytes_read \<le> offset \<or> length buffer < offset + 2 then None
      else let size = size_at buffer offset
           in if bytes_read < offset + size \<or> length buffer < offset + size then None
              else (case subpacket_parse buffer offset of Ok r \<Rightarrow> Some r | _ \<Rightarrow> None))"

definition subpacket_to_bytes :: "subpacket \<Rightarrow> (packet_error, u8 list) outcome" where
  "subpacket_to_bytes sp =
     (let total = unat (subpacket_size (sp_header sp));
          is_gm = (sp_type (sp_header sp) = SUBPACKET_TYPE_GAMEMESSAGE);
          out = replicate total 0
      in bind_outcome (copy_from_slice out 0 (subpacket_header_write (sp_header sp)))
        (\<lambda>out. bind_outcome
          (if is_gm then copy_from_slice out SUBPACKET_SIZE (game_message_write (sp_game_message sp)) else Ok out)
          (\<lambda>out. copy_from_slice out
             (if is_gm then SUBPACKET_SIZE + GAMEMESSAGE_SIZE else SUBPACKET_SIZE) (sp_data sp))))"

section \<open>Well-formed subpackets and their bytes\<close>

definition is_gm :: "subpacket \<Rightarrow> bool" where
  "is_gm sp \<longleftrightarrow> sp_type (sp_header sp) = SUBPACKET_TYPE_GAMEMESSAGE"

definition sp_len :: "subpacket \<Rightarrow> nat" where
  "sp_len sp = unat (subpacket_size (sp_header sp))"

text \<open>The declared size is the real one, and only a game message carries a game-message header.\<close>

definition sp_wf :: "subpacket \<Rightarrow> bool" where
  "sp_wf sp \<longleftrightarrow>
     sp_len sp = SUBPACKET_SIZE + (if is_gm sp then GAMEMESSAGE_SIZE else 0) + length (sp_data sp)
     \<and> (is_gm sp \<or> sp_game_message sp = game_message_default)"

definition sp_bytes :: "subpacket \<Rightarrow> u8 list" where
  "sp_bytes sp = subpacket_header_write (sp_header sp)
     @ (if is_gm sp then game_message_write (sp_game_message sp) else []) @ sp_data sp"

lemma length_header_write [simp]: "length (subpacket_header_write h) = 16"
  and length_gm_write [simp]: "length (game_message_write g) = 16"
  using sp_codec.length_put gm_codec.length_put by (simp_all add: sizes)

lemma length_sp_bytes [simp]: "sp_wf sp \<Longrightarrow> length (sp_bytes sp) = sp_len sp"
  by (auto simp: sp_wf_def sp_bytes_def sizes)

lemma sp_len_ge: "sp_wf sp \<Longrightarrow> 16 \<le> sp_len sp"
  by (simp add: sp_wf_def sizes)

lemma slice_of_append:
  "slice_of (pre @ mid @ post) (length pre) (length pre + length mid) = Ok mid"
  by (simp add: slice_of_def)

lemma slice_of_append':
  "a = length pre \<Longrightarrow> b = a + length mid \<Longrightarrow> slice_of (pre @ mid @ post) a b = Ok mid"
  by (simp add: slice_of_append)

lemma subpacket_to_bytes_wf:
  assumes "sp_wf sp"
  shows "subpacket_to_bytes sp = Ok (sp_bytes sp)"
  using assms
  by (auto simp: subpacket_to_bytes_def sp_bytes_def sp_wf_def sp_len_def is_gm_def copy_from_slice_def
      overwrite_def sizes Let_def)

lemma subpacket_parse_wf:
  assumes wf: "sp_wf sp"
  shows "subpacket_parse (pre @ sp_bytes sp @ post) (length pre) = Ok (sp, length pre + sp_len sp)"
proof -
  let ?h = "subpacket_header_write (sp_header sp)"
  let ?g = "if is_gm sp then game_message_write (sp_game_message sp) else []"
  let ?bs = "pre @ sp_bytes sp @ post"
  have len: "16 \<le> sp_len sp" "length (sp_bytes sp) = sp_len sp"
    using wf by (simp_all add: sp_len_ge)
  have h: "(slice_of ?bs (length pre) (length pre + 16) :: (packet_error, u8 list) outcome) = Ok ?h"
    by (simp add: sp_bytes_def slice_of_append')
  have g: "(slice_of ?bs (length pre + 16) (32 + length pre) :: (packet_error, u8 list) outcome)
      = Ok (game_message_write (sp_game_message sp))"
    if "is_gm sp"
    using slice_of_append' [of "length pre + 16" "pre @ ?h" "32 + length pre" ?g "sp_data sp @ post"] that
    by (simp add: sp_bytes_def)
  have d: "(slice_of ?bs (if is_gm sp then 32 + length pre else length pre + 16) (length pre + sp_len sp)
      :: (packet_error, u8 list) outcome) = Ok (sp_data sp)"
    using slice_of_append' [of _ "pre @ ?h @ ?g" "length pre + sp_len sp" "sp_data sp" post] wf
    by (auto simp: sp_bytes_def sp_wf_def sizes add.commute [of 32])
  show ?thesis
    using wf len h g d sp_codec.get_exact [of "sp_header sp"] gm_codec.get_exact [of "sp_game_message sp"]
    by (cases "is_gm sp")
      (simp_all add: subpacket_parse_def Let_def sp_wf_def sizes sp_len_def [symmetric] is_gm_def)
qed

lemma slice_of_Ok: "slice_of xs a b = Ok ys \<longleftrightarrow> a \<le> b \<and> b \<le> length xs \<and> ys = take (b - a) (drop a xs)"
  by (auto simp: slice_of_def)

lemma subpacket_parse_sound:
  assumes p: "subpacket_parse bytes offset = Ok (sp, offset')"
  shows "sp_wf sp \<and> offset' = offset + sp_len sp \<and> offset' \<le> length bytes
    \<and> sp_bytes sp = take (sp_len sp) (drop offset bytes)"
proof -
  have len: "offset + 16 \<le> length bytes"
    using p by (auto simp: subpacket_parse_def sizes split: if_splits)
  let ?gm = "is_gm sp"
  have gmd: "sp_type (sp_header sp) = SUBPACKET_TYPE_GAMEMESSAGE \<longleftrightarrow> ?gm" by (simp add: is_gm_def)
  from p len have
    hdr: "subpacket_header_read (take 16 (drop offset bytes)) = Ok (sp_header sp)"
    and gm: "?gm \<Longrightarrow> game_message_read (take 16 (drop (offset + 16) bytes)) = Ok (sp_game_message sp)"
    and no_gm: "\<not> ?gm \<Longrightarrow> sp_game_message sp = game_message_default"
    and size: "16 + (if ?gm then 16 else 0) \<le> sp_len sp" "offset + sp_len sp \<le> length bytes"
    and data: "sp_data sp = take (sp_len sp - (if ?gm then 32 else 16)) (drop (offset + (if ?gm then 32 else 16)) bytes)"
    and off: "offset' = offset + sp_len sp"
    by (auto simp: subpacket_parse_def outcome_simps Let_def slice_of_Ok sp_len_def is_gm_def sizes
        add.commute [of 32] split: if_splits)
  have h: "subpacket_header_write (sp_header sp) = take 16 (drop offset bytes)"
    using sp_codec.put_get [OF hdr] by (simp add: sizes)
  have g: "?gm \<Longrightarrow> game_message_write (sp_game_message sp) = take 16 (drop (offset + 16) bytes)"
    using gm_codec.put_get [OF gm] by (simp add: sizes)
  have "length (sp_data sp) = sp_len sp - (if ?gm then 32 else 16)"
    using data size by simp
  then have wf: "sp_wf sp"
    using size no_gm by (auto simp: sp_wf_def sizes split: if_splits)
  have "sp_bytes sp = take (sp_len sp) (drop offset bytes)"
  proof (cases ?gm)
    case True
    have "take (sp_len sp) (drop offset bytes) = take (16 + (16 + (sp_len sp - 32))) (drop offset bytes)"
      using size(1) True by simp
    then show ?thesis
      using True h g data take_split [of 16 16 "drop offset bytes"]
      by (simp add: sp_bytes_def take_split add.commute)
  next
    case False
    have "take (sp_len sp) (drop offset bytes) = take (16 + (sp_len sp - 16)) (drop offset bytes)"
      using size(1) False by simp
    then show ?thesis
      using False h data by (simp add: sp_bytes_def take_split add.commute)
  qed
  with wf off size(2) show ?thesis by blast
qed

lemma new_with_flag_wf:
  assumes "SUBPACKET_SIZE + (if flag then GAMEMESSAGE_SIZE else 0) + length data < 2 ^ 16"
    and "flag \<or> op \<noteq> SUBPACKET_TYPE_GAMEMESSAGE"
  shows "sp_wf (new_with_flag now flag op source data)"
proof (cases flag)
  case True
  have "of_nat (16 + length data) + 16 = (of_nat (32 + length data) :: u16)" by simp
  moreover have "unat (of_nat (32 + length data) :: u16) = 32 + length data"
    using assms(1) True by (simp only: unat_of_nat) (simp add: sizes)
  ultimately show ?thesis
    using True by (simp add: new_with_flag_def sp_wf_def sp_len_def is_gm_def sizes)
next
  case False
  have "unat (of_nat (16 + length data) :: u16) = 16 + length data"
    using assms(1) False by (simp only: unat_of_nat) (simp add: sizes)
  then show ?thesis
    using False assms(2) by (simp add: new_with_flag_def sp_wf_def sp_len_def is_gm_def sizes)
qed

section \<open>Streams of subpackets\<close>

definition sp_stream :: "subpacket list \<Rightarrow> u8 list" where
  "sp_stream sps = concat (map sp_bytes sps)"

lemma sp_stream_simps [simp]:
  "sp_stream [] = []" "sp_stream (sp # sps) = sp_bytes sp @ sp_stream sps"
  "sp_stream (xs @ ys) = sp_stream xs @ sp_stream ys"
  by (simp_all add: sp_stream_def)

lemma size_at_take: "off + 2 \<le> length bs \<Longrightarrow> size_at bs off = unat (le_word (take 2 (drop off bs)) :: u16)"
proof -
  assume "off + 2 \<le> length bs"
  then have "take 2 (drop off bs) = [bs ! off, bs ! (off + 1)]"
    by (intro nth_equalityI) (auto simp: less_Suc_eq numeral_eq_Suc nth_Cons split: nat.splits)
  then show ?thesis by (simp add: size_at_def)
qed

lemma size_at_stream [simp]: "size_at (pre @ sp_bytes sp @ post) (length pre) = sp_len sp"
  by (simp add: size_at_take sp_bytes_def subpacket_header_write_def sp_len_def)

lemma target_bytes:
  "take 4 (drop 8 (sp_bytes sp)) = le_bytes 4 (target_id (sp_header sp))"
  by (simp add: sp_bytes_def subpacket_header_write_def)

lemma overwrite_target:
  "overwrite (pre @ sp_bytes sp @ post) (length pre + 8) (le_bytes 4 t) = pre @ sp_bytes (set_target_id sp t) @ post"
  by (simp add: sp_bytes_def subpacket_header_write_def overwrite_def set_target_id_def is_gm_def)

lemma le_bytes_zero: "le_bytes 4 (w :: u32) = [0, 0, 0, 0] \<longleftrightarrow> w = 0"
proof -
  have z: "le_bytes 4 (0 :: u32) = [0, 0, 0, 0]" by (simp add: endian_eval numeral_eq_Suc)
  have "w = 0" if "le_bytes 4 w = le_bytes 4 (0 :: u32)"
    using that le_word_le_bytes [of 4 w] le_word_le_bytes [of 4 "0 :: u32"] by simp
  with z show ?thesis by metis
qed

lemma set_target_id_frame [simp]:
  "sp_len (set_target_id sp t) = sp_len sp" "is_gm (set_target_id sp t) = is_gm sp"
  "sp_wf (set_target_id sp t) = sp_wf sp"
  by (simp_all add: sp_len_def set_target_id_def is_gm_def sp_wf_def)

text \<open>What stamping does to one subpacket.\<close>

definition stamped_sp :: "u32 \<Rightarrow> subpacket \<Rightarrow> subpacket" where
  "stamped_sp t sp = (if target_id (sp_header sp) = 0 then set_target_id sp t else sp)"

lemma stamp_loop_stream:
  "\<forall>sp \<in> set sps. sp_wf sp \<Longrightarrow>
     stamp_loop t (pre @ sp_stream sps) (length pre) k =
       (pre @ sp_stream (map (stamped_sp t) sps),
        k + length (filter (\<lambda>sp. target_id (sp_header sp) = 0) sps))"
proof (induction sps arbitrary: pre k)
  case Nil
  then show ?case by (simp add: stamp_loop.simps sizes)
next
  case (Cons sp sps)
  let ?bs = "pre @ sp_bytes sp @ sp_stream sps"
  have wf: "sp_wf sp" "16 \<le> sp_len sp" using Cons.prems by (auto simp: sp_len_ge)
  have step: "stamp_loop t ?bs (length pre) k =
     (if target_id (sp_header sp) = 0
      then stamp_loop t (pre @ sp_bytes (set_target_id sp t) @ sp_stream sps) (length pre + sp_len sp) (k + 1)
      else stamp_loop t ?bs (length pre + sp_len sp) k)"
    using wf by (subst stamp_loop.simps)
      (simp add: sizes target_bytes overwrite_target le_bytes_zero Let_def)
  have "stamp_loop t ((pre @ sp_bytes sp') @ sp_stream sps) (length pre + sp_len sp) k' =
      ((pre @ sp_bytes sp') @ sp_stream (map (stamped_sp t) sps),
        k' + length (filter (\<lambda>sp. target_id (sp_header sp) = 0) sps))"
    if "sp_wf sp'" "sp_len sp' = sp_len sp" for sp' k'
    using Cons.IH [of "pre @ sp_bytes sp'" k'] Cons.prems that by simp
  from this [of sp k] this [of "set_target_id sp t" "k + 1"] step wf
  show ?case
    by (cases "target_id (sp_header sp) = 0") (simp_all add: stamped_sp_def [of t sp])
qed

section \<open>Properties\<close>

text \<open>
  Serialising a subpacket that fits in 16 bits of length and parsing the bytes back, at any place
  in a buffer, gives the subpacket and the offset just after it. This covers both constructors: a
  game message, and a raw subpacket of any type but the game-message type.
\<close>

theorem subpacket_roundtrip:
  assumes "SUBPACKET_SIZE + (if flag then GAMEMESSAGE_SIZE else 0) + length data < 2 ^ 16"
    and "flag \<or> op \<noteq> SUBPACKET_TYPE_GAMEMESSAGE"
  shows "\<exists>bs. subpacket_to_bytes (set_target_id (new_with_flag now flag op source data) target) = Ok bs
    \<and> length bs = SUBPACKET_SIZE + (if flag then GAMEMESSAGE_SIZE else 0) + length data
    \<and> subpacket_parse (pre @ bs @ post) (length pre) =
        Ok (set_target_id (new_with_flag now flag op source data) target, length pre + length bs)"
proof -
  let ?sp = "set_target_id (new_with_flag now flag op source data) target"
  have wf: "sp_wf ?sp" using new_with_flag_wf [OF assms] by simp
  then have "sp_len ?sp = SUBPACKET_SIZE + (if flag then GAMEMESSAGE_SIZE else 0) + length data"
    using assms(2)
    by (auto simp: sp_wf_def is_gm_def set_target_id_def new_with_flag_def Let_def split: if_splits)
  with wf show ?thesis
    using subpacket_to_bytes_wf [OF wf] subpacket_parse_wf [OF wf, of pre post] by simp
qed

theorem subpacket_roundtrip_witness:
  "\<exists>bs. subpacket_to_bytes (set_target_id (new_with_flag 9 True 0xBEEF 0xDEADBEEF [1, 2, 3, 4]) 0) = Ok bs
    \<and> length bs = 36"
  using subpacket_roundtrip [where flag = True and data = "[1, 2, 3, 4]" and op = "0xBEEF" and now = 9
      and source = "0xDEADBEEF" and target = 0]
  by (auto simp add: sizes)

text \<open>
  The parser is total on arbitrary bytes: it never panics. What it accepts is exactly a well-formed
  subpacket lying inside the buffer: serialising the result reproduces the bytes it consumed, and the
  offset moves past at least a header.
\<close>

theorem subpacket_parse_safe:
  "subpacket_parse bytes offset \<noteq> Panic
   \<and> (\<forall>sp offset'. subpacket_parse bytes offset = Ok (sp, offset') \<longrightarrow>
        offset + SUBPACKET_SIZE \<le> offset' \<and> offset' \<le> length bytes
        \<and> subpacket_to_bytes sp = Ok (take (offset' - offset) (drop offset bytes)))"
proof -
  have "subpacket_parse bytes offset \<noteq> Panic"
    by (auto simp: subpacket_parse_def slice_of_def subpacket_header_read_def game_message_read_def
        sizes Let_def)
  moreover have "offset + SUBPACKET_SIZE \<le> offset' \<and> offset' \<le> length bytes
        \<and> subpacket_to_bytes sp = Ok (take (offset' - offset) (drop offset bytes))"
    if "subpacket_parse bytes offset = Ok (sp, offset')" for sp offset'
    using subpacket_parse_sound [OF that] sp_len_ge [of sp] subpacket_to_bytes_wf [of sp]
    by (auto simp: sizes)
  ultimately show ?thesis by blast
qed

theorem subpacket_parse_safe_witness:
  "subpacket_parse (sp_bytes (new_with_flag 0 False 1 7 [9])) 0 \<noteq> Panic
   \<and> subpacket_to_bytes (new_with_flag 0 False 1 7 [9]) = Ok (sp_bytes (new_with_flag 0 False 1 7 [9]))"
proof -
  let ?sp = "new_with_flag 0 False 1 7 [9]"
  have wf: "sp_wf ?sp" by (rule new_with_flag_wf) (simp_all add: sizes)
  then have "subpacket_parse (sp_bytes ?sp) 0 = Ok (?sp, sp_len ?sp)"
    using subpacket_parse_wf [OF wf, of "[]" "[]"] by simp
  then show ?thesis
    using subpacket_parse_safe [of "sp_bytes ?sp" 0] wf by simp
qed

text \<open>
  Stamping a serialised stream of subpackets gives exactly the stream in which every untargeted
  subpacket (target 0) carries the new target and the others are untouched, and returns the number of
  subpackets that were untargeted.
\<close>

theorem stamp_stream_exact:
  assumes "\<forall>sp \<in> set sps. sp_wf sp"
  shows "stamp_target_id_if_zero (sp_stream sps) target =
    (sp_stream (map (stamped_sp target) sps), length (filter (\<lambda>sp. target_id (sp_header sp) = 0) sps))"
  using stamp_loop_stream [OF assms, of target "[]" 0] by (simp add: stamp_target_id_if_zero_def)

theorem stamp_stream_exact_witness:
  "sp_wf (new_with_flag 5 True 0x134 0x1111 [0, 0]) \<and>
   snd (stamp_target_id_if_zero (sp_stream [new_with_flag 5 True 0x134 0x1111 [0, 0],
          set_target_id (new_with_flag 5 True 0x134 0x2222 [0, 0]) 7]) 42) = 1"
proof -
  have wf: "sp_wf (new_with_flag 5 True 0x134 s [0, 0])" for s
    by (rule new_with_flag_wf) (simp_all add: sizes)
  then have wfs: "\<forall>sp \<in> set [new_with_flag 5 True 0x134 0x1111 [0, 0],
      set_target_id (new_with_flag 5 True 0x134 0x2222 [0, 0]) 7]. sp_wf sp" by simp
  have tgt: "target_id (sp_header (new_with_flag 5 True 0x134 s [0, 0])) = 0"
    "target_id (sp_header (set_target_id sp 7)) = 7" for s sp
    by (simp_all add: new_with_flag_def set_target_id_def subpacket_header_default_def Let_def)
  show ?thesis
    using wf [of "0x1111"] stamp_stream_exact [OF wfs, where target = 42] by (simp add: tgt)
qed

end
