(* ===== verification/Packet.thy ===== *)
theory Packet
  imports SubPacket Blowfish
begin

text \<open>
  \<open>common/src/packet.rs\<close>: the base packet, a 16-byte header and a body that is a stream of
  subpackets. Methods on \<open>&mut self\<close> return the packet next to their result. The zlib encoder and
  decoder are library code outside the repository and appear as the function arguments \<open>deflate\<close> and
  \<open>inflate\<close>; the clock is the argument \<open>now\<close>. The two encryption walks are partial functions: \<open>None\<close>
  is a call that never returns, which the release build's wrapping subtraction makes possible.
\<close>

section \<open>Header\<close>

definition BASEPACKET_SIZE :: nat where
  "BASEPACKET_SIZE = 0x10"

record base_packet_header =
  is_authenticated :: u8
  is_compressed :: u8
  connection_type :: u16
  packet_size :: u16
  num_subpackets :: u16
  bp_timestamp :: u64

definition base_header_read :: "u8 list \<Rightarrow> (packet_error, base_packet_header) outcome" where
  "base_header_read buf =
     (if length buf < BASEPACKET_SIZE then Err (TooSmall BASEPACKET_SIZE (length buf))
      else Ok \<lparr>is_authenticated = le_field buf 0 1, is_compressed = le_field buf 1 1,
               connection_type = le_field buf 2 2, packet_size = le_field buf 4 2,
               num_subpackets = le_field buf 6 2, bp_timestamp = le_field buf 8 8\<rparr>)"

definition base_header_write :: "base_packet_header \<Rightarrow> u8 list" where
  "base_header_write h =
     le_bytes 1 (is_authenticated h) @ le_bytes 1 (is_compressed h) @ le_bytes 2 (connection_type h)
       @ le_bytes 2 (packet_size h) @ le_bytes 2 (num_subpackets h) @ le_bytes 8 (bp_timestamp h)"

lemma base_fields_16:
  "take 1 buf @ take 1 (drop 1 buf) @ take 2 (drop 2 buf) @ take 2 (drop 4 buf) @ take 2 (drop 6 buf)
     @ take 8 (drop 8 buf) = take 16 buf"
  using take_split [of 1 15 buf] take_split [of 1 14 "drop 1 buf"] take_split [of 2 12 "drop 2 buf"]
    take_split [of 2 10 "drop 4 buf"] take_split [of 2 8 "drop 6 buf"] by (simp del: One_nat_def)

interpretation bp_codec: fixed_codec BASEPACKET_SIZE base_header_read base_header_write
proof
  fix buf :: "u8 list" and h :: base_packet_header
  assume r: "base_header_read buf = Ok h"
  then have "16 \<le> length buf" by (auto simp: base_header_read_def BASEPACKET_SIZE_def split: if_splits)
  with r show "base_header_write h = take BASEPACKET_SIZE buf"
    by (auto simp: base_header_read_def base_header_write_def le_bytes_field BASEPACKET_SIZE_def
        base_fields_16 simp del: One_nat_def split: if_splits)
qed (simp_all add: base_header_read_def base_header_write_def BASEPACKET_SIZE_def)

lemma length_base_header [simp]: "length (base_header_write h) = 16"
  using bp_codec.length_put by (simp add: BASEPACKET_SIZE_def)

section \<open>Packets and framing\<close>

record base_packet =
  bp_header :: base_packet_header
  bp_data :: "u8 list"

definition from_bytes :: "u8 list \<Rightarrow> (packet_error, base_packet) outcome" where
  "from_bytes bytes =
     (if length bytes < BASEPACKET_SIZE then Err (TooSmall BASEPACKET_SIZE (length bytes))
      else bind_outcome (bind_outcome (slice_of bytes 0 BASEPACKET_SIZE) base_header_read)
       (\<lambda>header. let size = unat (packet_size header)
         in if length bytes < size then Err (SizeMismatch size (length bytes))
            else bind_outcome (slice_of bytes BASEPACKET_SIZE size)
              (\<lambda>data. Ok \<lparr>bp_header = header, bp_data = data\<rparr>)))"

definition from_buffer :: "u8 list \<Rightarrow> nat \<Rightarrow> (packet_error, base_packet \<times> nat) outcome" where
  "from_buffer bytes offset =
     (if length bytes < offset + BASEPACKET_SIZE
      then Err (TooSmall (offset + BASEPACKET_SIZE) (length bytes))
      else bind_outcome (bind_outcome (slice_of bytes offset (offset + BASEPACKET_SIZE)) base_header_read)
       (\<lambda>header. let size = unat (packet_size header); packet_end = offset + size
         in if length bytes < packet_end then Err (SizeMismatch size (length bytes - offset))
            else bind_outcome (slice_of bytes (offset + BASEPACKET_SIZE) packet_end)
              (\<lambda>data. Ok (\<lparr>bp_header = header, bp_data = data\<rparr>, packet_end))))"

definition peek_header :: "u8 list \<Rightarrow> (packet_error, base_packet_header) outcome" where
  "peek_header bytes = base_header_read bytes"

definition try_from_buffer :: "u8 list \<Rightarrow> nat \<Rightarrow> nat \<Rightarrow> (packet_error, (base_packet \<times> nat) option) outcome" where
  "try_from_buffer buffer offset bytes_read =
     (if bytes_read \<le> offset \<or> length buffer < offset + 2 then Ok None
      else let size = size_at buffer offset
           in if bytes_read < offset + size \<or> length buffer < offset + size then Ok None
              else (case from_buffer buffer offset of Ok r \<Rightarrow> Ok (Some r) | Err e \<Rightarrow> Ok None | Panic \<Rightarrow> Panic))"

definition header_bytes :: "base_packet \<Rightarrow> u8 list" where
  "header_bytes pkt = base_header_write (bp_header pkt)"

definition packet_to_bytes :: "base_packet \<Rightarrow> (packet_error, u8 list) outcome" where
  "packet_to_bytes pkt =
     (let out = replicate (unat (packet_size (bp_header pkt))) 0
      in bind_outcome (copy_from_slice out 0 (header_bytes pkt))
           (\<lambda>out. copy_from_slice out BASEPACKET_SIZE (bp_data pkt)))"

text \<open>\<open>get_subpackets\<close>: parse until the body is used up, or stop at the first error.\<close>

function subpackets_from :: "u8 list \<Rightarrow> nat \<Rightarrow> (packet_error, subpacket list) outcome" where
  "subpackets_from data offset =
     (if offset < length data then
        (case subpacket_parse data offset of
           Ok (sp, offset') \<Rightarrow> bind_outcome (subpackets_from data offset') (\<lambda>sps. Ok (sp # sps))
         | Err e \<Rightarrow> Err e
         | Panic \<Rightarrow> Panic)
      else Ok [])"
  by pat_completeness auto
termination
proof (relation "measure (\<lambda>(data, offset). length data - offset)")
  fix data offset x sp offset'
  assume "offset < length data" and "subpacket_parse data offset = Ok x" and "(sp, offset') = x"
  then show "((data, offset'), data, offset) \<in> measure (\<lambda>(data, offset). length data - offset)"
    using subpacket_parse_sound [of data offset sp offset'] sp_len_ge [of sp] by auto
qed simp

declare subpackets_from.simps [simp del]

definition get_subpackets :: "base_packet \<Rightarrow> (packet_error, subpacket list) outcome" where
  "get_subpackets pkt = subpackets_from (bp_data pkt) 0"

function replace_loop :: "u32 list \<Rightarrow> u32 \<Rightarrow> u8 list \<Rightarrow> nat \<Rightarrow> u8 list" where
  "replace_loop needles replacement data pos =
     (if pos + 4 < length data then
        (let val = load_u32_le data pos;
             data = (if val \<in> set needles then overwrite data pos (le_bytes 4 replacement) else data)
         in replace_loop needles replacement data (pos + 4))
      else data)"
  by pat_completeness auto
termination
  by (relation "measure (\<lambda>(needles, replacement, data, pos). length data - pos)") auto

declare replace_loop.simps [simp del]

definition replace_matching_ids :: "base_packet \<Rightarrow> u32 list \<Rightarrow> u32 \<Rightarrow> base_packet" where
  "replace_matching_ids pkt needles replacement =
     (if length (bp_data pkt) < 4 then pkt
      else pkt\<lparr>bp_data := replace_loop needles replacement (bp_data pkt) 0\<rparr>)"

definition ORIGINAL_IDS :: "u32 list" where
  "ORIGINAL_IDS =
     [0x029B2941, 0x02977DC7, 0x0297D2C8, 0x0230d573, 0x23317df, 0x23344a3, 0x1730bdb, 0x6c]"

definition replace_actor_id :: "base_packet \<Rightarrow> u32 \<Rightarrow> base_packet" where
  "replace_actor_id pkt actor_id = replace_matching_ids pkt ORIGINAL_IDS actor_id"

definition replace_actor_id_from :: "base_packet \<Rightarrow> u32 \<Rightarrow> u32 \<Rightarrow> base_packet" where
  "replace_actor_id_from pkt from_actor_id actor_id = replace_matching_ids pkt [from_actor_id] actor_id"

section \<open>Construction\<close>

definition mk_header :: "bool \<Rightarrow> bool \<Rightarrow> nat \<Rightarrow> nat \<Rightarrow> u64 \<Rightarrow> base_packet_header" where
  "mk_header authed compressed sz cnt now =
     \<lparr>is_authenticated = of_bool authed, is_compressed = of_bool compressed, connection_type = 0,
      packet_size = of_nat sz, num_subpackets = of_nat cnt, bp_timestamp = now\<rparr>"

fun copy_subpackets :: "u8 list \<Rightarrow> nat \<Rightarrow> subpacket list \<Rightarrow> (packet_error, u8 list) outcome" where
  "copy_subpackets data offset [] = Ok data"
| "copy_subpackets data offset (s # ss) =
     bind_outcome (subpacket_to_bytes s)
       (\<lambda>bytes. bind_outcome (copy_from_slice data offset bytes)
         (\<lambda>data. copy_subpackets data (offset + length bytes) ss))"

definition create_from_subpackets ::
    "(u8 list \<Rightarrow> (packet_error, u8 list) outcome) \<Rightarrow> u64 \<Rightarrow> subpacket list \<Rightarrow> bool \<Rightarrow> bool
      \<Rightarrow> (packet_error, base_packet) outcome" where
  "create_from_subpackets deflate now subpackets is_authed compressed =
     (let body_size = sum_list (map (\<lambda>s. unat (subpacket_size (sp_header s))) subpackets)
      in bind_outcome (copy_subpackets (replicate body_size 0) 0 subpackets)
       (\<lambda>data. bind_outcome
         (if compressed
          then bind_outcome (deflate data) (\<lambda>z. Ok (z, BASEPACKET_SIZE + length z))
          else Ok (data, BASEPACKET_SIZE + body_size))
         (\<lambda>(data, size). Ok \<lparr>bp_header = mk_header is_authed compressed size (length subpackets) now,
                              bp_data = data\<rparr>)))"

definition create_from_subpacket ::
    "(u8 list \<Rightarrow> (packet_error, u8 list) outcome) \<Rightarrow> u64 \<Rightarrow> subpacket \<Rightarrow> bool \<Rightarrow> bool
      \<Rightarrow> (packet_error, base_packet) outcome" where
  "create_from_subpacket deflate now sp is_authed compressed =
     create_from_subpackets deflate now [sp] is_authed compressed"

definition create_from_data ::
    "(u8 list \<Rightarrow> (packet_error, u8 list) outcome) \<Rightarrow> u64 \<Rightarrow> u8 list \<Rightarrow> bool \<Rightarrow> bool
      \<Rightarrow> (packet_error, base_packet) outcome" where
  "create_from_data deflate now data is_authed compressed =
     bind_outcome (if compressed then deflate data else Ok data)
       (\<lambda>data. Ok \<lparr>bp_header = mk_header is_authed compressed (BASEPACKET_SIZE + length data) 1 now,
                   bp_data = data\<rparr>)"

section \<open>Encryption and compression\<close>

text \<open>
  The walk both directions share: \<open>crypt\<close> is the buffer operation of the cipher. The subtraction of
  the header size from the declared size wraps when the declared size is smaller. On an error the
  packet keeps the subpackets already transformed.
\<close>

partial_function (option) crypt_walk ::
    "(u8 list \<Rightarrow> nat \<Rightarrow> nat \<Rightarrow> (packet_error, u8 list) outcome) \<Rightarrow> u8 list \<Rightarrow> nat
      \<Rightarrow> (u8 list \<times> (packet_error, unit) outcome) option" where
  "crypt_walk crypt data offset =
     (if offset < length data then
        (if length data < offset + SUBPACKET_SIZE
         then Some (data, Err (TooSmall (offset + SUBPACKET_SIZE) (length data)))
         else (let size = size_at data offset
               in if length data < offset + size
                  then Some (data, Err (SizeMismatch size (length data - offset)))
                  else (case crypt data (offset + SUBPACKET_SIZE) (usize_sub size SUBPACKET_SIZE) of
                          Ok data' \<Rightarrow> crypt_walk crypt data' (offset + size)
                        | Err e \<Rightarrow> Some (data, Err e)
                        | Panic \<Rightarrow> Some (data, Panic))))
      else Some (data, Ok ()))"

definition packet_encrypt ::
    "blowfish \<Rightarrow> base_packet \<Rightarrow> (base_packet \<times> (packet_error, unit) outcome) option" where
  "packet_encrypt bf pkt =
     map_option (\<lambda>(data, r). (pkt\<lparr>bp_data := data\<rparr>, r)) (crypt_walk (bf_encipher bf) (bp_data pkt) 0)"

definition packet_decrypt ::
    "blowfish \<Rightarrow> base_packet \<Rightarrow> (base_packet \<times> (packet_error, unit) outcome) option" where
  "packet_decrypt bf pkt =
     map_option (\<lambda>(data, r). (pkt\<lparr>bp_data := data\<rparr>, r)) (crypt_walk (bf_decipher bf) (bp_data pkt) 0)"

definition packet_decompress ::
    "(u8 list \<Rightarrow> (packet_error, u8 list) outcome) \<Rightarrow> base_packet \<Rightarrow> (packet_error, base_packet) outcome" where
  "packet_decompress inflate pkt =
     bind_outcome (inflate (bp_data pkt))
       (\<lambda>out. Ok (pkt\<lparr>bp_data := out,
                     bp_header := (bp_header pkt)\<lparr>is_compressed := 0,
                        packet_size := of_nat (BASEPACKET_SIZE + length out)\<rparr>\<rparr>))"

definition packet_compress ::
    "(u8 list \<Rightarrow> (packet_error, u8 list) outcome) \<Rightarrow> u64 \<Rightarrow> base_packet \<Rightarrow> (packet_error, base_packet) outcome" where
  "packet_compress deflate now pkt =
     bind_outcome (deflate (bp_data pkt))
       (\<lambda>compressed. create_from_data deflate now compressed (is_authenticated (bp_header pkt) = 1) True)"

section \<open>Wrapping a serialised stream\<close>

text \<open>The counting loop; the counter is a \<open>u16\<close>.\<close>

function count_subpackets :: "u8 list \<Rightarrow> nat \<Rightarrow> u16 \<Rightarrow> u16" where
  "count_subpackets data off cnt =
     (if off + SUBPACKET_SIZE \<le> length data then
        (let size = size_at data off
         in if size < SUBPACKET_SIZE \<or> length data < off + size then cnt
            else count_subpackets data (off + size) (cnt + 1))
      else cnt)"
  by pat_completeness auto
termination
  by (relation "measure (\<lambda>(data, off, cnt). length data - off)") (auto simp: SUBPACKET_SIZE_def not_less)

declare count_subpackets.simps [simp del]

definition wrap_subpackets_in_basepacket :: "u64 \<Rightarrow> u8 list \<Rightarrow> u8 list" where
  "wrap_subpackets_in_basepacket now data =
     (let cnt = count_subpackets data 0 0;
          cnt = (if cnt = 0 then 1 else cnt);
          header = \<lparr>is_authenticated = 1, is_compressed = 0, connection_type = 0,
            packet_size = of_nat (BASEPACKET_SIZE + length data), num_subpackets = cnt, bp_timestamp = now\<rparr>;
          out = replicate (BASEPACKET_SIZE + length data) 0
      in overwrite (overwrite out 0 (base_header_write header)) BASEPACKET_SIZE data)"

section \<open>The walk over well-formed bodies\<close>

text \<open>The cipher's buffer operations, with the block transformation as the argument.\<close>

definition region_op ::
    "(u32 \<times> u32 \<Rightarrow> u32 \<times> u32) \<Rightarrow> u8 list \<Rightarrow> nat \<Rightarrow> nat \<Rightarrow> (packet_error, u8 list) outcome" where
  "region_op g data offset len =
     (if len mod 8 \<noteq> 0 then Err (BlowfishBlockMisaligned len)
      else crypt_blocks g data offset (usize_add offset len))"

lemma region_op_bf: "bf_encipher bf = region_op (encipher_block bf)" "bf_decipher bf = region_op (decipher_block bf)"
  by (auto simp: fun_eq_iff bf_encipher_def bf_decipher_def region_op_def)

text \<open>A subpacket as the walk sees it: a header and an opaque, block-aligned rest.\<close>

definition chunk_bytes :: "subpacket_header \<times> u8 list \<Rightarrow> u8 list" where
  "chunk_bytes = (\<lambda>(h, b). subpacket_header_write h @ b)"

definition chunk_ok :: "subpacket_header \<times> u8 list \<Rightarrow> bool" where
  "chunk_ok = (\<lambda>(h, b). unat (subpacket_size h) = SUBPACKET_SIZE + length b \<and> length b mod 8 = 0)"

definition chunk_map :: "(u32 \<times> u32 \<Rightarrow> u32 \<times> u32) \<Rightarrow> subpacket_header \<times> u8 list \<Rightarrow> subpacket_header \<times> u8 list" where
  "chunk_map g = (\<lambda>(h, b). (h, map_blocks g b))"

lemma chunk_ok_map [simp]: "chunk_ok (chunk_map g c) = chunk_ok c"
  by (simp add: chunk_ok_def chunk_map_def split_beta)

lemma length_chunk_map [simp]: "length (chunk_bytes (chunk_map g c)) = length (chunk_bytes c)"
  by (simp add: chunk_bytes_def chunk_map_def split_beta)

lemma length_chunks_map:
  "length (concat (map chunk_bytes (map (chunk_map g) cs))) = length (concat (map chunk_bytes cs))"
  by (induction cs) simp_all

lemma size_at_chunk [simp]: "size_at (pre @ chunk_bytes c @ post) (length pre) = unat (subpacket_size (fst c))"
  by (simp add: size_at_take chunk_bytes_def subpacket_header_write_def split_beta)

lemma crypt_walk_chunks:
  "\<forall>c \<in> set cs. chunk_ok c \<Longrightarrow> length pre + length (concat (map chunk_bytes cs)) < 2 ^ 64 \<Longrightarrow>
     crypt_walk (region_op g) (pre @ concat (map chunk_bytes cs)) (length pre) =
       Some (pre @ concat (map chunk_bytes (map (chunk_map g) cs)), Ok ())"
proof (induction cs arbitrary: pre)
  case Nil
  then show ?case by (simp add: crypt_walk.simps)
next
  case (Cons c cs)
  obtain h b where c: "c = (h, b)" by (cases c)
  let ?rest = "concat (map chunk_bytes cs)"
  let ?pre = "pre @ subpacket_header_write h"
  have ok: "unat (subpacket_size h) = 16 + length b" "length b mod 8 = 0"
    using Cons.prems(1) by (simp_all add: c chunk_ok_def sizes)
  have small: "length ?pre + length b < 2 ^ 64"
    using Cons.prems(2) by (simp add: c chunk_bytes_def)
  have size: "size_at (pre @ chunk_bytes c @ ?rest) (length pre) = 16 + length b"
    using ok by (simp only: size_at_chunk) (simp add: c)
  have crypt: "region_op g (pre @ chunk_bytes c @ ?rest) (length pre + 16) (length b) =
      Ok (pre @ chunk_bytes (chunk_map g c) @ ?rest)"
    using crypt_blocks_eq [OF ok(2), of g ?pre ?rest] ok(2) small
    by (simp add: region_op_def c chunk_bytes_def chunk_map_def)
  have step: "crypt_walk (region_op g) (pre @ chunk_bytes c @ ?rest) (length pre) =
     crypt_walk (region_op g) ((pre @ chunk_bytes (chunk_map g c)) @ ?rest) (length pre + (16 + length b))"
    using crypt size by (subst crypt_walk.simps) (simp add: sizes c chunk_bytes_def)
  have len: "length (pre @ chunk_bytes (chunk_map g c)) = length pre + (16 + length b)"
    by (simp only: length_append length_chunk_map) (simp add: c chunk_bytes_def)
  have "crypt_walk (region_op g) ((pre @ chunk_bytes (chunk_map g c)) @ ?rest)
      (length (pre @ chunk_bytes (chunk_map g c))) =
      Some ((pre @ chunk_bytes (chunk_map g c)) @ concat (map chunk_bytes (map (chunk_map g) cs)), Ok ())"
    using Cons.prems by (intro Cons.IH) (simp_all add: c chunk_bytes_def chunk_map_def)
  with step len show ?case by simp
qed

definition sp_chunk :: "subpacket \<Rightarrow> subpacket_header \<times> u8 list" where
  "sp_chunk sp = (sp_header sp, (if is_gm sp then game_message_write (sp_game_message sp) else []) @ sp_data sp)"

text \<open>Well-formed with a body of whole cipher blocks: what the lobby sends encrypted.\<close>

definition sp_aligned :: "subpacket \<Rightarrow> bool" where
  "sp_aligned sp \<longleftrightarrow> sp_wf sp \<and> length (sp_data sp) mod 8 = 0"

lemma sp_chunk_bytes: "chunk_bytes (sp_chunk sp) = sp_bytes sp"
  by (simp add: sp_chunk_def chunk_bytes_def sp_bytes_def)

lemma sp_stream_chunks: "sp_stream sps = concat (map chunk_bytes (map sp_chunk sps))"
  by (simp add: sp_stream_def sp_chunk_bytes comp_def)

lemma sp_chunk_ok: "sp_aligned sp \<Longrightarrow> chunk_ok (sp_chunk sp)"
  by (auto simp: sp_aligned_def chunk_ok_def sp_chunk_def sp_wf_def sp_len_def sizes)

lemma chunk_map_undo: "chunk_map (decipher_block bf) (chunk_map (encipher_block bf) c) = c"
  by (simp add: chunk_map_def bf_cipher.blocks_undo split_beta)

lemma packet_crypt_stream:
  fixes bf :: blowfish
  assumes "\<forall>sp \<in> set sps. sp_aligned sp" and "length (sp_stream sps) < 2 ^ 64" and "bp_data pkt = sp_stream sps"
  defines "enc \<equiv> pkt\<lparr>bp_data := concat (map chunk_bytes (map (chunk_map (encipher_block bf)) (map sp_chunk sps)))\<rparr>"
  shows "packet_encrypt bf pkt = Some (enc, Ok ())" and "packet_decrypt bf enc = Some (pkt, Ok ())"
    and "length (bp_data enc) = length (bp_data pkt)"
proof -
  let ?cs = "map sp_chunk sps"
  have ok: "\<forall>c \<in> set ?cs. chunk_ok c" using assms(1) by (auto simp: sp_chunk_ok)
  have small: "length [] + length (concat (map chunk_bytes ?cs)) < 2 ^ 64"
    using assms(2) by (simp add: sp_stream_chunks)
  have "crypt_walk (region_op (encipher_block bf)) (sp_stream sps) 0 = Some (bp_data enc, Ok ())"
    using crypt_walk_chunks [OF ok small] by (simp add: sp_stream_chunks enc_def)
  then show "packet_encrypt bf pkt = Some (enc, Ok ())"
    by (simp add: packet_encrypt_def region_op_bf assms(3) enc_def)
  have ok': "\<forall>c \<in> set (map (chunk_map (encipher_block bf)) ?cs). chunk_ok c" using ok by simp
  have small': "length [] + length (concat (map chunk_bytes (map (chunk_map (encipher_block bf)) ?cs))) < 2 ^ 64"
    using small by (simp only: length_chunks_map)
  have undo: "map (chunk_map (decipher_block bf)) (map (chunk_map (encipher_block bf)) ?cs) = ?cs"
    by (simp add: comp_def chunk_map_undo)
  have "crypt_walk (region_op (decipher_block bf)) (bp_data enc) 0 = Some (sp_stream sps, Ok ())"
    using crypt_walk_chunks [OF ok' small', of "decipher_block bf"] unfolding undo
    by (simp add: sp_stream_chunks enc_def)
  then show "packet_decrypt bf enc = Some (pkt, Ok ())"
    by (simp add: packet_decrypt_def region_op_bf enc_def assms(3) [symmetric])
  show "length (bp_data enc) = length (bp_data pkt)"
    unfolding enc_def assms(3) sp_stream_chunks by (simp add: length_chunks_map del: map_map)
qed

section \<open>Framing and parsing of well-formed packets\<close>

definition bp_wf :: "base_packet \<Rightarrow> bool" where
  "bp_wf pkt \<longleftrightarrow> unat (packet_size (bp_header pkt)) = BASEPACKET_SIZE + length (bp_data pkt)"

definition bp_bytes :: "base_packet \<Rightarrow> u8 list" where
  "bp_bytes pkt = base_header_write (bp_header pkt) @ bp_data pkt"

lemma length_bp_bytes [simp]: "length (bp_bytes pkt) = 16 + length (bp_data pkt)"
  by (simp add: bp_bytes_def)

lemma packet_to_bytes_wf: "bp_wf pkt \<Longrightarrow> packet_to_bytes pkt = Ok (bp_bytes pkt)"
  by (simp add: packet_to_bytes_def bp_wf_def bp_bytes_def copy_from_slice_def overwrite_def header_bytes_def
      BASEPACKET_SIZE_def Let_def)

lemma from_buffer_wf:
  assumes "bp_wf pkt"
  shows "from_buffer (pre @ bp_bytes pkt @ post) (length pre) = Ok (pkt, length pre + length (bp_bytes pkt))"
proof -
  let ?bs = "pre @ bp_bytes pkt @ post"
  have "(slice_of ?bs (length pre) (length pre + 16) :: (packet_error, u8 list) outcome)
      = Ok (base_header_write (bp_header pkt))"
    by (simp add: bp_bytes_def slice_of_append')
  moreover have "(slice_of ?bs (length pre + 16) (length pre + (16 + length (bp_data pkt)))
      :: (packet_error, u8 list) outcome) = Ok (bp_data pkt)"
    using slice_of_append' [of "length pre + 16" "pre @ base_header_write (bp_header pkt)"
        "length pre + (16 + length (bp_data pkt))" "bp_data pkt" post]
    by (simp add: bp_bytes_def)
  ultimately show ?thesis
    using assms bp_codec.get_exact [of "bp_header pkt"]
    by (simp add: from_buffer_def bp_wf_def BASEPACKET_SIZE_def Let_def)
qed

lemma subpackets_from_stream:
  "\<forall>sp \<in> set sps. sp_wf sp \<Longrightarrow> subpackets_from (pre @ sp_stream sps) (length pre) = Ok sps"
proof (induction sps arbitrary: pre)
  case Nil
  then show ?case by (simp add: subpackets_from.simps)
next
  case (Cons sp sps)
  then have "subpackets_from ((pre @ sp_bytes sp) @ sp_stream sps) (length (pre @ sp_bytes sp)) = Ok sps"
    by (intro Cons.IH) simp
  moreover have "0 < sp_len sp" using Cons.prems sp_len_ge [of sp] by simp
  ultimately show ?case
    using Cons.prems subpacket_parse_wf [of sp pre "sp_stream sps"]
    by (subst subpackets_from.simps) simp
qed

lemma copy_subpackets_stream:
  "\<forall>sp \<in> set sps. sp_wf sp \<Longrightarrow> length zs = length (sp_stream sps) \<Longrightarrow>
     copy_subpackets (pre @ zs) (length pre) sps = Ok (pre @ sp_stream sps)"
proof (induction sps arbitrary: pre zs)
  case Nil
  then show ?case by simp
next
  case (Cons sp sps)
  have ov: "overwrite (pre @ zs) (length pre) (sp_bytes sp) = (pre @ sp_bytes sp) @ drop (length (sp_bytes sp)) zs"
    using Cons.prems by (simp add: overwrite_def)
  have "copy_subpackets ((pre @ sp_bytes sp) @ drop (length (sp_bytes sp)) zs) (length (pre @ sp_bytes sp)) sps
      = Ok ((pre @ sp_bytes sp) @ sp_stream sps)"
    using Cons.prems by (intro Cons.IH) simp_all
  with ov Cons.prems show ?case
    by (simp add: subpacket_to_bytes_wf copy_from_slice_def)
qed

lemma body_size_stream:
  "\<forall>sp \<in> set sps. sp_wf sp \<Longrightarrow>
     sum_list (map (\<lambda>s. unat (subpacket_size (sp_header s))) sps) = length (sp_stream sps)"
  by (induction sps) (simp_all add: sp_len_def [symmetric])

definition plain_packet :: "u64 \<Rightarrow> subpacket list \<Rightarrow> bool \<Rightarrow> base_packet" where
  "plain_packet now sps authed =
     \<lparr>bp_header = mk_header authed False (16 + length (sp_stream sps)) (length sps) now, bp_data = sp_stream sps\<rparr>"

lemma create_plain:
  assumes "\<forall>sp \<in> set sps. sp_wf sp"
  shows "create_from_subpackets deflate now sps authed False = Ok (plain_packet now sps authed)"
  using assms copy_subpackets_stream [OF assms, of "replicate (length (sp_stream sps)) 0" "[]"]
  by (simp add: create_from_subpackets_def body_size_stream plain_packet_def BASEPACKET_SIZE_def Let_def)

lemma unat_of_nat_u16: "n < 2 ^ 16 \<Longrightarrow> unat (of_nat n :: u16) = n"
  by (simp only: unat_of_nat) simp

lemma plain_packet_wf: "16 + length (sp_stream sps) < 2 ^ 16 \<Longrightarrow> bp_wf (plain_packet now sps authed)"
  by (simp only: bp_wf_def plain_packet_def mk_header_def base_packet.simps base_packet_header.simps unat_of_nat_u16)
    (simp add: BASEPACKET_SIZE_def)

section \<open>Properties\<close>

text \<open>
  C1: The whole lobby wire path is lossless. For subpackets that are well formed with block-aligned
  bodies and fit a packet, building the packet, encrypting it, serialising it, reading it from anywhere
  in a receive buffer, decrypting and splitting it gives the same subpackets; no step fails, panics or
  fails to return, and the read consumes exactly the packet.
\<close>

theorem wire_roundtrip:
  assumes "\<forall>sp \<in> set sps. sp_aligned sp" and "16 + length (sp_stream sps) < 2 ^ 16"
  shows "\<exists>pkt enc bs. create_from_subpackets deflate now sps authed False = Ok pkt
    \<and> packet_encrypt bf pkt = Some (enc, Ok ()) \<and> packet_to_bytes enc = Ok bs
    \<and> from_buffer (pre @ bs @ post) (length pre) = Ok (enc, length pre + length bs)
    \<and> packet_decrypt bf enc = Some (pkt, Ok ()) \<and> get_subpackets pkt = Ok sps"
proof -
  have wf: "\<forall>sp \<in> set sps. sp_wf sp" using assms(1) by (simp add: sp_aligned_def)
  let ?pkt = "plain_packet now sps authed"
  let ?enc = "?pkt\<lparr>bp_data := concat (map chunk_bytes (map (chunk_map (encipher_block bf)) (map sp_chunk sps)))\<rparr>"
  have small: "length (sp_stream sps) < 2 ^ 64" and data: "bp_data ?pkt = sp_stream sps"
    using assms(2) by (simp_all add: plain_packet_def)
  note crypt = packet_crypt_stream [OF assms(1) small data, of bf]
  have enc: "bp_wf ?enc"
    using plain_packet_wf [OF assms(2), of now authed] crypt(3) by (simp add: bp_wf_def del: map_map)
  show ?thesis
    using create_plain [OF wf, of deflate now authed] crypt(1,2) packet_to_bytes_wf [OF enc]
      from_buffer_wf [OF enc, of pre post] subpackets_from_stream [OF wf, of "[]"]
    by (intro exI [of _ ?pkt] exI [of _ ?enc] exI [of _ "bp_bytes ?enc"])
      (simp add: get_subpackets_def plain_packet_def)
qed

theorem wire_roundtrip_witness:
  "sp_aligned (new_with_flag 7 True 0x0A 1 (replicate 8 0xAB)) \<and>
   (\<exists>pkt enc. create_from_subpackets (\<lambda>d. Ok d) 0 [new_with_flag 7 True 0x0A 1 (replicate 8 0xAB)] True False = Ok pkt
    \<and> packet_encrypt initial_blowfish pkt = Some (enc, Ok ())
    \<and> packet_decrypt initial_blowfish enc = Some (pkt, Ok ())
    \<and> get_subpackets pkt = Ok [new_with_flag 7 True 0x0A 1 (replicate 8 0xAB)])"
proof -
  let ?sp = "new_with_flag 7 True 0x0A 1 (replicate 8 0xAB)"
  have wf: "sp_wf ?sp" by (rule new_with_flag_wf) (simp_all add: sizes)
  have data: "sp_data ?sp = replicate 8 0xAB" by (simp add: new_with_flag_def Let_def)
  have al: "sp_aligned ?sp" using wf by (simp add: sp_aligned_def data)
  have "sp_len ?sp < 60" using wf by (auto simp: sp_wf_def data sizes)
  then have len: "16 + length (sp_stream [?sp]) < 2 ^ 16" using wf by simp
  have als: "\<forall>sp \<in> set [?sp]. sp_aligned sp" using al by simp
  show ?thesis
    using al wire_roundtrip [OF als len, of "\<lambda>d. Ok d" 0 True initial_blowfish] by blast
qed

text \<open>
  \<open>wrap_subpackets_in_basepacket\<close> of a serialised stream of fewer than 65536 bytes is a frame that
  parses back, with the number of subpackets in its header and exactly those subpackets in its body.
\<close>

theorem wrap_frame_roundtrip:
  assumes "\<forall>sp \<in> set sps. sp_wf sp" and "16 + length (sp_stream sps) < 2 ^ 16" and "sps \<noteq> []"
  shows "\<exists>pkt. from_bytes (wrap_subpackets_in_basepacket now (sp_stream sps)) = Ok pkt
    \<and> unat (num_subpackets (bp_header pkt)) = length sps \<and> get_subpackets pkt = Ok sps
    \<and> is_authenticated (bp_header pkt) = 1 \<and> is_compressed (bp_header pkt) = 0"
proof -
  have count: "\<forall>sp \<in> set xs. sp_wf sp \<Longrightarrow>
      count_subpackets (pre @ sp_stream xs) (length pre) k = k + of_nat (length xs)" for xs pre k
  proof (induction xs arbitrary: pre k)
    case Nil
    then show ?case by (simp add: count_subpackets.simps sizes)
  next
    case (Cons sp xs)
    then have "count_subpackets ((pre @ sp_bytes sp) @ sp_stream xs) (length (pre @ sp_bytes sp)) (k + 1)
        = k + 1 + of_nat (length xs)"
      by (intro Cons.IH) simp
    with Cons.prems sp_len_ge [of sp] show ?case
      by (subst count_subpackets.simps) (simp add: sizes Let_def ac_simps)
  qed
  have le: "16 * length xs \<le> length (sp_stream xs)" if "\<forall>sp \<in> set xs. sp_wf sp" for xs
    using that by (induction xs) (auto dest: sp_len_ge)
  have n: "length sps < 2 ^ 16" using le [OF assms(1)] assms(2) by linarith
  then have nz: "of_nat (length sps) \<noteq> (0 :: u16)"
    using assms(3) unat_of_nat_u16 [OF n] by (metis length_0_conv unat_0)
  let ?h = "\<lparr>is_authenticated = 1, is_compressed = 0, connection_type = 0,
     packet_size = of_nat (16 + length (sp_stream sps)), num_subpackets = of_nat (length sps), bp_timestamp = now\<rparr>"
  let ?pkt = "\<lparr>bp_header = ?h, bp_data = sp_stream sps\<rparr>"
  have wf: "bp_wf ?pkt"
    by (simp only: bp_wf_def base_packet.simps base_packet_header.simps unat_of_nat_u16 [OF assms(2)] BASEPACKET_SIZE_def)
  have "wrap_subpackets_in_basepacket now (sp_stream sps) = bp_bytes ?pkt"
    using count [OF assms(1), of "[]" 0] nz
    by (simp add: wrap_subpackets_in_basepacket_def bp_bytes_def overwrite_def BASEPACKET_SIZE_def Let_def)
  moreover have "from_bytes (bp_bytes ?pkt) = Ok ?pkt"
  proof -
    have "(slice_of (bp_bytes ?pkt) 0 16 :: (packet_error, u8 list) outcome) = Ok (base_header_write ?h)"
      and "(slice_of (bp_bytes ?pkt) 16 (16 + length (sp_stream sps)) :: (packet_error, u8 list) outcome)
        = Ok (sp_stream sps)"
      by (simp_all add: slice_of_def bp_bytes_def)
    with wf bp_codec.get_exact [of ?h] show ?thesis
      by (simp add: from_bytes_def bp_wf_def BASEPACKET_SIZE_def Let_def)
  qed
  ultimately show ?thesis
    using subpackets_from_stream [OF assms(1), of "[]"] unat_of_nat_u16 [OF n]
    by (intro exI [of _ ?pkt]) (simp add: get_subpackets_def)
qed

theorem wrap_frame_roundtrip_witness:
  "\<exists>sp pkt. from_bytes (wrap_subpackets_in_basepacket 5 (sp_stream [sp, sp])) = Ok pkt
    \<and> unat (num_subpackets (bp_header pkt)) = 2 \<and> get_subpackets pkt = Ok [sp, sp]"
proof -
  let ?sp = "new_with_flag 7 True 0x0A 1 (replicate 8 0xAB)"
  have wf: "sp_wf ?sp" by (rule new_with_flag_wf) (simp_all add: sizes)
  have data: "sp_data ?sp = replicate 8 0xAB" by (simp add: new_with_flag_def Let_def)
  have "sp_len ?sp < 60" using wf by (auto simp: sp_wf_def data sizes)
  then have len: "16 + length (sp_stream [?sp, ?sp]) < 2 ^ 16" using wf by simp
  have wfs: "\<forall>sp \<in> set [?sp, ?sp]. sp_wf sp" using wf by simp
  show ?thesis using wrap_frame_roundtrip [OF wfs len, of 5] by fastforce
qed

text \<open>
  Reading a packet from a buffer panics exactly when a whole header is there and declares a packet
  size below the header's own 16 bytes (the reversed body slice); every other input is a value or an
  error. The length checks of the source do not cover this case.
\<close>

theorem from_buffer_panic_iff:
  "(from_buffer bytes offset = Panic) =
     (offset + BASEPACKET_SIZE \<le> length bytes \<and> unat (le_field bytes (offset + 4) 2 :: u16) < BASEPACKET_SIZE)"
proof (cases "offset + BASEPACKET_SIZE \<le> length bytes")
  case False
  then show ?thesis by (simp add: from_buffer_def)
next
  case True
  let ?hb = "take 16 (drop offset bytes)"
  have field: "le_field ?hb 4 2 = (le_field bytes (offset + 4) 2 :: u16)"
    by (simp add: le_field_def drop_take add.commute)
  have "length ?hb = 16" using True by (simp add: BASEPACKET_SIZE_def)
  then obtain h where h: "base_header_read ?hb = Ok h" "packet_size h = le_field bytes (offset + 4) 2"
    by (simp add: base_header_read_def BASEPACKET_SIZE_def field)
  have "(slice_of bytes offset (offset + 16) :: (packet_error, u8 list) outcome) = Ok ?hb"
    using True by (simp add: slice_of_def BASEPACKET_SIZE_def)
  with h True show ?thesis
    by (auto simp: from_buffer_def BASEPACKET_SIZE_def Let_def slice_of_def not_le)
qed

lemma region_op_empty_body:
  assumes "offset < 2 ^ 64"
  shows "region_op g data (offset + SUBPACKET_SIZE) (usize_sub 0 SUBPACKET_SIZE) = Ok data"
proof -
  have "usize_add (offset + 16) (2 ^ 64 - 16) = offset"
    using assms by (simp add: usize_add_def)
  then show ?thesis
    by (simp add: region_op_def usize_sub_def sizes crypt_blocks.simps)
qed

lemma crypt_walk_stuck:
  assumes "crypt_walk (region_op g) data offset = Some r"
  shows "\<not> (size_at data offset = 0 \<and> offset + SUBPACKET_SIZE \<le> length data \<and> offset < 2 ^ 64)"
proof -
  have "c = region_op g \<longrightarrow> \<not> (size_at d off = 0 \<and> off + SUBPACKET_SIZE \<le> length d \<and> off < 2 ^ 64)"
    if "crypt_walk c d off = Some r" for c d off
  proof (rule crypt_walk.raw_induct [where P = "\<lambda>c d off r. c = region_op g \<longrightarrow>
        \<not> (size_at d off = 0 \<and> off + SUBPACKET_SIZE \<le> length d \<and> off < 2 ^ 64)", OF _ that])
    fix f c d off and r :: "u8 list \<times> (packet_error, unit) outcome"
    assume IH: "\<And>c d off r. f c d off = Some r \<Longrightarrow> c = region_op g \<longrightarrow>
        \<not> (size_at d off = 0 \<and> off + SUBPACKET_SIZE \<le> length d \<and> off < 2 ^ 64)"
      and run: "(if off < length d then
        (if length d < off + SUBPACKET_SIZE
         then Some (d, Err (TooSmall (off + SUBPACKET_SIZE) (length d)))
         else (let size = size_at d off
               in if length d < off + size
                  then Some (d, Err (SizeMismatch size (length d - off)))
                  else (case c d (off + SUBPACKET_SIZE) (usize_sub size SUBPACKET_SIZE) of
                          Ok data' \<Rightarrow> f c data' (off + size)
                        | Err e \<Rightarrow> Some (d, Err e)
                        | Panic \<Rightarrow> Some (d, Panic))))
      else Some (d, Ok ())) = Some r"
    show "c = region_op g \<longrightarrow> \<not> (size_at d off = 0 \<and> off + SUBPACKET_SIZE \<le> length d \<and> off < 2 ^ 64)"
    proof (intro impI notI, elim conjE)
      assume c: "c = region_op g" and z: "size_at d off = 0" and len: "off + SUBPACKET_SIZE \<le> length d"
        and small: "off < 2 ^ 64"
      have "off < length d" using len by (simp add: sizes)
      with run len z c region_op_empty_body [OF small, of g d] have "f c d off = Some r"
        by (simp add: Let_def)
      from IH [OF this] c z len small show False by blast
    qed
  qed
  with assms show ?thesis by blast
qed

text \<open>
  Encryption and decryption never return on a packet whose first subpacket declares the size 0:
  in the release build the length of the body wraps around, the cipher call transforms nothing and
  succeeds, and the walk does not advance. Any client can send such a packet to the lobby.
\<close>

theorem crypt_never_returns_on_zero_size:
  assumes "SUBPACKET_SIZE \<le> length (bp_data pkt)" and "size_at (bp_data pkt) 0 = 0"
  shows "packet_decrypt bf pkt = None \<and> packet_encrypt bf pkt = None"
proof -
  have "crypt_walk (region_op g) (bp_data pkt) 0 = None" for g
    using crypt_walk_stuck [of g "bp_data pkt" 0] assms
    by (cases "crypt_walk (region_op g) (bp_data pkt) 0") auto
  then show ?thesis by (simp add: packet_decrypt_def packet_encrypt_def region_op_bf)
qed

theorem crypt_never_returns_on_zero_size_witness:
  "packet_decrypt initial_blowfish \<lparr>bp_header = mk_header True False 32 1 0, bp_data = replicate 16 0\<rparr> = None"
  using crypt_never_returns_on_zero_size
    [of "\<lparr>bp_header = mk_header True False 32 1 0, bp_data = replicate 16 0\<rparr>" initial_blowfish]
  by (simp add: sizes size_at_def endian_eval)

lemma size_at_flags:
  "size_at (pre @ bp_bytes pkt @ post) (length pre) =
     unat (is_authenticated (bp_header pkt)) + 256 * unat (is_compressed (bp_header pkt))"
proof -
  let ?a = "is_authenticated (bp_header pkt)" and ?c = "is_compressed (bp_header pkt)"
  have one: "le_bytes 1 w = [w]" for w :: u8
    using le_bytes_le_word [of "[w]", where ?'a = 8] by (simp add: endian_eval)
  have "take 2 (drop (length pre) (pre @ bp_bytes pkt @ post)) = [?a, ?c]"
    by (simp add: bp_bytes_def base_header_write_def one del: One_nat_def)
  then have "size_at (pre @ bp_bytes pkt @ post) (length pre) = unat (le_word [?a, ?c] :: u16)"
    by (simp add: size_at_take)
  also have "(le_word [?a, ?c] :: u16) = ucast ?a + push_bit 8 (ucast ?c)"
  proof -
    have "(ucast ?a :: u16) AND push_bit 8 (ucast ?c) = 0"
      by (rule bit_word_eqI) (auto simp: bit_simps dest: bit_imp_le_length)
    then show ?thesis by (simp add: endian_eval disjunctive_add_eq_or del: push_bit_eq_mult)
  qed
  also have "unat \<dots> = unat ?a + 256 * unat ?c"
  proof -
    have "unat ?a < 256" "unat ?c < 256" using unsigned_less [of ?a, where ?'a = nat] unsigned_less [of ?c, where ?'a = nat] by simp_all
    then show ?thesis by (simp add: unat_word_ariths push_bit_eq_mult unsigned_ucast_eq take_bit_nat_eq_self)
  qed
  finally show ?thesis .
qed

text \<open>
  The framing reader takes the bytes at the packet's start (the authenticated and compressed flags)
  for its size. It delivers a complete packet that is flagged authenticated and not compressed, but
  withholds a complete packet flagged authenticated and compressed as long as fewer than 257 bytes are
  in the buffer, although \<open>from_buffer\<close> accepts it.
\<close>

theorem try_from_buffer_flags:
  assumes "bp_wf pkt" and "is_authenticated (bp_header pkt) = 1"
  defines "bs \<equiv> bp_bytes pkt"
  shows "from_buffer bs 0 = Ok (pkt, length bs)
    \<and> (is_compressed (bp_header pkt) = 0 \<longrightarrow> try_from_buffer bs 0 (length bs) = Ok (Some (pkt, length bs)))
    \<and> (is_compressed (bp_header pkt) = 1 \<and> length bs < 257 \<longrightarrow> try_from_buffer bs 0 (length bs) = Ok None)"
proof -
  have fb: "from_buffer bs 0 = Ok (pkt, length bs)"
    using from_buffer_wf [OF assms(1), of "[]" "[]"] by (simp add: bs_def)
  have size: "size_at bs 0 = 1 + 256 * unat (is_compressed (bp_header pkt))"
    using size_at_flags [of "[]" pkt "[]"] assms(2) by (simp add: bs_def)
  have len: "16 \<le> length bs" by (simp add: bs_def)
  show ?thesis using fb size len by (auto simp: try_from_buffer_def)
qed

theorem try_from_buffer_flags_witness:
  "\<exists>pkt. bp_wf pkt \<and> from_buffer (bp_bytes pkt) 0 = Ok (pkt, 20)
     \<and> try_from_buffer (bp_bytes pkt) 0 20 = Ok None"
proof -
  let ?p = "\<lparr>bp_header = mk_header True True 20 1 0, bp_data = [1, 2, 3, 4]\<rparr>"
  have wf: "bp_wf ?p" by (simp add: bp_wf_def mk_header_def BASEPACKET_SIZE_def)
  have auth: "is_authenticated (bp_header ?p) = 1" by (simp add: mk_header_def)
  show ?thesis
    using wf try_from_buffer_flags [OF wf auth] by (intro exI [of _ ?p]) (simp add: mk_header_def)
qed

text \<open>
  \<open>compress\<close> deflates the body twice: the constructor it calls deflates again what it was given
  deflated. So one \<open>decompress\<close> of its result, with an inflater that inverts the deflater, yields the
  deflated body, not the original one.
\<close>

theorem compress_deflates_twice:
  assumes "\<And>d. inflate (deflate d) = d"
  shows "\<exists>z back. packet_compress (\<lambda>d. Ok (deflate d)) now pkt = Ok z
    \<and> bp_data z = deflate (deflate (bp_data pkt)) \<and> is_compressed (bp_header z) = 1
    \<and> packet_decompress (\<lambda>d. Ok (inflate d)) z = Ok back
    \<and> bp_data back = deflate (bp_data pkt) \<and> is_compressed (bp_header back) = 0"
  using assms by (simp add: packet_compress_def create_from_data_def packet_decompress_def mk_header_def)

theorem compress_deflates_twice_witness:
  "\<exists>z back. packet_compress (\<lambda>d. Ok (0x78 # d)) 0 \<lparr>bp_header = mk_header True False 18 1 0, bp_data = [5, 6]\<rparr> = Ok z
    \<and> packet_decompress (\<lambda>d. Ok (tl d)) z = Ok back \<and> bp_data back = [0x78, 5, 6]"
  using compress_deflates_twice [of tl "\<lambda>d. 0x78 # d" 0 "\<lparr>bp_header = mk_header True False 18 1 0, bp_data = [5, 6]\<rparr>"]
  by auto

end
