(* ===== verification/Utils.thy ===== *)
theory Utils
  imports Prelude
begin

text \<open>
  \<open>common/src/utils.rs\<close> and \<open>common/src/bitfield.rs\<close>: the property-name hash, the boolean-array
  packing, the login string codec, NUL-terminated strings and field packing. A Rust \<open>String\<close> is its
  UTF-8 byte list; the standard library's lossy UTF-8 decoder is modelled here because the readers of
  strings go through it. Not modelled: the hex dump and the clock reads.
\<close>

section \<open>Strings as UTF-8 bytes\<close>

text \<open>
  The decoder's step on a non-empty list: whether a valid sequence starts it, and how many bytes the
  sequence (or the rejected prefix) has. Bytes past the end read as 0, which never continues one.
\<close>

definition byte_at :: "u8 list \<Rightarrow> nat \<Rightarrow> nat" where
  "byte_at s i = (if i < length s then unat (s ! i) else 0)"

definition cont_byte :: "nat \<Rightarrow> bool" where
  "cont_byte c \<longleftrightarrow> 0x80 \<le> c \<and> c \<le> 0xBF"

definition second_of_3 :: "nat \<Rightarrow> nat \<Rightarrow> bool" where
  "second_of_3 b c \<longleftrightarrow>
     (b = 0xE0 \<and> 0xA0 \<le> c \<and> c \<le> 0xBF) \<or> (b = 0xED \<and> 0x80 \<le> c \<and> c \<le> 0x9F)
     \<or> (b \<noteq> 0xE0 \<and> b \<noteq> 0xED \<and> cont_byte c)"

definition second_of_4 :: "nat \<Rightarrow> nat \<Rightarrow> bool" where
  "second_of_4 b c \<longleftrightarrow>
     (b = 0xF0 \<and> 0x90 \<le> c \<and> c \<le> 0xBF) \<or> (b = 0xF4 \<and> 0x80 \<le> c \<and> c \<le> 0x8F)
     \<or> (b \<noteq> 0xF0 \<and> b \<noteq> 0xF4 \<and> cont_byte c)"

definition utf8_step :: "u8 list \<Rightarrow> bool \<times> nat" where
  "utf8_step s =
     (let b = byte_at s 0; c1 = byte_at s 1; c2 = byte_at s 2; c3 = byte_at s 3
      in if b < 0x80 then (True, 1)
         else if 0xC2 \<le> b \<and> b \<le> 0xDF then (if cont_byte c1 then (True, 2) else (False, 1))
         else if 0xE0 \<le> b \<and> b \<le> 0xEF then
           (if \<not> second_of_3 b c1 then (False, 1) else if cont_byte c2 then (True, 3) else (False, 2))
         else if 0xF0 \<le> b \<and> b \<le> 0xF4 then
           (if \<not> second_of_4 b c1 then (False, 1) else if \<not> cont_byte c2 then (False, 2)
            else if cont_byte c3 then (True, 4) else (False, 3))
         else (False, 1))"

lemma utf8_step_pos [simp]: "0 < snd (utf8_step s)"
  by (simp add: utf8_step_def Let_def)

lemma utf8_step_shrinks: "s \<noteq> [] \<Longrightarrow> (ok, n) = utf8_step s \<Longrightarrow> 0 < n"
  using utf8_step_pos [of s] by (metis snd_conv)

function utf8_lossy :: "u8 list \<Rightarrow> u8 list" where
  "utf8_lossy s =
     (if s = [] then []
      else (case utf8_step s of (ok, n) \<Rightarrow>
        (if ok then take n s else [0xEF, 0xBF, 0xBD]) @ utf8_lossy (drop n s)))"
  by pat_completeness auto
termination
  by (relation "measure length") (simp_all add: utf8_step_shrinks)

function utf8_valid :: "u8 list \<Rightarrow> bool" where
  "utf8_valid s =
     (if s = [] then True else (case utf8_step s of (ok, n) \<Rightarrow> ok \<and> utf8_valid (drop n s)))"
  by pat_completeness auto
termination
  by (relation "measure length") (simp_all add: utf8_step_shrinks)

declare utf8_lossy.simps [simp del] utf8_valid.simps [simp del]

lemma utf8_valid_Nil [simp]: "utf8_valid []"
  by (simp add: utf8_valid.simps)

lemma utf8_lossy_Nil [simp]: "utf8_lossy [] = []"
  by (simp add: utf8_lossy.simps)

lemma utf8_lossy_valid [simp]: "utf8_valid s \<Longrightarrow> utf8_lossy s = s"
proof (induction s rule: length_induct)
  case (1 s)
  show ?case
  proof (cases "s = []")
    case False
    obtain ok n where st: "utf8_step s = (ok, n)" by (cases "utf8_step s")
    with False 1(2) have ok: "ok" "utf8_valid (drop n s)"
      by (auto simp: utf8_valid.simps [of s])
    have "0 < n" using utf8_step_pos [of s] st by simp
    with False have "length (drop n s) < length s" by (cases s) auto
    with 1(1) ok(2) have "utf8_lossy (drop n s) = drop n s" by blast
    with False st ok(1) show ?thesis by (simp add: utf8_lossy.simps [of s])
  qed simp
qed

lemma byte_at_pos_length: "0 < byte_at s i \<Longrightarrow> i < length s"
  by (simp add: byte_at_def split: if_splits)

text \<open>A valid step reads only the bytes it accepts.\<close>

lemma utf8_step_local:
  assumes "utf8_step s = (True, n)" and "s \<noteq> []"
  shows "n \<le> length s \<and> utf8_step (take n s @ t) = (True, n)"
proof -
  have at: "i < n \<Longrightarrow> n \<le> length s \<Longrightarrow> byte_at (take n s @ t) i = byte_at s i" for i
    by (simp add: byte_at_def nth_append)
  have pos: "cont_byte c \<Longrightarrow> 0 < c" "second_of_3 b c \<Longrightarrow> 0 < c" "second_of_4 b c \<Longrightarrow> 0 < c" for b c
    by (auto simp: cont_byte_def second_of_3_def second_of_4_def)
  have len: "i < length s" if "0 < byte_at s i" for i using that by (rule byte_at_pos_length)
  consider (1) "n = 1" "byte_at s 0 < 0x80"
    | (2) "n = 2" "0xC2 \<le> byte_at s 0" "byte_at s 0 \<le> 0xDF" "cont_byte (byte_at s 1)"
    | (3) "n = 3" "0xE0 \<le> byte_at s 0" "byte_at s 0 \<le> 0xEF" "second_of_3 (byte_at s 0) (byte_at s 1)"
        "cont_byte (byte_at s 2)"
    | (4) "n = 4" "0xF0 \<le> byte_at s 0" "byte_at s 0 \<le> 0xF4" "second_of_4 (byte_at s 0) (byte_at s 1)"
        "cont_byte (byte_at s 2)" "cont_byte (byte_at s 3)"
    using assms(1) by (simp add: utf8_step_def Let_def not_less not_le split: if_split_asm)
  then show ?thesis
  proof cases
    case 1
    with assms(2) have n: "n \<le> length s" by (cases s) auto
    with 1 at [of 0] show ?thesis by (simp add: utf8_step_def)
  next
    case 2
    with len [OF pos(1) [OF 2(4)]] have n: "n \<le> length s" by simp
    with 2 at [of 0] at [of 1] show ?thesis by (simp add: utf8_step_def)
  next
    case 3
    with len [OF pos(1) [OF 3(5)]] have n: "n \<le> length s" by simp
    with 3 at [of 0] at [of 1] at [of 2] show ?thesis by (simp add: utf8_step_def)
  next
    case 4
    with len [OF pos(1) [OF 4(6)]] have n: "n \<le> length s" by simp
    with 4 at [of 0] at [of 1] at [of 2] at [of 3] show ?thesis by (simp add: utf8_step_def)
  qed
qed

lemma utf8_valid_append:
  assumes "utf8_step s = (True, n)" and "s \<noteq> []" and "utf8_valid t"
  shows "utf8_valid (take n s @ t)"
  using utf8_step_local [OF assms(1,2), of t] assms(3)
  by (subst utf8_valid.simps) simp

lemma utf8_lossy_is_valid [simp]: "utf8_valid (utf8_lossy s)"
proof (induction s rule: length_induct)
  case (1 s)
  show ?case
  proof (cases "s = []")
    case False
    obtain ok n where st: "utf8_step s = (ok, n)" by (cases "utf8_step s")
    have "0 < n" using utf8_step_pos [of s] st by simp
    with False have "length (drop n s) < length s" by (cases s) auto
    with 1 have rest: "utf8_valid (utf8_lossy (drop n s))" by blast
    have repl: "utf8_step ([0xEF, 0xBF, 0xBD] @ t) = (True, 3)" for t
      by (simp add: utf8_step_def byte_at_def second_of_3_def cont_byte_def)
    have "utf8_valid ([0xEF, 0xBF, 0xBD] @ utf8_lossy (drop n s))"
      using repl [of "utf8_lossy (drop n s)"] rest by (subst utf8_valid.simps) simp
    moreover have "ok \<Longrightarrow> utf8_valid (take n s @ utf8_lossy (drop n s))"
      using utf8_valid_append [of s n] st False rest by simp
    ultimately show ?thesis using False st by (simp add: utf8_lossy.simps [of s])
  qed simp
qed

lemma utf8_lossy_no_nul: "0 \<notin> set s \<Longrightarrow> 0 \<notin> set (utf8_lossy s)"
proof (induction s rule: length_induct)
  case (1 s)
  show ?case
  proof (cases "s = []")
    case False
    obtain ok n where st: "utf8_step s = (ok, n)" by (cases "utf8_step s")
    have "0 < n" using utf8_step_pos [of s] st by simp
    with False have "length (drop n s) < length s" by (cases s) auto
    moreover have "0 \<notin> set (drop n s)" "0 \<notin> set (take n s)"
      using 1(2) by (auto dest: in_set_dropD in_set_takeD)
    ultimately show ?thesis using 1(1) False st by (auto simp: utf8_lossy.simps [of s])
  qed simp
qed

text \<open>ASCII strings, which most identifiers of the game are, are valid.\<close>

lemma utf8_valid_ascii: "\<forall>b \<in> set s. unat b < 0x80 \<Longrightarrow> utf8_valid s"
proof (induction s)
  case (Cons b s)
  then have "utf8_step (b # s) = (True, 1)" by (simp add: utf8_step_def byte_at_def)
  with Cons show ?case by (subst utf8_valid.simps) simp
qed simp

section \<open>NUL-terminated strings\<close>

text \<open>\<open>read_exact\<close> on a cursor: the bytes read and the bytes left.\<close>

definition read_exact :: "nat \<Rightarrow> u8 list \<Rightarrow> (io_kind, u8 list \<times> u8 list) outcome" where
  "read_exact n bs = (if n \<le> length bs then Ok (take n bs, drop n bs) else Err UnexpectedEof)"

lemma read_exact_append [simp]: "length a = n \<Longrightarrow> read_exact n (a @ b) = Ok (a, b)"
  by (simp add: read_exact_def)

definition until_nul :: "u8 list \<Rightarrow> u8 list" where
  "until_nul buf = takeWhile (\<lambda>b. b \<noteq> 0) buf"

definition read_null_term_string :: "u8 list \<Rightarrow> nat \<Rightarrow> (io_kind, u8 list \<times> u8 list) outcome" where
  "read_null_term_string reader max_size =
     bind_outcome (read_exact max_size reader) (\<lambda>(buf, rest). Ok (utf8_lossy (until_nul buf), rest))"

definition write_null_term_string :: "u8 list \<Rightarrow> u8 list \<Rightarrow> nat \<Rightarrow> u8 list" where
  "write_null_term_string out value max_size = out @ take (min (length value) max_size) value"

section \<open>The property-name hash\<close>

text \<open>
  The loop walks backwards over four-byte groups from the end of the key; a read outside the key is a
  panic. \<open>data_index\<close> and \<open>len\<close> are signed in the source.
\<close>

definition MURMUR_M :: u32 where
  "MURMUR_M = 0x5bd1e995"

definition murmur_mix :: "u32 \<Rightarrow> u32 \<Rightarrow> u32" where
  "murmur_mix h k_raw =
     (let h = h * MURMUR_M;
          k = (drop_bit 24 k_raw AND 0xff) OR (push_bit 8 k_raw AND 0x00ff0000)
                OR (drop_bit 8 k_raw AND 0x0000ff00) OR (push_bit 24 k_raw AND 0xff000000);
          k = k * MURMUR_M;
          k = k XOR drop_bit 24 k;
          k = k * MURMUR_M
      in h XOR k)"

definition murmur_word :: "u8 list \<Rightarrow> int \<Rightarrow> (unit, u32) outcome" where
  "murmur_word data di =
     (if 0 \<le> di \<and> nat di + 3 < length data
      then Ok (le_word [data ! nat di, data ! (nat di + 1), data ! (nat di + 2), data ! (nat di + 3)])
      else Panic)"

function murmur_loop :: "u8 list \<Rightarrow> int \<Rightarrow> int \<Rightarrow> u32 \<Rightarrow> (unit, u32 \<times> int) outcome" where
  "murmur_loop data len data_index h =
     (if 4 \<le> len
      then bind_outcome (murmur_word data data_index)
        (\<lambda>k_raw. murmur_loop data (len - 4) (data_index - 4) (murmur_mix h k_raw))
      else Ok (h, len))"
  by pat_completeness auto
termination
  by (relation "measure (\<lambda>(data, len, data_index, h). nat len)") auto

declare murmur_loop.simps [simp del]

definition murmur_tail :: "u8 list \<Rightarrow> nat \<Rightarrow> u32 \<Rightarrow> u32" where
  "murmur_tail data tail h =
     (if tail = 3 then (h XOR push_bit 16 (ucast (data ! 0)) XOR push_bit 8 (ucast (data ! 1)) XOR ucast (data ! 2)) * MURMUR_M
      else if tail = 2 then (h XOR push_bit 8 (ucast (data ! 0)) XOR ucast (data ! 1)) * MURMUR_M
      else if tail = 1 then (h XOR ucast (data ! 0)) * MURMUR_M
      else h)"

definition murmur_finish :: "u32 \<Rightarrow> u32" where
  "murmur_finish h =
     (let h = h XOR drop_bit 13 h; h = h * MURMUR_M in h XOR drop_bit 15 h)"

definition murmur_hash2 :: "u8 list \<Rightarrow> u32 \<Rightarrow> (unit, u32) outcome" where
  "murmur_hash2 data seed =
     bind_outcome (murmur_loop data (int (length data)) (int (length data) - 4) (seed XOR of_nat (length data)))
       (\<lambda>(h, len). Ok (murmur_finish (murmur_tail data (nat len) h)))"

text \<open>
  The reference: the key cut into a head of \<open>length mod 4\<close> bytes and big-endian four-byte groups,
  mixed in from the last group to the first, then the head.
\<close>

definition murmur_step :: "u32 \<Rightarrow> u32 \<Rightarrow> u32" where
  "murmur_step k h =
     (let k = k * MURMUR_M; k = (k XOR drop_bit 24 k) * MURMUR_M in h * MURMUR_M XOR k)"

fun groups4 :: "u8 list \<Rightarrow> u32 list" where
  "groups4 (a # b # c # d # r) = be_word [a, b, c, d] # groups4 r"
| "groups4 r = []"

definition murmur_spec :: "u8 list \<Rightarrow> u32 \<Rightarrow> u32" where
  "murmur_spec data seed =
     (let n = length data mod 4;
          h = foldr murmur_step (groups4 (drop n data)) (seed XOR of_nat (length data))
      in murmur_finish (if n = 0 then h else (h XOR be_word (take n data)) * MURMUR_M))"

lemma byte_index: "j < 8 \<Longrightarrow> (8 * q + j) div 8 = q \<and> (8 * q + j) mod 8 = (j :: nat)"
  by simp

lemma byte_swap_word:
  fixes a b c d :: u8
  defines "k \<equiv> le_word [a, b, c, d] :: u32"
  shows "(drop_bit 24 k AND 0xff) OR (push_bit 8 k AND 0x00ff0000) OR (drop_bit 8 k AND 0x0000ff00)
     OR (push_bit 24 k AND 0xff000000) = be_word [a, b, c, d]"
proof (rule bit_word_eqI)
  fix n assume n: "n < LENGTH(32)"
  have k: "bit k i \<longleftrightarrow> i < 32 \<and> bit ([a, b, c, d] ! (i div 8)) (i mod 8)" for i
    unfolding k_def by (auto simp: bit_le_word)
  have m: "0xff = (mask 8 :: u32)" "0x00ff0000 = (push_bit 16 (mask 8) :: u32)"
    "0x0000ff00 = (push_bit 8 (mask 8) :: u32)" "0xff000000 = (push_bit 24 (mask 8) :: u32)"
    by (simp_all add: mask_eq_decr_exp)
  have be: "bit (be_word [a, b, c, d] :: u32) n \<longleftrightarrow> bit ([d, c, b, a] ! (n div 8)) (n mod 8)"
    using n by (auto simp: be_word_def bit_le_word)
  consider "n < 8" | "8 \<le> n \<and> n < 16" | "16 \<le> n \<and> n < 24" | "24 \<le> n \<and> n < 32"
    using n by fastforce
  then show "bit ((drop_bit 24 k AND 0xff) OR (push_bit 8 k AND 0x00ff0000) OR (drop_bit 8 k AND 0x0000ff00)
     OR (push_bit 24 k AND 0xff000000)) n \<longleftrightarrow> bit (be_word [a, b, c, d] :: u32) n"
  proof cases
    case 1
    then have "(24 + n) div 8 = 3" "(24 + n) mod 8 = n" "n div 8 = 0" "n mod 8 = n"
      using byte_index [of n 3] byte_index [of n 0] by simp_all
    with 1 show ?thesis
      unfolding be m by (simp add: bit_simps k)
  next
    case 2
    define j where "j = n - 8"
    with 2 have j: "n = 8 + j" "j < 8" by linarith+
    then have "(8 + n) div 8 = 2" "(8 + n) mod 8 = j" "n div 8 = 1" "n mod 8 = j"
      using byte_index [of j 2] byte_index [of j 1] by simp_all
    with 2 j show ?thesis
      unfolding be m by (simp add: bit_simps k)
  next
    case 3
    define j where "j = n - 16"
    with 3 have j: "n = 16 + j" "j < 8" by linarith+
    then have "(n - 8) div 8 = 1" "(n - 8) mod 8 = j" "n div 8 = 2" "n mod 8 = j"
      using byte_index [of j 2] byte_index [of j 1] by simp_all
    with 3 j show ?thesis
      unfolding be m by (simp add: bit_simps k)
  next
    case 4
    define j where "j = n - 24"
    with 4 have j: "n = 24 + j" "j < 8" by linarith+
    then have "(n - 24) div 8 = 0" "(n - 24) mod 8 = j" "n div 8 = 3" "n mod 8 = j"
      using byte_index [of j 3] byte_index [of j 0] by simp_all
    with 4 j show ?thesis
      unfolding be m by (simp add: bit_simps k)
  qed
qed

lemma murmur_mix_word: "murmur_mix h (le_word [a, b, c, d]) = murmur_step (be_word [a, b, c, d]) h"
  by (simp add: murmur_mix_def murmur_step_def Let_def byte_swap_word)

lemma groups4_snoc:
  "length r mod 4 = 0 \<Longrightarrow> groups4 (r @ [a, b, c, d]) = groups4 r @ [be_word [a, b, c, d]]"
proof (induction r rule: groups4.induct)
  case (1 a b c d r)
  then have "length r mod 4 = 0" by simp
  with 1 show ?case by simp
qed (simp_all)

lemma last_group:
  assumes "4 \<le> length (g :: u8 list)"
  shows "\<exists>r a b c d. g = r @ [a, b, c, d]"
proof -
  have "length (drop (length g - 4) g) = 4" using assms by simp
  then obtain a b c d where "drop (length g - 4) g = [a, b, c, d]"
    using that by (cases "drop (length g - 4) g" rule: groups4.cases) simp_all
  then show ?thesis using append_take_drop_id [of "length g - 4" g] by metis
qed

lemma murmur_loop_groups:
  "length pre < 4 \<Longrightarrow> length g mod 4 = 0 \<Longrightarrow>
    murmur_loop (pre @ g @ rest) (int (length (pre @ g))) (int (length (pre @ g)) - 4) h
      = Ok (foldr murmur_step (groups4 g) h, int (length pre))"
proof (induction "length g" arbitrary: g rest h rule: less_induct)
  case less
  show ?case
  proof (cases "g = []")
    case True
    with less.prems show ?thesis by (simp add: murmur_loop.simps)
  next
    case False
    have "4 \<le> length g"
    proof (rule ccontr)
      assume "\<not> 4 \<le> length g"
      with less.prems(2) False show False by simp
    qed
    then obtain r a b c d where g: "g = r @ [a, b, c, d]" using last_group by blast
    have m: "length r mod 4 = 0" using less.prems g by simp
    have word: "murmur_word (pre @ g @ rest) (int (length (pre @ g)) - 4) = Ok (le_word [a, b, c, d])"
      by (simp add: murmur_word_def g nat_add_distrib nth_append flip: of_nat_add)
    have "murmur_loop (pre @ g @ rest) (int (length (pre @ g))) (int (length (pre @ g)) - 4) h =
        murmur_loop (pre @ r @ ([a, b, c, d] @ rest)) (int (length (pre @ r))) (int (length (pre @ r)) - 4)
          (murmur_step (be_word [a, b, c, d]) h)"
      using word \<open>4 \<le> length g\<close>
      by (subst murmur_loop.simps) (simp add: murmur_mix_word, simp add: g)
    also have "\<dots> = Ok (foldr murmur_step (groups4 r) (murmur_step (be_word [a, b, c, d]) h), int (length pre))"
      using less.hyps [OF _ less.prems(1) m, of "[a, b, c, d] @ rest"] by (simp add: g)
    finally show ?thesis by (simp add: g groups4_snoc [OF m])
  qed
qed

lemma murmur_tail_head:
  assumes "length data mod 4 = n"
  shows "murmur_tail data n h = (if n = 0 then h else (h XOR be_word (take n data)) * MURMUR_M)"
proof -
  have disj: "x OR push_bit 8 y = push_bit 8 y XOR x" if "\<And>i. bit x i \<Longrightarrow> i < 8" for x y :: u32
    by (rule bit_word_eqI) (use that in \<open>fastforce simp: bit_simps not_le\<close>)
  have disj': "x OR (push_bit 16 y XOR push_bit 8 z) = push_bit 16 y XOR push_bit 8 z XOR x"
    if "\<And>i. bit x i \<Longrightarrow> i < 8" for x y z :: u32
    by (rule bit_word_eqI) (use that in \<open>fastforce simp: bit_simps not_le\<close>)
  have b: "bit (ucast (x :: u8) :: u32) i \<Longrightarrow> i < 8" for x i
    by (auto simp: bit_simps dest: bit_imp_le_length)
  have n: "n \<le> length data" "n < 4" using assms by (auto simp flip: assms)
  consider "n = 0" | x where "n = 1" "take n data = [x]" | x y where "n = 2" "take n data = [x, y]"
    | x y z where "n = 3" "take n data = [x, y, z]"
  proof -
    have "length (take n data) = n" using n by simp
    with n that show ?thesis
      by (cases "take n data" rule: groups4.cases; cases "n = 0"; fastforce)
  qed
  then show ?thesis
  proof cases
    case 2
    then have "data ! 0 = x" by (metis less_numeral_extra(1) nth_Cons_0 nth_take)
    with 2 show ?thesis by (simp add: murmur_tail_def endian_eval del: push_bit_eq_mult)
  next
    case 3
    then have "data ! 0 = x" "data ! 1 = y" using nth_take [of 0 2 data] nth_take [of 1 2 data] by auto
    with 3 show ?thesis
      by (simp add: murmur_tail_def endian_eval disj [OF b] xor.assoc del: push_bit_eq_mult)
  next
    case 4
    then have "data ! 0 = x" "data ! 1 = y" "data ! 2 = z"
      using nth_take [of 0 3 data] nth_take [of 1 3 data] nth_take [of 2 3 data] by auto
    with 4 show ?thesis
      by (simp add: murmur_tail_def endian_eval disj [OF b] disj' [OF b] xor.assoc del: push_bit_eq_mult)
  qed (simp add: murmur_tail_def)
qed

text \<open>
  The property-name hash never panics, whatever the key, and equals the reference that mixes the
  big-endian groups of the key from the last to the first and then the head: the backward index walk,
  the byte swap by masks and the three tail cases together compute exactly that.
\<close>

theorem murmur_hash2_reference:
  "murmur_hash2 data seed = Ok (murmur_spec data seed)"
proof -
  let ?n = "length data mod 4"
  have hd: "length (take ?n data) = ?n" and m: "length (drop ?n data) mod 4 = 0"
    by (simp_all add: min_def minus_mod_eq_mult_div)
  have "murmur_loop data (int (length data)) (int (length data) - 4) h
      = Ok (foldr murmur_step (groups4 (drop ?n data)) h, int ?n)" for h
    using murmur_loop_groups [OF _ m, of "take ?n data" "[]" h] hd by simp
  then show ?thesis
    by (simp add: murmur_hash2_def murmur_spec_def murmur_tail_head Let_def)
qed

section \<open>Boolean arrays and packed fields\<close>

text \<open>The inner loop stops at the end of the array; the outer one takes eight entries at a time.\<close>

definition pack_octet :: "bool list \<Rightarrow> nat \<Rightarrow> u8 \<Rightarrow> u8" where
  "pack_octet array i byte =
     foldl (\<lambda>b k. b OR push_bit (7 - k) (of_bool (array ! (i + k)))) byte
       (takeWhile (\<lambda>k. i + k < length array) [0..<8])"

function bool_array_loop :: "bool list \<Rightarrow> nat \<Rightarrow> nat \<Rightarrow> u8 list \<Rightarrow> u8 list" where
  "bool_array_loop array i counter data =
     (if i < length array
      then bool_array_loop array (i + 8) (counter + 1) (data[counter := pack_octet array i (data ! counter)])
      else data)"
  by pat_completeness auto
termination
  by (relation "measure (\<lambda>(array, i, counter, data). length array - i)") auto

declare bool_array_loop.simps [simp del]

definition bool_array_to_binary_stream :: "bool list \<Rightarrow> u8 list" where
  "bool_array_to_binary_stream array =
     bool_array_loop array 0 0 (replicate ((length array + 7) div 8) 0)"

lemma takeWhile_upt: "takeWhile (\<lambda>k. i + k < n) [a..<b] = [a..<min b (max a (n - i))]"
proof (induction "b - a" arbitrary: a)
  case (Suc d)
  then have "a < b" by simp
  with Suc(1) [of "Suc a"] Suc(2) show ?case
    by (cases "i + a < n") (auto simp: upt_conv_Cons min_def max_def)
qed simp

lemma bit_fold_or:
  "bit (foldl (\<lambda>b k. b OR push_bit (7 - k) (of_bool (f k))) (byte :: u8) ks) j \<longleftrightarrow>
     bit byte j \<or> (\<exists>k \<in> set ks. j = 7 - k \<and> f k)"
proof (induction ks arbitrary: byte)
  case (Cons k ks)
  have "bit (push_bit (7 - k) (of_bool (f k) :: u8)) j \<longleftrightarrow> j = 7 - k \<and> f k"
    by (auto simp: bit_simps)
  with Cons show ?case by (auto simp: bit_or_iff)
qed simp

lemma bit_pack_octet:
  assumes "j < 8"
  shows "bit (pack_octet array i byte) (7 - j) \<longleftrightarrow> bit byte (7 - j) \<or> (i + j < length array \<and> array ! (i + j))"
proof -
  have "7 - j = 7 - k \<longleftrightarrow> k = j" if "k < 8" for k using assms that by linarith
  with assms show ?thesis
    by (auto simp: pack_octet_def takeWhile_upt bit_fold_or intro!: bexI [of _ j])
qed

lemma bool_array_loop_bits:
  assumes "length data = (length array + 7) div 8" and "i = 8 * counter"
    and "\<forall>c. counter \<le> c \<longrightarrow> c < length data \<longrightarrow> data ! c = 0"
  shows "length (bool_array_loop array i counter data) = length data
    \<and> (\<forall>c < length data. bool_array_loop array i counter data ! c =
         (if c < counter then data ! c else pack_octet array (8 * c) 0))"
  using assms
proof (induction array i counter data rule: bool_array_loop.induct)
  case (1 array i counter data)
  show ?case
  proof (cases "i < length array")
    case True
    let ?d = "data[counter := pack_octet array i (data ! counter)]"
    have lt: "counter < length data" using True 1(2,3) by linarith
    have "length (bool_array_loop array (i + 8) (counter + 1) ?d) = length ?d
      \<and> (\<forall>c < length ?d. bool_array_loop array (i + 8) (counter + 1) ?d ! c =
           (if c < counter + 1 then ?d ! c else pack_octet array (8 * c) 0))"
      by (rule 1(1) [OF True]) (use 1(2-4) in auto)
    with True lt 1(3,4) show ?thesis
      by (subst (1 2) bool_array_loop.simps) (auto simp: nth_list_update less_Suc_eq)
  next
    case False
    then have "length data \<le> counter" using 1(2,3) by linarith
    with False show ?thesis by (simp add: bool_array_loop.simps)
  qed
qed

text \<open>
  The packed stream of a boolean array has one byte per eight entries, entry \<open>8 * c + j\<close> is bit
  \<open>7 - j\<close> of byte \<open>c\<close>, and the unused bits of the last byte are clear.
\<close>

theorem bool_array_bits:
  "length (bool_array_to_binary_stream array) = (length array + 7) div 8
   \<and> (\<forall>c < (length array + 7) div 8. \<forall>j < 8.
        bit (bool_array_to_binary_stream array ! c) (7 - j)
          \<longleftrightarrow> 8 * c + j < length array \<and> array ! (8 * c + j))"
  using bool_array_loop_bits [of "replicate ((length array + 7) div 8) 0" array 0 0]
  by (simp add: bool_array_to_binary_stream_def bit_pack_octet)

text \<open>Evaluating it on an instance, which also serves as the witness of its bounded quantifiers.\<close>

theorem bool_array_bits_witness:
  "bit (bool_array_to_binary_stream [True, False, True, False, False, False, False, False, True] ! 1) 7
   \<and> length (bool_array_to_binary_stream [True, False, True, False, False, False, False, False, True]) = 2"
  using bool_array_bits [of "[True, False, True, False, False, False, False, False, True]"]
  by (elim conjE allE [of _ 1]) (simp, drule spec [of _ 0], simp)

text \<open>
  \<open>common/src/bitfield.rs\<close>: fields packed from the low end. A shift by the full width or more is
  masked in the release build, as the machine does.
\<close>

definition field_mask :: "nat \<Rightarrow> 'a::len word" where
  "field_mask n = (if LENGTH('a) \<le> n then - 1 else push_bit n 1 - 1)"

definition shl_masked :: "'a::len word \<Rightarrow> nat \<Rightarrow> 'a word" where
  "shl_masked x k = push_bit (k mod LENGTH('a)) x"

fun pack_fields :: "('a::len word \<times> nat) list \<Rightarrow> nat \<Rightarrow> 'a word \<Rightarrow> 'a word" where
  "pack_fields [] offset r = r"
| "pack_fields ((value, n) # fields) offset r =
     pack_fields fields (offset + n) (r OR shl_masked (value AND field_mask n) offset)"

definition pack_u32 :: "(u32 \<times> nat) list \<Rightarrow> u32" where
  "pack_u32 fields = pack_fields fields 0 0"

definition pack_u64 :: "(u64 \<times> nat) list \<Rightarrow> u64" where
  "pack_u64 fields = pack_fields fields 0 0"

lemma bit_field_mask: "bit (field_mask n :: 'a::len word) k \<longleftrightarrow> k < n \<and> k < LENGTH('a)"
proof (cases "LENGTH('a) \<le> n")
  case False
  then have "(field_mask n :: 'a word) = mask n" by (simp add: field_mask_def mask_eq_exp_minus_1)
  then show ?thesis by (auto simp: bit_simps)
qed (auto simp: field_mask_def bit_simps)

text \<open>Where field \<open>i\<close> starts.\<close>

definition field_start :: "('a::len word \<times> nat) list \<Rightarrow> nat \<Rightarrow> nat" where
  "field_start fields i = sum_list (map snd (take i fields))"

lemma pack_fields_bits:
  fixes r :: "'a::len word"
  assumes "offset + sum_list (map snd fields) \<le> LENGTH('a)" and "i < length fields"
    and "j < snd (fields ! i)" and "\<forall>k. bit r k \<longrightarrow> k < offset"
  shows "bit (pack_fields fields offset r) (offset + field_start fields i + j) \<longleftrightarrow> bit (fst (fields ! i)) j"
  using assms
proof (induction fields arbitrary: offset r i)
  case (Cons f fields)
  obtain v n where f: "f = (v, n)" by (cases f)
  let ?r = "r OR shl_masked (v AND field_mask n) offset"
  show ?case
  proof (cases "n = 0")
    case True
    have "?r = r" by (rule bit_word_eqI) (simp add: True shl_masked_def bit_simps bit_field_mask)
    with Cons f True show ?thesis by (cases i) (auto simp: field_start_def)
  next
    case False
    then have off: "offset < LENGTH('a)" using Cons.prems(1) f by simp
    have bits: "bit ?r k \<longleftrightarrow> bit r k \<or> (offset \<le> k \<and> k < LENGTH('a) \<and> k - offset < n \<and> bit v (k - offset))" for k
      using off by (auto simp: shl_masked_def bit_simps bit_field_mask)
    have low: "\<forall>k. bit ?r k \<longrightarrow> k < offset + n"
      using Cons.prems(4) by (auto simp: bits dest: order_less_le_trans)
    have keep: "bit (pack_fields fs off s) k \<longleftrightarrow> bit s k"
      if "off + sum_list (map snd fs) \<le> LENGTH('a)" "k < off" for fs :: "('a word \<times> nat) list" and off s k
      using that
    proof (induction fs arbitrary: off s)
      case (Cons g fs)
      obtain w m where g: "g = (w, m)" by (cases g)
      have "bit (s OR shl_masked (w AND field_mask m) off) k \<longleftrightarrow> bit s k"
        using Cons.prems g by (cases "off = LENGTH('a)") (auto simp: shl_masked_def bit_simps bit_field_mask)
      with Cons g show ?case by simp
    qed simp
    show ?thesis
    proof (cases i)
      case 0
      have "bit (pack_fields fields (offset + n) ?r) (offset + j) \<longleftrightarrow> bit ?r (offset + j)"
        by (rule keep) (use Cons.prems f 0 in auto)
      also have "\<dots> \<longleftrightarrow> bit v j"
        using Cons.prems f 0 by (auto simp: bits)
      finally show ?thesis by (simp add: f 0 field_start_def)
    next
      case (Suc i')
      have "bit (pack_fields fields (offset + n) ?r) (offset + n + field_start fields i' + j)
          \<longleftrightarrow> bit (fst (fields ! i')) j"
        by (rule Cons.IH) (use Cons.prems f Suc low in auto)
      then show ?thesis by (simp add: f Suc field_start_def ac_simps)
    qed
  qed
qed simp

text \<open>Packed fields can be read back: what the packers are for.\<close>

lemma pack_u32_field:
  assumes "sum_list (map snd fields) \<le> 32" and "i < length fields" and "j < snd (fields ! i)"
  shows "bit (pack_u32 fields) (field_start fields i + j) \<longleftrightarrow> bit (fst (fields ! i)) j"
  using pack_fields_bits [of 0 fields i j 0] assms by (simp add: pack_u32_def)

section \<open>The login string codec\<close>

text \<open>
  The rotations are on 32-bit values although the keys are meant to be 16 bits wide; the caller masks.
  \<open>shl_masked\<close> and \<open>shr_masked\<close> are the release build's shifts.
\<close>

definition shr_masked :: "'a::len word \<Rightarrow> nat \<Rightarrow> 'a word" where
  "shr_masked x k = drop_bit (k mod LENGTH('a)) x"

definition rotate_left :: "u32 \<Rightarrow> nat \<Rightarrow> u32" where
  "rotate_left value bits = shl_masked value bits OR shr_masked value (nat ((16 - int bits) mod 32))"

definition rotate_right :: "u32 \<Rightarrow> nat \<Rightarrow> u32" where
  "rotate_right value bits = shr_masked value bits OR shl_masked value (nat ((16 - int bits) mod 32))"

definition encode_key :: "u32 \<Rightarrow> u32" where
  "encode_key key = rotate_left ((key + 0x22AF) AND 0xFFFF) 1 AND 0xFFFF"

definition decode_key :: "u32 \<Rightarrow> u32" where
  "decode_key key = (rotate_right key 1 AND 0xFFFF) - 0x22AF"

text \<open>The encoder's loop fills the result from its end; it returns the key after the last character.\<close>

function encode_loop :: "u8 list \<Rightarrow> u8 list \<Rightarrow> nat \<Rightarrow> u32 \<Rightarrow> u8 list \<times> nat \<times> u32" where
  "encode_loop ascii result count key =
     (if count < length ascii
      then encode_loop ascii
        (result[length result - count - 1 := (ascii ! (length ascii - count - 1)) XOR ucast (key AND 0xFF)])
        (count + 1) (encode_key key)
      else (result, count, key))"
  by pat_completeness auto
termination
  by (relation "measure (\<lambda>(ascii, result, count, key). length ascii - count)") auto

declare encode_loop.simps [simp del]

definition login_string_encode :: "u32 \<Rightarrow> u8 list \<Rightarrow> u8 list" where
  "login_string_encode key msg =
     (case encode_loop msg (replicate (4 + length msg) 0) 0 (key AND 0xFFFF) of (result, cnt, key) \<Rightarrow>
        let result = result[3 := ucast ((of_nat cnt XOR key) AND 0xFF)];
            key = encode_key key;
            result = result[2 := ucast (key AND 0xFF)];
            key = encode_key key;
            result = result[1 := ucast (key AND 0xFF)]
        in result[0 := ucast (drop_bit 8 key AND 0xFF)])"

text \<open>
  The decoder; the characters it pushes are code points below 256. \<open>count\<close> is at most 65535, so the
  loop is by recursion on it. Reading past the data panics.
\<close>

fun decode_loop :: "u8 list \<Rightarrow> nat \<Rightarrow> nat \<Rightarrow> u32 \<Rightarrow> (unit, u8 list) outcome" where
  "decode_loop data idx 0 final_key = Ok []"
| "decode_loop data idx (Suc n) final_key =
     (if 4 + idx < length data
      then (let final_key = decode_key final_key;
                ch = ucast (data ! (4 + idx)) XOR (final_key AND 0xFF)
            in bind_outcome (decode_loop data (idx + 1) n final_key) (\<lambda>r. Ok (ucast ch # r)))
      else Panic)"

definition login_string_decode :: "u8 list \<Rightarrow> (unit, u8 list) outcome" where
  "login_string_decode data =
     (if length data < 4 then Panic
      else (let key = push_bit 8 (ucast (data ! 0)) OR ucast (data ! 1);
                key = decode_key key;
                key2 = ucast (data ! 2) XOR key;
                key = decode_key key;
                k3 = (ucast (data ! 3) XOR key) AND 0xFF;
                cnt = push_bit 8 (key2 AND 0xFF) OR k3
            in decode_loop data 0 (unat (cnt :: u32)) key))"

text \<open>
  One decoding step undoes one encoding step except for a borrow: a key of 0xDD51 or more comes back
  with its high half set, and the next rotation moves a one into bit 15. The bit is right only when the
  key is odd.
\<close>

definition key_safe :: "u32 \<Rightarrow> bool" where
  "key_safe k \<longleftrightarrow> unat k < 2 ^ 16 \<and> (unat k < 0xDD51 \<or> bit k 0)"

definition key_image :: "u32 \<Rightarrow> u32 \<Rightarrow> bool" where
  "key_image v k \<longleftrightarrow> unat k < 2 ^ 16 \<and> (v = k \<or> v = k + 0xFFFF0000 \<and> 0xDD51 \<le> unat k)"

lemma and_ffff: "(x :: u32) AND 0xFFFF = take_bit 16 x"
proof -
  have "(0xFFFF :: u32) = mask 16" by (simp add: mask_eq_decr_exp)
  then show ?thesis by (simp only: take_bit_eq_mask)
qed

lemma rotate_1:
  "rotate_left v 1 = push_bit 1 v OR drop_bit 15 v"
  "rotate_right v 1 = drop_bit 1 v OR push_bit 15 v"
  by (simp_all add: rotate_left_def rotate_right_def shl_masked_def shr_masked_def)

lemma rotate_16:
  "k < 16 \<Longrightarrow> bit (rotate_left v 1 AND 0xFFFF) k \<longleftrightarrow> (if k = 0 then bit v 15 else bit v (k - 1)) \<or> bit v (15 + k)"
  "k < 16 \<Longrightarrow> bit (rotate_right v 1 AND 0xFFFF) k \<longleftrightarrow> (if k = 15 then bit v 0 \<or> bit v 16 else bit v (k + 1))"
proof -
  have push: "bit (push_bit n v) k \<longleftrightarrow> n \<le> k \<and> k < 32 \<and> bit v (k - n)" for n
    by (simp add: bit_push_bit_iff conj_ac)
  show "k < 16 \<Longrightarrow> bit (rotate_left v 1 AND 0xFFFF) k \<longleftrightarrow> (if k = 0 then bit v 15 else bit v (k - 1)) \<or> bit v (15 + k)"
    unfolding and_ffff rotate_1 bit_take_bit_iff bit_or_iff push bit_drop_bit_eq o_def by auto
  show "k < 16 \<Longrightarrow> bit (rotate_right v 1 AND 0xFFFF) k \<longleftrightarrow> (if k = 15 then bit v 0 \<or> bit v 16 else bit v (k + 1))"
    unfolding and_ffff rotate_1 bit_take_bit_iff bit_or_iff push bit_drop_bit_eq o_def by auto
qed

lemma rotate_back:
  assumes "unat m < 2 ^ 16"
  shows "rotate_right (rotate_left m 1 AND 0xFFFF) 1 AND 0xFFFF = m"
proof (rule bit_word_eqI)
  fix n assume "n < LENGTH(32)"
  have high: "\<not> bit m i" if "16 \<le> i" for i
  proof -
    have "take_bit 16 m = m"
      by (rule word_unat_eq_iff [THEN iffD2]) (use assms in \<open>simp add: unsigned_take_bit_eq take_bit_nat_eq_self\<close>)
    then have "bit m i \<longleftrightarrow> i < 16 \<and> bit m i" by (metis bit_take_bit_iff)
    with that show ?thesis by simp
  qed
  show "bit (rotate_right (rotate_left m 1 AND 0xFFFF) 1 AND 0xFFFF) n \<longleftrightarrow> bit m n"
  proof (cases "n < 16")
    case True
    then have n: "n = 15 \<or> n < 15" by auto
    have b16: "\<not> bit (rotate_left m 1 AND 0xFFFF) 16" by (simp add: and_ffff bit_take_bit_iff)
    from n show ?thesis
    proof
      assume "n = 15"
      with b16 show ?thesis by (simp only: rotate_16) (simp add: high)
    next
      assume "n < 15"
      then have "n < 16" "n + 1 < 16" "n \<noteq> 15" by auto
      then show ?thesis by (simp only: rotate_16) (simp add: high)
    qed
  next
    case False
    then show ?thesis using high by (simp add: and_ffff bit_take_bit_iff)
  qed
qed

lemma encode_key_16 [simp]: "unat (encode_key k) < 65536"
  by (simp add: encode_key_def and_ffff unsigned_take_bit_eq take_bit_nat_def)

lemma decode_encode_key:
  assumes "unat k < 2 ^ 16"
  shows "key_image (decode_key (encode_key k)) k"
proof -
  let ?m = "(k + 0x22AF) AND 0xFFFF"
  have m: "unat ?m < 2 ^ 16" by (simp add: and_ffff unsigned_take_bit_eq take_bit_nat_def)
  have dk: "decode_key (encode_key k) = ?m - 0x22AF"
    by (simp only: decode_key_def encode_key_def rotate_back [OF m])
  have sum: "unat (k + 0x22AF) = unat k + 0x22AF"
    using assms by (simp add: unat_word_ariths)
  show ?thesis
  proof (cases "unat k < 0xDD51")
    case True
    then have "?m = k + 0x22AF"
      by (intro word_unat_eq_iff [THEN iffD2])
        (simp add: and_ffff unsigned_take_bit_eq take_bit_nat_def sum)
    with assms dk show ?thesis by (simp add: key_image_def)
  next
    case False
    then have "unat ?m = unat k + 0x22AF - 0x10000"
      using assms by (simp add: and_ffff unsigned_take_bit_eq take_bit_nat_def sum mod_if)
    also have "\<dots> = unat (k + 0x22AF - 0x10000)"
      using False assms sum by (subst unat_sub) (simp_all add: word_le_nat_alt)
    finally have "?m = k + 0x22AF - 0x10000" by (rule word_unat_eq_iff [THEN iffD2])
    with assms dk False show ?thesis by (simp add: key_image_def)
  qed
qed

lemma mod_ffff0000: "(x + 0xFFFF0000) mod 65536 = x mod (65536 :: nat)"
  using mod_mult_self1 [of x 65535 65536] by simp

lemma key_image_bits:
  assumes "key_image v k" and "i < 16"
  shows "bit v i \<longleftrightarrow> bit k i"
proof -
  have "unat (k + 0xFFFF0000) = unat k + 0xFFFF0000" if "unat k < 2 ^ 16"
    using that by (simp add: unat_word_ariths)
  then have "take_bit 16 v = take_bit 16 k"
    using assms(1) by (intro word_unat_eq_iff [THEN iffD2])
      (auto simp: key_image_def unsigned_take_bit_eq take_bit_nat_def mod_ffff0000)
  with assms(2) show ?thesis by (metis bit_take_bit_iff)
qed

lemma decode_image:
  assumes "key_image v k" and "key_safe k"
  shows "decode_key v = decode_key k"
proof -
  have low: "bit v 0 = bit k 0" using key_image_bits [OF assms(1), of 0] by simp
  have "rotate_right v 1 AND 0xFFFF = rotate_right k 1 AND 0xFFFF"
  proof (rule bit_word_eqI)
    fix n assume "n < LENGTH(32)"
    show "bit (rotate_right v 1 AND 0xFFFF) n \<longleftrightarrow> bit (rotate_right k 1 AND 0xFFFF) n"
    proof (cases "n < 16")
      case True
      have "v = k \<or> bit k 0"
        using assms by (auto simp: key_image_def key_safe_def)
      then show ?thesis
        using low key_image_bits [OF assms(1), of "n + 1"] True
        by (auto simp only: rotate_16(2) [OF True] split: if_split)
    qed (simp add: and_ffff bit_take_bit_iff)
  qed
  then show ?thesis by (simp only: decode_key_def)
qed

lemma key_image_byte:
  assumes "key_image v k"
  shows "(v AND 0xFF) = k AND 0xFF"
proof -
  have m: "(0xFF :: u32) = mask 8" by (simp add: mask_eq_decr_exp)
  show ?thesis unfolding m
    by (rule bit_word_eqI) (use key_image_bits [OF assms] in \<open>auto simp: bit_simps\<close>)
qed

lemma low_byte_xor: "(ucast (ucast (x AND 0xFF) :: u8) XOR v) AND 0xFF = (x XOR v) AND (0xFF :: u32)"
proof -
  have m: "(0xFF :: u32) = mask 8" by (simp add: mask_eq_decr_exp)
  show ?thesis unfolding m by (rule bit_word_eqI) (auto simp: bit_simps)
qed

lemma key_image_xor:
  assumes "key_image v k"
  shows "(x XOR v) AND 0xFF = (x XOR k) AND 0xFF"
proof -
  have m: "(0xFF :: u32) = mask 8" by (simp add: mask_eq_decr_exp)
  show ?thesis unfolding m
    by (rule bit_word_eqI) (use key_image_bits [OF assms] in \<open>auto simp: bit_simps\<close>)
qed

abbreviation key_after :: "u32 \<Rightarrow> nat \<Rightarrow> u32" where
  "key_after key i \<equiv> (encode_key ^^ i) (key AND 0xFFFF)"

lemma key_after_16 [simp]: "unat (key_after key i) < 65536"
proof (cases i)
  case 0
  then show ?thesis by (simp add: and_ffff unsigned_take_bit_eq take_bit_nat_def)
next
  case (Suc j)
  then show ?thesis using encode_key_16 [of "key_after key j"] by simp
qed

lemma encode_loop_result:
  assumes "length result = 4 + length ascii" and "cnt \<le> length ascii"
  shows "encode_loop ascii result cnt k =
    (take 4 result @ map (\<lambda>i. (ascii ! i) XOR ucast ((encode_key ^^ (length ascii - 1 - cnt - i)) k AND 0xFF))
        [0..<length ascii - cnt] @ drop (4 + (length ascii - cnt)) result,
      length ascii, (encode_key ^^ (length ascii - cnt)) k)"
  using assms
proof (induction "length ascii - cnt" arbitrary: cnt k result)
  case 0
  then show ?case by (simp add: encode_loop.simps)
next
  case (Suc d)
  let ?p = "length result - cnt - 1" and ?b = "(ascii ! (length ascii - cnt - 1)) XOR ucast (k AND 0xFF)"
  let ?r = "result[?p := ?b]"
  have lt: "cnt < length ascii" and d: "length ascii - cnt = Suc d" "length ascii - Suc cnt = d"
    using Suc.hyps(2) by auto
  have p: "?p = 4 + d" using Suc.prems d by simp
  have idx: "length ascii - cnt - 1 = d" using d by simp
  have IH: "encode_loop ascii ?r (cnt + 1) (encode_key k) =
    (take 4 ?r @ map (\<lambda>i. (ascii ! i) XOR ucast ((encode_key ^^ (length ascii - 1 - (cnt + 1) - i)) (encode_key k) AND 0xFF))
        [0..<length ascii - (cnt + 1)] @ drop (4 + (length ascii - (cnt + 1))) ?r,
      length ascii, (encode_key ^^ (length ascii - (cnt + 1))) (encode_key k))"
    by (rule Suc.hyps(1)) (use Suc.prems lt d in auto)
  have keys: "map (\<lambda>i. (ascii ! i) XOR ucast ((encode_key ^^ (length ascii - 1 - (cnt + 1) - i)) (encode_key k) AND 0xFF)) [0..<d]
      = map (\<lambda>i. (ascii ! i) XOR ucast ((encode_key ^^ (length ascii - 1 - cnt - i)) k AND 0xFF)) [0..<d]"
  proof (rule map_cong [OF refl])
    fix i assume "i \<in> set [0..<d]"
    then have "length ascii - 1 - cnt - i = Suc (length ascii - 1 - (cnt + 1) - i)" using d by auto
    then show "(ascii ! i) XOR ucast ((encode_key ^^ (length ascii - 1 - (cnt + 1) - i)) (encode_key k) AND 0xFF)
        = (ascii ! i) XOR ucast ((encode_key ^^ (length ascii - 1 - cnt - i)) k AND 0xFF)"
      by (simp add: funpow_swap1)
  qed
  have tail: "take 4 ?r = take 4 result" "drop (4 + d) ?r = ?b # drop (4 + Suc d) result"
    using Suc.prems p d by (simp_all add: drop_update_cancel take_Suc_drop [of "4 + d"])
  have "length ascii - 1 - cnt - d = 0" using d by simp
  then show ?case
    using lt IH keys tail idx
    by (subst encode_loop.simps) (simp add: d funpow_swap1)
qed

lemma decode_loop_result:
  assumes "length data = 4 + length msg"
    and "\<forall>i < length msg. data ! (4 + i) = (msg ! i) XOR ucast (key_after key (length msg - 1 - i) AND 0xFF)"
    and "\<forall>j. 1 \<le> j \<and> j \<le> length msg \<longrightarrow> key_safe (key_after key j)"
    and "m \<le> length msg" and "key_image v (key_after key m)"
  shows "decode_loop data (length msg - m) m v = Ok (drop (length msg - m) msg)"
  using assms(4,5)
proof (induction m arbitrary: v)
  case (Suc m)
  let ?i = "length msg - Suc m" and ?k = "key_after key m"
  have "decode_key v = decode_key (key_after key (Suc m))"
    by (rule decode_image [OF Suc.prems(2)]) (use assms(3) Suc.prems(1) in auto)
  then have img: "key_image (decode_key v) ?k" using decode_encode_key [of ?k] by simp
  have i: "?i < length msg" "length msg - 1 - ?i = m" "Suc ?i = length msg - m" using Suc.prems by auto
  have ch: "ucast (ucast (data ! (4 + ?i)) XOR (decode_key v AND 0xFF)) = msg ! ?i"
    using assms(2) i unfolding key_image_byte [OF img]
    by (intro bit_word_eqI) (auto simp: bit_simps)
  show ?case
    using Suc.IH [OF _ img] Suc.prems(1) i assms(1) ch by (simp add: Let_def take_Suc_drop [of ?i])
qed simp

lemma login_encode_bytes:
  fixes key :: u32 and msg :: "u8 list"
  defines "n \<equiv> length msg" and "k \<equiv> key_after key"
  shows "login_string_encode key msg =
    [ucast (drop_bit 8 (k (n + 2)) AND 0xFF), ucast (k (n + 2) AND 0xFF), ucast (k (n + 1) AND 0xFF),
       ucast ((of_nat n XOR k n) AND 0xFF)]
     @ map (\<lambda>i. (msg ! i) XOR ucast (k (n - 1 - i) AND 0xFF)) [0..<n]"
proof -
  have four: "replicate 4 (0 :: u8) = [0, 0, 0, 0]" by (simp add: numeral_eq_Suc)
  show ?thesis
    unfolding n_def k_def login_string_encode_def
    by (subst encode_loop_result) (simp_all add: Let_def four)
qed

text \<open>
  Decoding an encoded text of fewer than 256 bytes gives the text back, whenever the keys the
  encoder goes through after the first character are safe. The condition is not vacuous bookkeeping:
  without it the decoder's unmasked subtraction corrupts bit 15 of the key.
\<close>

theorem login_string_roundtrip:
  assumes "length msg < 256" and "\<forall>j. 1 \<le> j \<and> j \<le> length msg + 1 \<longrightarrow> key_safe (key_after key j)"
  shows "login_string_decode (login_string_encode key msg) = Ok msg"
proof -
  let ?n = "length msg" and ?k = "key_after key"
  have m: "(0xFF :: u32) = mask 8" by (simp add: mask_eq_decr_exp)
  have top: "push_bit 8 (ucast (ucast (drop_bit 8 x AND 0xFF) :: u8)) OR (ucast (ucast (x AND 0xFF) :: u8) :: u32) = x"
    if "unat x < 2 ^ 16" for x :: u32
  proof (rule bit_word_eqI)
    fix i assume "i < LENGTH(32)"
    have "take_bit 16 x = x"
      by (rule word_unat_eq_iff [THEN iffD2]) (use that in \<open>simp add: unsigned_take_bit_eq take_bit_nat_eq_self\<close>)
    then have "bit x i \<longleftrightarrow> i < 16 \<and> bit x i" by (metis bit_take_bit_iff)
    then show "bit (push_bit 8 (ucast (ucast (drop_bit 8 x AND 0xFF) :: u8)) OR (ucast (ucast (x AND 0xFF) :: u8) :: u32)) i
        \<longleftrightarrow> bit x i"
      unfolding m by (auto simp: bit_simps)
  qed
  let ?d = "login_string_encode key msg" and ?v = "decode_key (?k (?n + 2))" and ?w = "decode_key (decode_key (?k (?n + 2)))"
  have v: "key_image ?v (?k (?n + 1))" using decode_encode_key [of "?k (?n + 1)"] by simp
  have "?w = decode_key (?k (?n + 1))" by (rule decode_image [OF v]) (use assms(2) in auto)
  then have w: "key_image ?w (?k ?n)" using decode_encode_key [of "?k ?n"] by simp
  have bytes: "?d ! 0 = ucast (drop_bit 8 (?k (?n + 2)) AND 0xFF)" "?d ! 1 = ucast (?k (?n + 2) AND 0xFF)"
    "?d ! 2 = ucast (?k (?n + 1) AND 0xFF)" "?d ! 3 = ucast ((of_nat ?n XOR ?k ?n) AND 0xFF)"
    unfolding login_encode_bytes by (simp_all add: numeral_eq_Suc)
  have len: "length ?d = 4 + ?n" unfolding login_encode_bytes by simp
  have body: "\<forall>i < ?n. ?d ! (4 + i) = (msg ! i) XOR ucast (?k (?n - 1 - i) AND 0xFF)"
    unfolding login_encode_bytes by (simp add: nth_append)
  have header: "push_bit 8 (ucast (?d ! 0)) OR ucast (?d ! 1) = ?k (?n + 2)"
    unfolding bytes by (rule top) simp
  have k2: "(ucast (?d ! 2) XOR ?v) AND 0xFF = 0"
    unfolding bytes low_byte_xor key_image_xor [OF v] by simp
  have k3: "(ucast (?d ! 3) XOR ?w) AND 0xFF = of_nat ?n"
  proof -
    have small: "take_bit 8 (of_nat ?n :: u32) = of_nat ?n"
      by (rule word_unat_eq_iff [THEN iffD2])
        (use assms(1) in \<open>simp add: unsigned_take_bit_eq take_bit_nat_eq_self unat_of_nat take_bit_nat_def\<close>)
    have "(ucast (?d ! 3) XOR ?w) AND 0xFF = of_nat ?n AND 0xFF"
      unfolding bytes low_byte_xor key_image_xor [OF w] by (simp add: xor.assoc)
    also have "\<dots> = take_bit 8 (of_nat ?n)" by (simp only: m take_bit_eq_mask)
    finally show ?thesis using small by simp
  qed
  have "unat (of_nat ?n :: u32) = ?n" using assms(1) by (simp add: unat_of_nat)
  then have "login_string_decode ?d = decode_loop ?d 0 ?n ?w"
    using len unfolding login_string_decode_def Let_def header k2 k3 by simp
  also have "\<dots> = Ok msg"
    using decode_loop_result [OF len body _ order_refl w] assms(2) by simp
  finally show ?thesis .
qed

lemma funpow_small: "(f ^^ 1) x = f x" "(f ^^ 2) x = f (f x)" "(f ^^ 3) x = f (f (f x))"
  by (simp_all add: numeral_2_eq_2 numeral_3_eq_3)

theorem login_string_roundtrip_witness:
  "login_string_decode (login_string_encode 0x100 [0x41, 0x42]) = Ok [0x41, 0x42]"
proof (rule login_string_roundtrip)
  show "\<forall>j. 1 \<le> j \<and> j \<le> length [0x41 :: u8, 0x42] + 1 \<longrightarrow> key_safe (key_after 0x100 j)"
  proof (intro allI impI)
    fix j :: nat assume "1 \<le> j \<and> j \<le> length [0x41 :: u8, 0x42] + 1"
    then have "j = 1 \<or> j = 2 \<or> j = 3" by auto
    moreover have e: "encode_key 0x100 = 0x475E" "encode_key 0x475E = 0xD41A" "encode_key 0xD41A = 0xED93"
      unfolding encode_key_def rotate_1 by simp_all
    moreover have "key_after 0x100 1 = 0x475E" "key_after 0x100 2 = 0xD41A" "key_after 0x100 3 = 0xED93"
      by (simp_all add: funpow_small e)
    moreover have "key_safe 0x475E" "key_safe 0xD41A" "key_safe 0xED93" by (simp_all add: key_safe_def)
    ultimately show "key_safe (key_after 0x100 j)" by auto
  qed
qed simp

text \<open>An eight-byte text that comes back wrong: the encoder passes through an unsafe key.\<close>

lemma login_string_corrupted:
  "login_string_decode (login_string_encode 0x34 [0x41, 0x42, 0x43, 0x44, 0x45, 0x46, 0x47, 0x48])
     \<noteq> Ok [0x41, 0x42, 0x43, 0x44, 0x45, 0x46, 0x47, 0x48]"
  by code_simp

text \<open>A fixed-width string field: the writer leaves the zero padding to its caller.\<close>

lemma null_term_string_roundtrip:
  assumes "utf8_valid str" and "0 \<notin> set str" and "length str \<le> n"
  shows "read_null_term_string (write_null_term_string [] str n @ replicate (n - length str) 0 @ rest) n
    = Ok (str, rest)"
proof -
  have "takeWhile (\<lambda>b. b \<noteq> 0) (str @ replicate k 0) = str" for k
    using assms(2) by (induction str) (cases k; auto)+
  moreover have "read_exact n ((str @ replicate (n - length str) 0) @ rest) = Ok (str @ replicate (n - length str) 0, rest)"
    using assms(3) by (intro read_exact_append) simp
  ultimately show ?thesis
    using assms by (simp add: read_null_term_string_def write_null_term_string_def until_nul_def)
qed

end
