(* ===== verification/LuaParam.thy ===== *)
theory LuaParam
  imports Utils
begin

text \<open>
  \<open>common/src/luaparam.rs\<close>: the tagged parameter list that event and group packets carry. An \<open>i32\<close>
  is its 32-bit word (read by \<open>sint\<close>), a string its UTF-8 bytes. The writer is the one on a byte
  vector, which cannot fail; the reader consumes a cursor and returns what is left. Not modelled: the
  pretty printer.
\<close>

section \<open>Parameters, writer and reader\<close>

datatype lua_param =
    LInt32 u32
  | LUInt32 u32
  | LString "u8 list"
  | LTrue
  | LFalse
  | LNil
  | LActor u32
  | LType7 u32 u8 u8 u8
  | LType9 u64 u64
  | LByte u8
  | LShort u16

definition LUA_END :: u8 where
  "LUA_END = 0x0F"

fun type_id :: "lua_param \<Rightarrow> u8" where
  "type_id (LInt32 _) = 0x0"
| "type_id (LUInt32 _) = 0x0"
| "type_id (LString _) = 0x2"
| "type_id LTrue = 0x3"
| "type_id LFalse = 0x4"
| "type_id LNil = 0x5"
| "type_id (LActor _) = 0x6"
| "type_id (LType7 _ _ _ _) = 0x7"
| "type_id (LType9 _ _) = 0x9"
| "type_id (LByte _) = 0xC"
| "type_id (LShort _) = 0x1B"

fun lua_payload :: "lua_param \<Rightarrow> u8 list" where
  "lua_payload (LInt32 v) = be_bytes 4 v"
| "lua_payload (LUInt32 v) = be_bytes 4 v"
| "lua_payload (LString s) = s @ [0]"
| "lua_payload LTrue = []"
| "lua_payload LFalse = []"
| "lua_payload LNil = []"
| "lua_payload (LActor v) = be_bytes 4 v"
| "lua_payload (LType7 actor_id unknown slot inventory_type) =
     be_bytes 4 actor_id @ [unknown] @ [slot] @ [inventory_type]"
| "lua_payload (LType9 item1 item2) = be_bytes 8 item1 @ be_bytes 8 item2"
| "lua_payload (LByte b) = [b]"
| "lua_payload (LShort _) = []"

fun write_lua_params :: "lua_param list \<Rightarrow> u8 list" where
  "write_lua_params [] = [LUA_END]"
| "write_lua_params (p # ps) = type_id p # lua_payload p @ write_lua_params ps"

text \<open>Reads of the primitive types: big-endian words and bytes up to a NUL.\<close>

definition read_be :: "nat \<Rightarrow> u8 list \<Rightarrow> (io_kind, 'a::len word \<times> u8 list) outcome" where
  "read_be n bs = bind_outcome (read_exact n bs) (\<lambda>(b, r). Ok (be_word b, r))"

fun read_cstr :: "u8 list \<Rightarrow> (io_kind, u8 list \<times> u8 list) outcome" where
  "read_cstr [] = Err UnexpectedEof"
| "read_cstr (b # bs) =
     (if b = 0 then Ok ([], bs) else bind_outcome (read_cstr bs) (\<lambda>(s, r). Ok (b # s, r)))"

definition read_lua_param :: "u8 \<Rightarrow> u8 list \<Rightarrow> (io_kind, lua_param \<times> u8 list) outcome" where
  "read_lua_param code bs =
     (if code = 0x0 then bind_outcome (read_be 4 bs) (\<lambda>(v, r). Ok (LInt32 v, r))
      else if code = 0x1 then bind_outcome (read_be 4 bs) (\<lambda>(v, r). Ok (LUInt32 v, r))
      else if code = 0x2 then bind_outcome (read_cstr bs) (\<lambda>(s, r). Ok (LString (utf8_lossy s), r))
      else if code = 0x3 then Ok (LTrue, bs)
      else if code = 0x4 then Ok (LFalse, bs)
      else if code = 0x5 then Ok (LNil, bs)
      else if code = 0x6 then bind_outcome (read_be 4 bs) (\<lambda>(v, r). Ok (LActor v, r))
      else if code = 0x7 then
        bind_outcome (read_be 4 bs) (\<lambda>(actor_id, bs).
        bind_outcome (read_be 1 bs) (\<lambda>(unknown, bs).
        bind_outcome (read_be 1 bs) (\<lambda>(slot, bs).
        bind_outcome (read_be 1 bs) (\<lambda>(inventory_type, bs).
          Ok (LType7 actor_id unknown slot inventory_type, bs)))))
      else if code = 0x9 then
        bind_outcome (read_be 8 bs) (\<lambda>(item1, bs).
        bind_outcome (read_be 8 bs) (\<lambda>(item2, bs). Ok (LType9 item1 item2, bs)))
      else if code = 0xC then bind_outcome (read_be 1 bs) (\<lambda>(v, r). Ok (LByte v, r))
      else if code = 0x1B then bind_outcome (read_be 2 bs) (\<lambda>(v, r). Ok (LShort v, r))
      else Err InvalidData)"

lemma read_be_length: "read_be n bs = Ok (w, r) \<Longrightarrow> length r \<le> length bs"
  by (auto simp: read_be_def read_exact_def split: if_splits)

lemma read_cstr_length: "read_cstr bs = Ok (s, r) \<Longrightarrow> length r < length bs"
  by (induction bs arbitrary: s r) (auto simp: outcome_simps less_SucI split: if_splits)

lemma read_lua_param_length:
  "read_lua_param code bs = Ok (p, r) \<Longrightarrow> length r \<le> length bs"
  by (auto simp: read_lua_param_def outcome_simps split: if_splits dest!: read_be_length
      dest: order_trans less_imp_le_nat [OF read_cstr_length])

function read_lua_params_from :: "u8 list \<Rightarrow> (io_kind, lua_param list \<times> u8 list) outcome" where
  "read_lua_params_from [] = Err UnexpectedEof"
| "read_lua_params_from (code # bs) =
     (if code = LUA_END then Ok ([], bs)
      else case read_lua_param code bs of
        Ok (p, r) \<Rightarrow> bind_outcome (read_lua_params_from r) (\<lambda>(ps, r). Ok (p # ps, r))
      | Err e \<Rightarrow> Err e
      | Panic \<Rightarrow> Panic)"
  by pat_completeness auto
termination
proof (relation "measure length")
  fix code :: u8 and bs x p r
  assume "read_lua_param code bs = Ok x" and "(p, r) = x"
  then show "(r, code # bs) \<in> measure length"
    using read_lua_param_length [of code bs p r] by simp
qed simp

definition read_lua_params :: "u8 list \<Rightarrow> (io_kind, lua_param list) outcome" where
  "read_lua_params bytes = bind_outcome (read_lua_params_from bytes) (\<lambda>(ps, r). Ok ps)"

section \<open>What comes back\<close>

text \<open>
  A parameter is sendable when it is not a short, whose payload the writer drops, and its string (if it
  is one) is valid and has no NUL byte. The wire keeps everything but the signedness of an integer.
\<close>

fun lua_sendable :: "lua_param \<Rightarrow> bool" where
  "lua_sendable (LString s) \<longleftrightarrow> utf8_valid s \<and> 0 \<notin> set s"
| "lua_sendable (LShort _) \<longleftrightarrow> False"
| "lua_sendable _ \<longleftrightarrow> True"

fun lua_view :: "lua_param \<Rightarrow> lua_param" where
  "lua_view (LUInt32 v) = LInt32 v"
| "lua_view p = p"

lemma be_bytes_1 [simp]: "be_bytes 1 (b :: u8) = [b]"
  using be_bytes_be_word [of "[b]", where ?'a = 8] by (simp add: endian_eval)

lemma read_be_bytes [simp]:
  "LENGTH('a) \<le> 8 * n \<Longrightarrow> read_be n (be_bytes n (w :: 'a::len word) @ r) = Ok (w, r)"
  by (simp add: read_be_def)

lemma read_be_byte [simp]: "read_be 1 ((b :: u8) # r) = Ok (b, r)"
  using read_be_bytes [of 1 b r] by (simp del: read_be_bytes One_nat_def)

lemma read_cstr_append [simp]: "0 \<notin> set s \<Longrightarrow> read_cstr (s @ 0 # r) = Ok (s, r)"
  by (induction s) auto

lemma read_cstr_no_nul: "read_cstr bs = Ok (s, r) \<Longrightarrow> 0 \<notin> set s"
  by (induction bs arbitrary: s r) (auto simp: outcome_simps split: if_splits)

lemma read_lua_param_payload:
  "lua_sendable p \<Longrightarrow> read_lua_param (type_id p) (lua_payload p @ r) = Ok (lua_view p, r)"
  by (cases p) (simp_all add: read_lua_param_def del: One_nat_def)

lemma type_id_not_end [simp]: "type_id p \<noteq> LUA_END"
  by (cases p) (simp_all add: LUA_END_def)

lemma read_write_lua:
  "\<forall>p \<in> set ps. lua_sendable p \<Longrightarrow>
     read_lua_params_from (write_lua_params ps @ r) = Ok (map lua_view ps, r)"
  by (induction ps) (simp_all add: read_lua_param_payload)

text \<open>
  C8: A written list of sendable parameters is read back whole and in order, whatever follows it in the
  buffer, with unsigned integers coming back as the signed integers of the same bits.
\<close>

theorem lua_params_roundtrip:
  assumes "\<forall>p \<in> set ps. lua_sendable p"
  shows "read_lua_params_from (write_lua_params ps @ r) = Ok (map lua_view ps, r)
    \<and> read_lua_params (write_lua_params ps @ r) = Ok (map lua_view ps)"
  using read_write_lua [OF assms] by (simp add: read_lua_params_def)

theorem lua_params_roundtrip_witness:
  "read_lua_params (write_lua_params [LUInt32 7, LString [0x68, 0x69], LNil, LType7 1 2 3 4] @ [9])
     = Ok [LInt32 7, LString [0x68, 0x69], LNil, LType7 1 2 3 4]"
  using lua_params_roundtrip [of "[LUInt32 7, LString [0x68, 0x69], LNil, LType7 1 2 3 4]" "[9]"]
  by (simp add: utf8_valid_ascii)

text \<open>What the reader delivers is sendable, shorts apart.\<close>

lemma read_lua_param_sendable:
  "read_lua_param code bs = Ok (p, r) \<Longrightarrow> lua_sendable p \<or> (\<exists>v. p = LShort v)"
  by (auto simp: read_lua_param_def outcome_simps utf8_lossy_no_nul split: if_splits
      dest: read_cstr_no_nul)

lemma read_lua_param_no_panic: "read_lua_param code bs \<noteq> Panic"
proof -
  have c: "read_cstr bs \<noteq> Panic" by (induction bs) (auto simp: outcome_simps)
  have b: "read_be n bs \<noteq> Panic" for n bs by (simp add: read_be_def read_exact_def)
  show ?thesis by (auto simp: read_lua_param_def outcome_simps b c split: if_splits prod.splits)
qed

text \<open>
  The reader never panics, whatever the bytes; it errs only with the two I/O kinds of the source;
  and what it accepts and can be sent again, being free of shorts, survives being written and read.
\<close>

theorem lua_params_stable:
  "read_lua_params_from bs \<noteq> Panic
   \<and> (\<forall>e. read_lua_params_from bs = Err e \<longrightarrow> e = UnexpectedEof \<or> e = InvalidData)
   \<and> (\<forall>ps r. read_lua_params_from bs = Ok (ps, r) \<and> (\<forall>v. LShort v \<notin> set ps)
        \<longrightarrow> read_lua_params_from (write_lua_params ps) = Ok (map lua_view ps, []))"
proof (intro conjI allI impI)
  show "read_lua_params_from bs \<noteq> Panic"
  proof (induction bs rule: read_lua_params_from.induct)
    case (2 code bs)
    show ?case
    proof (cases "code \<noteq> LUA_END \<and> (\<exists>p r. read_lua_param code bs = Ok (p, r))")
      case True
      then obtain p r where ok: "code \<noteq> LUA_END" "read_lua_param code bs = Ok (p, r)" by blast
      then have "read_lua_params_from r \<noteq> Panic" using 2 by simp
      with ok show ?thesis by (cases "read_lua_params_from r") auto
    next
      case False
      with read_lua_param_no_panic [of code bs] show ?thesis by (auto split: outcome.split)
    qed
  qed simp
next
  have c: "read_cstr bs = Err e \<Longrightarrow> e = UnexpectedEof" for bs e
    by (induction bs) (auto simp: outcome_simps split: if_splits)
  have b: "(read_be n bs :: (io_kind, 'a::len word \<times> u8 list) outcome) = Err e \<Longrightarrow> e = UnexpectedEof" for n bs e
    by (auto simp: read_be_def read_exact_def split: if_splits)
  have one: "e = UnexpectedEof \<or> e = InvalidData" if "read_lua_param code bs = Err e" for code bs e
    using that by (auto simp: read_lua_param_def outcome_simps split: if_splits prod.splits dest: b c)
  fix e assume "read_lua_params_from bs = Err e"
  then show "e = UnexpectedEof \<or> e = InvalidData"
    by (induction bs rule: read_lua_params_from.induct)
      (auto simp: outcome_simps split: if_splits outcome.splits prod.splits dest: one)
next
  fix ps r assume a: "read_lua_params_from bs = Ok (ps, r) \<and> (\<forall>v. LShort v \<notin> set ps)"
  then have "\<forall>p \<in> set ps. lua_sendable p \<or> (\<exists>v. p = LShort v)"
    by (induction bs arbitrary: ps r rule: read_lua_params_from.induct)
      (fastforce simp: outcome_simps split: if_splits outcome.splits dest: read_lua_param_sendable)+
  with a have "\<forall>p \<in> set ps. lua_sendable p" by blast
  from read_write_lua [OF this, of "[]"] show "read_lua_params_from (write_lua_params ps) = Ok (map lua_view ps, [])"
    by simp
qed

theorem lua_params_stable_witness:
  "read_lua_params_from (write_lua_params [LUInt32 1, LNil]) = Ok ([LInt32 1, LNil], [])
   \<and> read_lua_params_from (write_lua_params [LInt32 1, LNil]) = Ok ([LInt32 1, LNil], [])"
proof -
  have "read_lua_params_from (write_lua_params [LUInt32 1, LNil]) = Ok ([LInt32 1, LNil], [])"
    using read_write_lua [of "[LUInt32 1, LNil]" "[]"] by simp
  with lua_params_stable [of "write_lua_params [LUInt32 1, LNil]"] show ?thesis by auto
qed

text \<open>A short sent on its own is read as a truncated stream: its tag promises two bytes.\<close>

lemma lua_short_desync: "read_lua_params (write_lua_params [LShort v]) = Err UnexpectedEof"
  by (simp add: read_lua_params_def read_lua_param_def read_be_def read_exact_def LUA_END_def)

end
