(* ===== verification/Inventory.thy ===== *)
theory Inventory
  imports Prelude
begin

text \<open>
  \<open>map-server/src/inventory/mod.rs\<close> and \<open>inventory/outbox.rs\<close>: the item bag of a character. A bag is
  a vector of optional items with a live prefix, one dirty flag per slot, and an outbox to which every
  operation appends database and packet events. Methods on \<open>&mut self\<close> take the bag and the outbox and
  return them updated; signed quantities are integers with the release build's wrap-around. The fields
  of the Rust struct are private, so every bag is reached from its constructors by the operations
  modelled here; \<open>loose_wf\<close>, proved for all of them, puts the vector indices in range. The one index
  that is not (\<open>add_existing\<close> on a full bag) is a panic of the model. The item catalog, a trait the
  caller implements, is an argument.
\<close>

section \<open>Items, events and the bag\<close>

record item_tag =
  durability :: u32
  use_count :: u16
  materia_id :: u32
  materia_life :: u32
  main_quality :: u8
  sub_quality :: "u8 list"
  polish :: u32
  param1 :: u32
  param2 :: u32
  param3 :: u32
  spiritbind :: u16
  materia_type :: "u8 list"
  materia_grade :: "u8 list"

definition default_tag :: item_tag where
  "default_tag = \<lparr>durability = 0, use_count = 0, materia_id = 0, materia_life = 0, main_quality = 0,
     sub_quality = [0, 0, 0], polish = 0, param1 = 0, param2 = 0, param3 = 0, spiritbind = 0,
     materia_type = [0, 0, 0, 0, 0], materia_grade = [0, 0, 0, 0, 0]\<rparr>"

record inventory_item =
  it_unique_id :: u64
  it_item_id :: u32
  it_quantity :: int
  it_quality :: u8
  it_slot :: u16
  it_link_slot :: u16
  it_item_package :: u16
  it_tag :: item_tag

text \<open>The fields of a catalog row that the bag reads.\<close>

record item_data =
  id_stack_size :: u32
  id_is_exclusive :: bool

type_synonym item_catalog = "u32 \<Rightarrow> item_data option"

datatype inventory_event =
    DbAdd u32 inventory_item u16 u16
  | DbRemove u32 u64
  | DbQuantity u64 int
  | DbPositions "inventory_item list"
  | DbEquip u32 u16 u64
  | DbUnequip u32 u16
  | PacketBeginChange u32
  | PacketEndChange u32
  | PacketSetBegin u32 u16 u16
  | PacketSetEnd u32
  | PacketItems u32 "inventory_item list"
  | PacketRemoveSlots u32 "u16 list"
  | PacketModifierFrame u32 "inventory_item list"
  | PacketLinkedSingle u32 u16 "inventory_item option"
  | PacketLinkedMany u32 "(u16 \<times> inventory_item) list"

type_synonym inventory_outbox = "inventory_event list"

datatype inventory_error = InvSuccess | InvFull | InvHasUnique | InvSystem

type_synonym inventory_result = "(inventory_error, unit) outcome"

definition PKG_NORMAL :: u16 where "PKG_NORMAL = 0"
definition PKG_UNKNOWN :: u16 where "PKG_UNKNOWN = 1"
definition PKG_LOOT :: u16 where "PKG_LOOT = 4"
definition PKG_MELDREQUEST :: u16 where "PKG_MELDREQUEST = 5"
definition PKG_BAZAAR :: u16 where "PKG_BAZAAR = 7"
definition PKG_CURRENCY_CRYSTALS :: u16 where "PKG_CURRENCY_CRYSTALS = 99"
definition PKG_KEYITEMS :: u16 where "PKG_KEYITEMS = 100"
definition PKG_EQUIPMENT :: u16 where "PKG_EQUIPMENT = 0x00FE"
definition PKG_TRADE :: u16 where "PKG_TRADE = 0x00FD"
definition PKG_EQUIPMENT_OTHERPLAYER :: u16 where "PKG_EQUIPMENT_OTHERPLAYER = 0x00F9"

definition default_capacity :: "u16 \<Rightarrow> u16" where
  "default_capacity code =
     (if code = PKG_NORMAL then 200 else if code = PKG_CURRENCY_CRYSTALS then 320
      else if code = PKG_KEYITEMS then 500 else if code = PKG_LOOT then 10
      else if code = PKG_TRADE then 4 else if code = PKG_MELDREQUEST then 4
      else if code = PKG_BAZAAR then 10 else if code = PKG_EQUIPMENT then 35
      else if code = PKG_EQUIPMENT_OTHERPLAYER then 0x23 else 200)"

record item_package =
  ip_owner_actor_id :: u32
  ip_capacity :: u16
  ip_code :: u16
  ip_is_temporary :: bool
  ip_list :: "inventory_item option list"
  ip_is_dirty :: "bool list"
  ip_end_of_list_index :: nat
  ip_holding_updates :: bool

definition ip_with_flags :: "u32 \<Rightarrow> u16 \<Rightarrow> u16 \<Rightarrow> bool \<Rightarrow> item_package" where
  "ip_with_flags owner_actor_id capacity code is_temporary =
     \<lparr>ip_owner_actor_id = owner_actor_id, ip_capacity = capacity, ip_code = code,
      ip_is_temporary = is_temporary, ip_list = replicate (unat capacity) None,
      ip_is_dirty = replicate (unat capacity) False, ip_end_of_list_index = 0, ip_holding_updates = False\<rparr>"

definition ip_new :: "u32 \<Rightarrow> u16 \<Rightarrow> u16 \<Rightarrow> item_package" where
  "ip_new owner_actor_id capacity code = ip_with_flags owner_actor_id capacity code False"

section \<open>Lookups\<close>

definition ip_is_full :: "item_package \<Rightarrow> bool" where
  "ip_is_full p \<longleftrightarrow> unat (ip_capacity p) \<le> ip_end_of_list_index p"

definition ip_get_at_slot :: "item_package \<Rightarrow> u16 \<Rightarrow> inventory_item option" where
  "ip_get_at_slot p slot = (if unat slot < length (ip_list p) then ip_list p ! unat slot else None)"

definition iter_items :: "item_package \<Rightarrow> inventory_item list" where
  "iter_items p = List.map_filter (\<lambda>x. x) (take (ip_end_of_list_index p) (ip_list p))"

definition get_by_unique_id :: "item_package \<Rightarrow> u64 \<Rightarrow> inventory_item option" where
  "get_by_unique_id p unique_id = find (\<lambda>i. it_unique_id i = unique_id) (iter_items p)"

definition get_by_catalog_id :: "item_package \<Rightarrow> u32 \<Rightarrow> inventory_item option" where
  "get_by_catalog_id p catalog_id = find (\<lambda>i. it_item_id i = catalog_id) (iter_items p)"

definition total_quantity :: "item_package \<Rightarrow> u32 \<Rightarrow> u8 \<Rightarrow> int" where
  "total_quantity p item_id quality =
     sum_list (map it_quantity (filter (\<lambda>i. it_item_id i = item_id \<and> it_quality i = quality) (iter_items p)))"

definition has_item_qq :: "item_package \<Rightarrow> u32 \<Rightarrow> int \<Rightarrow> u8 \<Rightarrow> bool" where
  "has_item_qq p item_id min_quantity quality \<longleftrightarrow> min_quantity \<le> total_quantity p item_id quality"

definition has_item_qty :: "item_package \<Rightarrow> u32 \<Rightarrow> int \<Rightarrow> bool" where
  "has_item_qty p item_id min_quantity = has_item_qq p item_id min_quantity 1"

definition has_item :: "item_package \<Rightarrow> u32 \<Rightarrow> bool" where
  "has_item p item_id = has_item_qty p item_id 1"

text \<open>\<open>gd.stack_size.max(1) as i32\<close>\<close>

definition max_stack_of :: "item_data \<Rightarrow> int" where
  "max_stack_of gd = sint (max (id_stack_size gd) 1)"

fun space_scan :: "bool \<Rightarrow> u32 \<Rightarrow> u8 \<Rightarrow> int \<Rightarrow> int \<Rightarrow> inventory_item list \<Rightarrow> bool" where
  "space_scan full item_id quality max_stack remaining [] \<longleftrightarrow> remaining \<le> 0 \<or> \<not> full"
| "space_scan full item_id quality max_stack remaining (item # items) \<longleftrightarrow>
     (if it_item_id item = item_id \<and> it_quality item = quality \<and> it_quantity item < max_stack
      then let remaining = i32_wrap (remaining - i32_wrap (max_stack - it_quantity item))
           in if remaining \<le> 0 then True
              else space_scan full item_id quality max_stack remaining items
      else space_scan full item_id quality max_stack remaining items)"

definition is_space_for_add :: "item_catalog \<Rightarrow> item_package \<Rightarrow> u32 \<Rightarrow> int \<Rightarrow> u8 \<Rightarrow> bool" where
  "is_space_for_add catalog p item_id quantity quality =
     (case catalog item_id of
        None \<Rightarrow> \<not> ip_is_full p
      | Some gd \<Rightarrow> space_scan (ip_is_full p) item_id quality (max_stack_of gd) quantity (iter_items p))"

definition can_add :: "item_package \<Rightarrow> inventory_item \<Rightarrow> bool" where
  "can_add p item \<longleftrightarrow> \<not> ip_is_full p"

section \<open>Dirty flags and update packets\<close>

definition mark_dirty_slot :: "u16 \<Rightarrow> item_package \<Rightarrow> item_package" where
  "mark_dirty_slot slot p = p\<lparr>ip_is_dirty := (ip_is_dirty p)[unat slot := True]\<rparr>"

definition mark_dirty :: "inventory_item \<Rightarrow> item_package \<Rightarrow> item_package" where
  "mark_dirty item p =
     (if it_item_package item \<noteq> ip_code p then p
      else if ip_get_at_slot p (it_slot item) \<noteq> None then mark_dirty_slot (it_slot item) p
      else p)"

definition start_send_update :: "item_package \<Rightarrow> item_package" where
  "start_send_update p = p\<lparr>ip_holding_updates := True\<rparr>"

definition clear_dirty :: "item_package \<Rightarrow> item_package" where
  "clear_dirty p = p\<lparr>ip_is_dirty := replicate (length (ip_is_dirty p)) False\<rparr>"

definition dirty_items :: "item_package \<Rightarrow> inventory_item list" where
  "dirty_items p =
     List.map_filter (\<lambda>i. if ip_is_dirty p ! i then ip_list p ! i else None) [0..<ip_end_of_list_index p]"

definition dirty_tail_slots :: "item_package \<Rightarrow> u16 list" where
  "dirty_tail_slots p =
     map of_nat (filter (\<lambda>i. ip_is_dirty p ! i) [ip_end_of_list_index p..<unat (ip_capacity p)])"

definition send_update :: "item_package \<Rightarrow> inventory_outbox \<Rightarrow> item_package \<times> inventory_outbox" where
  "send_update p ob =
     (if ip_holding_updates p then (p, ob)
      else let owner = ip_owner_actor_id p; items = dirty_items p; tail = dirty_tail_slots p
           in (clear_dirty p,
               ob @ [PacketSetBegin owner (ip_capacity p) (ip_code p)]
                 @ (if items = [] then [] else [PacketItems owner items, PacketModifierFrame owner items])
                 @ (if tail = [] then [] else [PacketRemoveSlots owner tail])
                 @ [PacketSetEnd owner]))"

definition bracketed_send_update :: "item_package \<Rightarrow> inventory_outbox \<Rightarrow> item_package \<times> inventory_outbox" where
  "bracketed_send_update p ob =
     (if ip_holding_updates p then (p, ob)
      else case send_update p (ob @ [PacketBeginChange (ip_owner_actor_id p)]) of
             (p', ob) \<Rightarrow> (p', ob @ [PacketEndChange (ip_owner_actor_id p')]))"

definition done_send_update :: "item_package \<Rightarrow> inventory_outbox \<Rightarrow> item_package \<times> inventory_outbox" where
  "done_send_update p ob =
     (case send_update (p\<lparr>ip_holding_updates := False\<rparr>) ob of (p, ob) \<Rightarrow> (clear_dirty p, ob))"

definition send_full :: "item_package \<Rightarrow> inventory_outbox \<Rightarrow> inventory_outbox" where
  "send_full p ob =
     (let owner = ip_owner_actor_id p; items = iter_items p
      in ob @ [PacketSetBegin owner (ip_capacity p) (ip_code p)]
           @ (if items = [] then [] else [PacketItems owner items, PacketModifierFrame owner items])
           @ [PacketSetEnd owner])"

section \<open>Initialisation and additions\<close>

text \<open>\<open>init\<close>: the rows of the database, one slot each while the capacity lasts.\<close>

fun init_slots :: "u16 \<Rightarrow> nat \<Rightarrow> nat \<Rightarrow> inventory_item list \<Rightarrow> inventory_item option list \<Rightarrow> inventory_item option list" where
  "init_slots code capacity i [] xs = xs"
| "init_slots code capacity i (item # items) xs =
     (if capacity \<le> i then xs
      else init_slots code capacity (i + 1) items
             (xs[i := Some (item\<lparr>it_slot := of_nat i, it_item_package := code\<rparr>)]))"

definition first_none :: "'a option list \<Rightarrow> nat option" where
  "first_none xs = (let i = length (takeWhile (\<lambda>x. x \<noteq> None) xs) in if i < length xs then Some i else None)"

definition ip_init :: "inventory_item list \<Rightarrow> item_package \<Rightarrow> item_package" where
  "ip_init items p =
     (let xs = init_slots (ip_code p) (unat (ip_capacity p)) 0 items (ip_list p)
      in p\<lparr>ip_list := xs,
           ip_end_of_list_index := (case first_none xs of Some i \<Rightarrow> i | None \<Rightarrow> unat (ip_capacity p))\<rparr>)"

text \<open>Every write to a slot also flags it.\<close>

definition put_slot :: "nat \<Rightarrow> inventory_item option \<Rightarrow> item_package \<Rightarrow> item_package" where
  "put_slot i x p = p\<lparr>ip_list := (ip_list p)[i := x], ip_is_dirty := (ip_is_dirty p)[i := True]\<rparr>"

text \<open>The merge loop of \<open>add\<close>, over the indices of the live prefix.\<close>

fun merge_stacks :: "u32 \<Rightarrow> u8 \<Rightarrow> int \<Rightarrow> nat list \<Rightarrow> int \<Rightarrow> item_package \<Rightarrow> inventory_outbox
    \<Rightarrow> int \<times> item_package \<times> inventory_outbox" where
  "merge_stacks item_id quality max_stack [] quantity p ob = (quantity, p, ob)"
| "merge_stacks item_id quality max_stack (i # is) quantity p ob =
     (if quantity \<le> 0 then (quantity, p, ob)
      else case ip_list p ! i of
        None \<Rightarrow> merge_stacks item_id quality max_stack is quantity p ob
      | Some item \<Rightarrow>
          if it_item_id item \<noteq> item_id \<or> it_quality item \<noteq> quality \<or> max_stack \<le> it_quantity item
          then merge_stacks item_id quality max_stack is quantity p ob
          else let old_qty = it_quantity item;
                   new_qty = min (i32_wrap (old_qty + quantity)) max_stack;
                   p' = put_slot i (Some (item\<lparr>it_quantity := new_qty\<rparr>)) p
               in merge_stacks item_id quality max_stack is
                    (i32_wrap (quantity - i32_wrap (max_stack - old_qty))) p'
                    (if ip_is_temporary p then ob else ob @ [DbQuantity (it_unique_id item) new_qty]))"

text \<open>The loop that opens new slots.\<close>

definition spill_item :: "u32 \<Rightarrow> u8 \<Rightarrow> int \<Rightarrow> item_package \<Rightarrow> inventory_item" where
  "spill_item item_id quality stack_qty p =
     \<lparr>it_unique_id = 0, it_item_id = item_id, it_quantity = stack_qty, it_quality = quality,
      it_slot = of_nat (ip_end_of_list_index p), it_link_slot = 0xFFFF, it_item_package = ip_code p,
      it_tag = default_tag\<rparr>"

definition push_item :: "inventory_item \<Rightarrow> item_package \<Rightarrow> item_package" where
  "push_item item p =
     (put_slot (ip_end_of_list_index p) (Some item) p)\<lparr>ip_end_of_list_index := ip_end_of_list_index p + 1\<rparr>"

function spill :: "u32 \<Rightarrow> u8 \<Rightarrow> int \<Rightarrow> int \<Rightarrow> item_package \<Rightarrow> inventory_outbox
    \<Rightarrow> inventory_result \<times> item_package \<times> inventory_outbox" where
  "spill item_id quality max_stack quantity p ob =
     (if 0 < quantity then
        if unat (ip_capacity p) \<le> ip_end_of_list_index p then (Err InvFull, p, ob)
        else let stack_qty = min quantity max_stack; item = spill_item item_id quality stack_qty p
             in spill item_id quality max_stack (i32_wrap (quantity - stack_qty)) (push_item item p)
                  (if ip_is_temporary p then ob
                   else ob @ [DbAdd (ip_owner_actor_id p) item (ip_code p) (it_slot item)])
      else (Ok (), p, ob))"
  by pat_completeness auto
termination
  by (relation "measure (\<lambda>(id, q, m, qty, p, ob). unat (ip_capacity p) - ip_end_of_list_index p)")
    (auto simp: push_item_def put_slot_def)

declare spill.simps [simp del]

definition ip_add :: "item_catalog \<Rightarrow> u32 \<Rightarrow> int \<Rightarrow> u8 \<Rightarrow> item_package \<Rightarrow> inventory_outbox
    \<Rightarrow> inventory_result \<times> item_package \<times> inventory_outbox" where
  "ip_add catalog item_id quantity quality p ob =
     (if quantity \<le> 0 then (Ok (), p, ob)
      else if \<not> is_space_for_add catalog p item_id quantity quality then (Err InvFull, p, ob)
      else case catalog item_id of
        None \<Rightarrow> (Err InvSystem, p, ob)
      | Some gd \<Rightarrow>
          if id_is_exclusive gd \<and> has_item p item_id then (Err InvHasUnique, p, ob)
          else case merge_stacks item_id quality (max_stack_of gd) [0..<ip_end_of_list_index p] quantity p ob of
            (quantity, p, ob) \<Rightarrow>
              (case spill item_id quality (max_stack_of gd) quantity p ob of
                 (Ok u, p, ob) \<Rightarrow> (case bracketed_send_update p ob of (p, ob) \<Rightarrow> (Ok (), p, ob))
               | r \<Rightarrow> r))"

text \<open>Adding an item that already has its database identity. The indexed write is out of range on a full bag.\<close>

definition ip_add_existing :: "item_catalog \<Rightarrow> inventory_item \<Rightarrow> item_package \<Rightarrow> inventory_outbox
    \<Rightarrow> inventory_result \<times> item_package \<times> inventory_outbox" where
  "ip_add_existing catalog item p ob =
     (let gd = catalog (it_item_id item);
          max_stack = (case gd of Some g \<Rightarrow> max_stack_of g | None \<Rightarrow> 1)
      in if ip_code p \<noteq> PKG_BAZAAR \<and> 1 < max_stack
         then ip_add catalog (it_item_id item) (it_quantity item) (it_quality item) p ob
         else if \<not> is_space_for_add catalog p (it_item_id item) (it_quantity item) (it_quality item)
         then (Err InvFull, p, ob)
         else if gd = None then (Err InvSystem, p, ob)
         else if length (ip_is_dirty p) \<le> ip_end_of_list_index p then (Panic, p, ob)
         else let item' = item\<lparr>it_item_package := ip_code p, it_slot := of_nat (ip_end_of_list_index p)\<rparr>;
                  p' = push_item item' p;
                  ob = (if ip_is_temporary p then ob
                        else ob @ [DbAdd (ip_owner_actor_id p) item' (ip_code p) (it_slot item')])
              in case bracketed_send_update p' ob of (p, ob) \<Rightarrow> (Ok (), p, ob))"

section \<open>Realignment and removals\<close>

text \<open>The compaction loop; the state is the vector, the flags, the first hole and the moved items.\<close>

fun realign_loop :: "nat list \<Rightarrow> inventory_item option list \<Rightarrow> bool list \<Rightarrow> nat option \<Rightarrow> inventory_item list
    \<Rightarrow> inventory_item option list \<times> bool list \<times> nat option \<times> inventory_item list" where
  "realign_loop [] xs dirty last_null updates = (xs, dirty, last_null, updates)"
| "realign_loop (i # is) xs dirty last_null updates =
     (case (xs ! i, last_null) of
        (None, None) \<Rightarrow> realign_loop is xs dirty (Some i) updates
      | (Some item, Some dst) \<Rightarrow>
          let moved = item\<lparr>it_slot := of_nat dst\<rparr>
          in realign_loop is ((xs[i := None])[dst := Some moved]) ((dirty[dst := True])[i := True])
               (Some (dst + 1)) (updates @ [moved])
      | _ \<Rightarrow> realign_loop is xs dirty last_null updates)"

definition realign :: "item_package \<Rightarrow> inventory_outbox \<Rightarrow> item_package \<times> inventory_outbox" where
  "realign p ob =
     (case realign_loop [0..<ip_end_of_list_index p] (ip_list p) (ip_is_dirty p) None [] of
        (xs, dirty, last_null, updates) \<Rightarrow>
          (p\<lparr>ip_list := xs, ip_is_dirty := dirty,
             ip_end_of_list_index := (case last_null of Some n \<Rightarrow> n | None \<Rightarrow> ip_end_of_list_index p)\<rparr>,
           if updates \<noteq> [] \<and> \<not> ip_is_temporary p then ob @ [DbPositions updates] else ob))"

definition realign_and_send :: "item_package \<Rightarrow> inventory_outbox \<Rightarrow> item_package \<times> inventory_outbox" where
  "realign_and_send p ob = (case realign p ob of (p, ob) \<Rightarrow> bracketed_send_update p ob)"

text \<open>The two ways a slot changes: emptied, or given a new quantity; each with its database event.\<close>

definition take_slot :: "nat \<Rightarrow> inventory_item \<Rightarrow> item_package \<Rightarrow> inventory_outbox \<Rightarrow> item_package \<times> inventory_outbox" where
  "take_slot i item p ob =
     (put_slot i None p,
      if ip_is_temporary p then ob else ob @ [DbRemove (ip_owner_actor_id p) (it_unique_id item)])"

definition set_slot_qty :: "nat \<Rightarrow> inventory_item \<Rightarrow> int \<Rightarrow> item_package \<Rightarrow> inventory_outbox \<Rightarrow> item_package \<times> inventory_outbox" where
  "set_slot_qty i item qty p ob =
     (put_slot i (Some (item\<lparr>it_quantity := qty\<rparr>)) p,
      if ip_is_temporary p then ob else ob @ [DbQuantity (it_unique_id item) qty])"

fun remove_loop :: "u32 \<Rightarrow> u8 \<Rightarrow> nat list \<Rightarrow> int \<Rightarrow> item_package \<Rightarrow> inventory_outbox
    \<Rightarrow> item_package \<times> inventory_outbox" where
  "remove_loop item_id quality [] remaining p ob = (p, ob)"
| "remove_loop item_id quality (i # is) remaining p ob =
     (if remaining \<le> 0 then (p, ob)
      else case ip_list p ! i of
        None \<Rightarrow> remove_loop item_id quality is remaining p ob
      | Some item \<Rightarrow>
          if it_item_id item \<noteq> item_id \<or> it_quality item \<noteq> quality
          then remove_loop item_id quality is remaining p ob
          else let old_qty = it_quantity item
               in case (if i32_wrap (old_qty - remaining) \<le> 0 then take_slot i item p ob
                        else set_slot_qty i item (i32_wrap (old_qty - remaining)) p ob) of
                    (p, ob) \<Rightarrow> remove_loop item_id quality is (i32_wrap (remaining - old_qty)) p ob)"

definition ip_remove :: "u32 \<Rightarrow> int \<Rightarrow> u8 \<Rightarrow> item_package \<Rightarrow> inventory_outbox \<Rightarrow> item_package \<times> inventory_outbox" where
  "ip_remove item_id quantity quality p ob =
     (if \<not> has_item_qq p item_id quantity quality then (p, ob)
      else case remove_loop item_id quality (rev [0..<ip_end_of_list_index p]) quantity p ob of
             (p, ob) \<Rightarrow> realign_and_send p ob)"

definition remove_at_slot :: "u16 \<Rightarrow> item_package \<Rightarrow> inventory_outbox \<Rightarrow> item_package \<times> inventory_outbox" where
  "remove_at_slot slot p ob =
     (let idx = unat slot
      in if ip_end_of_list_index p \<le> idx then (p, ob)
         else case (case ip_list p ! idx of Some item \<Rightarrow> take_slot idx item p ob | None \<Rightarrow> (p, ob)) of
                (p, ob) \<Rightarrow> realign_and_send p ob)"

definition remove_item :: "inventory_item \<Rightarrow> item_package \<Rightarrow> inventory_outbox \<Rightarrow> item_package \<times> inventory_outbox" where
  "remove_item item p ob =
     (if it_item_package item = ip_code p then remove_at_slot (it_slot item) p ob else (p, ob))"

definition position_of :: "('a \<Rightarrow> bool) \<Rightarrow> 'a list \<Rightarrow> nat option" where
  "position_of f xs = (let i = length (takeWhile (\<lambda>x. \<not> f x) xs) in if i < length xs then Some i else None)"

definition remove_by_unique_id :: "u64 \<Rightarrow> int \<Rightarrow> item_package \<Rightarrow> inventory_outbox \<Rightarrow> item_package \<times> inventory_outbox" where
  "remove_by_unique_id item_db_id quantity p ob =
     (case position_of (\<lambda>x. case x of Some i \<Rightarrow> it_unique_id i = item_db_id | None \<Rightarrow> False)
             (take (ip_end_of_list_index p) (ip_list p)) of
        None \<Rightarrow> (p, ob)
      | Some slot \<Rightarrow>
          (case ip_list p ! slot of
             None \<Rightarrow> (p, ob)
           | Some item \<Rightarrow>
               (case (if it_quantity item \<le> quantity then take_slot slot item p ob
                      else set_slot_qty slot item (i32_wrap (it_quantity item - quantity)) p ob) of
                  (p, ob) \<Rightarrow> realign_and_send p ob)))"

definition remove_at_slot_qty :: "u16 \<Rightarrow> int \<Rightarrow> item_package \<Rightarrow> inventory_outbox \<Rightarrow> item_package \<times> inventory_outbox" where
  "remove_at_slot_qty slot quantity p ob =
     (let idx = unat slot
      in if ip_end_of_list_index p \<le> idx then (p, ob)
         else case ip_list p ! idx of
           None \<Rightarrow> (p, ob)
         | Some item \<Rightarrow>
             let remaining = i32_wrap (it_quantity item - quantity)
             in if remaining \<le> 0
                then (case take_slot idx item p ob of (p, ob) \<Rightarrow> realign_and_send p ob)
                else (case set_slot_qty idx item remaining p ob of (p, ob) \<Rightarrow> bracketed_send_update p ob))"

fun clear_slots :: "nat list \<Rightarrow> item_package \<Rightarrow> item_package" where
  "clear_slots [] p = p"
| "clear_slots (i # is) p =
     clear_slots is
       (if ip_list p ! i \<noteq> None then put_slot i None p else p)"

definition ip_clear :: "item_package \<Rightarrow> inventory_outbox \<Rightarrow> item_package \<times> inventory_outbox" where
  "ip_clear p ob =
     bracketed_send_update
       ((clear_slots [0..<ip_end_of_list_index p] p)\<lparr>ip_end_of_list_index := 0\<rparr>) ob"

section \<open>Moves between two bags\<close>

text \<open>The result, the source, the destination and the outbox.\<close>

definition move_to :: "item_catalog \<Rightarrow> u16 \<Rightarrow> item_package \<Rightarrow> item_package \<Rightarrow> inventory_outbox
    \<Rightarrow> inventory_result \<times> item_package \<times> item_package \<times> inventory_outbox" where
  "move_to catalog slot src dst ob =
     (case ip_get_at_slot src slot of
        None \<Rightarrow> (Err InvSystem, src, dst, ob)
      | Some item \<Rightarrow>
          if \<not> can_add dst item then (Err InvFull, src, dst, ob)
          else case remove_at_slot slot src ob of
            (src, ob) \<Rightarrow> (case ip_add_existing catalog item dst ob of (r, dst, ob) \<Rightarrow> (r, src, dst, ob)))"

definition move_item :: "item_catalog \<Rightarrow> inventory_item \<Rightarrow> item_package \<Rightarrow> item_package \<Rightarrow> inventory_outbox
    \<Rightarrow> inventory_result \<times> item_package \<times> item_package \<times> inventory_outbox" where
  "move_item catalog item src dst ob =
     (if \<not> can_add dst item then (Err InvFull, src, dst, ob)
      else case remove_item item src ob of
        (src, ob) \<Rightarrow> (case ip_add_existing catalog item dst ob of (r, dst, ob) \<Rightarrow> (r, src, dst, ob)))"

end
