(* ===== verification/InventoryMirror.thy ===== *)
theory InventoryMirror
  imports Inventory
begin

text \<open>
  The bag of \<open>Inventory\<close>: well-formedness, the client as the specification of the update packets, and
  the realignment loop as a stable compaction.
\<close>

section \<open>Well-formedness\<close>

text \<open>
  The vectors have the bag's capacity, everything past the live prefix is empty, and an item knows its
  slot and its bag. \<open>bag_wf\<close> adds that the live prefix has no hole; between a removal and the
  realignment only \<open>loose_wf\<close> holds.
\<close>

definition loose_wf :: "item_package \<Rightarrow> bool" where
  "loose_wf p \<longleftrightarrow>
     length (ip_list p) = unat (ip_capacity p) \<and> length (ip_is_dirty p) = unat (ip_capacity p)
     \<and> ip_end_of_list_index p \<le> unat (ip_capacity p)
     \<and> (\<forall>i. ip_end_of_list_index p \<le> i \<longrightarrow> i < unat (ip_capacity p) \<longrightarrow> ip_list p ! i = None)
     \<and> (\<forall>i < ip_end_of_list_index p. \<forall>item. ip_list p ! i = Some item \<longrightarrow>
          it_slot item = of_nat i \<and> it_item_package item = ip_code p)"

definition bag_wf :: "item_package \<Rightarrow> bool" where
  "bag_wf p \<longleftrightarrow> loose_wf p \<and> (\<forall>i < ip_end_of_list_index p. ip_list p ! i \<noteq> None)"

text \<open>The identity of a bag, which no operation changes.\<close>

definition same_bag :: "item_package \<Rightarrow> item_package \<Rightarrow> bool" where
  "same_bag p q \<longleftrightarrow> ip_owner_actor_id p = ip_owner_actor_id q \<and> ip_capacity p = ip_capacity q
     \<and> ip_code p = ip_code q \<and> ip_is_temporary p = ip_is_temporary q
     \<and> ip_holding_updates p = ip_holding_updates q"

lemma same_bag_refl [simp]: "same_bag p p"
  by (simp add: same_bag_def)

lemma same_bag_trans: "same_bag p q \<Longrightarrow> same_bag q r \<Longrightarrow> same_bag p r"
  by (simp add: same_bag_def)

lemma put_slot_simps [simp]:
  "ip_owner_actor_id (put_slot i x p) = ip_owner_actor_id p" "ip_capacity (put_slot i x p) = ip_capacity p"
  "ip_code (put_slot i x p) = ip_code p" "ip_is_temporary (put_slot i x p) = ip_is_temporary p"
  "ip_holding_updates (put_slot i x p) = ip_holding_updates p"
  "ip_end_of_list_index (put_slot i x p) = ip_end_of_list_index p"
  "ip_list (put_slot i x p) = (ip_list p)[i := x]" "ip_is_dirty (put_slot i x p) = (ip_is_dirty p)[i := True]"
  by (simp_all add: put_slot_def)

lemma unat_of_nat_slot: "i < unat (c :: u16) \<Longrightarrow> unat (of_nat i :: u16) = i"
  using unsigned_less [of c, where ?'a = nat] by (simp only: unat_of_nat) (simp add: take_bit_nat_eq_self)

definition fits_slot :: "item_package \<Rightarrow> nat \<Rightarrow> inventory_item option \<Rightarrow> bool" where
  "fits_slot p i x \<longleftrightarrow> (\<forall>item. x = Some item \<longrightarrow> it_slot item = of_nat i \<and> it_item_package item = ip_code p)"

lemma fits_None [simp]: "fits_slot p i None"
  by (simp add: fits_slot_def)

lemma put_slot_loose:
  assumes "loose_wf p" and "i < ip_end_of_list_index p" and "fits_slot p i x"
  shows "loose_wf (put_slot i x p)"
  using assms by (auto simp: loose_wf_def fits_slot_def nth_list_update)

lemma put_slot_wf:
  assumes "bag_wf p" and "i < ip_end_of_list_index p" and "fits_slot p i (Some item)"
  shows "bag_wf (put_slot i (Some item) p)"
  using assms put_slot_loose [of p i "Some item"] by (auto simp: bag_wf_def loose_wf_def nth_list_update)

lemma push_item_wf:
  assumes "bag_wf p" and "ip_end_of_list_index p < unat (ip_capacity p)"
    and "fits_slot p (ip_end_of_list_index p) (Some item)"
  shows "bag_wf (push_item item p)"
  using assms by (auto simp: bag_wf_def loose_wf_def push_item_def fits_slot_def nth_list_update less_Suc_eq)

section \<open>What the client sees\<close>

text \<open>
  The specification of the update packets: a client that keeps, for every bag, what each slot shows. A
  begin packet opens a bag, item packets fill the slots the items name, remove packets empty slots.
\<close>

record client_bags =
  open_bag :: "(u32 \<times> u16) option"
  bag_view :: "u32 \<times> u16 \<Rightarrow> nat \<Rightarrow> inventory_item option"

definition show_items :: "inventory_item list \<Rightarrow> (nat \<Rightarrow> inventory_item option) \<Rightarrow> nat \<Rightarrow> inventory_item option" where
  "show_items items view = foldl (\<lambda>v item. v(unat (it_slot item) := Some item)) view items"

definition hide_slots :: "u16 list \<Rightarrow> (nat \<Rightarrow> inventory_item option) \<Rightarrow> nat \<Rightarrow> inventory_item option" where
  "hide_slots slots view = foldl (\<lambda>v s. v(unat s := None)) view slots"

definition in_open_bag :: "((nat \<Rightarrow> inventory_item option) \<Rightarrow> nat \<Rightarrow> inventory_item option) \<Rightarrow> client_bags \<Rightarrow> client_bags" where
  "in_open_bag f c =
     (case open_bag c of None \<Rightarrow> c | Some k \<Rightarrow> c\<lparr>bag_view := (bag_view c)(k := f (bag_view c k))\<rparr>)"

fun client_event :: "inventory_event \<Rightarrow> client_bags \<Rightarrow> client_bags" where
  "client_event (PacketSetBegin owner capacity code) c = c\<lparr>open_bag := Some (owner, code)\<rparr>"
| "client_event (PacketItems owner items) c = in_open_bag (show_items items) c"
| "client_event (PacketRemoveSlots owner slots) c = in_open_bag (hide_slots slots) c"
| "client_event (PacketSetEnd owner) c = c\<lparr>open_bag := None\<rparr>"
| "client_event _ c = c"

definition client_of :: "inventory_outbox \<Rightarrow> client_bags" where
  "client_of ob = foldl (\<lambda>c e. client_event e c) \<lparr>open_bag = None, bag_view = \<lambda>_ _. None\<rparr> ob"

lemma client_of_append: "client_of (ob @ es) = foldl (\<lambda>c e. client_event e c) (client_of ob) es"
  by (simp add: client_of_def)

definition shown :: "item_package \<Rightarrow> inventory_outbox \<Rightarrow> nat \<Rightarrow> inventory_item option" where
  "shown p ob i = bag_view (client_of ob) (ip_owner_actor_id p, ip_code p) i"

text \<open>Slots that are not flagged are what the client shows.\<close>

definition in_sync :: "item_package \<Rightarrow> inventory_outbox \<Rightarrow> bool" where
  "in_sync p ob \<longleftrightarrow> (\<forall>i < unat (ip_capacity p). \<not> ip_is_dirty p ! i \<longrightarrow> shown p ob i = ip_list p ! i)"

definition mirrored :: "item_package \<Rightarrow> inventory_outbox \<Rightarrow> bool" where
  "mirrored p ob \<longleftrightarrow> (\<forall>i < unat (ip_capacity p). shown p ob i = ip_list p ! i)"

fun db_event :: "inventory_event \<Rightarrow> bool" where
  "db_event (DbAdd _ _ _ _) = True" | "db_event (DbRemove _ _) = True"
| "db_event (DbQuantity _ _) = True" | "db_event (DbPositions _) = True"
| "db_event (DbEquip _ _ _) = True" | "db_event (DbUnequip _ _) = True"
| "db_event _ = False"

lemma db_event_hidden [simp]: "db_event e \<Longrightarrow> client_event e c = c"
  by (cases e) auto

lemma shown_append_db [simp]: "db_event e \<Longrightarrow> shown p (ob @ [e]) i = shown p ob i"
  by (simp add: shown_def client_of_append)

lemma in_sync_db [simp]: "db_event e \<Longrightarrow> in_sync p (ob @ [e]) = in_sync p ob"
  by (simp add: in_sync_def)

lemma in_sync_bracket [simp]:
  "in_sync p (ob @ [PacketBeginChange o']) = in_sync p ob" "in_sync p (ob @ [PacketEndChange o']) = in_sync p ob"
  by (simp_all add: in_sync_def shown_def client_of_append)

lemma mirrored_bracket [simp]:
  "mirrored p (ob @ [PacketEndChange o']) = mirrored p ob"
  by (simp_all add: mirrored_def shown_def client_of_append)

lemma put_slot_sync:
  assumes "in_sync p ob" and "length (ip_is_dirty p) = unat (ip_capacity p)"
  shows "in_sync (put_slot i x p) ob"
  unfolding in_sync_def
proof (intro allI impI)
  fix j assume j: "j < unat (ip_capacity (put_slot i x p))" "\<not> ip_is_dirty (put_slot i x p) ! j"
  then have "j \<noteq> i" using assms(2) by auto
  with j assms(1) show "shown (put_slot i x p) ob j = ip_list (put_slot i x p) ! j"
    by (simp add: in_sync_def shown_def)
qed

lemma push_item_sync:
  "in_sync p ob \<Longrightarrow> length (ip_is_dirty p) = unat (ip_capacity p) \<Longrightarrow> in_sync (push_item item p) ob"
  using put_slot_sync [of p ob "ip_end_of_list_index p" "Some item"]
  by (simp add: push_item_def in_sync_def shown_def)

lemma mirrored_in_sync: "mirrored p ob \<Longrightarrow> in_sync p ob"
  by (simp add: mirrored_def in_sync_def)

lemma show_items_other:
  "(\<And>item. item \<in> set items \<Longrightarrow> unat (it_slot item) \<noteq> i) \<Longrightarrow> show_items items v i = v i"
  unfolding show_items_def by (induction items arbitrary: v) auto

lemma show_items_slot:
  assumes "item \<in> set items" and "unat (it_slot item) = i"
    and "\<And>item'. item' \<in> set items \<Longrightarrow> unat (it_slot item') = i \<Longrightarrow> item' = item"
  shows "show_items items v i = Some item"
  using assms
proof (induction items arbitrary: v)
  case (Cons a items)
  show ?case
  proof (cases "item \<in> set items")
    case True
    have "show_items items (v(unat (it_slot a) := Some a)) i = Some item"
      by (rule Cons.IH [OF True Cons.prems(2)]) (simp add: Cons.prems(3))
    then show ?thesis by (simp add: show_items_def)
  next
    case False
    then have "a = item" using Cons.prems(1) by simp
    moreover have "\<And>item'. item' \<in> set items \<Longrightarrow> unat (it_slot item') \<noteq> i"
      using False Cons.prems(3) by auto
    ultimately show ?thesis
      using show_items_other [of items i "v(i := Some item)"] Cons.prems(2) by (simp add: show_items_def)
  qed
qed simp

lemma hide_slots_at: "hide_slots slots v i = (if \<exists>s \<in> set slots. unat s = i then None else v i)"
  unfolding hide_slots_def by (induction slots arbitrary: v) auto

lemma slot_of_live:
  assumes "loose_wf p" and "i < ip_end_of_list_index p" and "ip_list p ! i = Some item"
  shows "unat (it_slot item) = i"
proof -
  have "it_slot item = of_nat i" and "i < unat (ip_capacity p)"
    using assms by (auto simp: loose_wf_def)
  then show ?thesis by (simp add: unat_of_nat_slot)
qed

lemma in_dirty_items:
  "item \<in> set (dirty_items p) \<longleftrightarrow>
     (\<exists>i < ip_end_of_list_index p. ip_is_dirty p ! i \<and> ip_list p ! i = Some item)"
  by (force simp: dirty_items_def List.map_filter_def image_iff split: if_splits)

lemma in_dirty_tail:
  assumes "loose_wf p"
  shows "(\<exists>s \<in> set (dirty_tail_slots p). unat s = i) \<longleftrightarrow>
     ip_end_of_list_index p \<le> i \<and> i < unat (ip_capacity p) \<and> ip_is_dirty p ! i"
proof -
  have "unat (of_nat j :: u16) = j" if "j < unat (ip_capacity p)" for j using that by (rule unat_of_nat_slot)
  then show ?thesis by (auto simp: dirty_tail_slots_def)
qed

lemma clear_dirty_simps [simp]:
  "same_bag (clear_dirty p) p" "ip_list (clear_dirty p) = ip_list p"
  "ip_end_of_list_index (clear_dirty p) = ip_end_of_list_index p" "ip_capacity (clear_dirty p) = ip_capacity p"
  "ip_owner_actor_id (clear_dirty p) = ip_owner_actor_id p" "ip_code (clear_dirty p) = ip_code p"
  "bag_wf (clear_dirty p) = bag_wf p" "loose_wf (clear_dirty p) = loose_wf p"
  "ip_holding_updates (clear_dirty p) = ip_holding_updates p" "ip_is_temporary (clear_dirty p) = ip_is_temporary p"
  by (simp_all add: clear_dirty_def same_bag_def bag_wf_def loose_wf_def)

lemma client_items:
  "foldl (\<lambda>c e. client_event e c) c (if items = [] then [] else [PacketItems ow items, PacketModifierFrame ow items])
     = in_open_bag (show_items items) c"
  by (auto simp: in_open_bag_def show_items_def fun_upd_idem split: option.splits)

lemma client_remove:
  "foldl (\<lambda>c e. client_event e c) c (if slots = [] then [] else [PacketRemoveSlots ow slots])
     = in_open_bag (hide_slots slots) c"
  by (auto simp: in_open_bag_def hide_slots_def fun_upd_idem split: option.splits)

lemma shown_send_update:
  assumes "send_update p ob = (q, ob')" and "\<not> ip_holding_updates p"
  shows "q = clear_dirty p"
    and "shown q ob' i = hide_slots (dirty_tail_slots p) (show_items (dirty_items p) (shown p ob)) i"
proof -
  show q: "q = clear_dirty p" using assms by (simp add: send_update_def Let_def)
  let ?o = "ip_owner_actor_id p"
  have "ob' = ob @ [PacketSetBegin ?o (ip_capacity p) (ip_code p)]
      @ (if dirty_items p = [] then [] else [PacketItems ?o (dirty_items p), PacketModifierFrame ?o (dirty_items p)])
      @ (if dirty_tail_slots p = [] then [] else [PacketRemoveSlots ?o (dirty_tail_slots p)])
      @ [PacketSetEnd ?o]"
    using assms by (simp add: send_update_def Let_def)
  then show "shown q ob' i = hide_slots (dirty_tail_slots p) (show_items (dirty_items p) (shown p ob)) i"
    by (simp only: client_of_append shown_def foldl_append client_items client_remove foldl_Cons foldl_Nil)
      (simp add: q in_open_bag_def shown_def [abs_def])
qed

lemma send_update_mirrors:
  assumes "bag_wf p" and "in_sync p ob" and "\<not> ip_holding_updates p" and "send_update p ob = (q, ob')"
  shows "mirrored q ob'"
  unfolding mirrored_def
proof (intro allI impI)
  fix i assume "i < unat (ip_capacity q)"
  note q = shown_send_update [OF assms(4,3)]
  have i: "i < unat (ip_capacity p)" using \<open>i < unat (ip_capacity q)\<close> q(1) by simp
  have loose: "loose_wf p" using assms(1) by (simp add: bag_wf_def)
  have uniq: "j = i" if "ip_list p ! j = Some item" "unat (it_slot item) = i" "j < ip_end_of_list_index p" for j item
    using slot_of_live [OF loose that(3,1)] that(2) by simp
  have "hide_slots (dirty_tail_slots p) (show_items (dirty_items p) (shown p ob)) i = ip_list p ! i"
  proof (cases "i < ip_end_of_list_index p")
    case True
    then obtain item where item: "ip_list p ! i = Some item" using assms(1) by (auto simp: bag_wf_def)
    have "show_items (dirty_items p) (shown p ob) i = Some item"
    proof (cases "ip_is_dirty p ! i")
      case d: True
      show ?thesis
      proof (rule show_items_slot)
        show "item \<in> set (dirty_items p)" using True d item by (auto simp: in_dirty_items)
        show "unat (it_slot item) = i" by (rule slot_of_live [OF loose True item])
        fix item' assume "item' \<in> set (dirty_items p)" and s: "unat (it_slot item') = i"
        then obtain j where j: "j < ip_end_of_list_index p" "ip_list p ! j = Some item'"
          by (auto simp: in_dirty_items)
        then have "j = i" using uniq s by blast
        with j item show "item' = item" by simp
      qed
    next
      case d: False
      then have "show_items (dirty_items p) (shown p ob) i = shown p ob i"
        by (intro show_items_other) (use uniq in \<open>auto simp: in_dirty_items\<close>)
      then show ?thesis using assms(2) d i item by (simp add: in_sync_def)
    qed
    with True item show ?thesis by (simp add: hide_slots_at in_dirty_tail [OF loose])
  next
    case False
    then have none: "ip_list p ! i = None" using loose i by (auto simp: loose_wf_def)
    show ?thesis
    proof (cases "ip_is_dirty p ! i")
      case True
      with False i none show ?thesis by (simp add: hide_slots_at in_dirty_tail [OF loose])
    next
      case d: False
      have "show_items (dirty_items p) (shown p ob) i = shown p ob i"
        by (intro show_items_other) (use uniq False in \<open>auto simp: in_dirty_items\<close>)
      with d assms(2) i none show ?thesis by (simp add: hide_slots_at in_dirty_tail [OF loose] in_sync_def)
    qed
  qed
  with q show "shown q ob' i = ip_list q ! i" by simp
qed

text \<open>
  A bag and an outbox in good order: well-formed, and in step with the client except on flagged slots.
\<close>

definition bag_ok :: "item_package \<Rightarrow> inventory_outbox \<Rightarrow> bool" where
  "bag_ok p ob \<longleftrightarrow> bag_wf p \<and> in_sync p ob"

definition bag_loose :: "item_package \<Rightarrow> inventory_outbox \<Rightarrow> bool" where
  "bag_loose p ob \<longleftrightarrow> loose_wf p \<and> in_sync p ob"

lemma bag_ok_loose: "bag_ok p ob \<Longrightarrow> bag_loose p ob"
  by (simp add: bag_ok_def bag_loose_def bag_wf_def)

lemma bag_ok_db [simp]: "db_event e \<Longrightarrow> bag_ok p (ob @ [e]) = bag_ok p ob"
  by (simp add: bag_ok_def)

lemma bag_loose_db [simp]: "db_event e \<Longrightarrow> bag_loose p (ob @ [e]) = bag_loose p ob"
  by (simp add: bag_loose_def)

lemma send_update_ok:
  assumes "bag_ok p ob" and "send_update p ob = (q, ob')"
  shows "bag_ok q ob' \<and> same_bag q p \<and> ip_list q = ip_list p \<and> ip_end_of_list_index q = ip_end_of_list_index p"
proof (cases "ip_holding_updates p")
  case True
  with assms show ?thesis by (simp add: send_update_def)
next
  case False
  with assms have q: "q = clear_dirty p" by (simp add: shown_send_update)
  have "mirrored q ob'" using send_update_mirrors [OF _ _ False assms(2)] assms(1) by (simp add: bag_ok_def)
  with q assms show ?thesis by (simp add: bag_ok_def mirrored_in_sync)
qed

lemma bracketed_ok:
  assumes "bag_ok p ob" and "bracketed_send_update p ob = (q, ob')"
  shows "bag_ok q ob' \<and> same_bag q p \<and> ip_list q = ip_list p \<and> ip_end_of_list_index q = ip_end_of_list_index p
    \<and> (\<not> ip_holding_updates p \<longrightarrow> mirrored q ob')"
proof (cases "ip_holding_updates p")
  case True
  with assms show ?thesis by (simp add: bracketed_send_update_def)
next
  case False
  obtain ob1 where s: "send_update p (ob @ [PacketBeginChange (ip_owner_actor_id p)]) = (q, ob1)"
    and ob': "ob' = ob1 @ [PacketEndChange (ip_owner_actor_id q)]"
    using assms(2) False by (auto simp: bracketed_send_update_def split: prod.splits)
  have ok: "bag_ok p (ob @ [PacketBeginChange (ip_owner_actor_id p)])" using assms(1) by (simp add: bag_ok_def)
  have "mirrored q ob1" using send_update_mirrors [OF _ _ False s] ok by (simp add: bag_ok_def)
  with send_update_ok [OF ok s] ob' show ?thesis by (simp add: bag_ok_def)
qed

section \<open>Realignment\<close>

abbreviation live :: "inventory_item option list \<Rightarrow> inventory_item list" where
  "live xs \<equiv> List.map_filter (\<lambda>x. x) xs"

fun renumber :: "nat \<Rightarrow> inventory_item list \<Rightarrow> inventory_item list" where
  "renumber k [] = []"
| "renumber k (item # items) = item\<lparr>it_slot := of_nat k\<rparr> # renumber (k + 1) items"

lemma length_renumber [simp]: "length (renumber k items) = length items"
  by (induction items arbitrary: k) auto

lemma nth_renumber: "j < length items \<Longrightarrow> renumber k items ! j = (items ! j)\<lparr>it_slot := of_nat (k + j)\<rparr>"
proof (induction items arbitrary: k j)
  case (Cons a items)
  then show ?case by (cases j) auto
qed simp

lemma live_simps [simp]: "live [] = []" "live (None # xs) = live xs" "live (Some a # xs) = a # live xs"
  "live (xs @ ys) = live xs @ live ys" "live (map Some items) = items" "live (replicate n None) = []"
  by (simp_all add: List.map_filter_def comp_def)

lemma length_live_le: "length (live xs) \<le> length xs"
  by (simp add: List.map_filter_def)

text \<open>What the loop has to return for the packed items \<open>A\<close>, with \<open>n\<close> the old end of the live prefix.\<close>

definition realigned_as :: "nat \<Rightarrow> inventory_item list \<Rightarrow> inventory_item option list
    \<Rightarrow> inventory_item option list \<times> bool list \<times> nat option \<times> inventory_item list \<Rightarrow> bool" where
  "realigned_as n A tail r \<longleftrightarrow>
     fst r = map Some A @ replicate (n - length A) None @ tail
     \<and> fst (snd (snd r)) = (if length A = n then None else Some (length A))"

lemma realign_loop_layout:
  assumes "i = length A + k" and "i \<le> n" and "n \<le> i + length rest"
    and "\<forall>j item. j < n - i \<longrightarrow> rest ! j = Some item \<longrightarrow> it_slot item = of_nat (i + j)"
  shows "realigned_as n (A @ renumber (length A) (live (take (n - i) rest))) (drop (n - i) rest)
    (realign_loop [i..<n] (map Some A @ replicate k None @ rest) dirty
      (if k = 0 then None else Some (length A)) ups)"
  using assms
proof (induction "n - i" arbitrary: i A k rest dirty ups)
  case 0
  then have "i = n" "k = n - length A" by auto
  with 0 show ?case by (auto simp: realigned_as_def)
next
  case (Suc d)
  let ?xs = "map Some A @ replicate k None @ rest" and ?ln = "if k = 0 then None else Some (length A)"
  from Suc.hyps(2) Suc.prems(2,3) have lt: "i < n" by simp
  with Suc.prems(3) obtain r rest' where rest: "rest = r # rest'" by (cases rest) auto
  have d: "d = n - Suc i" "n - i = Suc (n - Suc i)" using Suc.hyps(2) lt by auto
  have at: "?xs ! i = r" by (simp add: rest nth_append Suc.prems(1))
  have il: "k = 0 \<Longrightarrow> i = length A" using Suc.prems(1) by simp
  have upt: "[i..<n] = i # [Suc i..<n]" using lt by (rule upt_conv_Cons)
  have slots: "\<forall>j item. j < n - Suc i \<longrightarrow> rest' ! j = Some item \<longrightarrow> it_slot item = of_nat (Suc i + j)"
  proof (intro allI impI)
    fix j item assume "j < n - Suc i" "rest' ! j = Some item"
    with Suc.prems(4) [rule_format, of "Suc j" item] rest d(2) show "it_slot item = of_nat (Suc i + j)" by simp
  qed
  have len: "n \<le> Suc i + length rest'" "Suc i \<le> n" using Suc.prems(3) rest lt by simp_all
  note IH = Suc.hyps(1) [OF d(1) _ len(2,1) slots]
  have tail: "drop (n - i) rest = drop (n - Suc i) rest'" by (simp add: rest d(2))
  show ?case
  proof (cases r)
    case None
    have step: "realign_loop [i..<n] ?xs dirty ?ln ups = realign_loop [Suc i..<n] ?xs dirty (Some (length A)) ups"
      unfolding upt using at None il by simp
    have xs: "?xs = map Some A @ replicate (Suc k) None @ rest'"
      by (simp add: rest None replicate_app_Cons_same)
    have L: "live (take (n - i) rest) = live (take (n - Suc i) rest')" by (simp add: rest None d(2))
    have k1: "Suc i = length A + Suc k" using Suc.prems(1) by simp
    show ?thesis
      unfolding step L tail unfolding xs using IH [OF k1, of dirty ups] by (simp only: nat.simps if_False)
  next
    case (Some item)
    let ?m = "item\<lparr>it_slot := of_nat (length A)\<rparr>"
    have L: "A @ renumber (length A) (live (take (n - i) rest))
        = (A @ [?m]) @ renumber (length (A @ [?m])) (live (take (n - Suc i) rest'))"
      using rest Some d(2) by simp
    have "realign_loop [i..<n] ?xs dirty ?ln ups = realign_loop [Suc i..<n] (map Some (A @ [?m]) @ replicate k None @ rest')
        (if k = 0 then dirty else (dirty[length A := True])[i := True]) (if k = 0 then None else Some (length (A @ [?m])))
        (if k = 0 then ups else ups @ [?m])"
    proof (cases k)
      case 0
      have "it_slot item = of_nat i" using Suc.prems(4) [rule_format, of 0 item] rest Some lt by simp
      then have "?m = item" using il 0 by simp
      then show ?thesis unfolding upt using at Some 0 rest by simp
    next
      case (Suc k')
      have upd: "(?xs[i := None])[length A := Some ?m] = map Some (A @ [?m]) @ replicate k None @ rest'"
        using Suc.prems(1) Suc by (simp add: rest list_update_append replicate_app_Cons_same)
      show ?thesis unfolding upt using at Some Suc upd by (simp add: Let_def)
    qed
    then show ?thesis
      unfolding L tail by (simp only:) (rule IH, simp add: Suc.prems(1))
  qed
qed

lemma realign_loop_unflagged:
  assumes "realign_loop is xs dirty last_null ups = (xs', dirty', ln', ups')" and "length dirty = length xs"
  shows "length dirty' = length xs \<and> length xs' = length xs
    \<and> (\<forall>j < length xs. \<not> dirty' ! j \<longrightarrow> \<not> dirty ! j \<and> xs' ! j = xs ! j)"
  using assms
proof (induction "is" xs dirty last_null ups rule: realign_loop.induct)
  case (2 i "is" xs dirty last_null ups)
  show ?case
  proof (cases "\<exists>item dst. xs ! i = Some item \<and> last_null = Some dst")
    case True
    then obtain item dst where x: "xs ! i = Some item" "last_null = Some dst" by blast
    let ?m = "item\<lparr>it_slot := of_nat dst\<rparr>"
    have "length dirty' = length ((xs[i := None])[dst := Some ?m]) \<and> length xs' = length ((xs[i := None])[dst := Some ?m])
      \<and> (\<forall>j < length ((xs[i := None])[dst := Some ?m]). \<not> dirty' ! j \<longrightarrow>
           \<not> ((dirty[dst := True])[i := True]) ! j \<and> xs' ! j = ((xs[i := None])[dst := Some ?m]) ! j)"
      by (rule 2(4) [of "Some item" "Some dst" item dst ?m]) (use 2(5,6) x in \<open>simp_all add: Let_def\<close>)
    with 2(6) show ?thesis
      by (metis length_list_update nth_list_update nth_list_update_neq)
  next
    case False
    then consider "xs ! i = None" "last_null = None" | "xs ! i = None" "last_null \<noteq> None" | "xs ! i \<noteq> None" "last_null = None"
      by fastforce
    then show ?thesis by cases (use 2 in auto)
  qed
qed simp

lemma loose_layout:
  assumes "loose_wf p"
  shows "ip_list p = take (ip_end_of_list_index p) (ip_list p)
    @ replicate (unat (ip_capacity p) - ip_end_of_list_index p) None"
proof (rule nth_equalityI)
  show "length (ip_list p) = length (take (ip_end_of_list_index p) (ip_list p)
      @ replicate (unat (ip_capacity p) - ip_end_of_list_index p) None)"
    using assms by (simp add: loose_wf_def)
  fix i assume "i < length (ip_list p)"
  then show "ip_list p ! i = (take (ip_end_of_list_index p) (ip_list p)
      @ replicate (unat (ip_capacity p) - ip_end_of_list_index p) None) ! i"
    using assms by (auto simp: loose_wf_def nth_append)
qed

text \<open>Realignment packs the live items, in order, and renumbers them.\<close>

lemma realign_layout:
  assumes "loose_wf p" and "realign p ob = (q, ob')"
  shows "ip_list q = map Some (renumber 0 (iter_items p))
      @ replicate (unat (ip_capacity p) - length (iter_items p)) None
    \<and> ip_end_of_list_index q = length (iter_items p) \<and> same_bag q p"
proof -
  let ?n = "ip_end_of_list_index p" and ?c = "unat (ip_capacity p)"
  have n: "?n \<le> ?c" "length (ip_list p) = ?c" using assms(1) by (simp_all add: loose_wf_def)
  have slots: "\<forall>j item. j < ?n - 0 \<longrightarrow> ip_list p ! j = Some item \<longrightarrow> it_slot item = of_nat (0 + j)"
    using assms(1) by (simp add: loose_wf_def)
  have rest: "drop ?n (ip_list p) = replicate (?c - ?n) None"
    using n by (subst loose_layout [OF assms(1)]) simp
  have len: "length (iter_items p) \<le> ?n"
    using length_live_le [of "take ?n (ip_list p)"] n by (simp add: iter_items_def)
  have loop: "realigned_as ?n (renumber 0 (iter_items p)) (replicate (?c - ?n) None)
      (realign_loop [0..<?n] (ip_list p) (ip_is_dirty p) None [])"
    using realign_loop_layout [where i = 0 and A = "[]" and k = 0 and n = ?n and rest = "ip_list p"
        and dirty = "ip_is_dirty p" and ups = "[]", OF _ _ _ slots] n rest
    by (simp add: iter_items_def)
  have "replicate (?n - length (iter_items p)) None @ replicate (?c - ?n) None = replicate (?c - length (iter_items p)) None"
    using len n by (simp flip: replicate_add)
  with loop assms(2) show ?thesis by (auto simp: realign_def same_bag_def realigned_as_def split: prod.splits)
qed

lemma iter_items_slot:
  assumes "loose_wf p" and "item \<in> set (iter_items p)"
  shows "it_item_package item = ip_code p"
proof -
  have "length (ip_list p) = unat (ip_capacity p)" "ip_end_of_list_index p \<le> unat (ip_capacity p)"
    using assms(1) by (simp_all add: loose_wf_def)
  with assms(2) obtain i where "i < ip_end_of_list_index p" "ip_list p ! i = Some item"
    by (auto simp: iter_items_def List.map_filter_def in_set_conv_nth)
  with assms(1) show ?thesis by (auto simp: loose_wf_def)
qed

lemma length_iter_items: "loose_wf p \<Longrightarrow> length (iter_items p) \<le> ip_end_of_list_index p"
  using length_live_le [of "take (ip_end_of_list_index p) (ip_list p)"]
  by (simp add: iter_items_def loose_wf_def)

lemma bag_wf_layout:
  assumes "bag_wf p"
  shows "ip_list p = map Some (iter_items p) @ replicate (unat (ip_capacity p) - length (iter_items p)) None
    \<and> length (iter_items p) = ip_end_of_list_index p"
proof -
  let ?t = "take (ip_end_of_list_index p) (ip_list p)"
  have loose: "loose_wf p" and some: "\<forall>x \<in> set ?t. x \<noteq> None"
    using assms by (auto simp: bag_wf_def loose_wf_def in_set_conv_nth)
  have "map Some (live xs) = xs \<and> length (live xs) = length xs" if "\<forall>x \<in> set xs. x \<noteq> None" for xs :: "inventory_item option list"
    using that by (induction xs) auto
  from this [OF some] loose loose_layout [OF loose] show ?thesis
    by (simp add: iter_items_def loose_wf_def)
qed

lemma realign_ok:
  assumes "bag_loose p ob" and "realign p ob = (q, ob')"
  shows "bag_ok q ob' \<and> same_bag q p \<and> iter_items q = renumber 0 (iter_items p)"
proof -
  have loose: "loose_wf p" using assms(1) by (simp add: bag_loose_def)
  let ?L = "renumber 0 (iter_items p)" and ?c = "unat (ip_capacity p)"
  have lay: "ip_list q = map Some ?L @ replicate (?c - length ?L) None"
    "ip_end_of_list_index q = length ?L" "same_bag q p"
    using realign_layout [OF loose assms(2)] by simp_all
  obtain xs' dirty' ln' ups' where loop: "realign_loop [0..<ip_end_of_list_index p] (ip_list p) (ip_is_dirty p) None []
      = (xs', dirty', ln', ups')"
    by (rule prod_cases4)
  have q: "ip_list q = xs'" "ip_is_dirty q = dirty'" and ob': "ob' = ob \<or> ob' = ob @ [DbPositions ups']"
    using assms(2) loop by (auto simp: realign_def split: if_splits)
  have len: "length (ip_is_dirty p) = length (ip_list p)" "length (ip_list p) = ?c" "length ?L \<le> ?c"
    using loose length_iter_items [OF loose] by (auto simp: loose_wf_def)
  note unflagged = realign_loop_unflagged [OF loop len(1)]
  have cap: "unat (ip_capacity q) = ?c" "ip_code q = ip_code p" using lay(3) by (simp_all add: same_bag_def)
  have "loose_wf q"
    unfolding loose_wf_def cap(1)
  proof (intro conjI allI impI)
    show "length (ip_list q) = ?c" "ip_end_of_list_index q \<le> ?c" using lay len by simp_all
    show "length (ip_is_dirty q) = ?c" using q(2) unflagged len by simp
    fix i
    show "ip_end_of_list_index q \<le> i \<Longrightarrow> i < ?c \<Longrightarrow> ip_list q ! i = None"
      by (simp add: lay nth_append)
    fix item assume "i < ip_end_of_list_index q" "ip_list q ! i = Some item"
    then have i: "i < length (iter_items p)" "item = (iter_items p ! i)\<lparr>it_slot := of_nat i\<rparr>"
      by (auto simp: lay nth_append nth_renumber)
    then show "it_slot item = of_nat i" "it_item_package item = ip_code q"
      using iter_items_slot [OF loose nth_mem [OF i(1)]] cap(2) by simp_all
  qed
  then have "bag_wf q" by (simp add: bag_wf_def lay nth_append)
  moreover have "in_sync q ob'"
    unfolding in_sync_def cap(1)
  proof (intro allI impI)
    fix i assume "i < ?c" "\<not> ip_is_dirty q ! i"
    then have "\<not> ip_is_dirty p ! i" "ip_list q ! i = ip_list p ! i" using unflagged q len(2) by auto
    moreover have "shown q ob' i = shown p ob i"
      using ob' lay(3) by (auto simp: shown_def client_of_append same_bag_def)
    ultimately show "shown q ob' i = ip_list q ! i"
      using assms(1) \<open>i < ?c\<close> by (simp add: bag_loose_def in_sync_def)
  qed
  moreover have "iter_items q = ?L"
    by (simp add: iter_items_def lay)
  ultimately show ?thesis using lay(3) by (simp add: bag_ok_def)
qed

section \<open>Quantities\<close>

definition slot_qty :: "u32 \<Rightarrow> u8 \<Rightarrow> inventory_item option \<Rightarrow> int" where
  "slot_qty item_id quality x =
     (case x of Some item \<Rightarrow> if it_item_id item = item_id \<and> it_quality item = quality then it_quantity item else 0
      | None \<Rightarrow> 0)"

definition bag_sum :: "u32 \<Rightarrow> u8 \<Rightarrow> item_package \<Rightarrow> int" where
  "bag_sum item_id quality p = sum_list (map (slot_qty item_id quality) (ip_list p))"

definition qty_ok :: "item_package \<Rightarrow> bool" where
  "qty_ok p \<longleftrightarrow> (\<forall>item. Some item \<in> set (ip_list p) \<longrightarrow> 0 < it_quantity item \<and> it_quantity item < 2 ^ 31)"

lemma sum_list_update_int:
  fixes xs :: "int list"
  shows "i < length xs \<Longrightarrow> sum_list (xs[i := v]) = sum_list xs - xs ! i + v"
  by (induction xs arbitrary: i) (auto split: nat.splits)

lemma bag_sum_put_slot:
  "i < length (ip_list p) \<Longrightarrow>
     bag_sum d u (put_slot i x p) = bag_sum d u p - slot_qty d u (ip_list p ! i) + slot_qty d u x"
  by (simp add: bag_sum_def map_update sum_list_update_int)

lemma live_qty:
  "sum_list (map it_quantity (filter (\<lambda>i. it_item_id i = d \<and> it_quality i = u) (live xs)))
     = sum_list (map (slot_qty d u) xs)"
proof (induction xs)
  case (Cons x xs)
  then show ?case by (cases x) (auto simp: slot_qty_def)
qed simp

lemma total_quantity_sum:
  assumes "loose_wf p"
  shows "total_quantity p d u = bag_sum d u p"
proof -
  have "sum_list (map (slot_qty d u) (replicate n None)) = 0" for n
    by (induction n) (auto simp: slot_qty_def)
  then show ?thesis
    unfolding bag_sum_def by (subst loose_layout [OF assms]) (simp add: total_quantity_def iter_items_def live_qty)
qed

lemma renumber_qty [simp]:
  "sum_list (map it_quantity (filter (\<lambda>i. it_item_id i = d \<and> it_quality i = u) (renumber k items)))
     = sum_list (map it_quantity (filter (\<lambda>i. it_item_id i = d \<and> it_quality i = u) items))"
  by (induction items arbitrary: k) auto

lemma realign_qty:
  assumes "bag_loose p ob" and "realign p ob = (q, ob')"
  shows "total_quantity q d u = total_quantity p d u"
  using realign_ok [OF assms] by (simp add: total_quantity_def)

lemma same_content_qty:
  "ip_list q = ip_list p \<Longrightarrow> ip_end_of_list_index q = ip_end_of_list_index p
     \<Longrightarrow> total_quantity q d u = total_quantity p d u \<and> iter_items q = iter_items p"
  by (simp add: total_quantity_def iter_items_def)

lemma realign_and_send_ok:
  assumes "bag_loose p ob" and "realign_and_send p ob = (q, ob')"
  shows "bag_ok q ob' \<and> same_bag q p \<and> iter_items q = renumber 0 (iter_items p)
    \<and> total_quantity q d u = total_quantity p d u \<and> (\<not> ip_holding_updates p \<longrightarrow> mirrored q ob')"
proof -
  obtain r ob1 where r: "realign p ob = (r, ob1)" by fastforce
  then have s: "bracketed_send_update r ob1 = (q, ob')" using assms(2) by (simp add: realign_and_send_def)
  note rk = realign_ok [OF assms(1) r]
  then have ok: "bag_ok r ob1" by simp
  note sk = bracketed_ok [OF ok s]
  from sk have "total_quantity q d u = total_quantity r d u \<and> iter_items q = iter_items r"
    by (intro same_content_qty) simp_all
  with rk sk realign_qty [OF assms(1) r, of d u] show ?thesis
    by (auto simp: same_bag_def)
qed

end
