(* ===== verification/InventoryLaws.thy ===== *)
theory InventoryLaws
  imports InventoryMirror
begin

text \<open>
  The laws of the bag's operations: removals and additions account for every unit, every operation
  keeps the bag in order, and reachable bags are mirrored by the client.
\<close>

section \<open>Single slots\<close>

lemma loose_slot_fits:
  assumes "loose_wf p" and "i < ip_end_of_list_index p" and "ip_list p ! i = Some item"
  shows "fits_slot p i (Some (item\<lparr>it_quantity := n\<rparr>))"
  using assms by (auto simp: loose_wf_def fits_slot_def)

lemma loose_dirty: "loose_wf p \<Longrightarrow> length (ip_is_dirty p) = unat (ip_capacity p)"
  by (simp add: loose_wf_def)

lemma bag_wf_loose: "bag_wf p \<Longrightarrow> loose_wf p"
  by (simp add: bag_wf_def)

lemma put_slot_bag_loose:
  assumes "bag_loose p ob" and "i < ip_end_of_list_index p" and "fits_slot p i x"
  shows "bag_loose (put_slot i x p) ob"
  using assms put_slot_loose [of p i x] put_slot_sync [of p ob i x] loose_dirty [of p]
  by (simp add: bag_loose_def)

lemma put_slot_bag_ok:
  assumes "bag_ok p ob" and "i < ip_end_of_list_index p" and "fits_slot p i (Some item)"
  shows "bag_ok (put_slot i (Some item) p) ob"
  using assms put_slot_wf [of p i item] put_slot_sync [of p ob i "Some item"] loose_dirty [of p]
    bag_wf_loose [of p]
  by (simp add: bag_ok_def)

lemma same_bag_put_slot [simp]: "same_bag (put_slot i x p) p"
  by (simp add: same_bag_def)

lemma loose_index: "loose_wf p \<Longrightarrow> i < ip_end_of_list_index p \<Longrightarrow> i < length (ip_list p)"
  by (simp add: loose_wf_def)

lemma take_slot_loose:
  assumes "bag_loose p ob" and "i < ip_end_of_list_index p" and "ip_list p ! i = Some item"
    and "take_slot i item p ob = (q, ob')"
  shows "bag_loose q ob' \<and> same_bag q p \<and> ip_end_of_list_index q = ip_end_of_list_index p
    \<and> q = put_slot i None p \<and> bag_sum d u q = bag_sum d u p - slot_qty d u (Some item)"
proof -
  have i: "i < length (ip_list p)" using assms(1,2) by (simp add: bag_loose_def loose_index)
  have "bag_loose (put_slot i None p) ob" by (rule put_slot_bag_loose) (use assms in auto)
  with assms(3,4) bag_sum_put_slot [OF i, of d u None] show ?thesis
    by (auto simp: take_slot_def slot_qty_def)
qed

lemma set_slot_loose:
  assumes "bag_loose p ob" and "i < ip_end_of_list_index p" and "ip_list p ! i = Some item"
    and "set_slot_qty i item n p ob = (q, ob')"
  shows "bag_loose q ob' \<and> same_bag q p \<and> ip_end_of_list_index q = ip_end_of_list_index p
    \<and> q = put_slot i (Some (item\<lparr>it_quantity := n\<rparr>)) p
    \<and> bag_sum d u q = bag_sum d u p - slot_qty d u (Some item) + slot_qty d u (Some (item\<lparr>it_quantity := n\<rparr>))
    \<and> (bag_ok p ob \<longrightarrow> bag_ok q ob')"
proof -
  have loose: "loose_wf p" using assms(1) by (simp add: bag_loose_def)
  have i: "i < length (ip_list p)" using assms(2) loose by (simp add: loose_index)
  note fits = loose_slot_fits [OF loose assms(2,3), of n]
  from put_slot_bag_loose [OF assms(1,2) fits] put_slot_bag_ok [OF _ assms(2) fits, of ob]
  show ?thesis
    using assms(3,4) bag_sum_put_slot [OF i, of d u "Some (item\<lparr>it_quantity := n\<rparr>)"]
    by (auto simp: set_slot_qty_def)
qed

section \<open>Removals\<close>

lemma remove_loop_ok:
  assumes "bag_loose p ob" and "\<forall>i \<in> set is. i < ip_end_of_list_index p"
    and "remove_loop d u is n p ob = (q, ob')"
  shows "bag_loose q ob' \<and> same_bag q p"
  using assms
proof (induction d u "is" n p ob rule: remove_loop.induct)
  case (2 d u i "is" n p ob)
  show ?case
  proof (cases "n \<le> 0 \<or> ip_list p ! i = None \<or>
      (\<exists>item. ip_list p ! i = Some item \<and> (it_item_id item \<noteq> d \<or> it_quality item \<noteq> u))")
    case True
    with 2 show ?thesis by (auto split: if_splits)
  next
    case False
    then obtain item where n: "\<not> n \<le> 0" and item: "ip_list p ! i = Some item"
      and m: "\<not> (it_item_id item \<noteq> d \<or> it_quality item \<noteq> u)" by auto
    let ?v = "i32_wrap (it_quantity item - n)"
    obtain p1 ob1 where step: "(if ?v \<le> 0 then take_slot i item p ob else set_slot_qty i item ?v p ob) = (p1, ob1)"
      by fastforce
    have i: "i < ip_end_of_list_index p" using 2(5) by simp
    have p1: "bag_loose p1 ob1" "same_bag p1 p" "ip_end_of_list_index p1 = ip_end_of_list_index p"
      using step take_slot_loose [OF 2(4) i item, of p1 ob1] set_slot_loose [OF 2(4) i item, of ?v p1 ob1]
      by (auto split: if_splits)
    have rest: "remove_loop d u is (i32_wrap (n - it_quantity item)) p1 ob1 = (q, ob')"
      using 2(6) n item m step by (simp add: Let_def)
    have "bag_loose q ob' \<and> same_bag q p1"
      by (rule 2(3) [OF n item m refl step [symmetric] p1(1) _ rest]) (use 2(5) p1(3) in simp)
    then show ?thesis using p1(2) same_bag_trans by blast
  qed
qed simp

text \<open>The quantity that goes: the whole request, as long as the indices hold that much.\<close>

definition slots_sum :: "u32 \<Rightarrow> u8 \<Rightarrow> nat list \<Rightarrow> item_package \<Rightarrow> int" where
  "slots_sum d u is p = sum_list (map (\<lambda>i. slot_qty d u (ip_list p ! i)) is)"

lemma slots_sum_put_slot: "i \<notin> set is \<Longrightarrow> slots_sum d u is (put_slot i x p) = slots_sum d u is p"
  unfolding slots_sum_def
  by (intro arg_cong [where f = sum_list] map_cong refl) (metis nth_list_update_neq put_slot_simps(7))

lemma qty_ok_put_slot:
  "qty_ok p \<Longrightarrow> (\<And>item. x = Some item \<Longrightarrow> 0 < it_quantity item \<and> it_quantity item < 2 ^ 31)
     \<Longrightarrow> qty_ok (put_slot i x p)"
  using set_update_subset_insert [of "ip_list p" i x] by (fastforce simp: qty_ok_def)

lemma i32_diff: "0 \<le> a \<Longrightarrow> a < 2 ^ 31 \<Longrightarrow> 0 \<le> b \<Longrightarrow> b < 2 ^ 31 \<Longrightarrow> i32_wrap (a - b) = a - b"
  by (rule i32_wrap_id) (simp add: i32_range_def)

lemma remove_loop_qty:
  assumes "bag_loose p ob" and "\<forall>i \<in> set is. i < ip_end_of_list_index p" and "distinct is"
    and "qty_ok p" and "n < 2 ^ 31" and "n \<le> slots_sum d u is p" and "remove_loop d u is n p ob = (q, ob')"
  shows "bag_sum d' u' q = bag_sum d' u' p - (if d' = d \<and> u' = u then max 0 n else 0)"
  using assms
proof (induction d u "is" n p ob rule: remove_loop.induct)
  case (1 d u n p ob)
  then show ?case by (simp add: slots_sum_def)
next
  case (2 d u i "is" n p ob)
  have i: "i < ip_end_of_list_index p" using 2(5) by simp
  consider "n \<le> 0" | "\<not> n \<le> 0" "ip_list p ! i = None"
    | item where "\<not> n \<le> 0" "ip_list p ! i = Some item" "it_item_id item \<noteq> d \<or> it_quality item \<noteq> u"
    | item where "\<not> n \<le> 0" "ip_list p ! i = Some item" "\<not> (it_item_id item \<noteq> d \<or> it_quality item \<noteq> u)"
    by (cases "ip_list p ! i") auto
  then show ?case
  proof cases
    case 1
    with 2 show ?thesis by simp
  next
    case 2: 2
    show ?thesis
      by (rule "2.IH"(1)) (use 2 "2.prems" in \<open>auto simp: slots_sum_def slot_qty_def\<close>)
  next
    case 3
    show ?thesis
      by (rule "2.IH"(2)) (use 3 "2.prems" in \<open>auto simp: slots_sum_def slot_qty_def\<close>)
  next
    case 4
    let ?old = "it_quantity item" and ?n = "i32_wrap (n - it_quantity item)"
    let ?v = "i32_wrap (it_quantity item - n)"
    have loose: "loose_wf p" using "2.prems"(1) by (simp add: bag_loose_def)
    have il: "i < length (ip_list p)" using i loose by (simp add: loose_index)
    have old: "0 < ?old" "?old < 2 ^ 31"
      using "2.prems"(4) 4(2) il by (auto simp: qty_ok_def) (metis nth_mem)+
    have wrap: "?v = ?old - n" "?n = n - ?old"
      using old 4(1) "2.prems"(5) i32_diff [of ?old n] i32_diff [of n ?old] by simp_all
    obtain p1 ob1 where step: "(if ?v \<le> 0 then take_slot i item p ob else set_slot_qty i item ?v p ob) = (p1, ob1)"
      by fastforce
    have p1: "bag_loose p1 ob1" "ip_end_of_list_index p1 = ip_end_of_list_index p"
      using step take_slot_loose [OF "2.prems"(1) i 4(2), of p1 ob1] set_slot_loose [OF "2.prems"(1) i 4(2), of ?v p1 ob1]
      by (auto split: if_splits)
    define x where "x = (if ?v \<le> 0 then None else Some (item\<lparr>it_quantity := ?v\<rparr>))"
    have x: "p1 = put_slot i x p"
      using step by (auto simp: x_def take_slot_def set_slot_qty_def split: if_splits)
    have ok: "qty_ok p1" unfolding x
      by (rule qty_ok_put_slot [OF "2.prems"(4)]) (use old 4(1) wrap in \<open>auto simp: x_def split: if_splits\<close>)
    have sum: "slots_sum d u is p1 = slots_sum d u is p" unfolding x
      by (rule slots_sum_put_slot) (use "2.prems"(3) in simp)
    have here: "slot_qty d u (ip_list p ! i) = ?old" using 4 by (simp add: slot_qty_def)
    have rest: "remove_loop d u is ?n p1 ob1 = (q, ob')"
      using "2.prems"(7) 4 step by (simp add: Let_def)
    have "bag_sum d' u' q = bag_sum d' u' p1 - (if d' = d \<and> u' = u then max 0 ?n else 0)"
    proof (rule "2.IH"(3) [OF 4(1,2,3) refl step [symmetric] p1(1) _ _ ok _ _ rest])
      show "\<forall>i \<in> set is. i < ip_end_of_list_index p1" "distinct is" using "2.prems" p1(2) by auto
      show "?n < 2 ^ 31" using wrap old "2.prems"(5) by simp
      show "?n \<le> slots_sum d u is p1"
        using "2.prems"(6) sum here wrap by (simp add: slots_sum_def)
    qed
    moreover have "bag_sum d' u' p1 = bag_sum d' u' p - slot_qty d' u' (Some item) + slot_qty d' u' x"
      unfolding x using bag_sum_put_slot [OF il] 4(2) by simp
    ultimately show ?thesis
      using 4 wrap old by (auto simp: slot_qty_def x_def)
  qed
qed

lemma slots_sum_all:
  assumes "loose_wf p"
  shows "slots_sum d u (rev [0..<ip_end_of_list_index p]) p = total_quantity p d u"
proof -
  have n: "ip_end_of_list_index p \<le> length (ip_list p)" using assms by (simp add: loose_wf_def)
  have "map (\<lambda>i. f (xs ! i)) [0..<n] = map f (take n xs)" if "n \<le> length xs" for f :: "inventory_item option \<Rightarrow> int" and xs n
    using that by (simp add: list_eq_iff_nth_eq)
  from this [OF n, of "slot_qty d u"] show ?thesis
    by (simp add: slots_sum_def rev_map [symmetric] total_quantity_def iter_items_def live_qty)
qed

lemma ip_remove_ok:
  assumes "bag_ok p ob" and "ip_remove d n u p ob = (q, ob')"
  shows "bag_ok q ob' \<and> same_bag q p"
proof (cases "has_item_qq p d n u")
  case True
  obtain p1 ob1 where l: "remove_loop d u (rev [0..<ip_end_of_list_index p]) n p ob = (p1, ob1)" by fastforce
  have "bag_loose p1 ob1 \<and> same_bag p1 p"
    by (rule remove_loop_ok [OF bag_ok_loose [OF assms(1)] _ l]) simp
  with True l assms(2) realign_and_send_ok [of p1 ob1 q ob'] show ?thesis
    by (auto simp: ip_remove_def dest: same_bag_trans)
qed (use assms in \<open>simp add: ip_remove_def\<close>)

lemma remove_at_slot_ok:
  assumes "bag_ok p ob" and "remove_at_slot s p ob = (q, ob')"
  shows "bag_ok q ob' \<and> same_bag q p"
proof (cases "ip_end_of_list_index p \<le> unat s")
  case False
  note loose = bag_ok_loose [OF assms(1)]
  obtain p1 ob1 where t: "(case ip_list p ! unat s of Some item \<Rightarrow> take_slot (unat s) item p ob | None \<Rightarrow> (p, ob)) = (p1, ob1)"
    by fastforce
  have "bag_loose p1 ob1 \<and> same_bag p1 p"
    using t loose take_slot_loose [OF loose, of "unat s"] False by (auto split: option.splits)
  with False t assms(2) realign_and_send_ok [of p1 ob1 q ob'] show ?thesis
    by (auto simp: remove_at_slot_def Let_def dest: same_bag_trans)
qed (use assms in \<open>simp add: remove_at_slot_def\<close>)

lemma remove_item_ok:
  "bag_ok p ob \<Longrightarrow> remove_item item p ob = (q, ob') \<Longrightarrow> bag_ok q ob' \<and> same_bag q p"
  using remove_at_slot_ok by (auto simp: remove_item_def split: if_splits)

lemma position_of_Some:
  "position_of f xs = Some i \<Longrightarrow> i < length xs \<and> f (xs ! i)"
  using nth_length_takeWhile [of "\<lambda>x. \<not> f x" xs] by (simp add: position_of_def Let_def split: if_splits)

lemma slot_change_loose:
  assumes "bag_loose p ob" and "i < ip_end_of_list_index p" and "ip_list p ! i = Some item"
    and "(if b then take_slot i item p ob else set_slot_qty i item n p ob) = (q, ob')"
  shows "bag_loose q ob' \<and> same_bag q p"
  using assms take_slot_loose [OF assms(1-3), of q ob'] set_slot_loose [OF assms(1-3), of n q ob']
  by (auto split: if_splits)

lemma remove_by_unique_id_ok:
  assumes "bag_ok p ob" and "remove_by_unique_id k n p ob = (q, ob')"
  shows "bag_ok q ob' \<and> same_bag q p"
proof -
  let ?f = "\<lambda>x. case x of Some i \<Rightarrow> it_unique_id i = k | None \<Rightarrow> False"
  let ?t = "take (ip_end_of_list_index p) (ip_list p)"
  show ?thesis
  proof (cases "position_of ?f ?t")
    case None
    with assms show ?thesis by (simp add: remove_by_unique_id_def)
  next
    case (Some i)
    then have i: "i < ip_end_of_list_index p" and "?f (ip_list p ! i)"
      using position_of_Some [OF Some] by auto
    then obtain item where item: "ip_list p ! i = Some item" by (auto split: option.splits)
    obtain p1 ob1 where t: "(if it_quantity item \<le> n then take_slot i item p ob
        else set_slot_qty i item (i32_wrap (it_quantity item - n)) p ob) = (p1, ob1)"
      by fastforce
    have "bag_loose p1 ob1 \<and> same_bag p1 p"
      by (rule slot_change_loose [OF bag_ok_loose [OF assms(1)] i item t])
    moreover have "realign_and_send p1 ob1 = (q, ob')"
      using assms(2) Some item t by (simp add: remove_by_unique_id_def)
    ultimately show ?thesis using realign_and_send_ok [of p1 ob1 q ob'] by (blast dest: same_bag_trans)
  qed
qed

lemma remove_at_slot_qty_ok:
  assumes "bag_ok p ob" and "remove_at_slot_qty s n p ob = (q, ob')"
  shows "bag_ok q ob' \<and> same_bag q p"
proof (cases "ip_end_of_list_index p \<le> unat s \<or> ip_list p ! unat s = None")
  case True
  with assms show ?thesis by (auto simp: remove_at_slot_qty_def Let_def split: if_splits)
next
  case False
  then obtain item where i: "unat s < ip_end_of_list_index p" and item: "ip_list p ! unat s = Some item" by auto
  note loose = bag_ok_loose [OF assms(1)]
  let ?r = "i32_wrap (it_quantity item - n)"
  show ?thesis
  proof (cases "?r \<le> 0")
    case True
    obtain p1 ob1 where t: "take_slot (unat s) item p ob = (p1, ob1)" by fastforce
    with True i item assms(2) have "realign_and_send p1 ob1 = (q, ob')"
      by (simp add: remove_at_slot_qty_def Let_def)
    with take_slot_loose [OF loose i item t] realign_and_send_ok [of p1 ob1 q ob'] show ?thesis
      by (blast dest: same_bag_trans)
  next
    case r: False
    obtain p1 ob1 where t: "set_slot_qty (unat s) item ?r p ob = (p1, ob1)" by fastforce
    with r i item assms(2) have "bracketed_send_update p1 ob1 = (q, ob')"
      by (simp add: remove_at_slot_qty_def Let_def)
    with set_slot_loose [OF loose i item t] assms(1) bracketed_ok [of p1 ob1 q ob'] show ?thesis
      by (blast dest: same_bag_trans)
  qed
qed

lemma clear_slots_ok:
  assumes "bag_loose p ob" and "\<forall>i \<in> set is. i < ip_end_of_list_index p"
  shows "bag_loose (clear_slots is p) ob \<and> same_bag (clear_slots is p) p
    \<and> ip_end_of_list_index (clear_slots is p) = ip_end_of_list_index p
    \<and> (\<forall>i. i \<in> set is \<or> ip_list p ! i = None \<longrightarrow> i < length (ip_list p) \<longrightarrow> ip_list (clear_slots is p) ! i = None)"
  using assms
proof (induction "is" arbitrary: p)
  case (Cons i "is")
  define r where "r = (if ip_list p ! i \<noteq> None then put_slot i None p else p)"
  have r: "bag_loose r ob" "\<forall>i \<in> set is. i < ip_end_of_list_index r" "same_bag r p"
    "length (ip_list r) = length (ip_list p)" "ip_end_of_list_index r = ip_end_of_list_index p"
    using Cons.prems put_slot_bag_loose [of p ob i None] by (auto simp: r_def)
  have none: "ip_list r ! j = None" if "j = i \<or> ip_list p ! j = None" "j < length (ip_list p)" for j
    using that by (cases "j = i") (auto simp: r_def)
  have step: "clear_slots (i # is) p = clear_slots is r" by (simp add: r_def)
  note IH = Cons.IH [OF r(1,2)]
  have "\<forall>j. j \<in> set (i # is) \<or> ip_list p ! j = None \<longrightarrow> j < length (ip_list p)
      \<longrightarrow> ip_list (clear_slots is r) ! j = None"
  proof (intro allI impI)
    fix j assume j: "j \<in> set (i # is) \<or> ip_list p ! j = None" "j < length (ip_list p)"
    then have "j \<in> set is \<or> ip_list r ! j = None" using none by auto
    then show "ip_list (clear_slots is r) ! j = None" using IH j(2) r(4) by auto
  qed
  then show ?case unfolding step using IH r(3,5) same_bag_trans by auto
qed simp

lemma ip_clear_ok:
  assumes "bag_ok p ob" and "ip_clear p ob = (q, ob')"
  shows "bag_ok q ob' \<and> same_bag q p \<and> iter_items q = []"
proof -
  let ?c = "clear_slots [0..<ip_end_of_list_index p] p"
  have c: "bag_loose ?c ob" "same_bag ?c p" "ip_end_of_list_index ?c = ip_end_of_list_index p"
    "\<And>i. i < ip_end_of_list_index p \<Longrightarrow> i < length (ip_list p) \<Longrightarrow> ip_list ?c ! i = None"
    using clear_slots_ok [OF bag_ok_loose [OF assms(1)], of "[0..<ip_end_of_list_index p]"] by auto
  have p: "loose_wf p" using assms(1) by (simp add: bag_ok_def bag_wf_def)
  let ?e = "?c\<lparr>ip_end_of_list_index := 0\<rparr>"
  have cap: "ip_capacity ?c = ip_capacity p" using c(2) by (simp add: same_bag_def)
  have len: "length (ip_list p) = unat (ip_capacity p)" using p by (simp add: loose_wf_def)
  have "\<forall>i < unat (ip_capacity p). ip_list ?c ! i = None"
    using c(1,3,4) cap len by (metis bag_loose_def loose_wf_def not_le)
  then have "bag_wf ?e"
    using c(1) cap by (simp add: bag_loose_def bag_wf_def loose_wf_def)
  moreover have "in_sync ?e ob" using c(1) by (simp add: bag_loose_def in_sync_def shown_def)
  ultimately have ok: "bag_ok ?e ob" by (simp add: bag_ok_def)
  have "bracketed_send_update ?e ob = (q, ob')" using assms(2) by (simp add: ip_clear_def)
  from bracketed_ok [OF ok this] c(2) show ?thesis by (auto simp: iter_items_def same_bag_def)
qed

section \<open>Additions\<close>

definition slot_room :: "u32 \<Rightarrow> u8 \<Rightarrow> int \<Rightarrow> inventory_item option \<Rightarrow> int" where
  "slot_room d u max_stack x =
     (case x of Some item \<Rightarrow>
        if it_item_id item = d \<and> it_quality item = u \<and> it_quantity item < max_stack
        then max_stack - it_quantity item else 0
      | None \<Rightarrow> 0)"

definition slots_room :: "u32 \<Rightarrow> u8 \<Rightarrow> int \<Rightarrow> nat list \<Rightarrow> item_package \<Rightarrow> int" where
  "slots_room d u max_stack is p = sum_list (map (\<lambda>i. slot_room d u max_stack (ip_list p ! i)) is)"

lemma slot_room_nonneg: "0 \<le> slot_room d u m x"
  by (auto simp: slot_room_def split: option.split)

lemma slots_room_nonneg: "0 \<le> slots_room d u m is p"
  by (induction "is") (simp_all add: slots_room_def slot_room_nonneg)

lemma slots_room_put_slot: "i \<notin> set is \<Longrightarrow> slots_room d u m is (put_slot i x p) = slots_room d u m is p"
  unfolding slots_room_def
  by (intro arg_cong [where f = sum_list] map_cong refl) (metis nth_list_update_neq put_slot_simps(7))

lemma merge_stacks_ok:
  assumes "bag_ok p ob" and "\<forall>i \<in> set is. i < ip_end_of_list_index p" and "distinct is" and "qty_ok p"
    and "0 < m" and "n + m < 2 ^ 31" and "merge_stacks d u m is n p ob = (n', q, ob')"
  shows "bag_ok q ob' \<and> same_bag q p \<and> ip_end_of_list_index q = ip_end_of_list_index p \<and> qty_ok q \<and> n' \<le> n
    \<and> max 0 n' = max 0 (max 0 n - slots_room d u m is p)
    \<and> bag_sum d' u' q = bag_sum d' u' p + (if d' = d \<and> u' = u then max 0 n - max 0 n' else 0)"
  using assms
proof (induction d u m "is" n p ob rule: merge_stacks.induct)
  case (1 d u m n p ob)
  then show ?case by (simp add: slots_room_def)
next
  case (2 d u m i "is" n p ob)
  have i: "i < ip_end_of_list_index p" using "2.prems"(2) by simp
  consider "n \<le> 0" | "\<not> n \<le> 0" "ip_list p ! i = None"
    | item where "\<not> n \<le> 0" "ip_list p ! i = Some item"
        "it_item_id item \<noteq> d \<or> it_quality item \<noteq> u \<or> m \<le> it_quantity item"
    | item where "\<not> n \<le> 0" "ip_list p ! i = Some item"
        "\<not> (it_item_id item \<noteq> d \<or> it_quality item \<noteq> u \<or> m \<le> it_quantity item)"
    by (cases "ip_list p ! i") auto
  then show ?case
  proof cases
    case 1
    with "2.prems" slots_room_nonneg [of d u m "i # is" p] show ?thesis by simp
  next
    case a: 2
    have "merge_stacks d u m is n p ob = (n', q, ob')" using "2.prems"(7) a by simp
    from "2.IH"(1) [OF a "2.prems"(1) _ _ "2.prems"(4,5,6) this] "2.prems"(2,3) a(2) show ?thesis
      by (simp add: slots_room_def slot_room_def)
  next
    case a: 3
    have "merge_stacks d u m is n p ob = (n', q, ob')" using "2.prems"(7) a by simp
    moreover have "slot_room d u m (ip_list p ! i) = 0" using a by (auto simp: slot_room_def)
    ultimately show ?thesis
      using "2.IH"(2) [OF a "2.prems"(1) _ _ "2.prems"(4,5,6)] "2.prems"(2,3) by (simp add: slots_room_def)
  next
    case a: 4
    let ?old = "it_quantity item"
    have loose: "loose_wf p" using "2.prems"(1) by (simp add: bag_ok_def bag_wf_def)
    have il: "i < length (ip_list p)" using i loose by (simp add: loose_index)
    have old: "0 < ?old" "?old < m" "m < 2 ^ 31"
      using "2.prems"(4) a il "2.prems"(6) by (auto simp: qty_ok_def) (metis nth_mem)
    have wrap: "i32_wrap (?old + n) = ?old + n" "i32_wrap (m - ?old) = m - ?old"
      "i32_wrap (n - (m - ?old)) = n - (m - ?old)"
      using old a(1) "2.prems"(6) by (simp_all add: i32_range_def)
    let ?new = "min (?old + n) m" and ?n = "n - (m - ?old)"
    let ?p = "put_slot i (Some (item\<lparr>it_quantity := ?new\<rparr>)) p"
    let ?ob = "if ip_is_temporary p then ob else ob @ [DbQuantity (it_unique_id item) ?new]"
    have rest: "merge_stacks d u m is ?n ?p ?ob = (n', q, ob')"
      using "2.prems"(7) a by (simp add: Let_def wrap cong: if_cong)
    have ok: "bag_ok ?p ob"
      by (rule put_slot_bag_ok [OF "2.prems"(1) i loose_slot_fits [OF loose i a(2)]])
    then have ok: "bag_ok ?p ?ob" by simp
    have qok: "qty_ok ?p"
      by (rule qty_ok_put_slot [OF "2.prems"(4)]) (use old a(1) in auto)
    have room: "slots_room d u m is ?p = slots_room d u m is p"
      by (rule slots_room_put_slot) (use "2.prems"(3) in simp)
    have here: "slot_room d u m (ip_list p ! i) = m - ?old" using a by (simp add: slot_room_def)
    have IH: "bag_ok q ob' \<and> same_bag q ?p \<and> ip_end_of_list_index q = ip_end_of_list_index ?p \<and> qty_ok q \<and> n' \<le> ?n
      \<and> max 0 n' = max 0 (max 0 ?n - slots_room d u m is ?p)
      \<and> bag_sum d' u' q = bag_sum d' u' ?p + (if d' = d \<and> u' = u then max 0 ?n - max 0 n' else 0)"
      by (rule "2.IH"(3) [OF a refl refl refl, unfolded wrap, OF ok _ _ qok _ _ rest])
        (use "2.prems"(2,3,5,6) old a(1) in simp_all)
    have sum: "bag_sum d' u' ?p = bag_sum d' u' p - slot_qty d' u' (Some item)
        + slot_qty d' u' (Some (item\<lparr>it_quantity := ?new\<rparr>))"
      using bag_sum_put_slot [OF il] a(2) by simp
    have total: "slots_room d u m (i # is) p = (m - ?old) + slots_room d u m is p"
      by (simp add: slots_room_def here)
    have left: "max 0 n' = max 0 (max 0 n - slots_room d u m (i # is) p)"
      using IH room slots_room_nonneg [of d u m "is" p] old a(1) unfolding total by (simp add: max_def)
    have added: "slot_qty d' u' (Some (item\<lparr>it_quantity := ?new\<rparr>)) - slot_qty d' u' (Some item)
        = (if d' = d \<and> u' = u then ?new - ?old else 0)"
      using a(3) by (auto simp: slot_qty_def)
    have split: "?new - ?old + max 0 ?n = max 0 n" using a(1) old by (simp add: max_def min_def)
    have after: "bag_sum d' u' q = bag_sum d' u' ?p + (if d' = d \<and> u' = u then max 0 ?n - max 0 n' else 0)"
      using IH by blast
    have account: "s = t + (if h then c - e else 0)"
      if "qn - qo = (if h then a else 0)" "a + b = c" "s = v + (if h then b - e else 0)" "v = t - qo + qn"
      for qn qo a b c s v t e :: int and h
      using that by (cases h) auto
    have "bag_sum d' u' q = bag_sum d' u' p + (if d' = d \<and> u' = u then max 0 n - max 0 n' else 0)"
      by (rule account [OF added split after sum])
    moreover have "same_bag q p" using IH same_bag_trans [OF _ same_bag_put_slot] by blast
    moreover have "n' \<le> n" using IH old by simp
    ultimately show ?thesis using IH left by simp
  qed
qed

lemma push_item_simps [simp]:
  "ip_capacity (push_item item p) = ip_capacity p" "ip_is_temporary (push_item item p) = ip_is_temporary p"
  "ip_owner_actor_id (push_item item p) = ip_owner_actor_id p" "ip_code (push_item item p) = ip_code p"
  "ip_end_of_list_index (push_item item p) = ip_end_of_list_index p + 1" "same_bag (push_item item p) p"
  by (simp_all add: push_item_def same_bag_def)

lemma push_item_ok:
  assumes "bag_ok p ob" and "ip_end_of_list_index p < unat (ip_capacity p)"
    and "it_slot item = of_nat (ip_end_of_list_index p)" and "it_item_package item = ip_code p"
  shows "bag_ok (push_item item p) ob"
    and "bag_sum d u (push_item item p) = bag_sum d u p + slot_qty d u (Some item)"
    and "qty_ok p \<Longrightarrow> 0 < it_quantity item \<Longrightarrow> it_quantity item < 2 ^ 31 \<Longrightarrow> qty_ok (push_item item p)"
proof -
  have wf: "bag_wf p" "loose_wf p" using assms(1) by (simp_all add: bag_ok_def bag_wf_def)
  have len: "ip_end_of_list_index p < length (ip_list p)" and none: "ip_list p ! ip_end_of_list_index p = None"
    using wf(2) assms(2) by (auto simp: loose_wf_def)
  show "bag_ok (push_item item p) ob"
    using push_item_wf [OF wf(1) assms(2), of item] push_item_sync [of p ob item] assms loose_dirty [OF wf(2)]
    by (simp add: bag_ok_def fits_slot_def)
  show "bag_sum d u (push_item item p) = bag_sum d u p + slot_qty d u (Some item)"
    using bag_sum_put_slot [OF len, of d u "Some item"] none
    by (simp add: push_item_def bag_sum_def slot_qty_def)
  show "qty_ok (push_item item p)" if "qty_ok p" "0 < it_quantity item" "it_quantity item < 2 ^ 31"
    using qty_ok_put_slot [OF that(1), of "Some item" "ip_end_of_list_index p"] that
    by (simp add: push_item_def qty_ok_def)
qed

lemma spill_ok:
  assumes "bag_ok p ob" and "qty_ok p" and "0 < m" and "m < 2 ^ 31" and "n < 2 ^ 31"
    and "spill d u m n p ob = (r, q, ob')"
  shows "bag_ok q ob' \<and> same_bag q p \<and> qty_ok q
    \<and> r = (if n \<le> int (unat (ip_capacity p) - ip_end_of_list_index p) * m then Ok () else Err InvFull)
    \<and> bag_sum d' u' q = bag_sum d' u' p +
        (if d' = d \<and> u' = u then min (max 0 n) (int (unat (ip_capacity p) - ip_end_of_list_index p) * m) else 0)"
  using assms
proof (induction d u m n p ob rule: spill.induct)
  case (1 d u m n p ob)
  let ?f = "unat (ip_capacity p) - ip_end_of_list_index p"
  have nn: "0 \<le> int ?f * m" using "1.prems"(3) by simp
  consider "n \<le> 0" | "0 < n" "unat (ip_capacity p) \<le> ip_end_of_list_index p"
    | "0 < n" "ip_end_of_list_index p < unat (ip_capacity p)" by linarith
  then show ?case
  proof cases
    case 1
    with nn have "n \<le> int ?f * m" by linarith
    with 1 "1.prems" nn show ?thesis by (simp add: spill.simps)
  next
    case 2
    with "1.prems" show ?thesis by (simp add: spill.simps)
  next
    case a: 3
    let ?k = "min n m"
    let ?item = "spill_item d u ?k p"
    let ?p = "push_item ?item p"
    let ?ob = "if ip_is_temporary p then ob else ob @ [DbAdd (ip_owner_actor_id p) ?item (ip_code p) (it_slot ?item)]"
    have k: "0 < ?k" "?k < 2 ^ 31" "?k \<le> n" using a(1) "1.prems"(3,4) by auto
    have wrap: "i32_wrap (n - ?k) = n - ?k" by (rule i32_diff) (use k "1.prems"(5) a(1) in linarith)+
    have fields: "it_slot ?item = of_nat (ip_end_of_list_index p)" "it_item_package ?item = ip_code p"
      "it_quantity ?item = ?k" "it_item_id ?item = d" "it_quality ?item = u"
      by (simp_all add: spill_item_def)
    note push = push_item_ok [OF "1.prems"(1) a(2) fields(1,2)]
    have rest: "spill d u m (n - ?k) ?p ?ob = (r, q, ob')"
      using "1.prems"(6) a by (subst (asm) spill.simps) (simp add: Let_def wrap)
    have ok: "bag_ok ?p ?ob" using push(1) by simp
    have qok: "qty_ok ?p" by (rule push(3) [OF "1.prems"(2)]) (use k fields in simp_all)
    have f: "int ?f * m = m + int (unat (ip_capacity ?p) - ip_end_of_list_index ?p) * m"
      using a(2) by (simp add: of_nat_diff algebra_simps)
    have IH: "bag_ok q ob' \<and> same_bag q ?p \<and> qty_ok q
      \<and> r = (if n - ?k \<le> int (unat (ip_capacity ?p) - ip_end_of_list_index ?p) * m then Ok () else Err InvFull)
      \<and> bag_sum d' u' q = bag_sum d' u' ?p +
          (if d' = d \<and> u' = u then min (max 0 (n - ?k)) (int (unat (ip_capacity ?p) - ip_end_of_list_index ?p) * m) else 0)"
      by (rule "1.IH" [OF a(1) _ refl refl, unfolded wrap, OF _ ok qok _ _ _ rest])
        (use a "1.prems"(3,4,5) k in simp_all)
    let ?g = "int (unat (ip_capacity ?p) - ip_end_of_list_index ?p) * m"
    have g: "0 \<le> ?g" using "1.prems"(3) by simp
    have "(n - ?k \<le> G \<longleftrightarrow> n \<le> m + G) \<and> ?k + min (max 0 (n - ?k)) G = min (max 0 n) (m + G)"
      if "0 \<le> G" for G using that a(1) "1.prems"(3) by (auto simp: min_def max_def)
    from this [OF g, folded f] have fit: "n - ?k \<le> ?g \<longleftrightarrow> n \<le> int ?f * m"
      and part: "?k + min (max 0 (n - ?k)) ?g = min (max 0 n) (int ?f * m)" by blast+
    have "slot_qty d' u' (Some ?item) = (if d' = d \<and> u' = u then ?k else 0)"
      using fields by (auto simp: slot_qty_def)
    then have "bag_sum d' u' q = bag_sum d' u' p + (if d' = d \<and> u' = u then min (max 0 n) (int ?f * m) else 0)"
      using IH push(2) [of d' u'] part by (cases "d' = d \<and> u' = u") auto
    moreover have "same_bag q p" using IH same_bag_trans [OF _ push_item_simps(6)] by blast
    ultimately show ?thesis using IH fit by simp
  qed
qed

lemma map_live_room:
  "sum_list (map (\<lambda>x. slot_room d u m (Some x)) (live xs)) = sum_list (map (slot_room d u m) xs)"
proof (induction xs)
  case (Cons x xs)
  then show ?case by (cases x) (simp_all add: slot_room_def)
qed simp

lemma slots_room_live:
  assumes "loose_wf p"
  shows "slots_room d u m [0..<ip_end_of_list_index p] p
    = sum_list (map (\<lambda>x. slot_room d u m (Some x)) (iter_items p))"
proof -
  have n: "ip_end_of_list_index p \<le> length (ip_list p)" using assms by (simp add: loose_wf_def)
  have "map (\<lambda>i. f (xs ! i)) [0..<n] = map f (take n xs)" if "n \<le> length xs" for f :: "inventory_item option \<Rightarrow> int" and xs n
    using that by (simp add: list_eq_iff_nth_eq)
  from this [OF n] show ?thesis by (simp add: slots_room_def iter_items_def map_live_room)
qed

lemma space_scan_room:
  assumes "0 < n" and "n < 2 ^ 31" and "0 < m" and "m < 2 ^ 31" and "\<forall>item \<in> set items. 0 < it_quantity item"
  shows "space_scan full d u m n items \<longleftrightarrow>
    n \<le> sum_list (map (\<lambda>x. slot_room d u m (Some x)) items) \<or> \<not> full"
  using assms
proof (induction items arbitrary: n)
  case (Cons item items)
  let ?s = "sum_list (map (\<lambda>x. slot_room d u m (Some x)) items)"
  have s: "0 \<le> ?s" by (induction items) (simp_all add: slot_room_nonneg)
  show ?case
  proof (cases "it_item_id item = d \<and> it_quality item = u \<and> it_quantity item < m")
    case False
    then have "slot_room d u m (Some item) = 0" by (auto simp: slot_room_def)
    with False Cons show ?thesis by auto
  next
    case True
    let ?n = "n - (m - it_quantity item)"
    have w: "i32_wrap (m - it_quantity item) = m - it_quantity item" "i32_wrap ?n = ?n"
      using True Cons.prems by (simp_all add: i32_range_def)
    have room: "slot_room d u m (Some item) = m - it_quantity item" using True by (simp add: slot_room_def)
    show ?thesis
    proof (cases "?n \<le> 0")
      case le: True
      with True w room s show ?thesis by simp
    next
      case gt: False
      have "space_scan full d u m ?n items \<longleftrightarrow> ?n \<le> ?s \<or> \<not> full"
        by (rule Cons.IH) (use gt Cons.prems True in auto)
      with True w room gt show ?thesis by auto
    qed
  qed
qed simp

text \<open>The room of a bag for an item: what its partial stacks and its free slots take.\<close>

definition bag_room :: "u32 \<Rightarrow> u8 \<Rightarrow> int \<Rightarrow> item_package \<Rightarrow> int" where
  "bag_room d u max_stack p =
     sum_list (map (\<lambda>item. slot_room d u max_stack (Some item)) (iter_items p))
     + int (unat (ip_capacity p) - ip_end_of_list_index p) * max_stack"

lemma qty_ok_iter: "qty_ok p \<Longrightarrow> item \<in> set (iter_items p) \<Longrightarrow> 0 < it_quantity item \<and> it_quantity item < 2 ^ 31"
  by (auto simp: qty_ok_def iter_items_def List.map_filter_def dest!: in_set_takeD)

lemma max_stack_range:
  assumes "unat (id_stack_size gd) < 2 ^ 31"
  shows "0 < max_stack_of gd \<and> max_stack_of gd < 2 ^ 31"
proof -
  let ?w = "max (id_stack_size gd) 1"
  have u: "unat ?w < 2 ^ 31" "0 < unat ?w"
    using assms by (auto simp: max_def word_le_nat_alt)
  have pos: "0 < int (unat ?w)" using u(2) by (simp only: of_nat_0_less_iff)
  have "int (unat ?w) < int (2 ^ 31)" using u(1) by (rule iffD2 [OF of_nat_less_iff])
  then have lt: "int (unat ?w) < 2 ^ 31" by (simp only: of_nat_power of_nat_numeral)
  then have "uint ?w < 2 ^ 31" by (simp only: uint_nat)
  moreover have "- (2 ^ 31) \<le> uint ?w" by (rule order_trans [OF _ unsigned_greater_eq]) simp
  ultimately have "sint ?w = uint ?w"
    using signed_take_bit_int_eq_self [of 31 "uint ?w"] by (simp add: sint_uint)
  then have "max_stack_of gd = int (unat ?w)" by (simp only: max_stack_of_def uint_nat)
  with pos lt show ?thesis by (simp only:)
qed

lemma is_space_room:
  assumes "bag_ok p ob" and "qty_ok p" and "0 < n" and "n < 2 ^ 31"
    and "catalog d = Some gd" and "unat (id_stack_size gd) < 2 ^ 31"
  shows "is_space_for_add catalog p d n u \<longleftrightarrow>
    n \<le> slots_room d u (max_stack_of gd) [0..<ip_end_of_list_index p] p \<or> \<not> ip_is_full p"
proof -
  have "loose_wf p" using assms(1) by (simp add: bag_ok_def bag_wf_def)
  note m = max_stack_range [OF assms(6)]
  have "space_scan (ip_is_full p) d u (max_stack_of gd) n (iter_items p)
      \<longleftrightarrow> n \<le> sum_list (map (\<lambda>x. slot_room d u (max_stack_of gd) (Some x)) (iter_items p)) \<or> \<not> ip_is_full p"
    by (rule space_scan_room) (use m assms(3,4) qty_ok_iter [OF assms(2)] in auto)
  then show ?thesis by (simp add: is_space_for_add_def assms(5) slots_room_live [OF \<open>loose_wf p\<close>])
qed

text \<open>The body of \<open>add\<close> once the checks have passed.\<close>

lemma ip_add_body:
  assumes "bag_ok p ob" and "qty_ok p" and "0 < n" and "n + m < 2 ^ 31" and "0 < m"
    and "merge_stacks d u m [0..<ip_end_of_list_index p] n p ob = (n1, p1, ob1)"
    and "spill d u m n1 p1 ob1 = (r, q, ob')"
  shows "bag_ok q ob' \<and> same_bag q p \<and> qty_ok q
    \<and> r = (if n \<le> bag_room d u m p then Ok () else Err InvFull)
    \<and> total_quantity q d' u' = total_quantity p d' u' + (if d' = d \<and> u' = u then min n (bag_room d u m p) else 0)"
proof -
  have loose: "loose_wf p" using assms(1) by (simp add: bag_ok_def bag_wf_def)
  let ?R = "slots_room d u m [0..<ip_end_of_list_index p] p"
  let ?F = "int (unat (ip_capacity p) - ip_end_of_list_index p) * m"
  have room: "bag_room d u m p = ?R + ?F" by (simp add: bag_room_def slots_room_live [OF loose])
  have R: "0 \<le> ?R" "0 \<le> ?F" using assms(5) by (simp_all add: slots_room_nonneg)
  have merge: "bag_ok p1 ob1 \<and> same_bag p1 p \<and> ip_end_of_list_index p1 = ip_end_of_list_index p \<and> qty_ok p1 \<and> n1 \<le> n
    \<and> max 0 n1 = max 0 (max 0 n - ?R)
    \<and> bag_sum d' u' p1 = bag_sum d' u' p + (if d' = d \<and> u' = u then max 0 n - max 0 n1 else 0)"
    by (rule merge_stacks_ok [OF assms(1) _ _ assms(2,5,4,6)]) simp_all
  then have same: "unat (ip_capacity p1) - ip_end_of_list_index p1 = unat (ip_capacity p) - ip_end_of_list_index p"
    by (simp add: same_bag_def)
  have spill: "bag_ok q ob' \<and> same_bag q p1 \<and> qty_ok q \<and> r = (if n1 \<le> ?F then Ok () else Err InvFull)
    \<and> bag_sum d' u' q = bag_sum d' u' p1 + (if d' = d \<and> u' = u then min (max 0 n1) ?F else 0)"
    using spill_ok [of p1 ob1 m n1 d u r q ob' d' u'] merge assms unfolding same by simp
  have "n1 \<le> F \<longleftrightarrow> n \<le> S + F" and "max 0 n - max 0 n1 + min (max 0 n1) F = min n (S + F)"
    if "max 0 n1 = max 0 (max 0 n - S)" "0 \<le> S" "0 \<le> F" for S F
    using that assms(3) by linarith+
  from this [OF _ R] merge have fit: "n1 \<le> ?F \<longleftrightarrow> n \<le> bag_room d u m p"
    and part: "max 0 n - max 0 n1 + min (max 0 n1) ?F = min n (bag_room d u m p)"
    by (simp_all add: room)
  have q: "loose_wf q" using spill by (simp add: bag_ok_def bag_wf_def)
  have "bag_sum d' u' q = bag_sum d' u' p + (if d' = d \<and> u' = u then min n (bag_room d u m p) else 0)"
  proof -
    have account: "s = t + (if h then e else 0)"
      if "v = t + (if h then a - b else 0)" "s = v + (if h then c else 0)" "a - b + c = e"
      for s t v a b c e :: int and h
      using that by (cases h) auto
    have "bag_sum d' u' p1 = bag_sum d' u' p + (if d' = d \<and> u' = u then max 0 n - max 0 n1 else 0)"
      "bag_sum d' u' q = bag_sum d' u' p1 + (if d' = d \<and> u' = u then min (max 0 n1) ?F else 0)"
      using merge spill by blast+
    then show ?thesis by (rule account [OF _ _ part])
  qed
  moreover have "same_bag q p" using merge spill same_bag_trans by blast
  ultimately show ?thesis
    using spill fit by (simp add: total_quantity_sum [OF loose] total_quantity_sum [OF q])
qed

text \<open>Every call of \<open>add\<close>: what it returns, and what it does to the quantities.\<close>

lemma ip_add_spec:
  assumes "bag_ok p ob" and "qty_ok p" and "0 < n" and "n + max_stack_of gd < 2 ^ 31"
    and "catalog d = Some gd" and "unat (id_stack_size gd) < 2 ^ 31"
    and "ip_add catalog d n u p ob = (r, q, ob')"
  defines "room \<equiv> bag_room d u (max_stack_of gd) p"
    and "allowed \<equiv> \<not> (id_is_exclusive gd \<and> has_item p d)"
  shows "bag_ok q ob' \<and> same_bag q p \<and> qty_ok q \<and> (r = Ok () \<longleftrightarrow> n \<le> room \<and> allowed)
    \<and> (r = Ok () \<longrightarrow> (\<not> ip_holding_updates p \<longrightarrow> mirrored q ob')
         \<and> (\<forall>d' u'. total_quantity q d' u' = total_quantity p d' u' + (if d' = d \<and> u' = u then n else 0)))
    \<and> (r \<noteq> Ok () \<longrightarrow> (q = p \<and> ob' = ob \<and> (r = Err InvFull \<and> ip_is_full p \<or> r = Err InvHasUnique \<and> \<not> allowed))
         \<or> (r = Err InvFull \<and> \<not> ip_is_full p
            \<and> (\<forall>d' u'. total_quantity q d' u' = total_quantity p d' u' + (if d' = d \<and> u' = u then room else 0))))"
proof -
  let ?m = "max_stack_of gd"
  note m = max_stack_range [OF assms(6)]
  have loose: "loose_wf p" using assms(1) by (simp add: bag_ok_def bag_wf_def)
  have n: "n < 2 ^ 31" using assms(4) m by linarith
  let ?R = "slots_room d u ?m [0..<ip_end_of_list_index p] p"
  have room: "room = ?R + int (unat (ip_capacity p) - ip_end_of_list_index p) * ?m"
    by (simp add: room_def bag_room_def slots_room_live [OF loose])
  note space = is_space_room [of p ob n catalog d gd u, OF assms(1,2,3) n assms(5,6)]
  consider "\<not> is_space_for_add catalog p d n u" | "is_space_for_add catalog p d n u" "\<not> allowed"
    | "is_space_for_add catalog p d n u" allowed by blast
  then show ?thesis
  proof cases
    case 1
    then have "\<not> n \<le> room" "ip_is_full p" using space room by (simp_all add: ip_is_full_def)
    with 1 assms(1-5,7) show ?thesis by (auto simp: ip_add_def)
  next
    case 2
    then show ?thesis using assms(1-5,7) by (auto simp: ip_add_def allowed_def)
  next
    case 3
    obtain n1 p1 ob1 where merge: "merge_stacks d u ?m [0..<ip_end_of_list_index p] n p ob = (n1, p1, ob1)"
      using prod_cases3 by blast
    obtain r2 p2 ob2 where spill: "spill d u ?m n1 p1 ob1 = (r2, p2, ob2)" using prod_cases3 by blast
    note body = ip_add_body [OF assms(1-4) conjunct1 [OF m] merge spill, folded room_def]
    have run: "ip_add catalog d n u p ob = (case (r2, p2, ob2) of
        (Ok u, p, ob) \<Rightarrow> (case bracketed_send_update p ob of (p, ob) \<Rightarrow> (Ok (), p, ob)) | r \<Rightarrow> r)"
      using assms(3,5) 3 merge spill by (auto simp: ip_add_def allowed_def)
    show ?thesis
    proof (cases "n \<le> room")
      case True
      then have "r2 = Ok ()" using body by simp
      with run assms(7) have b: "bracketed_send_update p2 ob2 = (q, ob')" and r: "r = Ok ()"
        by (auto split: prod.splits)
      have ok: "bag_ok p2 ob2" and hold: "ip_holding_updates p2 = ip_holding_updates p"
        using body by (auto simp: same_bag_def)
      note sent = bracketed_ok [OF ok b]
      have eq: "total_quantity q d' u' = total_quantity p2 d' u'" for d' u'
        using sent same_content_qty [of q p2] by simp
      have "qty_ok q" using sent body by (simp add: qty_ok_def)
      with sent body True r hold 3 eq same_bag_trans show ?thesis by (auto simp: min_absorb1)
    next
      case False
      then have "r2 = Err InvFull" using body by simp
      with run assms(7) have q: "q = p2" "ob' = ob2" "r = Err InvFull" by simp_all
      have "\<not> ip_is_full p"
      proof
        assume full: "ip_is_full p"
        then have "n \<le> ?R" using 3 space by simp
        moreover have "0 \<le> int (unat (ip_capacity p) - ip_end_of_list_index p) * ?m"
          by (rule mult_nonneg_nonneg) (use m in simp_all)
        ultimately show False using False room by linarith
      qed
      with q body False show ?thesis by (auto simp: min_absorb2)
    qed
  qed
qed

section \<open>Every operation keeps the bag in order\<close>

lemma merge_stacks_keeps:
  assumes "bag_ok p ob" and "\<forall>i \<in> set is. i < ip_end_of_list_index p"
    and "merge_stacks d u m is n p ob = (n', q, ob')"
  shows "bag_ok q ob' \<and> same_bag q p"
  using assms
proof (induction d u m "is" n p ob rule: merge_stacks.induct)
  case (2 d u m i "is" n p ob)
  have i: "i < ip_end_of_list_index p" using "2.prems"(2) by simp
  show ?case
  proof (cases "n \<le> 0 \<or> ip_list p ! i = None \<or> (\<exists>item. ip_list p ! i = Some item \<and>
      (it_item_id item \<noteq> d \<or> it_quality item \<noteq> u \<or> m \<le> it_quantity item))")
    case True
    with 2 show ?thesis by (auto split: if_splits)
  next
    case False
    then obtain item where a: "\<not> n \<le> 0" "ip_list p ! i = Some item"
      "\<not> (it_item_id item \<noteq> d \<or> it_quality item \<noteq> u \<or> m \<le> it_quantity item)" by auto
    let ?new = "min (i32_wrap (it_quantity item + n)) m"
    let ?p = "put_slot i (Some (item\<lparr>it_quantity := ?new\<rparr>)) p"
    let ?ob = "if ip_is_temporary p then ob else ob @ [DbQuantity (it_unique_id item) ?new]"
    have "loose_wf p" using "2.prems"(1) by (simp add: bag_ok_def bag_wf_def)
    then have "bag_ok ?p ob"
      by (intro put_slot_bag_ok [OF "2.prems"(1) i] loose_slot_fits [OF _ i a(2)])
    then have ok: "bag_ok ?p ?ob" by simp
    have rest: "merge_stacks d u m is (i32_wrap (n - i32_wrap (m - it_quantity item))) ?p ?ob = (n', q, ob')"
      using "2.prems"(3) a by (simp add: Let_def)
    have "bag_ok q ob' \<and> same_bag q ?p"
      by (rule "2.IH"(3) [OF a refl refl refl ok _ rest]) (use "2.prems"(2) in simp)
    then show ?thesis using same_bag_trans [OF _ same_bag_put_slot] by blast
  qed
qed simp

lemma spill_keeps:
  assumes "bag_ok p ob" and "spill d u m n p ob = (r, q, ob')"
  shows "bag_ok q ob' \<and> same_bag q p \<and> (r = Ok () \<or> r = Err InvFull)"
  using assms
proof (induction d u m n p ob rule: spill.induct)
  case (1 d u m n p ob)
  show ?case
  proof (cases "0 < n \<and> ip_end_of_list_index p < unat (ip_capacity p)")
    case False
    with "1.prems" show ?thesis by (auto simp: spill.simps split: if_splits)
  next
    case True
    let ?item = "spill_item d u (min n m) p"
    let ?ob = "if ip_is_temporary p then ob else ob @ [DbAdd (ip_owner_actor_id p) ?item (ip_code p) (it_slot ?item)]"
    have "bag_ok (push_item ?item p) ob"
      by (rule push_item_ok(1) [OF "1.prems"(1)]) (use True in \<open>simp_all add: spill_item_def\<close>)
    then have ok: "bag_ok (push_item ?item p) ?ob" by simp
    have rest: "spill d u m (i32_wrap (n - min n m)) (push_item ?item p) ?ob = (r, q, ob')"
      using "1.prems"(2) True by (subst (asm) spill.simps) (simp add: Let_def)
    have "bag_ok q ob' \<and> same_bag q (push_item ?item p) \<and> (r = Ok () \<or> r = Err InvFull)"
      by (rule "1.IH" [OF _ _ refl refl ok rest]) (use True in auto)
    then show ?thesis using same_bag_trans [OF _ push_item_simps(6)] by blast
  qed
qed

lemma ip_add_keeps:
  assumes "bag_ok p ob" and "ip_add catalog d n u p ob = (r, q, ob')"
  shows "bag_ok q ob' \<and> same_bag q p \<and> r \<noteq> Panic"
proof (cases "n \<le> 0 \<or> \<not> is_space_for_add catalog p d n u \<or> catalog d = None
    \<or> (\<exists>gd. catalog d = Some gd \<and> id_is_exclusive gd \<and> has_item p d)")
  case True
  with assms show ?thesis by (auto simp: ip_add_def split: if_splits option.splits)
next
  case False
  then obtain gd where gd: "catalog d = Some gd" by auto
  obtain n1 p1 ob1 where merge: "merge_stacks d u (max_stack_of gd) [0..<ip_end_of_list_index p] n p ob = (n1, p1, ob1)"
    using prod_cases3 by blast
  obtain r2 p2 ob2 where spill: "spill d u (max_stack_of gd) n1 p1 ob1 = (r2, p2, ob2)" using prod_cases3 by blast
  have m: "bag_ok p1 ob1 \<and> same_bag p1 p" by (rule merge_stacks_keeps [OF assms(1) _ merge]) simp
  then have s: "bag_ok p2 ob2 \<and> same_bag p2 p1 \<and> (r2 = Ok () \<or> r2 = Err InvFull)"
    using spill_keeps [OF _ spill] by blast
  have run: "ip_add catalog d n u p ob = (case (r2, p2, ob2) of
      (Ok u, p, ob) \<Rightarrow> (case bracketed_send_update p ob of (p, ob) \<Rightarrow> (Ok (), p, ob)) | r \<Rightarrow> r)"
    using False gd merge spill by (auto simp: ip_add_def)
  have "same_bag p2 p" using m s same_bag_trans by blast
  moreover have "bag_ok q' ob'' \<and> same_bag q' p2" if "bracketed_send_update p2 ob2 = (q', ob'')" for q' ob''
    using bracketed_ok [OF _ that] s by simp
  ultimately show ?thesis
    using run assms(2) s same_bag_trans by (auto split: prod.splits)
qed

lemma ip_add_existing_keeps:
  assumes "bag_ok p ob" and "ip_add_existing catalog item p ob = (r, q, ob')" and "r \<noteq> Panic"
  shows "bag_ok q ob' \<and> same_bag q p"
proof -
  let ?item = "item\<lparr>it_item_package := ip_code p, it_slot := of_nat (ip_end_of_list_index p)\<rparr>"
  let ?ob = "if ip_is_temporary p then ob else ob @ [DbAdd (ip_owner_actor_id p) ?item (ip_code p) (it_slot ?item)]"
  have len: "length (ip_is_dirty p) = unat (ip_capacity p)"
    using assms(1) by (simp add: bag_ok_def bag_wf_def loose_wf_def)
  have push: "bag_ok q ob' \<and> same_bag q p"
    if "bracketed_send_update (push_item ?item p) ?ob = (q, ob')" "ip_end_of_list_index p < unat (ip_capacity p)"
  proof -
    have "bag_ok (push_item ?item p) ob" by (rule push_item_ok(1) [OF assms(1) that(2)]) simp_all
    then have "bag_ok (push_item ?item p) ?ob" by simp
    from bracketed_ok [OF this that(1)] show ?thesis using same_bag_trans [OF _ push_item_simps(6)] by blast
  qed
  show ?thesis
    using assms ip_add_keeps [OF assms(1)] push len
    by (auto simp: ip_add_existing_def Let_def not_le split: if_splits option.splits prod.splits)
qed

lemma mark_dirty_slot_ok: "bag_ok p ob \<Longrightarrow> bag_ok (mark_dirty_slot s p) ob \<and> same_bag (mark_dirty_slot s p) p"
proof -
  assume ok: "bag_ok p ob"
  then have len: "length (ip_is_dirty p) = unat (ip_capacity p)"
    by (simp add: bag_ok_def bag_wf_def loose_wf_def)
  have "in_sync (mark_dirty_slot s p) ob"
    unfolding in_sync_def
  proof (intro allI impI)
    fix j assume j: "j < unat (ip_capacity (mark_dirty_slot s p))" "\<not> ip_is_dirty (mark_dirty_slot s p) ! j"
    then have "j \<noteq> unat s" using len by (auto simp: mark_dirty_slot_def)
    with j ok show "shown (mark_dirty_slot s p) ob j = ip_list (mark_dirty_slot s p) ! j"
      by (simp add: mark_dirty_slot_def bag_ok_def in_sync_def shown_def)
  qed
  with ok show ?thesis
    by (simp add: mark_dirty_slot_def bag_ok_def bag_wf_def loose_wf_def same_bag_def)
qed

lemma init_slots_layout:
  assumes "length xs = unat (c :: u16)"
  shows "length (init_slots code (unat c) i items xs) = unat c
    \<and> (\<forall>j < unat c. init_slots code (unat c) i items xs ! j =
        (if i \<le> j \<and> j < i + length items then Some ((items ! (j - i))\<lparr>it_slot := of_nat j, it_item_package := code\<rparr>)
         else xs ! j))"
  using assms
proof (induction items arbitrary: i xs)
  case (Cons item items)
  show ?case
  proof (cases "unat c \<le> i")
    case False
    let ?xs = "xs[i := Some (item\<lparr>it_slot := of_nat i, it_item_package := code\<rparr>)]"
    have "length ?xs = unat c" using Cons.prems by simp
    from Cons.IH [OF this, of "i + 1"] False Cons.prems show ?thesis
      by (auto simp: nth_Cons' Suc_le_eq le_less)
  qed (use Cons.prems in auto)
qed auto

lemma first_none_end:
  "(case first_none xs of Some i \<Rightarrow> i | None \<Rightarrow> length xs) = length (takeWhile (\<lambda>x. x \<noteq> None) xs)"
  using length_takeWhile_le [of "\<lambda>x. x \<noteq> None" xs] by (auto simp: first_none_def Let_def)

lemma takeWhile_before: "j < length (takeWhile P xs) \<Longrightarrow> P (xs ! j)"
  by (metis nth_mem set_takeWhileD takeWhile_nth)

text \<open>Loading rows and showing the bag, as at login.\<close>

lemma ip_init_wf:
  assumes "bag_wf p"
  shows "bag_wf (ip_init items p) \<and> same_bag (ip_init items p) p
    \<and> (\<forall>i. ip_end_of_list_index (ip_init items p) \<le> i \<longrightarrow> i < unat (ip_capacity p) \<longrightarrow>
         ip_list (ip_init items p) ! i = None \<and> ip_list p ! i = None)"
proof -
  let ?c = "unat (ip_capacity p)" and ?e = "ip_end_of_list_index p"
  let ?xs = "init_slots (ip_code p) ?c 0 items (ip_list p)"
  have p: "length (ip_list p) = ?c" "length (ip_is_dirty p) = ?c" "?e \<le> ?c"
    "\<forall>i < ?e. \<exists>item. ip_list p ! i = Some item \<and> it_slot item = of_nat i \<and> it_item_package item = ip_code p"
    "\<forall>i. ?e \<le> i \<longrightarrow> i < ?c \<longrightarrow> ip_list p ! i = None"
  proof -
    have "loose_wf p" and packed: "\<forall>i < ?e. ip_list p ! i \<noteq> None" using assms by (simp_all add: bag_wf_def)
    then show "length (ip_list p) = ?c" "length (ip_is_dirty p) = ?c" "?e \<le> ?c"
      "\<forall>i. ?e \<le> i \<longrightarrow> i < ?c \<longrightarrow> ip_list p ! i = None"
      by (simp_all add: loose_wf_def)
    show "\<forall>i < ?e. \<exists>item. ip_list p ! i = Some item \<and> it_slot item = of_nat i \<and> it_item_package item = ip_code p"
    proof (intro allI impI)
      fix i assume i: "i < ?e"
      with packed obtain item where "ip_list p ! i = Some item" by auto
      with i \<open>loose_wf p\<close> show "\<exists>item. ip_list p ! i = Some item \<and> it_slot item = of_nat i \<and> it_item_package item = ip_code p"
        by (simp add: loose_wf_def)
    qed
  qed
  have len: "length ?xs = ?c"
    and at: "\<And>j. j < ?c \<Longrightarrow> ?xs ! j = (if j < length items
      then Some ((items ! j)\<lparr>it_slot := of_nat j, it_item_package := ip_code p\<rparr>) else ip_list p ! j)"
    using init_slots_layout [OF p(1), of "ip_code p" 0 items] by auto
  have some: "?xs ! j = None \<longleftrightarrow> length items \<le> j \<and> ?e \<le> j" if "j < ?c" for j
  proof (cases "j < ?e")
    case True
    with p(4) obtain item where "ip_list p ! j = Some item" by blast
    with at [OF that] True show ?thesis by simp
  next
    case False
    with p(5) that have "ip_list p ! j = None" by simp
    with at [OF that] False show ?thesis by simp
  qed
  let ?n = "length (takeWhile (\<lambda>x. x \<noteq> None) ?xs)"
  have n: "?n \<le> ?c" using length_takeWhile_le [of "\<lambda>x. x \<noteq> None" ?xs] len by simp
  have before: "?xs ! j \<noteq> None" if "j < ?n" for j
    using takeWhile_before [OF that] by simp
  have after: "length items \<le> j \<and> ?e \<le> j" if "?n \<le> j" "j < ?c" for j
  proof -
    have "?n < length ?xs" using that len by simp
    then have "?xs ! ?n = None" using nth_length_takeWhile by blast
    with some [of ?n] that show ?thesis by simp
  qed
  have "ip_end_of_list_index (ip_init items p) = (case first_none ?xs of Some i \<Rightarrow> i | None \<Rightarrow> ?c)"
    by (simp add: ip_init_def Let_def)
  then have endi: "ip_end_of_list_index (ip_init items p) = ?n"
    using first_none_end [of ?xs] by (simp only: len)
  have sel: "ip_list (ip_init items p) = ?xs" "ip_is_dirty (ip_init items p) = ip_is_dirty p"
    "ip_capacity (ip_init items p) = ip_capacity p" "ip_code (ip_init items p) = ip_code p"
    by (simp_all add: ip_init_def Let_def)
  have slots: "it_slot item = of_nat j \<and> it_item_package item = ip_code p" if "j < ?n" "?xs ! j = Some item" for j item
  proof -
    have "j < ?c" using that n by simp
    note at = at [OF this]
    show ?thesis
    proof (cases "j < length items")
      case True
      with at that(2) show ?thesis by auto
    next
      case False
      then have eq: "ip_list p ! j = Some item" using at that(2) by simp
      with p(5) \<open>j < ?c\<close> have "j < ?e" by (metis not_le option.distinct(1))
      with p(4) eq show ?thesis by auto
    qed
  qed
  have "bag_wf (ip_init items p)"
    unfolding bag_wf_def loose_wf_def endi sel
  proof (intro conjI allI impI)
    fix i assume i: "?n \<le> i" "i < ?c"
    then show "?xs ! i = None" using after [OF i] some [OF i(2)] by blast
  qed (use len p(2) n before slots in auto)
  moreover have "same_bag (ip_init items p) p" by (simp add: ip_init_def Let_def same_bag_def)
  moreover have "?xs ! i = None \<and> ip_list p ! i = None" if "?n \<le> i" "i < ?c" for i
    using after [OF that] some [OF that(2)] p(5) that(2) by blast
  ultimately show ?thesis unfolding endi sel by blast
qed

lemma send_full_sync:
  assumes "bag_wf q" and "\<forall>i. ip_end_of_list_index q \<le> i \<longrightarrow> i < unat (ip_capacity q) \<longrightarrow> \<not> ip_is_dirty q ! i \<longrightarrow> shown q ob i = None"
  shows "in_sync q (send_full q ob)"
  unfolding in_sync_def
proof (intro allI impI)
  fix i assume i: "i < unat (ip_capacity q)" "\<not> ip_is_dirty q ! i"
  let ?o = "ip_owner_actor_id q"
  have loose: "loose_wf q" using assms(1) by (simp add: bag_wf_def)
  have ob: "send_full q ob = ob @ [PacketSetBegin ?o (ip_capacity q) (ip_code q)]
      @ (if iter_items q = [] then [] else [PacketItems ?o (iter_items q), PacketModifierFrame ?o (iter_items q)])
      @ [PacketSetEnd ?o]"
    by (simp add: send_full_def Let_def)
  have shown: "shown q (send_full q ob) i = show_items (iter_items q) (shown q ob) i"
    by (simp only: ob client_of_append shown_def foldl_append client_items foldl_Cons foldl_Nil)
      (simp add: in_open_bag_def shown_def [abs_def])
  have in_iter: "item \<in> set (iter_items q) \<longleftrightarrow> (\<exists>j < ip_end_of_list_index q. ip_list q ! j = Some item)" for item
  proof -
    have "ip_end_of_list_index q \<le> length (ip_list q)" using loose by (simp add: loose_wf_def)
    then show ?thesis by (force simp: iter_items_def List.map_filter_def in_set_conv_nth image_iff)
  qed
  have uniq: "j = i" if "ip_list q ! j = Some item" "unat (it_slot item) = i" "j < ip_end_of_list_index q" for j item
    using slot_of_live [OF loose that(3,1)] that(2) by simp
  show "shown q (send_full q ob) i = ip_list q ! i"
  proof (cases "i < ip_end_of_list_index q")
    case True
    then obtain item where item: "ip_list q ! i = Some item" using assms(1) by (auto simp: bag_wf_def)
    have "show_items (iter_items q) (shown q ob) i = Some item"
    proof (rule show_items_slot)
      show "item \<in> set (iter_items q)" using True item in_iter by blast
      show "unat (it_slot item) = i" by (rule slot_of_live [OF loose True item])
      fix item' assume "item' \<in> set (iter_items q)" and s: "unat (it_slot item') = i"
      then obtain j where j: "j < ip_end_of_list_index q" "ip_list q ! j = Some item'" using in_iter by blast
      then have "j = i" using uniq s by blast
      with j item show "item' = item" by simp
    qed
    with shown item show ?thesis by simp
  next
    case False
    then have "show_items (iter_items q) (shown q ob) i = shown q ob i"
      by (intro show_items_other) (use uniq in_iter in auto)
    moreover have "ip_list q ! i = None" using False loose i by (simp add: loose_wf_def)
    ultimately show ?thesis using shown assms(2) False i by simp
  qed
qed

lemma load_ok:
  assumes "bag_ok p ob"
  shows "bag_ok (ip_init items p) (send_full (ip_init items p) ob)"
proof -
  let ?q = "ip_init items p"
  have p: "bag_wf p" "in_sync p ob" using assms by (simp_all add: bag_ok_def)
  note q = ip_init_wf [OF p(1), of items]
  have sel: "ip_is_dirty ?q = ip_is_dirty p" "ip_capacity ?q = ip_capacity p" "shown ?q ob i = shown p ob i" for i
    using q by (simp_all add: ip_init_def Let_def shown_def)
  have "in_sync ?q (send_full ?q ob)"
    by (rule send_full_sync) (use q p(2) in \<open>auto simp: sel in_sync_def\<close>)
  with q show ?thesis by (simp add: bag_ok_def)
qed

section \<open>Reachable bags\<close>

text \<open>One step of a bag and its outbox: any public operation that returns.\<close>

inductive bag_step ::
    "item_catalog \<Rightarrow> item_package \<times> inventory_outbox \<Rightarrow> item_package \<times> inventory_outbox \<Rightarrow> bool"
  for catalog where
  step_load: "bag_step catalog (p, ob) (ip_init items p, send_full (ip_init items p) ob)"
| step_add: "ip_add catalog d n u p ob = (r, q, ob') \<Longrightarrow> bag_step catalog (p, ob) (q, ob')"
| step_add_existing: "ip_add_existing catalog item p ob = (r, q, ob') \<Longrightarrow> r \<noteq> Panic \<Longrightarrow> bag_step catalog (p, ob) (q, ob')"
| step_remove: "bag_step catalog (p, ob) (ip_remove d n u p ob)"
| step_remove_item: "bag_step catalog (p, ob) (remove_item item p ob)"
| step_remove_unique: "bag_step catalog (p, ob) (remove_by_unique_id k n p ob)"
| step_remove_slot: "bag_step catalog (p, ob) (remove_at_slot s p ob)"
| step_remove_slot_qty: "bag_step catalog (p, ob) (remove_at_slot_qty s n p ob)"
| step_clear: "bag_step catalog (p, ob) (ip_clear p ob)"
| step_mark_slot: "bag_step catalog (p, ob) (mark_dirty_slot s p, ob)"
| step_mark: "bag_step catalog (p, ob) (mark_dirty item p, ob)"
| step_hold: "bag_step catalog (p, ob) (start_send_update p, ob)"
| step_release: "bag_step catalog (p, ob) (done_send_update p ob)"
| step_send: "bag_step catalog (p, ob) (send_update p ob)"
| step_send_full: "bag_step catalog (p, ob) (p, send_full p ob)"

lemma bag_ok_new: "bag_ok (ip_with_flags o' c k t) []"
  by (simp add: bag_ok_def bag_wf_def loose_wf_def in_sync_def shown_def client_of_def ip_with_flags_def)

lemma hold_ok: "bag_ok (p\<lparr>ip_holding_updates := b\<rparr>) ob = bag_ok p ob"
  by (simp add: bag_ok_def bag_wf_def loose_wf_def in_sync_def shown_def)

lemma send_full_ok: "bag_ok p ob \<Longrightarrow> bag_ok p (send_full p ob)"
  using send_full_sync [of p ob] by (simp add: bag_ok_def bag_wf_def loose_wf_def in_sync_def)

lemma done_send_update_ok:
  assumes "bag_ok p ob" and "done_send_update p ob = (q, ob')"
  shows "bag_ok q ob' \<and> mirrored q ob'"
proof -
  let ?p = "p\<lparr>ip_holding_updates := False\<rparr>"
  obtain q1 where s: "send_update ?p ob = (q1, ob')" and q: "q = clear_dirty q1"
    using assms(2) by (auto simp: done_send_update_def split: prod.splits)
  have ok: "bag_ok ?p ob" using assms(1) by (simp add: hold_ok)
  have "mirrored q1 ob'" by (rule send_update_mirrors [OF _ _ _ s]) (use ok in \<open>simp_all add: bag_ok_def\<close>)
  then have "mirrored q ob'" by (simp add: q mirrored_def shown_def)
  with send_update_ok [OF ok s] show ?thesis by (simp add: q bag_ok_def mirrored_in_sync)
qed

lemma bag_step_ok:
  assumes "bag_step catalog (p, ob) (q, ob')" and "bag_ok p ob"
  shows "bag_ok q ob'"
  using assms
proof (cases rule: bag_step.cases)
  case step_load
  with assms(2) load_ok show ?thesis by auto
next
  case step_send_full
  with assms(2) send_full_ok show ?thesis by auto
next
  case step_mark
  with assms(2) mark_dirty_slot_ok show ?thesis by (auto simp: mark_dirty_def)
next
  case step_hold
  with assms(2) show ?thesis by (simp add: start_send_update_def hold_ok)
qed (use assms(2) ip_add_keeps ip_add_existing_keeps ip_remove_ok remove_item_ok remove_by_unique_id_ok
    remove_at_slot_ok remove_at_slot_qty_ok ip_clear_ok mark_dirty_slot_ok done_send_update_ok send_update_ok in metis)+



lemma bag_ok_fresh [simp]: "bag_ok (ip_with_flags w c k t) []" "qty_ok (ip_with_flags w c k t)"
  using bag_ok_new by (auto simp: qty_ok_def ip_with_flags_def)

text \<open>
  C3: Every call of \<open>add\<close> for a known item. It succeeds exactly when the quantity fits the room of the
  bag (partial stacks and free slots) and the item is not an exclusive one already held; then exactly
  the requested quantity of exactly that item appears and, unless updates are held, the client shows
  the bag as it is. A refusal leaves bag and outbox as they were, except one: on a bag with a free slot
  and too little room, \<open>add\<close> fills all the room and then returns \<open>Full\<close>.
\<close>

theorem bag_add_exact:
  assumes "bag_ok p ob" and "qty_ok p" and "0 < n" and "n + max_stack_of gd < 2 ^ 31"
    and "catalog d = Some gd" and "unat (id_stack_size gd) < 2 ^ 31"
    and "ip_add catalog d n u p ob = (r, q, ob')"
  defines "room \<equiv> bag_room d u (max_stack_of gd) p"
    and "allowed \<equiv> \<not> (id_is_exclusive gd \<and> has_item p d)"
  shows "bag_ok q ob' \<and> same_bag q p \<and> qty_ok q \<and> (r = Ok () \<longleftrightarrow> n \<le> room \<and> allowed)
    \<and> (r = Ok () \<longrightarrow> (\<not> ip_holding_updates p \<longrightarrow> mirrored q ob')
         \<and> (\<forall>d' u'. total_quantity q d' u' = total_quantity p d' u' + (if d' = d \<and> u' = u then n else 0)))
    \<and> (r \<noteq> Ok () \<longrightarrow> (q = p \<and> ob' = ob \<and> (r = Err InvFull \<and> ip_is_full p \<or> r = Err InvHasUnique \<and> \<not> allowed))
         \<or> (r = Err InvFull \<and> \<not> ip_is_full p
            \<and> (\<forall>d' u'. total_quantity q d' u' = total_quantity p d' u' + (if d' = d \<and> u' = u then room else 0))))"
  using ip_add_spec [OF assms(1-7)] unfolding room_def allowed_def .

theorem bag_add_exact_witness:
  "\<exists>q ob'. ip_add (\<lambda>_. Some \<lparr>id_stack_size = 10, id_is_exclusive = False\<rparr>) 5 15 1 (ip_new 7 1 PKG_NORMAL) []
      = (Err InvFull, q, ob') \<and> total_quantity q 5 1 = 10"
proof -
  let ?cat = "\<lambda>_. Some \<lparr>id_stack_size = 10, id_is_exclusive = False\<rparr>" and ?p = "ip_new 7 1 PKG_NORMAL"
  let ?gd = "\<lparr>id_stack_size = 10, id_is_exclusive = False\<rparr>"
  obtain r q ob' where run: "ip_add ?cat 5 15 1 ?p [] = (r, q, ob')" using prod_cases3 by blast
  have p: "bag_ok ?p []" "qty_ok ?p" by (simp_all add: ip_new_def)
  have m: "max_stack_of ?gd = 10" by (simp add: max_stack_of_def)
  have room: "bag_room 5 1 10 ?p = 10" and full: "\<not> ip_is_full ?p" and zero: "total_quantity ?p 5 1 = 0"
    by (simp_all add: bag_room_def ip_new_def ip_with_flags_def iter_items_def total_quantity_def ip_is_full_def)
  have "r \<noteq> Ok ()" and "r = Err InvFull" and "total_quantity q 5 1 = 10"
    using bag_add_exact [OF p, of 15 ?gd ?cat 5 1 r q ob'] run zero full by (simp_all add: m room)
  with run show ?thesis by simp
qed

text \<open>
  C4: Removing a quantity that the bag holds removes exactly it, over as many stacks as it takes, and
  touches no other item; a request for more than the bag holds changes nothing and emits nothing.
\<close>

theorem bag_remove_exact:
  assumes "bag_ok p ob" and "qty_ok p" and "n < 2 ^ 31" and "ip_remove d n u p ob = (q, ob')"
  shows "if total_quantity p d u < n then q = p \<and> ob' = ob
    else bag_ok q ob' \<and> (\<not> ip_holding_updates p \<longrightarrow> mirrored q ob')
      \<and> (\<forall>d' u'. total_quantity q d' u' = total_quantity p d' u' - (if d' = d \<and> u' = u then max 0 n else 0))"
proof (cases "total_quantity p d u < n")
  case True
  with assms(4) show ?thesis by (simp add: ip_remove_def has_item_qq_def)
next
  case False
  have loose: "loose_wf p" using assms(1) by (simp add: bag_ok_def bag_wf_def)
  let ?is = "rev [0..<ip_end_of_list_index p]"
  obtain p1 ob1 where l: "remove_loop d u ?is n p ob = (p1, ob1)" by fastforce
  note bl = bag_ok_loose [OF assms(1)]
  have p1: "bag_loose p1 ob1 \<and> same_bag p1 p" by (rule remove_loop_ok [OF bl _ l]) simp
  have sums: "bag_sum d' u' p1 = bag_sum d' u' p - (if d' = d \<and> u' = u then max 0 n else 0)" for d' u'
    by (rule remove_loop_qty [OF bl _ _ assms(2,3) _ l]) (use False in \<open>simp_all add: slots_sum_all [OF loose]\<close>)
  have s: "realign_and_send p1 ob1 = (q, ob')"
    using assms(4) False l by (simp add: ip_remove_def has_item_qq_def)
  have loose1: "loose_wf p1" using p1 by (simp add: bag_loose_def)
  have "total_quantity q d' u' = total_quantity p d' u' - (if d' = d \<and> u' = u then max 0 n else 0)" for d' u'
    using realign_and_send_ok [OF conjunct1 [OF p1] s, of d' u'] sums [of d' u']
    by (simp add: total_quantity_sum [OF loose] total_quantity_sum [OF loose1])
  then show ?thesis
    using False p1 realign_and_send_ok [OF conjunct1 [OF p1] s] by (auto simp: same_bag_def)
qed

text \<open>
  C5: \<open>remove_at_slot\<close> of a live slot is deletion from a list: the items after the slot move down by
  one, in order, each renumbered to the slot it now has.
\<close>

theorem remove_at_slot_refines_delete:
  assumes "bag_ok p ob" and "unat s < ip_end_of_list_index p" and "remove_at_slot s p ob = (q, ob')"
  shows "iter_items q = renumber 0 (take (unat s) (iter_items p) @ drop (unat s + 1) (iter_items p))
    \<and> ip_list q = map Some (iter_items q) @ replicate (unat (ip_capacity p) - length (iter_items q)) None"
proof -
  let ?s = "unat s" and ?e = "ip_end_of_list_index p"
  have wf: "bag_wf p" "loose_wf p" using assms(1) by (simp_all add: bag_ok_def bag_wf_def)
  note lay = bag_wf_layout [OF wf(1)]
  have len: "length (iter_items p) = ?e" using lay by simp
  obtain item where item: "ip_list p ! ?s = Some item"
    using wf(1) assms(2) by (auto simp: bag_wf_def)
  obtain p1 ob1 where t: "take_slot ?s item p ob = (p1, ob1)" by fastforce
  have s: "realign_and_send p1 ob1 = (q, ob')"
    using assms(2,3) item t by (simp add: remove_at_slot_def Let_def)
  have p1: "bag_loose p1 ob1" "same_bag p1 p" "p1 = put_slot ?s None p"
    using take_slot_loose [OF bag_ok_loose [OF assms(1)] assms(2) item t] by auto
  have pre: "take ?e (ip_list p) = map Some (iter_items p)"
    using lay len by (metis append_eq_conv_conj length_map)
  have "take ?e (ip_list p1) = (map Some (iter_items p))[?s := None]"
    using pre by (simp add: p1(3) take_update_swap)
  also have "\<dots> = map Some (take ?s (iter_items p)) @ None # map Some (drop (?s + 1) (iter_items p))"
    using assms(2) len by (simp add: upd_conv_take_nth_drop take_map drop_map)
  finally have "iter_items p1 = take ?s (iter_items p) @ drop (?s + 1) (iter_items p)"
    by (simp add: iter_items_def p1(3))
  moreover have q: "bag_ok q ob' \<and> same_bag q p1 \<and> iter_items q = renumber 0 (iter_items p1)"
    using realign_and_send_ok [OF p1(1) s] by simp
  moreover have "ip_capacity q = ip_capacity p" using q p1(2) by (simp add: same_bag_def)
  ultimately show ?thesis using bag_wf_layout [of q] by (simp add: bag_ok_def)
qed

section \<open>Moves\<close>

text \<open>
  \<open>add_existing\<close> panics exactly on a full bazaar whose partial stacks of the item have room for it:
  the space check counts merging, the insertion does not merge and indexes one past the end.
\<close>

theorem add_existing_panic_iff:
  assumes "bag_ok p ob" and "qty_ok p" and "0 < it_quantity item" and "it_quantity item < 2 ^ 31"
    and "catalog (it_item_id item) = Some gd" and "unat (id_stack_size gd) < 2 ^ 31"
  shows "fst (ip_add_existing catalog item p ob) = Panic \<longleftrightarrow>
    ip_code p = PKG_BAZAAR \<and> ip_is_full p
    \<and> it_quantity item \<le> sum_list (map (\<lambda>x. slot_room (it_item_id item) (it_quality item) (max_stack_of gd) (Some x)) (iter_items p))"
proof -
  let ?m = "max_stack_of gd" and ?d = "it_item_id item" and ?u = "it_quality item"
  let ?R = "sum_list (map (\<lambda>x. slot_room ?d ?u ?m (Some x)) (iter_items p))"
  have wf: "loose_wf p" using assms(1) by (simp add: bag_ok_def bag_wf_def)
  note m = max_stack_range [OF assms(6)]
  have space: "is_space_for_add catalog p ?d (it_quantity item) ?u \<longleftrightarrow> it_quantity item \<le> ?R \<or> \<not> ip_is_full p"
    using is_space_room [of p ob "it_quantity item" catalog ?d gd ?u, OF assms(1-6)] slots_room_live [OF wf] by simp
  have full: "length (ip_is_dirty p) \<le> ip_end_of_list_index p \<longleftrightarrow> ip_is_full p"
    using wf by (simp add: loose_wf_def ip_is_full_def)
  have zero: "?R = 0" if "\<not> 1 < ?m"
  proof -
    have "slot_room ?d ?u ?m (Some x) = 0" if "x \<in> set (iter_items p)" for x
      using qty_ok_iter [OF assms(2) that] \<open>\<not> 1 < ?m\<close> by (simp add: slot_room_def)
    then have "map (\<lambda>x. slot_room ?d ?u ?m (Some x)) (iter_items p) = map (\<lambda>x. 0) (iter_items p)" by simp
    then show ?thesis by (simp only: sum_list_0)
  qed
  show ?thesis
  proof (cases "ip_code p \<noteq> PKG_BAZAAR \<and> 1 < ?m")
    case True
    obtain r q ob' where run: "ip_add catalog ?d (it_quantity item) ?u p ob = (r, q, ob')" using prod_cases3 by blast
    with ip_add_keeps [OF assms(1) run] True show ?thesis by (simp add: ip_add_existing_def assms(5))
  next
    case False
    have "fst (ip_add_existing catalog item p ob) = Panic \<longleftrightarrow> it_quantity item \<le> ?R \<and> ip_is_full p"
      using False space full by (auto simp: ip_add_existing_def assms(5) Let_def split: prod.splits)
    moreover have "ip_code p = PKG_BAZAAR" if "it_quantity item \<le> ?R"
      using False zero that assms(3) by force
    ultimately show ?thesis by blast
  qed
qed

theorem add_existing_panic_iff_witness:
  "\<exists>p. fst (ip_add_existing (\<lambda>_. Some \<lparr>id_stack_size = 99, id_is_exclusive = False\<rparr>)
      (spill_item 5 1 10 p) p []) = Panic \<and> ip_code p = PKG_BAZAAR"
proof -
  let ?cat = "\<lambda>_. Some \<lparr>id_stack_size = 99, id_is_exclusive = False\<rparr>"
  let ?e = "ip_new 7 1 PKG_BAZAAR"
  let ?p = "push_item (spill_item 5 1 20 ?e) ?e"
  have e: "bag_ok ?e []" "qty_ok ?e" by (simp_all add: ip_new_def)
  have f: "ip_end_of_list_index ?e < unat (ip_capacity ?e)" by (simp add: ip_new_def ip_with_flags_def)
  have ok: "bag_ok ?p []" "qty_ok ?p"
    using push_item_ok(1) [OF e(1) f, of "spill_item 5 1 20 ?e"] push_item_ok(3) [OF e(1) f, of "spill_item 5 1 20 ?e"] e(2)
    by (simp_all add: spill_item_def)
  have "fst (ip_add_existing ?cat (spill_item 5 1 10 ?p) ?p []) = Panic"
    by (rule add_existing_panic_iff [OF ok, where gd = "\<lparr>id_stack_size = 99, id_is_exclusive = False\<rparr>", THEN iffD2])
      (simp_all add: spill_item_def ip_is_full_def iter_items_def push_item_def put_slot_def ip_new_def
        ip_with_flags_def max_stack_of_def slot_room_def)
  moreover have "ip_code ?p = PKG_BAZAAR" by (simp add: ip_new_def ip_with_flags_def)
  ultimately show ?thesis by blast
qed

theorem bag_remove_exact_witness:
  "\<exists>q ob'. ip_remove 5 4 1 (push_item (spill_item 5 1 20 (ip_new 7 1 PKG_LOOT)) (ip_new 7 1 PKG_LOOT)) [] = (q, ob')
    \<and> total_quantity q 5 1 = 16"
proof -
  let ?e = "ip_new 7 1 PKG_LOOT"
  let ?p = "push_item (spill_item 5 1 20 ?e) ?e"
  have e: "bag_ok ?e []" "qty_ok ?e" by (simp_all add: ip_new_def)
  have f: "ip_end_of_list_index ?e < unat (ip_capacity ?e)" by (simp add: ip_new_def ip_with_flags_def)
  have ok: "bag_ok ?p []" "qty_ok ?p"
    using push_item_ok(1) [OF e(1) f, of "spill_item 5 1 20 ?e"] push_item_ok(3) [OF e(1) f, of "spill_item 5 1 20 ?e"] e(2)
    by (simp_all add: spill_item_def)
  have t: "total_quantity ?p 5 1 = 20"
    by (simp add: total_quantity_def iter_items_def push_item_def put_slot_def ip_new_def ip_with_flags_def spill_item_def)
  obtain q ob' where run: "ip_remove 5 4 1 ?p [] = (q, ob')" by fastforce
  with bag_remove_exact [OF ok _ run] t show ?thesis by simp
qed

theorem remove_at_slot_refines_delete_witness:
  "\<exists>q ob'. remove_at_slot 0 (push_item (spill_item 5 1 20 (ip_new 7 1 PKG_LOOT)) (ip_new 7 1 PKG_LOOT)) [] = (q, ob')
    \<and> iter_items q = []"
proof -
  let ?e = "ip_new 7 1 PKG_LOOT"
  let ?p = "push_item (spill_item 5 1 20 ?e) ?e"
  have e: "bag_ok ?e []" by (simp add: ip_new_def)
  have f: "ip_end_of_list_index ?e < unat (ip_capacity ?e)" by (simp add: ip_new_def ip_with_flags_def)
  have ok: "bag_ok ?p []"
    by (rule push_item_ok(1) [OF e f]) (simp_all add: spill_item_def)
  have one: "length (iter_items ?p) = 1"
    by (simp add: iter_items_def push_item_def put_slot_def ip_new_def ip_with_flags_def)
  obtain q ob' where run: "remove_at_slot 0 ?p [] = (q, ob')" by fastforce
  with remove_at_slot_refines_delete [OF ok _ run] one show ?thesis by simp
qed

text \<open>What an operation on one bag does to the client's view of another: nothing.\<close>

definition bag_key :: "item_package \<Rightarrow> u32 \<times> u16" where
  "bag_key p = (ip_owner_actor_id p, ip_code p)"

definition view_of :: "inventory_outbox \<Rightarrow> u32 \<times> u16 \<Rightarrow> nat \<Rightarrow> inventory_item option" where
  "view_of ob k = bag_view (client_of ob) k"

lemma send_update_other:
  assumes "send_update p ob = (q, ob')" and "k \<noteq> bag_key p"
  shows "view_of ob' k = view_of ob k"
proof (cases "ip_holding_updates p")
  case True
  with assms show ?thesis by (simp add: send_update_def)
next
  case False
  let ?o = "ip_owner_actor_id p"
  have "ob' = ob @ [PacketSetBegin ?o (ip_capacity p) (ip_code p)]
      @ (if dirty_items p = [] then [] else [PacketItems ?o (dirty_items p), PacketModifierFrame ?o (dirty_items p)])
      @ (if dirty_tail_slots p = [] then [] else [PacketRemoveSlots ?o (dirty_tail_slots p)])
      @ [PacketSetEnd ?o]"
    using assms(1) False by (simp add: send_update_def Let_def)
  then show ?thesis
    by (simp only: client_of_append view_of_def foldl_append client_items client_remove foldl_Cons foldl_Nil)
      (use assms(2) in \<open>simp add: in_open_bag_def bag_key_def\<close>)
qed

lemma view_of_db [simp]: "db_event e \<Longrightarrow> view_of (ob @ [e]) k = view_of ob k"
  by (simp add: view_of_def client_of_append)

lemma view_of_bracket [simp]:
  "view_of (ob @ [PacketBeginChange w]) k = view_of ob k" "view_of (ob @ [PacketEndChange w]) k = view_of ob k"
  by (simp_all add: view_of_def client_of_append)

lemma bracketed_other:
  assumes "bracketed_send_update p ob = (q, ob')" and "k \<noteq> bag_key p"
  shows "view_of ob' k = view_of ob k"
  using assms send_update_other [OF _ assms(2)]
  by (auto simp: bracketed_send_update_def split: if_splits prod.splits)

lemma remove_at_slot_other:
  assumes "remove_at_slot s p ob = (q, ob')" and "k \<noteq> bag_key p"
  shows "view_of ob' k = view_of ob k"
proof (cases "ip_end_of_list_index p \<le> unat s")
  case True
  with assms show ?thesis by (simp add: remove_at_slot_def)
next
  case False
  obtain p1 ob1 where t: "(case ip_list p ! unat s of Some item \<Rightarrow> take_slot (unat s) item p ob | None \<Rightarrow> (p, ob)) = (p1, ob1)"
    by fastforce
  obtain p2 ob2 where r: "realign p1 ob1 = (p2, ob2)" by fastforce
  have "bag_key p1 = bag_key p" "view_of ob1 k = view_of ob k"
    using t by (auto simp: take_slot_def bag_key_def split: option.splits if_splits)
  moreover have "bag_key p2 = bag_key p1" "view_of ob2 k = view_of ob1 k"
    using r by (auto simp: realign_def bag_key_def split: prod.splits if_splits)
  moreover have "bracketed_send_update p2 ob2 = (q, ob')"
    using assms(1) False t r by (simp add: remove_at_slot_def realign_and_send_def Let_def)
  ultimately show ?thesis using bracketed_other [of p2 ob2 q ob' k] assms(2) by simp
qed

lemma in_sync_other:
  "in_sync p ob \<Longrightarrow> view_of ob' (bag_key p) = view_of ob (bag_key p) \<Longrightarrow> in_sync p ob'"
  by (simp add: in_sync_def shown_def view_of_def bag_key_def)

lemma remove_at_slot_qty_exact:
  assumes "bag_ok p ob" and "ip_get_at_slot p s = Some item" and "remove_at_slot s p ob = (q, ob')"
  shows "total_quantity q d u = total_quantity p d u - slot_qty d u (Some item)"
proof -
  have wf: "loose_wf p" using assms(1) by (simp add: bag_ok_def bag_wf_def)
  have item: "ip_list p ! unat s = Some item" and "unat s < length (ip_list p)"
    using assms(2) by (auto simp: ip_get_at_slot_def split: if_splits)
  then have s: "unat s < ip_end_of_list_index p"
    using wf by (metis loose_wf_def not_le option.distinct(1))
  obtain p1 ob1 where t: "take_slot (unat s) item p ob = (p1, ob1)" by fastforce
  have r: "realign_and_send p1 ob1 = (q, ob')"
    using assms(3) item s t by (simp add: remove_at_slot_def Let_def)
  note tk = take_slot_loose [OF bag_ok_loose [OF assms(1)] s item t, of d u]
  then have "loose_wf p1" unfolding bag_loose_def by blast
  then have "total_quantity p1 d u = bag_sum d u p1" by (rule total_quantity_sum)
  moreover have "bag_sum d u p1 = bag_sum d u p - slot_qty d u (Some item)" using tk by blast
  moreover have "total_quantity q d u = total_quantity p1 d u"
    using realign_and_send_ok [OF conjunct1 [OF tk] r, of d u] by blast
  ultimately show ?thesis by (simp add: total_quantity_sum [OF wf])
qed

lemma add_existing_exact:
  assumes "bag_ok p ob" and "qty_ok p" and "0 < it_quantity item"
    and "catalog (it_item_id item) = Some gd" and "unat (id_stack_size gd) < 2 ^ 31"
    and "it_quantity item + max_stack_of gd < 2 ^ 31"
    and "ip_add_existing catalog item p ob = (Ok (), q, ob')"
  shows "total_quantity q d u = total_quantity p d u + slot_qty d u (Some item)"
proof (cases "ip_code p \<noteq> PKG_BAZAAR \<and> 1 < max_stack_of gd")
  case True
  then have "ip_add catalog (it_item_id item) (it_quantity item) (it_quality item) p ob = (Ok (), q, ob')"
    using assms(4,7) by (simp add: ip_add_existing_def)
  from ip_add_spec [OF assms(1-3,6,4,5) this] show ?thesis by (auto simp: slot_qty_def)
next
  case False
  let ?item = "item\<lparr>it_item_package := ip_code p, it_slot := of_nat (ip_end_of_list_index p)\<rparr>"
  let ?ob = "if ip_is_temporary p then ob else ob @ [DbAdd (ip_owner_actor_id p) ?item (ip_code p) (it_slot ?item)]"
  have wf: "loose_wf p" using assms(1) by (simp add: bag_ok_def bag_wf_def)
  have run: "\<not> length (ip_is_dirty p) \<le> ip_end_of_list_index p"
    "bracketed_send_update (push_item ?item p) ?ob = (q, ob')"
    using False assms(4,7) by (auto simp: ip_add_existing_def Let_def split: if_splits prod.splits)
  have e: "ip_end_of_list_index p < unat (ip_capacity p)" using run(1) wf by (simp add: loose_wf_def)
  note push = push_item_ok [OF assms(1) e, of ?item]
  have ok: "bag_ok (push_item ?item p) ?ob" using push(1) by simp
  have "total_quantity q d u = total_quantity (push_item ?item p) d u"
    using bracketed_ok [OF ok run(2)] same_content_qty by blast
  also have "\<dots> = total_quantity p d u + slot_qty d u (Some ?item)"
    using push(2) ok by (simp add: total_quantity_sum [OF wf] total_quantity_sum bag_ok_def bag_wf_def)
  also have "slot_qty d u (Some ?item) = slot_qty d u (Some item)" by (simp add: slot_qty_def)
  finally show ?thesis .
qed

lemma spill_result: "spill d u m n p ob = (r, q, ob') \<Longrightarrow> r = Ok () \<or> r = Err InvFull"
proof (induction d u m n p ob rule: spill.induct)
  case (1 d u m n p ob)
  show ?case
  proof (cases "0 < n \<and> ip_end_of_list_index p < unat (ip_capacity p)")
    case False
    with 1 show ?thesis by (auto simp: spill.simps split: if_splits)
  next
    case True
    then have "spill d u m (i32_wrap (n - min n m)) (push_item (spill_item d u (min n m) p) p)
        (if ip_is_temporary p then ob
         else ob @ [DbAdd (ip_owner_actor_id p) (spill_item d u (min n m) p) (ip_code p) (it_slot (spill_item d u (min n m) p))])
        = (r, q, ob')"
      using 1(2) by (subst (asm) spill.simps) (simp add: Let_def)
    then show ?thesis by (rule 1(1) [OF _ _ refl refl, rotated 2]) (use True in auto)
  qed
qed

text \<open>A refusal for those two reasons comes before any write.\<close>

lemma add_existing_refused:
  assumes "ip_add_existing catalog item p ob = (r, q, ob')" and "r = Err InvSystem \<or> r = Err InvHasUnique"
  shows "q = p"
proof -
  have "q = p" if "ip_add catalog d n u p ob = (r, q, ob')" for d n u
  proof (cases "n \<le> 0 \<or> \<not> is_space_for_add catalog p d n u \<or> catalog d = None
      \<or> (\<exists>gd. catalog d = Some gd \<and> id_is_exclusive gd \<and> has_item p d)")
    case True
    with that show ?thesis by (auto simp: ip_add_def split: if_splits option.splits)
  next
    case False
    then obtain gd where gd: "catalog d = Some gd" by auto
    obtain n1 p1 ob1 where m: "merge_stacks d u (max_stack_of gd) [0..<ip_end_of_list_index p] n p ob = (n1, p1, ob1)"
      using prod_cases3 by blast
    obtain r2 p2 ob2 where sp: "spill d u (max_stack_of gd) n1 p1 ob1 = (r2, p2, ob2)" using prod_cases3 by blast
    have "ip_add catalog d n u p ob = (case (r2, p2, ob2) of
        (Ok u, p, ob) \<Rightarrow> (case bracketed_send_update p ob of (p, ob) \<Rightarrow> (Ok (), p, ob)) | r \<Rightarrow> r)"
      using False gd m sp by (auto simp: ip_add_def)
    with that spill_result [OF sp] assms(2) show ?thesis by (auto split: prod.splits)
  qed
  with assms show ?thesis
    by (auto simp: ip_add_existing_def Let_def split: if_splits option.splits prod.splits)
qed

text \<open>
  C6: \<open>move_to\<close> conserves quantities when it succeeds: over the two bags together, every item keeps its
  total. When the insertion is refused because the catalog does not know the item, or because it is an
  exclusive one already held, the destination is as before and the item is gone from both bags: it was
  removed from the source first.
\<close>

theorem move_to_conserves_or_loses:
  assumes "bag_ok src ob" and "bag_ok dst ob" and "qty_ok src" and "qty_ok dst" and "bag_key src \<noteq> bag_key dst"
    and "ip_get_at_slot src s = Some item" and "move_to catalog s src dst ob = (r, src', dst', ob')"
  shows "(r = Ok () \<and> (\<forall>gd. catalog (it_item_id item) = Some gd \<longrightarrow> unat (id_stack_size gd) < 2 ^ 31
            \<and> it_quantity item + max_stack_of gd < 2 ^ 31)
          \<longrightarrow> (\<forall>d u. total_quantity src' d u + total_quantity dst' d u = total_quantity src d u + total_quantity dst d u))
    \<and> (r = Err InvSystem \<or> r = Err InvHasUnique
          \<longrightarrow> dst' = dst \<and> (\<forall>d u. total_quantity src' d u = total_quantity src d u - slot_qty d u (Some item)))"
proof (cases "can_add dst item")
  case False
  with assms(6,7) show ?thesis by (auto simp: move_to_def)
next
  case True
  obtain ob1 where rm: "remove_at_slot s src ob = (src', ob1)"
    and add: "ip_add_existing catalog item dst ob1 = (r, dst', ob')"
    using assms(6,7) True by (auto simp: move_to_def split: prod.splits)
  have gone: "total_quantity src' d u = total_quantity src d u - slot_qty d u (Some item)" for d u
    by (rule remove_at_slot_qty_exact [OF assms(1,6) rm])
  have "in_sync dst ob1"
    using in_sync_other [of dst ob ob1] remove_at_slot_other [OF rm, of "bag_key dst"] assms(2,5)
    by (auto simp: bag_ok_def)
  then have dst: "bag_ok dst ob1" using assms(2) by (simp add: bag_ok_def)
  have pos: "0 < it_quantity item"
  proof -
    have "Some item \<in> set (ip_list src)"
      using assms(6) by (metis ip_get_at_slot_def nth_mem option.distinct(1))
    then show ?thesis using assms(3) by (simp add: qty_ok_def)
  qed
  have "r \<noteq> Ok () \<or> catalog (it_item_id item) \<noteq> None"
    using add by (auto simp: ip_add_existing_def Let_def split: if_splits option.splits)
  moreover have "dst' = dst" if "r = Err InvSystem \<or> r = Err InvHasUnique"
    by (rule add_existing_refused [OF add that])
  moreover have "total_quantity dst' d u = total_quantity dst d u + slot_qty d u (Some item)"
    if "r = Ok ()" "catalog (it_item_id item) = Some gd" "unat (id_stack_size gd) < 2 ^ 31"
      "it_quantity item + max_stack_of gd < 2 ^ 31" for gd d u
    using add_existing_exact [of dst ob1 item catalog gd dst' ob' d u, OF dst assms(4) pos that(2-4)] add that(1)
    by simp
  ultimately show ?thesis using gone by auto
qed

theorem move_to_conserves_or_loses_witness:
  "\<exists>src' dst' ob'. move_to (\<lambda>_. None) 0 (push_item (spill_item 5 1 20 (ip_new 7 1 PKG_LOOT)) (ip_new 7 1 PKG_LOOT))
      (ip_new 7 4 PKG_NORMAL) [] = (Err InvSystem, src', dst', ob')
    \<and> total_quantity src' 5 1 = 0 \<and> total_quantity dst' 5 1 = 0"
proof -
  let ?e = "ip_new 7 1 PKG_LOOT" and ?dst = "ip_new 7 4 PKG_NORMAL"
  let ?item = "spill_item 5 1 20 ?e"
  let ?src = "push_item ?item ?e"
  have e: "bag_ok ?e []" "qty_ok ?e" by (simp_all add: ip_new_def)
  have f: "ip_end_of_list_index ?e < unat (ip_capacity ?e)" by (simp add: ip_new_def ip_with_flags_def)
  have src: "bag_ok ?src []" "qty_ok ?src"
    using push_item_ok(1) [OF e(1) f, of ?item] push_item_ok(3) [OF e(1) f, of ?item] e(2)
    by (simp_all add: spill_item_def)
  have dst: "bag_ok ?dst []" "qty_ok ?dst" by (simp_all add: ip_new_def)
  have key: "bag_key ?src \<noteq> bag_key ?dst"
    by (simp add: bag_key_def ip_new_def ip_with_flags_def PKG_LOOT_def PKG_NORMAL_def)
  have at: "ip_get_at_slot ?src 0 = Some ?item"
    by (simp add: ip_get_at_slot_def push_item_def put_slot_def ip_new_def ip_with_flags_def)
  have total: "total_quantity ?src 5 1 = 20" "total_quantity ?dst 5 1 = 0"
    by (simp_all add: total_quantity_def iter_items_def push_item_def put_slot_def ip_new_def ip_with_flags_def spill_item_def)
  obtain r src' dst' ob' where run: "move_to (\<lambda>_. None) 0 ?src ?dst [] = (r, src', dst', ob')"
    using prod_cases4 by blast
  have "\<not> ip_is_full ?dst" by (simp add: ip_is_full_def ip_new_def ip_with_flags_def)
  then have "r = Err InvSystem"
    using run at by (auto simp: move_to_def can_add_def ip_add_existing_def is_space_for_add_def Let_def split: prod.splits)
  with move_to_conserves_or_loses [OF src(1) dst(1) src(2) dst(2) key at run] run total show ?thesis
    by (auto simp: slot_qty_def spill_item_def)
qed

end
