(* ===== verification/TextFormat.thy ===== *)
theory TextFormat
  imports Prelude
begin

text \<open>
  What the game servers use of Rust's string functions and formatting machinery, on the UTF-8 bytes of
  a string: the last path segment (\<open>rsplit('/').next()\<close>), the lower-cased first letter, \<open>truncate\<close> with
  its character-boundary panic, \<open>str::replace\<close> by an ASCII pattern, and the padded decimal and
  hexadecimal formats. The positional digits are generic in the base.
\<close>

section \<open>ASCII literals and segments\<close>

definition ascii :: "string \<Rightarrow> u8 list" where
  "ascii s = map of_char s"

definition last_segment :: "u8 list \<Rightarrow> u8 list" where
  "last_segment s = rev (takeWhile (\<lambda>b. b \<noteq> 0x2F) (rev s))"

definition lower_byte :: "u8 \<Rightarrow> u8" where
  "lower_byte b = (if 0x41 \<le> b \<and> b \<le> 0x5A then b + 0x20 else b)"

text \<open>The first character lower-cased: a multi-byte character starts with a byte no mapping touches.\<close>

fun lower_first :: "u8 list \<Rightarrow> u8 list" where
  "lower_first [] = []"
| "lower_first (b # bs) = lower_byte b # bs"

lemma length_lower_first [simp]: "length (lower_first s) = length s"
  by (cases s) auto

text \<open>\<open>str::is_char_boundary\<close> and \<open>String::truncate\<close>.\<close>

definition char_boundary :: "u8 list \<Rightarrow> nat \<Rightarrow> bool" where
  "char_boundary s i \<longleftrightarrow>
     i = 0 \<or> i = length s \<or> (i < length s \<and> \<not> (0x80 \<le> s ! i \<and> s ! i \<le> 0xBF))"

definition truncate_str :: "u8 list \<Rightarrow> nat \<Rightarrow> ('e, u8 list) outcome" where
  "truncate_str s n = (if n \<le> length s then if char_boundary s n then Ok (take n s) else Panic else Ok s)"

text \<open>\<open>str::replace\<close>: non-overlapping occurrences from the left; the pattern is not empty.\<close>

function replace_bytes :: "u8 list \<Rightarrow> u8 list \<Rightarrow> u8 list \<Rightarrow> u8 list" where
  "replace_bytes pat rep s =
     (if s = [] then []
      else if pat \<noteq> [] \<and> take (length pat) s = pat
           then rep @ replace_bytes pat rep (drop (length pat) s)
           else hd s # replace_bytes pat rep (tl s))"
  by pat_completeness auto
termination
  by (relation "measure (\<lambda>(pat, rep, s). length s)") (simp_all add: diff_less)

declare replace_bytes.simps [simp del]

text \<open>A text without the pattern's first byte is left alone.\<close>

lemma replace_bytes_absent: "p \<notin> set s \<Longrightarrow> replace_bytes (p # pat) rep s = s"
proof (induction s)
  case (Cons b s)
  then show ?case by (auto simp: replace_bytes.simps [of _ _ "b # s"])
qed (simp add: replace_bytes.simps)

section \<open>Positional digits\<close>

text \<open>Least significant digit first, as the loops push them; no digit for 0.\<close>

function digit_loop :: "nat \<Rightarrow> nat \<Rightarrow> nat list" where
  "digit_loop base n = (if n = 0 \<or> base < 2 then [] else n mod base # digit_loop base (n div base))"
  by pat_completeness auto
termination
  by (relation "measure snd") auto

declare digit_loop.simps [simp del]

fun digit_value :: "nat \<Rightarrow> nat list \<Rightarrow> nat" where
  "digit_value base [] = 0"
| "digit_value base (d # ds) = d + base * digit_value base ds"

lemma digit_loop_0 [simp]: "digit_loop base 0 = []"
  by (simp add: digit_loop.simps)

lemma digit_value_loop [simp]: "2 \<le> base \<Longrightarrow> digit_value base (digit_loop base n) = n"
proof (induction base n rule: digit_loop.induct)
  case (1 base n)
  then show ?case by (cases "n = 0") (auto simp: digit_loop.simps [of base n])
qed

lemma digit_loop_less: "2 \<le> base \<Longrightarrow> d \<in> set (digit_loop base n) \<Longrightarrow> d < base"
proof (induction base n rule: digit_loop.induct)
  case (1 base n)
  then show ?case by (cases "n = 0") (auto simp: digit_loop.simps [of base n])
qed

lemma digit_loop_eq_Nil [simp]: "2 \<le> base \<Longrightarrow> digit_loop base n = [] \<longleftrightarrow> n = 0"
  by (auto simp: digit_loop.simps [of base n])

text \<open>The most significant digit is not 0.\<close>

lemma digit_loop_last: "2 \<le> base \<Longrightarrow> n \<noteq> 0 \<Longrightarrow> last (digit_loop base n) \<noteq> 0"
proof (induction base n rule: digit_loop.induct)
  case (1 base n)
  show ?case
  proof (cases "n div base = 0")
    case True
    with 1 have "n < base" by (simp add: div_eq_0_iff)
    with 1 True show ?thesis by (simp add: digit_loop.simps [of base n])
  next
    case False
    with 1 have "digit_loop base (n div base) \<noteq> []" by simp
    with 1 False show ?thesis by (simp add: digit_loop.simps [of base n])
  qed
qed

lemma digit_value_lower: "ds \<noteq> [] \<Longrightarrow> last ds \<noteq> 0 \<Longrightarrow> base ^ (length ds - 1) \<le> digit_value base ds"
proof (induction ds)
  case (Cons d ds)
  show ?case
  proof (cases "ds = []")
    case False
    with Cons have "base ^ (length ds - 1) \<le> digit_value base ds" by simp
    then have "base * base ^ (length ds - 1) \<le> base * digit_value base ds" by (rule mult_le_mono2)
    then have "base ^ length ds \<le> base * digit_value base ds"
      using False by (cases ds) simp_all
    then show ?thesis by simp
  qed (use Cons in auto)
qed simp

text \<open>So the number of digits is bounded by the size of the number.\<close>

lemma length_digit_loop:
  assumes "2 \<le> base" and "n < base ^ k"
  shows "length (digit_loop base n) \<le> k"
proof (cases "n = 0")
  case False
  have "base ^ (length (digit_loop base n) - 1) \<le> n"
    using digit_value_lower [of "digit_loop base n" base] digit_loop_last [of base n] assms(1) False by simp
  with assms(2) have "base ^ (length (digit_loop base n) - 1) < base ^ k" by linarith
  with assms(1) have "length (digit_loop base n) - 1 < k" by (simp add: power_strict_increasing_iff)
  then show ?thesis by linarith
qed simp

section \<open>Decimal and hexadecimal formats\<close>

definition digit_byte :: "nat \<Rightarrow> u8" where
  "digit_byte d = (if d < 10 then of_nat (0x30 + d) else of_nat (0x37 + d))"

text \<open>\<open>{:0width$}\<close> and \<open>{:0width$X}\<close>: the digits, at least one, padded with zeros on the left.\<close>

definition fmt_radix :: "nat \<Rightarrow> nat \<Rightarrow> nat \<Rightarrow> u8 list" where
  "fmt_radix base width n =
     (let s = (if n = 0 then [0x30] else map digit_byte (rev (digit_loop base n)))
      in replicate (width - length s) 0x30 @ s)"

definition fmt_dec :: "nat \<Rightarrow> nat \<Rightarrow> u8 list" where
  "fmt_dec width n = fmt_radix 10 width n"

definition fmt_hex :: "nat \<Rightarrow> nat \<Rightarrow> u8 list" where
  "fmt_hex width n = fmt_radix 16 width n"

definition byte_digit :: "u8 \<Rightarrow> nat" where
  "byte_digit b = (if b < 0x3A then unat b - 0x30 else unat b - 0x37)"

lemma byte_digit_digit_byte [simp]: "d < 16 \<Longrightarrow> byte_digit (digit_byte d) = d"
proof -
  assume "d < 16"
  then have "d \<in> set [0..<16]" by simp
  moreover have "\<forall>d \<in> set [0..<16]. byte_digit (digit_byte d) = d" by code_simp
  ultimately show ?thesis by blast
qed

text \<open>Reading a formatted number back gives the number: formats are injective at any width.\<close>

lemma digit_value_append_zeros: "digit_value base (ds @ replicate k 0) = digit_value base ds"
  by (induction ds) (simp_all, induction k, simp_all)

lemma read_fmt_radix:
  assumes "2 \<le> base" and "base \<le> 16"
  shows "digit_value base (rev (map byte_digit (fmt_radix base width n))) = n"
proof -
  have zero: "byte_digit 0x30 = 0" by (simp add: byte_digit_def)
  have ds: "map byte_digit (map digit_byte (rev (digit_loop base n))) = rev (digit_loop base n)"
    using digit_loop_less [OF assms(1)] assms(2) by (auto intro!: map_idI) force
  show ?thesis
    using assms(1) ds by (simp add: fmt_radix_def Let_def zero digit_value_append_zeros map_replicate_const)
qed

lemma fmt_radix_inj:
  assumes "2 \<le> base" and "base \<le> 16" and "fmt_radix base w n = fmt_radix base w m"
  shows "n = m"
proof -
  have "n = digit_value base (rev (map byte_digit (fmt_radix base w n)))"
    using assms(1,2) by (rule read_fmt_radix [symmetric])
  also have "\<dots> = digit_value base (rev (map byte_digit (fmt_radix base w m)))"
    by (simp only: assms(3))
  also have "\<dots> = m" using assms(1,2) by (rule read_fmt_radix)
  finally show ?thesis .
qed

lemma fmt_hex_inj: "fmt_hex w n = fmt_hex w m \<longleftrightarrow> n = m"
  by (auto simp: fmt_hex_def dest: fmt_radix_inj [rotated 2])

lemma fmt_dec_inj: "fmt_dec w n = fmt_dec w m \<longleftrightarrow> n = m"
  by (auto simp: fmt_dec_def dest: fmt_radix_inj [rotated 2])

lemma digit_byte_range:
  "d < 16 \<Longrightarrow> digit_byte d \<in> {0x30, 0x31, 0x32, 0x33, 0x34, 0x35, 0x36, 0x37, 0x38, 0x39, 0x41, 0x42, 0x43, 0x44, 0x45, 0x46}"
proof -
  assume "d < 16"
  then have "d \<in> set [0..<16]" by simp
  moreover have "\<forall>d \<in> set [0..<16]. digit_byte d \<in>
      set [0x30, 0x31, 0x32, 0x33, 0x34, 0x35, 0x36, 0x37, 0x38, 0x39, 0x41, 0x42, 0x43, 0x44, 0x45, 0x46]"
    by code_simp
  ultimately show ?thesis by auto
qed

lemma set_fmt_radix:
  assumes "2 \<le> base" and "base \<le> 16" and "b \<in> set (fmt_radix base width n)"
  shows "b = 0x30 \<or> (\<exists>d < base. b = digit_byte d)"
  using assms digit_loop_less [OF assms(1)]
  by (auto simp: fmt_radix_def Let_def split: if_splits)

lemma fmt_hex_no_at: "0x40 \<notin> set (fmt_hex w n)"
  using set_fmt_radix [of 16 "0x40" w n] digit_byte_range by (fastforce simp: fmt_hex_def)

lemma fmt_dec_digits: "b \<in> set (fmt_dec w n) \<Longrightarrow> 0x30 \<le> b \<and> b \<le> 0x39"
proof -
  assume "b \<in> set (fmt_dec w n)"
  then have "b = 0x30 \<or> (\<exists>d < 10. b = digit_byte d)"
    using set_fmt_radix [of 10 b w n] by (simp add: fmt_dec_def)
  moreover have "\<forall>d \<in> set [0..<10]. 0x30 \<le> digit_byte d \<and> digit_byte d \<le> (0x39 :: u8)" by code_simp
  ultimately show ?thesis by fastforce
qed

lemma length_fmt_radix: "width \<le> length (fmt_radix base width n)"
  by (simp add: fmt_radix_def Let_def)

end
