(* ===== verification/EventLog.thy ===== *)
theory EventLog
  imports Main
begin

text \<open>
  The outbox pattern of the map server: a mutation pushes events on an append-only vector, and a
  dispatcher drains them. An operation is modelled by the new state and the events it pushes.
  \<open>emits_star\<close> is a run of such operations with everything it pushed, and the locale \<open>event_log\<close> is
  the contract that makes an outbox useful: whoever replays the events sees the state. The locale
  \<open>event_bound\<close> is the contract of an event that a state may push only while a flag is down.
\<close>

inductive emits_star :: "('s \<Rightarrow> 's \<Rightarrow> 'e list \<Rightarrow> bool) \<Rightarrow> 's \<Rightarrow> 's \<Rightarrow> 'e list \<Rightarrow> bool"
  for step :: "'s \<Rightarrow> 's \<Rightarrow> 'e list \<Rightarrow> bool" where
  emits_refl: "emits_star step s s []"
| emits_step: "emits_star step s s' es \<Longrightarrow> step s' s'' es' \<Longrightarrow> emits_star step s s'' (es @ es')"

lemma emits_single: "step s s' es \<Longrightarrow> emits_star step s s' es"
  using emits_step [OF emits_refl] by fastforce

lemma emits_trans:
  assumes "emits_star step s' s'' es'" and "emits_star step s s' es"
  shows "emits_star step s s'' (es @ es')"
  using assms
proof (induction rule: emits_star.induct)
  case (emits_step t t' fs t'' fs')
  then show ?case by (metis append.assoc emits_star.emits_step)
qed simp

lemma emits_cons: "step s s' es \<Longrightarrow> emits_star step s' s'' es' \<Longrightarrow> emits_star step s s'' (es @ es')"
  by (erule emits_trans) (rule emits_single)

locale event_log =
  fixes step :: "'s \<Rightarrow> 's \<Rightarrow> 'e list \<Rightarrow> bool"
    and inv :: "'s \<Rightarrow> bool"
    and view :: "'s \<Rightarrow> 'v"
    and replay :: "'e \<Rightarrow> 'v \<Rightarrow> 'v"
  assumes step_inv: "inv s \<Longrightarrow> step s s' es \<Longrightarrow> inv s'"
    and step_view: "inv s \<Longrightarrow> step s s' es \<Longrightarrow> view s' = fold replay es (view s)"
begin

lemma run_inv: "emits_star step s s' es \<Longrightarrow> inv s \<Longrightarrow> inv s'"
  by (induction rule: emits_star.induct) (auto intro: step_inv)

lemma run_view: "emits_star step s s' es \<Longrightarrow> inv s \<Longrightarrow> view s' = fold replay es (view s)"
proof (induction rule: emits_star.induct)
  case (emits_step s s' es s'' es')
  then have "inv s'" by (auto intro: run_inv)
  with emits_step show ?case by (simp add: step_view)
qed simp

lemma run_replay:
  assumes "emits_star step s s' es" and "inv s"
  shows "inv s' \<and> view s' = fold replay es (view s)"
  using assms run_inv run_view by blast

end

text \<open>An event that a step may push only while the flag is down, once, and that raises the flag for good.\<close>

definition count_events :: "('e \<Rightarrow> bool) \<Rightarrow> 'e list \<Rightarrow> nat" where
  "count_events P es = length (filter P es)"

lemma count_events_simps [simp]:
  "count_events P [] = 0"
  "count_events P (es @ fs) = count_events P es + count_events P fs"
  "count_events P (e # es) = (if P e then 1 else 0) + count_events P es"
  by (auto simp: count_events_def)

lemma count_events_map [simp]: "count_events P (map f xs) = count_events (P \<circ> f) xs"
  by (simp add: count_events_def filter_map)

lemma count_events_none: "\<forall>e \<in> set es. \<not> P e \<Longrightarrow> count_events P es = 0"
  by (simp add: count_events_def)

locale event_bound =
  fixes step :: "'s \<Rightarrow> 's \<Rightarrow> 'e list \<Rightarrow> bool"
    and inv :: "'s \<Rightarrow> bool"
    and flag :: "'s \<Rightarrow> bool"
    and P :: "'e \<Rightarrow> bool"
  assumes bound_inv: "inv s \<Longrightarrow> step s s' es \<Longrightarrow> inv s'"
    and step_counts: "inv s \<Longrightarrow> step s s' es \<Longrightarrow>
      count_events P es + (if flag s then 1 else 0) = (if flag s' then 1 else 0)"
begin

lemma bound_run_inv: "emits_star step s s' es \<Longrightarrow> inv s \<Longrightarrow> inv s'"
  by (induction rule: emits_star.induct) (auto intro: bound_inv)

lemma run_counts:
  "emits_star step s s' es \<Longrightarrow> inv s \<Longrightarrow>
    count_events P es + (if flag s then 1 else 0) = (if flag s' then 1 else 0)"
proof (induction rule: emits_star.induct)
  case (emits_step s s' es s'' es')
  then have "inv s'" by (auto intro: bound_run_inv)
  from step_counts [OF this emits_step.hyps(2)] emits_step.IH emits_step.prems show ?case by simp
qed simp

lemma at_most_once: "emits_star step s s' es \<Longrightarrow> inv s \<Longrightarrow> count_events P es \<le> 1"
  using run_counts [of s s' es] by (simp split: if_splits)

lemma never_after: "emits_star step s s' es \<Longrightarrow> inv s \<Longrightarrow> flag s \<Longrightarrow> count_events P es = 0"
  using run_counts [of s s' es] by (simp split: if_splits)

end

end
