(* ===== verification/Director.thy ===== *)
theory Director
  imports TextFormat EventLog
begin

text \<open>
  \<open>map-server/src/director/\<close>: the director of a piece of content (\<open>director.rs\<close>), the guildleve
  director with its work block (\<open>guildleve.rs\<close>, \<open>guildleve_work.rs\<close>) and the events they push
  (\<open>outbox.rs\<close>). An operation returns the new state and the events it pushes, in order. A \<open>BTreeSet\<close>
  is a set, read in ascending order; an \<open>f32\<close> that is only stored and forwarded is its bit pattern.
\<close>

type_synonym i8 = "8 word"

section \<open>Events\<close>

datatype director_event =
    DirectorStarted u32 u32 "u8 list" "u8 list" "u8 list" bool
  | DirectorEnded u32 u32
  | MainCoroutine u32
  | EventStarted u32 "u32 option"
  | MemberAdded u32 u32 bool
  | MemberRemoved u32 u32 bool
  | GuildleveStarted u32 u32 u8 u32 u32 u32
  | GuildleveEnded u32 u32 bool u32 u8
  | GuildleveAbandoned u32 u32
  | GuildleveAimUpdated u32 u8 i8
  | GuildleveUiUpdated u32 u8 i8
  | GuildleveMarkerUpdated u32 u8 f32_bits f32_bits f32_bits
  | GuildleveSyncAll u32

section \<open>Directors\<close>

datatype director_kind = KindGeneric | KindGuildleve

record director =
  d_director_id :: u32
  d_zone_id :: u32
  d_actor_id :: u32
  d_director_script_path :: "u8 list"
  d_class_path :: "u8 list"
  d_class_name :: "u8 list"
  d_actor_name :: "u8 list"
  d_has_content_group :: bool
  d_content_group_id :: u32
  d_is_created :: bool
  d_is_deleted :: bool
  d_is_deleting :: bool
  d_kind :: director_kind
  d_members :: "u32 set"
  d_player_members :: "u32 set"

definition encode_director_actor_id :: "u32 \<Rightarrow> u32 \<Rightarrow> u32" where
  "encode_director_actor_id zone_id local_id =
     push_bit 28 6 OR push_bit 19 (zone_id AND 0x1FF) OR ((local_id + 2) AND 0x7FFFF)"

definition d_new :: "u32 \<Rightarrow> u32 \<Rightarrow> u8 list \<Rightarrow> bool \<Rightarrow> director" where
  "d_new local_id zone_id script_path has_content_group =
     \<lparr>d_director_id = local_id, d_zone_id = zone_id, d_actor_id = encode_director_actor_id zone_id local_id,
      d_director_script_path = script_path, d_class_path = script_path,
      d_class_name = last_segment script_path, d_actor_name = [],
      d_has_content_group = has_content_group, d_content_group_id = 0,
      d_is_created = False, d_is_deleted = False, d_is_deleting = False,
      d_kind = KindGeneric, d_members = {}, d_player_members = {}\<rparr>"

definition set_content_group_id :: "u32 \<Rightarrow> director \<Rightarrow> director" where
  "set_content_group_id group_id d = d\<lparr>d_content_group_id := group_id\<rparr>"

definition npc_members :: "director \<Rightarrow> u32 list" where
  "npc_members d = filter (\<lambda>id. id \<notin> d_player_members d) (sorted_list_of_set (d_members d))"

definition player_members :: "director \<Rightarrow> u32 list" where
  "player_members d = sorted_list_of_set (d_player_members d)"

text \<open>The actor name.\<close>

definition BASE63_ALPHABET :: "u8 list" where
  "BASE63_ALPHABET = ascii ''0123456789abcdefghijklmnopqrstuvwxyzABCDEFGHIJKLMNOPQRSTUVWXYZ_''"

definition to_base63 :: "u32 \<Rightarrow> u8 list" where
  "to_base63 n =
     (if n = 0 then ascii ''0''
      else rev (map (\<lambda>d. BASE63_ALPHABET ! d) (digit_loop 63 (unat n))))"

definition abbreviate_zone_name :: "u8 list \<Rightarrow> u8 list" where
  "abbreviate_zone_name name =
     replace_bytes (ascii ''Office'') (ascii ''Ofc'')
    (replace_bytes (ascii ''Ship'') (ascii ''Shp'')
    (replace_bytes (ascii ''Event'') (ascii ''Evt'')
    (replace_bytes (ascii ''Test'') (ascii ''Tes'')
    (replace_bytes (ascii ''Battle'') (ascii ''Btl'')
    (replace_bytes (ascii ''Town'') (ascii ''Twn'')
    (replace_bytes (ascii ''Dungeon'') (ascii ''Dgn'')
    (replace_bytes (ascii ''Field'') (ascii ''Fld'') name)))))))"

definition generate_actor_name :: "u8 list \<Rightarrow> director \<Rightarrow> (unit, director) outcome" where
  "generate_actor_name zone_name d =
     (let class_name = lower_first (d_class_name d);
          zone_name = lower_first (abbreviate_zone_name zone_name);
          cap = 20 - length zone_name
      in bind_outcome (if cap < length class_name then truncate_str class_name cap else Ok class_name)
          (\<lambda>class_name. Ok (d\<lparr>d_actor_name :=
              class_name @ ascii ''_'' @ zone_name @ ascii ''_'' @ to_base63 (d_director_id d)
                @ ascii ''@'' @ fmt_hex 3 (unat (d_zone_id d)) @ fmt_hex 2 0\<rparr>)))"

definition field_name :: "u32 \<Rightarrow> u8 list" where
  "field_name zone_id = ascii ''field'' @ fmt_dec 5 (unat zone_id)"

definition d_start :: "u8 list option \<Rightarrow> bool \<Rightarrow> director \<Rightarrow> (unit, director \<times> director_event list) outcome" where
  "d_start class_path spawn_immediate d =
     (let d = (case class_path of
                 Some cp \<Rightarrow> d\<lparr>d_class_path := cp, d_class_name := last_segment cp\<rparr>
               | None \<Rightarrow> d)
      in bind_outcome (generate_actor_name (field_name (d_zone_id d)) d)
          (\<lambda>d. Ok (d\<lparr>d_is_created := True\<rparr>,
             [DirectorStarted (d_actor_id d) (d_zone_id d) (d_class_path d) (d_class_name d)
                (d_actor_name d) spawn_immediate,
              MainCoroutine (d_actor_id d)])))"

definition d_end :: "director \<Rightarrow> director \<times> director_event list" where
  "d_end d =
     (if d_is_deleted d then (d, [])
      else (d\<lparr>d_is_deleting := True, d_members := {}, d_player_members := {}, d_is_deleted := True\<rparr>,
            map (\<lambda>id. MemberRemoved (d_actor_id d) id (id \<in> d_player_members d))
              (sorted_list_of_set (d_members d))
            @ [DirectorEnded (d_actor_id d) (d_zone_id d)]))"

definition d_add_member :: "u32 \<Rightarrow> bool \<Rightarrow> director \<Rightarrow> director \<times> director_event list" where
  "d_add_member actor_id is_player d =
     (if actor_id \<in> d_members d then (d, [])
      else (d\<lparr>d_members := insert actor_id (d_members d),
               d_player_members := (if is_player then insert actor_id (d_player_members d)
                                    else d_player_members d)\<rparr>,
            [MemberAdded (d_actor_id d) actor_id is_player]))"

definition d_remove_member :: "u32 \<Rightarrow> bool \<Rightarrow> director \<Rightarrow> director \<times> director_event list" where
  "d_remove_member actor_id is_player d =
     (let existed = actor_id \<in> d_members d;
          d = d\<lparr>d_members := d_members d - {actor_id},
                 d_player_members := (if is_player then d_player_members d - {actor_id}
                                      else d_player_members d)\<rparr>
      in if \<not> existed then (d, [])
         else if d_player_members d = {} \<and> \<not> d_is_deleting d
         then (case d_end d of (d', es) \<Rightarrow> (d', MemberRemoved (d_actor_id d) actor_id is_player # es))
         else (d, [MemberRemoved (d_actor_id d) actor_id is_player]))"

definition on_event_started :: "u32 option \<Rightarrow> director \<Rightarrow> director_event list" where
  "on_event_started player d = [EventStarted (d_actor_id d) player]"

section \<open>Guildleve directors\<close>

record guildleve_work =
  gw_start_time :: u32
  gw_aim_num :: "i8 list"
  gw_aim_num_now :: "i8 list"
  gw_ui_state :: "i8 list"
  gw_marker_x :: "f32_bits list"
  gw_marker_y :: "f32_bits list"
  gw_marker_z :: "f32_bits list"
  gw_signal :: i8

definition gw_new :: guildleve_work where
  "gw_new = \<lparr>gw_start_time = 0, gw_aim_num = replicate 4 0, gw_aim_num_now = replicate 4 0,
     gw_ui_state = replicate 4 0, gw_marker_x = replicate 3 0, gw_marker_y = replicate 3 0,
     gw_marker_z = replicate 3 0, gw_signal = 0\<rparr>"

definition reset_from_gamedata :: "i8 list \<Rightarrow> guildleve_work \<Rightarrow> guildleve_work" where
  "reset_from_gamedata aim_num w =
     w\<lparr>gw_aim_num := aim_num, gw_aim_num_now := replicate 4 0,
       gw_ui_state := map (\<lambda>target. if target \<noteq> 0 then 1 else 0) aim_num,
       gw_marker_x := replicate 3 0, gw_marker_y := replicate 3 0, gw_marker_z := replicate 3 0,
       gw_signal := 0\<rparr>"

definition clear_on_end :: "guildleve_work \<Rightarrow> guildleve_work" where
  "clear_on_end w = w\<lparr>gw_start_time := 0, gw_signal := -1\<rparr>"

definition guildleve_script_for_plate :: "u32 \<Rightarrow> u32 \<Rightarrow> u8 list option" where
  "guildleve_script_for_plate guildleve_id plate_id =
     (if guildleve_id \<in> {10801, 12401, 11601} then Some (ascii ''Guildleve/PrivateGLBattleTutorial'')
      else if plate_id = 20021 then Some (ascii ''Guildleve/PrivateGLBattleSweepNormal'')
      else if plate_id = 20022 then Some (ascii ''Guildleve/PrivateGLBattleChaseNormal'')
      else if plate_id = 20023 then Some (ascii ''Guildleve/PrivateGLBattleOrbNormal'')
      else if plate_id = 20024 then Some (ascii ''Guildleve/PrivateGLBattleHuntNormal'')
      else if plate_id = 20025 then Some (ascii ''Guildleve/PrivateGLBattleGatherNormal'')
      else if plate_id = 20026 then Some (ascii ''Guildleve/PrivateGLBattleRoundNormal'')
      else if plate_id = 20027 then Some (ascii ''Guildleve/PrivateGLBattleSurviveNormal'')
      else if plate_id = 20028 then Some (ascii ''Guildleve/PrivateGLBattleDetectNormal'')
      else None)"

text \<open>The packed animation id.\<close>

definition guildleve_start_animation :: "u32 \<Rightarrow> u32 \<Rightarrow> bool \<Rightarrow> u32" where
  "guildleve_start_animation border_icon plate_icon is_boost =
     0x0B000000 OR (if is_boost then 0x8000 else 0)
       OR push_bit 7 (u32_saturating_sub plate_icon 20020)
       OR u32_saturating_sub border_icon 20000"

record guildleve_director =
  gl_base :: director
  gl_guildleve_id :: u32
  gl_difficulty :: u8
  gl_owner_actor_id :: u32
  gl_location :: u32
  gl_time_limit_seconds :: u32
  gl_aim_num_template :: "i8 list"
  gl_plate_id :: u32
  gl_work :: guildleve_work
  gl_is_ended :: bool
  gl_completion_time_seconds :: u32

definition gl_new :: "u32 \<Rightarrow> u32 \<Rightarrow> u32 \<Rightarrow> u8 \<Rightarrow> u32 \<Rightarrow> u32 \<Rightarrow> u32 \<Rightarrow> u32 \<Rightarrow> i8 list \<Rightarrow> guildleve_director" where
  "gl_new local_id zone_id guildleve_id difficulty owner_actor_id plate_id location time_limit_seconds
      aim_num_template =
     (let script = (case guildleve_script_for_plate guildleve_id plate_id of
                      Some s \<Rightarrow> s | None \<Rightarrow> ascii ''Guildleve/PrivateGLBattleTutorial'')
      in \<lparr>gl_base = (d_new local_id zone_id script True)\<lparr>d_kind := KindGuildleve\<rparr>,
          gl_guildleve_id = guildleve_id, gl_difficulty = difficulty, gl_owner_actor_id = owner_actor_id,
          gl_location = location, gl_time_limit_seconds = time_limit_seconds,
          gl_aim_num_template = aim_num_template, gl_plate_id = plate_id,
          gl_work = reset_from_gamedata aim_num_template gw_new, gl_is_ended = False,
          gl_completion_time_seconds = 0\<rparr>)"

definition start_guildleve :: "u32 \<Rightarrow> guildleve_director \<Rightarrow> guildleve_director \<times> director_event list" where
  "start_guildleve now g =
     (g\<lparr>gl_work := (gl_work g)\<lparr>gw_start_time := now\<rparr>\<rparr>,
      [GuildleveStarted (d_actor_id (gl_base g)) (gl_guildleve_id g) (gl_difficulty g) (gl_location g)
         (gl_time_limit_seconds g) now,
       GuildleveSyncAll (d_actor_id (gl_base g))])"

definition end_guildleve :: "u32 \<Rightarrow> bool \<Rightarrow> guildleve_director \<Rightarrow> guildleve_director \<times> director_event list" where
  "end_guildleve now was_completed g =
     (if gl_is_ended g then (g, [])
      else let secs = u32_saturating_sub now (gw_start_time (gl_work g))
           in (g\<lparr>gl_is_ended := True, gl_completion_time_seconds := secs, gl_work := clear_on_end (gl_work g)\<rparr>,
               [GuildleveEnded (d_actor_id (gl_base g)) (gl_guildleve_id g) was_completed secs (gl_difficulty g)]))"

definition abandon_guildleve :: "u32 \<Rightarrow> guildleve_director \<Rightarrow> guildleve_director \<times> director_event list" where
  "abandon_guildleve now g =
     (case end_guildleve now False g of (g', es) \<Rightarrow>
      case d_end (gl_base g') of (b, fs) \<Rightarrow>
        (g'\<lparr>gl_base := b\<rparr>,
         GuildleveAbandoned (d_actor_id (gl_base g)) (gl_guildleve_id g) # es @ fs))"

definition update_aim_num_now :: "u8 \<Rightarrow> i8 \<Rightarrow> guildleve_director \<Rightarrow> guildleve_director \<times> director_event list" where
  "update_aim_num_now index v g =
     (if length (gw_aim_num_now (gl_work g)) \<le> unat index then (g, [])
      else (g\<lparr>gl_work := (gl_work g)\<lparr>gw_aim_num_now := (gw_aim_num_now (gl_work g))[unat index := v]\<rparr>\<rparr>,
            [GuildleveAimUpdated (d_actor_id (gl_base g)) index v]))"

definition update_ui_state :: "u8 \<Rightarrow> i8 \<Rightarrow> guildleve_director \<Rightarrow> guildleve_director \<times> director_event list" where
  "update_ui_state index v g =
     (if length (gw_ui_state (gl_work g)) \<le> unat index then (g, [])
      else (g\<lparr>gl_work := (gl_work g)\<lparr>gw_ui_state := (gw_ui_state (gl_work g))[unat index := v]\<rparr>\<rparr>,
            [GuildleveUiUpdated (d_actor_id (gl_base g)) index v]))"

definition update_marker ::
    "u8 \<Rightarrow> f32_bits \<Rightarrow> f32_bits \<Rightarrow> f32_bits \<Rightarrow> guildleve_director \<Rightarrow> guildleve_director \<times> director_event list" where
  "update_marker index x y z g =
     (let w = gl_work g in
      if length (gw_marker_x w) \<le> unat index then (g, [])
      else (g\<lparr>gl_work := w\<lparr>gw_marker_x := (gw_marker_x w)[unat index := x],
                            gw_marker_y := (gw_marker_y w)[unat index := y],
                            gw_marker_z := (gw_marker_z w)[unat index := z]\<rparr>\<rparr>,
            [GuildleveMarkerUpdated (d_actor_id (gl_base g)) index x y z]))"

definition sync_all :: "guildleve_director \<Rightarrow> director_event list" where
  "sync_all g = [GuildleveSyncAll (d_actor_id (gl_base g))]"

end
