(* ===== verification/DirectorLaws.thy ===== *)
theory DirectorLaws
  imports Director
begin

text \<open>
  The laws of directors: the pushed events replayed give the roster and the lifecycle (the contract
  \<open>event_log\<close>), a director ends at most once (\<open>event_bound\<close>), actor names are unique, composite
  actor ids decode. The same for guildleve directors with their work block.
\<close>

section \<open>What the events say\<close>

record director_view =
  dv_members :: "u32 set"
  dv_players :: "u32 set"
  dv_created :: bool
  dv_ended :: nat

definition director_view :: "director \<Rightarrow> director_view" where
  "director_view d = \<lparr>dv_members = d_members d, dv_players = d_player_members d,
     dv_created = d_is_created d, dv_ended = (if d_is_deleted d then 1 else 0)\<rparr>"

definition empty_director_view :: director_view where
  "empty_director_view = \<lparr>dv_members = {}, dv_players = {}, dv_created = False, dv_ended = 0\<rparr>"

fun director_replay :: "director_event \<Rightarrow> director_view \<Rightarrow> director_view" where
  "director_replay (MemberAdded _ m p) v =
     v\<lparr>dv_members := insert m (dv_members v),
       dv_players := (if p then insert m (dv_players v) else dv_players v)\<rparr>"
| "director_replay (MemberRemoved _ m _) v =
     v\<lparr>dv_members := dv_members v - {m}, dv_players := dv_players v - {m}\<rparr>"
| "director_replay (DirectorStarted _ _ _ _ _ _) v = v\<lparr>dv_created := True\<rparr>"
| "director_replay (DirectorEnded _ _) v = v\<lparr>dv_ended := dv_ended v + 1\<rparr>"
| "director_replay _ v = v"

fun is_director_ended :: "director_event \<Rightarrow> bool" where
  "is_director_ended (DirectorEnded _ _) \<longleftrightarrow> True"
| "is_director_ended _ \<longleftrightarrow> False"

fun is_member_removed :: "director_event \<Rightarrow> bool" where
  "is_member_removed (MemberRemoved _ _ _) \<longleftrightarrow> True"
| "is_member_removed _ \<longleftrightarrow> False"

fun is_guildleve_ended :: "director_event \<Rightarrow> bool" where
  "is_guildleve_ended (GuildleveEnded _ _ _ _ _) \<longleftrightarrow> True"
| "is_guildleve_ended _ \<longleftrightarrow> False"

lemma fold_removed:
  "fold director_replay (map (\<lambda>m. MemberRemoved a m (f m)) ms) v =
     v\<lparr>dv_members := dv_members v - set ms, dv_players := dv_players v - set ms\<rparr>"
proof (induction ms arbitrary: v)
  case (Cons m ms)
  then show ?case by (simp add: Diff_insert2 [of _ m "set ms"])
qed simp

section \<open>Steps of a director\<close>

text \<open>Callers pass one player flag per actor, \<open>plays\<close>.\<close>

inductive director_step :: "(u32 \<Rightarrow> bool) \<Rightarrow> director \<Rightarrow> director \<Rightarrow> director_event list \<Rightarrow> bool"
  for plays :: "u32 \<Rightarrow> bool" where
  step_start: "d_start cp spawn d = Ok (d', es) \<Longrightarrow> director_step plays d d' es"
| step_end: "director_step plays d (fst (d_end d)) (snd (d_end d))"
| step_add: "director_step plays d (fst (d_add_member m (plays m) d)) (snd (d_add_member m (plays m) d))"
| step_remove:
    "director_step plays d (fst (d_remove_member m (plays m) d)) (snd (d_remove_member m (plays m) d))"
| step_event: "director_step plays d d (on_event_started p d)"
| step_group: "director_step plays d (set_content_group_id g d) []"

definition director_inv :: "(u32 \<Rightarrow> bool) \<Rightarrow> director \<Rightarrow> bool" where
  "director_inv plays d \<longleftrightarrow>
     finite (d_members d) \<and> d_player_members d = {m \<in> d_members d. plays m}
     \<and> (d_is_deleting d \<longleftrightarrow> d_is_deleted d)"

lemma director_inv_new [simp]: "director_inv plays (d_new i z path g)"
  by (simp add: director_inv_def d_new_def)

lemma director_view_new [simp]: "director_view (d_new i z path g) = empty_director_view"
  by (simp add: director_view_def empty_director_view_def d_new_def)

text \<open>What each operation does to the fields the laws speak of, and the events it pushes.\<close>

lemma d_start_effect:
  assumes "d_start cp spawn d = Ok (d', es)"
  shows "d_members d' = d_members d \<and> d_player_members d' = d_player_members d
    \<and> d_is_created d' \<and> d_is_deleted d' = d_is_deleted d \<and> d_is_deleting d' = d_is_deleting d
    \<and> (\<exists>c n a. es = [DirectorStarted (d_actor_id d) (d_zone_id d) c n a spawn, MainCoroutine (d_actor_id d)])"
  using assms
  by (auto simp: d_start_def generate_actor_name_def Let_def bind_outcome_Ok_iff split: option.splits)

lemma d_end_again: "d_is_deleted d \<Longrightarrow> d_end d = (d, [])"
  by (simp add: d_end_def)

lemma d_end_deleted: "d_is_deleted (fst (d_end d))"
  by (simp add: d_end_def)

lemma d_end_fields:
  "\<not> d_is_deleted d \<Longrightarrow> fst (d_end d) =
     d\<lparr>d_is_deleting := True, d_members := {}, d_player_members := {}, d_is_deleted := True\<rparr>"
  by (simp add: d_end_def)

lemma d_end_replay:
  assumes "\<not> d_is_deleted d" and "finite (d_members d)"
  shows "fold director_replay (snd (d_end d)) v = v\<lparr>dv_members := dv_members v - d_members d,
            dv_players := dv_players v - d_members d, dv_ended := dv_ended v + 1\<rparr>"
  using assms by (simp add: d_end_def fold_removed)

lemma d_end_count:
  "count_events is_director_ended (snd (d_end d)) = (if d_is_deleted d then 0 else 1)"
  by (simp add: d_end_def comp_def count_events_none)

lemma d_end_count_leve: "count_events is_guildleve_ended (snd (d_end d)) = 0"
  by (simp add: d_end_def comp_def count_events_none)

lemma d_end_inv: "director_inv plays d \<Longrightarrow> director_inv plays (fst (d_end d))"
  by (simp add: d_end_def director_inv_def)

lemma d_end_view:
  assumes "director_inv plays d"
  shows "director_view (fst (d_end d)) = fold director_replay (snd (d_end d)) (director_view d)"
proof (cases "d_is_deleted d")
  case False
  with assms have "d_player_members d - d_members d = {}" "finite (d_members d)"
    by (auto simp: director_inv_def)
  with False show ?thesis by (simp add: d_end_replay d_end_fields director_view_def)
qed (simp add: d_end_again)

lemma d_add_member_laws:
  assumes "director_inv plays d"
  shows "director_inv plays (fst (d_add_member m (plays m) d))"
    and "director_view (fst (d_add_member m (plays m) d)) =
      fold director_replay (snd (d_add_member m (plays m) d)) (director_view d)"
    and "count_events is_director_ended (snd (d_add_member m p d)) = 0"
    and "count_events is_guildleve_ended (snd (d_add_member m p d)) = 0"
  using assms by (auto simp: d_add_member_def director_inv_def director_view_def)

text \<open>Removing a member, as a plain removal possibly followed by the end of the director.\<close>

definition drop_member :: "u32 \<Rightarrow> bool \<Rightarrow> director \<Rightarrow> director" where
  "drop_member m p d = d\<lparr>d_members := d_members d - {m},
     d_player_members := (if p then d_player_members d - {m} else d_player_members d)\<rparr>"

lemma d_remove_member_eq:
  "d_remove_member m p d =
     (if m \<notin> d_members d then (drop_member m p d, [])
      else if d_player_members (drop_member m p d) = {} \<and> \<not> d_is_deleting d
      then (fst (d_end (drop_member m p d)), MemberRemoved (d_actor_id d) m p # snd (d_end (drop_member m p d)))
      else (drop_member m p d, [MemberRemoved (d_actor_id d) m p]))"
  by (simp add: d_remove_member_def drop_member_def Let_def split_beta)

lemma drop_member_laws:
  assumes "director_inv plays d"
  shows "director_inv plays (drop_member m (plays m) d)"
    and "director_view (drop_member m (plays m) d) =
      director_replay (MemberRemoved a m (plays m)) (director_view d)"
    and "m \<notin> d_members d \<Longrightarrow> director_view (drop_member m (plays m) d) = director_view d"
    and "d_is_deleted (drop_member m p d) = d_is_deleted d"
  using assms by (auto simp: drop_member_def director_inv_def director_view_def)

lemma d_remove_member_laws:
  assumes "director_inv plays d"
  shows "director_inv plays (fst (d_remove_member m (plays m) d))"
    and "director_view (fst (d_remove_member m (plays m) d)) =
      fold director_replay (snd (d_remove_member m (plays m) d)) (director_view d)"
    and "count_events is_director_ended (snd (d_remove_member m (plays m) d))
      + (if d_is_deleted d then 1 else 0) = (if d_is_deleted (fst (d_remove_member m (plays m) d)) then 1 else 0)"
    and "count_events is_guildleve_ended (snd (d_remove_member m (plays m) d)) = 0"
proof -
  note drop = drop_member_laws [OF assms, of m]
  show "director_inv plays (fst (d_remove_member m (plays m) d))"
    using drop(1) by (simp add: d_remove_member_eq d_end_inv)
  show "director_view (fst (d_remove_member m (plays m) d)) =
      fold director_replay (snd (d_remove_member m (plays m) d)) (director_view d)"
    using drop(2) [of "d_actor_id d"] drop(3) by (simp add: d_remove_member_eq d_end_view [OF drop(1)])
  show "count_events is_guildleve_ended (snd (d_remove_member m (plays m) d)) = 0"
    by (simp add: d_remove_member_eq d_end_count_leve)
  have "d_is_deleting d = d_is_deleted d" using assms by (simp add: director_inv_def)
  then show "count_events is_director_ended (snd (d_remove_member m (plays m) d))
      + (if d_is_deleted d then 1 else 0) = (if d_is_deleted (fst (d_remove_member m (plays m) d)) then 1 else 0)"
    by (simp add: d_remove_member_eq d_end_count d_end_deleted drop(4))
qed

lemma d_start_laws:
  assumes "d_start cp spawn d = Ok (d', es)"
  shows "director_inv plays d \<Longrightarrow> director_inv plays d'"
    and "director_view d' = fold director_replay es (director_view d)"
    and "count_events is_director_ended es = 0" "count_events is_guildleve_ended es = 0"
    and "d_is_deleted d' = d_is_deleted d"
  using d_start_effect [OF assms] by (auto simp: director_inv_def director_view_def)

section \<open>The contracts\<close>

lemma director_step_inv:
  assumes "director_inv plays d" and "director_step plays d d' es"
  shows "director_inv plays d'"
  using assms(2,1)
proof (cases rule: director_step.cases)
  case (step_group g)
  with assms(1) show ?thesis by (simp add: set_content_group_id_def director_inv_def)
qed (simp_all add: d_start_laws(1) d_end_inv d_add_member_laws(1) d_remove_member_laws(1))

lemma director_step_view:
  assumes "director_inv plays d" and "director_step plays d d' es"
  shows "director_view d' = fold director_replay es (director_view d)"
  using assms(2,1)
proof (cases rule: director_step.cases)
  case step_start
  then show ?thesis by (rule d_start_laws(2))
qed (simp_all add: d_end_view d_add_member_laws(2) d_remove_member_laws(2) on_event_started_def
    set_content_group_id_def director_view_def [of "d\<lparr>d_content_group_id := _\<rparr>"] director_view_def [of d])

lemma director_step_ended:
  assumes "director_inv plays d" and "director_step plays d d' es"
  shows "count_events is_director_ended es + (if d_is_deleted d then 1 else 0) = (if d_is_deleted d' then 1 else 0)"
  using assms(2,1)
proof (cases rule: director_step.cases)
  case (step_add m)
  then show ?thesis using d_add_member_laws(3) [OF assms(1), of m "plays m"] by (simp add: d_add_member_def)
qed (simp_all add: d_start_laws(3,5) d_end_count d_end_deleted d_remove_member_laws(3) on_event_started_def
    set_content_group_id_def)

lemma director_step_no_leve:
  assumes "director_inv plays d" and "director_step plays d d' es"
  shows "count_events is_guildleve_ended es = 0"
  using assms(2,1)
  by (cases rule: director_step.cases)
    (simp_all add: d_start_laws(4) d_end_count_leve d_add_member_laws(4) d_remove_member_laws(4) on_event_started_def)

interpretation director_log: event_log "director_step plays" "director_inv plays" director_view director_replay
  for plays
  by unfold_locales (fact director_step_inv, fact director_step_view)

interpretation director_once: event_bound "director_step plays" "director_inv plays" d_is_deleted is_director_ended
  for plays
  by unfold_locales (fact director_step_inv, fact director_step_ended)

text \<open>A director that has lost a member and is not deleted still has a player.\<close>

lemma removed_keeps_player:
  assumes "director_inv plays d" and "director_step plays d d' es"
    and "d_player_members d \<noteq> {} \<or> (\<exists>e \<in> set es. is_member_removed e)" and "\<not> d_is_deleted d'"
  shows "d_player_members d' \<noteq> {}"
  using assms(2)
proof (cases rule: director_step.cases)
  case (step_start cp spawn)
  then show ?thesis using assms(3) d_start_effect [OF step_start] by auto
next
  case (step_remove m)
  have "d_is_deleting d = d_is_deleted d" "d_player_members d \<subseteq> d_members d"
    using assms(1) by (auto simp: director_inv_def)
  then show ?thesis using assms(3,4) step_remove
    by (auto simp: d_remove_member_eq d_end_deleted drop_member_def split: if_splits)
qed (use assms(3,4) in \<open>auto simp: d_end_deleted d_add_member_def on_event_started_def set_content_group_id_def
    split: if_splits\<close>)

lemma run_removed_keeps_player:
  assumes "emits_star (director_step plays) d d' es" and "director_inv plays d"
    and "\<exists>e \<in> set es. is_member_removed e" and "\<not> d_is_deleted d'"
  shows "d_player_members d' \<noteq> {}"
  using assms
proof (induction rule: emits_star.induct)
  case (emits_step d d' es d'' es')
  have inv: "director_inv plays d'"
    using emits_step.hyps(1) emits_step.prems(1) by (rule director_log.run_inv)
  have live: "\<not> d_is_deleted d'"
    using director_step_ended [OF inv emits_step.hyps(2)] emits_step.prems(3) by (auto split: if_splits)
  show ?case
  proof (cases "\<exists>e \<in> set es. is_member_removed e")
    case True
    with emits_step.IH emits_step.prems(1) live have "d_player_members d' \<noteq> {}" by blast
    then show ?thesis using removed_keeps_player [OF inv emits_step.hyps(2)] emits_step.prems(3) by blast
  next
    case False
    with emits_step.prems(2) have "\<exists>e \<in> set es'. is_member_removed e" by auto
    then show ?thesis using removed_keeps_player [OF inv emits_step.hyps(2)] emits_step.prems(3) by blast
  qed
qed simp

text \<open>
  C15: A director's event stream is an exact account of it. After any sequence of operations on a new
  director (with one player flag per actor), replaying the pushed events gives its members, its
  players, whether it was started and how often it ended; the players are the members that play; the
  director ends at most once; and one that has lost a member and is not deleted still has a player.
\<close>

theorem director_event_account:
  assumes "emits_star (director_step plays) (d_new local_id zone_id path has_group) d es"
  shows "director_view d = fold director_replay es empty_director_view
    \<and> d_player_members d = {m \<in> d_members d. plays m} \<and> finite (d_members d)
    \<and> count_events is_director_ended es \<le> 1
    \<and> (d_is_deleted d \<longleftrightarrow> count_events is_director_ended es = 1)
    \<and> ((\<exists>e \<in> set es. is_member_removed e) \<and> \<not> d_is_deleted d \<longrightarrow> d_player_members d \<noteq> {})"
proof -
  have new: "\<not> d_is_deleted (d_new local_id zone_id path has_group)" by (simp add: d_new_def)
  have inv: "director_inv plays d" using director_log.run_inv [OF assms] by simp
  show ?thesis
    using director_log.run_view [OF assms director_inv_new] director_once.at_most_once [OF assms director_inv_new]
      director_once.run_counts [OF assms director_inv_new] run_removed_keeps_player [OF assms director_inv_new] inv new
    by (simp add: director_inv_def split: if_splits)
qed

lemma director_event_account_witness:
  "\<exists>d. emits_star (director_step (\<lambda>m. m = 1)) (d_new 7 100 [] False) d
        [MemberAdded 0x63200009 1 True, MemberAdded 0x63200009 2 False, MemberRemoved 0x63200009 1 True,
         MemberRemoved 0x63200009 2 False, DirectorEnded 0x63200009 100]
     \<and> d_is_deleted d \<and> d_player_members d = {m \<in> d_members d. m = 1}"
proof -
  let ?p = "\<lambda>m :: u32. m = 1"
  let ?d0 = "d_new 7 100 [] False"
  let ?d1 = "fst (d_add_member 1 True ?d0)"
  let ?d2 = "fst (d_add_member 2 False ?d1)"
  let ?d3 = "fst (d_remove_member 1 True ?d2)"
  let ?es = "(([] @ snd (d_add_member 1 True ?d0)) @ snd (d_add_member 2 False ?d1)) @ snd (d_remove_member 1 True ?d2)"
  have steps: "director_step ?p ?d0 ?d1 (snd (d_add_member 1 True ?d0))"
    "director_step ?p ?d1 ?d2 (snd (d_add_member 2 False ?d1))"
    "director_step ?p ?d2 ?d3 (snd (d_remove_member 1 True ?d2))"
    using step_add [of ?p ?d0 1] step_add [of ?p ?d1 2] step_remove [of ?p ?d2 1] by simp_all
  have run: "emits_star (director_step ?p) ?d0 ?d3 ?es"
    using emits_cons [where step = "director_step ?p", OF steps(1)
        emits_cons [where step = "director_step ?p", OF steps(2)
          emits_single [where step = "director_step ?p", OF steps(3)]]] by simp
  have sets: "{2, 1} - {1 :: u32} = {2}" by auto
  have id: "encode_director_actor_id 100 7 = 0x63200009" by code_simp
  have es: "?es = [MemberAdded 0x63200009 1 True, MemberAdded 0x63200009 2 False,
      MemberRemoved 0x63200009 1 True, MemberRemoved 0x63200009 2 False, DirectorEnded 0x63200009 100]"
    and del: "d_is_deleted ?d3"
    by (simp_all add: d_add_member_def d_remove_member_def d_end_def d_new_def id sets)
  from director_event_account [OF run] run del show ?thesis unfolding es by blast
qed

section \<open>Actor names and actor ids\<close>

definition base63_index :: "u8 \<Rightarrow> nat" where
  "base63_index b = length (takeWhile (\<lambda>c. c \<noteq> b) BASE63_ALPHABET)"

definition base63_value :: "u8 list \<Rightarrow> nat" where
  "base63_value s = digit_value 63 (rev (map base63_index s))"

lemma base63_index_digit: "d < 63 \<Longrightarrow> base63_index (BASE63_ALPHABET ! d) = d \<and> BASE63_ALPHABET ! d \<noteq> 0x40"
proof -
  assume "d < 63"
  then have "d \<in> set [0..<63]" by simp
  moreover have "\<forall>d \<in> set [0..<63]. base63_index (BASE63_ALPHABET ! d) = d \<and> BASE63_ALPHABET ! d \<noteq> 0x40"
    by code_simp
  ultimately show ?thesis by blast
qed

lemma base63_value_to_base63: "base63_value (to_base63 n) = unat n"
proof (cases "n = 0")
  case True
  have "base63_value (ascii ''0'') = 0" by code_simp
  with True show ?thesis by (simp add: to_base63_def)
next
  case False
  have "map base63_index (map (\<lambda>d. BASE63_ALPHABET ! d) (digit_loop 63 (unat n))) = digit_loop 63 (unat n)"
    using digit_loop_less [of 63] base63_index_digit by (auto intro!: map_idI)
  with False show ?thesis by (simp add: to_base63_def base63_value_def rev_map [symmetric] comp_def)
qed

lemma to_base63_inj: "to_base63 n = to_base63 m \<longleftrightarrow> n = m"
  by (metis base63_value_to_base63 word_unat_eq_iff)

lemma to_base63_no_at: "0x40 \<notin> set (to_base63 n)"
proof (cases "n = 0")
  case True
  have "0x40 \<notin> set (ascii ''0'')" by code_simp
  with True show ?thesis by (simp add: to_base63_def)
next
  case False
  then show ?thesis using digit_loop_less [of 63 _ "unat n"] base63_index_digit
    by (auto simp: to_base63_def)
qed

lemma field_name_bytes: "b \<in> set (field_name z) \<Longrightarrow> b \<in> set (ascii ''field'') \<or> (0x30 \<le> b \<and> b \<le> 0x39)"
  using fmt_dec_digits by (auto simp: field_name_def)

lemma field_name_lower: "b \<in> set (field_name z) \<Longrightarrow> b \<noteq> 0x5F \<and> \<not> (0x41 \<le> b \<and> b \<le> 0x5A)"
proof -
  assume "b \<in> set (field_name z)"
  then consider "b \<in> set (ascii ''field'')" | "0x30 \<le> b" "b \<le> 0x39" using field_name_bytes by blast
  then show ?thesis
  proof cases
    case 1
    moreover have "\<forall>b \<in> set (ascii ''field''). b \<noteq> 0x5F \<and> \<not> (0x41 \<le> b \<and> b \<le> 0x5A)" by code_simp
    ultimately show ?thesis by blast
  next
    case 2
    then show ?thesis by unat_arith
  qed
qed

text \<open>The generated zone name has no capital, so no abbreviation applies to it.\<close>

lemma field_name_not_abbreviated: "lower_first (abbreviate_zone_name (field_name z)) = field_name z"
proof -
  have no: "b \<notin> set (field_name z)" if "0x41 \<le> b" "b \<le> 0x5A" for b
    using field_name_lower that by blast
  have ascs: "ascii ''Office'' = 0x4F # ascii ''ffice''" "ascii ''Ship'' = 0x53 # ascii ''hip''"
    "ascii ''Event'' = 0x45 # ascii ''vent''" "ascii ''Test'' = 0x54 # ascii ''est''"
    "ascii ''Battle'' = 0x42 # ascii ''attle''" "ascii ''Town'' = 0x54 # ascii ''own''"
    "ascii ''Dungeon'' = 0x44 # ascii ''ungeon''" "ascii ''Field'' = 0x46 # ascii ''ield''"
    by code_simp+
  have "abbreviate_zone_name (field_name z) = field_name z"
    unfolding abbreviate_zone_name_def ascs
    by (simp add: replace_bytes_absent no)
  moreover have "lower_first (field_name z) = field_name z"
  proof -
    have f: "ascii ''field'' = 0x66 # ascii ''ield''" "lower_byte 0x66 = 0x66" by code_simp+
    show ?thesis by (simp add: field_name_def f)
  qed
  ultimately show ?thesis by simp
qed

lemma start_actor_name:
  assumes "d_start cp spawn d = Ok (d', es)"
  shows "\<exists>c. length c \<le> 20 - length (field_name (d_zone_id d))
    \<and> d_actor_name d' = (c @ 0x5F # field_name (d_zone_id d) @ 0x5F # to_base63 (d_director_id d))
        @ 0x40 # (fmt_hex 3 (unat (d_zone_id d)) @ fmt_hex 2 0)"
proof -
  let ?d = "case cp of Some cp \<Rightarrow> d\<lparr>d_class_path := cp, d_class_name := last_segment cp\<rparr> | None \<Rightarrow> d"
  have asc: "ascii ''_'' = [0x5F]" "ascii ''@'' = [0x40]" by code_simp+
  have fields: "d_zone_id ?d = d_zone_id d" "d_director_id ?d = d_director_id d"
    by (simp_all split: option.split)
  from assms obtain g where g: "generate_actor_name (field_name (d_zone_id d)) ?d = Ok g"
    and d': "d' = g\<lparr>d_is_created := True\<rparr>"
    by (auto simp: d_start_def Let_def fields bind_outcome_Ok_iff)
  from g obtain c where c:
    "(if 20 - length (field_name (d_zone_id d)) < length (lower_first (d_class_name ?d))
      then truncate_str (lower_first (d_class_name ?d)) (20 - length (field_name (d_zone_id d)))
      else Ok (lower_first (d_class_name ?d))) = (Ok c :: (unit, u8 list) outcome)"
    and "d_actor_name g = c @ [0x5F] @ field_name (d_zone_id d) @ [0x5F] @ to_base63 (d_director_id d)
           @ [0x40] @ fmt_hex 3 (unat (d_zone_id d)) @ fmt_hex 2 0"
    by (auto simp: generate_actor_name_def Let_def field_name_not_abbreviated bind_outcome_Ok_iff asc fields)
  moreover from c have "length c \<le> 20 - length (field_name (d_zone_id d))"
    by (auto simp: truncate_str_def split: if_splits)
  ultimately show ?thesis using d' by auto
qed

text \<open>The last separator splits a name uniquely.\<close>

lemma split_at_last:
  assumes "xs @ b # us = ys @ b # vs" and "b \<notin> set us" and "b \<notin> set vs"
  shows "xs = ys \<and> us = vs"
proof -
  have tail: "rev (takeWhile (\<lambda>c. c \<noteq> b) (rev (zs @ b # ws))) = ws" if "b \<notin> set ws" for zs ws
  proof -
    have "takeWhile (\<lambda>c. c \<noteq> b) (rev ws @ b # rev zs) = rev ws @ takeWhile (\<lambda>c. c \<noteq> b) (b # rev zs)"
      using that by (intro takeWhile_append2) auto
    then show ?thesis by simp
  qed
  have "us = vs" using tail [OF assms(2), of xs] tail [OF assms(3), of ys] assms(1) by simp
  with assms(1) show ?thesis by simp
qed

text \<open>A short prefix before a separated block is determined by the block.\<close>

lemma split_before_block:
  assumes "c1 @ b # z @ r1 = c2 @ b # z @ r2" and "b \<notin> set z"
    and "length c1 \<le> length z" and "length c2 \<le> length z"
  shows "c1 = c2 \<and> r1 = r2"
proof -
  have no: False if eq: "c1 @ b # z @ r1 = c2 @ b # z @ r2" and lt: "length c1 < length c2"
    and l: "length c2 \<le> length z" for c1 c2 r1 r2
  proof -
    have "b = (c2 @ b # z @ r2) ! length c2" by simp
    also have "\<dots> = (c1 @ b # z @ r1) ! length c2" by (simp only: eq)
    also have "\<dots> = z ! (length c2 - length c1 - 1)"
    proof -
      have "length c2 - length c1 - 1 < length z" "length c2 - length c1 = Suc (length c2 - length c1 - 1)"
        using lt l by linarith+
      then show ?thesis using lt by (simp add: nth_append del: One_nat_def)
    qed
    also have "\<dots> \<in> set z" using lt l by (intro nth_mem) linarith
    finally show False using assms(2) by simp
  qed
  have "length c1 = length c2"
    using no [OF assms(1) _ assms(4)] no [OF assms(1) [symmetric] _ assms(3)]
    by (cases "length c1" "length c2" rule: linorder_cases) auto
  with assms(1) show ?thesis by simp
qed

lemma field_name_length: "10 \<le> length (field_name z)"
proof -
  have "length (ascii ''field'') = 5" by code_simp
  then show ?thesis using length_fmt_radix [of 5 10 "unat z"] by (simp add: field_name_def fmt_dec_def)
qed

text \<open>
  Actor names never clash. Two started directors with the same generated actor name are of the same
  zone and have the same director number, whatever script paths they were created or started with.
\<close>

theorem actor_names_unique:
  assumes "d_start cp1 spawn1 d1 = Ok (d1', es1)" and "d_start cp2 spawn2 d2 = Ok (d2', es2)"
    and "d_actor_name d1' = d_actor_name d2'"
  shows "d_zone_id d1 = d_zone_id d2 \<and> d_director_id d1 = d_director_id d2"
proof -
  obtain c1 where c1: "length c1 \<le> 20 - length (field_name (d_zone_id d1))" "d_actor_name d1' =
      (c1 @ 0x5F # field_name (d_zone_id d1) @ 0x5F # to_base63 (d_director_id d1))
        @ 0x40 # (fmt_hex 3 (unat (d_zone_id d1)) @ fmt_hex 2 0)"
    using start_actor_name [OF assms(1)] by blast
  obtain c2 where c2: "length c2 \<le> 20 - length (field_name (d_zone_id d2))" "d_actor_name d2' =
      (c2 @ 0x5F # field_name (d_zone_id d2) @ 0x5F # to_base63 (d_director_id d2))
        @ 0x40 # (fmt_hex 3 (unat (d_zone_id d2)) @ fmt_hex 2 0)"
    using start_actor_name [OF assms(2)] by blast
  have parts: "c1 @ 0x5F # field_name (d_zone_id d1) @ 0x5F # to_base63 (d_director_id d1)
        = c2 @ 0x5F # field_name (d_zone_id d2) @ 0x5F # to_base63 (d_director_id d2)
      \<and> fmt_hex 3 (unat (d_zone_id d1)) @ fmt_hex 2 0 = fmt_hex 3 (unat (d_zone_id d2)) @ fmt_hex 2 0"
    by (rule split_at_last [of _ "0x40"]) (use c1(2) c2(2) assms(3) fmt_hex_no_at in auto)
  then have zone: "d_zone_id d1 = d_zone_id d2" by (simp add: fmt_hex_inj word_unat_eq_iff)
  have eq: "c1 @ 0x5F # field_name (d_zone_id d1) @ 0x5F # to_base63 (d_director_id d1)
        = c2 @ 0x5F # field_name (d_zone_id d1) @ 0x5F # to_base63 (d_director_id d2)"
    using parts zone by simp
  have "0x5F \<notin> set (field_name (d_zone_id d1))" using field_name_lower by blast
  from split_before_block [OF eq this] c1(1) c2(1) field_name_length [of "d_zone_id d1"] zone
  have "to_base63 (d_director_id d1) = to_base63 (d_director_id d2)" by auto
  with zone show ?thesis by (simp add: to_base63_inj)
qed

lemma actor_names_unique_witness:
  "\<exists>d1 d2 es1 es2. d_start None True (d_new 7 100 (ascii ''Weather/Default'') False) = Ok (d1, es1)
     \<and> d_start (Some (ascii ''Area/Default'')) False (d_new 7 100 [] True) = Ok (d2, es2)
     \<and> d_actor_name d1 = d_actor_name d2
     \<and> d_zone_id (d_new 7 100 (ascii ''Weather/Default'') False) = d_zone_id (d_new 7 100 [] True)"
proof -
  let ?d1 = "d_new 7 100 (ascii ''Weather/Default'') False"
  let ?d2 = "d_new 7 100 [] True"
  have c: "case d_start None True ?d1 of Ok (d1, es1) \<Rightarrow>
      (case d_start (Some (ascii ''Area/Default'')) False ?d2 of
         Ok (d2, es2) \<Rightarrow> d_actor_name d1 = d_actor_name d2 | _ \<Rightarrow> False) | _ \<Rightarrow> False"
    by code_simp
  obtain d1 es1 where s1: "d_start None True ?d1 = Ok (d1, es1)"
    using c by (cases "d_start None True ?d1") auto
  obtain d2 es2 where s2: "d_start (Some (ascii ''Area/Default'')) False ?d2 = Ok (d2, es2)"
    using c s1 by (cases "d_start (Some (ascii ''Area/Default'')) False ?d2") auto
  from c s1 s2 have "d_actor_name d1 = d_actor_name d2" by simp
  with actor_names_unique [OF s1 s2] s1 s2 show ?thesis by blast
qed

text \<open>A composite actor id gives the zone back, and the director number below the mask.\<close>

definition director_zone_of :: "u32 \<Rightarrow> u32" where
  "director_zone_of actor_id = drop_bit 19 actor_id AND 0x1FF"

lemma bit_director_actor_id:
  "bit (encode_director_actor_id z l) n \<longleftrightarrow>
     n < 32 \<and> (if n < 19 then bit (l + 2) n else if n < 28 then bit z (n - 19) else n = 29 \<or> n = 30)"
proof -
  have ge: "bit (encode_director_actor_id z l) n \<Longrightarrow> n < 32" using bit_imp_le_length by fastforce
  have m9: "bit (0x1FF :: u32) k \<longleftrightarrow> k < 9" and m19: "bit (0x7FFFF :: u32) k \<longleftrightarrow> k < 19" for k
  proof -
    have m: "(0x1FF :: u32) = mask 9" "(0x7FFFF :: u32) = mask 19" by code_simp+
    show "bit (0x1FF :: u32) k \<longleftrightarrow> k < 9" "bit (0x7FFFF :: u32) k \<longleftrightarrow> k < 19"
      unfolding m bit_mask_iff by auto
  qed
  have six: "bit (6 :: u32) k \<longleftrightarrow> k = 1 \<or> k = 2" for k
  proof (cases "k < 32")
    case True
    then have "k \<in> set [0..<32]" by simp
    moreover have "\<forall>k \<in> set [0..<32]. bit (6 :: u32) k \<longleftrightarrow> k = 1 \<or> k = 2" by code_simp
    ultimately show ?thesis by blast
  next
    case False
    then show ?thesis using bit_imp_le_length [of "6 :: u32" k] by auto
  qed
  have "bit (encode_director_actor_id z l) n \<longleftrightarrow>
      (28 \<le> n \<and> n < 32 \<and> (n - 28 = 1 \<or> n - 28 = 2))
      \<or> (19 \<le> n \<and> n < 32 \<and> bit z (n - 19) \<and> n - 19 < 9) \<or> (bit (l + 2) n \<and> n < 19)"
    unfolding encode_director_actor_id_def
    by (simp only: bit_or_iff bit_push_bit_iff bit_and_iff m9 m19 six possible_bit_word len_num0 len_bit0 len_num1 len_bit1) auto
  then show ?thesis by (cases "n < 32") (auto simp: ge dest: ge)
qed

lemma director_zone_of_encode:
  "director_zone_of (encode_director_actor_id z l) = z AND 0x1FF"
proof (rule bit_word_eqI)
  fix n assume "n < LENGTH(32)"
  then have "n < 32" by simp
  have m: "(0x1FF :: u32) = mask 9" by code_simp
  show "bit (director_zone_of (encode_director_actor_id z l)) n \<longleftrightarrow> bit (z AND 0x1FF) n"
    using \<open>n < 32\<close>
    unfolding m director_zone_of_def by (auto simp: bit_simps bit_director_actor_id)
qed

lemma bit_word_ge: "bit (w :: 'a::len word) n \<Longrightarrow> 2 ^ n \<le> unat w"
proof -
  assume "bit w n"
  then have "bit (unat w) n" using bit_imp_le_length [of w n] by (simp add: bit_unsigned_iff)
  then have "unat w div 2 ^ n \<noteq> 0" by (metis bit_iff_odd even_zero)
  then show ?thesis by (simp add: div_eq_0_iff not_less)
qed

lemma encode_director_actor_id_inj:
  assumes "encode_director_actor_id z l = encode_director_actor_id z l'"
    and "unat l + 2 < 2 ^ 19" and "unat l' + 2 < 2 ^ 19"
  shows "l = l'"
proof -
  have high: "\<not> bit (l + 2) n" if "unat l + 2 < 2 ^ 19" "19 \<le> n" for l :: u32 and n
  proof
    assume "bit (l + 2) n"
    then have "2 ^ n \<le> unat (l + 2)" by (rule bit_word_ge)
    moreover have "unat (l + 2) = unat l + 2" using that(1) by (simp add: unat_word_ariths)
    moreover have "(2 :: nat) ^ 19 \<le> 2 ^ n" using that(2) by (rule power_increasing) simp
    ultimately show False using that(1) by linarith
  qed
  have "l + 2 = l' + 2"
  proof (rule bit_word_eqI)
    fix n
    show "bit (l + 2) n \<longleftrightarrow> bit (l' + 2) n"
    proof (cases "n < 19")
      case True
      with bit_director_actor_id [of z l n] bit_director_actor_id [of z l' n] assms(1) show ?thesis by simp
    next
      case False
      with high assms(2,3) show ?thesis by simp
    qed
  qed
  then show ?thesis by simp
qed

end
