(* ===== verification/GrandCompany.thy ===== *)
theory GrandCompany
  imports Prelude
begin

text \<open>
  Grand Companies on the map server: the tables of \<open>actor/gc.rs\<close>, the seal balances kept by
  \<open>database.rs\<close> (\<open>add_seals\<close>, \<open>get_seals\<close>, \<open>set_gc_current\<close>, \<open>set_gc_rank\<close>), the seal awards of
  \<open>runtime/dispatcher.rs\<close> and the handlers of \<open>processor.rs\<close> (join, set rank, promote, add seals).
  Whether a database call succeeds is an argument (\<open>up\<close>), as is whether a session has a client
  (\<open>connected\<close>).
\<close>

section \<open>Tables\<close>

definition GC_NONE :: u8 where "GC_NONE = 0"
definition GC_MAELSTROM :: u8 where "GC_MAELSTROM = 1"
definition GC_TWIN_ADDER :: u8 where "GC_TWIN_ADDER = 2"
definition GC_IMMORTAL_FLAMES :: u8 where "GC_IMMORTAL_FLAMES = 3"
definition SEAL_STORM :: u32 where "SEAL_STORM = 1000201"
definition SEAL_SERPENT :: u32 where "SEAL_SERPENT = 1000202"
definition SEAL_FLAME :: u32 where "SEAL_FLAME = 1000203"
definition RANK_RECRUIT :: u8 where "RANK_RECRUIT = 127"
definition STORY_RANK_CAP :: u8 where "STORY_RANK_CAP = 31"

lemmas gc_ids = GC_NONE_def GC_MAELSTROM_def GC_TWIN_ADDER_def GC_IMMORTAL_FLAMES_def

definition is_valid_gc :: "u8 \<Rightarrow> bool" where
  "is_valid_gc gc \<longleftrightarrow> gc = GC_MAELSTROM \<or> gc = GC_TWIN_ADDER \<or> gc = GC_IMMORTAL_FLAMES"

definition seal_item_id :: "u8 \<Rightarrow> u32 option" where
  "seal_item_id gc =
     (if gc = GC_MAELSTROM then Some SEAL_STORM else if gc = GC_TWIN_ADDER then Some SEAL_SERPENT
      else if gc = GC_IMMORTAL_FLAMES then Some SEAL_FLAME else None)"

definition rank_seal_cap :: "u8 \<Rightarrow> int" where
  "rank_seal_cap rank =
     (if rank = 0 then 0 else if rank = 11 then 10000 else if rank = 13 then 15000
      else if rank = 15 then 20000 else if rank = 17 then 25000 else if rank = 21 then 30000
      else if rank = 23 then 35000 else if rank = 25 then 40000 else if rank = 27 then 45000
      else if rank = 31 then 50000 else if rank = 33 then 50000 else if rank = 35 then 50000
      else if rank = 41 then 60000 else if rank = 43 then 60000 else if rank = 45 then 60000
      else if rank = 51 then 70000 else if rank = 53 then 70000 else if rank = 55 then 70000
      else if rank = 57 then 70000 else if rank = 100 then 100000 else if rank = 111 then 0
      else if rank = 127 then 10000 else 0)"

definition next_rank :: "u8 \<Rightarrow> u8 option" where
  "next_rank current =
     (if current = RANK_RECRUIT then Some 11 else if current = 11 then Some 13
      else if current = 13 then Some 15 else if current = 15 then Some 17
      else if current = 17 then Some 21 else if current = 21 then Some 23
      else if current = 23 then Some 25 else if current = 25 then Some 27
      else if current = 27 then Some 31 else None)"

definition gc_promotion_cost :: "u8 \<Rightarrow> int" where
  "gc_promotion_cost current =
     (if current = RANK_RECRUIT then 100 else if current = 11 then 100 else if current = 13 then 1000
      else if current = 15 then 1500 else if current = 17 then 2500 else if current = 21 then 5000
      else if current = 23 then 10000 else if current = 25 then 15000 else if current = 27 then 25000
      else 0)"

definition tier_shift_quest :: "u8 \<Rightarrow> u8 \<Rightarrow> u32 option" where
  "tier_shift_quest current_rank gc =
     (if current_rank = 17 then
        (if gc = GC_MAELSTROM then Some 111405 else if gc = GC_TWIN_ADDER then Some 111605
         else if gc = GC_IMMORTAL_FLAMES then Some 111805 else None)
      else if current_rank = 27 then
        (if gc = GC_MAELSTROM then Some 111434 else if gc = GC_TWIN_ADDER then Some 111634
         else if gc = GC_IMMORTAL_FLAMES then Some 111834 else None)
      else None)"

definition leve_completion_seal_reward :: "u8 \<Rightarrow> int" where
  "leve_completion_seal_reward difficulty =
     (if difficulty = 1 then 150 else if difficulty = 2 then 250 else if difficulty = 3 then 350
      else if difficulty = 4 then 450 else if difficulty = 5 then 550 else 0)"

section \<open>State\<close>

text \<open>
  \<open>gp_*\<close> is what the handlers read and write of a registered character; the seal stacks are the rows
  of the currency package by character and item; \<open>gw_db_*\<close> are the columns of the character row.
\<close>

record gc_player =
  gp_session_id :: u32
  gp_gc_current :: u8
  gp_gc_rank_limsa :: u8
  gp_gc_rank_gridania :: u8
  gp_gc_rank_uldah :: u8
  gp_completed_quests :: "u32 set"

record gc_world =
  gw_players :: "u32 \<Rightarrow> gc_player option"
  gw_stacks :: "u32 \<times> u32 \<Rightarrow> int option"
  gw_db_current :: "u32 \<Rightarrow> u8"
  gw_db_rank :: "u32 \<times> u8 \<Rightarrow> u8"

datatype gc_db_call =
    DbGetSeals u32 u8
  | DbAddSeals u32 u8 int
  | DbSetCurrent u32 u8
  | DbSetRank u32 u8 u8

datatype gc_send =
    SendGrandCompany u32 u8 u8 u8 u8
  | SendAnimation u32 u32
  | BroadcastAnimation u32 u32

definition gp_rank :: "u8 \<Rightarrow> gc_player \<Rightarrow> u8" where
  "gp_rank gc p =
     (if gc = GC_MAELSTROM then gp_gc_rank_limsa p else if gc = GC_TWIN_ADDER then gp_gc_rank_gridania p
      else if gc = GC_IMMORTAL_FLAMES then gp_gc_rank_uldah p else 0)"

definition gp_set_rank :: "u8 \<Rightarrow> u8 \<Rightarrow> gc_player \<Rightarrow> gc_player" where
  "gp_set_rank gc rank p =
     (if gc = GC_MAELSTROM then p\<lparr>gp_gc_rank_limsa := rank\<rparr>
      else if gc = GC_TWIN_ADDER then p\<lparr>gp_gc_rank_gridania := rank\<rparr>
      else if gc = GC_IMMORTAL_FLAMES then p\<lparr>gp_gc_rank_uldah := rank\<rparr> else p)"

definition put_player :: "u32 \<Rightarrow> gc_player \<Rightarrow> gc_world \<Rightarrow> gc_world" where
  "put_player player_id p w = w\<lparr>gw_players := (gw_players w)(player_id := Some p)\<rparr>"

section \<open>The seal stacks\<close>

definition i32_saturating_add :: "int \<Rightarrow> int \<Rightarrow> int" where
  "i32_saturating_add a b = max (- (2 ^ 31)) (min (2 ^ 31 - 1) (a + b))"

text \<open>Both answer \<open>None\<close> when the database call fails.\<close>

definition get_seals :: "(gc_db_call \<Rightarrow> bool) \<Rightarrow> u32 \<Rightarrow> u8 \<Rightarrow> gc_world \<Rightarrow> int option" where
  "get_seals up chara_id gc w =
     (case seal_item_id gc of
        None \<Rightarrow> Some 0
      | Some seal_id \<Rightarrow>
          if up (DbGetSeals chara_id gc)
          then Some (case gw_stacks w (chara_id, seal_id) of Some q \<Rightarrow> q | None \<Rightarrow> 0) else None)"

definition add_seals :: "(gc_db_call \<Rightarrow> bool) \<Rightarrow> u32 \<Rightarrow> u8 \<Rightarrow> int \<Rightarrow> gc_world \<Rightarrow> int option \<times> gc_world" where
  "add_seals up chara_id gc delta w =
     (case seal_item_id gc of
        None \<Rightarrow> (Some 0, w)
      | Some seal_id \<Rightarrow>
          if up (DbAddSeals chara_id gc delta)
          then let total = (case gw_stacks w (chara_id, seal_id) of
                              Some qty \<Rightarrow> max (i32_saturating_add qty delta) 0
                            | None \<Rightarrow> max delta 0)
               in (Some total, w\<lparr>gw_stacks := (gw_stacks w)((chara_id, seal_id) := Some total)\<rparr>)
          else (None, w))"

definition set_gc_current :: "(gc_db_call \<Rightarrow> bool) \<Rightarrow> u32 \<Rightarrow> u8 \<Rightarrow> gc_world \<Rightarrow> gc_world" where
  "set_gc_current up chara_id gc w =
     (if up (DbSetCurrent chara_id gc)
      then w\<lparr>gw_db_current := (gw_db_current w)(chara_id := gc)\<rparr> else w)"

definition set_gc_rank :: "(gc_db_call \<Rightarrow> bool) \<Rightarrow> u32 \<Rightarrow> u8 \<Rightarrow> u8 \<Rightarrow> gc_world \<Rightarrow> gc_world" where
  "set_gc_rank up chara_id gc rank w =
     (if is_valid_gc gc \<and> up (DbSetRank chara_id gc rank)
      then w\<lparr>gw_db_rank := (gw_db_rank w)((chara_id, gc) := rank)\<rparr> else w)"

section \<open>Awards\<close>

text \<open>
  The tail the two award functions share in the source, word for word: the enlistment and cap
  guards, the balance (0 when it cannot be read), the clipped grant.
\<close>

definition award_up_to_cap :: "(gc_db_call \<Rightarrow> bool) \<Rightarrow> u32 \<Rightarrow> (gc_player \<Rightarrow> int) \<Rightarrow> gc_world \<Rightarrow> gc_world" where
  "award_up_to_cap up actor_id reward w =
     (case gw_players w actor_id of
        None \<Rightarrow> w
      | Some p \<Rightarrow>
          let gc = gp_gc_current p; cap = rank_seal_cap (gp_rank gc p); base_reward = reward p in
          if gc = 0 \<or> \<not> is_valid_gc gc then w
          else if base_reward \<le> 0 \<or> cap = 0 then w
          else let current = (case get_seals up actor_id gc w of Some b \<Rightarrow> b | None \<Rightarrow> 0)
               in if cap \<le> current then w
                  else let grant = min base_reward (i32_wrap (cap - current))
                       in if grant \<le> 0 then w else snd (add_seals up actor_id gc grant w))"

definition award_grand_company_seals :: "(gc_db_call \<Rightarrow> bool) \<Rightarrow> u32 \<Rightarrow> int \<Rightarrow> gc_world \<Rightarrow> gc_world" where
  "award_grand_company_seals up attacker mob_level w =
     award_up_to_cap up attacker (\<lambda>_. max 1 (min 100 mob_level)) w"

definition award_leve_completion_seals :: "(gc_db_call \<Rightarrow> bool) \<Rightarrow> u32 \<Rightarrow> u8 \<Rightarrow> gc_world \<Rightarrow> gc_world" where
  "award_leve_completion_seals up member difficulty w =
     award_up_to_cap up member (\<lambda>_. leve_completion_seal_reward difficulty) w"

section \<open>Handlers\<close>

definition emit_grand_company_packet :: "(u32 \<Rightarrow> bool) \<Rightarrow> u32 \<Rightarrow> gc_world \<Rightarrow> gc_send list" where
  "emit_grand_company_packet connected player_id w =
     (case gw_players w player_id of
        None \<Rightarrow> []
      | Some p \<Rightarrow>
          if connected (gp_session_id p)
          then [SendGrandCompany player_id (gp_gc_current p) (gp_gc_rank_limsa p)
                  (gp_gc_rank_gridania p) (gp_gc_rank_uldah p)]
          else [])"

definition apply_add_seals :: "(gc_db_call \<Rightarrow> bool) \<Rightarrow> u32 \<Rightarrow> u8 \<Rightarrow> int \<Rightarrow> gc_world \<Rightarrow> gc_world" where
  "apply_add_seals up player_id gc amount w =
     (if \<not> is_valid_gc gc then w else snd (add_seals up player_id gc amount w))"

definition apply_join_gc ::
    "(u32 \<Rightarrow> bool) \<Rightarrow> (gc_db_call \<Rightarrow> bool) \<Rightarrow> u32 \<Rightarrow> u8 \<Rightarrow> gc_world \<Rightarrow> gc_world \<times> gc_send list" where
  "apply_join_gc connected up player_id gc w =
     (case gw_players w player_id of
        None \<Rightarrow> (w, [])
      | Some p \<Rightarrow>
          if \<not> is_valid_gc gc then (w, [])
          else let p = p\<lparr>gp_gc_current := gc\<rparr>;
                   p = (if gp_rank gc p = 0 then gp_set_rank gc RANK_RECRUIT p else p);
                   w = set_gc_rank up player_id gc (gp_rank gc p)
                         (set_gc_current up player_id gc (put_player player_id p w))
               in (w, emit_grand_company_packet connected player_id w))"

definition apply_set_gc_rank ::
    "(u32 \<Rightarrow> bool) \<Rightarrow> (gc_db_call \<Rightarrow> bool) \<Rightarrow> u32 \<Rightarrow> u8 \<Rightarrow> u8 \<Rightarrow> gc_world \<Rightarrow> gc_world \<times> gc_send list" where
  "apply_set_gc_rank connected up player_id gc rank w =
     (case gw_players w player_id of
        None \<Rightarrow> (w, [])
      | Some p \<Rightarrow>
          if \<not> is_valid_gc gc then (w, [])
          else let w = set_gc_rank up player_id gc rank (put_player player_id (gp_set_rank gc rank p) w)
               in (w, emit_grand_company_packet connected player_id w))"

definition RANKUP_ANIMATION_ID :: u32 where "RANKUP_ANIMATION_ID = 0x04000FFB"

definition apply_promote_gc ::
    "(u32 \<Rightarrow> bool) \<Rightarrow> (gc_db_call \<Rightarrow> bool) \<Rightarrow> u32 \<Rightarrow> u8 \<Rightarrow> gc_world \<Rightarrow> gc_world \<times> gc_send list" where
  "apply_promote_gc connected up player_id gc w =
     (if \<not> is_valid_gc gc then (w, [])
      else case gw_players w player_id of
        None \<Rightarrow> (w, [])
      | Some p \<Rightarrow>
          let current_rank = gp_rank gc p in
          if gp_gc_current p \<noteq> gc then (w, [])
          else case next_rank current_rank of
            None \<Rightarrow> (w, [])
          | Some rank \<Rightarrow>
              if (case tier_shift_quest current_rank gc of
                    Some gate \<Rightarrow> gate \<notin> gp_completed_quests p | None \<Rightarrow> False)
              then (w, [])
              else let cost = gc_promotion_cost current_rank in
              if cost \<le> 0 then (w, [])
              else case get_seals up player_id gc w of
                None \<Rightarrow> (w, [])
              | Some balance \<Rightarrow>
                  if balance < cost then (w, [])
                  else case add_seals up player_id gc (- cost) w of
                    (None, w) \<Rightarrow> (w, [])
                  | (Some _, w) \<Rightarrow>
                      let w = set_gc_rank up player_id gc rank
                                (put_player player_id (gp_set_rank gc rank p) w)
                      in (w, emit_grand_company_packet connected player_id w
                             @ (if connected (gp_session_id p)
                                then [SendAnimation player_id RANKUP_ANIMATION_ID] else [])
                             @ [BroadcastAnimation player_id RANKUP_ANIMATION_ID]))"

end
