(* ===== verification/GrandCompanyLaws.thy ===== *)
theory GrandCompanyLaws
  imports GrandCompany
begin

text \<open>
  The laws of Grand Companies: awards fill a balance up to the cap of the rank and no further,
  promotions climb the ladder one rung at a time and charge its cost, and every rung can be reached.
\<close>

section \<open>Balances\<close>

definition seals_of :: "u8 \<Rightarrow> u32" where
  "seals_of gc = (case seal_item_id gc of Some s \<Rightarrow> s | None \<Rightarrow> 0)"

definition balance :: "gc_world \<Rightarrow> u32 \<Rightarrow> u8 \<Rightarrow> int" where
  "balance w player_id gc = (case gw_stacks w (player_id, seals_of gc) of Some q \<Rightarrow> q | None \<Rightarrow> 0)"

lemma seal_item_id_valid: "is_valid_gc gc \<Longrightarrow> seal_item_id gc = Some (seals_of gc)"
  by (auto simp: is_valid_gc_def seals_of_def seal_item_id_def)

lemma seals_of_inj: "is_valid_gc gc \<Longrightarrow> is_valid_gc gc' \<Longrightarrow> seals_of gc = seals_of gc' \<Longrightarrow> gc = gc'"
  by (auto simp: is_valid_gc_def seals_of_def seal_item_id_def gc_ids SEAL_STORM_def SEAL_SERPENT_def SEAL_FLAME_def)

lemma valid_gc_nonzero: "is_valid_gc gc \<Longrightarrow> gc \<noteq> 0"
  by (auto simp: is_valid_gc_def gc_ids)

lemma rank_seal_cap_range: "0 \<le> rank_seal_cap r \<and> rank_seal_cap r \<le> 100000"
  by (simp add: rank_seal_cap_def)

lemma get_seals_up: "is_valid_gc gc \<Longrightarrow> up (DbGetSeals a gc) \<Longrightarrow> get_seals up a gc w = Some (balance w a gc)"
  by (simp add: get_seals_def seal_item_id_valid balance_def)

lemma add_seals_up:
  assumes "is_valid_gc gc" and "up (DbAddSeals a gc d)" and "0 \<le> balance w a gc"
    and "balance w a gc + d < 2 ^ 31" and "- (2 ^ 31) \<le> d"
  shows "add_seals up a gc d w =
    (Some (max (balance w a gc + d) 0),
     w\<lparr>gw_stacks := (gw_stacks w)((a, seals_of gc) := Some (max (balance w a gc + d) 0))\<rparr>)"
proof -
  have sat: "i32_saturating_add q d = q + d" if "0 \<le> q" "q + d < 2 ^ 31" for q
    using that assms(5) by (simp add: i32_saturating_add_def)
  show ?thesis
    using assms
    by (cases "gw_stacks w (a, seals_of gc)") (simp_all add: add_seals_def seal_item_id_valid balance_def sat Let_def)
qed

lemma balance_put [simp]:
  "is_valid_gc gc \<Longrightarrow> is_valid_gc gc' \<Longrightarrow>
    balance (w\<lparr>gw_stacks := (gw_stacks w)((a, seals_of gc) := Some q)\<rparr>) b gc' =
      (if a = b \<and> gc = gc' then q else balance w b gc')"
  by (auto simp: balance_def dest: seals_of_inj)

lemma balance_frame [simp]:
  "balance (put_player a p w) b gc = balance w b gc"
  "balance (set_gc_rank up a g r w) b gc = balance w b gc"
  "balance (set_gc_current up a g w) b gc = balance w b gc"
  by (simp_all add: balance_def put_player_def set_gc_rank_def set_gc_current_def)

lemma players_frame [simp]:
  "gw_players (put_player a p w) = (gw_players w)(a := Some p)"
  "gw_players (set_gc_rank up a g r w) = gw_players w"
  "gw_players (set_gc_current up a g w) = gw_players w"
  "gw_players (snd (add_seals up a g d w)) = gw_players w"
  by (simp_all add: put_player_def set_gc_rank_def set_gc_current_def add_seals_def Let_def split: option.splits)

section \<open>Awards\<close>

text \<open>With the balance read, an award fills it up to the cap.\<close>

definition filled :: "int \<Rightarrow> int \<Rightarrow> int \<Rightarrow> int" where
  "filled cap bal reward = (if 0 < reward then max bal (min cap (bal + reward)) else bal)"

lemma award_balance:
  assumes "gw_players w a = Some p" and "is_valid_gc (gp_gc_current p)"
    and "up (DbGetSeals a (gp_gc_current p))" and "\<forall>d. up (DbAddSeals a (gp_gc_current p) d)"
    and "0 \<le> balance w a (gp_gc_current p)" and "reward p < 2 ^ 31" and "is_valid_gc gc"
  shows "balance (award_up_to_cap up a reward w) b gc =
    (if a = b \<and> gc = gp_gc_current p
     then filled (rank_seal_cap (gp_rank (gp_gc_current p) p)) (balance w a gc) (reward p)
     else balance w b gc)"
proof -
  let ?gc = "gp_gc_current p" and ?cap = "rank_seal_cap (gp_rank (gp_gc_current p) p)"
  let ?bal = "balance w a (gp_gc_current p)"
  have cap: "0 \<le> ?cap" "?cap \<le> 100000" using rank_seal_cap_range by blast+
  consider (none) "reward p \<le> 0 \<or> ?cap = 0 \<or> ?cap \<le> ?bal" | (some) "0 < reward p" "?bal < ?cap" by linarith
  then show ?thesis
  proof cases
    case none
    then have "award_up_to_cap up a reward w = w"
      using assms(1,2,3) by (auto simp: award_up_to_cap_def Let_def get_seals_up)
    moreover have "filled ?cap ?bal (reward p) = ?bal"
      using none assms(5) cap by (auto simp: filled_def max_def min_def)
    ultimately show ?thesis by auto
  next
    case some
    have w: "i32_wrap (?cap - ?bal) = ?cap - ?bal"
      using some cap assms(5) by (simp add: i32_range_def)
    let ?g = "min (reward p) (?cap - ?bal)"
    have g: "0 < ?g" "?bal + ?g \<le> 100000" "?bal + ?g = min ?cap (?bal + reward p)"
      using some cap by (auto simp: min_def)
    have "award_up_to_cap up a reward w = snd (add_seals up a ?gc ?g w)"
      using some g(1) assms(1,2,3) valid_gc_nonzero [OF assms(2)] assms(5)
      by (simp add: award_up_to_cap_def Let_def get_seals_up w)
    also have "\<dots> = w\<lparr>gw_stacks := (gw_stacks w)((a, seals_of ?gc) := Some (?bal + ?g))\<rparr>"
      using add_seals_up [where d = ?g and w = w and a = a and gc = ?gc and up = up] assms(2,4,5) g by simp
    finally have "award_up_to_cap up a reward w =
      w\<lparr>gw_stacks := (gw_stacks w)((a, seals_of ?gc) := Some (?bal + ?g))\<rparr>" .
    moreover have "filled ?cap ?bal (reward p) = ?bal + ?g"
      using some g(3) cap by (simp add: filled_def)
    ultimately show ?thesis using assms(2,7) by auto
  qed
qed

lemma award_players [simp]: "gw_players (award_up_to_cap up a reward w) = gw_players w"
  by (simp add: award_up_to_cap_def Let_def split: option.splits)

lemma award_not_enlisted:
  "gw_players w a = None \<or> (\<exists>p. gw_players w a = Some p \<and> \<not> is_valid_gc (gp_gc_current p)) \<Longrightarrow>
    award_up_to_cap up a reward w = w"
  by (auto simp: award_up_to_cap_def Let_def)

lemma award_db_rank [simp]: "gw_db_rank (award_up_to_cap up a reward w) = gw_db_rank w"
  by (simp add: award_up_to_cap_def add_seals_def Let_def split: option.splits)

section \<open>Steps\<close>

text \<open>
  What a player can do to enlist, earn and be promoted: joining, kills, completed leves, promotions
  and the completion of a quest, in any order, for any players.
\<close>

datatype gc_op =
    OpJoin u32 u8
  | OpKill u32 int
  | OpLeve u32 u8
  | OpPromote u32 u8
  | OpQuest u32 u32

definition complete_quest :: "u32 \<Rightarrow> u32 \<Rightarrow> gc_world \<Rightarrow> gc_world" where
  "complete_quest player_id quest w =
     (case gw_players w player_id of
        None \<Rightarrow> w
      | Some p \<Rightarrow> put_player player_id (p\<lparr>gp_completed_quests := insert quest (gp_completed_quests p)\<rparr>) w)"

fun gc_do :: "(u32 \<Rightarrow> bool) \<Rightarrow> (gc_db_call \<Rightarrow> bool) \<Rightarrow> gc_op \<Rightarrow> gc_world \<Rightarrow> gc_world" where
  "gc_do connected up (OpJoin a gc) w = fst (apply_join_gc connected up a gc w)"
| "gc_do connected up (OpKill a level) w = award_grand_company_seals up a level w"
| "gc_do connected up (OpLeve a difficulty) w = award_leve_completion_seals up a difficulty w"
| "gc_do connected up (OpPromote a gc) w = fst (apply_promote_gc connected up a gc w)"
| "gc_do connected up (OpQuest a quest) w = complete_quest a quest w"

definition gc_run :: "(u32 \<Rightarrow> bool) \<Rightarrow> (gc_db_call \<Rightarrow> bool) \<Rightarrow> gc_op list \<Rightarrow> gc_world \<Rightarrow> gc_world" where
  "gc_run connected up ops w = fold (gc_do connected up) ops w"

definition gc_ladder :: "u8 list" where
  "gc_ladder = [RANK_RECRUIT, 11, 13, 15, 17, 21, 23, 25, 27, STORY_RANK_CAP]"

text \<open>The quests a rank presupposes: those of the gates below it.\<close>

definition gates_passed :: "u8 \<Rightarrow> u8 \<Rightarrow> u32 set" where
  "gates_passed gc rank =
     (if rank \<in> {21, 23, 25, 27, 31} then set_option (tier_shift_quest 17 gc) else {})
     \<union> (if rank = 31 then set_option (tier_shift_quest 27 gc) else {})"

definition gc_rank_ok :: "gc_player \<Rightarrow> u8 \<Rightarrow> bool" where
  "gc_rank_ok p gc \<longleftrightarrow>
     (gp_rank gc p = 0 \<and> gp_gc_current p \<noteq> gc \<or> gp_rank gc p \<in> set gc_ladder)
     \<and> gates_passed gc (gp_rank gc p) \<subseteq> gp_completed_quests p"

definition gc_wf :: "gc_world \<Rightarrow> bool" where
  "gc_wf w \<longleftrightarrow> (\<forall>a p gc. gw_players w a = Some p \<longrightarrow> is_valid_gc gc \<longrightarrow>
     gc_rank_ok p gc \<and> gw_db_rank w (a, gc) = gp_rank gc p
     \<and> 0 \<le> balance w a gc \<and> balance w a gc \<le> rank_seal_cap (gp_rank gc p))"

lemma gc_wfD:
  assumes "gc_wf w" and "gw_players w a = Some p" and "is_valid_gc gc"
  shows "gc_rank_ok p gc" and "gw_db_rank w (a, gc) = gp_rank gc p"
    and "0 \<le> balance w a gc" and "balance w a gc \<le> rank_seal_cap (gp_rank gc p)"
  using assms by (auto simp: gc_wf_def)

lemma gp_rank_set:
  "is_valid_gc gc \<Longrightarrow> is_valid_gc gc' \<Longrightarrow> gp_rank gc' (gp_set_rank gc r p) = (if gc = gc' then r else gp_rank gc' p)"
  by (auto simp: is_valid_gc_def gp_rank_def gp_set_rank_def gc_ids)

lemma gp_set_rank_frame [simp]:
  "gp_gc_current (gp_set_rank gc r p) = gp_gc_current p"
  "gp_completed_quests (gp_set_rank gc r p) = gp_completed_quests p"
  "gp_session_id (gp_set_rank gc r p) = gp_session_id p"
  by (simp_all add: gp_set_rank_def)

lemma gp_rank_frame [simp]:
  "gp_rank gc (p\<lparr>gp_gc_current := c\<rparr>) = gp_rank gc p"
  "gp_rank gc (p\<lparr>gp_completed_quests := q\<rparr>) = gp_rank gc p"
  by (simp_all add: gp_rank_def)

text \<open>One rung: the next rank is on the ladder, costs no more than the cap, and its own cap is no lower.\<close>

lemma next_rank_cases:
  assumes "next_rank r = Some r'"
  shows "(r, r') \<in> {(127, 11), (11, 13), (13, 15), (15, 17), (17, 21), (21, 23), (23, 25), (25, 27), (27, 31)}"
  using assms by (simp add: next_rank_def RANK_RECRUIT_def split: if_splits)

lemma ladder_rung:
  assumes "next_rank r = Some r'"
  shows "r \<in> set gc_ladder" "r' \<in> set gc_ladder" "r \<noteq> r'" "0 < gc_promotion_cost r"
    "gc_promotion_cost r \<le> rank_seal_cap r" "rank_seal_cap r \<le> rank_seal_cap r'"
    "gates_passed gc r' = gates_passed gc r \<union> set_option (tier_shift_quest r gc)"
proof -
  note defs = gc_ladder_def RANK_RECRUIT_def STORY_RANK_CAP_def gc_promotion_cost_def rank_seal_cap_def
  have none: "x \<noteq> 17 \<Longrightarrow> x \<noteq> 27 \<Longrightarrow> tier_shift_quest x gc = None" for x by (simp add: tier_shift_quest_def)
  note cases = next_rank_cases [OF assms, unfolded insert_iff empty_iff prod.inject simp_thms]
  show "r \<in> set gc_ladder" "r' \<in> set gc_ladder" "r \<noteq> r'" "0 < gc_promotion_cost r"
    using cases by (elim disjE conjE; simp add: defs)+
  show "gc_promotion_cost r \<le> rank_seal_cap r" "rank_seal_cap r \<le> rank_seal_cap r'"
    using cases by (elim disjE conjE; simp add: defs)+
  show "gates_passed gc r' = gates_passed gc r \<union> set_option (tier_shift_quest r gc)"
    using cases by (elim disjE conjE; simp add: gates_passed_def none)
qed

text \<open>A promotion, when it goes through, is one rung up for its cost; otherwise nothing happens.\<close>

definition promotable :: "u32 \<Rightarrow> u8 \<Rightarrow> gc_world \<Rightarrow> gc_player \<Rightarrow> u8 \<Rightarrow> bool" where
  "promotable a gc w p r' \<longleftrightarrow>
     is_valid_gc gc \<and> gw_players w a = Some p \<and> gp_gc_current p = gc \<and> next_rank (gp_rank gc p) = Some r'
     \<and> set_option (tier_shift_quest (gp_rank gc p) gc) \<subseteq> gp_completed_quests p
     \<and> gc_promotion_cost (gp_rank gc p) \<le> balance w a gc"

definition promoted :: "u32 \<Rightarrow> u8 \<Rightarrow> gc_player \<Rightarrow> u8 \<Rightarrow> gc_world \<Rightarrow> gc_world" where
  "promoted a gc p r' w =
     w\<lparr>gw_players := (gw_players w)(a := Some (gp_set_rank gc r' p)),
       gw_stacks := (gw_stacks w)((a, seals_of gc) :=
          Some (balance w a gc - gc_promotion_cost (gp_rank gc p))),
       gw_db_rank := (gw_db_rank w)((a, gc) := r')\<rparr>"

lemma promote_go:
  assumes "promotable a gc w p r'" and "\<forall>c. up c" and "balance w a gc < 2 ^ 31"
  shows "fst (apply_promote_gc connected up a gc w) = promoted a gc p r' w"
proof -
  let ?cost = "gc_promotion_cost (gp_rank gc p)"
  have v: "is_valid_gc gc" and pl: "gw_players w a = Some p" and cur: "gp_gc_current p = gc"
    and nr: "next_rank (gp_rank gc p) = Some r'"
    and gate: "set_option (tier_shift_quest (gp_rank gc p) gc) \<subseteq> gp_completed_quests p"
    and bal: "?cost \<le> balance w a gc"
    using assms(1) by (auto simp: promotable_def)
  have cost: "0 < ?cost" "?cost \<le> 100000"
    using ladder_rung(4,5) [OF nr] rank_seal_cap_range [of "gp_rank gc p"] by linarith+
  have add: "add_seals up a gc (- ?cost) w = (Some (balance w a gc - ?cost),
      w\<lparr>gw_stacks := (gw_stacks w)((a, seals_of gc) := Some (balance w a gc - ?cost))\<rparr>)"
    using add_seals_up [where d = "- ?cost" and w = w and a = a and gc = gc and up = up] v assms(2,3) bal cost
    by simp
  have open_gate: "\<not> (case tier_shift_quest (gp_rank gc p) gc of
      Some g \<Rightarrow> g \<notin> gp_completed_quests p | None \<Rightarrow> False)"
    using gate by (auto split: option.split)
  show ?thesis
    using v pl cur nr bal cost(1) assms(2) open_gate
    by (simp add: apply_promote_gc_def get_seals_up add promoted_def Let_def put_player_def set_gc_rank_def)
qed

lemma promote_stay:
  assumes no: "\<forall>p r'. \<not> promotable a gc w p r'" and up: "\<forall>c. up c"
  shows "fst (apply_promote_gc connected up a gc w) = w"
proof (cases "is_valid_gc gc \<and> gw_players w a \<noteq> None")
  case False
  then show ?thesis by (auto simp: apply_promote_gc_def)
next
  case True
  then obtain p where v: "is_valid_gc gc" and pl: "gw_players w a = Some p" by auto
  show ?thesis
  proof (cases "gp_gc_current p = gc \<and> next_rank (gp_rank gc p) \<noteq> None")
    case False
    with v pl show ?thesis by (auto simp: apply_promote_gc_def Let_def)
  next
    case True
    then obtain r' where cur: "gp_gc_current p = gc" and nr: "next_rank (gp_rank gc p) = Some r'" by auto
    show ?thesis
    proof (cases "set_option (tier_shift_quest (gp_rank gc p) gc) \<subseteq> gp_completed_quests p")
      case False
      then have "case tier_shift_quest (gp_rank gc p) gc of
          Some g \<Rightarrow> g \<notin> gp_completed_quests p | None \<Rightarrow> False"
        by (auto split: option.splits)
      with v pl cur nr show ?thesis by (simp add: apply_promote_gc_def)
    next
      case True
      have "\<not> promotable a gc w p r'" using no by blast
      with v pl cur nr True have "balance w a gc < gc_promotion_cost (gp_rank gc p)"
        unfolding promotable_def by linarith
      with v pl cur nr up show ?thesis by (simp add: apply_promote_gc_def Let_def get_seals_up)
    qed
  qed
qed

section \<open>The invariant of the steps\<close>

lemma gc_rank_ok_cap_small:
  assumes "b \<le> rank_seal_cap r"
  shows "b < 2 ^ 31"
proof -
  have "b \<le> 100000" using rank_seal_cap_range [of r] assms by linarith
  then show ?thesis by simp
qed

lemma filled_le_cap: "0 \<le> b \<Longrightarrow> b \<le> cap \<Longrightarrow> 0 \<le> filled cap b x \<and> filled cap b x \<le> cap"
  by (auto simp: filled_def)

lemma award_wf:
  assumes wf: "gc_wf w" and up: "\<forall>c. up c" and small: "\<forall>p. reward p < 2 ^ 31"
  shows "gc_wf (award_up_to_cap up a reward w)"
proof (cases "\<exists>p. gw_players w a = Some p \<and> is_valid_gc (gp_gc_current p)")
  case False
  then have "award_up_to_cap up a reward w = w"
    by (intro award_not_enlisted) (cases "gw_players w a", auto)
  with wf show ?thesis by simp
next
  case True
  then obtain p where p: "gw_players w a = Some p" "is_valid_gc (gp_gc_current p)" by blast
  have bal: "balance (award_up_to_cap up a reward w) b gc =
    (if a = b \<and> gc = gp_gc_current p
     then filled (rank_seal_cap (gp_rank (gp_gc_current p) p)) (balance w a gc) (reward p)
     else balance w b gc)" if "is_valid_gc gc" for b gc
    using award_balance [where reward = reward, OF p] up small gc_wfD(3) [OF wf p] that by blast
  show ?thesis
    unfolding gc_wf_def award_players award_db_rank
  proof (intro allI impI)
    fix b q gc assume q: "gw_players w b = Some q" and v: "is_valid_gc gc"
    note old = gc_wfD [OF wf q v]
    have "0 \<le> balance (award_up_to_cap up a reward w) b gc
        \<and> balance (award_up_to_cap up a reward w) b gc \<le> rank_seal_cap (gp_rank gc q)"
      using old(3,4) q p filled_le_cap [OF old(3,4)] unfolding bal [OF v] by auto
    with old(1,2) show "gc_rank_ok q gc \<and> gw_db_rank w (b, gc) = gp_rank gc q \<and>
       0 \<le> balance (award_up_to_cap up a reward w) b gc \<and>
       balance (award_up_to_cap up a reward w) b gc \<le> rank_seal_cap (gp_rank gc q)" by blast
  qed
qed

lemma promoted_wf:
  assumes wf: "gc_wf w" and pr: "promotable a gc w p r'"
  shows "gc_wf (promoted a gc p r' w)"
proof -
  have v: "is_valid_gc gc" and pl: "gw_players w a = Some p" and nr: "next_rank (gp_rank gc p) = Some r'"
    and cur: "gp_gc_current p = gc"
    and gate: "set_option (tier_shift_quest (gp_rank gc p) gc) \<subseteq> gp_completed_quests p"
    and bal: "gc_promotion_cost (gp_rank gc p) \<le> balance w a gc"
    using pr by (auto simp: promotable_def)
  note rung = ladder_rung [OF nr]
  note own = gc_wfD [OF wf pl v]
  have bal_eq: "balance (promoted a gc p r' w) b gc' =
      (if a = b \<and> gc = gc' then balance w a gc - gc_promotion_cost (gp_rank gc p) else balance w b gc')"
    if "is_valid_gc gc'" for b gc'
    using that v by (auto simp: promoted_def balance_def dest: seals_of_inj)
  have db: "gw_db_rank (promoted a gc p r' w) = (gw_db_rank w)((a, gc) := r')" by (simp add: promoted_def)
  show ?thesis
    unfolding gc_wf_def
  proof (intro allI impI)
    fix b q gc' assume q: "gw_players (promoted a gc p r' w) b = Some q" and v': "is_valid_gc gc'"
    show "gc_rank_ok q gc' \<and> gw_db_rank (promoted a gc p r' w) (b, gc') = gp_rank gc' q
       \<and> 0 \<le> balance (promoted a gc p r' w) b gc' \<and> balance (promoted a gc p r' w) b gc' \<le> rank_seal_cap (gp_rank gc' q)"
    proof (cases "a = b")
      case False
      with q have "gw_players w b = Some q" by (simp add: promoted_def)
      from gc_wfD [OF wf this v'] False bal_eq [OF v', of b] show ?thesis by (simp add: promoted_def)
    next
      case True
      with q have q: "q = gp_set_rank gc r' p" by (simp add: promoted_def)
      show ?thesis
      proof (cases "gc' = gc")
        case True
        have "gates_passed gc r' \<subseteq> gp_completed_quests p" using own(1) gate rung(7) by (auto simp: gc_rank_ok_def)
        then have "gc_rank_ok q gc'" using True rung(2) v by (simp add: gc_rank_ok_def q gp_rank_set)
        moreover have "balance w a gc - gc_promotion_cost (gp_rank gc p) \<le> rank_seal_cap r'"
          using own(4) rung(4,6) by linarith
        ultimately show ?thesis
          using True \<open>a = b\<close> [symmetric] bal v by (simp add: bal_eq [OF v] q gp_rank_set db)
      next
        case False
        from gc_wfD [OF wf pl v'] False \<open>a = b\<close> [symmetric] show ?thesis
          by (simp add: bal_eq [OF v'] q gp_rank_set v v' gc_rank_ok_def db)
      qed
    qed
  qed
qed

lemma join_wf:
  assumes wf: "gc_wf w" and up: "\<forall>c. up c"
  shows "gc_wf (fst (apply_join_gc connected up a gc w))"
proof (cases "is_valid_gc gc \<and> gw_players w a \<noteq> None")
  case False
  with wf show ?thesis by (cases "gw_players w a") (auto simp: apply_join_gc_def)
next
  case True
  then obtain p where v: "is_valid_gc gc" and pl: "gw_players w a = Some p" by auto
  let ?p = "p\<lparr>gp_gc_current := gc\<rparr>"
  define q where "q = (if gp_rank gc ?p = 0 then gp_set_rank gc RANK_RECRUIT ?p else ?p)"
  let ?w = "fst (apply_join_gc connected up a gc w)"
  have w: "?w = set_gc_rank up a gc (gp_rank gc q) (set_gc_current up a gc (put_player a q w))"
    using v pl by (simp add: apply_join_gc_def Let_def q_def)
  have pls: "gw_players ?w = (gw_players w)(a := Some q)" by (simp add: w)
  have db: "gw_db_rank ?w = (gw_db_rank w)((a, gc) := gp_rank gc q)"
    unfolding w using v up by (simp add: set_gc_rank_def set_gc_current_def put_player_def)
  have bal: "balance ?w b gc' = balance w b gc'" for b gc' by (simp add: w)
  have rank: "gp_rank gc' q = (if gc' = gc \<and> gp_rank gc p = 0 then RANK_RECRUIT else gp_rank gc' p)"
    if "is_valid_gc gc'" for gc'
    using that v by (simp add: q_def gp_rank_set)
  have comp: "gp_completed_quests q = gp_completed_quests p" "gp_gc_current q = gc"
    by (simp_all add: q_def)
  have caps: "rank_seal_cap 0 = 0" "rank_seal_cap RANK_RECRUIT = 10000" "gates_passed gc RANK_RECRUIT = {}"
    "RANK_RECRUIT \<in> set gc_ladder" "0 \<notin> set gc_ladder"
    by (simp_all add: rank_seal_cap_def RANK_RECRUIT_def STORY_RANK_CAP_def gates_passed_def gc_ladder_def)
  show ?thesis
    unfolding gc_wf_def pls db bal
  proof (intro allI impI)
    fix b p' gc' assume p': "((gw_players w)(a := Some q)) b = Some p'" and v': "is_valid_gc gc'"
    show "gc_rank_ok p' gc' \<and> ((gw_db_rank w)((a, gc) := gp_rank gc q)) (b, gc') = gp_rank gc' p'
      \<and> 0 \<le> balance w b gc' \<and> balance w b gc' \<le> rank_seal_cap (gp_rank gc' p')"
    proof (cases "a = b")
      case False
      with p' have "gw_players w b = Some p'" by simp
      from gc_wfD [OF wf this v'] False show ?thesis by simp
    next
      case True
      with p' have p': "p' = q" by simp
      note old = gc_wfD [OF wf pl v']
      show ?thesis
      proof (cases "gc' = gc \<and> gp_rank gc p = 0")
        case True
        with old caps \<open>a = b\<close> v show ?thesis by (simp add: p' gc_rank_ok_def rank)
      next
        case False
        then have r: "gp_rank gc' q = gp_rank gc' p" using rank [OF v'] by auto
        have "gp_rank gc' p \<noteq> 0 \<or> gc' \<noteq> gc" using False by auto
        with old \<open>a = b\<close> r comp show ?thesis by (auto simp: p' gc_rank_ok_def)
      qed
    qed
  qed
qed

lemma quest_wf:
  assumes wf: "gc_wf w"
  shows "gc_wf (complete_quest a quest w)"
proof (cases "gw_players w a")
  case None
  with wf show ?thesis by (simp add: complete_quest_def)
next
  case (Some p)
  have db: "gw_db_rank (complete_quest a quest w) = gw_db_rank w" and
    bal: "balance (complete_quest a quest w) b gc = balance w b gc" for b gc
    using Some by (simp_all add: complete_quest_def put_player_def balance_def)
  show ?thesis
    unfolding gc_wf_def db bal
  proof (intro allI impI)
    fix b q gc assume "gw_players (complete_quest a quest w) b = Some q" and v: "is_valid_gc gc"
    then obtain q0 where q0: "gw_players w b = Some q0"
      and q: "q = q0 \<or> q = q0\<lparr>gp_completed_quests := insert quest (gp_completed_quests q0)\<rparr>"
      using Some by (auto simp: complete_quest_def split: if_splits)
    from gc_wfD [OF wf q0 v] q show "gc_rank_ok q gc \<and> gw_db_rank w (b, gc) = gp_rank gc q
      \<and> 0 \<le> balance w b gc \<and> balance w b gc \<le> rank_seal_cap (gp_rank gc q)"
      by (auto simp: gc_rank_ok_def)
  qed
qed

lemma promote_wf:
  assumes wf: "gc_wf w" and up: "\<forall>c. up c"
  shows "gc_wf (fst (apply_promote_gc connected up a gc w))"
proof (cases "\<exists>p r'. promotable a gc w p r'")
  case True
  then obtain p r' where pr: "promotable a gc w p r'" by blast
  then have pl: "gw_players w a = Some p" "is_valid_gc gc" by (auto simp: promotable_def)
  have "balance w a gc < 2 ^ 31" using gc_rank_ok_cap_small gc_wfD(4) [OF wf pl] by blast
  with pr up have "fst (apply_promote_gc connected up a gc w) = promoted a gc p r' w" by (intro promote_go)
  with promoted_wf [OF wf pr] show ?thesis by simp
next
  case False
  with up wf show ?thesis by (simp add: promote_stay)
qed

lemma gc_do_wf:
  assumes "gc_wf w" and "\<forall>c. up c"
  shows "gc_wf (gc_do connected up op w)"
  using assms
  by (cases op) (simp_all add: join_wf promote_wf quest_wf award_wf award_grand_company_seals_def
      award_leve_completion_seals_def leve_completion_seal_reward_def min_def max_def)

lemma gc_run_wf:
  assumes "gc_wf w" and "\<forall>c. up c"
  shows "gc_wf (gc_run connected up ops w)"
  using assms(1) by (induction ops arbitrary: w) (simp_all add: gc_run_def gc_do_wf assms(2))

definition gc_fresh :: "gc_world \<Rightarrow> bool" where
  "gc_fresh w \<longleftrightarrow> gw_stacks w = (\<lambda>_. None) \<and> gw_db_rank w = (\<lambda>_. 0)
     \<and> (\<forall>p \<in> ran (gw_players w). gp_gc_current p = 0 \<and> gp_gc_rank_limsa p = 0 \<and> gp_gc_rank_gridania p = 0
          \<and> gp_gc_rank_uldah p = 0)"

lemma gc_fresh_wf: "gc_fresh w \<Longrightarrow> gc_wf w"
  unfolding gc_wf_def
proof (intro allI impI)
  fix a p gc assume f: "gc_fresh w" and p: "gw_players w a = Some p" and v: "is_valid_gc gc"
  from f p have "gp_gc_current p = 0 \<and> gp_gc_rank_limsa p = 0 \<and> gp_gc_rank_gridania p = 0 \<and> gp_gc_rank_uldah p = 0"
    by (auto simp: gc_fresh_def ran_def)
  then show "gc_rank_ok p gc \<and> gw_db_rank w (a, gc) = gp_rank gc p
       \<and> 0 \<le> balance w a gc \<and> balance w a gc \<le> rank_seal_cap (gp_rank gc p)"
    using f valid_gc_nonzero [OF v]
    by (auto simp: gc_rank_ok_def gp_rank_def gates_passed_def gc_fresh_def balance_def rank_seal_cap_def)
qed

text \<open>A world of one fresh character, for concrete instances.\<close>

definition gc_example_player :: gc_player where
  "gc_example_player = \<lparr>gp_session_id = 9, gp_gc_current = 0, gp_gc_rank_limsa = 0, gp_gc_rank_gridania = 0,
     gp_gc_rank_uldah = 0, gp_completed_quests = {}\<rparr>"

definition gc_example_world :: gc_world where
  "gc_example_world = \<lparr>gw_players = (\<lambda>a. if a = 5 then Some gc_example_player else None),
     gw_stacks = (\<lambda>_. None), gw_db_current = (\<lambda>_. 0), gw_db_rank = (\<lambda>_. 0)\<rparr>"

lemma gc_example_fresh: "gc_fresh gc_example_world"
  by (auto simp: gc_fresh_def gc_example_world_def gc_example_player_def ran_def split: if_splits)

lemma gc_example_run:
  "(case gw_players (gc_run (\<lambda>_. True) (\<lambda>_. True) [OpJoin 5 1, OpKill 5 50, OpKill 5 60, OpPromote 5 1] gc_example_world) 5 of
      Some p \<Rightarrow> gp_rank 1 p = 11 \<and> gp_gc_current p = 1 | None \<Rightarrow> False)
   \<and> balance (gc_run (\<lambda>_. True) (\<lambda>_. True) [OpJoin 5 1, OpKill 5 50, OpKill 5 60, OpPromote 5 1] gc_example_world) 5 1 = 10"
  by code_simp



section \<open>A run of awards, and the way up\<close>

definition kill_reward :: "int \<Rightarrow> int" where
  "kill_reward level = max 1 (min 100 level)"

lemma kill_balance:
  assumes "gw_players w a = Some p" and "is_valid_gc (gp_gc_current p)" and "\<forall>c. up c"
    and "0 \<le> balance w a (gp_gc_current p)" and "balance w a (gp_gc_current p) \<le> rank_seal_cap (gp_rank (gp_gc_current p) p)"
    and "is_valid_gc gc"
  shows "balance (award_grand_company_seals up a level w) b gc =
    (if a = b \<and> gc = gp_gc_current p
     then min (rank_seal_cap (gp_rank gc p)) (balance w a gc + kill_reward level) else balance w b gc)"
proof -
  have "balance (award_grand_company_seals up a level w) b gc =
    (if a = b \<and> gc = gp_gc_current p
     then filled (rank_seal_cap (gp_rank (gp_gc_current p) p)) (balance w a gc) (kill_reward level)
     else balance w b gc)"
    unfolding award_grand_company_seals_def kill_reward_def
    using assms by (intro award_balance) auto
  then show ?thesis using assms(5) by (auto simp: filled_def kill_reward_def)
qed

lemma kills_balance:
  assumes "gw_players w a = Some p" and "is_valid_gc (gp_gc_current p)" and "\<forall>c. up c"
    and "0 \<le> balance w a (gp_gc_current p)" and "balance w a (gp_gc_current p) \<le> rank_seal_cap (gp_rank (gp_gc_current p) p)"
    and "is_valid_gc gc"
  shows "balance (fold (award_grand_company_seals up a) levels w) b gc =
      (if a = b \<and> gc = gp_gc_current p
       then min (rank_seal_cap (gp_rank gc p)) (balance w a gc + sum_list (map kill_reward levels))
       else balance w b gc)
    \<and> gw_players (fold (award_grand_company_seals up a) levels w) = gw_players w"
  using assms(1,4,5)
proof (induction levels arbitrary: w)
  case Nil
  then show ?case by auto
next
  case (Cons level levels)
  let ?w = "award_grand_company_seals up a level w" and ?gc = "gp_gc_current p"
  have pl: "gw_players ?w = gw_players w" by (simp add: award_grand_company_seals_def)
  note bal = kill_balance [OF Cons.prems(1) assms(2,3) Cons.prems(2,3)]
  have pos: "0 < kill_reward level" "0 \<le> sum_list (map kill_reward levels)"
    by (auto simp: kill_reward_def intro!: sum_list_nonneg)
  have own: "balance ?w a ?gc = min (rank_seal_cap (gp_rank ?gc p)) (balance w a ?gc + kill_reward level)"
    using bal [OF assms(2), of level a] by simp
  have "gw_players ?w a = Some p" "0 \<le> balance ?w a ?gc" "balance ?w a ?gc \<le> rank_seal_cap (gp_rank ?gc p)"
    using pl Cons.prems own pos(1) rank_seal_cap_range [of "gp_rank ?gc p"] by auto
  from Cons.IH [OF this] own bal [OF assms(6), of level b] pl pos show ?case
    by (auto simp: min_def split: if_splits)
qed

text \<open>
  Kills fill an enlisted character's balance exactly up to the cap of the rank: after any
  sequence of kills by a character whose balance is within the cap, the balance in the current company
  is the smaller of the cap and the balance plus the rewards, each the mob's level clipped to 1..100;
  no other balance and no character record changes.
\<close>

theorem kill_awards_fill_to_cap:
  assumes "gw_players w a = Some p" and "is_valid_gc (gp_gc_current p)" and "\<forall>c. up c"
    and "0 \<le> balance w a (gp_gc_current p)"
    and "balance w a (gp_gc_current p) \<le> rank_seal_cap (gp_rank (gp_gc_current p) p)"
    and "is_valid_gc gc"
  shows "balance (fold (award_grand_company_seals up a) levels w) b gc =
      (if a = b \<and> gc = gp_gc_current p
       then min (rank_seal_cap (gp_rank gc p)) (balance w a gc + (\<Sum>level\<leftarrow>levels. max 1 (min 100 level)))
       else balance w b gc)
    \<and> gw_players (fold (award_grand_company_seals up a) levels w) = gw_players w"
  using kills_balance [OF assms] by (simp add: kill_reward_def [abs_def])

lemma next_rank_ladder: "i < 9 \<Longrightarrow> next_rank (gc_ladder ! i) = Some (gc_ladder ! Suc i)"
proof -
  assume "i < 9"
  then have "i \<in> set [0..<9]" by simp
  moreover have "\<forall>i \<in> set [0..<9]. next_rank (gc_ladder ! i) = Some (gc_ladder ! Suc i)" by code_simp
  ultimately show ?thesis by blast
qed

text \<open>Enough kills and a promotion take a character one rung up.\<close>

lemma climb_rung:
  assumes wf: "gc_wf w" and up: "\<forall>c. up c" and pl: "gw_players w a = Some p" and v: "is_valid_gc gc"
    and cur: "gp_gc_current p = gc" and nr: "next_rank (gp_rank gc p) = Some r'"
    and gate: "set_option (tier_shift_quest (gp_rank gc p) gc) \<subseteq> gp_completed_quests p"
  shows "gw_players (gc_run connected up
      (replicate (nat (gc_promotion_cost (gp_rank gc p))) (OpKill a level) @ [OpPromote a gc]) w) a
    = Some (gp_set_rank gc r' p)"
proof -
  let ?cost = "gc_promotion_cost (gp_rank gc p)" and ?cap = "rank_seal_cap (gp_rank gc p)"
  let ?w = "fold (award_grand_company_seals up a) (replicate (nat ?cost) level) w"
  note own = gc_wfD [OF wf pl v]
  note rung = ladder_rung [OF nr]
  have run: "gc_run connected up (replicate n (OpKill a level)) w
      = fold (award_grand_company_seals up a) (replicate n level) w" for n
    by (induction n arbitrary: w) (simp_all add: gc_run_def)
  have bal: "balance ?w a gc = min ?cap (balance w a gc + sum_list (map kill_reward (replicate (nat ?cost) level)))"
    and pls: "gw_players ?w = gw_players w"
    using kills_balance [of w a p up gc "replicate (nat ?cost) level" a] pl v cur up own by auto
  have "sum_list (map kill_reward (replicate (nat ?cost) level)) = ?cost * kill_reward level"
    using rung(4) by (simp add: sum_list_replicate)
  moreover have "?cost * 1 \<le> ?cost * kill_reward level"
    using rung(4) by (intro mult_left_mono) (auto simp: kill_reward_def)
  ultimately have enough: "?cost \<le> balance ?w a gc" using bal own(3) rung(5) by (simp add: min_def)
  have "promotable a gc ?w p r'"
    unfolding promotable_def using v pls pl cur nr gate enough by simp
  moreover have "balance ?w a gc < 2 ^ 31"
    by (rule gc_rank_ok_cap_small [of _ "gp_rank gc p"]) (simp only: bal min.cobounded1)
  ultimately have "fst (apply_promote_gc connected up a gc ?w) = promoted a gc p r' ?w"
    using up by (intro promote_go)
  then show ?thesis using run [of "nat ?cost"] by (simp add: gc_run_def promoted_def)
qed

lemma climb_from:
  assumes up: "\<forall>c. up c" and v: "is_valid_gc gc" and "k \<le> 9"
    and "gc_wf w" and "gw_players w a = Some p" and "gp_gc_current p = gc"
    and "gp_rank gc p = gc_ladder ! (9 - k)"
    and "set_option (tier_shift_quest 17 gc) \<union> set_option (tier_shift_quest 27 gc) \<subseteq> gp_completed_quests p"
  shows "\<exists>ops q. set ops \<subseteq> {OpKill a level, OpPromote a gc}
    \<and> gw_players (gc_run connected up ops w) a = Some q \<and> gp_rank gc q = STORY_RANK_CAP"
  using assms(3-)
proof (induction k arbitrary: w p)
  case 0
  then have "gw_players (gc_run connected up [] w) a = Some p \<and> gp_rank gc p = STORY_RANK_CAP"
    by (simp add: gc_run_def gc_ladder_def)
  then show ?case by (intro exI [of _ "[]"] exI [of _ p]) simp
next
  case (Suc k)
  let ?ops = "replicate (nat (gc_promotion_cost (gp_rank gc p))) (OpKill a level) @ [OpPromote a gc]"
  let ?w = "gc_run connected up ?ops w" and ?r' = "gc_ladder ! (9 - k)"
  have "next_rank (gp_rank gc p) = Some (gc_ladder ! Suc (9 - Suc k))"
    using next_rank_ladder [of "9 - Suc k"] Suc.prems by simp
  moreover have "Suc (9 - Suc k) = 9 - k" using Suc.prems(1) by linarith
  ultimately have nr: "next_rank (gp_rank gc p) = Some ?r'" by (simp only:)
  have gate: "set_option (tier_shift_quest (gp_rank gc p) gc) \<subseteq> gp_completed_quests p"
  proof (cases "gp_rank gc p = 17 \<or> gp_rank gc p = 27")
    case True
    with Suc.prems(6) show ?thesis by auto
  next
    case False
    then show ?thesis by (simp add: tier_shift_quest_def)
  qed
  have pl: "gw_players ?w a = Some (gp_set_rank gc ?r' p)"
    using climb_rung [OF Suc.prems(2) up Suc.prems(3) v Suc.prems(4) nr gate] .
  have "gp_rank gc (gp_set_rank gc ?r' p) = ?r'" using v by (simp add: gp_rank_set)
  from Suc.IH [OF _ gc_run_wf [OF Suc.prems(2) up] pl _ this] Suc.prems
  obtain ops q where ops: "set ops \<subseteq> {OpKill a level, OpPromote a gc}"
    and q: "gw_players (gc_run connected up ops ?w) a = Some q" "gp_rank gc q = STORY_RANK_CAP" by auto
  have "gc_run connected up (?ops @ ops) w = gc_run connected up ops ?w"
    unfolding gc_run_def fold_append comp_def ..
  with q ops show ?case by (intro exI [of _ "?ops @ ops"] exI [of _ q]) auto
qed

text \<open>
  C17: No one is stuck below the story cap. Whatever lawful state an enlisted character is in, once the
  two gate quests are done, killing mobs (of any one level, even the weakest) and asking for promotions
  brings it to Second Lieutenant: every rung's cost fits under the cap of the rank that has to pay it.
\<close>

theorem story_cap_reachable:
  assumes "gc_wf w" and "\<forall>c. up c" and "gw_players w a = Some p" and "is_valid_gc gc"
    and "gp_gc_current p = gc"
    and "set_option (tier_shift_quest 17 gc) \<union> set_option (tier_shift_quest 27 gc) \<subseteq> gp_completed_quests p"
  shows "\<exists>ops q. set ops \<subseteq> {OpKill a level, OpPromote a gc}
    \<and> gw_players (gc_run connected up ops w) a = Some q \<and> gp_rank gc q = STORY_RANK_CAP"
proof -
  have "gp_rank gc p \<in> set gc_ladder" using gc_wfD(1) [OF assms(1,3,4)] assms(5) by (simp add: gc_rank_ok_def)
  then obtain i where "i < length gc_ladder" "gp_rank gc p = gc_ladder ! i" by (auto simp: in_set_conv_nth)
  then have "9 - i \<le> 9" "gp_rank gc p = gc_ladder ! (9 - (9 - i))" by (auto simp: gc_ladder_def)
  from climb_from [OF assms(2,4) this(1) assms(1,3,5) this(2) assms(6)] show ?thesis .
qed

lemma story_cap_reachable_witness:
  "\<exists>w p ops q. gw_players w 5 = Some p \<and> gp_rank 1 p = RANK_RECRUIT \<and> set ops \<subseteq> {OpKill 5 1, OpPromote 5 1}
     \<and> gw_players (gc_run (\<lambda>_. True) (\<lambda>_. True) ops w) 5 = Some q \<and> gp_rank 1 q = STORY_RANK_CAP"
proof -
  let ?w = "gc_run (\<lambda>_. True) (\<lambda>_. True) [OpJoin 5 1, OpQuest 5 111405, OpQuest 5 111434] gc_example_world"
  have c: "case gw_players ?w 5 of
      Some p \<Rightarrow> gp_rank 1 p = RANK_RECRUIT \<and> gp_gc_current p = 1 \<and> gp_completed_quests p = {111405, 111434}
    | None \<Rightarrow> False" by code_simp
  then obtain p where p: "gw_players ?w 5 = Some p" "gp_rank 1 p = RANK_RECRUIT" "gp_gc_current p = 1"
    "gp_completed_quests p = {111405, 111434}" by (auto split: option.splits)
  have v: "is_valid_gc 1" by code_simp
  have wf: "gc_wf ?w" by (rule gc_run_wf [OF gc_fresh_wf [OF gc_example_fresh]]) simp
  have g: "set_option (tier_shift_quest 17 1) \<union> set_option (tier_shift_quest 27 1) \<subseteq> gp_completed_quests p"
    unfolding p(4) by (simp add: tier_shift_quest_def gc_ids)
  from story_cap_reachable [OF wf _ p(1) v p(3) g, where level = 1 and connected = "\<lambda>_. True" and up = "\<lambda>_. True"]
  obtain ops q where "set ops \<subseteq> {OpKill 5 1, OpPromote 5 1}"
    "gw_players (gc_run (\<lambda>_. True) (\<lambda>_. True) ops ?w) 5 = Some q" "gp_rank 1 q = STORY_RANK_CAP" by auto
  with p(1,2) show ?thesis by (intro exI conjI)
qed

lemma kill_awards_fill_to_cap_witness:
  "\<exists>w p. gw_players w 5 = Some p \<and> gp_rank 1 p = RANK_RECRUIT \<and>
     balance (fold (award_grand_company_seals (\<lambda>_. True) 5) [50, 500, - 3] w) 5 1
       = min 10000 (0 + (\<Sum>level\<leftarrow>[50, 500, - 3]. max 1 (min 100 level)))"
proof -
  let ?w = "gc_run (\<lambda>_. True) (\<lambda>_. True) [OpJoin 5 1] gc_example_world"
  have c: "(case gw_players ?w 5 of Some p \<Rightarrow> gp_rank 1 p = RANK_RECRUIT \<and> gp_gc_current p = 1 | None \<Rightarrow> False)
      \<and> balance ?w 5 1 = 0" by code_simp
  then obtain p where p: "gw_players ?w 5 = Some p" "gp_rank 1 p = RANK_RECRUIT" "gp_gc_current p = 1"
    and b: "balance ?w 5 1 = 0" by (auto split: option.splits)
  have v: "is_valid_gc 1" "rank_seal_cap RANK_RECRUIT = 10000" by code_simp+
  have "balance (fold (award_grand_company_seals (\<lambda>_. True) 5) [50, 500, - 3] ?w) 5 1
      = min 10000 (0 + (\<Sum>level\<leftarrow>[50, 500, - 3]. max 1 (min 100 level)))"
    using kill_awards_fill_to_cap [of ?w 5 p "\<lambda>_. True" 1 "[50, 500, - 3]" 5] p b v by simp
  with p show ?thesis by blast
qed

text \<open>
  When the balance cannot be read the award counts from 0, so a grant that is written can pass the cap.
\<close>

lemma award_over_cap_when_unread:
  "balance (award_grand_company_seals (\<lambda>c. case c of DbGetSeals _ _ \<Rightarrow> False | _ \<Rightarrow> True) 5 100
      (snd (add_seals (\<lambda>_. True) 5 1 10000 (gc_run (\<lambda>_. True) (\<lambda>_. True) [OpJoin 5 1] gc_example_world)))) 5 1 = 10100"
  by code_simp

end
