(* ===== verification/LeveDispatch.thy ===== *)
theory LeveDispatch
  imports DirectorLaws GrandCompanyLaws
begin

text \<open>
  Guildleve directors in their zone: the director registry of \<open>zone/area.rs\<close>, the event dispatcher of
  \<open>director/dispatcher.rs\<close>, the shared operation wrapper \<open>apply_director_outbox_op\<close> of
  \<open>runtime/quest_apply.rs\<close> (and its twin in \<open>processor.rs\<close>) and the script commands that use it. The
  character registry, the clients and the seal balances are those of \<open>GrandCompany\<close>. A packet is
  represented by the builder call that makes it.
\<close>

section \<open>The director registry of an area\<close>

record area_directors =
  ad_actor_id :: u32
  ad_directors :: "u32 \<Rightarrow> director option"
  ad_guildleve_directors :: "u32 \<Rightarrow> guildleve_director option"
  ad_next_director_id :: u32

definition ad_new :: "u32 \<Rightarrow> area_directors" where
  "ad_new actor_id = \<lparr>ad_actor_id = actor_id, ad_directors = Map.empty, ad_guildleve_directors = Map.empty,
     ad_next_director_id = 1\<rparr>"

definition alloc_director_id :: "area_directors \<Rightarrow> u32 \<times> area_directors" where
  "alloc_director_id ar =
     (ad_next_director_id ar, ar\<lparr>ad_next_director_id := u32_saturating_add (ad_next_director_id ar) 1\<rparr>)"

definition create_director :: "u8 list \<Rightarrow> bool \<Rightarrow> area_directors \<Rightarrow> u32 \<times> area_directors" where
  "create_director script_path has_content_group ar =
     (case alloc_director_id ar of (local_id, ar) \<Rightarrow>
        let d = d_new local_id (ad_actor_id ar) script_path has_content_group
        in (d_actor_id d, ar\<lparr>ad_directors := (ad_directors ar)(d_actor_id d := Some d)\<rparr>))"

definition create_guildleve_director ::
    "u32 \<Rightarrow> u8 \<Rightarrow> u32 \<Rightarrow> u32 \<Rightarrow> u32 \<Rightarrow> u32 \<Rightarrow> i8 list \<Rightarrow> area_directors \<Rightarrow> u32 \<times> area_directors" where
  "create_guildleve_director guildleve_id difficulty owner plate_id location time_limit aim_num ar =
     (case alloc_director_id ar of (local_id, ar) \<Rightarrow>
        let g = gl_new local_id (ad_actor_id ar) guildleve_id difficulty owner plate_id location time_limit aim_num;
            k = d_actor_id (gl_base g)
        in (k, ar\<lparr>ad_guildleve_directors := (ad_guildleve_directors ar)(k := Some g)\<rparr>))"

definition create_director_with_id :: "u32 \<Rightarrow> u8 list \<Rightarrow> bool \<Rightarrow> area_directors \<Rightarrow> u32 \<times> area_directors" where
  "create_director_with_id local_id script_path has_content_group ar =
     (let d = d_new local_id (ad_actor_id ar) script_path has_content_group;
          k = d_actor_id d;
          ar = (if ad_directors ar k = None then ar\<lparr>ad_directors := (ad_directors ar)(k := Some d)\<rparr> else ar)
      in (k, if ad_next_director_id ar \<le> local_id
             then ar\<lparr>ad_next_director_id := u32_saturating_add local_id 1\<rparr> else ar))"

definition delete_director :: "u32 \<Rightarrow> area_directors \<Rightarrow> bool \<times> area_directors" where
  "delete_director actor_id ar =
     (if ad_directors ar actor_id \<noteq> None
      then (True, ar\<lparr>ad_directors := (ad_directors ar)(actor_id := None)\<rparr>)
      else (ad_guildleve_directors ar actor_id \<noteq> None,
            ar\<lparr>ad_guildleve_directors := (ad_guildleve_directors ar)(actor_id := None)\<rparr>))"

definition director_count :: "area_directors \<Rightarrow> nat" where
  "director_count ar = card (dom (ad_directors ar)) + card (dom (ad_guildleve_directors ar))"

section \<open>Dispatch\<close>

definition GL_TEXT_START :: u16 where "GL_TEXT_START = 50022"
definition GL_TEXT_COMPLETE :: u16 where "GL_TEXT_COMPLETE = 50023"
definition GL_TEXT_TIME_LIMIT :: u16 where "GL_TEXT_TIME_LIMIT = 50026"
definition GL_TEXT_ABANDON :: u16 where "GL_TEXT_ABANDON = 50147"
definition MUSIC_VICTORY :: u16 where "MUSIC_VICTORY = 81"

definition music_pick :: "u32 \<Rightarrow> u16 option" where
  "music_pick location =
     (if location = 1 then Some 22 else if location = 2 then Some 14 else if location = 3 then Some 26
      else if location = 4 then Some 16 else None)"

text \<open>A packet by its builder: remove actor, set music, game message with its text and parameters.\<close>

datatype leve_packet =
    PktRemoveActor u32
  | PktSetMusic u16
  | PktGameMessage u16 "u32 list"

type_synonym leve_send = "u32 \<times> leve_packet"

text \<open>What one recipient with a client is sent, session first.\<close>

fun event_packets :: "director_event \<Rightarrow> leve_packet list" where
  "event_packets (DirectorEnded director_id _) = [PktRemoveActor director_id]"
| "event_packets (GuildleveStarted _ guildleve_id difficulty location time_limit _) =
     (case music_pick location of Some m \<Rightarrow> [PktSetMusic m] | None \<Rightarrow> [])
     @ [PktGameMessage GL_TEXT_START [guildleve_id, ucast difficulty],
        PktGameMessage GL_TEXT_TIME_LIMIT [time_limit]]"
| "event_packets (GuildleveEnded _ guildleve_id was_completed _ _) =
     (if was_completed then [PktSetMusic MUSIC_VICTORY, PktGameMessage GL_TEXT_COMPLETE [guildleve_id]] else [])"
| "event_packets (GuildleveAbandoned _ guildleve_id) = [PktGameMessage GL_TEXT_ABANDON [guildleve_id]]"
| "event_packets _ = []"

fun event_award :: "director_event \<Rightarrow> u8 option" where
  "event_award (GuildleveEnded _ _ was_completed _ difficulty) = (if was_completed then Some difficulty else None)"
| "event_award _ = None"

text \<open>One event for one member: nothing for a member without a handle or a client.\<close>

definition dispatch_to ::
    "(u32 \<Rightarrow> bool) \<Rightarrow> (gc_db_call \<Rightarrow> bool) \<Rightarrow> director_event \<Rightarrow> u32 \<Rightarrow> gc_world \<times> leve_send list \<Rightarrow> gc_world \<times> leve_send list" where
  "dispatch_to connected up e member ws =
     (case ws of (w, out) \<Rightarrow>
       (case gw_players w member of
          None \<Rightarrow> (w, out)
        | Some p \<Rightarrow>
            if \<not> connected (gp_session_id p) then (w, out)
            else (case event_award e of
                    Some difficulty \<Rightarrow> award_leve_completion_seals up member difficulty w
                  | None \<Rightarrow> w,
                  out @ map (\<lambda>pkt. (gp_session_id p, pkt)) (event_packets e))))"

definition dispatch_director_event ::
    "(u32 \<Rightarrow> bool) \<Rightarrow> (gc_db_call \<Rightarrow> bool) \<Rightarrow> u32 list \<Rightarrow> director_event \<Rightarrow> gc_world \<times> leve_send list \<Rightarrow> gc_world \<times> leve_send list" where
  "dispatch_director_event connected up members e ws = fold (dispatch_to connected up e) members ws"

section \<open>Script commands on guildleve directors\<close>

datatype leve_command =
    LcStartGuildleve
  | LcEndGuildleve bool
  | LcAbandonGuildleve
  | LcUpdateAimNumNow u8 i8
  | LcUpdateUiState u8 i8
  | LcUpdateMarkers u8 f32_bits f32_bits f32_bits
  | LcSyncAllInfo

fun leve_mutate :: "u32 \<Rightarrow> leve_command \<Rightarrow> guildleve_director \<Rightarrow> guildleve_director \<times> director_event list" where
  "leve_mutate now LcStartGuildleve g = start_guildleve now g"
| "leve_mutate now (LcEndGuildleve was_completed) g = end_guildleve now was_completed g"
| "leve_mutate now LcAbandonGuildleve g = abandon_guildleve now g"
| "leve_mutate now (LcUpdateAimNumNow i v) g = update_aim_num_now i v g"
| "leve_mutate now (LcUpdateUiState i v) g = update_ui_state i v g"
| "leve_mutate now (LcUpdateMarkers i x y z) g = update_marker i x y z g"
| "leve_mutate now LcSyncAllInfo g = (g, sync_all g)"

text \<open>The zones by id, and the characters, balances and packets sent so far.\<close>

record leve_world =
  lw_zones :: "u32 \<Rightarrow> area_directors option"
  lw_gc :: gc_world
  lw_sent :: "leve_send list"

definition apply_director_outbox_op ::
    "(u32 \<Rightarrow> bool) \<Rightarrow> (gc_db_call \<Rightarrow> bool) \<Rightarrow> u32 \<Rightarrow> u32 \<Rightarrow> leve_command \<Rightarrow> leve_world \<Rightarrow> leve_world" where
  "apply_director_outbox_op connected up now director_actor_id cmd lw =
     (let zone_id = drop_bit 19 director_actor_id AND 0x1FF in
      case lw_zones lw zone_id of
        None \<Rightarrow> lw
      | Some ar \<Rightarrow>
          (case ad_guildleve_directors ar director_actor_id of
             None \<Rightarrow> lw
           | Some g \<Rightarrow>
               let roster = player_members (gl_base g) in
               case leve_mutate now cmd g of (g', events) \<Rightarrow>
               case fold (dispatch_director_event connected up roster) events (lw_gc lw, lw_sent lw) of (gc, sent) \<Rightarrow>
                 lw\<lparr>lw_zones := (lw_zones lw)(zone_id :=
                      Some (ar\<lparr>ad_guildleve_directors := (ad_guildleve_directors ar)(director_actor_id := Some g')\<rparr>)),
                    lw_gc := gc, lw_sent := sent\<rparr>))"

end
