(* ===== verification/LeveLaws.thy ===== *)
theory LeveLaws
  imports LeveDispatch
begin

text \<open>
  The laws of guildleves: the events of a guildleve director replayed give its work block and its
  roster, it ends at most once, a completed leve pays each connected member once, an abandoned one
  tells everyone and pays no one, and the registry hands out fresh ids.
\<close>

section \<open>Steps of a guildleve director\<close>

inductive leve_step ::
    "(u32 \<Rightarrow> bool) \<Rightarrow> guildleve_director \<Rightarrow> guildleve_director \<Rightarrow> director_event list \<Rightarrow> bool"
  for plays :: "u32 \<Rightarrow> bool" where
  leve_base: "director_step plays (gl_base g) b es \<Longrightarrow> leve_step plays g (g\<lparr>gl_base := b\<rparr>) es"
| leve_command: "leve_step plays g (fst (leve_mutate now cmd g)) (snd (leve_mutate now cmd g))"

record leve_view =
  lv_start_time :: u32
  lv_aim_num_now :: "i8 list"
  lv_ui_state :: "i8 list"
  lv_marker_x :: "f32_bits list"
  lv_marker_y :: "f32_bits list"
  lv_marker_z :: "f32_bits list"
  lv_ended :: nat

definition leve_view :: "guildleve_director \<Rightarrow> leve_view" where
  "leve_view g = \<lparr>lv_start_time = gw_start_time (gl_work g), lv_aim_num_now = gw_aim_num_now (gl_work g),
     lv_ui_state = gw_ui_state (gl_work g), lv_marker_x = gw_marker_x (gl_work g),
     lv_marker_y = gw_marker_y (gl_work g), lv_marker_z = gw_marker_z (gl_work g),
     lv_ended = (if gl_is_ended g then 1 else 0)\<rparr>"

fun leve_replay :: "director_event \<Rightarrow> leve_view \<Rightarrow> leve_view" where
  "leve_replay (GuildleveStarted _ _ _ _ _ now) v = v\<lparr>lv_start_time := now\<rparr>"
| "leve_replay (GuildleveEnded _ _ _ _ _) v = v\<lparr>lv_start_time := 0, lv_ended := lv_ended v + 1\<rparr>"
| "leve_replay (GuildleveAimUpdated _ i x) v = v\<lparr>lv_aim_num_now := (lv_aim_num_now v)[unat i := x]\<rparr>"
| "leve_replay (GuildleveUiUpdated _ i x) v = v\<lparr>lv_ui_state := (lv_ui_state v)[unat i := x]\<rparr>"
| "leve_replay (GuildleveMarkerUpdated _ i x y z) v =
     v\<lparr>lv_marker_x := (lv_marker_x v)[unat i := x], lv_marker_y := (lv_marker_y v)[unat i := y],
       lv_marker_z := (lv_marker_z v)[unat i := z]\<rparr>"
| "leve_replay _ v = v"

text \<open>Both halves of what the events say.\<close>

definition full_view :: "guildleve_director \<Rightarrow> director_view \<times> leve_view" where
  "full_view g = (director_view (gl_base g), leve_view g)"

definition full_replay :: "director_event \<Rightarrow> director_view \<times> leve_view \<Rightarrow> director_view \<times> leve_view" where
  "full_replay e v = (director_replay e (fst v), leve_replay e (snd v))"

lemma fold_full_replay: "fold full_replay es v = (fold director_replay es (fst v), fold leve_replay es (snd v))"
  by (induction es arbitrary: v) (simp_all add: full_replay_def)

definition leve_inv :: "(u32 \<Rightarrow> bool) \<Rightarrow> guildleve_director \<Rightarrow> bool" where
  "leve_inv plays g \<longleftrightarrow> director_inv plays (gl_base g)"

fun is_leve_event :: "director_event \<Rightarrow> bool" where
  "is_leve_event (GuildleveStarted _ _ _ _ _ _) \<longleftrightarrow> True"
| "is_leve_event (GuildleveEnded _ _ _ _ _) \<longleftrightarrow> True"
| "is_leve_event (GuildleveAbandoned _ _) \<longleftrightarrow> True"
| "is_leve_event (GuildleveAimUpdated _ _ _) \<longleftrightarrow> True"
| "is_leve_event (GuildleveUiUpdated _ _ _) \<longleftrightarrow> True"
| "is_leve_event (GuildleveMarkerUpdated _ _ _ _ _) \<longleftrightarrow> True"
| "is_leve_event (GuildleveSyncAll _) \<longleftrightarrow> True"
| "is_leve_event _ \<longleftrightarrow> False"

lemma leve_replay_base: "\<forall>e \<in> set es. \<not> is_leve_event e \<Longrightarrow> fold leve_replay es v = v"
proof (induction es arbitrary: v)
  case (Cons e es)
  then have "leve_replay e v = v" by (cases e) auto
  with Cons show ?case by simp
qed simp

lemma d_end_no_leve_event: "\<forall>e \<in> set (snd (d_end d)). \<not> is_leve_event e"
  by (auto simp: d_end_def)

lemma director_step_no_leve_event:
  assumes "director_step plays d d' es"
  shows "\<forall>e \<in> set es. \<not> is_leve_event e"
  using assms
proof (cases rule: director_step.cases)
  case (step_start cp spawn)
  then show ?thesis using d_start_effect [OF step_start] by auto
qed (use d_end_no_leve_event in \<open>auto simp: d_add_member_def d_remove_member_eq on_event_started_def\<close>)

lemma leve_step_inv:
  assumes "leve_inv plays g" and "leve_step plays g g' es"
  shows "leve_inv plays g'"
  using assms(2,1)
proof (cases rule: leve_step.cases)
  case (leve_base b)
  with assms(1) director_step_inv show ?thesis by (simp add: leve_inv_def)
next
  case (leve_command now cmd)
  with assms(1) show ?thesis
    by (cases cmd) (auto simp: leve_inv_def start_guildleve_def end_guildleve_def abandon_guildleve_def split_beta
        d_end_inv update_aim_num_now_def update_ui_state_def update_marker_def Let_def)
qed

text \<open>What ending a guildleve does, for the two commands that do it.\<close>

lemma end_guildleve_view:
  "full_view (fst (end_guildleve now c g)) = fold full_replay (snd (end_guildleve now c g)) (full_view g)"
  by (simp add: end_guildleve_def full_view_def full_replay_def leve_view_def clear_on_end_def Let_def)

lemma abandon_guildleve_eq:
  "fst (abandon_guildleve now g) = (fst (end_guildleve now False g))\<lparr>gl_base := fst (d_end (gl_base g))\<rparr>"
  "snd (abandon_guildleve now g) = GuildleveAbandoned (d_actor_id (gl_base g)) (gl_guildleve_id g)
     # snd (end_guildleve now False g) @ snd (d_end (gl_base g))"
  by (simp_all add: abandon_guildleve_def split_beta end_guildleve_def Let_def)

lemma end_guildleve_base [simp]: "gl_base (fst (end_guildleve now c g)) = gl_base g"
  by (simp add: end_guildleve_def Let_def)

lemma leve_view_set_base [simp]: "leve_view (g\<lparr>gl_base := b\<rparr>) = leve_view g"
  by (simp add: leve_view_def)

lemma full_view_set_base: "full_view (g\<lparr>gl_base := b\<rparr>) = (director_view b, snd (full_view g))"
  by (simp add: full_view_def)

lemma leve_step_view:
  assumes "leve_inv plays g" and "leve_step plays g g' es"
  shows "full_view g' = fold full_replay es (full_view g)"
  using assms(2,1)
proof (cases rule: leve_step.cases)
  case (leve_base b)
  then show ?thesis
    using assms(1) director_step_view director_step_no_leve_event [OF leve_base(2)]
    by (simp add: full_view_set_base fold_full_replay leve_replay_base leve_inv_def full_view_def)
next
  case (leve_command now cmd)
  show ?thesis
  proof (cases cmd)
    case (LcEndGuildleve c)
    then show ?thesis using leve_command end_guildleve_view by simp
  next
    case LcAbandonGuildleve
    let ?e = "fst (end_guildleve now False g)"
    have "fold full_replay (snd (abandon_guildleve now g)) (full_view g)
        = fold full_replay (snd (d_end (gl_base g))) (full_view ?e)"
      by (simp add: abandon_guildleve_eq end_guildleve_view) (simp add: full_replay_def full_view_def)
    also have "\<dots> = (director_view (fst (d_end (gl_base g))), snd (full_view ?e))"
      using d_end_view [of plays "gl_base g"] assms(1)
      by (simp add: fold_full_replay leve_replay_base [OF d_end_no_leve_event] leve_inv_def full_view_def)
    also have "\<dots> = full_view (fst (abandon_guildleve now g))"
      by (simp add: abandon_guildleve_eq full_view_set_base)
    finally show ?thesis using leve_command LcAbandonGuildleve by simp
  qed (use leve_command in \<open>simp_all add: start_guildleve_def update_aim_num_now_def update_ui_state_def
      update_marker_def sync_all_def Let_def full_view_def full_replay_def leve_view_def\<close>)
qed

lemma leve_step_guildleve_ended:
  assumes "leve_inv plays g" and "leve_step plays g g' es"
  shows "count_events is_guildleve_ended es + (if gl_is_ended g then 1 else 0) = (if gl_is_ended g' then 1 else 0)"
  using assms(2,1)
proof (cases rule: leve_step.cases)
  case (leve_base b)
  then show ?thesis using assms(1) director_step_no_leve by (simp add: leve_inv_def)
next
  case (leve_command now cmd)
  then show ?thesis
    by (cases cmd) (simp_all add: start_guildleve_def end_guildleve_def abandon_guildleve_eq d_end_count_leve
        update_aim_num_now_def update_ui_state_def update_marker_def sync_all_def Let_def)
qed

lemma leve_step_director_ended:
  assumes "leve_inv plays g" and "leve_step plays g g' es"
  shows "count_events is_director_ended es + (if d_is_deleted (gl_base g) then 1 else 0)
    = (if d_is_deleted (gl_base g') then 1 else 0)"
  using assms(2,1)
proof (cases rule: leve_step.cases)
  case (leve_base b)
  then show ?thesis using assms(1) director_step_ended by (simp add: leve_inv_def)
next
  case (leve_command now cmd)
  then show ?thesis
    by (cases cmd) (simp_all add: start_guildleve_def end_guildleve_def abandon_guildleve_eq d_end_count
        d_end_deleted update_aim_num_now_def update_ui_state_def update_marker_def sync_all_def Let_def)
qed

interpretation leve_log: event_log "leve_step plays" "leve_inv plays" full_view full_replay for plays
  by unfold_locales (fact leve_step_inv, fact leve_step_view)

interpretation leve_once: event_bound "leve_step plays" "leve_inv plays" gl_is_ended is_guildleve_ended for plays
  by unfold_locales (fact leve_step_inv, fact leve_step_guildleve_ended)

interpretation leve_director_once:
  event_bound "leve_step plays" "leve_inv plays" "\<lambda>g. d_is_deleted (gl_base g)" is_director_ended for plays
  by unfold_locales (fact leve_step_inv, fact leve_step_director_ended)

section \<open>Dispatch of an operation\<close>

text \<open>The members with a handle and a client, and their sessions.\<close>

definition reachable_members :: "(u32 \<Rightarrow> bool) \<Rightarrow> gc_world \<Rightarrow> u32 list \<Rightarrow> (u32 \<times> u32) list" where
  "reachable_members connected w ms =
     List.map_filter (\<lambda>m. case gw_players w m of
        Some p \<Rightarrow> if connected (gp_session_id p) then Some (m, gp_session_id p) else None | None \<Rightarrow> None) ms"

definition pay_all :: "(gc_db_call \<Rightarrow> bool) \<Rightarrow> u8 \<Rightarrow> u32 list \<Rightarrow> gc_world \<Rightarrow> gc_world" where
  "pay_all up difficulty ms w = fold (\<lambda>m. award_leve_completion_seals up m difficulty) ms w"

definition sends_to :: "(u32 \<times> u32) list \<Rightarrow> director_event \<Rightarrow> leve_send list" where
  "sends_to rs e = concat (map (\<lambda>(m, s). map (Pair s) (event_packets e)) rs)"

lemma award_leve_players [simp]: "gw_players (award_leve_completion_seals up m d w) = gw_players w"
  by (simp add: award_leve_completion_seals_def)

lemma pay_all_players [simp]: "gw_players (pay_all up d ms w) = gw_players w"
  by (induction ms arbitrary: w) (simp_all add: pay_all_def)

lemma reachable_members_cong: "gw_players w = gw_players w' \<Longrightarrow> reachable_members c w ms = reachable_members c w' ms"
  by (simp add: reachable_members_def)

lemma dispatch_director_event_eq:
  "dispatch_director_event connected up ms e (w, out) =
     (case event_award e of
        Some d \<Rightarrow> pay_all up d (map fst (reachable_members connected w ms)) w | None \<Rightarrow> w,
      out @ sends_to (reachable_members connected w ms) e)"
proof (induction ms arbitrary: w out)
  case Nil
  then show ?case
    by (simp add: dispatch_director_event_def reachable_members_def pay_all_def sends_to_def map_filter_simps split: option.split)
next
  case (Cons m ms)
  show ?case
  proof (cases "\<exists>p. gw_players w m = Some p \<and> connected (gp_session_id p)")
    case False
    then have "dispatch_to connected up e m (w, out) = (w, out)"
      by (auto simp: dispatch_to_def split: option.split)
    moreover have "reachable_members connected w (m # ms) = reachable_members connected w ms"
      using False by (auto simp: reachable_members_def map_filter_simps split: option.split)
    ultimately show ?thesis using Cons [of w out]
      by (simp add: dispatch_director_event_def split: option.split)
  next
    case True
    then obtain p where p: "gw_players w m = Some p" "connected (gp_session_id p)" by blast
    let ?w = "case event_award e of Some d \<Rightarrow> award_leve_completion_seals up m d w | None \<Rightarrow> w"
    have pl: "gw_players ?w = gw_players w" by (simp split: option.split)
    have "dispatch_to connected up e m (w, out) = (?w, out @ map (Pair (gp_session_id p)) (event_packets e))"
      using p by (simp add: dispatch_to_def)
    moreover have "reachable_members connected w (m # ms) = (m, gp_session_id p) # reachable_members connected w ms"
      using p by (simp add: reachable_members_def map_filter_simps)
    ultimately show ?thesis
      using Cons [of ?w "out @ map (Pair (gp_session_id p)) (event_packets e)"] reachable_members_cong [OF pl]
      by (simp add: dispatch_director_event_def sends_to_def pay_all_def split: option.splits)
  qed
qed

text \<open>A whole drain: the awards of the events in order, and the packets of the events in order.\<close>

definition awards_of :: "director_event list \<Rightarrow> u8 list" where
  "awards_of es = List.map_filter event_award es"

lemma drain_eq:
  "fold (dispatch_director_event connected up ms) es (w, out) =
     (fold (\<lambda>d. pay_all up d (map fst (reachable_members connected w ms))) (awards_of es) w,
      out @ concat (map (sends_to (reachable_members connected w ms)) es))"
proof (induction es arbitrary: w out)
  case Nil
  then show ?case by (simp add: awards_of_def map_filter_simps)
next
  case (Cons e es)
  let ?w = "case event_award e of
      Some d \<Rightarrow> pay_all up d (map fst (reachable_members connected w ms)) w | None \<Rightarrow> w"
  have "gw_players ?w = gw_players w" by (simp split: option.split)
  from reachable_members_cong [OF this] Cons [of ?w]
  show ?case
    by (simp add: dispatch_director_event_eq awards_of_def map_filter_simps split: option.splits)
qed

lemma apply_op_eq:
  assumes "lw_zones lw (drop_bit 19 k AND 0x1FF) = Some ar" and "ad_guildleve_directors ar k = Some g"
  shows "apply_director_outbox_op connected up now k cmd lw =
    lw\<lparr>lw_zones := (lw_zones lw)(drop_bit 19 k AND 0x1FF :=
         Some (ar\<lparr>ad_guildleve_directors := (ad_guildleve_directors ar)(k := Some (fst (leve_mutate now cmd g)))\<rparr>)),
       lw_gc := fold (\<lambda>d. pay_all up d (map fst (reachable_members connected (lw_gc lw) (player_members (gl_base g)))))
         (awards_of (snd (leve_mutate now cmd g))) (lw_gc lw),
       lw_sent := lw_sent lw @ concat (map
         (sends_to (reachable_members connected (lw_gc lw) (player_members (gl_base g))))
         (snd (leve_mutate now cmd g)))\<rparr>"
  using assms by (simp add: apply_director_outbox_op_def Let_def split_beta drain_eq)

fun leve_terminating :: "leve_command \<Rightarrow> bool" where
  "leve_terminating (LcEndGuildleve _) \<longleftrightarrow> True"
| "leve_terminating LcAbandonGuildleve \<longleftrightarrow> True"
| "leve_terminating _ \<longleftrightarrow> False"

lemma awards_of_simps [simp]:
  "awards_of [] = []" "awards_of (es @ fs) = awards_of es @ awards_of fs"
  "awards_of (e # es) = (case event_award e of Some d \<Rightarrow> d # awards_of es | None \<Rightarrow> awards_of es)"
  by (simp_all add: awards_of_def map_filter_def split: option.split)

lemma awards_of_d_end [simp]: "awards_of (snd (d_end d)) = []"
  by (simp add: d_end_def awards_of_def map_filter_def comp_def)

text \<open>What a command does to the fields the payout depends on.\<close>

lemma leve_mutate_awards:
  "awards_of (snd (leve_mutate now cmd g)) =
     (if \<not> gl_is_ended g \<and> cmd = LcEndGuildleve True then [gl_difficulty g] else [])"
  by (cases cmd) (simp_all add: start_guildleve_def end_guildleve_def abandon_guildleve_eq update_aim_num_now_def
      update_ui_state_def update_marker_def sync_all_def Let_def)

lemma leve_mutate_ended:
  "gl_is_ended (fst (leve_mutate now cmd g)) \<longleftrightarrow> gl_is_ended g \<or> leve_terminating cmd"
  by (cases cmd) (simp_all add: start_guildleve_def end_guildleve_def abandon_guildleve_eq update_aim_num_now_def
      update_ui_state_def update_marker_def sync_all_def Let_def)

lemma leve_mutate_frame:
  "gl_difficulty (fst (leve_mutate now cmd g)) = gl_difficulty g"
  "\<not> leve_terminating cmd \<Longrightarrow> gl_base (fst (leve_mutate now cmd g)) = gl_base g"
  by (cases cmd; simp add: start_guildleve_def end_guildleve_def abandon_guildleve_eq update_aim_num_now_def
      update_ui_state_def update_marker_def sync_all_def Let_def)+

definition leve_session ::
    "(u32 \<Rightarrow> bool) \<Rightarrow> (gc_db_call \<Rightarrow> bool) \<Rightarrow> u32 \<Rightarrow> (u32 \<times> leve_command) list \<Rightarrow> leve_world \<Rightarrow> leve_world" where
  "leve_session connected up k cmds lw = fold (\<lambda>(now, cmd). apply_director_outbox_op connected up now k cmd) cmds lw"

lemma leve_session_ended:
  assumes "lw_zones lw (drop_bit 19 k AND 0x1FF) = Some ar" and "ad_guildleve_directors ar k = Some g"
    and "gl_is_ended g"
  shows "lw_gc (leve_session connected up k cmds lw) = lw_gc lw"
  using assms
proof (induction cmds arbitrary: lw ar g)
  case (Cons c cmds)
  obtain now cmd where c: "c = (now, cmd)" by (cases c)
  let ?lw = "apply_director_outbox_op connected up now k cmd lw" and ?g = "fst (leve_mutate now cmd g)"
  let ?ar = "ar\<lparr>ad_guildleve_directors := (ad_guildleve_directors ar)(k := Some ?g)\<rparr>"
  have "lw_zones ?lw (drop_bit 19 k AND 0x1FF) = Some ?ar" "lw_gc ?lw = lw_gc lw"
    using apply_op_eq [OF Cons.prems(1,2)] Cons.prems(3) by (simp_all add: leve_mutate_awards)
  moreover have "ad_guildleve_directors ?ar k = Some ?g" "gl_is_ended ?g"
    using Cons.prems(3) by (simp_all add: leve_mutate_ended)
  ultimately show ?case using Cons.IH by (simp add: leve_session_def c)
qed (simp add: leve_session_def)

text \<open>
  C18: A guildleve is paid for once. Over any sequence of script commands on a guildleve director that
  has not ended, the seal balances change exactly when the first command that ends the leve is a
  completed EndGuildleve: then each member with a client is awarded the leve's difficulty once; an
  abandoned or failed leve, and every later EndGuildleve, pays nothing.
\<close>

theorem leve_paid_once:
  assumes "lw_zones lw (drop_bit 19 k AND 0x1FF) = Some ar" and "ad_guildleve_directors ar k = Some g"
    and "\<not> gl_is_ended g"
  shows "lw_gc (leve_session connected up k cmds lw) =
    (case filter leve_terminating (map snd cmds) of
       LcEndGuildleve True # _ \<Rightarrow>
         pay_all up (gl_difficulty g)
           (map fst (reachable_members connected (lw_gc lw) (player_members (gl_base g)))) (lw_gc lw)
     | _ \<Rightarrow> lw_gc lw)"
  using assms
proof (induction cmds arbitrary: lw ar g)
  case (Cons c cmds)
  obtain now cmd where c: "c = (now, cmd)" by (cases c)
  let ?lw = "apply_director_outbox_op connected up now k cmd lw" and ?g = "fst (leve_mutate now cmd g)"
  let ?ar = "ar\<lparr>ad_guildleve_directors := (ad_guildleve_directors ar)(k := Some ?g)\<rparr>"
  have z: "lw_zones ?lw (drop_bit 19 k AND 0x1FF) = Some ?ar"
    and gc: "lw_gc ?lw = (if cmd = LcEndGuildleve True
      then pay_all up (gl_difficulty g)
        (map fst (reachable_members connected (lw_gc lw) (player_members (gl_base g)))) (lw_gc lw)
      else lw_gc lw)"
    using apply_op_eq [OF Cons.prems(1,2)] Cons.prems(3) by (simp_all add: leve_mutate_awards)
  have g: "ad_guildleve_directors ?ar k = Some ?g" by simp
  have run: "leve_session connected up k (c # cmds) lw = leve_session connected up k cmds ?lw"
    by (simp add: leve_session_def c)
  show ?case
  proof (cases "leve_terminating cmd")
    case True
    then have "lw_gc (leve_session connected up k cmds ?lw) = lw_gc ?lw"
      using leve_session_ended [OF z g] by (simp add: leve_mutate_ended)
    with run gc True show ?thesis by (cases cmd) (auto simp: c split: bool.split)
  next
    case False
    with Cons.prems(3) have live: "\<not> gl_is_ended ?g" by (simp add: leve_mutate_ended)
    from False have "cmd \<noteq> LcEndGuildleve True" by auto
    then have same: "lw_gc ?lw = lw_gc lw" using gc by simp
    from Cons.IH [OF z g live, unfolded same leve_mutate_frame(1) leve_mutate_frame(2) [OF False]] run False
    show ?thesis by (simp add: c)
  qed
qed (simp add: leve_session_def)

lemma sends_to_simps [simp]:
  "sends_to rs (MemberRemoved a m p) = []"
  "sends_to rs (DirectorEnded k z) = map (\<lambda>(m, s). (s, PktRemoveActor k)) rs"
  "sends_to rs (GuildleveAbandoned k l) = map (\<lambda>(m, s). (s, PktGameMessage GL_TEXT_ABANDON [l])) rs"
  "sends_to rs (GuildleveEnded k l False t d) = []"
  by (induction rs) (auto simp: sends_to_def)

lemma reachable_members_Nil [simp]: "reachable_members connected w [] = []"
  by (simp add: reachable_members_def map_filter_simps)

lemma sends_to_none [simp]: "sends_to [] e = []"
  by (simp add: sends_to_def)

lemma d_end_sends:
  "\<not> d_is_deleted d \<Longrightarrow> concat (map (sends_to rs) (snd (d_end d))) = map (\<lambda>(m, s). (s, PktRemoveActor (d_actor_id d))) rs"
  by (simp add: d_end_def comp_def)

text \<open>
  Abandoning a live guildleve tells everyone and pays no one. Each member with a client gets the
  abandon message and then the removal of the director's actor, although the teardown has emptied the
  roster by then; no balance changes; the director is left ended, deleted and without members; and
  abandoning again sends nothing.
\<close>

theorem leve_abandon_notifies:
  assumes "lw_zones lw (drop_bit 19 k AND 0x1FF) = Some ar" and "ad_guildleve_directors ar k = Some g"
    and "\<not> d_is_deleted (gl_base g)" and "d_actor_id (gl_base g) = k"
    and "rs = reachable_members connected (lw_gc lw) (player_members (gl_base g))"
    and "lw' = apply_director_outbox_op connected up now k LcAbandonGuildleve lw"
  shows "lw_sent lw' = lw_sent lw @ map (\<lambda>(m, s). (s, PktGameMessage GL_TEXT_ABANDON [gl_guildleve_id g])) rs
      @ map (\<lambda>(m, s). (s, PktRemoveActor k)) rs
    \<and> lw_gc lw' = lw_gc lw
    \<and> (\<exists>ar' g'. lw_zones lw' (drop_bit 19 k AND 0x1FF) = Some ar' \<and> ad_guildleve_directors ar' k = Some g'
         \<and> gl_is_ended g' \<and> d_is_deleted (gl_base g') \<and> d_members (gl_base g') = {})
    \<and> lw_sent (apply_director_outbox_op connected up later k LcAbandonGuildleve lw') = lw_sent lw'"
proof -
  let ?g = "fst (leve_mutate now LcAbandonGuildleve g)"
  let ?ar = "ar\<lparr>ad_guildleve_directors := (ad_guildleve_directors ar)(k := Some ?g)\<rparr>"
  note eq = apply_op_eq [OF assms(1,2), of connected up now LcAbandonGuildleve, folded assms(6)]
  have z: "lw_zones lw' (drop_bit 19 k AND 0x1FF) = Some ?ar" by (simp add: eq)
  have g: "ad_guildleve_directors ?ar k = Some ?g" by simp
  have after: "gl_is_ended ?g" "d_is_deleted (gl_base ?g)" "d_members (gl_base ?g) = {}"
    "player_members (gl_base ?g) = []"
    using assms(3) by (simp_all add: abandon_guildleve_eq end_guildleve_def Let_def d_end_fields player_members_def)
  have quiet: "concat (map (sends_to rs) (snd (end_guildleve now False g))) = []"
    by (simp add: end_guildleve_def Let_def)
  have sent: "lw_sent lw' = lw_sent lw @ map (\<lambda>(m, s). (s, PktGameMessage GL_TEXT_ABANDON [gl_guildleve_id g])) rs
      @ map (\<lambda>(m, s). (s, PktRemoveActor k)) rs"
    using quiet d_end_sends [OF assms(3), of rs] assms(4)
    by (simp add: eq abandon_guildleve_eq assms(5) [symmetric])
  have "awards_of (snd (abandon_guildleve now g)) = []"
    using leve_mutate_awards [of now LcAbandonGuildleve g] by simp
  then have gc: "lw_gc lw' = lw_gc lw" by (simp add: eq)
  have again: "lw_sent (apply_director_outbox_op connected up later k LcAbandonGuildleve lw') = lw_sent lw'"
    using apply_op_eq [OF z g] after(4) by simp
  from sent gc z g after again show ?thesis by blast
qed

section \<open>The registry hands out fresh ids\<close>

datatype registry_op =
    RegCreate "u8 list" bool
  | RegGuildleve u32 u8 u32 u32 u32 u32 "i8 list"
  | RegWithId u32 "u8 list" bool
  | RegDelete u32

fun registry_do :: "registry_op \<Rightarrow> area_directors \<Rightarrow> area_directors" where
  "registry_do (RegCreate path has_group) ar = snd (create_director path has_group ar)"
| "registry_do (RegGuildleve gid difficulty owner plate location limit aims) ar =
     snd (create_guildleve_director gid difficulty owner plate location limit aims ar)"
| "registry_do (RegWithId local_id path has_group) ar = snd (create_director_with_id local_id path has_group ar)"
| "registry_do (RegDelete k) ar = snd (delete_director k ar)"

definition registered :: "area_directors \<Rightarrow> u32 set" where
  "registered ar = dom (ad_directors ar) \<union> dom (ad_guildleve_directors ar)"

text \<open>Every registered id encodes a number the counter has passed.\<close>

definition registry_inv :: "u32 \<Rightarrow> area_directors \<Rightarrow> bool" where
  "registry_inv z ar \<longleftrightarrow> ad_actor_id ar = z \<and> finite (registered ar)
     \<and> (\<forall>k \<in> registered ar. \<exists>l. k = encode_director_actor_id z l \<and> unat l < unat (ad_next_director_id ar))"

lemma registry_inv_mono:
  assumes "registry_inv z ar" and "ad_actor_id ar' = z" and "registered ar' \<subseteq> registered ar"
    and "unat (ad_next_director_id ar) \<le> unat (ad_next_director_id ar')"
  shows "registry_inv z ar'"
  using assms finite_subset [OF assms(3)] unfolding registry_inv_def by (meson in_mono order_less_le_trans)

lemma registry_inv_insert:
  assumes "registry_inv z ar" and "ad_actor_id ar' = z"
    and "registered ar' \<subseteq> insert (encode_director_actor_id z l) (registered ar)"
    and "unat l < unat (ad_next_director_id ar')"
    and "unat (ad_next_director_id ar) \<le> unat (ad_next_director_id ar')"
  shows "registry_inv z ar'"
  unfolding registry_inv_def
proof (intro conjI ballI)
  show "finite (registered ar')" using assms(1,3) finite_subset by (fastforce simp: registry_inv_def)
  fix k assume "k \<in> registered ar'"
  then consider "k = encode_director_actor_id z l" | "k \<in> registered ar" using assms(3) by blast
  then show "\<exists>l. k = encode_director_actor_id z l \<and> unat l < unat (ad_next_director_id ar')"
  proof cases
    case 2
    with assms(1) obtain l' where "k = encode_director_actor_id z l'" "unat l' < unat (ad_next_director_id ar)"
      by (auto simp: registry_inv_def)
    with assms(5) show ?thesis by fastforce
  qed (use assms(4) in blast)
qed (use assms(2) in simp)

lemma unat_max32: "unat (0xFFFFFFFF :: u32) = 4294967295"
  by simp

lemma unat_saturating_Suc: "unat (u32_saturating_add l 1) = min (Suc (unat l)) 4294967295"
proof (cases "Suc (unat l) < 2 ^ 32")
  case True
  then have "unat (l + 1) = Suc (unat l)" by (simp add: unat_word_ariths)
  with True show ?thesis by (simp add: u32_saturating_add_def)
next
  case False
  have "unat l < 4294967296" using unsigned_less [of l, where 'a = nat] by simp
  with False have "unat l = 4294967295" by simp
  then show ?thesis unfolding u32_saturating_add_def using unat_max32 by (simp only: if_False) simp
qed

lemma d_new_actor_id [simp]: "d_actor_id (d_new l z p g) = encode_director_actor_id z l"
  by (simp add: d_new_def)

lemma gl_new_actor_id [simp]: "d_actor_id (gl_base (gl_new l z a b c d e f t)) = encode_director_actor_id z l"
  by (simp add: gl_new_def Let_def d_new_def)

lemma create_director_parts:
  "fst (create_director path has_group ar) = encode_director_actor_id (ad_actor_id ar) (ad_next_director_id ar)"
  "ad_actor_id (snd (create_director path has_group ar)) = ad_actor_id ar"
  "ad_directors (snd (create_director path has_group ar)) = (ad_directors ar)
     (encode_director_actor_id (ad_actor_id ar) (ad_next_director_id ar) :=
        Some (d_new (ad_next_director_id ar) (ad_actor_id ar) path has_group))"
  "ad_guildleve_directors (snd (create_director path has_group ar)) = ad_guildleve_directors ar"
  "ad_next_director_id (snd (create_director path has_group ar)) = u32_saturating_add (ad_next_director_id ar) 1"
  by (simp_all add: create_director_def alloc_director_id_def Let_def)

lemma create_guildleve_director_parts:
  "fst (create_guildleve_director a b c d e f t ar) =
     encode_director_actor_id (ad_actor_id ar) (ad_next_director_id ar)"
  "ad_actor_id (snd (create_guildleve_director a b c d e f t ar)) = ad_actor_id ar"
  "ad_guildleve_directors (snd (create_guildleve_director a b c d e f t ar)) = (ad_guildleve_directors ar)
     (encode_director_actor_id (ad_actor_id ar) (ad_next_director_id ar) :=
        Some (gl_new (ad_next_director_id ar) (ad_actor_id ar) a b c d e f t))"
  "ad_directors (snd (create_guildleve_director a b c d e f t ar)) = ad_directors ar"
  "ad_next_director_id (snd (create_guildleve_director a b c d e f t ar)) =
     u32_saturating_add (ad_next_director_id ar) 1"
  by (simp_all add: create_guildleve_director_def alloc_director_id_def Let_def)

lemma create_director_with_id_parts:
  "ad_actor_id (snd (create_director_with_id l path has_group ar)) = ad_actor_id ar"
  "registered (snd (create_director_with_id l path has_group ar))
     \<subseteq> insert (encode_director_actor_id (ad_actor_id ar) l) (registered ar)"
  "ad_next_director_id (snd (create_director_with_id l path has_group ar)) =
     (if ad_next_director_id ar \<le> l then u32_saturating_add l 1 else ad_next_director_id ar)"
  by (auto simp: create_director_with_id_def Let_def registered_def split: if_splits)

lemma registry_do_step:
  assumes "registry_inv z ar" and "unat (ad_next_director_id (registry_do op ar)) < 2 ^ 32 - 1"
  shows "registry_inv z (registry_do op ar)
    \<and> unat (ad_next_director_id ar) \<le> unat (ad_next_director_id (registry_do op ar))"
proof -
  have z: "ad_actor_id ar = z" using assms(1) by (simp add: registry_inv_def)
  have sat: "unat (u32_saturating_add l 1) < 2 ^ 32 - 1 \<Longrightarrow> unat (u32_saturating_add l 1) = Suc (unat l)" for l
    by (simp add: unat_saturating_Suc min_def split: if_splits)
  show ?thesis
  proof (cases op)
    case (RegCreate path has_group)
    with assms(2) have "unat (ad_next_director_id (registry_do op ar)) = Suc (unat (ad_next_director_id ar))"
      using sat by (simp add: create_director_parts)
    then show ?thesis
      using RegCreate registry_inv_insert [OF assms(1), of "registry_do op ar" "ad_next_director_id ar"] z
      by (auto simp: create_director_parts registered_def split: if_splits)
  next
    case (RegGuildleve a b c d e f t)
    with assms(2) have "unat (ad_next_director_id (registry_do op ar)) = Suc (unat (ad_next_director_id ar))"
      using sat by (simp add: create_guildleve_director_parts)
    then show ?thesis
      using RegGuildleve registry_inv_insert [OF assms(1), of "registry_do op ar" "ad_next_director_id ar"] z
      by (auto simp: create_guildleve_director_parts registered_def split: if_splits)
  next
    case (RegWithId l path has_group)
    have "unat l < unat (ad_next_director_id (registry_do op ar))"
      "unat (ad_next_director_id ar) \<le> unat (ad_next_director_id (registry_do op ar))"
      using assms(2) sat [of l] RegWithId
      by (auto simp: create_director_with_id_parts word_le_nat_alt not_le split: if_splits)
    then show ?thesis
      using RegWithId registry_inv_insert [OF assms(1), of "registry_do op ar" l] z
        create_director_with_id_parts(1,2) [of l path has_group ar] by auto
  next
    case (RegDelete k)
    have "registered (registry_do op ar) \<subseteq> registered ar"
      "ad_actor_id (registry_do op ar) = z" "ad_next_director_id (registry_do op ar) = ad_next_director_id ar"
      using RegDelete z by (auto simp: delete_director_def registered_def split: if_splits)
    with registry_inv_mono [OF assms(1)] show ?thesis by simp
  qed
qed

lemma registry_do_mono: "unat (ad_next_director_id ar) \<le> unat (ad_next_director_id (registry_do op ar))"
proof -
  have sat: "unat l \<le> unat (u32_saturating_add l 1)" for l
    using unsigned_less [of l, where 'a = nat] by (simp add: unat_saturating_Suc)
  show ?thesis
  proof (cases op)
    case (RegWithId l path has_group)
    then show ?thesis
      using order_trans [OF _ sat [of l], of "unat (ad_next_director_id ar)"]
      by (simp add: create_director_with_id_parts word_le_nat_alt)
  qed (simp_all add: create_director_parts create_guildleve_director_parts delete_director_def sat)
qed

lemma registry_run_inv:
  "unat (ad_next_director_id (fold registry_do ops (ad_new z))) < 2 ^ 32 - 1 \<Longrightarrow>
     registry_inv z (fold registry_do ops (ad_new z))"
proof (induction ops rule: rev_induct)
  case Nil
  then show ?case by (simp add: registry_inv_def ad_new_def registered_def)
next
  case (snoc op ops)
  then have "registry_inv z (fold registry_do ops (ad_new z))"
    using registry_do_mono [of "fold registry_do ops (ad_new z)" op] by simp
  with registry_do_step [OF this, of op] snoc.prems show ?case by simp
qed

lemma next_id_fresh:
  assumes "registry_inv z ar" and "unat (ad_next_director_id ar) + 2 < 2 ^ 19"
  shows "encode_director_actor_id z (ad_next_director_id ar) \<notin> registered ar"
proof
  assume "encode_director_actor_id z (ad_next_director_id ar) \<in> registered ar"
  then obtain l where l: "encode_director_actor_id z (ad_next_director_id ar) = encode_director_actor_id z l"
    "unat l < unat (ad_next_director_id ar)" using assms(1) unfolding registry_inv_def by blast
  have "unat l + 2 < 2 ^ 19" using l(2) assms(2) by linarith
  with l(1) assms(2) have "ad_next_director_id ar = l" by (rule encode_director_actor_id_inj)
  with l(2) show False by simp
qed

text \<open>
  While fewer than 2^19 - 2 director numbers have been handed out in an area, whatever was created,
  pinned or deleted before, the next generic and the next guildleve director get an actor id no other
  director of either registry has: the new director is added, none is replaced, and the id decodes to
  the area (within the 9 bits the encoding keeps of it).
\<close>

theorem registry_ids_fresh:
  assumes "ar = fold registry_do ops (ad_new z)" and "unat (ad_next_director_id ar) + 2 < 2 ^ 19"
    and "create_director path has_group ar = (k, ar1)"
    and "create_guildleve_director a b c d e f t ar = (k', ar2)"
  shows "k \<notin> registered ar \<and> registered ar1 = insert k (registered ar) \<and> director_count ar1 = director_count ar + 1
    \<and> (\<forall>j. j \<noteq> k \<longrightarrow> ad_directors ar1 j = ad_directors ar j) \<and> ad_guildleve_directors ar1 = ad_guildleve_directors ar
    \<and> k' \<notin> registered ar \<and> registered ar2 = insert k' (registered ar) \<and> director_count ar2 = director_count ar + 1
    \<and> (\<forall>j. j \<noteq> k' \<longrightarrow> ad_guildleve_directors ar2 j = ad_guildleve_directors ar j) \<and> ad_directors ar2 = ad_directors ar
    \<and> director_zone_of k = z AND 0x1FF \<and> director_zone_of k' = z AND 0x1FF"
proof -
  have inv: "registry_inv z ar" using registry_run_inv [of ops z] assms(1,2) by simp
  then have z: "ad_actor_id ar = z" and fin: "finite (dom (ad_directors ar))" "finite (dom (ad_guildleve_directors ar))"
    by (auto simp: registry_inv_def registered_def)
  let ?k = "encode_director_actor_id z (ad_next_director_id ar)"
  have k: "k = ?k" "k' = ?k"
    and d1: "ad_directors ar1 = (ad_directors ar)(?k := Some (d_new (ad_next_director_id ar) z path has_group))"
    and g1: "ad_guildleve_directors ar1 = ad_guildleve_directors ar"
    and d2: "ad_directors ar2 = ad_directors ar"
    and g2: "ad_guildleve_directors ar2 =
      (ad_guildleve_directors ar)(?k := Some (gl_new (ad_next_director_id ar) z a b c d e f t))"
    using create_director_parts [of path has_group ar] create_guildleve_director_parts [of a b c d e f t ar]
      assms(3,4) z by simp_all
  have fresh: "?k \<notin> dom (ad_directors ar)" "?k \<notin> dom (ad_guildleve_directors ar)"
    using next_id_fresh [OF inv assms(2)] by (auto simp: registered_def)
  show ?thesis
    unfolding k registered_def director_count_def d1 g1 d2 g2 director_zone_of_encode
    using fresh fin by simp
qed

lemma registry_ids_fresh_witness:
  "\<exists>k ar1. create_director [] False (fold registry_do [RegCreate [] True, RegWithId 0 [] False] (ad_new 100)) = (k, ar1)
     \<and> k \<notin> registered (fold registry_do [RegCreate [] True, RegWithId 0 [] False] (ad_new 100))
     \<and> registered ar1 = insert k (registered (fold registry_do [RegCreate [] True, RegWithId 0 [] False] (ad_new 100)))"
proof -
  let ?ar = "fold registry_do [RegCreate [] True, RegWithId 0 [] False] (ad_new 100)"
  have "u32_saturating_add 1 1 = 2" by (simp add: u32_saturating_add_def)
  then have n: "unat (ad_next_director_id ?ar) + 2 < 2 ^ 19"
    by (simp add: create_director_parts create_director_with_id_parts ad_new_def)
  obtain k ar1 where c: "create_director [] False ?ar = (k, ar1)" by (rule prod.exhaust)
  obtain k' ar2 where g: "create_guildleve_director 1 1 1 1 1 1 [] ?ar = (k', ar2)"
    by (rule prod.exhaust)
  note new = registry_ids_fresh [OF refl n c g]
  from c conjunct1 [OF new] conjunct1 [OF conjunct2 [OF new]] show ?thesis by (intro exI conjI)
qed

text \<open>A zone with one guildleve director, one member with a client and one without.\<close>

definition leve_example_director :: guildleve_director where
  "leve_example_director =
     (let g = gl_new 1 100 10801 3 5 20021 1 600 [1, 0, 0, 0]
      in g\<lparr>gl_base := fst (d_add_member 6 True (fst (d_add_member 5 True (gl_base g))))\<rparr>)"

definition leve_example :: leve_world where
  "leve_example = \<lparr>lw_zones = (\<lambda>z. if z = 100 then Some ((ad_new 100)\<lparr>ad_guildleve_directors :=
       (\<lambda>k. if k = 0x63200003 then Some leve_example_director else None)\<rparr>) else None),
     lw_gc = gc_run (\<lambda>_. True) (\<lambda>_. True) [OpJoin 5 1] gc_example_world, lw_sent = []\<rparr>"

lemma leve_example_zone:
  "lw_zones leve_example (drop_bit 19 0x63200003 AND 0x1FF) = Some ((ad_new 100)\<lparr>ad_guildleve_directors :=
       (\<lambda>k. if k = 0x63200003 then Some leve_example_director else None)\<rparr>)"
proof -
  have "drop_bit 19 0x63200003 AND 0x1FF = (100 :: u32)" by code_simp
  then show ?thesis by (simp add: leve_example_def)
qed

lemma leve_example_fields:
  "\<not> gl_is_ended leve_example_director" "\<not> d_is_deleted (gl_base leve_example_director)"
  "gl_difficulty leve_example_director = 3" "gl_guildleve_id leve_example_director = 10801"
  "player_members (gl_base leve_example_director) = [5, 6]"
  "d_actor_id (gl_base leve_example_director) = 0x63200003"
proof -
  have id: "encode_director_actor_id 100 1 = 0x63200003" by code_simp
  show "\<not> gl_is_ended leve_example_director" "\<not> d_is_deleted (gl_base leve_example_director)"
    "gl_difficulty leve_example_director = 3" "gl_guildleve_id leve_example_director = 10801"
    "player_members (gl_base leve_example_director) = [5, 6]"
    "d_actor_id (gl_base leve_example_director) = 0x63200003"
    by (simp_all add: leve_example_director_def gl_new_def d_new_def d_add_member_def player_members_def Let_def id)
qed

lemma leve_example_reachable:
  "reachable_members (\<lambda>_. True) (lw_gc leve_example) [5, 6] = [(5, 9)]"
  by (simp add: leve_example_def) code_simp

lemma leve_paid_once_witness:
  "balance (lw_gc (leve_session (\<lambda>_. True) (\<lambda>_. True) 0x63200003
      [(0, LcStartGuildleve), (10, LcEndGuildleve True), (20, LcEndGuildleve True), (30, LcAbandonGuildleve)]
      leve_example)) 5 1 = 350"
proof -
  have "lw_gc (leve_session (\<lambda>_. True) (\<lambda>_. True) 0x63200003
      [(0, LcStartGuildleve), (10, LcEndGuildleve True), (20, LcEndGuildleve True), (30, LcAbandonGuildleve)]
      leve_example) = pay_all (\<lambda>_. True) 3 [5] (lw_gc leve_example)"
    using leve_paid_once [OF leve_example_zone, of leve_example_director "\<lambda>_. True" "\<lambda>_. True"
        "[(0, LcStartGuildleve), (10, LcEndGuildleve True), (20, LcEndGuildleve True), (30, LcAbandonGuildleve)]"]
    by (simp add: leve_example_fields leve_example_reachable)
  moreover have "balance (pay_all (\<lambda>_. True) 3 [5] (gc_run (\<lambda>_. True) (\<lambda>_. True) [OpJoin 5 1] gc_example_world)) 5 1 = 350"
    by code_simp
  ultimately show ?thesis by (simp add: leve_example_def)
qed

lemma leve_abandon_notifies_witness:
  "lw_sent (apply_director_outbox_op (\<lambda>_. True) (\<lambda>_. True) 10 0x63200003 LcAbandonGuildleve leve_example)
     = [(9, PktGameMessage GL_TEXT_ABANDON [10801]), (9, PktRemoveActor 0x63200003)]"
proof -
  have sent: "lw_sent leve_example = []" by (simp add: leve_example_def)
  show ?thesis
    using leve_abandon_notifies [OF leve_example_zone _ _ _ refl refl, of leve_example_director "\<lambda>_. True" "\<lambda>_. True" 10]
    by (simp add: leve_example_fields leve_example_reachable sent)
qed

end
