(* ===== verification/AreaGrid.thy ===== *)
theory AreaGrid
  imports LeveDispatch
begin

text \<open>
  \<open>map-server/src/zone/area.rs\<close>, the actor side: the actor table, the 200 x 200 spatial grid, the range
  queries, and the area events of \<open>zone/outbox.rs\<close> this part pushes. An \<open>f32\<close> is its bit pattern;
  \<open>f32_to_i32\<close> is Rust's saturating \<open>as i32\<close>. A query takes the radius in cells, which the source
  computes from a distance (1 for the 50-yalm broadcast radius).
\<close>

section \<open>f32 as i32\<close>

definition f32_exponent :: "f32_bits \<Rightarrow> nat" where
  "f32_exponent b = unat (drop_bit 23 b AND 0xFF)"

definition f32_mantissa :: "f32_bits \<Rightarrow> int" where
  "f32_mantissa b = uint (b AND 0x7FFFFF)"

definition f32_negative :: "f32_bits \<Rightarrow> bool" where
  "f32_negative b \<longleftrightarrow> bit b 31"

text \<open>The value is \<open>significand * 2 ^ (exponent - 150)\<close>, the exponent of subnormals being 1.\<close>

definition f32_significand :: "f32_bits \<Rightarrow> int" where
  "f32_significand b = (if f32_exponent b = 0 then f32_mantissa b else f32_mantissa b + 0x800000)"

definition f32_magnitude :: "f32_bits \<Rightarrow> int" where
  "f32_magnitude b =
     (let e = max 1 (f32_exponent b)
      in if 150 \<le> e then f32_significand b * 2 ^ (e - 150) else f32_significand b div 2 ^ (150 - e))"

definition i32_clamp :: "int \<Rightarrow> int" where
  "i32_clamp x = max (- 2147483648) (min 2147483647 x)"

definition f32_to_i32 :: "f32_bits \<Rightarrow> int" where
  "f32_to_i32 b =
     (if f32_exponent b = 255 \<and> f32_mantissa b \<noteq> 0 then 0
      else i32_clamp (if f32_negative b then - f32_magnitude b else f32_magnitude b))"

record vector3 =
  v_x :: f32_bits
  v_y :: f32_bits
  v_z :: f32_bits

section \<open>Constants and records\<close>

definition BOUNDING_GRID_SIZE :: int where "BOUNDING_GRID_SIZE = 50"
definition AREA_MIN :: int where "AREA_MIN = - 5000"
definition AREA_MAX :: int where "AREA_MAX = 5000"
definition NUM_X_BLOCKS :: int where "NUM_X_BLOCKS = (AREA_MAX - AREA_MIN) div BOUNDING_GRID_SIZE"
definition NUM_Y_BLOCKS :: int where "NUM_Y_BLOCKS = (AREA_MAX - AREA_MIN) div BOUNDING_GRID_SIZE"
definition HALF_WIDTH :: int where "HALF_WIDTH = NUM_X_BLOCKS div 2"
definition HALF_HEIGHT :: int where "HALF_HEIGHT = NUM_Y_BLOCKS div 2"

lemma block_consts [simp]:
  "BOUNDING_GRID_SIZE = 50" "NUM_X_BLOCKS = 200" "NUM_Y_BLOCKS = 200" "HALF_WIDTH = 100" "HALF_HEIGHT = 100"
  by (simp_all add: BOUNDING_GRID_SIZE_def NUM_X_BLOCKS_def NUM_Y_BLOCKS_def HALF_WIDTH_def HALF_HEIGHT_def
      AREA_MIN_def AREA_MAX_def)

datatype area_kind = AreaZone | AreaPrivate | AreaPrivateContent
datatype actor_kind = AkOther | AkPlayer | AkNpc | AkBattleNpc | AkAlly | AkPet

record stored_actor =
  sa_actor_id :: u32
  sa_kind :: actor_kind
  sa_position :: vector3
  sa_grid :: "int \<times> int"
  sa_is_alive :: bool

record area_core = area_directors +
  ac_zone_name :: "u8 list"
  ac_region_id :: u16
  ac_class_path :: "u8 list"
  ac_class_name :: "u8 list"
  ac_kind :: area_kind
  ac_is_isolated :: bool
  ac_can_stealth :: bool
  ac_is_inn :: bool
  ac_can_ride_chocobo :: bool
  ac_is_instance_raid :: bool
  ac_weather_normal :: u16
  ac_weather_common :: u16
  ac_weather_rare :: u16
  ac_bgm_day :: u16
  ac_bgm_night :: u16
  ac_bgm_battle :: u16
  ac_actors :: "u32 \<Rightarrow> stored_actor option"
  ac_grid :: "u32 list list"

datatype area_event =
    ActorAdded u32 u32
  | ActorRemoved u32 u32
  | ActorMoved u32 u32 "int \<times> int" "int \<times> int"
  | BroadcastAroundActor u32 u32 f32_bits u16 "u8 list"
  | WeatherChange u32 u16 u16 "u32 option" bool
  | DirectorCreated u32 u32 "u8 list"
  | DirectorDeleted u32 u32
  | ContentAreaCreated u32 "u8 list" u32 u32
  | ContentAreaDeleted u32 "u8 list" u32
  | SpawnActor u32 u32 u32 "u8 list"

definition ac_new :: "u32 \<Rightarrow> u8 list \<Rightarrow> u16 \<Rightarrow> u8 list \<Rightarrow> u16 \<Rightarrow> u16 \<Rightarrow> u16 \<Rightarrow> bool \<Rightarrow> bool \<Rightarrow> bool \<Rightarrow> bool \<Rightarrow> bool
    \<Rightarrow> area_kind \<Rightarrow> area_core" where
  "ac_new actor_id zone_name region_id class_path bgm_day bgm_night bgm_battle is_isolated is_inn
      can_ride_chocobo can_stealth is_instance_raid kind =
     area_directors.extend (ad_new actor_id)
       \<lparr>ac_zone_name = zone_name, ac_region_id = region_id, ac_class_path = class_path,
        ac_class_name = last_segment class_path, ac_kind = kind, ac_is_isolated = is_isolated,
        ac_can_stealth = can_stealth, ac_is_inn = is_inn, ac_can_ride_chocobo = can_ride_chocobo,
        ac_is_instance_raid = is_instance_raid, ac_weather_normal = 0, ac_weather_common = 0,
        ac_weather_rare = 0, ac_bgm_day = bgm_day, ac_bgm_night = bgm_night, ac_bgm_battle = bgm_battle,
        ac_actors = Map.empty, ac_grid = replicate (nat (NUM_X_BLOCKS * NUM_Y_BLOCKS)) []\<rparr>"

section \<open>Grid arithmetic\<close>

text \<open>\<open>i32\<close> division truncates towards zero.\<close>

definition i32_div :: "int \<Rightarrow> int \<Rightarrow> int" where
  "i32_div a b = (if a < 0 then - (- a div b) else a div b)"

definition clamp_to :: "int \<Rightarrow> int \<Rightarrow> int \<Rightarrow> int" where
  "clamp_to lo hi x = max lo (min hi x)"

definition pos_to_grid :: "f32_bits \<Rightarrow> f32_bits \<Rightarrow> int \<times> int" where
  "pos_to_grid x z =
     (let gx = i32_wrap (i32_div (f32_to_i32 x) BOUNDING_GRID_SIZE + HALF_WIDTH);
          gy = i32_wrap (i32_div (f32_to_i32 z) BOUNDING_GRID_SIZE + HALF_HEIGHT)
      in (clamp_to 0 (NUM_X_BLOCKS - 1) gx, clamp_to 0 (NUM_Y_BLOCKS - 1) gy))"

definition grid_index :: "int \<times> int \<Rightarrow> nat" where
  "grid_index c = nat (snd c * NUM_X_BLOCKS + fst c)"

definition ac_cell :: "int \<times> int \<Rightarrow> area_core \<Rightarrow> u32 list" where
  "ac_cell c ar = ac_grid ar ! grid_index c"

definition set_cell :: "int \<times> int \<Rightarrow> u32 list \<Rightarrow> area_core \<Rightarrow> area_core" where
  "set_cell c ids ar = ar\<lparr>ac_grid := (ac_grid ar)[grid_index c := ids]\<rparr>"

text \<open>\<open>position\<close> then \<open>remove\<close>: the first occurrence goes.\<close>

definition cell_remove :: "int \<times> int \<Rightarrow> u32 \<Rightarrow> area_core \<Rightarrow> area_core" where
  "cell_remove c actor_id ar = set_cell c (remove1 actor_id (ac_cell c ar)) ar"

definition cell_push :: "int \<times> int \<Rightarrow> u32 \<Rightarrow> area_core \<Rightarrow> area_core" where
  "cell_push c actor_id ar = set_cell c (ac_cell c ar @ [actor_id]) ar"

section \<open>Actors\<close>

definition add_actor :: "stored_actor \<Rightarrow> area_core \<Rightarrow> area_core \<times> area_event list" where
  "add_actor actor ar =
     (let cell = pos_to_grid (v_x (sa_position actor)) (v_z (sa_position actor));
          actor = actor\<lparr>sa_grid := cell\<rparr>;
          actor_id = sa_actor_id actor;
          prev = ac_actors ar actor_id;
          ar = ar\<lparr>ac_actors := (ac_actors ar)(actor_id := Some actor)\<rparr>
      in case prev of
           Some p \<Rightarrow>
             if sa_grid p \<noteq> cell \<and> actor_id \<in> set (ac_cell (sa_grid p) ar)
             then (cell_push cell actor_id (cell_remove (sa_grid p) actor_id ar),
                   [ActorAdded (ad_actor_id ar) actor_id])
             else (ar, [])
         | None \<Rightarrow> (cell_push cell actor_id ar, [ActorAdded (ad_actor_id ar) actor_id]))"

definition remove_actor :: "u32 \<Rightarrow> area_core \<Rightarrow> bool \<times> area_core \<times> area_event list" where
  "remove_actor actor_id ar =
     (case ac_actors ar actor_id of
        None \<Rightarrow> (False, ar, [])
      | Some prev \<Rightarrow>
          (True, cell_remove (sa_grid prev) actor_id (ar\<lparr>ac_actors := (ac_actors ar)(actor_id := None)\<rparr>),
           [ActorRemoved (ad_actor_id ar) actor_id]))"

definition update_actor_position :: "u32 \<Rightarrow> vector3 \<Rightarrow> area_core \<Rightarrow> area_core \<times> area_event list" where
  "update_actor_position actor_id new_position ar =
     (case ac_actors ar actor_id of
        None \<Rightarrow> (ar, [])
      | Some actor \<Rightarrow>
          let new_cell = pos_to_grid (v_x new_position) (v_z new_position);
              old_cell = sa_grid actor;
              actor = actor\<lparr>sa_position := new_position\<rparr>
          in if new_cell = old_cell then (ar\<lparr>ac_actors := (ac_actors ar)(actor_id := Some actor)\<rparr>, [])
             else (cell_push new_cell actor_id (cell_remove old_cell actor_id
                     (ar\<lparr>ac_actors := (ac_actors ar)(actor_id := Some (actor\<lparr>sa_grid := new_cell\<rparr>))\<rparr>)),
                   [ActorMoved (ad_actor_id ar) actor_id old_cell new_cell]))"

definition set_actor_alive :: "u32 \<Rightarrow> bool \<Rightarrow> area_core \<Rightarrow> area_core" where
  "set_actor_alive actor_id is_alive ar =
     (case ac_actors ar actor_id of
        None \<Rightarrow> ar
      | Some a \<Rightarrow> ar\<lparr>ac_actors := (ac_actors ar)(actor_id := Some (a\<lparr>sa_is_alive := is_alive\<rparr>))\<rparr>)"

definition ac_clear :: "area_core \<Rightarrow> area_core" where
  "ac_clear ar = ar\<lparr>ac_actors := Map.empty, ac_grid := map (\<lambda>_. []) (ac_grid ar)\<rparr>"

section \<open>Range queries\<close>

definition collect_cell :: "u32 option \<Rightarrow> area_core \<Rightarrow> int \<times> int \<Rightarrow> stored_actor list" where
  "collect_cell exclude ar c =
     List.map_filter (\<lambda>a_id. if Some a_id = exclude then None
        else case ac_actors ar a_id of
               Some a \<Rightarrow> if ac_is_isolated ar \<and> sa_kind a = AkPlayer then None else Some a
             | None \<Rightarrow> None) (ac_cell c ar)"

definition collect_actors_in_cells :: "int \<Rightarrow> int \<Rightarrow> int \<Rightarrow> u32 option \<Rightarrow> area_core \<Rightarrow> stored_actor list" where
  "collect_actors_in_cells gx gy radius_cells exclude ar =
     (let y_min = max (i32_wrap (gy - radius_cells)) 0;
          y_max = min (i32_wrap (gy + radius_cells)) (NUM_Y_BLOCKS - 1);
          x_min = max (i32_wrap (gx - radius_cells)) 0;
          x_max = min (i32_wrap (gx + radius_cells)) (NUM_X_BLOCKS - 1)
      in concat (map (\<lambda>y. concat (map (\<lambda>x. collect_cell exclude ar (x, y)) [x_min..x_max])) [y_min..y_max]))"

definition actors_around_point :: "f32_bits \<Rightarrow> f32_bits \<Rightarrow> int \<Rightarrow> area_core \<Rightarrow> stored_actor list" where
  "actors_around_point x z radius_cells ar =
     (case pos_to_grid x z of (gx, gy) \<Rightarrow> collect_actors_in_cells gx gy (max radius_cells 0) None ar)"

definition actors_around :: "u32 \<Rightarrow> int \<Rightarrow> area_core \<Rightarrow> stored_actor list" where
  "actors_around center radius_cells ar =
     (case ac_actors ar center of
        None \<Rightarrow> []
      | Some a \<Rightarrow> collect_actors_in_cells (fst (sa_grid a)) (snd (sa_grid a)) (max radius_cells 0) (Some center) ar)"

definition actors_around_of_kind :: "u32 \<Rightarrow> int \<Rightarrow> actor_kind \<Rightarrow> area_core \<Rightarrow> stored_actor list" where
  "actors_around_of_kind center radius_cells kind ar =
     filter (\<lambda>a. sa_kind a = kind) (actors_around center radius_cells ar)"

text \<open>The two events of a plain area.\<close>

definition BROADCAST_RADIUS :: f32_bits where "BROADCAST_RADIUS = 0x42480000"

definition change_weather :: "u16 \<Rightarrow> u16 \<Rightarrow> u32 option \<Rightarrow> bool \<Rightarrow> area_core \<Rightarrow> area_core \<times> area_event list" where
  "change_weather weather_id transition_time target zone_wide ar =
     (ar\<lparr>ac_weather_normal := weather_id\<rparr>,
      [WeatherChange (ad_actor_id ar) weather_id transition_time target zone_wide])"

definition broadcast_around :: "u32 \<Rightarrow> u16 \<Rightarrow> u8 list \<Rightarrow> area_core \<Rightarrow> area_event list" where
  "broadcast_around source opcode payload ar =
     (if ac_is_isolated ar then []
      else [BroadcastAroundActor (ad_actor_id ar) source BROADCAST_RADIUS opcode payload])"

end
