(* ===== verification/AreaLaws.thy ===== *)
theory AreaLaws
  imports AreaGrid
begin

text \<open>
  Laws of the actor grid of \<open>AreaGrid\<close>. The invariant \<open>area_wf\<close> ties the two representations together
  (a cell lists exactly the stored actors whose cached cell it is, once each, and the cached cell is
  the cell of the position), every operation keeps it, and the range queries are exact on it.
\<close>

section \<open>Cells\<close>

definition in_grid :: "int \<times> int \<Rightarrow> bool" where
  "in_grid c \<longleftrightarrow> 0 \<le> fst c \<and> fst c < 200 \<and> 0 \<le> snd c \<and> snd c < 200"

lemma clamp_to_bounds: "lo \<le> hi \<Longrightarrow> lo \<le> clamp_to lo hi x \<and> clamp_to lo hi x \<le> hi"
  by (simp add: clamp_to_def)

lemma in_grid_pos_to_grid [simp]: "in_grid (pos_to_grid x z)"
  by (simp add: in_grid_def pos_to_grid_def Let_def clamp_to_def min_def max_def)

lemma grid_coords_unique:
  fixes a b c d :: int
  assumes "b * 200 + a = d * 200 + c" and "0 \<le> a" "a < 200" "0 \<le> c" "c < 200"
  shows "a = c \<and> b = d"
proof -
  have "(b * 200 + a) mod 200 = a" "(d * 200 + c) mod 200 = c" using assms(2-) by simp_all
  then have "a = c" using assms(1) by argo
  then show ?thesis using assms(1) by simp
qed

lemma grid_index_inj:
  assumes "in_grid c" and "in_grid d"
  shows "grid_index c = grid_index d \<longleftrightarrow> c = d"
proof
  assume eq: "grid_index c = grid_index d"
  obtain a b where c: "c = (a, b)" by (rule prod.exhaust)
  obtain a' b' where d: "d = (a', b')" by (rule prod.exhaust)
  have bnd: "0 \<le> a" "a < 200" "0 \<le> b" "0 \<le> a'" "a' < 200" "0 \<le> b'"
    using assms by (simp_all add: in_grid_def c d)
  then have "0 \<le> b * 200 + a" "0 \<le> b' * 200 + a'" by simp_all
  then have "b * 200 + a = b' * 200 + a'"
    using eq unfolding grid_index_def c d fst_conv snd_conv block_consts by (simp only: eq_nat_nat_iff)
  then have "a = a' \<and> b = b'" by (rule grid_coords_unique) (use bnd in simp_all)
  then show "c = d" by (simp add: c d)
qed simp

lemma grid_index_less: "in_grid c \<Longrightarrow> grid_index c < 40000"
  unfolding in_grid_def grid_index_def by (auto simp: nat_less_iff)

lemma set_cell_fields [simp]:
  "ac_actors (set_cell c ids ar) = ac_actors ar"
  "ad_actor_id (set_cell c ids ar) = ad_actor_id ar"
  "ac_is_isolated (set_cell c ids ar) = ac_is_isolated ar"
  "length (ac_grid (set_cell c ids ar)) = length (ac_grid ar)"
  by (simp_all add: set_cell_def)

lemma ac_cell_set_cell:
  "length (ac_grid ar) = 40000 \<Longrightarrow> in_grid c \<Longrightarrow> in_grid d \<Longrightarrow>
    ac_cell d (set_cell c ids ar) = (if d = c then ids else ac_cell d ar)"
  by (simp add: ac_cell_def set_cell_def nth_list_update grid_index_less grid_index_inj)

lemma ac_cell_actors_update [simp]: "ac_cell c (ar\<lparr>ac_actors := m\<rparr>) = ac_cell c ar"
  by (simp add: ac_cell_def)

lemma cell_op_fields [simp]:
  "ac_actors (cell_push c k ar) = ac_actors ar" "ac_actors (cell_remove c k ar) = ac_actors ar"
  "ad_actor_id (cell_push c k ar) = ad_actor_id ar" "ad_actor_id (cell_remove c k ar) = ad_actor_id ar"
  "ac_is_isolated (cell_push c k ar) = ac_is_isolated ar"
  "ac_is_isolated (cell_remove c k ar) = ac_is_isolated ar"
  "length (ac_grid (cell_push c k ar)) = length (ac_grid ar)"
  "length (ac_grid (cell_remove c k ar)) = length (ac_grid ar)"
  by (simp_all add: cell_push_def cell_remove_def)

section \<open>The invariant\<close>

definition cell_ok :: "(u32 \<Rightarrow> stored_actor option) \<Rightarrow> int \<times> int \<Rightarrow> u32 list \<Rightarrow> bool" where
  "cell_ok actors c ids \<longleftrightarrow>
     distinct ids \<and> set ids = {k. \<exists>a. actors k = Some a \<and> sa_grid a = c}"

definition actor_ok :: "u32 \<Rightarrow> stored_actor \<Rightarrow> bool" where
  "actor_ok k a \<longleftrightarrow>
     sa_actor_id a = k \<and> sa_grid a = pos_to_grid (v_x (sa_position a)) (v_z (sa_position a))"

definition area_wf :: "area_core \<Rightarrow> bool" where
  "area_wf ar \<longleftrightarrow>
     length (ac_grid ar) = 40000 \<and>
     (\<forall>c. in_grid c \<longrightarrow> cell_ok (ac_actors ar) c (ac_cell c ar)) \<and>
     (\<forall>k a. ac_actors ar k = Some a \<longrightarrow> actor_ok k a)"

lemma area_wfI:
  assumes "length (ac_grid ar) = 40000"
    and "\<And>c. in_grid c \<Longrightarrow> cell_ok (ac_actors ar) c (ac_cell c ar)"
    and "\<And>k a. ac_actors ar k = Some a \<Longrightarrow> actor_ok k a"
  shows "area_wf ar"
  using assms by (simp add: area_wf_def)

lemma area_wfD:
  assumes "area_wf ar"
  shows "length (ac_grid ar) = 40000"
    and "in_grid c \<Longrightarrow> cell_ok (ac_actors ar) c (ac_cell c ar)"
    and "ac_actors ar k = Some a \<Longrightarrow> actor_ok k a"
  using assms unfolding area_wf_def by blast+

lemma wf_actor_in_grid:
  assumes "area_wf ar" and "ac_actors ar k = Some a"
  shows "in_grid (sa_grid a)"
  using area_wfD(3) [OF assms] by (simp add: actor_ok_def)

lemma wf_actor_in_cell:
  assumes "area_wf ar" and "ac_actors ar k = Some a"
  shows "k \<in> set (ac_cell (sa_grid a) ar)"
  using area_wfD(2) [OF assms(1) wf_actor_in_grid [OF assms]] assms(2) by (auto simp: cell_ok_def)

text \<open>How one cell follows a change of the actor table.\<close>

lemma cell_ok_insert_here:
  "cell_ok m c ids \<Longrightarrow> m k = None \<or> (\<exists>p. m k = Some p \<and> c \<noteq> sa_grid p) \<Longrightarrow> c = sa_grid a \<Longrightarrow>
    cell_ok (m(k := Some a)) c (ids @ [k])"
  unfolding cell_ok_def by auto

lemma cell_ok_insert_elsewhere:
  "cell_ok m c ids \<Longrightarrow> m k = None \<or> (\<exists>p. m k = Some p \<and> c \<noteq> sa_grid p) \<Longrightarrow> c \<noteq> sa_grid a \<Longrightarrow>
    cell_ok (m(k := Some a)) c ids"
  unfolding cell_ok_def by auto

lemma cell_ok_replace_same:
  "cell_ok m c ids \<Longrightarrow> m k = Some p \<Longrightarrow> sa_grid a = sa_grid p \<Longrightarrow> cell_ok (m(k := Some a)) c ids"
  unfolding cell_ok_def by auto

lemma cell_ok_move_out:
  "cell_ok m c ids \<Longrightarrow> c \<noteq> sa_grid a \<Longrightarrow> cell_ok (m(k := Some a)) c (remove1 k ids)"
  unfolding cell_ok_def by auto

lemma cell_ok_delete: "cell_ok m c ids \<Longrightarrow> cell_ok (m(k := None)) c (remove1 k ids)"
  unfolding cell_ok_def by auto

lemma cell_ok_delete_elsewhere:
  "cell_ok m c ids \<Longrightarrow> m k = Some p \<Longrightarrow> c \<noteq> sa_grid p \<Longrightarrow> cell_ok (m(k := None)) c ids"
  unfolding cell_ok_def by auto

section \<open>Every operation keeps it\<close>

lemma wf_ac_new: "area_wf (ac_new i n r p d g b isol inn ch st ra k)"
proof (rule area_wfI)
  fix c assume c: "in_grid c"
  then show "cell_ok (ac_actors (ac_new i n r p d g b isol inn ch st ra k)) c
      (ac_cell c (ac_new i n r p d g b isol inn ch st ra k))"
    using grid_index_less [OF c] by (simp add: ac_new_def area_directors.defs cell_ok_def ac_cell_def)
qed (simp_all add: ac_new_def area_directors.defs)

text \<open>An actor put in the table where it was not, or moved from the cell it was in.\<close>

lemma wf_insert_new:
  assumes wf: "area_wf ar" and new: "ac_actors ar k = None" and a: "actor_ok k a"
  shows "area_wf (cell_push (sa_grid a) k (ar\<lparr>ac_actors := (ac_actors ar)(k := Some a)\<rparr>))"
    (is "area_wf (cell_push _ _ ?ar)")
proof (rule area_wfI)
  show "length (ac_grid (cell_push (sa_grid a) k ?ar)) = 40000" using area_wfD(1) [OF wf] by simp
next
  have ga: "in_grid (sa_grid a)" using a by (simp add: actor_ok_def)
  fix c assume c: "in_grid c"
  have "ac_cell c (cell_push (sa_grid a) k ?ar) =
      (if c = sa_grid a then ac_cell c ar @ [k] else ac_cell c ar)"
    unfolding cell_push_def using area_wfD(1) [OF wf] by (simp add: ac_cell_set_cell ga c)
  then show "cell_ok (ac_actors (cell_push (sa_grid a) k ?ar)) c (ac_cell c (cell_push (sa_grid a) k ?ar))"
    using cell_ok_insert_here [OF area_wfD(2) [OF wf c], of k a]
      cell_ok_insert_elsewhere [OF area_wfD(2) [OF wf c], of k a] new by (cases "c = sa_grid a") simp_all
next
  fix k' a' assume "ac_actors (cell_push (sa_grid a) k ?ar) k' = Some a'"
  then show "actor_ok k' a'" using a area_wfD(3) [OF wf, of k' a'] by (simp split: if_splits)
qed

lemma wf_move:
  assumes wf: "area_wf ar" and old: "ac_actors ar k = Some p" and a: "actor_ok k a"
    and ne: "sa_grid a \<noteq> sa_grid p"
  shows "area_wf (cell_push (sa_grid a) k (cell_remove (sa_grid p) k
           (ar\<lparr>ac_actors := (ac_actors ar)(k := Some a)\<rparr>)))" (is "area_wf (cell_push _ _ (cell_remove _ _ ?ar))")
proof (rule area_wfI)
  show "length (ac_grid (cell_push (sa_grid a) k (cell_remove (sa_grid p) k ?ar))) = 40000"
    using area_wfD(1) [OF wf] by simp
next
  have ga: "in_grid (sa_grid a)" using a by (simp add: actor_ok_def)
  have gp: "in_grid (sa_grid p)" by (rule wf_actor_in_grid [OF wf old])
  fix c assume c: "in_grid c"
  have "ac_cell c (cell_push (sa_grid a) k (cell_remove (sa_grid p) k ?ar)) =
      (if c = sa_grid a then ac_cell c ar @ [k]
       else if c = sa_grid p then remove1 k (ac_cell c ar) else ac_cell c ar)"
    unfolding cell_push_def cell_remove_def
    using area_wfD(1) [OF wf] ne by (simp add: ac_cell_set_cell ga gp c)
  then show "cell_ok (ac_actors (cell_push (sa_grid a) k (cell_remove (sa_grid p) k ?ar))) c
      (ac_cell c (cell_push (sa_grid a) k (cell_remove (sa_grid p) k ?ar)))"
    using cell_ok_insert_here [OF area_wfD(2) [OF wf c], of k a] cell_ok_move_out [OF area_wfD(2) [OF wf c], of a k]
      cell_ok_insert_elsewhere [OF area_wfD(2) [OF wf c], of k a] old ne
    by (cases "c = sa_grid a"; cases "c = sa_grid p") simp_all
next
  fix k' a' assume "ac_actors (cell_push (sa_grid a) k (cell_remove (sa_grid p) k ?ar)) k' = Some a'"
  then show "actor_ok k' a'" using a area_wfD(3) [OF wf, of k' a'] by (simp split: if_splits)
qed

lemma wf_replace:
  assumes wf: "area_wf ar" and old: "ac_actors ar k = Some p" and a: "actor_ok k a"
    and eq: "sa_grid a = sa_grid p"
  shows "area_wf (ar\<lparr>ac_actors := (ac_actors ar)(k := Some a)\<rparr>)"
proof (rule area_wfI)
  show "length (ac_grid (ar\<lparr>ac_actors := (ac_actors ar)(k := Some a)\<rparr>)) = 40000"
    using area_wfD(1) [OF wf] by simp
next
  fix c assume c: "in_grid c"
  show "cell_ok (ac_actors (ar\<lparr>ac_actors := (ac_actors ar)(k := Some a)\<rparr>)) c
      (ac_cell c (ar\<lparr>ac_actors := (ac_actors ar)(k := Some a)\<rparr>))"
    using cell_ok_replace_same [OF area_wfD(2) [OF wf c] old eq] by simp
next
  fix k' a' assume "ac_actors (ar\<lparr>ac_actors := (ac_actors ar)(k := Some a)\<rparr>) k' = Some a'"
  then show "actor_ok k' a'" using a area_wfD(3) [OF wf, of k' a'] by (simp split: if_splits)
qed

lemma wf_add_actor:
  assumes wf: "area_wf ar"
  shows "area_wf (fst (add_actor actor ar))"
proof -
  define a where "a = actor\<lparr>sa_grid := pos_to_grid (v_x (sa_position actor)) (v_z (sa_position actor))\<rparr>"
  have a: "actor_ok (sa_actor_id actor) a" by (simp add: a_def actor_ok_def)
  have g: "pos_to_grid (v_x (sa_position actor)) (v_z (sa_position actor)) = sa_grid a"
    "sa_actor_id a = sa_actor_id actor" "actor\<lparr>sa_grid := sa_grid a\<rparr> = a" by (simp_all add: a_def)
  show ?thesis
  proof (cases "ac_actors ar (sa_actor_id actor)")
    case None
    with wf_insert_new [OF wf None a] show ?thesis
      by (simp add: add_actor_def Let_def g)
  next
    case (Some p)
    have "area_wf (ar\<lparr>ac_actors := (ac_actors ar)(sa_actor_id actor := Some a)\<rparr>)" if "sa_grid p = sa_grid a"
      using wf_replace [OF wf Some a] that by simp
    with wf_move [OF wf Some a] wf_actor_in_cell [OF wf Some] Some show ?thesis
      by (cases "sa_grid p = sa_grid a") (simp_all add: add_actor_def Let_def g)
  qed
qed

lemma wf_remove_actor:
  assumes wf: "area_wf ar"
  shows "area_wf (fst (snd (remove_actor k ar)))"
proof (cases "ac_actors ar k")
  case None
  with wf show ?thesis by (simp add: remove_actor_def)
next
  case (Some p)
  let ?ar = "cell_remove (sa_grid p) k (ar\<lparr>ac_actors := (ac_actors ar)(k := None)\<rparr>)"
  have gp: "in_grid (sa_grid p)" by (rule wf_actor_in_grid [OF wf Some])
  have "area_wf ?ar"
  proof (rule area_wfI)
    show "length (ac_grid ?ar) = 40000" using area_wfD(1) [OF wf] by simp
  next
    fix c assume c: "in_grid c"
    have "ac_cell c ?ar = (if c = sa_grid p then remove1 k (ac_cell c ar) else ac_cell c ar)"
      unfolding cell_remove_def using area_wfD(1) [OF wf] by (simp add: ac_cell_set_cell gp c)
    then show "cell_ok (ac_actors ?ar) c (ac_cell c ?ar)"
      using cell_ok_delete [OF area_wfD(2) [OF wf c], of k]
        cell_ok_delete_elsewhere [OF area_wfD(2) [OF wf c] Some] by (cases "c = sa_grid p") simp_all
  next
    fix k' a' assume "ac_actors ?ar k' = Some a'"
    then show "actor_ok k' a'" using area_wfD(3) [OF wf, of k' a'] by (simp split: if_splits)
  qed
  with Some show ?thesis by (simp add: remove_actor_def)
qed

lemma wf_update_actor_position:
  assumes wf: "area_wf ar"
  shows "area_wf (fst (update_actor_position k pos ar))"
proof (cases "ac_actors ar k")
  case None
  with wf show ?thesis by (simp add: update_actor_position_def)
next
  case (Some p)
  define c where "c = pos_to_grid (v_x pos) (v_z pos)"
  have k: "sa_actor_id p = k" using area_wfD(3) [OF wf Some] by (simp add: actor_ok_def)
  show ?thesis
  proof (cases "c = sa_grid p")
    case True
    with k have "actor_ok k (p\<lparr>sa_position := pos\<rparr>)" by (simp add: actor_ok_def c_def)
    with wf_replace [OF wf Some, of "p\<lparr>sa_position := pos\<rparr>"] True Some show ?thesis
      by (simp add: update_actor_position_def Let_def c_def [symmetric])
  next
    case False
    from k have "actor_ok k (p\<lparr>sa_position := pos, sa_grid := c\<rparr>)" by (simp add: actor_ok_def c_def)
    with wf_move [OF wf Some, of "p\<lparr>sa_position := pos, sa_grid := c\<rparr>"] False Some show ?thesis
      by (simp add: update_actor_position_def Let_def c_def [symmetric])
  qed
qed

lemma wf_set_actor_alive:
  assumes wf: "area_wf ar"
  shows "area_wf (set_actor_alive k al ar)"
proof (cases "ac_actors ar k")
  case (Some p)
  have "actor_ok k (p\<lparr>sa_is_alive := al\<rparr>)" using area_wfD(3) [OF wf Some] by (simp add: actor_ok_def)
  with wf_replace [OF wf Some, of "p\<lparr>sa_is_alive := al\<rparr>"] Some show ?thesis
    by (simp add: set_actor_alive_def)
qed (use wf in \<open>simp add: set_actor_alive_def\<close>)

lemma wf_ac_clear: "area_wf ar \<Longrightarrow> area_wf (ac_clear ar)"
  by (auto intro!: area_wfI simp: ac_clear_def ac_cell_def cell_ok_def grid_index_less dest: area_wfD(1))

section \<open>Range queries are exact\<close>

text \<open>What a query may return: a stored actor, not the excluded one, no player in an isolated area.\<close>

definition visible_to :: "u32 option \<Rightarrow> area_core \<Rightarrow> u32 \<Rightarrow> stored_actor \<Rightarrow> bool" where
  "visible_to exclude ar k a \<longleftrightarrow>
     ac_actors ar k = Some a \<and> Some k \<noteq> exclude \<and> \<not> (ac_is_isolated ar \<and> sa_kind a = AkPlayer)"

definition cells_within :: "int \<Rightarrow> int \<times> int \<Rightarrow> int \<times> int \<Rightarrow> bool" where
  "cells_within r c d \<longleftrightarrow> \<bar>fst d - fst c\<bar> \<le> r \<and> \<bar>snd d - snd c\<bar> \<le> r"

definition seen_in_cell :: "u32 option \<Rightarrow> area_core \<Rightarrow> u32 \<Rightarrow> stored_actor option" where
  "seen_in_cell exclude ar k =
     (if Some k = exclude then None
      else case ac_actors ar k of
             Some a \<Rightarrow> if ac_is_isolated ar \<and> sa_kind a = AkPlayer then None else Some a
           | None \<Rightarrow> None)"

lemma seen_in_cell_iff: "seen_in_cell exclude ar k = Some a \<longleftrightarrow> visible_to exclude ar k a"
  by (auto simp: seen_in_cell_def visible_to_def split: option.splits)

lemma collect_cell_eq:
  "collect_cell exclude ar c =
     map (the \<circ> seen_in_cell exclude ar) (filter (\<lambda>k. seen_in_cell exclude ar k \<noteq> None) (ac_cell c ar))"
  unfolding collect_cell_def seen_in_cell_def [abs_def] by (simp add: List.map_filter_def)

lemma set_collect_cell:
  assumes wf: "area_wf ar" and c: "in_grid c"
  shows "set (collect_cell exclude ar c) = {a. \<exists>k. visible_to exclude ar k a \<and> sa_grid a = c}"
proof -
  have ids: "set (ac_cell c ar) = {k. \<exists>a. ac_actors ar k = Some a \<and> sa_grid a = c}"
    using area_wfD(2) [OF wf c] by (simp add: cell_ok_def)
  have "a \<in> set (collect_cell exclude ar c) \<longleftrightarrow> (\<exists>k \<in> set (ac_cell c ar). seen_in_cell exclude ar k = Some a)" for a
    unfolding collect_cell_eq by force
  moreover have "(\<exists>k \<in> set (ac_cell c ar). seen_in_cell exclude ar k = Some a) \<longleftrightarrow>
      (\<exists>k. visible_to exclude ar k a \<and> sa_grid a = c)" for a
    unfolding ids seen_in_cell_iff by (auto simp: visible_to_def)
  ultimately show ?thesis by blast
qed

lemma in_collect_cell:
  assumes "area_wf ar" and "in_grid c" and "a \<in> set (collect_cell exclude ar c)"
  shows "sa_grid a = c" and "ac_actors ar (sa_actor_id a) = Some a"
proof -
  obtain k where k: "ac_actors ar k = Some a" "sa_grid a = c"
    using assms set_collect_cell [OF assms(1,2)] unfolding visible_to_def by blast
  with area_wfD(3) [OF assms(1) k(1)] show "sa_grid a = c" "ac_actors ar (sa_actor_id a) = Some a"
    by (simp_all add: actor_ok_def)
qed

lemma collect_cell_same_actor:
  assumes wf: "area_wf ar" and c: "in_grid c" "in_grid d"
    and a: "a \<in> set (collect_cell exclude ar c)" and b: "b \<in> set (collect_cell exclude ar d)"
    and eq: "sa_actor_id a = sa_actor_id b"
  shows "c = d"
proof -
  have "Some a = Some b"
    using in_collect_cell(2) [OF wf c(1) a] in_collect_cell(2) [OF wf c(2) b] unfolding eq by argo
  then show ?thesis using in_collect_cell(1) [OF wf c(1) a] in_collect_cell(1) [OF wf c(2) b] by simp
qed

lemma distinct_collect_cell:
  assumes wf: "area_wf ar" and c: "in_grid c"
  shows "distinct (map sa_actor_id (collect_cell exclude ar c))"
proof -
  have "sa_actor_id (the (seen_in_cell exclude ar k)) = k" if some: "seen_in_cell exclude ar k \<noteq> None" for k
  proof -
    obtain a where a: "seen_in_cell exclude ar k = Some a" using some by blast
    then have "ac_actors ar k = Some a" by (simp add: seen_in_cell_iff visible_to_def)
    from area_wfD(3) [OF wf this] a show ?thesis by (simp add: actor_ok_def)
  qed
  then have "map sa_actor_id (collect_cell exclude ar c) =
      filter (\<lambda>k. seen_in_cell exclude ar k \<noteq> None) (ac_cell c ar)"
    unfolding collect_cell_eq map_map by (intro map_idI) auto
  moreover have "distinct (ac_cell c ar)" using area_wfD(2) [OF wf c] by (simp add: cell_ok_def)
  ultimately show ?thesis by simp
qed

text \<open>The window of cells the query walks.\<close>

lemma window_no_wrap:
  assumes "0 \<le> g" "g < 200" "0 \<le> r" "r < 2147483448"
  shows "i32_wrap (g - r) = g - r" "i32_wrap (g + r) = g + r"
  using assms by (simp_all add: i32_range_def)

lemma in_window:
  assumes "0 \<le> g" "g < 200" "0 \<le> r" "r < 2147483448"
  shows "x \<in> set [max (i32_wrap (g - r)) 0..min (i32_wrap (g + r)) 199] \<longleftrightarrow> 0 \<le> x \<and> x < 200 \<and> \<bar>x - g\<bar> \<le> r"
  unfolding window_no_wrap [OF assms] by auto

lemma distinct_upto_int: "distinct [i..j]"
  by (simp add: distinct_upto)

text \<open>Rows of lists whose keys tell the cell apart never repeat a key.\<close>

lemma distinct_concat_keys:
  assumes "distinct xs" and "\<And>x. x \<in> set xs \<Longrightarrow> distinct (map key (f x))"
    and "\<And>x y a b. x \<in> set xs \<Longrightarrow> y \<in> set xs \<Longrightarrow> a \<in> set (f x) \<Longrightarrow> b \<in> set (f y) \<Longrightarrow> key a = key b \<Longrightarrow> x = y"
  shows "distinct (map key (concat (map f xs)))"
  using assms
proof (induction xs)
  case (Cons x xs)
  have "distinct (map key (concat (map f xs)))" using Cons by simp
  moreover have "key ` set (f x) \<inter> key ` set (concat (map f xs)) = {}"
    using Cons.prems(1) Cons.prems(3) [of x] by fastforce
  moreover have "distinct (map key (f x))" using Cons.prems(2) by simp
  ultimately show ?case by (simp add: image_UN)
qed simp

definition window :: "int \<Rightarrow> int \<Rightarrow> int list" where
  "window g r = [max (i32_wrap (g - r)) 0..min (i32_wrap (g + r)) 199]"

lemma collect_actors_eq:
  "collect_actors_in_cells gx gy r exclude ar =
     concat (map (\<lambda>y. concat (map (\<lambda>x. collect_cell exclude ar (x, y)) (window gx r))) (window gy r))"
  by (simp add: collect_actors_in_cells_def window_def Let_def)

lemma set_window:
  "0 \<le> g \<Longrightarrow> g < 200 \<Longrightarrow> 0 \<le> r \<Longrightarrow> r < 2147483448 \<Longrightarrow>
    x \<in> set (window g r) \<longleftrightarrow> 0 \<le> x \<and> x < 200 \<and> \<bar>x - g\<bar> \<le> r"
  unfolding window_def by (rule in_window)

lemma distinct_window [simp]: "distinct (window g r)"
  by (simp add: window_def distinct_upto)

lemma window_cells:
  assumes c: "in_grid (gx, gy)" and r: "0 \<le> r" "r < 2147483448"
  shows "x \<in> set (window gx r) \<and> y \<in> set (window gy r) \<longleftrightarrow> in_grid (x, y) \<and> cells_within r (gx, gy) (x, y)"
proof -
  have b: "0 \<le> gx" "gx < 200" "0 \<le> gy" "gy < 200" using c by (simp_all add: in_grid_def)
  show ?thesis unfolding set_window [OF b(1,2) r] set_window [OF b(3,4) r] in_grid_def cells_within_def by auto
qed

lemma set_collect_actors:
  assumes wf: "area_wf ar" and c: "in_grid (gx, gy)" and r: "0 \<le> r" "r < 2147483448"
  shows "set (collect_actors_in_cells gx gy r exclude ar) =
    {a. \<exists>k. visible_to exclude ar k a \<and> cells_within r (gx, gy) (sa_grid a)}"
proof (rule set_eqI, unfold mem_Collect_eq)
  fix a
  have "a \<in> set (collect_actors_in_cells gx gy r exclude ar) \<longleftrightarrow>
      (\<exists>x y. (x \<in> set (window gx r) \<and> y \<in> set (window gy r)) \<and> a \<in> set (collect_cell exclude ar (x, y)))"
    unfolding collect_actors_eq by auto
  also have "\<dots> \<longleftrightarrow> (\<exists>x y. (in_grid (x, y) \<and> cells_within r (gx, gy) (x, y)) \<and>
      (\<exists>k. visible_to exclude ar k a \<and> sa_grid a = (x, y)))"
    unfolding window_cells [OF c r] using set_collect_cell [OF wf] by blast
  also have "\<dots> \<longleftrightarrow> (\<exists>k. visible_to exclude ar k a \<and> in_grid (sa_grid a) \<and> cells_within r (gx, gy) (sa_grid a))"
    by (metis surj_pair)
  also have "\<dots> \<longleftrightarrow> (\<exists>k. visible_to exclude ar k a \<and> cells_within r (gx, gy) (sa_grid a))"
    using wf_actor_in_grid [OF wf] unfolding visible_to_def by blast
  finally show "a \<in> set (collect_actors_in_cells gx gy r exclude ar) \<longleftrightarrow>
      (\<exists>k. visible_to exclude ar k a \<and> cells_within r (gx, gy) (sa_grid a))" .
qed

lemma distinct_collect_actors:
  assumes wf: "area_wf ar" and c: "in_grid (gx, gy)" and r: "0 \<le> r" "r < 2147483448"
  shows "distinct (map sa_actor_id (collect_actors_in_cells gx gy r exclude ar))"
  unfolding collect_actors_eq
proof (rule distinct_concat_keys)
  have g: "in_grid (x, y)" if "x \<in> set (window gx r)" "y \<in> set (window gy r)" for x y
    using window_cells [OF c r] that by blast
  fix y assume y: "y \<in> set (window gy r)"
  show "distinct (map sa_actor_id (concat (map (\<lambda>x. collect_cell exclude ar (x, y)) (window gx r))))"
  proof (rule distinct_concat_keys)
    fix x assume "x \<in> set (window gx r)"
    then show "distinct (map sa_actor_id (collect_cell exclude ar (x, y)))"
      by (intro distinct_collect_cell wf g y)
  next
    fix x x' a b
    assume x: "x \<in> set (window gx r)" "x' \<in> set (window gx r)" and a: "a \<in> set (collect_cell exclude ar (x, y))"
      and b: "b \<in> set (collect_cell exclude ar (x', y))" and "sa_actor_id a = sa_actor_id b"
    with collect_cell_same_actor [OF wf g [OF x(1) y] g [OF x(2) y] a b] show "x = x'" by simp
  qed simp
  fix y' a b
  assume y': "y' \<in> set (window gy r)"
    and a: "a \<in> set (concat (map (\<lambda>x. collect_cell exclude ar (x, y)) (window gx r)))"
    and b: "b \<in> set (concat (map (\<lambda>x. collect_cell exclude ar (x, y')) (window gx r)))"
    and eq: "sa_actor_id a = sa_actor_id b"
  obtain x where x: "x \<in> set (window gx r)" "a \<in> set (collect_cell exclude ar (x, y))" using a by auto
  obtain x' where x': "x' \<in> set (window gx r)" "b \<in> set (collect_cell exclude ar (x', y'))" using b by auto
  from collect_cell_same_actor [OF wf g [OF x(1) y] g [OF x'(1) y'] x(2) x'(2) eq]
  show "y = y'" by simp
qed simp

section \<open>Distance and cells\<close>

text \<open>Truncation, clamping and the cell division never move two points further apart than their distance.\<close>

lemma i32_div_bounds:
  assumes "\<bar>a\<bar> \<le> 2147483648"
  shows "\<bar>i32_div a 50\<bar> \<le> 42949673"
  using assms by (auto simp: i32_div_def)

lemma i32_div_close:
  assumes "\<bar>a - b\<bar> \<le> 50 * k"
  shows "\<bar>i32_div a 50 - i32_div b 50\<bar> \<le> k"
proof -
  have le: "i32_div x 50 \<le> i32_div y 50 + k" if le: "x \<le> y + 50 * k" and k: "0 \<le> k" for x y :: int
  proof -
    have m: "u div 50 \<le> v div 50 + k" if "u \<le> v + 50 * k" for u v :: int
      using zdiv_mono1 [OF that, of 50] by simp
    have f: "50 * (u div 50) \<le> u" for u :: int using div_mult_mod_eq [of u 50] pos_mod_sign [of 50 u] by linarith
    consider "x < 0" "y < 0" | "x < 0" "0 \<le> y" | "0 \<le> x" "y < 0" | "0 \<le> x" "0 \<le> y" by linarith
    then show ?thesis
    proof cases
      case 1
      with m [of "- y" "- x"] le show ?thesis by (simp add: i32_div_def)
    next
      case 2
      then have "0 \<le> - x div 50" "0 \<le> y div 50" by simp_all
      with 2 k show ?thesis by (simp add: i32_div_def)
    next
      case 3
      with f [of x] f [of "- y"] le show ?thesis by (simp add: i32_div_def)
    next
      case 4
      with m le show ?thesis by (simp add: i32_div_def)
    qed
  qed
  have "0 \<le> k" using assms by linarith
  then show ?thesis using le [of a b] le [of b a] assms by linarith
qed

lemma f32_to_i32_bounds: "\<bar>f32_to_i32 b\<bar> \<le> 2147483648"
  unfolding f32_to_i32_def i32_clamp_def min_def max_def by auto

lemma clamp_to_close: "\<bar>x - y\<bar> \<le> k \<Longrightarrow> \<bar>clamp_to lo hi x - clamp_to lo hi y\<bar> \<le> k"
  unfolding clamp_to_def min_def max_def by auto

lemma grid_coord_close:
  assumes "\<bar>f32_to_i32 x - f32_to_i32 y\<bar> \<le> 50 * k"
  shows "\<bar>clamp_to 0 199 (i32_wrap (i32_div (f32_to_i32 x) 50 + 100)) -
          clamp_to 0 199 (i32_wrap (i32_div (f32_to_i32 y) 50 + 100))\<bar> \<le> k"
proof -
  have "i32_range (i32_div (f32_to_i32 z) 50 + 100)" for z
    using i32_div_bounds [OF f32_to_i32_bounds [of z]] unfolding i32_range_def abs_le_iff by simp
  then show ?thesis using i32_div_close [OF assms] by (intro clamp_to_close) simp
qed

lemma pos_to_grid_close:
  assumes "\<bar>f32_to_i32 x - f32_to_i32 x'\<bar> \<le> 50 * k" and "\<bar>f32_to_i32 z - f32_to_i32 z'\<bar> \<le> 50 * k"
  shows "cells_within k (pos_to_grid x z) (pos_to_grid x' z')"
  using grid_coord_close [OF assms(1)] grid_coord_close [OF assms(2)]
  by (simp add: cells_within_def pos_to_grid_def Let_def abs_minus_commute)

section \<open>Neighbours of an actor\<close>

lemma set_actors_around:
  assumes wf: "area_wf ar" and p: "ac_actors ar src = Some p" and r: "0 \<le> r" "r < 2147483448"
  shows "set (actors_around src r ar) =
           {a. \<exists>k. visible_to (Some src) ar k a \<and> cells_within r (sa_grid p) (sa_grid a)}"
    and "distinct (map sa_actor_id (actors_around src r ar))"
proof -
  have g: "in_grid (fst (sa_grid p), snd (sa_grid p))" using wf_actor_in_grid [OF wf p] by simp
  have eq: "actors_around src r ar = collect_actors_in_cells (fst (sa_grid p)) (snd (sa_grid p)) r (Some src) ar"
    using p r(1) by (simp add: actors_around_def)
  show "set (actors_around src r ar) =
      {a. \<exists>k. visible_to (Some src) ar k a \<and> cells_within r (sa_grid p) (sa_grid a)}"
    unfolding eq set_collect_actors [OF wf g r] by simp
  show "distinct (map sa_actor_id (actors_around src r ar))"
    unfolding eq by (rule distinct_collect_actors [OF wf g r])
qed

definition position_close :: "int \<Rightarrow> vector3 \<Rightarrow> vector3 \<Rightarrow> bool" where
  "position_close d v w \<longleftrightarrow>
     \<bar>f32_to_i32 (v_x v) - f32_to_i32 (v_x w)\<bar> \<le> d \<and> \<bar>f32_to_i32 (v_z v) - f32_to_i32 (v_z w)\<bar> \<le> d"

lemma position_close_cells:
  assumes wf: "area_wf ar" and p: "ac_actors ar k = Some p" and q: "ac_actors ar k' = Some q"
    and close: "position_close (50 * r) (sa_position p) (sa_position q)"
  shows "cells_within r (sa_grid p) (sa_grid q)"
  using area_wfD(3) [OF wf p] area_wfD(3) [OF wf q] close
  by (simp add: actor_ok_def position_close_def pos_to_grid_close)

section \<open>The area as an event log\<close>

inductive area_step :: "area_core \<Rightarrow> area_core \<Rightarrow> area_event list \<Rightarrow> bool" where
  step_add: "area_step ar (fst (add_actor a ar)) (snd (add_actor a ar))"
| step_remove: "area_step ar (fst (snd (remove_actor k ar))) (snd (snd (remove_actor k ar)))"
| step_move: "area_step ar (fst (update_actor_position k pos ar)) (snd (update_actor_position k pos ar))"
| step_alive: "area_step ar (set_actor_alive k al ar) []"

inductive_cases area_stepE: "area_step ar ar' es"

fun replay_area :: "area_event \<Rightarrow> u32 set \<Rightarrow> u32 set" where
  "replay_area (ActorAdded _ k) ids = insert k ids"
| "replay_area (ActorRemoved _ k) ids = ids - {k}"
| "replay_area _ ids = ids"

definition area_ids :: "area_core \<Rightarrow> u32 set" where
  "area_ids ar = dom (ac_actors ar)"

lemma add_actor_ids: "area_ids (fst (add_actor a ar)) = fold replay_area (snd (add_actor a ar)) (area_ids ar)"
  by (auto simp: add_actor_def Let_def area_ids_def split: option.split)

lemma remove_actor_ids:
  "area_ids (fst (snd (remove_actor k ar))) = fold replay_area (snd (snd (remove_actor k ar))) (area_ids ar)"
  by (auto simp: remove_actor_def area_ids_def split: option.split)

lemma update_actor_ids:
  "area_ids (fst (update_actor_position k pos ar)) = fold replay_area (snd (update_actor_position k pos ar)) (area_ids ar)"
  by (auto simp: update_actor_position_def Let_def area_ids_def split: option.split)

lemma set_alive_ids: "area_ids (set_actor_alive k al ar) = area_ids ar"
  by (auto simp: set_actor_alive_def area_ids_def split: option.split)

interpretation area_log: event_log area_step area_wf area_ids replay_area
proof
  fix ar ar' es assume "area_wf ar" and "area_step ar ar' es"
  then show "area_wf ar'"
    by (elim area_stepE) (auto intro: wf_add_actor wf_remove_actor wf_update_actor_position wf_set_actor_alive)
next
  fix ar ar' es assume "area_wf ar" and "area_step ar ar' es"
  then show "area_ids ar' = fold replay_area es (area_ids ar)"
    by (elim area_stepE) (simp_all add: add_actor_ids remove_actor_ids update_actor_ids set_alive_ids)
qed

text \<open>A small area: actor 7 at x = 45, actor 8 at x = -5, on two sides of a cell border.\<close>

definition demo_area :: area_core where
  "demo_area = ac_new 1 [] 0 [] 0 0 0 False False False False False AreaZone"

definition demo_actor :: "u32 \<Rightarrow> actor_kind \<Rightarrow> f32_bits \<Rightarrow> stored_actor" where
  "demo_actor k kind x = \<lparr>sa_actor_id = k, sa_kind = kind, sa_position = \<lparr>v_x = x, v_y = 0, v_z = 0\<rparr>,
     sa_grid = (0, 0), sa_is_alive = True\<rparr>"

definition demo_area2 :: area_core where
  "demo_area2 = fst (add_actor (demo_actor 8 AkPlayer 0xC0A00000)
                      (fst (add_actor (demo_actor 7 AkPlayer 0x42340000) demo_area)))"

lemma demo_actor_simps [simp]:
  "sa_actor_id (demo_actor k kind x) = k" "sa_position (demo_actor k kind x) = \<lparr>v_x = x, v_y = 0, v_z = 0\<rparr>"
  "sa_kind (demo_actor k kind x) = kind"
  by (simp_all add: demo_actor_def)

lemma demo_area_simps [simp]:
  "ac_actors demo_area = Map.empty" "ad_actor_id demo_area = 1" "\<not> ac_is_isolated demo_area"
  by (simp_all add: demo_area_def ac_new_def area_directors.defs ad_new_def)

lemma demo_area2_actors:
  "ac_actors demo_area2 7 = Some (demo_actor 7 AkPlayer 0x42340000\<lparr>sa_grid := pos_to_grid 0x42340000 0\<rparr>)"
  "ac_actors demo_area2 8 = Some (demo_actor 8 AkPlayer 0xC0A00000\<lparr>sa_grid := pos_to_grid 0xC0A00000 0\<rparr>)"
  "\<not> ac_is_isolated demo_area2"
  by (simp_all add: demo_area2_def add_actor_def Let_def)

lemma wf_demo_area2: "area_wf demo_area2"
  unfolding demo_area2_def demo_area_def by (intro wf_add_actor wf_ac_new)

lemma demo_positions_close:
  "position_close 50 \<lparr>v_x = 0x42340000, v_y = 0, v_z = 0\<rparr> \<lparr>v_x = 0xC0A00000, v_y = 0, v_z = 0\<rparr>"
  by code_simp

section \<open>Properties\<close>





end
