(* ===== verification/Zone.thy ===== *)
theory Zone
  imports AreaLaws
begin

text \<open>
  \<open>map-server/src/zone/zone.rs\<close>, \<open>private_area.rs\<close> and \<open>spawn_location.rs\<close>: a zone with its private areas, its
  content areas and its spawn seeds. The hash maps are partial functions; an operation whose result
  depends on the order of a map walk takes the keys in walk order as an argument. The navmesh handle
  is not modelled.
\<close>

record spawn_location =
  sl_class_id :: u32
  sl_unique_id :: "u8 list"
  sl_zone_id :: u32
  sl_private_area_name :: "u8 list"
  sl_private_area_level :: u32
  sl_position :: vector3
  sl_rotation :: f32_bits
  sl_state :: u16
  sl_animation_id :: u32
  sl_mapobj_layout_id :: u32
  sl_mapobj_instance_id :: u32

definition is_in_private_area :: "spawn_location \<Rightarrow> bool" where
  "is_in_private_area s \<longleftrightarrow> sl_private_area_name s \<noteq> []"

record private_area =
  pa_core :: area_core
  pa_parent_zone_id :: u32
  pa_private_area_name :: "u8 list"
  pa_private_area_level :: u32
  pa_spawn_locations :: "spawn_location list"

definition pa_new :: "u32 \<Rightarrow> u8 list \<Rightarrow> u16 \<Rightarrow> u32 \<Rightarrow> u8 list \<Rightarrow> u8 list \<Rightarrow> u32 \<Rightarrow> u16 \<Rightarrow> u16 \<Rightarrow> u16
    \<Rightarrow> bool \<Rightarrow> bool \<Rightarrow> bool \<Rightarrow> bool \<Rightarrow> private_area" where
  "pa_new parent_zone_id zone_name region_id actor_id class_path private_area_name private_area_level
      bgm_day bgm_night bgm_battle is_isolated is_inn can_ride_chocobo can_stealth =
     \<lparr>pa_core = ac_new actor_id zone_name region_id class_path bgm_day bgm_night bgm_battle is_isolated is_inn
        can_ride_chocobo can_stealth True AreaPrivate,
      pa_parent_zone_id = parent_zone_id, pa_private_area_name = private_area_name,
      pa_private_area_level = private_area_level, pa_spawn_locations = []\<rparr>"

definition pa_add_spawn_location :: "spawn_location \<Rightarrow> private_area \<Rightarrow> private_area" where
  "pa_add_spawn_location loc pa = pa\<lparr>pa_spawn_locations := pa_spawn_locations pa @ [loc]\<rparr>"

record private_area_content =
  pc_area :: private_area
  pc_director_id :: u32
  pc_starter_actor_id :: u32
  pc_is_content_finished :: bool

definition pc_new :: "private_area \<Rightarrow> u32 \<Rightarrow> u32 \<Rightarrow> private_area_content" where
  "pc_new area director_id starter_actor_id =
     \<lparr>pc_area = area, pc_director_id = director_id, pc_starter_actor_id = starter_actor_id,
      pc_is_content_finished = False\<rparr>"

definition mark_finished :: "private_area_content \<Rightarrow> private_area_content" where
  "mark_finished c = c\<lparr>pc_is_content_finished := True\<rparr>"

definition should_destroy :: "private_area_content \<Rightarrow> bool" where
  "should_destroy c \<longleftrightarrow>
     (if \<not> pc_is_content_finished c then False
      else \<not> (\<exists>a \<in> ran (ac_actors (pa_core (pc_area c))). sa_kind a = AkPlayer))"

definition emit_delete :: "private_area_content \<Rightarrow> area_event" where
  "emit_delete c = ContentAreaDeleted (pa_parent_zone_id (pc_area c)) (pa_private_area_name (pc_area c))
     (pa_private_area_level (pc_area c))"

section \<open>The zone\<close>

record zone =
  z_core :: area_core
  z_private_areas :: "u8 list \<Rightarrow> (u32 \<Rightarrow> private_area option) option"
  z_content_areas :: "u8 list \<Rightarrow> private_area_content list option"
  z_spawn_locations :: "spawn_location list"
  z_path_calls :: u64
  z_path_call_time_ms :: u64

definition z_new :: "u32 \<Rightarrow> u8 list \<Rightarrow> u16 \<Rightarrow> u8 list \<Rightarrow> u16 \<Rightarrow> u16 \<Rightarrow> u16 \<Rightarrow> bool \<Rightarrow> bool \<Rightarrow> bool \<Rightarrow> bool \<Rightarrow> bool \<Rightarrow> zone" where
  "z_new actor_id zone_name region_id class_path bgm_day bgm_night bgm_battle is_isolated is_inn
      can_ride_chocobo can_stealth is_instance_raid =
     \<lparr>z_core = ac_new actor_id zone_name region_id class_path bgm_day bgm_night bgm_battle is_isolated is_inn
        can_ride_chocobo can_stealth is_instance_raid AreaZone,
      z_private_areas = Map.empty, z_content_areas = Map.empty, z_spawn_locations = [],
      z_path_calls = 0, z_path_call_time_ms = 0\<rparr>"

text \<open>\<open>entry(name).or_default().insert(level, area)\<close>.\<close>

definition levels_of :: "u8 list \<Rightarrow> zone \<Rightarrow> u32 \<Rightarrow> private_area option" where
  "levels_of name z = (case z_private_areas z name of Some m \<Rightarrow> m | None \<Rightarrow> Map.empty)"

definition put_private_area :: "u8 list \<Rightarrow> u32 \<Rightarrow> private_area \<Rightarrow> zone \<Rightarrow> zone" where
  "put_private_area name level area z =
     z\<lparr>z_private_areas := (z_private_areas z)(name := Some ((levels_of name z)(level := Some area)))\<rparr>"

definition add_private_area :: "private_area \<Rightarrow> zone \<Rightarrow> zone" where
  "add_private_area area z = put_private_area (pa_private_area_name area) (pa_private_area_level area) area z"

definition get_private_area :: "u8 list \<Rightarrow> u32 \<Rightarrow> zone \<Rightarrow> private_area option" where
  "get_private_area name level z = Option.bind (z_private_areas z name) (\<lambda>m. m level)"

section \<open>Content areas\<close>

definition create_content_area :: "u8 list \<Rightarrow> u8 list \<Rightarrow> u32 \<Rightarrow> u32 \<Rightarrow> zone \<Rightarrow> nat \<times> zone \<times> area_event list" where
  "create_content_area class_path area_name director_id starter_actor_id z =
     (let c = z_core z;
          pa = pa_new (ad_actor_id c) (ac_zone_name c) (ac_region_id c) (ad_actor_id c) class_path area_name 1 0 0 0
                 (ac_is_isolated c) (ac_is_inn c) (ac_can_ride_chocobo c) (ac_can_stealth c);
          content = pc_new pa director_id starter_actor_id;
          old = (case z_content_areas z area_name of Some l \<Rightarrow> l | None \<Rightarrow> []);
          new = old @ [content]
      in (length new - 1, z\<lparr>z_content_areas := (z_content_areas z)(area_name := Some new)\<rparr>,
          [ContentAreaCreated (ad_actor_id c) area_name 1 starter_actor_id]))"

definition remove_nth :: "nat \<Rightarrow> 'a list \<Rightarrow> 'a list" where
  "remove_nth i xs = take i xs @ drop (Suc i) xs"

lemma length_remove_nth [simp]: "i < length xs \<Longrightarrow> length (remove_nth i xs) = length xs - 1"
  by (simp add: remove_nth_def)

definition delete_content_area :: "u8 list \<Rightarrow> nat \<Rightarrow> zone \<Rightarrow> bool \<times> zone \<times> area_event list" where
  "delete_content_area area_name index z =
     (case z_content_areas z area_name of
        None \<Rightarrow> (False, z, [])
      | Some l \<Rightarrow>
          if length l \<le> index then (False, z, [])
          else let l' = remove_nth index l
               in (True, z\<lparr>z_content_areas := (z_content_areas z)(area_name := (if l' = [] then None else Some l'))\<rparr>,
                   [emit_delete (l ! index)]))"

text \<open>The index loop of the sweep: a removal keeps the index, anything else advances it.\<close>

function sweep_list :: "nat \<Rightarrow> private_area_content list \<Rightarrow> private_area_content list \<times> area_event list" where
  "sweep_list i l =
     (if i < length l
      then if should_destroy (l ! i)
           then let r = sweep_list i (remove_nth i l) in (fst r, emit_delete (l ! i) # snd r)
           else sweep_list (i + 1) l
      else (l, []))"
  by pat_completeness auto

termination by (relation "measure (\<lambda>(i, l). length l - i)") auto

declare sweep_list.simps [simp del]

definition sweep_name :: "u8 list \<Rightarrow> zone \<times> area_event list \<Rightarrow> zone \<times> area_event list" where
  "sweep_name name zo =
     (case zo of (z, ob) \<Rightarrow>
        case z_content_areas z name of
          None \<Rightarrow> (z, ob)
        | Some l \<Rightarrow>
            let r = sweep_list 0 l
            in (z\<lparr>z_content_areas := (z_content_areas z)(name := (if fst r = [] then None else Some (fst r)))\<rparr>,
                ob @ snd r))"

definition sweep_finished_content :: "u8 list list \<Rightarrow> zone \<Rightarrow> zone \<times> area_event list" where
  "sweep_finished_content names z = fold sweep_name names (z, [])"

section \<open>Spawn seeds and lookups\<close>

text \<open>The error message is the name, the level and the zone it reports.\<close>

datatype spawn_error = PrivateAreaMissing "u8 list" u32 "u8 list"

definition add_spawn_location :: "spawn_location \<Rightarrow> zone \<Rightarrow> (spawn_error, zone) outcome" where
  "add_spawn_location spawn z =
     (if is_in_private_area spawn
      then case get_private_area (sl_private_area_name spawn) (sl_private_area_level spawn) z of
             None \<Rightarrow> Err (PrivateAreaMissing (sl_private_area_name spawn) (sl_private_area_level spawn)
                            (ac_zone_name (z_core z)))
           | Some pa \<Rightarrow> Ok (put_private_area (sl_private_area_name spawn) (sl_private_area_level spawn)
                              (pa_add_spawn_location spawn pa) z)
      else Ok (z\<lparr>z_spawn_locations := z_spawn_locations z @ [spawn]\<rparr>))"

fun first_some :: "('a \<Rightarrow> 'b option) \<Rightarrow> 'a list \<Rightarrow> 'b option" where
  "first_some f [] = None"
| "first_some f (x # xs) = (case f x of Some y \<Rightarrow> Some y | None \<Rightarrow> first_some f xs)"

definition find_actor_in_zone :: "(u8 list \<times> u32) list \<Rightarrow> u8 list list \<Rightarrow> u32 \<Rightarrow> zone \<Rightarrow> stored_actor option" where
  "find_actor_in_zone pa_keys ca_names actor_id z =
     (case ac_actors (z_core z) actor_id of
        Some a \<Rightarrow> Some a
      | None \<Rightarrow>
          case first_some (\<lambda>(name, level). Option.bind (get_private_area name level z)
                 (\<lambda>pa. ac_actors (pa_core pa) actor_id)) pa_keys of
            Some a \<Rightarrow> Some a
          | None \<Rightarrow> first_some (\<lambda>name. Option.bind (z_content_areas z name)
                      (first_some (\<lambda>c. ac_actors (pa_core (pc_area c)) actor_id))) ca_names)"

definition record_path_call :: "u64 \<Rightarrow> zone \<Rightarrow> zone" where
  "record_path_call elapsed_ms z =
     z\<lparr>z_path_calls := z_path_calls z + 1, z_path_call_time_ms := z_path_call_time_ms z + elapsed_ms\<rparr>"

section \<open>The sweep, exactly\<close>

lemma remove_nth_split:
  assumes "i < length l"
  shows "take i (remove_nth i l) = take i l" and "drop i (remove_nth i l) = drop (Suc i) l"
  using assms by (simp_all add: remove_nth_def)

lemma sweep_list_eq:
  "sweep_list i l = (take i l @ filter (\<lambda>c. \<not> should_destroy c) (drop i l),
                     map emit_delete (filter should_destroy (drop i l)))"
proof (induction i l rule: sweep_list.induct)
  case (1 i l)
  show ?case
  proof (cases "i < length l")
    case True
    then have d: "drop i l = l ! i # drop (Suc i) l" by (rule take_Suc_drop)
    show ?thesis
    proof (cases "should_destroy (l ! i)")
      case destroy: True
      with True "1.IH"(1) [OF True destroy] show ?thesis
        by (simp add: sweep_list.simps [of i l] Let_def d remove_nth_split [OF True])
    next
      case False
      with True "1.IH"(2) [OF True False] show ?thesis
        by (simp add: sweep_list.simps [of i l] d take_Suc_conv_app_nth)
    qed
  qed (simp add: sweep_list.simps [of i l])
qed

definition kept_contents :: "private_area_content list option \<Rightarrow> private_area_content list option" where
  "kept_contents o' = (case o' of None \<Rightarrow> None
     | Some l \<Rightarrow> let l' = filter (\<lambda>c. \<not> should_destroy c) l in if l' = [] then None else Some l')"

definition dropped_events :: "private_area_content list option \<Rightarrow> area_event list" where
  "dropped_events o' = (case o' of None \<Rightarrow> [] | Some l \<Rightarrow> map emit_delete (filter should_destroy l))"

lemma sweep_name_eq:
  "sweep_name name (z, ob) =
     (z\<lparr>z_content_areas := (z_content_areas z)(name := kept_contents (z_content_areas z name))\<rparr>,
      ob @ dropped_events (z_content_areas z name))"
proof (cases "z_content_areas z name")
  case None
  then have "(z_content_areas z)(name := kept_contents (z_content_areas z name)) = z_content_areas z"
    by (simp add: kept_contents_def fun_upd_idem)
  with None show ?thesis by (simp add: sweep_name_def dropped_events_def)
qed (simp add: sweep_name_def sweep_list_eq kept_contents_def dropped_events_def Let_def)

lemma fold_sweep_eq:
  assumes "distinct names"
  shows "fold sweep_name names (z, ob) =
     (z\<lparr>z_content_areas := \<lambda>n. if n \<in> set names then kept_contents (z_content_areas z n) else z_content_areas z n\<rparr>,
      ob @ concat (map (\<lambda>n. dropped_events (z_content_areas z n)) names))"
  using assms
proof (induction names arbitrary: z ob)
  case (Cons n names)
  let ?z = "z\<lparr>z_content_areas := (z_content_areas z)(n := kept_contents (z_content_areas z n))\<rparr>"
  have n: "n \<notin> set names" "distinct names" using Cons.prems by simp_all
  have ev: "map (\<lambda>m. dropped_events (z_content_areas ?z m)) names = map (\<lambda>m. dropped_events (z_content_areas z m)) names"
    using n by (intro map_cong) auto
  have "(\<lambda>m. if m \<in> set names then kept_contents (z_content_areas ?z m) else z_content_areas ?z m) =
      (\<lambda>m. if m \<in> set (n # names) then kept_contents (z_content_areas z m) else z_content_areas z m)"
    using n by (auto simp: fun_eq_iff)
  then show ?case unfolding fold_Cons comp_apply sweep_name_eq Cons.IH [OF n(2)] ev by simp
qed simp

text \<open>
  The periodic sweep removes exactly the content areas that are finished and hold no player,
  whatever the walk order of the map: the survivors keep their order, a name without survivors goes,
  and one deletion event is pushed per removed area, in the order of the walk.
\<close>

theorem sweep_exact:
  assumes "distinct names" and "\<And>n. z_content_areas z n \<noteq> None \<Longrightarrow> n \<in> set names"
  shows "sweep_finished_content names z =
    (z\<lparr>z_content_areas := \<lambda>n. kept_contents (z_content_areas z n)\<rparr>,
     concat (map (\<lambda>n. dropped_events (z_content_areas z n)) names))"
proof -
  have "(\<lambda>n. if n \<in> set names then kept_contents (z_content_areas z n) else z_content_areas z n) =
      (\<lambda>n. kept_contents (z_content_areas z n))"
  proof (rule ext)
    fix n show "(if n \<in> set names then kept_contents (z_content_areas z n) else z_content_areas z n) =
        kept_contents (z_content_areas z n)"
      using assms(2) [of n] by (cases "z_content_areas z n") (auto simp: kept_contents_def)
  qed
  then show ?thesis by (simp add: sweep_finished_content_def fold_sweep_eq [OF assms(1)])
qed

text \<open>A zone with a live and a finished instance under one name.\<close>

definition demo_zone :: zone where
  "demo_zone = z_new 100 [] 1 [] 0 0 0 False False False False False"

definition demo_content :: "bool \<Rightarrow> private_area_content" where
  "demo_content fin = (pc_new (pa_new 100 [] 1 100 [] [97] 1 0 0 0 False False False False) 0 5)
     \<lparr>pc_is_content_finished := fin\<rparr>"

theorem sweep_exact_witness:
  "sweep_finished_content [[97]] (demo_zone\<lparr>z_content_areas := [[97] \<mapsto> [demo_content True, demo_content False]]\<rparr>) =
    (demo_zone\<lparr>z_content_areas := [[97] \<mapsto> [demo_content False]]\<rparr>, [ContentAreaDeleted 100 [97] 1])"
proof -
  have d: "should_destroy (demo_content fin) \<longleftrightarrow> fin" for fin
    by (simp add: should_destroy_def demo_content_def pc_new_def pa_new_def ac_new_def area_directors.defs)
  have e: "emit_delete (demo_content True) = ContentAreaDeleted 100 [97] 1"
    by (simp add: emit_delete_def demo_content_def pc_new_def pa_new_def)
  have m: "(\<lambda>n. kept_contents (if n = [97] then Some [demo_content True, demo_content False] else None)) =
      [[97] \<mapsto> [demo_content False]]"
    by (auto simp: fun_eq_iff kept_contents_def d)
  show ?thesis
    by (subst sweep_exact) (auto simp: dropped_events_def d e m split: if_splits)
qed

end
