(* ===== verification/ActorRegistry.thy ===== *)
theory ActorRegistry
  imports Prelude EventLog
begin

text \<open>
  \<open>map-server/src/runtime/actor_registry.rs\<close>: the table of live actors and its reverse index from
  session to player actor. The character behind a handle is not part of the handle here; its fields
  belong to the components that use them.
\<close>

datatype actor_kind_tag = TagPlayer | TagNpc | TagBattleNpc | TagAlly | TagPet

record actor_handle =
  h_actor_id :: u32
  h_kind :: actor_kind_tag
  h_zone_id :: u32
  h_session_id :: u32
  h_private_area :: "(u8 list \<times> u32) option"

definition h_new :: "u32 \<Rightarrow> actor_kind_tag \<Rightarrow> u32 \<Rightarrow> u32 \<Rightarrow> actor_handle" where
  "h_new actor_id kind zone_id session_id =
     \<lparr>h_actor_id = actor_id, h_kind = kind, h_zone_id = zone_id, h_session_id = session_id, h_private_area = None\<rparr>"

definition with_private_area :: "u8 list \<Rightarrow> u32 \<Rightarrow> actor_handle \<Rightarrow> actor_handle" where
  "with_private_area name level h = h\<lparr>h_private_area := Some (name, level)\<rparr>"

definition h_is_player :: "actor_handle \<Rightarrow> bool" where
  "h_is_player h \<longleftrightarrow> h_kind h = TagPlayer"

record registry =
  r_actors :: "u32 \<Rightarrow> actor_handle option"
  r_by_session :: "u32 \<Rightarrow> u32 option"

definition r_new :: registry where
  "r_new = \<lparr>r_actors = Map.empty, r_by_session = Map.empty\<rparr>"

definition r_insert :: "actor_handle \<Rightarrow> registry \<Rightarrow> registry" where
  "r_insert handle r =
     (let r = r\<lparr>r_actors := (r_actors r)(h_actor_id handle := Some handle)\<rparr>
      in if h_is_player handle \<and> h_session_id handle \<noteq> 0
         then r\<lparr>r_by_session := (r_by_session r)(h_session_id handle := Some (h_actor_id handle))\<rparr> else r)"

definition r_remove :: "u32 \<Rightarrow> registry \<Rightarrow> actor_handle option \<times> registry" where
  "r_remove actor_id r =
     (case r_actors r actor_id of
        None \<Rightarrow> (None, r)
      | Some h \<Rightarrow>
          let r = r\<lparr>r_actors := (r_actors r)(actor_id := None)\<rparr>
          in (Some h, if h_is_player h \<and> h_session_id h \<noteq> 0
                      then r\<lparr>r_by_session := (r_by_session r)(h_session_id h := None)\<rparr> else r))"

definition r_remove_session :: "u32 \<Rightarrow> registry \<Rightarrow> actor_handle option \<times> registry" where
  "r_remove_session session_id r =
     (case r_by_session r session_id of
        None \<Rightarrow> (None, r)
      | Some actor_id \<Rightarrow>
          (r_actors r actor_id,
           r\<lparr>r_by_session := (r_by_session r)(session_id := None), r_actors := (r_actors r)(actor_id := None)\<rparr>))"

definition r_get :: "u32 \<Rightarrow> registry \<Rightarrow> actor_handle option" where
  "r_get actor_id r = r_actors r actor_id"

definition r_find_by_session :: "u32 \<Rightarrow> registry \<Rightarrow> actor_handle option" where
  "r_find_by_session session_id r = Option.bind (r_by_session r session_id) (r_actors r)"

definition reassign_zone :: "u32 \<Rightarrow> u32 \<Rightarrow> registry \<Rightarrow> bool \<times> registry" where
  "reassign_zone actor_id new_zone_id r =
     (case r_actors r actor_id of
        None \<Rightarrow> (False, r)
      | Some h \<Rightarrow> (True, r\<lparr>r_actors := (r_actors r)(actor_id := Some (h\<lparr>h_zone_id := new_zone_id\<rparr>))\<rparr>))"

section \<open>The index\<close>

text \<open>A handle that the reverse index is about.\<close>

definition indexed :: "actor_handle \<Rightarrow> bool" where
  "indexed h \<longleftrightarrow> h_is_player h \<and> h_session_id h \<noteq> 0"

definition reg_wf :: "registry \<Rightarrow> bool" where
  "reg_wf r \<longleftrightarrow>
     (\<forall>k h. r_actors r k = Some h \<longrightarrow> h_actor_id h = k) \<and>
     (\<forall>k h. r_actors r k = Some h \<longrightarrow> indexed h \<longrightarrow> r_by_session r (h_session_id h) = Some k) \<and>
     (\<forall>s k. r_by_session r s = Some k \<longrightarrow>
        (\<exists>h. r_actors r k = Some h \<and> indexed h \<and> h_session_id h = s))"

lemma reg_wfI:
  assumes "\<And>k h. r_actors r k = Some h \<Longrightarrow> h_actor_id h = k"
    and "\<And>k h. r_actors r k = Some h \<Longrightarrow> indexed h \<Longrightarrow> r_by_session r (h_session_id h) = Some k"
    and "\<And>s k. r_by_session r s = Some k \<Longrightarrow> \<exists>h. r_actors r k = Some h \<and> indexed h \<and> h_session_id h = s"
  shows "reg_wf r"
  using assms by (simp add: reg_wf_def)

lemma reg_wfD:
  assumes "reg_wf r"
  shows "r_actors r k = Some h \<Longrightarrow> h_actor_id h = k"
    and "r_actors r k = Some h \<Longrightarrow> indexed h \<Longrightarrow> r_by_session r (h_session_id h) = Some k"
    and "r_by_session r s = Some k \<Longrightarrow> \<exists>h. r_actors r k = Some h \<and> indexed h \<and> h_session_id h = s"
  using assms unfolding reg_wf_def by blast+

lemma reg_wf_new: "reg_wf r_new"
  by (simp add: reg_wf_def r_new_def)

text \<open>
  What an insertion must respect: the session is not another actor's, and an actor that is replaced
  keeps its session.
\<close>

definition insert_ok :: "actor_handle \<Rightarrow> registry \<Rightarrow> bool" where
  "insert_ok h r \<longleftrightarrow>
     (indexed h \<longrightarrow> r_by_session r (h_session_id h) = None \<or> r_by_session r (h_session_id h) = Some (h_actor_id h)) \<and>
     (case r_actors r (h_actor_id h) of
        None \<Rightarrow> True
      | Some old \<Rightarrow> indexed old \<longrightarrow> indexed h \<and> h_session_id h = h_session_id old)"

lemma r_insert_eq:
  "r_insert h r = \<lparr>r_actors = (r_actors r)(h_actor_id h := Some h),
     r_by_session = (if indexed h then (r_by_session r)(h_session_id h := Some (h_actor_id h)) else r_by_session r)\<rparr>"
  by (simp add: r_insert_def indexed_def Let_def)

lemma reg_wf_insert:
  assumes wf: "reg_wf r" and ok: "insert_ok h r"
  shows "reg_wf (r_insert h r)"
proof (rule reg_wfI)
  fix k g assume "r_actors (r_insert h r) k = Some g"
  then show "h_actor_id g = k" using reg_wfD(1) [OF wf] by (auto simp: r_insert_eq split: if_splits)
next
  fix k g assume k: "r_actors (r_insert h r) k = Some g" and g: "indexed g"
  show "r_by_session (r_insert h r) (h_session_id g) = Some k"
  proof (cases "k = h_actor_id h")
    case True
    with k g show ?thesis by (auto simp: r_insert_eq)
  next
    case False
    then have kg: "r_actors r k = Some g" using k by (simp add: r_insert_eq)
    from reg_wfD(2) [OF wf kg g] have ix: "r_by_session r (h_session_id g) = Some k" .
    with False ok show ?thesis by (auto simp: r_insert_eq insert_ok_def)
  qed
next
  fix s k assume s: "r_by_session (r_insert h r) s = Some k"
  show "\<exists>g. r_actors (r_insert h r) k = Some g \<and> indexed g \<and> h_session_id g = s"
  proof (cases "indexed h \<and> s = h_session_id h")
    case True
    with s show ?thesis by (auto simp: r_insert_eq)
  next
    case False
    then have "r_by_session r s = Some k" using s by (auto simp: r_insert_eq split: if_splits)
    from reg_wfD(3) [OF wf this] obtain g where g: "r_actors r k = Some g" "indexed g" "h_session_id g = s" by blast
    show ?thesis
    proof (cases "k = h_actor_id h")
      case True
      with ok g False show ?thesis by (auto simp: insert_ok_def)
    next
      case False
      with g show ?thesis by (auto simp: r_insert_eq)
    qed
  qed
qed

lemma reg_wf_remove:
  assumes wf: "reg_wf r"
  shows "reg_wf (snd (r_remove actor_id r))"
proof (cases "r_actors r actor_id")
  case (Some h)
  have eq: "snd (r_remove actor_id r) = \<lparr>r_actors = (r_actors r)(actor_id := None),
      r_by_session = (if indexed h then (r_by_session r)(h_session_id h := None) else r_by_session r)\<rparr>"
    using Some by (simp add: r_remove_def indexed_def Let_def)
  show ?thesis unfolding eq
  proof (rule reg_wfI)
    fix k g assume k: "r_actors \<lparr>r_actors = (r_actors r)(actor_id := None),
        r_by_session = (if indexed h then (r_by_session r)(h_session_id h := None) else r_by_session r)\<rparr> k = Some g"
    then have kg: "r_actors r k = Some g" "k \<noteq> actor_id" by (auto split: if_splits)
    from reg_wfD(1) [OF wf kg(1)] show "h_actor_id g = k" .
    assume g: "indexed g"
    from reg_wfD(2) [OF wf kg(1) g] reg_wfD(2) [OF wf Some] kg(2) g
    show "r_by_session \<lparr>r_actors = (r_actors r)(actor_id := None),
        r_by_session = (if indexed h then (r_by_session r)(h_session_id h := None) else r_by_session r)\<rparr>
        (h_session_id g) = Some k" by auto
  next
    fix s k assume "r_by_session \<lparr>r_actors = (r_actors r)(actor_id := None),
        r_by_session = (if indexed h then (r_by_session r)(h_session_id h := None) else r_by_session r)\<rparr> s = Some k"
    then have sk: "r_by_session r s = Some k" "\<not> (indexed h \<and> s = h_session_id h)" by (auto split: if_splits)
    from reg_wfD(3) [OF wf sk(1)] sk(2) Some
    show "\<exists>g. r_actors \<lparr>r_actors = (r_actors r)(actor_id := None),
        r_by_session = (if indexed h then (r_by_session r)(h_session_id h := None) else r_by_session r)\<rparr> k = Some g
        \<and> indexed g \<and> h_session_id g = s" by auto
  qed
qed (use wf in \<open>simp add: r_remove_def\<close>)

lemma reg_wf_remove_session:
  assumes wf: "reg_wf r"
  shows "reg_wf (snd (r_remove_session s r))"
proof (cases "r_by_session r s")
  case (Some k)
  from reg_wfD(3) [OF wf this] obtain h where h: "r_actors r k = Some h" "indexed h" "h_session_id h = s" by blast
  then have "snd (r_remove_session s r) = snd (r_remove k r)"
    using Some by (simp add: r_remove_session_def r_remove_def indexed_def Let_def)
  with reg_wf_remove [OF wf] show ?thesis by simp
qed (use wf in \<open>simp add: r_remove_session_def\<close>)

lemma reg_wf_reassign:
  assumes wf: "reg_wf r"
  shows "reg_wf (snd (reassign_zone k z r))"
proof (cases "r_actors r k")
  case (Some h)
  have ix: "indexed (h\<lparr>h_zone_id := z\<rparr>) = indexed h" by (simp add: indexed_def h_is_player_def)
  have eq: "snd (reassign_zone k z r) = r\<lparr>r_actors := (r_actors r)(k := Some (h\<lparr>h_zone_id := z\<rparr>))\<rparr>"
    using Some by (simp add: reassign_zone_def)
  show ?thesis unfolding eq
  proof (rule reg_wfI)
    fix k' g assume k': "r_actors (r\<lparr>r_actors := (r_actors r)(k := Some (h\<lparr>h_zone_id := z\<rparr>))\<rparr>) k' = Some g"
    with reg_wfD(1) [OF wf, of k' g] reg_wfD(1) [OF wf Some] show "h_actor_id g = k'"
      by (auto split: if_splits)
    assume "indexed g"
    with k' reg_wfD(2) [OF wf, of k' g] reg_wfD(2) [OF wf Some]
    show "r_by_session (r\<lparr>r_actors := (r_actors r)(k := Some (h\<lparr>h_zone_id := z\<rparr>))\<rparr>) (h_session_id g) = Some k'"
      by (auto simp: ix split: if_splits)
  next
    fix s k' assume "r_by_session (r\<lparr>r_actors := (r_actors r)(k := Some (h\<lparr>h_zone_id := z\<rparr>))\<rparr>) s = Some k'"
    then have "r_by_session r s = Some k'" by simp
    from reg_wfD(3) [OF wf this] Some ix
    show "\<exists>g. r_actors (r\<lparr>r_actors := (r_actors r)(k := Some (h\<lparr>h_zone_id := z\<rparr>))\<rparr>) k' = Some g \<and>
        indexed g \<and> h_session_id g = s" by auto
  qed
qed (use wf in \<open>simp add: reassign_zone_def\<close>)

inductive registry_history :: "registry \<Rightarrow> bool" where
  hist_new: "registry_history r_new"
| hist_insert: "registry_history r \<Longrightarrow> insert_ok h r \<Longrightarrow> registry_history (r_insert h r)"
| hist_remove: "registry_history r \<Longrightarrow> registry_history (snd (r_remove k r))"
| hist_remove_session: "registry_history r \<Longrightarrow> registry_history (snd (r_remove_session s r))"
| hist_reassign: "registry_history r \<Longrightarrow> registry_history (snd (reassign_zone k z r))"

lemma history_wf: "registry_history r \<Longrightarrow> reg_wf r"
  by (induction rule: registry_history.induct)
    (simp_all add: reg_wf_new reg_wf_insert reg_wf_remove reg_wf_remove_session reg_wf_reassign)

lemma lookup_exact:
  assumes wf: "reg_wf r"
  shows "r_find_by_session s r = Some h \<longleftrightarrow> (\<exists>k. r_actors r k = Some h \<and> indexed h \<and> h_session_id h = s)"
proof
  assume "r_find_by_session s r = Some h"
  then obtain k where "r_by_session r s = Some k" "r_actors r k = Some h"
    unfolding r_find_by_session_def by (cases "r_by_session r s") auto
  with reg_wfD(3) [OF wf this(1)] show "\<exists>k. r_actors r k = Some h \<and> indexed h \<and> h_session_id h = s" by auto
next
  assume "\<exists>k. r_actors r k = Some h \<and> indexed h \<and> h_session_id h = s"
  then obtain k where k: "r_actors r k = Some h" "indexed h" "h_session_id h = s" by blast
  with reg_wfD(2) [OF wf k(1,2)] show "r_find_by_session s r = Some h" by (simp add: r_find_by_session_def)
qed

text \<open>
  As long as no insertion gives an actor a session that is another actor's and none changes the
  session of a registered player, the session lookup is exact: it finds precisely the live player of
  that session, and two players never share one. Without the discipline it is not: when two players are
  inserted under one session and the first is removed, the second is live and cannot be found.
\<close>

theorem session_lookup_exact:
  "(registry_history r \<longrightarrow>
     (\<forall>s h. r_find_by_session s r = Some h \<longleftrightarrow> (\<exists>k. r_get k r = Some h \<and> indexed h \<and> h_session_id h = s)) \<and>
     (\<forall>k k' h h'. r_get k r = Some h \<and> r_get k' r = Some h' \<and> indexed h \<and> indexed h' \<and>
        h_session_id h = h_session_id h' \<longrightarrow> k = k')) \<and>
   (\<forall>a b s z. a \<noteq> b \<and> s \<noteq> 0 \<longrightarrow>
     (let r' = snd (r_remove a (r_insert (h_new b TagPlayer z s) (r_insert (h_new a TagPlayer z s) r)))
      in r_get b r' = Some (h_new b TagPlayer z s) \<and> r_find_by_session s r' = None))"
proof (intro conjI impI allI)
  assume "registry_history r"
  then have wf: "reg_wf r" by (rule history_wf)
  show "r_find_by_session s r = Some h \<longleftrightarrow> (\<exists>k. r_get k r = Some h \<and> indexed h \<and> h_session_id h = s)" for s h
    unfolding r_get_def by (rule lookup_exact [OF wf])
  fix k k' h h'
  assume "r_get k r = Some h \<and> r_get k' r = Some h' \<and> indexed h \<and> indexed h' \<and> h_session_id h = h_session_id h'"
  with reg_wfD(2) [OF wf, of k h] reg_wfD(2) [OF wf, of k' h'] show "k = k'" by (simp add: r_get_def)
next
  fix a b s z :: u32 assume "a \<noteq> b \<and> s \<noteq> 0"
  then have "a \<noteq> b" "b \<noteq> a" "s \<noteq> 0" by auto
  then show "let r' = snd (r_remove a (r_insert (h_new b TagPlayer z s) (r_insert (h_new a TagPlayer z s) r)))
      in r_get b r' = Some (h_new b TagPlayer z s) \<and> r_find_by_session s r' = None"
    by (simp add: r_remove_def r_insert_eq indexed_def h_is_player_def h_new_def r_get_def r_find_by_session_def Let_def)
qed

theorem session_lookup_exact_witness:
  "r_find_by_session 42 (r_insert (h_new 100 TagPlayer 1 42) r_new) = Some (h_new 100 TagPlayer 1 42) \<and>
   r_find_by_session 42 (snd (r_remove 100 (r_insert (h_new 200 TagPlayer 1 42)
     (r_insert (h_new 100 TagPlayer 1 42) r_new)))) = None"
proof -
  have "registry_history (r_insert (h_new 100 TagPlayer 1 42) r_new)"
    by (intro hist_insert hist_new) (simp add: insert_ok_def r_new_def)
  note exact = session_lookup_exact [THEN conjunct1, rule_format, OF this, THEN conjunct1, rule_format]
  have "r_find_by_session 42 (r_insert (h_new 100 TagPlayer 1 42) r_new) = Some (h_new 100 TagPlayer 1 42)"
    by (rule exact [THEN iffD2], rule exI [of _ 100])
      (simp add: r_insert_eq indexed_def h_is_player_def h_new_def r_get_def)
  moreover have "r_find_by_session 42 (snd (r_remove 100 (r_insert (h_new 200 TagPlayer 1 42)
     (r_insert (h_new 100 TagPlayer 1 42) r_new)))) = None"
    using session_lookup_exact [of r_new, THEN conjunct2, rule_format, of 100 200 42 1] by (simp add: Let_def)
  ultimately show ?thesis by simp
qed

end
