(* ===== verification/WorldZones.thy ===== *)
theory WorldZones
  imports Zone ActorRegistry SubPacket
begin

text \<open>
  Where an actor is: the zone, session and boundary tables of \<open>world_manager.rs\<close>, the zone-change
  family, the seamless boundary check, the position update of \<open>processor.rs\<close>, the instance stream, the
  broadcast of \<open>runtime/broadcast.rs\<close> and the session end. A session holds the fields these functions
  read or write. Packets to one client are represented by their recipient and their content; the Lua
  and quest hooks of the position handler are not modelled.
\<close>

record session =
  s_id :: u32
  s_language_code :: u32
  s_is_updates_locked :: bool
  s_current_zone_id :: u32
  s_current_private_area_name :: "u8 list option"
  s_current_private_area_level :: u32
  s_destination_zone_id :: u32
  s_destination :: vector3
  s_destination_rot :: f32_bits
  s_merged_zone_id :: "u32 option"
  s_actor_instance_list :: "u32 set"
  s_content_parent_zone :: "u32 option"
  s_content_warp_acked :: bool
  s_pending_zone_in :: bool
  s_reload_in_flight :: bool

definition session_new :: "u32 \<Rightarrow> session" where
  "session_new sid = \<lparr>s_id = sid, s_language_code = 1, s_is_updates_locked = True, s_current_zone_id = 0,
     s_current_private_area_name = None, s_current_private_area_level = 0, s_destination_zone_id = 0,
     s_destination = \<lparr>v_x = 0, v_y = 0, v_z = 0\<rparr>, s_destination_rot = 0, s_merged_zone_id = None,
     s_actor_instance_list = {}, s_content_parent_zone = None, s_content_warp_acked = False,
     s_pending_zone_in = False, s_reload_in_flight = False\<rparr>"

record bounds =
  b_x1 :: f32_bits
  b_y1 :: f32_bits
  b_x2 :: f32_bits
  b_y2 :: f32_bits

record seamless_boundary =
  sb_id :: u32
  sb_region_id :: u32
  sb_zone_id_1 :: u32
  sb_zone_id_2 :: u32
  sb_zone1 :: bounds
  sb_zone2 :: bounds
  sb_merge :: bounds

record world =
  w_zones :: "u32 \<Rightarrow> zone option"
  w_sessions :: "u32 \<Rightarrow> session option"
  w_clients :: "u32 set"
  w_seamless_boundaries :: "u32 \<Rightarrow> seamless_boundary list"

section \<open>Registries\<close>

definition register_zone :: "zone \<Rightarrow> world \<Rightarrow> world" where
  "register_zone z w = w\<lparr>w_zones := (w_zones w)(ad_actor_id (z_core z) := Some z)\<rparr>"

definition upsert_session :: "session \<Rightarrow> world \<Rightarrow> world" where
  "upsert_session s w = w\<lparr>w_sessions := (w_sessions w)(s_id s := Some s)\<rparr>"

definition remove_session :: "u32 \<Rightarrow> world \<Rightarrow> world" where
  "remove_session sid w = w\<lparr>w_clients := w_clients w - {sid}, w_sessions := (w_sessions w)(sid := None)\<rparr>"

definition register_client :: "u32 \<Rightarrow> world \<Rightarrow> world" where
  "register_client sid w = w\<lparr>w_clients := insert sid (w_clients w)\<rparr>"

definition register_seamless_boundary :: "seamless_boundary \<Rightarrow> world \<Rightarrow> world" where
  "register_seamless_boundary b w =
     w\<lparr>w_seamless_boundaries := (w_seamless_boundaries w)
        (sb_region_id b := w_seamless_boundaries w (sb_region_id b) @ [b])\<rparr>"

text \<open>A zone, a core, a private area is changed behind its lock; an absent one stays absent.\<close>

definition modify_zone :: "u32 \<Rightarrow> (zone \<Rightarrow> zone) \<Rightarrow> world \<Rightarrow> world" where
  "modify_zone zid f w = w\<lparr>w_zones := (w_zones w)(zid := map_option f (w_zones w zid))\<rparr>"

definition modify_core :: "(area_core \<Rightarrow> area_core) \<Rightarrow> zone \<Rightarrow> zone" where
  "modify_core f z = z\<lparr>z_core := f (z_core z)\<rparr>"

definition modify_private :: "u8 list \<Rightarrow> u32 \<Rightarrow> (area_core \<Rightarrow> area_core) \<Rightarrow> zone \<Rightarrow> zone" where
  "modify_private name level f z =
     (case get_private_area name level z of
        None \<Rightarrow> z
      | Some pa \<Rightarrow> put_private_area name level (pa\<lparr>pa_core := f (pa_core pa)\<rparr>) z)"

definition modify_session :: "u32 \<Rightarrow> (session \<Rightarrow> session) \<Rightarrow> world \<Rightarrow> world" where
  "modify_session sid f w = w\<lparr>w_sessions := (w_sessions w)(sid := map_option f (w_sessions w sid))\<rparr>"

definition player_projection :: "u32 \<Rightarrow> vector3 \<Rightarrow> stored_actor" where
  "player_projection actor_id position =
     \<lparr>sa_actor_id = actor_id, sa_kind = AkPlayer, sa_position = position, sa_grid = (0, 0), sa_is_alive = True\<rparr>"

section \<open>Zone change\<close>

text \<open>Step 3: leave the area the session names, or the zone root when it names no private area.\<close>

definition detach :: "u8 list option \<Rightarrow> u32 \<Rightarrow> u32 \<Rightarrow> zone \<Rightarrow> zone" where
  "detach old_name old_level actor_id z =
     (case old_name of
        Some name \<Rightarrow> modify_private name old_level (\<lambda>c. fst (snd (remove_actor actor_id c))) z
      | None \<Rightarrow> modify_core (\<lambda>c. fst (snd (remove_actor actor_id c))) z)"

text \<open>Step 4: enter the named private area when the zone has it, the zone root otherwise.\<close>

definition attaches_to_private :: "u8 list option \<Rightarrow> u32 \<Rightarrow> zone \<Rightarrow> bool" where
  "attaches_to_private name level z =
     (case name of Some n \<Rightarrow> get_private_area n level z \<noteq> None | None \<Rightarrow> False)"

definition attach :: "u8 list option \<Rightarrow> u32 \<Rightarrow> u32 \<Rightarrow> vector3 \<Rightarrow> zone \<Rightarrow> zone" where
  "attach name level actor_id spawn z =
     (if attaches_to_private name level z
      then modify_private (the name) level (\<lambda>c. fst (add_actor (player_projection actor_id spawn) c)) z
      else modify_core (\<lambda>c. fst (add_actor (player_projection actor_id spawn) c)) z)"

definition do_zone_change_with_private_area ::
    "u32 \<Rightarrow> u32 \<Rightarrow> u32 \<Rightarrow> u8 list option \<Rightarrow> u32 \<Rightarrow> vector3 \<Rightarrow> f32_bits \<Rightarrow> world \<Rightarrow> world" where
  "do_zone_change_with_private_area actor_id session_id dest name level spawn rotation w =
     (case w_zones w dest of
        None \<Rightarrow> w
      | Some dz \<Rightarrow>
          let session = (case w_sessions w session_id of Some s \<Rightarrow> s | None \<Rightarrow> session_new session_id);
              old_zone_id = s_current_zone_id session;
              old_name = s_current_private_area_name session;
              old_level = s_current_private_area_level session;
              session = session\<lparr>s_is_updates_locked := True, s_current_zone_id := dest, s_destination_zone_id := dest,
                s_destination := spawn, s_destination_rot := rotation\<rparr>;
              zone_changed = (old_zone_id \<noteq> 0 \<and> old_zone_id \<noteq> dest);
              private_area_changed = (old_name \<noteq> name \<or> old_level \<noteq> level);
              w = (if zone_changed then modify_zone old_zone_id (detach old_name old_level actor_id) w
                   else if private_area_changed then modify_zone dest (detach old_name old_level actor_id) w
                   else w);
              attached_to_private = attaches_to_private name level dz;
              w = modify_zone dest (attach name level actor_id spawn) w;
              session = (if attached_to_private
                         then session\<lparr>s_current_private_area_name := name, s_current_private_area_level := level\<rparr>
                         else session\<lparr>s_current_private_area_name := None, s_current_private_area_level := 0\<rparr>)
          in w\<lparr>w_sessions := (w_sessions w)(session_id := Some (session\<lparr>s_is_updates_locked := False\<rparr>))\<rparr>)"

definition do_zone_change :: "u32 \<Rightarrow> u32 \<Rightarrow> u32 \<Rightarrow> vector3 \<Rightarrow> f32_bits \<Rightarrow> world \<Rightarrow> world" where
  "do_zone_change actor_id session_id dest spawn rotation w =
     do_zone_change_with_private_area actor_id session_id dest None 0 spawn rotation w"

section \<open>Seamless boundaries\<close>

text \<open>
  \<open>f32\<close> comparison on the bit patterns: false when either is a NaN, otherwise the order of the signed
  magnitudes, with both zeros equal.
\<close>

definition f32_is_nan :: "f32_bits \<Rightarrow> bool" where
  "f32_is_nan b \<longleftrightarrow> f32_exponent b = 255 \<and> f32_mantissa b \<noteq> 0"

definition f32_key :: "f32_bits \<Rightarrow> int" where
  "f32_key b = (if f32_negative b then - uint (b AND 0x7FFFFFFF) else uint (b AND 0x7FFFFFFF))"

definition f32_less :: "f32_bits \<Rightarrow> f32_bits \<Rightarrow> bool" where
  "f32_less a b \<longleftrightarrow> \<not> f32_is_nan a \<and> \<not> f32_is_nan b \<and> f32_key a < f32_key b"

definition check_pos_in_bounds :: "f32_bits \<Rightarrow> f32_bits \<Rightarrow> bounds \<Rightarrow> bool" where
  "check_pos_in_bounds x y b \<longleftrightarrow>
     (let x_ok = (f32_less (b_x1 b) x \<and> f32_less x (b_x2 b)) \<or> (f32_less x (b_x1 b) \<and> f32_less (b_x2 b) x);
          y_ok = (f32_less (b_y1 b) y \<and> f32_less y (b_y2 b)) \<or> (f32_less y (b_y1 b) \<and> f32_less (b_y2 b) y)
      in x_ok \<and> y_ok)"

definition do_seamless_zone_change :: "u32 \<Rightarrow> u32 \<Rightarrow> u32 \<Rightarrow> vector3 \<Rightarrow> world \<Rightarrow> world" where
  "do_seamless_zone_change actor_id session_id dest position w =
     (case w_zones w dest of
        None \<Rightarrow> w
      | Some _ \<Rightarrow>
          let old_zone_id = (case w_sessions w session_id of Some s \<Rightarrow> s_current_zone_id s | None \<Rightarrow> 0);
              w = modify_zone old_zone_id (modify_core (\<lambda>c. fst (snd (remove_actor actor_id c)))) w;
              w = modify_zone dest (modify_core (\<lambda>c. fst (add_actor (player_projection actor_id position) c))) w
          in modify_session session_id (\<lambda>s. s\<lparr>s_current_zone_id := dest, s_merged_zone_id := None\<rparr>) w)"

definition merge_zones :: "u32 \<Rightarrow> u32 \<Rightarrow> u32 \<Rightarrow> vector3 \<Rightarrow> world \<Rightarrow> world" where
  "merge_zones actor_id session_id merged_zone_id position w =
     (case w_zones w merged_zone_id of
        None \<Rightarrow> w
      | Some _ \<Rightarrow>
          modify_session session_id (\<lambda>s. s\<lparr>s_merged_zone_id := Some merged_zone_id\<rparr>)
            (modify_zone merged_zone_id
               (modify_core (\<lambda>c. fst (add_actor (player_projection actor_id position) c))) w))"

datatype seamless_result = InsideZoneOne | InsideZoneTwo | ZoneChanged u32 | ZoneMerged u32 | SeamlessNone

text \<open>One side's box: already there with or without a merge to forget, or a flip.\<close>

definition enter_box :: "u32 \<Rightarrow> u32 \<Rightarrow> u32 \<Rightarrow> u32 \<Rightarrow> u32 option \<Rightarrow> seamless_result \<Rightarrow> vector3 \<Rightarrow> world
    \<Rightarrow> seamless_result \<times> world" where
  "enter_box actor_id session_id zid current merged inside position w =
     (if current = zid \<and> merged = None then (inside, w)
      else if current = zid then (inside, modify_session session_id (\<lambda>s. s\<lparr>s_merged_zone_id := None\<rparr>) w)
      else (ZoneChanged zid, do_seamless_zone_change actor_id session_id zid position w))"

fun seamless_scan :: "u32 \<Rightarrow> u32 \<Rightarrow> u32 \<Rightarrow> u32 option \<Rightarrow> vector3 \<Rightarrow> seamless_boundary list \<Rightarrow> world
    \<Rightarrow> seamless_result \<times> world" where
  "seamless_scan actor_id session_id current merged position [] w = (SeamlessNone, w)"
| "seamless_scan actor_id session_id current merged position (b # bs) w =
     (if check_pos_in_bounds (v_x position) (v_z position) (sb_zone1 b)
      then enter_box actor_id session_id (sb_zone_id_1 b) current merged InsideZoneOne position w
      else if check_pos_in_bounds (v_x position) (v_z position) (sb_zone2 b)
      then enter_box actor_id session_id (sb_zone_id_2 b) current merged InsideZoneTwo position w
      else if check_pos_in_bounds (v_x position) (v_z position) (sb_merge b)
      then let m = (if current = sb_zone_id_1 b then sb_zone_id_2 b else sb_zone_id_1 b)
           in if merged = Some m then (ZoneMerged m, w)
              else (ZoneMerged m, merge_zones actor_id session_id m position w)
      else seamless_scan actor_id session_id current merged position bs w)"

definition seamless_check :: "u32 \<Rightarrow> u32 \<Rightarrow> vector3 \<Rightarrow> world \<Rightarrow> seamless_result \<times> world" where
  "seamless_check actor_id session_id position w =
     (case w_sessions w session_id of
        None \<Rightarrow> (SeamlessNone, w)
      | Some s \<Rightarrow>
          case w_zones w (s_current_zone_id s) of
            None \<Rightarrow> (SeamlessNone, w)
          | Some z \<Rightarrow> seamless_scan actor_id session_id (s_current_zone_id s) (s_merged_zone_id s) position
              (w_seamless_boundaries w (ucast (ac_region_id (z_core z)))) w)"

section \<open>Movement within a zone\<close>

definition move_in_core :: "u32 \<Rightarrow> vector3 \<Rightarrow> area_core \<Rightarrow> area_core" where
  "move_in_core actor_id position c = fst (update_actor_position actor_id position c)"

definition world_update_position :: "u32 \<Rightarrow> u32 \<Rightarrow> vector3 \<Rightarrow> world \<Rightarrow> world" where
  "world_update_position actor_id session_id position w =
     (case w_sessions w session_id of
        None \<Rightarrow> w
      | Some s \<Rightarrow>
          case w_zones w (s_current_zone_id s) of
            None \<Rightarrow> w
          | Some z \<Rightarrow>
              if attaches_to_private (s_current_private_area_name s) (s_current_private_area_level s) z
              then modify_zone (s_current_zone_id s) (modify_private (the (s_current_private_area_name s))
                     (s_current_private_area_level s) (move_in_core actor_id position)) w
              else let w = modify_zone (s_current_zone_id s) (modify_core (move_in_core actor_id position)) w
                   in case s_merged_zone_id s of
                        None \<Rightarrow> w
                      | Some mz \<Rightarrow>
                          if mz \<noteq> s_current_zone_id s
                          then modify_zone mz (modify_core (move_in_core actor_id position)) w else w)"

section \<open>Broadcast\<close>

text \<open>The radius of 50 yalms is one cell.\<close>

definition BROADCAST_RADIUS_CELLS :: int where "BROADCAST_RADIUS_CELLS = 1"

definition source_private_area :: "u32 \<Rightarrow> registry \<Rightarrow> world \<Rightarrow> (u8 list \<times> u32) option" where
  "source_private_area source reg w =
     (case r_get source reg of
        None \<Rightarrow> None
      | Some handle \<Rightarrow>
          if h_session_id handle = 0 then None
          else case w_sessions w (h_session_id handle) of
                 None \<Rightarrow> None
               | Some s \<Rightarrow> map_option (\<lambda>n. (n, s_current_private_area_level s)) (s_current_private_area_name s))"

definition broadcast_core :: "u32 \<Rightarrow> registry \<Rightarrow> world \<Rightarrow> zone \<Rightarrow> area_core" where
  "broadcast_core source reg w z =
     (case source_private_area source reg w of
        None \<Rightarrow> z_core z
      | Some (name, level) \<Rightarrow>
          (case get_private_area name level z of Some pa \<Rightarrow> pa_core pa | None \<Rightarrow> z_core z))"

definition send_stamped :: "registry \<Rightarrow> world \<Rightarrow> u8 list \<Rightarrow> u32 \<Rightarrow> (u32 \<times> u8 list) option" where
  "send_stamped reg w packet_bytes player_actor_id =
     (case r_get player_actor_id reg of
        None \<Rightarrow> None
      | Some handle \<Rightarrow>
          if h_session_id handle \<in> w_clients w
          then Some (h_session_id handle, fst (stamp_target_id_if_zero packet_bytes (h_session_id handle)))
          else None)"

definition broadcast_around_actor :: "registry \<Rightarrow> world \<Rightarrow> zone \<Rightarrow> u32 \<Rightarrow> u8 list \<Rightarrow> (u32 \<times> u8 list) list" where
  "broadcast_around_actor reg w z source packet_bytes =
     (if ac_is_isolated (z_core z) then []
      else let nearby = map sa_actor_id (filter (\<lambda>a. sa_kind a = AkPlayer)
                          (actors_around source BROADCAST_RADIUS_CELLS (broadcast_core source reg w z)))
           in List.map_filter (send_stamped reg w packet_bytes) nearby)"

section \<open>The instance stream\<close>

definition CONTENT_ACTOR_BAND_BIT :: u32 where "CONTENT_ACTOR_BAND_BIT = 0x40000"

definition is_streamable :: "actor_kind \<Rightarrow> bool" where
  "is_streamable kind \<longleftrightarrow> kind = AkNpc \<or> kind = AkBattleNpc \<or> kind = AkAlly"

definition seamless_partner :: "u32 \<Rightarrow> seamless_boundary \<Rightarrow> u32 option" where
  "seamless_partner zone_id b =
     (if sb_zone_id_1 b = zone_id then Some (sb_zone_id_2 b)
      else if sb_zone_id_2 b = zone_id then Some (sb_zone_id_1 b) else None)"

definition seamless_partner_zones :: "u32 \<Rightarrow> u32 \<Rightarrow> world \<Rightarrow> u32 list" where
  "seamless_partner_zones region_id zone_id w =
     fold (\<lambda>b partners. case seamless_partner zone_id b of
             None \<Rightarrow> partners
           | Some p \<Rightarrow> if p \<noteq> zone_id \<and> p \<notin> set partners then partners @ [p] else partners)
       (w_seamless_boundaries w region_id) []"

definition partner_zone_actors_around :: "u32 \<Rightarrow> u32 \<Rightarrow> vector3 \<Rightarrow> world \<Rightarrow> (u32 \<times> u8 list) list" where
  "partner_zone_actors_around region_id zone_id position w =
     concat (map (\<lambda>partner. case w_zones w partner of
         None \<Rightarrow> []
       | Some z \<Rightarrow> map (\<lambda>a. (sa_actor_id a, ac_zone_name (z_core z)))
           (filter (\<lambda>a. is_streamable (sa_kind a))
              (actors_around_point (v_x position) (v_z position) BROADCAST_RADIUS_CELLS (z_core z))))
       (seamless_partner_zones region_id zone_id w))"

definition in_content_instance :: "session \<Rightarrow> bool" where
  "in_content_instance s \<longleftrightarrow> s_content_parent_zone s = Some (s_current_zone_id s)"

definition stream_list :: "u32 \<Rightarrow> session \<Rightarrow> zone \<Rightarrow> world \<Rightarrow> (u32 \<times> u8 list) list" where
  "stream_list actor_id s z w =
     (let own = map (\<lambda>a. (sa_actor_id a, ac_zone_name (z_core z)))
            (filter (\<lambda>a. sa_actor_id a \<notin> s_actor_instance_list s)
            (filter (\<lambda>a. \<not> in_content_instance s \<or> sa_actor_id a AND CONTENT_ACTOR_BAND_BIT \<noteq> 0)
            (filter (\<lambda>a. is_streamable (sa_kind a))
            (filter (\<lambda>a. sa_actor_id a \<noteq> actor_id) (actors_around actor_id BROADCAST_RADIUS_CELLS (z_core z))))));
          partner = (case ac_actors (z_core z) actor_id of
              Some me \<Rightarrow> if in_content_instance s then []
                else filter (\<lambda>p. fst p \<notin> s_actor_instance_list s)
                       (partner_zone_actors_around (ucast (ac_region_id (z_core z))) (s_current_zone_id s) (sa_position me) w)
            | None \<Rightarrow> [])
      in own @ partner)"

definition send_instance_update :: "registry \<Rightarrow> u32 \<Rightarrow> u32 \<Rightarrow> world \<Rightarrow> world \<times> (u32 \<times> u8 list) list" where
  "send_instance_update reg actor_id session_id w =
     (case w_sessions w session_id of
        None \<Rightarrow> (w, [])
      | Some s \<Rightarrow>
          if s_current_private_area_name s \<noteq> None then (w, [])
          else if in_content_instance s \<and> \<not> s_content_warp_acked s then (w, [])
          else case w_zones w (s_current_zone_id s) of
                 None \<Rightarrow> (w, [])
               | Some z \<Rightarrow>
                   if session_id \<notin> w_clients w then (w, [])
                   else let added = filter (\<lambda>p. r_get (fst p) reg \<noteq> None) (stream_list actor_id s z w)
                        in (modify_session session_id
                              (\<lambda>s. s\<lparr>s_actor_instance_list := s_actor_instance_list s \<union> fst ` set added\<rparr>) w, added))"

section \<open>The position handler and the session end\<close>

text \<open>The last component is the position saved to the database after a seamless flip, if there was one.\<close>

definition handle_update_position :: "u32 \<Rightarrow> vector3 \<Rightarrow> registry \<Rightarrow> world
    \<Rightarrow> registry \<times> world \<times> (u32 \<times> u8 list) list \<times> (u32 \<times> u32) option" where
  "handle_update_position session_id position reg w =
     (case r_find_by_session session_id reg of
        None \<Rightarrow> (reg, w, [], None)
      | Some handle \<Rightarrow>
          let actor_id = h_actor_id handle;
              held = (case w_sessions w session_id of Some s \<Rightarrow> s_pending_zone_in s \<or> s_reload_in_flight s | None \<Rightarrow> False)
          in if held then (reg, w, [], None)
             else let w = world_update_position actor_id session_id position w;
                      in_content = (case w_sessions w session_id of Some s \<Rightarrow> in_content_instance s | None \<Rightarrow> False);
                      r = (if in_content then (SeamlessNone, w) else seamless_check actor_id session_id position w);
                      dest = (case fst r of ZoneChanged d \<Rightarrow> Some d | _ \<Rightarrow> None);
                      reg = (case dest of Some d \<Rightarrow> snd (reassign_zone actor_id d reg) | None \<Rightarrow> reg);
                      u = send_instance_update reg actor_id session_id (snd r)
                  in (reg, fst u, snd u, map_option (\<lambda>d. (actor_id, d)) dest))"

definition handle_session_end :: "u32 \<Rightarrow> registry \<Rightarrow> world \<Rightarrow> registry \<times> world" where
  "handle_session_end session_id reg w = (snd (r_remove_session session_id reg), remove_session session_id w)"

end
