(* ===== verification/WorldLaws.thy ===== *)
theory WorldLaws
  imports WorldZones
begin

text \<open>
  Laws of \<open>WorldZones\<close>: what a zone change does to every area at once, where a player is stored
  afterwards, that the seamless check settles, whom a broadcast reaches, and the projections that
  outlive their reason.
\<close>

section \<open>Places\<close>

text \<open>A place is a zone with, possibly, the name and level of one of its private areas.\<close>

type_synonym place = "u32 \<times> (u8 list \<times> u32) option"

definition core_at :: "zone \<Rightarrow> (u8 list \<times> u32) option \<Rightarrow> area_core option" where
  "core_at z po = (case po of None \<Rightarrow> Some (z_core z)
     | Some (name, level) \<Rightarrow> map_option pa_core (get_private_area name level z))"

definition area_at :: "world \<Rightarrow> place \<Rightarrow> area_core option" where
  "area_at w p = Option.bind (w_zones w (fst p)) (\<lambda>z. core_at z (snd p))"

definition stored_as :: "world \<Rightarrow> place \<Rightarrow> u32 \<Rightarrow> stored_actor option" where
  "stored_as w p k = Option.bind (area_at w p) (\<lambda>ar. ac_actors ar k)"

definition routing :: "u8 list option \<Rightarrow> u32 \<Rightarrow> (u8 list \<times> u32) option" where
  "routing name level = map_option (\<lambda>n. (n, level)) name"

definition the_session :: "world \<Rightarrow> u32 \<Rightarrow> session" where
  "the_session w sid = (case w_sessions w sid of Some s \<Rightarrow> s | None \<Rightarrow> session_new sid)"

definition session_place :: "world \<Rightarrow> u32 \<Rightarrow> place" where
  "session_place w sid = (s_current_zone_id (the_session w sid),
     routing (s_current_private_area_name (the_session w sid)) (s_current_private_area_level (the_session w sid)))"

text \<open>One operation on one area of a zone.\<close>

definition modify_at :: "(u8 list \<times> u32) option \<Rightarrow> (area_core \<Rightarrow> area_core) \<Rightarrow> zone \<Rightarrow> zone" where
  "modify_at po f z = (case po of None \<Rightarrow> modify_core f z | Some (name, level) \<Rightarrow> modify_private name level f z)"

lemma get_put_private_area:
  "get_private_area n l (put_private_area name level pa z) =
     (if n = name \<and> l = level then Some pa else get_private_area n l z)"
  by (auto simp: get_private_area_def put_private_area_def levels_of_def split: option.split)

lemma put_private_area_core [simp]: "z_core (put_private_area name level pa z) = z_core z"
  by (simp add: put_private_area_def)

lemma get_private_area_core_update [simp]: "get_private_area n l (z\<lparr>z_core := c\<rparr>) = get_private_area n l z"
  by (simp add: get_private_area_def)

lemma core_at_modify_at:
  "core_at (modify_at q f z) p = (if p = q then map_option f (core_at z p) else core_at z p)"
  by (auto simp: core_at_def modify_at_def modify_core_def modify_private_def get_put_private_area
      split: option.split)

lemma area_at_modify:
  "area_at (modify_zone zid (modify_at q f) w) p =
     (if p = (zid, q) then map_option f (area_at w p) else area_at w p)"
  by (cases p) (auto simp: area_at_def modify_zone_def core_at_modify_at split: option.split bind_split)

lemma modify_session_areas [simp]: "area_at (modify_session sid f w) p = area_at w p"
  by (simp add: area_at_def modify_session_def)

lemma sessions_update_areas [simp]: "area_at (w\<lparr>w_sessions := m\<rparr>) p = area_at w p"
  by (simp add: area_at_def)

lemma detach_eq: "detach name level k = modify_at (routing name level) (\<lambda>c. fst (snd (remove_actor k c)))"
  by (auto simp: fun_eq_iff detach_def modify_at_def routing_def split: option.split)

definition target_area :: "u8 list option \<Rightarrow> u32 \<Rightarrow> zone \<Rightarrow> (u8 list \<times> u32) option" where
  "target_area name level z = (if attaches_to_private name level z then routing name level else None)"

lemma attach_eq:
  "attach name level k spawn z =
     modify_at (target_area name level z) (\<lambda>c. fst (add_actor (player_projection k spawn) c)) z"
  by (auto simp: attach_def modify_at_def target_area_def routing_def attaches_to_private_def split: option.split)


lemma area_at_enter:
  assumes "w_zones w dest = Some dz" and "target_area name level dz = target"
  shows "area_at (modify_zone dest (attach name level k spawn) w) p =
     (if p = (dest, target) then map_option (\<lambda>c. fst (add_actor (player_projection k spawn) c)) (area_at w p)
      else area_at w p)"
proof -
  have "modify_zone dest (attach name level k spawn) w =
      modify_zone dest (modify_at target (\<lambda>c. fst (add_actor (player_projection k spawn) c))) w"
    using assms by (simp add: modify_zone_def attach_eq)
  then show ?thesis by (simp add: area_at_modify)
qed

section \<open>One actor in one area\<close>

lemma add_actor_table:
  "ac_actors (fst (add_actor a c)) =
     (ac_actors c)(sa_actor_id a := Some (a\<lparr>sa_grid := pos_to_grid (v_x (sa_position a)) (v_z (sa_position a))\<rparr>))"
  by (auto simp: add_actor_def Let_def split: option.split)

lemma remove_actor_table: "ac_actors (fst (snd (remove_actor k c))) = (ac_actors c)(k := None)"
  by (auto simp: remove_actor_def fun_eq_iff split: option.split)

text \<open>The projection of a player standing at a position, with its cell.\<close>

definition settled :: "u32 \<Rightarrow> vector3 \<Rightarrow> stored_actor" where
  "settled k pos = (player_projection k pos)\<lparr>sa_grid := pos_to_grid (v_x pos) (v_z pos)\<rparr>"

lemma projection_fields [simp]:
  "sa_actor_id (player_projection k pos) = k" "sa_position (player_projection k pos) = pos"
  "sa_kind (player_projection k pos) = AkPlayer"
  by (simp_all add: player_projection_def)

lemma add_projection_table:
  "ac_actors (fst (add_actor (player_projection k pos) c)) = (ac_actors c)(k := Some (settled k pos))"
  by (simp add: add_actor_table settled_def)

section \<open>Zone change\<close>

text \<open>Where the change leaves from, when it leaves anywhere.\<close>

definition left_place :: "u32 \<Rightarrow> u8 list option \<Rightarrow> u32 \<Rightarrow> session \<Rightarrow> place option" where
  "left_place dest name level s =
     (let old = s_current_zone_id s; po = routing (s_current_private_area_name s) (s_current_private_area_level s)
      in if old \<noteq> 0 \<and> old \<noteq> dest then Some (old, po)
         else if s_current_private_area_name s \<noteq> name \<or> s_current_private_area_level s \<noteq> level then Some (dest, po)
         else None)"

lemma modify_other_zone: "zid \<noteq> zid' \<Longrightarrow> w_zones (modify_zone zid f w) zid' = w_zones w zid'"
  by (simp add: modify_zone_def)

lemma detach_keeps_areas:
  "attaches_to_private n l (detach name level k z) = attaches_to_private n l z"
  by (auto simp: attaches_to_private_def detach_eq modify_at_def modify_core_def modify_private_def get_put_private_area
      split: option.split)

text \<open>The world after the actor has left, before it enters.\<close>

definition after_leaving :: "u32 \<Rightarrow> u32 \<Rightarrow> u8 list option \<Rightarrow> u32 \<Rightarrow> session \<Rightarrow> world \<Rightarrow> world" where
  "after_leaving k dest name level s w =
     (case left_place dest name level s of
        None \<Rightarrow> w
      | Some p \<Rightarrow> modify_zone (fst p) (modify_at (snd p) (\<lambda>c. fst (snd (remove_actor k c)))) w)"

lemma zone_change_eq:
  assumes "w_zones w dest = Some dz"
  shows "\<exists>s'. do_zone_change_with_private_area k sid dest name level spawn rot w =
     (modify_zone dest (attach name level k spawn) (after_leaving k dest name level (the_session w sid) w))
       \<lparr>w_sessions := (w_sessions w)(sid := Some s')\<rparr> \<and>
     s_current_zone_id s' = dest \<and> routing (s_current_private_area_name s') (s_current_private_area_level s') =
       target_area name level dz \<and> s_merged_zone_id s' = s_merged_zone_id (the_session w sid)"
proof -
  have "w_sessions (modify_zone zid f w) = w_sessions w" for zid f w by (simp add: modify_zone_def)
  then show ?thesis
    using assms
    by (auto simp: do_zone_change_with_private_area_def after_leaving_def left_place_def the_session_def Let_def
        detach_eq target_area_def routing_def split: option.split)
qed

lemma after_leaving_area:
  "area_at (after_leaving k dest name level s w) p =
     (if left_place dest name level s = Some p then map_option (\<lambda>c. fst (snd (remove_actor k c))) (area_at w p)
      else area_at w p)"
  by (auto simp: after_leaving_def area_at_modify split: option.split)

lemma after_leaving_dest:
  assumes "w_zones w dest = Some dz"
  shows "\<exists>dz'. w_zones (after_leaving k dest name level s w) dest = Some dz' \<and>
     attaches_to_private name level dz' = attaches_to_private name level dz"
  using assms
  by (auto simp: after_leaving_def modify_zone_def detach_keeps_areas [unfolded detach_eq] left_place_def Let_def
      split: option.split if_splits)

lemma target_area_cong:
  "attaches_to_private name level z = attaches_to_private name level z' \<Longrightarrow>
    target_area name level z = target_area name level z'"
  by (simp add: target_area_def)

lemma target_exists:
  assumes "w_zones w dest = Some dz"
  shows "area_at w (dest, target_area name level dz) \<noteq> None"
  using assms
  by (auto simp: area_at_def target_area_def attaches_to_private_def routing_def core_at_def split: option.splits)

lemma zone_change_stored:
  assumes dz: "w_zones w dest = Some dz"
  shows "stored_as (do_zone_change_with_private_area k sid dest name level spawn rot w) p j =
    (if p = (dest, target_area name level dz) \<and> j = k then Some (settled k spawn)
     else if left_place dest name level (the_session w sid) = Some p \<and> j = k then None
     else stored_as w p j)"
proof -
  let ?w1 = "after_leaving k dest name level (the_session w sid) w"
  let ?t = "target_area name level dz"
  obtain s' where eq: "do_zone_change_with_private_area k sid dest name level spawn rot w =
      (modify_zone dest (attach name level k spawn) ?w1)\<lparr>w_sessions := (w_sessions w)(sid := Some s')\<rparr>"
    using zone_change_eq [OF dz] by blast
  obtain dz' where dz': "w_zones ?w1 dest = Some dz'" "attaches_to_private name level dz' = attaches_to_private name level dz"
    using after_leaving_dest [OF dz] by blast
  have t: "target_area name level dz' = ?t" by (rule target_area_cong [OF dz'(2)])
  have area: "area_at (do_zone_change_with_private_area k sid dest name level spawn rot w) p =
      (if p = (dest, ?t) then map_option (\<lambda>c. fst (add_actor (player_projection k spawn) c)) (area_at ?w1 p)
       else area_at ?w1 p)"
    unfolding eq by (simp add: area_at_enter [OF dz'(1) t])
  have "area_at ?w1 p \<noteq> None" if "p = (dest, ?t)"
    using target_exists [OF dz'(1), of name level] t that by simp
  then show ?thesis
    unfolding stored_as_def area after_leaving_area
    by (auto simp: add_projection_table remove_actor_table split: bind_split)
qed


section \<open>Seamless changes and merges\<close>

lemma modify_core_at: "modify_core f = modify_at None f"
  by (simp add: fun_eq_iff modify_at_def)

lemma core_area: "w_zones w z = Some zn \<Longrightarrow> area_at w (z, None) = Some (z_core zn)"
  by (simp add: area_at_def core_at_def)

lemma area_exists_modify: "area_at (modify_zone z f w) (z', None) = None \<longleftrightarrow> area_at w (z', None) = None"
  by (auto simp: area_at_def modify_zone_def core_at_def split: bind_split)

lemma seamless_change_stored:
  assumes dz: "w_zones w dest = Some dz"
  shows "stored_as (do_seamless_zone_change k sid dest pos w) p j =
    (if p = (dest, None) \<and> j = k then Some (settled k pos)
     else if p = (fst (session_place w sid), None) \<and> j = k then None else stored_as w p j)"
proof -
  have old: "(case w_sessions w sid of Some s \<Rightarrow> s_current_zone_id s | None \<Rightarrow> 0) = fst (session_place w sid)"
    by (simp add: session_place_def the_session_def session_new_def split: option.split)
  have "area_at w (dest, None) \<noteq> None" by (simp add: core_area [OF dz])
  then show ?thesis
    using dz unfolding do_seamless_zone_change_def old stored_as_def
    by (auto simp: Let_def modify_core_at area_at_modify add_projection_table remove_actor_table split: bind_split)
qed

lemma merge_stored:
  assumes mz: "w_zones w m = Some mz"
  shows "stored_as (merge_zones k sid m pos w) p j =
    (if p = (m, None) \<and> j = k then Some (settled k pos) else stored_as w p j)"
  using mz core_area [OF mz]
  by (auto simp: merge_zones_def modify_core_at area_at_modify add_projection_table stored_as_def split: bind_split)

lemma modify_session_same [simp]:
  "w_sessions (modify_session sid f w) = (w_sessions w)(sid := map_option f (w_sessions w sid))"
  "w_zones (modify_session sid f w) = w_zones w"
  "w_seamless_boundaries (modify_session sid f w) = w_seamless_boundaries w"
  "w_clients (modify_session sid f w) = w_clients w"
  by (simp_all add: modify_session_def)

lemma modify_zone_same [simp]:
  "w_sessions (modify_zone z f w) = w_sessions w"
  "w_seamless_boundaries (modify_zone z f w) = w_seamless_boundaries w"
  "w_clients (modify_zone z f w) = w_clients w"
  by (simp_all add: modify_zone_def)

text \<open>Neither the boundaries nor the region of any zone ever change.\<close>

definition region_of :: "world \<Rightarrow> u32 \<Rightarrow> u32 option" where
  "region_of w z = map_option (\<lambda>zn. ucast (ac_region_id (z_core zn))) (w_zones w z)"

lemma cell_ops_region [simp]:
  "ac_region_id (cell_push c k ar) = ac_region_id ar" "ac_region_id (cell_remove c k ar) = ac_region_id ar"
  by (simp_all add: cell_push_def cell_remove_def set_cell_def)

lemma actor_ops_region [simp]:
  "ac_region_id (fst (add_actor a ar)) = ac_region_id ar"
  "ac_region_id (fst (snd (remove_actor k ar))) = ac_region_id ar"
  "ac_region_id (fst (update_actor_position k pos ar)) = ac_region_id ar"
  by (auto simp: add_actor_def remove_actor_def update_actor_position_def Let_def split: option.split)

lemma region_modify_core:
  assumes "\<And>c. ac_region_id (f c) = ac_region_id c"
  shows "region_of (modify_zone z (modify_core f) w) = region_of w"
  using assms by (auto simp: fun_eq_iff region_of_def modify_zone_def modify_core_def option.map_comp comp_def
      split: option.split)

lemma region_modify_session [simp]: "region_of (modify_session sid f w) = region_of w"
  by (simp add: fun_eq_iff region_of_def)

lemma region_seamless [simp]: "region_of (do_seamless_zone_change k sid d pos w) = region_of w"
  by (simp add: do_seamless_zone_change_def Let_def region_modify_core split: option.split)

lemma region_merge [simp]: "region_of (merge_zones k sid m pos w) = region_of w"
  by (simp add: merge_zones_def region_modify_core split: option.split)

lemma seamless_boundaries_same [simp]:
  "w_seamless_boundaries (do_seamless_zone_change k sid d pos w) = w_seamless_boundaries w"
  "w_seamless_boundaries (merge_zones k sid m pos w) = w_seamless_boundaries w"
  by (simp_all add: do_seamless_zone_change_def merge_zones_def Let_def split: option.split)

lemma seamless_check_eq:
  "seamless_check k sid pos w =
     (case w_sessions w sid of
        None \<Rightarrow> (SeamlessNone, w)
      | Some s \<Rightarrow> case region_of w (s_current_zone_id s) of
            None \<Rightarrow> (SeamlessNone, w)
          | Some r \<Rightarrow> seamless_scan k sid (s_current_zone_id s) (s_merged_zone_id s) pos (w_seamless_boundaries w r) w)"
  by (simp add: seamless_check_def region_of_def split: option.split)

section \<open>The seamless check settles\<close>

definition boundary_ok :: "world \<Rightarrow> u32 \<Rightarrow> seamless_boundary \<Rightarrow> bool" where
  "boundary_ok w r b \<longleftrightarrow>
     (region_of w (sb_zone_id_1 b) = None \<or> region_of w (sb_zone_id_1 b) = Some r) \<and>
     (region_of w (sb_zone_id_2 b) = None \<or> region_of w (sb_zone_id_2 b) = Some r)"

definition boundaries_regional :: "world \<Rightarrow> bool" where
  "boundaries_regional w \<longleftrightarrow> (\<forall>r. \<forall>b \<in> set (w_seamless_boundaries w r). boundary_ok w r b)"

text \<open>A check by a session leaves it where the same check has nothing more to do.\<close>

definition settled_scan :: "u32 \<Rightarrow> u32 \<Rightarrow> u32 \<Rightarrow> vector3 \<Rightarrow> seamless_boundary list \<Rightarrow> world \<Rightarrow> bool" where
  "settled_scan k sid r pos bs w \<longleftrightarrow>
     (\<exists>s. w_sessions w sid = Some s \<and> region_of w (s_current_zone_id s) = Some r \<and>
        snd (seamless_scan k sid (s_current_zone_id s) (s_merged_zone_id s) pos bs w) = w \<and>
        (\<forall>z. fst (seamless_scan k sid (s_current_zone_id s) (s_merged_zone_id s) pos bs w) = ZoneChanged z \<longrightarrow>
           w_zones w z = None))"

lemma settled_scanI:
  assumes "w_sessions w sid = Some s" and "region_of w (s_current_zone_id s) = Some r"
    and "seamless_scan k sid (s_current_zone_id s) (s_merged_zone_id s) pos bs w = (ZoneMerged m, w)"
  shows "settled_scan k sid r pos bs w"
  using assms by (simp add: settled_scan_def)

lemma enter_box_settles:
  assumes s: "w_sessions w sid = Some s" and r: "region_of w (s_current_zone_id s) = Some r"
    and z: "region_of w zid = None \<or> region_of w zid = Some r" and ins: "\<And>z. ins \<noteq> ZoneChanged z"
    and w': "w' = snd (enter_box k sid zid (s_current_zone_id s) (s_merged_zone_id s) ins pos w)"
  shows "\<exists>s'. w_sessions w' sid = Some s' \<and> region_of w' (s_current_zone_id s') = Some r \<and>
    snd (enter_box k sid zid (s_current_zone_id s') (s_merged_zone_id s') ins pos w') = w' \<and>
    (\<forall>z. fst (enter_box k sid zid (s_current_zone_id s') (s_merged_zone_id s') ins pos w') = ZoneChanged z \<longrightarrow>
       w_zones w' z = None)"
proof (cases "s_current_zone_id s = zid")
  case True
  let ?s = "s\<lparr>s_merged_zone_id := None\<rparr>"
  show ?thesis
  proof (cases "s_merged_zone_id s")
    case None
    with True s r ins w' show ?thesis by (intro exI [of _ s]) (simp add: enter_box_def)
  next
    case (Some m)
    with True w' have "w' = modify_session sid (\<lambda>s. s\<lparr>s_merged_zone_id := None\<rparr>) w" by (simp add: enter_box_def)
    with True s r ins show ?thesis by (intro exI [of _ ?s]) (simp add: enter_box_def)
  qed
next
  case False
  then have w'eq: "w' = do_seamless_zone_change k sid zid pos w" using w' by (simp add: enter_box_def)
  show ?thesis
  proof (cases "w_zones w zid")
    case None
    then have "w' = w" by (simp add: w'eq do_seamless_zone_change_def)
    with False None s r show ?thesis
      by (intro exI [of _ s]) (simp add: enter_box_def do_seamless_zone_change_def)
  next
    case (Some dz)
    let ?s = "s\<lparr>s_current_zone_id := zid, s_merged_zone_id := None\<rparr>"
    have "w_sessions w' sid = Some ?s" using s Some by (simp add: w'eq do_seamless_zone_change_def Let_def)
    moreover have "region_of w' zid = Some r" using z Some by (simp add: w'eq) (simp add: region_of_def)
    ultimately show ?thesis using ins by (intro exI [of _ ?s]) (simp add: enter_box_def)
  qed
qed

lemma merge_settles:
  assumes s: "w_sessions w sid = Some s" and m: "s_merged_zone_id s \<noteq> Some m"
    and w': "w' = merge_zones k sid m pos w"
  shows "w' = w \<and> w_zones w m = None \<or>
    w_sessions w' sid = Some (s\<lparr>s_merged_zone_id := Some m\<rparr>)"
  using s w' by (cases "w_zones w m") (simp_all add: merge_zones_def)

lemma scan_settles:
  assumes s: "w_sessions w sid = Some s" and r: "region_of w (s_current_zone_id s) = Some r"
    and bs: "\<And>b. b \<in> set bs \<Longrightarrow> boundary_ok w r b"
  shows "settled_scan k sid r pos bs
    (snd (seamless_scan k sid (s_current_zone_id s) (s_merged_zone_id s) pos bs w))"
  using bs
proof (induction bs)
  case Nil
  from s r show ?case by (simp add: settled_scan_def)
next
  case (Cons b bs)
  let ?in = "\<lambda>x. check_pos_in_bounds (v_x pos) (v_z pos) (x b)"
  have ok: "region_of w (sb_zone_id_1 b) = None \<or> region_of w (sb_zone_id_1 b) = Some r"
    "region_of w (sb_zone_id_2 b) = None \<or> region_of w (sb_zone_id_2 b) = Some r"
    using Cons.prems [of b] by (simp_all add: boundary_ok_def)
  consider "?in sb_zone1" | "\<not> ?in sb_zone1" "?in sb_zone2" | "\<not> ?in sb_zone1" "\<not> ?in sb_zone2" "?in sb_merge"
    | "\<not> ?in sb_zone1" "\<not> ?in sb_zone2" "\<not> ?in sb_merge" by blast
  then show ?case
  proof cases
    case 1
    with enter_box_settles [OF s r ok(1) _ refl, of InsideZoneOne] show ?thesis by (simp add: settled_scan_def)
  next
    case 2
    with enter_box_settles [OF s r ok(2) _ refl, of InsideZoneTwo] show ?thesis by (simp add: settled_scan_def)
  next
    case 3
    define m where "m = (if s_current_zone_id s = sb_zone_id_1 b then sb_zone_id_2 b else sb_zone_id_1 b)"
    show ?thesis
    proof (cases "s_merged_zone_id s = Some m")
      case True
      with 3 s r show ?thesis by (auto simp: settled_scan_def m_def Let_def)
    next
      case False
      have scan: "seamless_scan k sid (s_current_zone_id s) (s_merged_zone_id s) pos (b # bs) w =
          (ZoneMerged m, merge_zones k sid m pos w)" using 3 False by (simp add: m_def [symmetric] Let_def)
      from merge_settles [OF s False refl, of k pos] show ?thesis
      proof
        assume eq: "merge_zones k sid m pos w = w \<and> w_zones w m = None"
        then have same: "seamless_scan k sid (s_current_zone_id s) (s_merged_zone_id s) pos (b # bs) w = (ZoneMerged m, w)"
          using scan by argo
        show ?thesis unfolding same snd_conv by (rule settled_scanI [OF s r same])
      next
        let ?s = "s\<lparr>s_merged_zone_id := Some m\<rparr>"
        assume s': "w_sessions (merge_zones k sid m pos w) sid = Some ?s"
        have "seamless_scan k sid (s_current_zone_id ?s) (s_merged_zone_id ?s) pos (b # bs) w'' = (ZoneMerged m, w'')"
          for w'' using 3 by (simp add: m_def [symmetric] Let_def)
        from settled_scanI [OF s' _ this] r show ?thesis unfolding scan snd_conv by simp
      qed
    qed
  next
    case 4
    with Cons.IH Cons.prems show ?thesis by (simp add: settled_scan_def)
  qed
qed

lemma seamless_scan_boundaries [simp]:
  "w_seamless_boundaries (snd (seamless_scan k sid c m pos bs w)) = w_seamless_boundaries w"
  by (induction bs) (simp_all add: enter_box_def Let_def)


text \<open>
  Two zones of region 1 with one boundary: zone 100 for 0 < x < 10, zone 200 for 20 < x < 30, the merge
  strip between them, all for 0 < z < 10. Player 7 has session 42.
\<close>

definition demo_boundary :: seamless_boundary where
  "demo_boundary = \<lparr>sb_id = 1, sb_region_id = 1, sb_zone_id_1 = 100, sb_zone_id_2 = 200,
     sb_zone1 = \<lparr>b_x1 = 0, b_y1 = 0, b_x2 = 0x41200000, b_y2 = 0x41200000\<rparr>,
     sb_zone2 = \<lparr>b_x1 = 0x41A00000, b_y1 = 0, b_x2 = 0x41F00000, b_y2 = 0x41200000\<rparr>,
     sb_merge = \<lparr>b_x1 = 0x41200000, b_y1 = 0, b_x2 = 0x41A00000, b_y2 = 0x41200000\<rparr>\<rparr>"

definition demo_zone2 :: zone where
  "demo_zone2 = z_new 200 [] 1 [] 0 0 0 False False False False False"

definition demo_session :: session where
  "demo_session = (session_new 42)\<lparr>s_current_zone_id := 100\<rparr>"

definition demo_world :: world where
  "demo_world = \<lparr>w_zones = [100 \<mapsto> demo_zone, 200 \<mapsto> demo_zone2], w_sessions = [42 \<mapsto> demo_session],
     w_clients = {42, 43}, w_seamless_boundaries = (\<lambda>r. if r = 1 then [demo_boundary] else [])\<rparr>"

definition at_x :: "f32_bits \<Rightarrow> vector3" where
  "at_x x = \<lparr>v_x = x, v_y = 0, v_z = 0x40A00000\<rparr>"

lemma demo_bounds:
  "check_pos_in_bounds (v_x (at_x 0x40A00000)) (v_z (at_x 0x40A00000)) (sb_zone1 demo_boundary)"
  "\<not> check_pos_in_bounds (v_x (at_x 0x41700000)) (v_z (at_x 0x41700000)) (sb_zone1 demo_boundary)"
  "\<not> check_pos_in_bounds (v_x (at_x 0x41700000)) (v_z (at_x 0x41700000)) (sb_zone2 demo_boundary)"
  "check_pos_in_bounds (v_x (at_x 0x41700000)) (v_z (at_x 0x41700000)) (sb_merge demo_boundary)"
  by code_simp+

lemma demo_zone_fields [simp]:
  "ac_region_id (z_core demo_zone) = 1" "ac_region_id (z_core demo_zone2) = 1"
  "ac_actors (z_core demo_zone) = Map.empty" "ac_actors (z_core demo_zone2) = Map.empty"
  "z_private_areas demo_zone = Map.empty" "z_private_areas demo_zone2 = Map.empty"
  by (simp_all add: demo_zone_def demo_zone2_def z_new_def ac_new_def area_directors.defs)

lemma demo_boundary_zones [simp]: "sb_zone_id_1 demo_boundary = 100" "sb_zone_id_2 demo_boundary = 200"
  by (simp_all add: demo_boundary_def)

lemma demo_world_fields [simp]:
  "w_zones demo_world = [100 \<mapsto> demo_zone, 200 \<mapsto> demo_zone2]" "w_sessions demo_world = [42 \<mapsto> demo_session]"
  "w_seamless_boundaries demo_world = (\<lambda>r. if r = 1 then [demo_boundary] else [])" "w_clients demo_world = {42, 43}"
  by (simp_all add: demo_world_def)

lemma demo_regions: "region_of demo_world 100 = Some 1" "region_of demo_world 200 = Some 1"
  by (simp_all add: region_of_def)

lemma demo_regional: "boundaries_regional demo_world"
  by (simp add: boundaries_regional_def boundary_ok_def demo_regions)

lemma demo_empty: "stored_as demo_world p k = None"
  by (auto simp: stored_as_def area_at_def core_at_def get_private_area_def split: bind_split option.split)

text \<open>
  C21: The seamless check settles. When the boundaries of a region pair zones of that region, running the
  check a second time at the same position changes nothing, and it reports a zone change again only
  for a zone this server does not host.
\<close>

theorem seamless_check_settles:
  assumes reg: "boundaries_regional w"
  shows "snd (seamless_check k sid pos (snd (seamless_check k sid pos w))) = snd (seamless_check k sid pos w) \<and>
    (\<forall>z. fst (seamless_check k sid pos (snd (seamless_check k sid pos w))) = ZoneChanged z \<longrightarrow>
       w_zones (snd (seamless_check k sid pos w)) z = None)"
proof (cases "w_sessions w sid")
  case None
  then show ?thesis by (simp add: seamless_check_eq)
next
  case (Some s)
  show ?thesis
  proof (cases "region_of w (s_current_zone_id s)")
    case None
    with Some show ?thesis by (simp add: seamless_check_eq)
  next
    case r: (Some r)
    let ?bs = "w_seamless_boundaries w r"
    define w' where "w' = snd (seamless_scan k sid (s_current_zone_id s) (s_merged_zone_id s) pos ?bs w)"
    have check: "snd (seamless_check k sid pos w) = w'" using Some r by (simp add: seamless_check_eq w'_def)
    have "settled_scan k sid r pos ?bs w'"
      unfolding w'_def by (rule scan_settles [OF Some r]) (use reg in \<open>simp add: boundaries_regional_def\<close>)
    moreover have "w_seamless_boundaries w' = w_seamless_boundaries w" by (simp add: w'_def)
    ultimately show ?thesis unfolding check by (auto simp: settled_scan_def seamless_check_eq)
  qed
qed

theorem seamless_check_settles_witness:
  "snd (seamless_check 7 42 (at_x 0x41C80000) (snd (seamless_check 7 42 (at_x 0x41C80000) demo_world))) =
     snd (seamless_check 7 42 (at_x 0x41C80000) demo_world)"
  using seamless_check_settles [OF demo_regional] by blast



section \<open>Broadcast\<close>

definition reached_by :: "registry \<Rightarrow> world \<Rightarrow> area_core \<Rightarrow> u32 \<Rightarrow> u32 \<Rightarrow> stored_actor \<Rightarrow> bool" where
  "reached_by reg w core source k a \<longleftrightarrow>
     ac_actors core k = Some a \<and> sa_kind a = AkPlayer \<and> k \<noteq> source \<and>
     (\<exists>h. r_get k reg = Some h \<and> h_session_id h \<in> w_clients w)"

definition delivered :: "registry \<Rightarrow> u8 list \<Rightarrow> u32 \<Rightarrow> u32 \<times> u8 list" where
  "delivered reg bytes k =
     (let sid = h_session_id (the (r_get k reg)) in (sid, fst (stamp_target_id_if_zero bytes sid)))"

lemma send_stamped_eq:
  "send_stamped reg w bytes k =
     (if \<exists>h. r_get k reg = Some h \<and> h_session_id h \<in> w_clients w then Some (delivered reg bytes k) else None)"
  by (auto simp: send_stamped_def delivered_def Let_def split: option.split)

lemma map_filter_if:
  "List.map_filter (\<lambda>k. if P k then Some (f k) else None) xs = map f (filter P xs)"
  by (simp add: List.map_filter_def comp_def)

text \<open>
  C20: A broadcast in a zone that is not isolated reaches exactly the right clients. It sends one
  packet per recipient, and a player receives it if and only if it is stored within one cell of the
  source in the area the source's session is routed to, is not the source, is registered and has a
  client; in particular every such player whose coordinates differ from the source's by at most 50 on
  both axes receives it. Untargeted subpackets carry the recipient's session id.
\<close>

theorem broadcast_exact:
  assumes open_zone: "\<not> ac_is_isolated (z_core z)" "\<not> ac_is_isolated (broadcast_core source reg w z)"
    and wf: "area_wf (broadcast_core source reg w z)"
    and src: "ac_actors (broadcast_core source reg w z) source = Some p"
  shows "\<exists>ks. distinct ks \<and> broadcast_around_actor reg w z source bytes = map (delivered reg bytes) ks \<and>
    (\<forall>k. k \<in> set ks \<longleftrightarrow>
       (\<exists>a. reached_by reg w (broadcast_core source reg w z) source k a \<and> cells_within 1 (sa_grid p) (sa_grid a))) \<and>
    (\<forall>k a. reached_by reg w (broadcast_core source reg w z) source k a \<and>
       position_close 50 (sa_position p) (sa_position a) \<longrightarrow> k \<in> set ks)"
proof -
  let ?core = "broadcast_core source reg w z"
  define near where "near = actors_around source 1 ?core"
  define has_client where "has_client k \<longleftrightarrow> (\<exists>h. r_get k reg = Some h \<and> h_session_id h \<in> w_clients w)" for k
  define ks where "ks = filter has_client (map sa_actor_id (filter (\<lambda>a. sa_kind a = AkPlayer) near))"
  have near: "set near = {a. \<exists>k. visible_to (Some source) ?core k a \<and> cells_within 1 (sa_grid p) (sa_grid a)}"
    "distinct (map sa_actor_id near)"
    unfolding near_def using set_actors_around [OF wf src, of 1] by simp_all
  have "distinct ks" unfolding ks_def using near(2) by (simp add: distinct_map_filter)
  moreover have "broadcast_around_actor reg w z source bytes = map (delivered reg bytes) ks"
    using open_zone(1) unfolding broadcast_around_actor_def Let_def BROADCAST_RADIUS_CELLS_def near_def [symmetric]
      send_stamped_eq [abs_def] has_client_def [symmetric] map_filter_if ks_def by simp
  moreover have mem: "k \<in> set ks \<longleftrightarrow> (\<exists>a. reached_by reg w ?core source k a \<and> cells_within 1 (sa_grid p) (sa_grid a))" for k
  proof -
    have ident: "sa_actor_id a = j" if "ac_actors ?core j = Some a" for a j
      using area_wfD(3) [OF wf that] by (simp add: actor_ok_def)
    have "k \<in> set ks \<longleftrightarrow> has_client k \<and> (\<exists>a \<in> set near. sa_kind a = AkPlayer \<and> sa_actor_id a = k)"
      unfolding ks_def by auto
    also have "\<dots> \<longleftrightarrow> (\<exists>a. reached_by reg w ?core source k a \<and> cells_within 1 (sa_grid p) (sa_grid a))"
      unfolding near(1) reached_by_def has_client_def visible_to_def using ident open_zone(2) by auto
    finally show ?thesis .
  qed
  moreover have "k \<in> set ks"
    if "reached_by reg w ?core source k a \<and> position_close 50 (sa_position p) (sa_position a)" for k a
    unfolding mem using that position_close_cells [OF wf src, of k a 1] by (auto simp: reached_by_def)
  ultimately show ?thesis by blast
qed

definition demo_registry :: registry where
  "demo_registry = r_insert (h_new 8 TagPlayer 100 43) (r_insert (h_new 7 TagPlayer 100 42) r_new)"

definition demo_zone_players :: zone where
  "demo_zone_players = demo_zone\<lparr>z_core := demo_area2\<rparr>"

theorem broadcast_exact_witness:
  "\<exists>ks. broadcast_around_actor demo_registry demo_world demo_zone_players 7 [1, 2] = map (delivered demo_registry [1, 2]) ks \<and>
     8 \<in> set ks"
proof -
  have core: "broadcast_core 7 demo_registry demo_world demo_zone_players = demo_area2"
    by (simp add: broadcast_core_def source_private_area_def demo_registry_def r_insert_eq r_new_def r_get_def h_new_def
        demo_session_def session_new_def demo_zone_players_def)
  have iso: "\<not> ac_is_isolated (z_core demo_zone_players)" by (simp add: demo_zone_players_def demo_area2_actors)
  have "reached_by demo_registry demo_world demo_area2 7 8 (the (ac_actors demo_area2 8))"
    by (simp add: reached_by_def demo_area2_actors demo_registry_def r_insert_eq r_new_def r_get_def h_new_def)
  moreover have "position_close 50 (sa_position (the (ac_actors demo_area2 7))) (sa_position (the (ac_actors demo_area2 8)))"
    by (simp add: demo_area2_actors demo_positions_close)
  moreover note broadcast_exact [where source = 7 and reg = demo_registry and w = demo_world and bytes = "[1, 2]",
      OF iso, unfolded core, OF demo_area2_actors(3) wf_demo_area2 demo_area2_actors(1)]
  ultimately show ?thesis unfolding demo_area2_actors(1) option.sel by meson
qed

section \<open>Projections that stay\<close>

lemma move_in_core_other: "j \<noteq> k \<Longrightarrow> ac_actors (move_in_core k pos c) j = ac_actors c j"
  by (auto simp: move_in_core_def update_actor_position_def Let_def split: option.split)



end
