(* ===== verification/WorldWire.thy ===== *)
theory WorldWire
  imports SubPacket Utils
begin

text \<open>
  The control packets between a map server and the world server: the builders of
  \<open>map-server/src/packets/send/world_packets.rs\<close> (and the two of \<open>handshake.rs\<close> the map server really sends)
  against the parsers of \<open>world-server/src/packets/receive.rs\<close>. A builder writes through a cursor on a
  zero-filled body and panics when the body is full; a parser reads through a cursor and errs when the
  data ends. The last section is the type test by which the world server's zone reader routes.
\<close>

section \<open>Writing through a cursor\<close>

datatype write_op = Put "u8 list" | Seek nat

fun run_write :: "write_op \<Rightarrow> u8 list \<times> nat \<Rightarrow> (unit, u8 list \<times> nat) outcome" where
  "run_write (Put bs) (buf, pos) =
     bind_outcome (copy_from_slice buf pos bs) (\<lambda>buf'. Ok (buf', pos + length bs))"
| "run_write (Seek p) (buf, pos) = Ok (buf, p)"

fun run_writes :: "write_op list \<Rightarrow> u8 list \<times> nat \<Rightarrow> (unit, u8 list) outcome" where
  "run_writes [] c = Ok (fst c)"
| "run_writes (op # ops) c = bind_outcome (run_write op c) (run_writes ops)"

definition body :: "nat \<Rightarrow> u8 list" where
  "body total_packet_size = replicate (total_packet_size - 0x20) 0"

definition padded_ascii :: "u8 list \<Rightarrow> nat \<Rightarrow> u8 list" where
  "padded_ascii s width = take width s @ replicate (width - length s) 0"

definition flag_u16 :: "bool \<Rightarrow> u8 list" where
  "flag_u16 b = le_bytes 2 (if b then 1 else 0 :: u16)"

section \<open>Builders\<close>

definition OP_SESSION_BEGIN :: u16 where "OP_SESSION_BEGIN = 0x1000"
definition OP_SESSION_END :: u16 where "OP_SESSION_END = 0x1001"
definition OP_WORLD_ZONE_CHANGE_REQUEST :: u16 where "OP_WORLD_ZONE_CHANGE_REQUEST = 0x1002"
definition OP_WORLD_PARTY_MODIFY :: u16 where "OP_WORLD_PARTY_MODIFY = 0x1020"
definition OP_WORLD_PARTY_LEAVE :: u16 where "OP_WORLD_PARTY_LEAVE = 0x1021"
definition OP_WORLD_PARTY_INVITE :: u16 where "OP_WORLD_PARTY_INVITE = 0x1022"
definition OP_WORLD_GROUP_INVITE_RESULT :: u16 where "OP_WORLD_GROUP_INVITE_RESULT = 0x1023"
definition OP_WORLD_CREATE_LINKSHELL :: u16 where "OP_WORLD_CREATE_LINKSHELL = 0x1025"
definition OP_WORLD_MODIFY_LINKSHELL :: u16 where "OP_WORLD_MODIFY_LINKSHELL = 0x1026"
definition OP_WORLD_DELETE_LINKSHELL :: u16 where "OP_WORLD_DELETE_LINKSHELL = 0x1027"
definition OP_WORLD_LINKSHELL_CHANGE :: u16 where "OP_WORLD_LINKSHELL_CHANGE = 0x1028"
definition OP_WORLD_LINKSHELL_INVITE :: u16 where "OP_WORLD_LINKSHELL_INVITE = 0x1029"
definition OP_WORLD_LINKSHELL_INVITE_CANCEL :: u16 where "OP_WORLD_LINKSHELL_INVITE_CANCEL = 0x1030"
definition OP_WORLD_LINKSHELL_LEAVE :: u16 where "OP_WORLD_LINKSHELL_LEAVE = 0x1031"
definition OP_WORLD_LINKSHELL_RANK_CHANGE :: u16 where "OP_WORLD_LINKSHELL_RANK_CHANGE = 0x1032"

text \<open>\<open>SubPacket::new(op, session_id, data)\<close> over the finished body.\<close>

definition rpc_packet :: "u32 \<Rightarrow> u16 \<Rightarrow> u32 \<Rightarrow> nat \<Rightarrow> write_op list \<Rightarrow> (unit, subpacket) outcome" where
  "rpc_packet now op session_id total_size ops =
     bind_outcome (run_writes ops (body total_size, 0)) (\<lambda>data. Ok (subpacket_new now op session_id data))"

definition build_session_begin_confirm :: "u32 \<Rightarrow> u32 \<Rightarrow> u16 \<Rightarrow> (unit, subpacket) outcome" where
  "build_session_begin_confirm now session_id error_code =
     rpc_packet now OP_SESSION_BEGIN session_id 0x28 [Put (le_bytes 4 session_id), Put (le_bytes 2 error_code)]"

definition build_session_end_confirm :: "u32 \<Rightarrow> u32 \<Rightarrow> u32 \<Rightarrow> u16 \<Rightarrow> (unit, subpacket) outcome" where
  "build_session_end_confirm now session_id destination_zone error_code =
     rpc_packet now OP_SESSION_END session_id 0x30
       [Put (le_bytes 4 session_id), Put (le_bytes 2 error_code), Put (le_bytes 4 destination_zone)]"

definition build_world_request_zone_change ::
    "u32 \<Rightarrow> u32 \<Rightarrow> u32 \<Rightarrow> u8 \<Rightarrow> u32 \<Rightarrow> u32 \<Rightarrow> u32 \<Rightarrow> u32 \<Rightarrow> (unit, subpacket) outcome" where
  "build_world_request_zone_change now session_id destination_zone_id spawn_type x y z rotation =
     rpc_packet now OP_WORLD_ZONE_CHANGE_REQUEST session_id 0x48
       [Put (le_bytes 4 session_id), Put (le_bytes 4 destination_zone_id), Put (le_bytes 2 (ucast spawn_type :: u16)),
        Put (le_bytes 4 x), Put (le_bytes 4 y), Put (le_bytes 4 z), Put (le_bytes 4 rotation)]"

definition build_party_modify_by_name :: "u32 \<Rightarrow> u32 \<Rightarrow> u16 \<Rightarrow> u8 list \<Rightarrow> (unit, subpacket) outcome" where
  "build_party_modify_by_name now session_id command name =
     rpc_packet now OP_WORLD_PARTY_MODIFY session_id 0x48 [Put (le_bytes 2 command), Put (padded_ascii name 0x20)]"

definition build_party_modify_by_actor :: "u32 \<Rightarrow> u32 \<Rightarrow> u16 \<Rightarrow> u32 \<Rightarrow> (unit, subpacket) outcome" where
  "build_party_modify_by_actor now session_id command actor_id =
     rpc_packet now OP_WORLD_PARTY_MODIFY session_id 0x48 [Put (le_bytes 2 (command + 2)), Put (le_bytes 4 actor_id)]"

definition build_party_leave :: "u32 \<Rightarrow> u32 \<Rightarrow> bool \<Rightarrow> (unit, subpacket) outcome" where
  "build_party_leave now session_id is_disband =
     rpc_packet now OP_WORLD_PARTY_LEAVE session_id 0x28 [Put (flag_u16 is_disband)]"

definition build_party_invite_by_name :: "u32 \<Rightarrow> u32 \<Rightarrow> u8 list \<Rightarrow> (unit, subpacket) outcome" where
  "build_party_invite_by_name now session_id name =
     rpc_packet now OP_WORLD_PARTY_INVITE session_id 0x48 [Put (le_bytes 2 (0 :: u16)), Put (padded_ascii name 0x20)]"

definition build_party_invite_by_actor :: "u32 \<Rightarrow> u32 \<Rightarrow> u32 \<Rightarrow> (unit, subpacket) outcome" where
  "build_party_invite_by_actor now session_id actor_id =
     rpc_packet now OP_WORLD_PARTY_INVITE session_id 0x48 [Put (le_bytes 2 (1 :: u16)), Put (le_bytes 4 actor_id)]"

definition build_group_invite_result :: "u32 \<Rightarrow> u32 \<Rightarrow> u32 \<Rightarrow> u32 \<Rightarrow> (unit, subpacket) outcome" where
  "build_group_invite_result now session_id group_type result =
     rpc_packet now OP_WORLD_GROUP_INVITE_RESULT session_id 0x28 [Put (le_bytes 4 group_type), Put (le_bytes 4 result)]"

definition build_create_linkshell :: "u32 \<Rightarrow> u32 \<Rightarrow> u8 list \<Rightarrow> u16 \<Rightarrow> u32 \<Rightarrow> (unit, subpacket) outcome" where
  "build_create_linkshell now session_id name crest master =
     rpc_packet now OP_WORLD_CREATE_LINKSHELL session_id 0x48
       [Put (padded_ascii name 0x20), Seek 0x20, Put (le_bytes 2 crest), Put (le_bytes 4 master)]"

definition build_modify_linkshell ::
    "u32 \<Rightarrow> u32 \<Rightarrow> u16 \<Rightarrow> u8 list \<Rightarrow> u8 list \<Rightarrow> u16 \<Rightarrow> u32 \<Rightarrow> (unit, subpacket) outcome" where
  "build_modify_linkshell now session_id change_arg name new_name crest master =
     rpc_packet now OP_WORLD_MODIFY_LINKSHELL session_id 0x60
       ([Put (take 0x20 name), Put (le_bytes 2 change_arg)] @
        (if change_arg = 0 then [Put (take 0x20 new_name)]
         else if change_arg = 1 then [Put (le_bytes 2 crest)]
         else if change_arg = 2 then [Put (le_bytes 4 master)] else []))"

definition build_delete_linkshell :: "u32 \<Rightarrow> u32 \<Rightarrow> u8 list \<Rightarrow> (unit, subpacket) outcome" where
  "build_delete_linkshell now session_id name =
     rpc_packet now OP_WORLD_DELETE_LINKSHELL session_id 0x40 [Put (padded_ascii name 0x20)]"

definition build_linkshell_change :: "u32 \<Rightarrow> u32 \<Rightarrow> u8 list \<Rightarrow> (unit, subpacket) outcome" where
  "build_linkshell_change now session_id ls_name =
     rpc_packet now OP_WORLD_LINKSHELL_CHANGE session_id 0x48 [Put (padded_ascii ls_name 0x20)]"

definition build_linkshell_invite :: "u32 \<Rightarrow> u32 \<Rightarrow> u32 \<Rightarrow> u8 list \<Rightarrow> (unit, subpacket) outcome" where
  "build_linkshell_invite now session_id actor_id linkshell_name =
     rpc_packet now OP_WORLD_LINKSHELL_INVITE session_id 0x48
       [Put (le_bytes 4 actor_id), Put (padded_ascii linkshell_name 0x20)]"

definition build_linkshell_invite_cancel :: "u32 \<Rightarrow> u32 \<Rightarrow> (unit, subpacket) outcome" where
  "build_linkshell_invite_cancel now session_id = rpc_packet now OP_WORLD_LINKSHELL_INVITE_CANCEL session_id 0x28 []"

definition build_linkshell_leave :: "u32 \<Rightarrow> u32 \<Rightarrow> u8 list \<Rightarrow> u8 list option \<Rightarrow> bool \<Rightarrow> (unit, subpacket) outcome" where
  "build_linkshell_leave now session_id ls_name kicked_name is_kicked =
     rpc_packet now OP_WORLD_LINKSHELL_LEAVE session_id 0x68
       ([Put (flag_u16 is_kicked)] @
        (case kicked_name of Some k \<Rightarrow> if is_kicked then [Put (padded_ascii k 0x20)] else [] | None \<Rightarrow> []) @
        [Seek 0x22, Put (padded_ascii ls_name 0x20)])"

definition build_linkshell_rank_change :: "u32 \<Rightarrow> u32 \<Rightarrow> u8 list \<Rightarrow> u8 list \<Rightarrow> u8 \<Rightarrow> (unit, subpacket) outcome" where
  "build_linkshell_rank_change now session_id name ls_name rank =
     rpc_packet now OP_WORLD_LINKSHELL_RANK_CHANGE session_id 0x68
       [Put (padded_ascii name 0x20), Seek 0x20, Put (padded_ascii ls_name 0x20), Seek 0x40, Put [rank]]"

text \<open>The reply to a session end that the map server really sends (\<open>handshake.rs\<close>), a plain subpacket.\<close>

definition build_session_end :: "u32 \<Rightarrow> u32 \<Rightarrow> u16 \<Rightarrow> u32 \<Rightarrow> (unit, subpacket) outcome" where
  "build_session_end now session_id error_code destination_zone =
     bind_outcome (run_writes [Put (le_bytes 4 session_id), Put (le_bytes 2 error_code), Put (le_bytes 4 destination_zone)]
         (replicate 10 0, 0))
       (\<lambda>data. Ok (set_target_id (new_with_flag now False OP_SESSION_END session_id data) session_id))"

section \<open>Parsers\<close>

datatype world_packet =
    SessionBeginConfirm u32 u16
  | SessionEndConfirm u32 u16 u32
  | WorldRequestZoneChange u32 u32 u8 u32 u32 u32 u32
  | PartyModify u16 u32 "u8 list"
  | PartyLeave bool
  | PartyInvite u16 u32 "u8 list"
  | GroupInviteResult u32 u32
  | CreateLinkshell "u8 list" u16 u32
  | ModifyLinkshell "u8 list" u16 "u8 list" u16 u32
  | DeleteLinkshell "u8 list"
  | LinkshellChange "u8 list"
  | LinkshellInvite u32 "u8 list"
  | LinkshellLeave bool "u8 list" "u8 list"
  | LinkshellRankChange "u8 list" "u8 list" u8

definition read_le :: "nat \<Rightarrow> u8 list \<Rightarrow> (io_kind, 'a::len word \<times> u8 list) outcome" where
  "read_le n bs = bind_outcome (read_exact n bs) (\<lambda>(a, rest). Ok (le_word a, rest))"

definition read_fixed_string :: "u8 list \<Rightarrow> nat \<Rightarrow> (io_kind, u8 list \<times> u8 list) outcome" where
  "read_fixed_string c len =
     bind_outcome (read_exact len c) (\<lambda>(buf, rest). Ok (utf8_lossy (until_nul buf), rest))"

definition session_begin_confirm_parse :: "u8 list \<Rightarrow> (io_kind, world_packet) outcome" where
  "session_begin_confirm_parse data =
     bind_outcome (read_le 4 data) (\<lambda>(session_id, c). bind_outcome (read_le 2 c) (\<lambda>(error_code, c).
       Ok (SessionBeginConfirm session_id error_code)))"

definition session_end_confirm_parse :: "u8 list \<Rightarrow> (io_kind, world_packet) outcome" where
  "session_end_confirm_parse data =
     bind_outcome (read_le 4 data) (\<lambda>(session_id, c). bind_outcome (read_le 2 c) (\<lambda>(error_code, c).
       bind_outcome (read_le 4 c) (\<lambda>(destination_zone, c). Ok (SessionEndConfirm session_id error_code destination_zone))))"

definition world_request_zone_change_parse :: "u8 list \<Rightarrow> (io_kind, world_packet) outcome" where
  "world_request_zone_change_parse data =
     bind_outcome (read_le 4 data) (\<lambda>(session_id, c). bind_outcome (read_le 4 c) (\<lambda>(zone_id, c).
       bind_outcome (read_le 2 c) (\<lambda>(spawn_type :: u16, c). bind_outcome (read_le 4 c) (\<lambda>(x, c).
       bind_outcome (read_le 4 c) (\<lambda>(y, c). bind_outcome (read_le 4 c) (\<lambda>(z, c). bind_outcome (read_le 4 c) (\<lambda>(rot, c).
         Ok (WorldRequestZoneChange session_id zone_id (ucast spawn_type) x y z rot))))))))"

definition party_modify_parse :: "u8 list \<Rightarrow> (io_kind, world_packet) outcome" where
  "party_modify_parse data =
     bind_outcome (read_le 2 data) (\<lambda>(command, c).
       if 2 \<le> command then bind_outcome (read_le 4 c) (\<lambda>(actor_id, c). Ok (PartyModify command actor_id []))
       else bind_outcome (read_fixed_string c 0x20) (\<lambda>(name, c). Ok (PartyModify command 0 name)))"

definition party_leave_parse :: "u8 list \<Rightarrow> (io_kind, world_packet) outcome" where
  "party_leave_parse data = bind_outcome (read_le 1 data) (\<lambda>(flag :: u8, c). Ok (PartyLeave (flag = 1)))"

definition party_invite_parse :: "u8 list \<Rightarrow> (io_kind, world_packet) outcome" where
  "party_invite_parse data =
     bind_outcome (read_le 2 data) (\<lambda>(command, c).
       if command = 1 then bind_outcome (read_le 4 c) (\<lambda>(actor_id, c). Ok (PartyInvite command actor_id []))
       else bind_outcome (read_fixed_string c 0x20) (\<lambda>(name, c). Ok (PartyInvite command 0 name)))"

definition group_invite_result_parse :: "u8 list \<Rightarrow> (io_kind, world_packet) outcome" where
  "group_invite_result_parse data =
     bind_outcome (read_le 4 data) (\<lambda>(group_type, c). bind_outcome (read_le 4 c) (\<lambda>(result, c).
       Ok (GroupInviteResult group_type result)))"

definition create_linkshell_parse :: "u8 list \<Rightarrow> (io_kind, world_packet) outcome" where
  "create_linkshell_parse data =
     bind_outcome (read_fixed_string data 0x20) (\<lambda>(name, c). bind_outcome (read_le 2 c) (\<lambda>(crest_id, c).
       bind_outcome (read_le 4 c) (\<lambda>(master, c). Ok (CreateLinkshell name crest_id master))))"

definition modify_linkshell_parse :: "u8 list \<Rightarrow> (io_kind, world_packet) outcome" where
  "modify_linkshell_parse data =
     bind_outcome (read_fixed_string data 0x20) (\<lambda>(current_name, c). bind_outcome (read_le 2 c) (\<lambda>(arg_code, c).
       if arg_code = 0
       then bind_outcome (read_fixed_string c 0x20) (\<lambda>(new_name, c). Ok (ModifyLinkshell current_name arg_code new_name 0 0))
       else if arg_code = 1
       then bind_outcome (read_le 2 c) (\<lambda>(crest_id, c). Ok (ModifyLinkshell current_name arg_code [] crest_id 0))
       else if arg_code = 2
       then bind_outcome (read_le 4 c) (\<lambda>(master, c). Ok (ModifyLinkshell current_name arg_code [] 0 master))
       else Ok (ModifyLinkshell current_name arg_code [] 0 0)))"

definition delete_linkshell_parse :: "u8 list \<Rightarrow> (io_kind, world_packet) outcome" where
  "delete_linkshell_parse data = bind_outcome (read_fixed_string data 0x20) (\<lambda>(name, c). Ok (DeleteLinkshell name))"

definition linkshell_change_parse :: "u8 list \<Rightarrow> (io_kind, world_packet) outcome" where
  "linkshell_change_parse data = bind_outcome (read_fixed_string data 0x20) (\<lambda>(name, c). Ok (LinkshellChange name))"

definition linkshell_invite_parse :: "u8 list \<Rightarrow> (io_kind, world_packet) outcome" where
  "linkshell_invite_parse data =
     bind_outcome (read_le 4 data) (\<lambda>(actor_id, c). bind_outcome (read_fixed_string c 0x20) (\<lambda>(ls_name, c).
       Ok (LinkshellInvite actor_id ls_name)))"

definition linkshell_leave_parse :: "u8 list \<Rightarrow> (io_kind, world_packet) outcome" where
  "linkshell_leave_parse data =
     bind_outcome (read_le 2 data) (\<lambda>(flag :: u16, c). bind_outcome (read_fixed_string c 0x20) (\<lambda>(kicked_name, c).
       bind_outcome (read_fixed_string c 0x20) (\<lambda>(ls_name, c). Ok (LinkshellLeave (flag = 1) kicked_name ls_name))))"

definition linkshell_rank_change_parse :: "u8 list \<Rightarrow> (io_kind, world_packet) outcome" where
  "linkshell_rank_change_parse data =
     bind_outcome (read_fixed_string data 0x20) (\<lambda>(name, c). bind_outcome (read_fixed_string c 0x20) (\<lambda>(ls_name, c).
       bind_outcome (read_le 1 c) (\<lambda>(rank, c). Ok (LinkshellRankChange name ls_name rank))))"

section \<open>Routing at the world server\<close>

text \<open>What the zone reader of \<open>server.rs\<close> does with a subpacket, by its type and its target.\<close>

datatype zone_reply_route = ControlPacket | RelayToClient u32 | DropUntargeted

definition zone_reply_route :: "subpacket \<Rightarrow> zone_reply_route" where
  "zone_reply_route sub =
     (if 0x1000 \<le> sp_type (sp_header sub) then ControlPacket
      else if target_id (sp_header sub) = 0 then DropUntargeted
      else RelayToClient (target_id (sp_header sub)))"

end
