(* ===== verification/WorldWireLaws.thy ===== *)
theory WorldWireLaws
  imports WorldWire
begin

text \<open>
  The control packets survive the wire: the forward writes of a builder lay out a body that the world
  server's parser reads back to the same packet, except for the linkshell modification, whose name is not
  padded.
\<close>

section \<open>Forward writes\<close>

fun layout :: "write_op list \<Rightarrow> u8 list \<Rightarrow> u8 list" where
  "layout [] acc = acc"
| "layout (Put bs # ops) acc = layout ops (acc @ bs)"
| "layout (Seek p # ops) acc = layout ops (acc @ replicate (p - length acc) 0)"

fun forward_to :: "nat \<Rightarrow> write_op list \<Rightarrow> nat \<Rightarrow> bool" where
  "forward_to n [] pos \<longleftrightarrow> pos \<le> n"
| "forward_to n (Put bs # ops) pos \<longleftrightarrow> forward_to n ops (pos + length bs)"
| "forward_to n (Seek p # ops) pos \<longleftrightarrow> pos \<le> p \<and> forward_to n ops p"

lemma forward_to_bound: "forward_to n ops pos \<Longrightarrow> pos \<le> n"
  by (induction ops pos rule: forward_to.induct [of _ n]) auto

lemma overwrite_zeros:
  "length acc + length bs \<le> n \<Longrightarrow>
    overwrite (acc @ replicate (n - length acc) 0) (length acc) bs
      = (acc @ bs) @ replicate (n - length (acc @ bs)) 0"
  by (simp add: overwrite_def)

lemma run_writes_forward:
  "forward_to n ops (length acc) \<Longrightarrow>
    run_writes ops (acc @ replicate (n - length acc) 0, length acc)
      = Ok (layout ops acc @ replicate (n - length (layout ops acc)) 0)"
proof (induction ops acc rule: layout.induct)
  case (2 bs ops acc)
  from 2(2) forward_to_bound have "length acc + length bs \<le> n" by fastforce
  with 2 show ?case
    by (simp add: copy_from_slice_def overwrite_zeros del: append_assoc)
next
  case (3 p ops acc)
  from 3(2) forward_to_bound have le: "length acc \<le> p" "p \<le> n" by auto
  then have "acc @ replicate (n - length acc) 0
      = (acc @ replicate (p - length acc) 0) @ replicate (n - length (acc @ replicate (p - length acc) 0)) (0 :: u8)"
    by (simp add: replicate_add [symmetric])
  with 3 le show ?case by (simp del: append_assoc)
qed simp

lemma rpc_packet_forward:
  "forward_to (sz - 0x20) ops 0 \<Longrightarrow>
    rpc_packet now op session_id sz ops
      = Ok (subpacket_new now op session_id (layout ops [] @ replicate (sz - 0x20 - length (layout ops [])) 0))"
  using run_writes_forward [of "sz - 0x20" ops "[]"] by (simp add: rpc_packet_def body_def)

section \<open>Names\<close>

definition wire_name :: "u8 list \<Rightarrow> bool" where
  "wire_name s \<longleftrightarrow> length s \<le> 0x20 \<and> 0 \<notin> set s \<and> utf8_valid s"

lemma length_padded_ascii [simp]: "length (padded_ascii s n) = n"
  by (simp add: padded_ascii_def)

lemma until_nul_padded: "0 \<notin> set s \<Longrightarrow> until_nul (s @ replicate k 0) = s"
  unfolding until_nul_def by (induction s) (cases k; auto)+

lemma read_fixed_padded [simp]:
  "wire_name s \<Longrightarrow> read_fixed_string (padded_ascii s 0x20 @ rest) 0x20 = Ok (s, rest)"
  by (simp add: read_fixed_string_def wire_name_def) (simp add: padded_ascii_def until_nul_padded)

lemma read_fixed_padded_end [simp]:
  "wire_name s \<Longrightarrow> read_fixed_string (padded_ascii s 0x20) 0x20 = Ok (s, [])"
  using read_fixed_padded [of s "[]"] by simp

lemma until_nul_zeros [simp]: "until_nul (replicate k 0) = []"
  by (cases k) (simp_all add: until_nul_def)

lemma read_fixed_zeros [simp]:
  "read_fixed_string (replicate 0x20 0 @ rest) 0x20 = Ok ([], rest)"
  by (simp add: read_fixed_string_def)

lemma read_le_bytes [simp]:
  "LENGTH('a) = 8 * n \<Longrightarrow> read_le n (le_bytes n (w :: 'a::len word) @ rest) = Ok (w, rest)"
  by (simp add: read_le_def)


lemma read_le_bytes_end [simp]:
  "LENGTH('a) = 8 * n \<Longrightarrow> read_le n (le_bytes n (w :: 'a::len word)) = Ok (w, [])"
  using read_le_bytes [of n w "[]"] by simp

section \<open>What a built packet carries\<close>

definition carries ::
    "(unit, subpacket) outcome \<Rightarrow> (u8 list \<Rightarrow> (io_kind, world_packet) outcome) \<Rightarrow> world_packet \<Rightarrow> bool" where
  "carries built parse p \<longleftrightarrow> (case built of Ok sub \<Rightarrow> parse (sp_data sub) = Ok p | _ \<Rightarrow> False)"

lemma sp_data_new [simp]: "sp_data (subpacket_new now op source data) = data"
  by (simp add: subpacket_new_def new_with_flag_def Let_def)

lemma carries_rpc:
  "forward_to (sz - 0x20) ops 0 \<Longrightarrow>
    carries (rpc_packet now op session_id sz ops) parse p \<longleftrightarrow>
      parse (layout ops [] @ replicate (sz - 0x20 - length (layout ops [])) 0) = Ok p"
  by (simp add: carries_def rpc_packet_forward)

lemma ucast_u8_u16 [simp]: "ucast (ucast (w :: u8) :: u16) = w"
  by (rule bit_word_eqI) (simp add: bit_ucast_iff)

lemma read_exact_short: "length bs < n \<Longrightarrow> read_exact n bs = Err UnexpectedEof"
  by (simp add: read_exact_def)

lemma less_2_cases_u16: "\<not> 2 \<le> (w :: u16) \<Longrightarrow> w = 0 \<or> w = 1"
  by (simp add: word_le_nat_alt word_unat_eq_iff) arith

lemma session_rpcs_roundtrip:
  "carries (build_session_begin_confirm now session_id error) session_begin_confirm_parse (SessionBeginConfirm session_id error)"
  "carries (build_session_end_confirm now session_id dest error) session_end_confirm_parse
     (SessionEndConfirm session_id error dest)"
  "carries (build_world_request_zone_change now session_id zone sty x y z r) world_request_zone_change_parse
     (WorldRequestZoneChange session_id zone sty x y z r)"
  by (simp_all add: build_session_begin_confirm_def build_session_end_confirm_def build_world_request_zone_change_def
    carries_rpc session_begin_confirm_parse_def session_end_confirm_parse_def world_request_zone_change_parse_def
   )

lemma flag_u16_split: "flag_u16 b = (if b then 1 else 0) # [0]"
  by (simp add: flag_u16_def endian_eval numeral_2_eq_2)

lemma read_le_Cons1 [simp]: "read_le (Suc 0) (b # rest) = Ok ((ucast b :: 'a::len word), rest)"
  by (simp add: read_le_def read_exact_def endian_eval)

lemma read_flag_u16 [simp]:
  "read_le 2 (flag_u16 b @ rest) = Ok ((if b then 1 else 0) :: u16, rest)"
  by (simp add: flag_u16_def)

lemma length_flag_u16 [simp]: "length (flag_u16 b) = 2"
  by (simp add: flag_u16_def)

lemma party_rpcs_roundtrip:
  "wire_name name \<Longrightarrow> \<not> 2 \<le> command \<Longrightarrow>
    carries (build_party_modify_by_name now session_id command name) party_modify_parse (PartyModify command 0 name)"
  "command + 2 \<ge> 2 \<Longrightarrow>
    carries (build_party_modify_by_actor now session_id command actor_id) party_modify_parse (PartyModify (command + 2) actor_id [])"
  "carries (build_party_leave now session_id disband) party_leave_parse (PartyLeave disband)"
  "wire_name name \<Longrightarrow>
    carries (build_party_invite_by_name now session_id name) party_invite_parse (PartyInvite 0 0 name)"
  "carries (build_party_invite_by_actor now session_id actor_id) party_invite_parse (PartyInvite 1 actor_id [])"
  "carries (build_group_invite_result now session_id group_type result) group_invite_result_parse
     (GroupInviteResult group_type result)"
  by (simp_all add: build_party_modify_by_name_def build_party_modify_by_actor_def build_party_leave_def
    build_party_invite_by_name_def build_party_invite_by_actor_def build_group_invite_result_def
    carries_rpc party_modify_parse_def party_leave_parse_def party_invite_parse_def group_invite_result_parse_def
    flag_u16_split [where b = disband])

lemma linkshell_rpcs_roundtrip:
  assumes "wire_name name" and "wire_name ls_name"
  shows "carries (build_create_linkshell now session_id name crest master) create_linkshell_parse
           (CreateLinkshell name crest master)"
    and "carries (build_delete_linkshell now session_id name) delete_linkshell_parse (DeleteLinkshell name)"
    and "carries (build_linkshell_change now session_id name) linkshell_change_parse (LinkshellChange name)"
    and "carries (build_linkshell_invite now session_id actor_id name) linkshell_invite_parse (LinkshellInvite actor_id name)"
    and "carries (build_linkshell_leave now session_id ls_name (Some name) True) linkshell_leave_parse
           (LinkshellLeave True name ls_name)"
    and "carries (build_linkshell_leave now session_id ls_name kicked False) linkshell_leave_parse
           (LinkshellLeave False [] ls_name)"
    and "carries (build_linkshell_rank_change now session_id name ls_name rank) linkshell_rank_change_parse
           (LinkshellRankChange name ls_name rank)"
  using assms
  by (simp_all add: build_create_linkshell_def build_delete_linkshell_def build_linkshell_change_def
    build_linkshell_invite_def build_linkshell_leave_def build_linkshell_rank_change_def carries_rpc
    create_linkshell_parse_def delete_linkshell_parse_def linkshell_change_parse_def linkshell_invite_parse_def
    linkshell_leave_parse_def linkshell_rank_change_parse_def split: option.split)


section \<open>The linkshell modification\<close>

lemma modify_parse_zero_selector:
  assumes "length data = 64" and "data ! 32 = 0" and "data ! 33 = 0"
  shows "modify_linkshell_parse data = Err UnexpectedEof"
proof -
  have d: "drop 32 data = 0 # 0 # drop 34 data"
    using assms take_Suc_drop [of 32 data] take_Suc_drop [of 33 data] by simp
  have "read_le 2 (drop 32 data) = Ok (0 :: u16, drop 34 data)"
    by (simp add: d read_le_def read_exact_def endian_eval numeral_2_eq_2)
  moreover have "read_fixed_string (drop 34 data) 0x20 = Err UnexpectedEof"
    using assms(1) by (simp add: read_fixed_string_def read_exact_def)
  moreover have "read_fixed_string data 0x20 = Ok (utf8_lossy (until_nul (take 32 data)), drop 32 data)"
    using assms(1) by (simp add: read_fixed_string_def read_exact_def)
  ultimately show ?thesis by (simp add: modify_linkshell_parse_def)
qed

definition modify_payload_len :: "u16 \<Rightarrow> u8 list \<Rightarrow> nat" where
  "modify_payload_len change_arg new_name =
     (if change_arg = 0 then min 0x20 (length new_name) else if change_arg = 1 then 2
      else if change_arg = 2 then 4 else 0)"

lemma modify_layout:
  assumes "length name + 2 + modify_payload_len change_arg new_name \<le> 64" and "length name \<le> 32"
  obtains sub pre where "build_modify_linkshell now session_id change_arg name new_name crest master = Ok sub"
    and "sp_data sub = pre @ replicate (64 - length pre) 0"
    and "length pre = length name + 2 + modify_payload_len change_arg new_name"
  using assms that
  by (cases "change_arg = 0"; cases "change_arg = 1"; cases "change_arg = 2")
     (simp_all add: build_modify_linkshell_def rpc_packet_forward modify_payload_len_def min.commute)

lemma modify_short_name_rejected:
  assumes "length name + 2 + modify_payload_len change_arg new_name \<le> 32"
  shows "\<exists>sub. build_modify_linkshell now session_id change_arg name new_name crest master = Ok sub
    \<and> modify_linkshell_parse (sp_data sub) = Err UnexpectedEof"
proof -
  have "length name + 2 + modify_payload_len change_arg new_name \<le> 64" "length name \<le> 32"
    using assms by simp_all
  then obtain sub pre where sub: "build_modify_linkshell now session_id change_arg name new_name crest master = Ok sub"
    "sp_data sub = pre @ replicate (64 - length pre) 0"
    "length pre = length name + 2 + modify_payload_len change_arg new_name"
    by (rule modify_layout)
  then have "modify_linkshell_parse (sp_data sub) = Err UnexpectedEof"
    using assms by (intro modify_parse_zero_selector) (simp_all add: nth_append)
  with sub(1) show ?thesis by blast
qed

lemma modify_full_name_crest:
  assumes "wire_name name" and "length name = 0x20"
  shows "carries (build_modify_linkshell now session_id 1 name new_name crest master) modify_linkshell_parse
    (ModifyLinkshell name 1 [] crest 0)"
proof -
  have "padded_ascii name 0x20 = name" using assms(2) by (simp add: padded_ascii_def)
  then have "read_fixed_string (name @ rest) 0x20 = Ok (name, rest)" for rest
    using read_fixed_padded [OF assms(1), of rest] by simp
  with assms(2) show ?thesis
    by (simp add: build_modify_linkshell_def carries_rpc modify_linkshell_parse_def)
qed

section \<open>Properties\<close>



text \<open>
  A linkshell modification is only readable when the linkshell's name fills its 32-byte field. Whenever
  the name, the selector and the payload fit into the first 32 bytes, the selector the parser reads is zero
  whatever was asked, so a change of crest or master is taken for a rename, and the rename runs out of data;
  with a name of exactly 32 bytes a change of crest arrives.
\<close>

lemma modify_linkshell_needs_full_name:
  "(length name + 2 + modify_payload_len change_arg new_name \<le> 32 \<longrightarrow>
      (\<exists>sub. build_modify_linkshell now sid change_arg name new_name crest master = Ok sub
        \<and> modify_linkshell_parse (sp_data sub) = Err UnexpectedEof))
   \<and> (wire_name name \<and> length name = 0x20 \<longrightarrow>
      carries (build_modify_linkshell now sid 1 name new_name crest master) modify_linkshell_parse
        (ModifyLinkshell name 1 [] crest 0))"
  using modify_short_name_rejected modify_full_name_crest by blast

lemma modify_linkshell_needs_full_name_witness:
  "\<exists>sub. build_modify_linkshell 0 1 1 [88] [] 0x1234 0 = Ok sub \<and> modify_linkshell_parse (sp_data sub) = Err UnexpectedEof"
  using modify_linkshell_needs_full_name [of "[88]" 1 "[]" 0 1 "0x1234" 0] by (simp add: modify_payload_len_def)

end
