(* ===== verification/WorldGroups.thy ===== *)
theory WorldGroups
  imports Prelude
begin

text \<open>
  The groups of the world server (\<open>world-server/src/group.rs\<close>), their managers
  (\<open>managers.rs\<close>) and the linkshell tables behind them (the queries of \<open>database.rs\<close>, on the schema of
  \<open>common/sql/schema.sql\<close>). A manager is the contents of its mutex, an operation one critical section;
  the allocator of group ids is threaded. A database call that fails is told by \<open>down\<close>, which names the
  calls that fail while an operation runs; what an error carries is not inspected by any caller, so a failed
  call is \<open>None\<close>.
\<close>

section \<open>Group headers\<close>

definition PARTY_TYPE :: u16 where "PARTY_TYPE = 0x2711"
definition LINKSHELL_TYPE :: u16 where "LINKSHELL_TYPE = 0x2712"
definition RETAINER_TYPE :: u16 where "RETAINER_TYPE = 0x2713"
definition RELATION_TYPE :: u16 where "RELATION_TYPE = 0x2714"

record group_header =
  gh_group_id :: u64
  gh_group_type :: u16
  gh_max_members :: u16

definition FIRST_GROUP_ID :: u64 where "FIRST_GROUP_ID = 0xA0000000"

text \<open>\<open>alloc_group_id\<close>: the id handed out, and the counter after it.\<close>

definition alloc_group_id :: "u64 \<Rightarrow> u64 \<times> u64" where
  "alloc_group_id next_id = (next_id, next_id + 1)"

section \<open>Parties\<close>

record party =
  pt_header :: group_header
  pt_owner :: u32
  pt_leader :: u32
  pt_members :: "u32 list"

definition PARTY_MAX_MEMBERS :: u16 where "PARTY_MAX_MEMBERS = 8"

definition party_new :: "u64 \<Rightarrow> u32 \<Rightarrow> party" where
  "party_new group_id owner =
     \<lparr>pt_header = \<lparr>gh_group_id = group_id, gh_group_type = PARTY_TYPE, gh_max_members = PARTY_MAX_MEMBERS\<rparr>,
      pt_owner = owner, pt_leader = owner, pt_members = [owner]\<rparr>"

definition party_member_count :: "party \<Rightarrow> nat" where
  "party_member_count p = length (pt_members p)"

definition party_add_member :: "party \<Rightarrow> u32 \<Rightarrow> party" where
  "party_add_member p session_id =
     (if session_id \<in> set (pt_members p) then p else p\<lparr>pt_members := pt_members p @ [session_id]\<rparr>)"

definition first_or_zero :: "u32 list \<Rightarrow> u32" where
  "first_or_zero xs = (case xs of [] \<Rightarrow> 0 | x # _ \<Rightarrow> x)"

definition party_remove_member :: "party \<Rightarrow> u32 \<Rightarrow> party \<times> bool" where
  "party_remove_member p session_id =
     (if session_id \<in> set (pt_members p)
      then let ms = remove1 session_id (pt_members p)
           in (p\<lparr>pt_members := ms, pt_leader := (if pt_leader p = session_id then first_or_zero ms else pt_leader p)\<rparr>, True)
      else (p, False))"

type_synonym party_manager = "u32 \<rightharpoonup> party"

definition pm_get_party :: "party_manager \<Rightarrow> u32 \<Rightarrow> party option" where
  "pm_get_party m session_id = m session_id"

definition pm_ensure_party :: "u64 \<Rightarrow> party_manager \<Rightarrow> u32 \<Rightarrow> u64 \<times> party_manager \<times> party" where
  "pm_ensure_party next_id m owner =
     (case m owner of
        Some p \<Rightarrow> (next_id, m, p)
      | None \<Rightarrow> (let (gid, next_id') = alloc_group_id next_id; p = party_new gid owner
                in (next_id', m(owner \<mapsto> p), p)))"

definition pm_add_member :: "party_manager \<Rightarrow> u32 \<Rightarrow> u32 \<Rightarrow> party_manager" where
  "pm_add_member m owner new_member =
     (case m owner of Some p \<Rightarrow> m(owner \<mapsto> party_add_member p new_member) | None \<Rightarrow> m)"

definition pm_remove_member :: "party_manager \<Rightarrow> u32 \<Rightarrow> u32 \<Rightarrow> party_manager \<times> bool" where
  "pm_remove_member m owner removed =
     (case m owner of
        Some p \<Rightarrow> (let (p', r) = party_remove_member p removed in (m(owner \<mapsto> p'), r))
      | None \<Rightarrow> (m, False))"

definition pm_disband :: "party_manager \<Rightarrow> u32 \<Rightarrow> party_manager" where
  "pm_disband m owner = m(owner := None)"

section \<open>Linkshells\<close>

record linkshell_member =
  lm_character_id :: u32
  lm_linkshell_id :: u64
  lm_rank :: u8

record linkshell =
  lk_header :: group_header
  lk_db_id :: u64
  lk_name :: "u8 list"
  lk_crest :: u16
  lk_master :: u32
  lk_rank :: u8
  lk_members :: "linkshell_member list"

definition LINKSHELL_MAX_MEMBERS :: u16 where "LINKSHELL_MAX_MEMBERS = 128"
definition RANK_MASTER :: u8 where "RANK_MASTER = 0x0A"
definition RANK_LEADER :: u8 where "RANK_LEADER = 0x02"
definition RANK_MEMBER :: u8 where "RANK_MEMBER = 0x01"

definition linkshell_new :: "u64 \<Rightarrow> u64 \<Rightarrow> u8 list \<Rightarrow> u16 \<Rightarrow> u32 \<Rightarrow> u8 \<Rightarrow> linkshell" where
  "linkshell_new db_id group_id name crest master rank =
     \<lparr>lk_header = \<lparr>gh_group_id = group_id, gh_group_type = LINKSHELL_TYPE, gh_max_members = LINKSHELL_MAX_MEMBERS\<rparr>,
      lk_db_id = db_id, lk_name = name, lk_crest = crest, lk_master = master, lk_rank = rank, lk_members = []\<rparr>"

section \<open>The tables\<close>

record linkshell_row =
  lr_id :: u64
  lr_name :: "u8 list"
  lr_crest_icon :: u16
  lr_master :: u32
  lr_rank :: u8

record chara_row =
  cr_id :: u32
  cr_name :: "u8 list"
  cr_current_zone_id :: u32
  cr_active_linkshell :: "u8 list"

text \<open>
  \<open>wd_sequence\<close> is the autoincrement counter of \<open>server_linkshells\<close>, the largest id handed out so far;
  \<open>characters_linkshells\<close> has the pair of ids for its primary key.
\<close>

record world_db =
  wd_linkshells :: "linkshell_row list"
  wd_sequence :: u64
  wd_members :: "linkshell_member list"
  wd_characters :: "chara_row list"

datatype db_call =
    QLinkshellExists | QLinkshellByName | QLinkshellMembers | QCreateLinkshell | QAddPlayer | QRemovePlayer
  | QChangeCrest | QChangeRank | QCharacterByName | QSetActiveLinkshell | QSessionInfo

type_synonym db_down = "db_call \<Rightarrow> bool"

definition db_linkshell_exists :: "db_down \<Rightarrow> world_db \<Rightarrow> u8 list \<Rightarrow> bool option" where
  "db_linkshell_exists down db name =
     (if down QLinkshellExists then None else Some (name \<in> lr_name ` set (wd_linkshells db)))"

definition db_linkshell_by_name :: "db_down \<Rightarrow> world_db \<Rightarrow> u64 \<Rightarrow> u8 list \<Rightarrow> linkshell option option" where
  "db_linkshell_by_name down db group_index ls_name =
     (if down QLinkshellByName then None
      else Some (map_option
        (\<lambda>r. linkshell_new (lr_id r) group_index (lr_name r) (lr_crest_icon r) (lr_master r) RANK_MASTER)
        (find (\<lambda>r. lr_name r = ls_name) (wd_linkshells db))))"

definition db_ls_members :: "db_down \<Rightarrow> world_db \<Rightarrow> u64 \<Rightarrow> linkshell_member list option" where
  "db_ls_members down db ls_id =
     (if down QLinkshellMembers then None
      else Some (sort_key lm_character_id (filter (\<lambda>m. lm_linkshell_id m = ls_id) (wd_members db))))"

definition db_create_linkshell :: "db_down \<Rightarrow> world_db \<Rightarrow> u8 list \<Rightarrow> u16 \<Rightarrow> u32 \<Rightarrow> (u64 \<times> world_db) option" where
  "db_create_linkshell down db name crest master =
     (if down QCreateLinkshell \<or> name \<in> lr_name ` set (wd_linkshells db) \<or> 0x7FFFFFFFFFFFFFFF \<le> wd_sequence db then None
      else let i = wd_sequence db + 1
           in Some (i, db\<lparr>wd_sequence := i,
                wd_linkshells := wd_linkshells db @
                  [\<lparr>lr_id = i, lr_name = name, lr_crest_icon = crest, lr_master = master, lr_rank = RANK_MASTER\<rparr>]\<rparr>))"

definition same_membership :: "u32 \<Rightarrow> u64 \<Rightarrow> linkshell_member \<Rightarrow> bool" where
  "same_membership chara_id ls_id m \<longleftrightarrow> lm_character_id m = chara_id \<and> lm_linkshell_id m = ls_id"

definition set_rank_where :: "u32 \<Rightarrow> u64 \<Rightarrow> u8 \<Rightarrow> linkshell_member list \<Rightarrow> linkshell_member list" where
  "set_rank_where chara_id ls_id rank ms =
     map (\<lambda>m. if same_membership chara_id ls_id m then m\<lparr>lm_rank := rank\<rparr> else m) ms"

definition db_add_player :: "db_down \<Rightarrow> world_db \<Rightarrow> u64 \<Rightarrow> u32 \<Rightarrow> u8 \<Rightarrow> world_db option" where
  "db_add_player down db ls_id chara_id rank =
     (if down QAddPlayer then None
      else Some (db\<lparr>wd_members :=
        (if \<exists>m \<in> set (wd_members db). same_membership chara_id ls_id m
         then set_rank_where chara_id ls_id rank (wd_members db)
         else wd_members db @ [\<lparr>lm_character_id = chara_id, lm_linkshell_id = ls_id, lm_rank = rank\<rparr>])\<rparr>))"

definition db_remove_player :: "db_down \<Rightarrow> world_db \<Rightarrow> u64 \<Rightarrow> u32 \<Rightarrow> world_db option" where
  "db_remove_player down db ls_id chara_id =
     (if down QRemovePlayer then None
      else Some (db\<lparr>wd_members := filter (\<lambda>m. \<not> same_membership chara_id ls_id m) (wd_members db)\<rparr>))"

definition db_change_crest :: "db_down \<Rightarrow> world_db \<Rightarrow> u64 \<Rightarrow> u16 \<Rightarrow> world_db option" where
  "db_change_crest down db ls_id crest =
     (if down QChangeCrest then None
      else Some (db\<lparr>wd_linkshells := map (\<lambda>r. if lr_id r = ls_id then r\<lparr>lr_crest_icon := crest\<rparr> else r) (wd_linkshells db)\<rparr>))"

definition db_change_rank :: "db_down \<Rightarrow> world_db \<Rightarrow> u64 \<Rightarrow> u32 \<Rightarrow> u8 \<Rightarrow> world_db option" where
  "db_change_rank down db ls_id chara_id rank =
     (if down QChangeRank then None
      else Some (db\<lparr>wd_members := set_rank_where chara_id ls_id rank (wd_members db)\<rparr>))"

definition db_character_id_by_name :: "db_down \<Rightarrow> world_db \<Rightarrow> u8 list \<Rightarrow> u32 option option" where
  "db_character_id_by_name down db name =
     (if down QCharacterByName then None
      else Some (map_option cr_id (find (\<lambda>r. cr_name r = name) (wd_characters db))))"

definition db_set_active_ls :: "db_down \<Rightarrow> world_db \<Rightarrow> u32 \<Rightarrow> u8 list \<Rightarrow> world_db option" where
  "db_set_active_ls down db chara_id name =
     (if down QSetActiveLinkshell then None
      else Some (db\<lparr>wd_characters :=
        map (\<lambda>r. if cr_id r = chara_id then r\<lparr>cr_active_linkshell := name\<rparr> else r) (wd_characters db)\<rparr>))"

text \<open>\<open>load_zone_session_info\<close>: the fields the hello handler takes over.\<close>

definition db_session_info :: "db_down \<Rightarrow> world_db \<Rightarrow> u32 \<Rightarrow> chara_row option option" where
  "db_session_info down db session_id =
     (if down QSessionInfo then None else Some (find (\<lambda>r. cr_id r = session_id) (wd_characters db)))"

section \<open>The linkshell manager\<close>

record linkshell_manager =
  lsm_cache :: "u64 \<rightharpoonup> linkshell"
  lsm_by_name :: "u8 list \<rightharpoonup> u64"

definition linkshell_manager_new :: linkshell_manager where
  "linkshell_manager_new = \<lparr>lsm_cache = Map.empty, lsm_by_name = Map.empty\<rparr>"

text \<open>
  \<open>name.trim().is_empty()\<close> holds of the strings of white space only; \<open>white_prefix\<close> is the byte length of
  the white-space character a UTF-8 string starts with, 0 when it starts with another.
\<close>

fun white_prefix :: "u8 list \<Rightarrow> nat" where
  "white_prefix [] = 0"
| "white_prefix (a # rest) =
     (if (9 \<le> a \<and> a \<le> 13) \<or> a = 32 then 1
      else case rest of
        [] \<Rightarrow> 0
      | b # rest' \<Rightarrow>
          if a = 0xC2 \<and> (b = 0x85 \<or> b = 0xA0) then 2
          else case rest' of
            [] \<Rightarrow> 0
          | c # _ \<Rightarrow>
              if (a = 0xE1 \<and> b = 0x9A \<and> c = 0x80)
                 \<or> (a = 0xE2 \<and> b = 0x80 \<and> (0x80 \<le> c \<and> c \<le> 0x8A \<or> c = 0xA8 \<or> c = 0xA9 \<or> c = 0xAF))
                 \<or> (a = 0xE2 \<and> b = 0x81 \<and> c = 0x9F) \<or> (a = 0xE3 \<and> b = 0x80 \<and> c = 0x80)
              then 3 else 0)"

function trims_to_empty :: "u8 list \<Rightarrow> bool" where
  "trims_to_empty s =
     (if s = [] then True else if white_prefix s = 0 then False else trims_to_empty (drop (white_prefix s) s))"
  by pat_completeness auto
termination
  by (relation "measure length") auto

definition can_create_linkshell :: "db_down \<Rightarrow> world_db \<Rightarrow> u8 list \<Rightarrow> int" where
  "can_create_linkshell down db name =
     (if trims_to_empty name then 2
      else case db_linkshell_exists down db name of Some True \<Rightarrow> 1 | Some False \<Rightarrow> 0 | None \<Rightarrow> 3)"

text \<open>
  A mutating operation gives back the manager and the tables as they are left, also when it fails half-way,
  and whether it succeeded.
\<close>

definition lsm_create ::
    "db_down \<Rightarrow> u64 \<Rightarrow> linkshell_manager \<Rightarrow> world_db \<Rightarrow> u8 list \<Rightarrow> u16 \<Rightarrow> u32 \<Rightarrow>
      u64 \<times> linkshell_manager \<times> world_db \<times> linkshell option option" where
  "lsm_create down next_id m db name crest master =
     (case db_create_linkshell down db name crest master of
        None \<Rightarrow> (next_id, m, db, None)
      | Some (db_id, db') \<Rightarrow>
          if db_id = 0 then (next_id, m, db', Some None)
          else (case db_add_player down db' db_id master RANK_MASTER of
              None \<Rightarrow> (next_id, m, db', None)
            | Some db'' \<Rightarrow>
                let (gid, next_id') = alloc_group_id next_id;
                    ls = (linkshell_new db_id gid name crest master RANK_MASTER)
                      \<lparr>lk_members := [\<lparr>lm_character_id = master, lm_linkshell_id = db_id, lm_rank = RANK_MASTER\<rparr>]\<rparr>
                in (next_id', \<lparr>lsm_cache = (lsm_cache m)(db_id \<mapsto> ls), lsm_by_name = (lsm_by_name m)(name \<mapsto> db_id)\<rparr>,
                    db'', Some (Some ls))))"

definition lsm_delete :: "linkshell_manager \<Rightarrow> u8 list \<Rightarrow> linkshell_manager \<times> bool" where
  "lsm_delete m name = (m, True)"

definition cache_update :: "(linkshell \<Rightarrow> linkshell) \<Rightarrow> u64 \<Rightarrow> linkshell_manager \<Rightarrow> linkshell_manager" where
  "cache_update f ls_id m =
     (case lsm_cache m ls_id of Some ls \<Rightarrow> m\<lparr>lsm_cache := (lsm_cache m)(ls_id \<mapsto> f ls)\<rparr> | None \<Rightarrow> m)"

definition lsm_change_crest ::
    "db_down \<Rightarrow> linkshell_manager \<Rightarrow> world_db \<Rightarrow> u8 list \<Rightarrow> u16 \<Rightarrow> linkshell_manager \<times> world_db \<times> bool" where
  "lsm_change_crest down m db ls_name crest =
     (case lsm_by_name m ls_name of
        None \<Rightarrow> (m, db, True)
      | Some i \<Rightarrow> (case db_change_crest down db i crest of
            None \<Rightarrow> (m, db, False)
          | Some db' \<Rightarrow> (cache_update (\<lambda>ls. ls\<lparr>lk_crest := crest\<rparr>) i m, db', True)))"

definition lsm_change_master :: "linkshell_manager \<Rightarrow> u8 list \<Rightarrow> u32 \<Rightarrow> linkshell_manager \<times> bool" where
  "lsm_change_master m ls_name master = (m, True)"

definition lsm_get :: "linkshell_manager \<Rightarrow> u8 list \<Rightarrow> linkshell option" where
  "lsm_get m name = (case lsm_by_name m name of Some i \<Rightarrow> lsm_cache m i | None \<Rightarrow> None)"

definition lsm_get_or_load ::
    "db_down \<Rightarrow> u64 \<Rightarrow> linkshell_manager \<Rightarrow> world_db \<Rightarrow> u8 list \<Rightarrow>
      u64 \<times> linkshell_manager \<times> linkshell option option" where
  "lsm_get_or_load down next_id m db name =
     (case lsm_get m name of
        Some ls \<Rightarrow> (next_id, m, Some (Some ls))
      | None \<Rightarrow>
          let (gid, next_id') = alloc_group_id next_id
          in (case db_linkshell_by_name down db gid name of
                None \<Rightarrow> (next_id', m, None)
              | Some None \<Rightarrow> (next_id', m, Some None)
              | Some (Some ls0) \<Rightarrow>
                  let ls = ls0\<lparr>lk_members := (case db_ls_members down db (lk_db_id ls0) of Some ms \<Rightarrow> ms | None \<Rightarrow> [])\<rparr>
                  in (next_id', \<lparr>lsm_cache = (lsm_cache m)(lk_db_id ls \<mapsto> ls),
                        lsm_by_name = (lsm_by_name m)(lk_name ls \<mapsto> lk_db_id ls)\<rparr>, Some (Some ls))))"

definition lsm_cached_by_id :: "linkshell_manager \<Rightarrow> u64 \<Rightarrow> linkshell option" where
  "lsm_cached_by_id m ls_id = lsm_cache m ls_id"

definition lsm_add_member ::
    "db_down \<Rightarrow> linkshell_manager \<Rightarrow> world_db \<Rightarrow> u64 \<Rightarrow> u32 \<Rightarrow> u8 \<Rightarrow> linkshell_manager \<times> world_db \<times> bool" where
  "lsm_add_member down m db ls_id chara_id rank =
     (case db_add_player down db ls_id chara_id rank of
        None \<Rightarrow> (m, db, False)
      | Some db' \<Rightarrow>
          (cache_update (\<lambda>ls. ls\<lparr>lk_members := filter (\<lambda>x. lm_character_id x \<noteq> chara_id) (lk_members ls)
              @ [\<lparr>lm_character_id = chara_id, lm_linkshell_id = ls_id, lm_rank = rank\<rparr>]\<rparr>) ls_id m, db', True))"

definition lsm_remove_member ::
    "db_down \<Rightarrow> linkshell_manager \<Rightarrow> world_db \<Rightarrow> u64 \<Rightarrow> u32 \<Rightarrow> linkshell_manager \<times> world_db \<times> bool" where
  "lsm_remove_member down m db ls_id chara_id =
     (case db_remove_player down db ls_id chara_id of
        None \<Rightarrow> (m, db, False)
      | Some db' \<Rightarrow>
          (cache_update (\<lambda>ls. ls\<lparr>lk_members := filter (\<lambda>x. lm_character_id x \<noteq> chara_id) (lk_members ls)\<rparr>) ls_id m, db', True))"

text \<open>\<open>iter_mut().find(..)\<close> changes the first entry of the character only.\<close>

fun set_first_rank :: "u32 \<Rightarrow> u8 \<Rightarrow> linkshell_member list \<Rightarrow> linkshell_member list" where
  "set_first_rank chara_id rank [] = []"
| "set_first_rank chara_id rank (m # ms) =
     (if lm_character_id m = chara_id then m\<lparr>lm_rank := rank\<rparr> # ms else m # set_first_rank chara_id rank ms)"

definition lsm_change_rank ::
    "db_down \<Rightarrow> linkshell_manager \<Rightarrow> world_db \<Rightarrow> u64 \<Rightarrow> u32 \<Rightarrow> u8 \<Rightarrow> linkshell_manager \<times> world_db \<times> bool" where
  "lsm_change_rank down m db ls_id chara_id rank =
     (case db_change_rank down db ls_id chara_id rank of
        None \<Rightarrow> (m, db, False)
      | Some db' \<Rightarrow>
          (cache_update (\<lambda>ls. ls\<lparr>lk_members := set_first_rank chara_id rank (lk_members ls)\<rparr>) ls_id m, db', True))"

section \<open>Relations and retainers\<close>

record relation =
  rl_header :: group_header
  rl_owner :: u32
  rl_partner :: u32

definition relation_new :: "u64 \<Rightarrow> u32 \<Rightarrow> u32 \<Rightarrow> relation" where
  "relation_new group_id owner partner =
     \<lparr>rl_header = \<lparr>gh_group_id = group_id, gh_group_type = RELATION_TYPE, gh_max_members = 2\<rparr>,
      rl_owner = owner, rl_partner = partner\<rparr>"

type_synonym relation_manager = "u32 \<rightharpoonup> relation"

definition rgm_create :: "u64 \<Rightarrow> relation_manager \<Rightarrow> u32 \<Rightarrow> u32 \<Rightarrow> u64 \<times> relation_manager \<times> relation" where
  "rgm_create next_id m host guest =
     (let (gid, next_id') = alloc_group_id next_id; rel = relation_new gid host guest
      in (next_id', m(host \<mapsto> rel), rel))"

definition rgm_remove :: "relation_manager \<Rightarrow> u32 \<Rightarrow> relation_manager" where
  "rgm_remove m host = m(host := None)"

record retainer_member =
  rm_id :: u32
  rm_name :: "u8 list"
  rm_actor_class_id :: u32
  rm_cd_id_offset :: u8
  rm_place_name :: u16
  rm_conditions :: u8
  rm_level :: u8

record retainer_group =
  rg_header :: group_header
  rg_owner :: u32
  rg_members :: "retainer_member list"

definition RETAINER_MAX_MEMBERS :: u16 where "RETAINER_MAX_MEMBERS = 12"

definition retainer_group_new :: "u64 \<Rightarrow> u32 \<Rightarrow> retainer_member list \<Rightarrow> retainer_group" where
  "retainer_group_new group_id owner members =
     \<lparr>rg_header = \<lparr>gh_group_id = group_id, gh_group_type = RETAINER_TYPE, gh_max_members = RETAINER_MAX_MEMBERS\<rparr>,
      rg_owner = owner, rg_members = members\<rparr>"

text \<open>The rows of the retainer query are the argument \<open>rows\<close>; its ids get the retainer tag.\<close>

definition retainer_of_row :: "retainer_member \<Rightarrow> retainer_member" where
  "retainer_of_row r = r\<lparr>rm_id := rm_id r OR 0xE0000000\<rparr>"

definition rtm_load_for_player ::
    "retainer_member list option \<Rightarrow> u64 \<Rightarrow> (u32 \<rightharpoonup> retainer_group) \<Rightarrow> u32 \<Rightarrow> u64 \<times> (u32 \<rightharpoonup> retainer_group) \<times> retainer_group" where
  "rtm_load_for_player rows next_id m chara_id =
     (let members = (case rows of Some rs \<Rightarrow> map retainer_of_row rs | None \<Rightarrow> []);
          (gid, next_id') = alloc_group_id next_id;
          g = retainer_group_new gid chara_id members
      in (next_id', m(chara_id \<mapsto> g), g))"

end
