(* ===== verification/WorldSend.thy ===== *)
theory WorldSend
  imports WorldWire LuaParam
begin

text \<open>
  \<open>world-server/src/packets/send.rs\<close>: the subpackets the world server sends, to game clients (the raw
  handshake frames, the chat relay and the game message) and to map servers (session begin and end). The
  clock read by the builders is the argument \<open>now\<close>.
\<close>

section \<open>Raw client frames\<close>

definition OP_CLIENT_0X2 :: u16 where "OP_CLIENT_0X2 = 0x0002"
definition OP_CLIENT_0X7 :: u16 where "OP_CLIENT_0X7 = 0x0007"
definition OP_CLIENT_0X8 :: u16 where "OP_CLIENT_0X8 = 0x0008"

definition HANDSHAKE_0X2 :: "u8 list" where
  "HANDSHAKE_0X2 =
    [0x6c, 0x00, 0x00, 0x00, 0xC8, 0xD6, 0xAF, 0x2B, 0x38, 0x2B, 0x5F, 0x26, 0xB8, 0x8D, 0xF0,
     0x2B, 0xC8, 0xFD, 0x85, 0xFE, 0xA8, 0x7C, 0x5B, 0x09, 0x38, 0x2B, 0x5F, 0x26, 0xC8, 0xD6,
     0xAF, 0x2B, 0xB8, 0x8D, 0xF0, 0x2B, 0x88, 0xAF, 0x5E, 0x26]"

definition build_0x2_packet :: "u32 \<Rightarrow> u32 \<Rightarrow> subpacket" where
  "build_0x2_packet now actor_id =
     new_with_flag now False OP_CLIENT_0X2 0 (overwrite HANDSHAKE_0X2 0 (le_bytes 4 actor_id))"

definition build_0x7_packet :: "u32 \<Rightarrow> u32 \<Rightarrow> subpacket" where
  "build_0x7_packet now actor_id =
     new_with_flag now False OP_CLIENT_0X7 0 (le_bytes 4 actor_id @ le_bytes 4 now)"

definition build_0x8_ping_packet :: "u32 \<Rightarrow> u32 \<Rightarrow> subpacket" where
  "build_0x8_ping_packet now actor_id =
     new_with_flag now False OP_CLIENT_0X8 0 (le_bytes 4 actor_id @ le_bytes 4 now)"

section \<open>Control frames to the map servers\<close>

definition OP_ERROR :: u16 where "OP_ERROR = 0x100A"
definition OP_LINKSHELL_RESULT :: u16 where "OP_LINKSHELL_RESULT = 0x1025"

definition control_frame :: "u32 \<Rightarrow> u16 \<Rightarrow> u32 \<Rightarrow> u8 list \<Rightarrow> subpacket" where
  "control_frame now op session_id data = set_target_id (new_with_flag now False op session_id data) session_id"

definition ws_session_begin :: "u32 \<Rightarrow> u32 \<Rightarrow> bool \<Rightarrow> subpacket" where
  "ws_session_begin now session_id is_login =
     control_frame now OP_SESSION_BEGIN session_id [if is_login then 1 else 0]"

definition ws_session_end :: "u32 \<Rightarrow> u32 \<Rightarrow> subpacket" where
  "ws_session_end now session_id = control_frame now OP_SESSION_END session_id (replicate 4 0)"

definition ws_session_end_with_zone ::
    "u32 \<Rightarrow> u32 \<Rightarrow> u32 \<Rightarrow> u8 \<Rightarrow> u32 \<Rightarrow> u32 \<Rightarrow> u32 \<Rightarrow> u32 \<Rightarrow> subpacket" where
  "ws_session_end_with_zone now session_id destination_zone_id spawn_type x y z rotation =
     control_frame now OP_SESSION_END session_id
       (le_bytes 4 destination_zone_id @ le_bytes 2 (ucast spawn_type :: u16) @ le_bytes 4 x @ le_bytes 4 y
        @ le_bytes 4 z @ le_bytes 4 rotation)"

definition build_error :: "u32 \<Rightarrow> u32 \<Rightarrow> u32 \<Rightarrow> subpacket" where
  "build_error now session_id error_code = control_frame now OP_ERROR session_id (le_bytes 4 error_code)"

definition build_linkshell_result :: "u32 \<Rightarrow> u32 \<Rightarrow> int \<Rightarrow> subpacket" where
  "build_linkshell_result now session_id result =
     control_frame now OP_LINKSHELL_RESULT session_id (le_bytes 4 (word_of_int result :: u32))"

section \<open>Game messages and chat\<close>

record game_message_options =
  gmo_sender_actor_id :: u32
  gmo_receiver_actor_id :: u32
  gmo_text_id :: u16
  gmo_log :: u8
  gmo_display_id :: "u32 option"
  gmo_custom_sender :: "u8 list option"
  gmo_lua_params :: "lua_param list"

definition build_game_message :: "u32 \<Rightarrow> u32 \<Rightarrow> game_message_options \<Rightarrow> subpacket" where
  "build_game_message now source_actor_id opts =
     subpacket_new now 0x01FD source_actor_id
       (le_bytes 4 (gmo_receiver_actor_id opts) @ le_bytes 4 (gmo_sender_actor_id opts)
        @ le_bytes 2 (gmo_text_id opts) @ [gmo_log opts, 0]
        @ (case gmo_display_id opts of
             Some i \<Rightarrow> le_bytes 4 i
           | None \<Rightarrow> (case gmo_custom_sender opts of Some name \<Rightarrow> padded_ascii name 0x20 | None \<Rightarrow> []))
        @ write_lua_params (gmo_lua_params opts))"

definition MESSAGE_TYPE_PARTY :: u8 where "MESSAGE_TYPE_PARTY = 0x04"
definition MESSAGE_TYPE_GENERAL_INFO :: u8 where "MESSAGE_TYPE_GENERAL_INFO = 0x1D"

definition build_set_active_linkshell :: "u32 \<Rightarrow> u32 \<Rightarrow> u64 \<Rightarrow> subpacket" where
  "build_set_active_linkshell now session_id group_id =
     set_target_id
       (subpacket_new now 0x018A session_id
         (le_bytes 8 group_id @ replicate 0x38 0 @ le_bytes 4 (20002 :: u32) @ replicate 0x1C 0
          @ le_bytes 4 (if group_id = 0 then 0 else 1 :: u32) @ replicate 0x14 0))
       session_id"

definition build_send_message :: "u32 \<Rightarrow> u32 \<Rightarrow> u32 \<Rightarrow> u8 \<Rightarrow> u8 list \<Rightarrow> u8 list \<Rightarrow> subpacket" where
  "build_send_message now source_session target_session message_type sender_name message =
     set_target_id
       (subpacket_new now 0x00CA source_session
         (replicate 12 0 @ [message_type, 0] @ le_bytes 2 (0 :: u16) @ padded_ascii sender_name 0x20 @ message @ [0]))
       target_session"

end
