(* ===== verification/WorldProcessor.thy ===== *)
theory WorldProcessor
  imports WorldGroups WorldSend Packet
begin

text \<open>
  The world server's processor (\<open>world-server/src/processor.rs\<close>) over its state: the session registry of
  \<open>server.rs\<close>, the client handles and sessions of \<open>data.rs\<close>, the zone routing and the managers of
  \<open>world_master.rs\<close> and the database. A handler is one atomic step; it gives the state after it, the
  frames it queued in order, and how it ended. A map server's connection is a number, the identity of its
  handle; what a handle sends is recorded as the subpacket whose bytes are queued.
\<close>

section \<open>State\<close>

datatype session_channel = ZoneChannel | ChatChannel

text \<open>A cloneable client handle; its \<open>owned\<close> list is shared by the clones and kept in the server's state.\<close>

record client_handle =
  ch_id :: u32
  ch_conn_seq :: u64

record wsession =
  wss_session_id :: u32
  wss_channel :: session_channel
  wss_client :: client_handle
  wss_character_name :: "u8 list"
  wss_current_zone_id :: u32
  wss_active_linkshell_name :: "u8 list"
  wss_routing1 :: "nat option"
  wss_routing2 :: "nat option"

definition wsession_new :: "u32 \<Rightarrow> session_channel \<Rightarrow> client_handle \<Rightarrow> wsession" where
  "wsession_new session_id channel client =
     \<lparr>wss_session_id = session_id, wss_channel = channel, wss_client = client, wss_character_name = [],
      wss_current_zone_id = 0, wss_active_linkshell_name = [], wss_routing1 = None, wss_routing2 = None\<rparr>"

record world_server =
  wsv_zone :: "u32 \<rightharpoonup> wsession"
  wsv_chat :: "u32 \<rightharpoonup> wsession"
  wsv_names :: "u32 \<rightharpoonup> u8 list"
  wsv_pending_ends :: "u32 \<rightharpoonup> u64"
  wsv_owned :: "u64 \<Rightarrow> (session_channel \<times> u32) list"
  wsv_conn_seq :: u64
  wsv_routing :: "u32 \<rightharpoonup> nat"
  wsv_parties :: party_manager
  wsv_linkshells :: linkshell_manager
  wsv_next_group :: u64
  wsv_db :: world_db

datatype world_out = ToZone nat subpacket | ToClient u64 subpacket | Shutdown u64

datatype handled = Done | Failed | Panicked

section \<open>The session registry\<close>

fun sr_map :: "session_channel \<Rightarrow> world_server \<Rightarrow> u32 \<rightharpoonup> wsession" where
  "sr_map ZoneChannel s = wsv_zone s"
| "sr_map ChatChannel s = wsv_chat s"

fun sr_update :: "session_channel \<Rightarrow> ((u32 \<rightharpoonup> wsession) \<Rightarrow> u32 \<rightharpoonup> wsession) \<Rightarrow> world_server \<Rightarrow> world_server" where
  "sr_update ZoneChannel f s = s\<lparr>wsv_zone := f (wsv_zone s)\<rparr>"
| "sr_update ChatChannel f s = s\<lparr>wsv_chat := f (wsv_chat s)\<rparr>"

definition sr_add :: "session_channel \<Rightarrow> u32 \<Rightarrow> wsession \<Rightarrow> world_server \<Rightarrow> world_server" where
  "sr_add channel i session s =
     (let s = sr_update channel (\<lambda>m. m(i \<mapsto> session)) s; name = wss_character_name session
      in if name \<noteq> [] then s\<lparr>wsv_names := (wsv_names s)(i \<mapsto> name)\<rparr> else s)"

definition sr_get :: "session_channel \<Rightarrow> u32 \<Rightarrow> world_server \<Rightarrow> wsession option" where
  "sr_get channel i s = sr_map channel s i"

definition sr_remove :: "session_channel \<Rightarrow> u32 \<Rightarrow> world_server \<Rightarrow> world_server" where
  "sr_remove channel i s = sr_update channel (\<lambda>m. m(i := None)) s"

definition sr_remove_if :: "session_channel \<Rightarrow> u32 \<Rightarrow> u64 \<Rightarrow> world_server \<Rightarrow> world_server \<times> bool" where
  "sr_remove_if channel i expected_conn_seq s =
     (case sr_map channel s i of
        Some session \<Rightarrow>
          if ch_conn_seq (wss_client session) = expected_conn_seq then (sr_remove channel i s, True) else (s, False)
      | None \<Rightarrow> (s, False))"

fun sr_preload_names :: "(u32 \<times> u8 list) list \<Rightarrow> world_server \<Rightarrow> world_server" where
  "sr_preload_names [] s = s"
| "sr_preload_names ((i, name) # names) s = sr_preload_names names (s\<lparr>wsv_names := (wsv_names s)(i \<mapsto> name)\<rparr>)"

definition mark_pending_end :: "u32 \<Rightarrow> u64 \<Rightarrow> world_server \<Rightarrow> world_server" where
  "mark_pending_end session_id conn_seq s = s\<lparr>wsv_pending_ends := (wsv_pending_ends s)(session_id \<mapsto> conn_seq)\<rparr>"

definition take_pending_end :: "u32 \<Rightarrow> world_server \<Rightarrow> u64 option \<times> world_server" where
  "take_pending_end session_id s =
     (wsv_pending_ends s session_id, s\<lparr>wsv_pending_ends := (wsv_pending_ends s)(session_id := None)\<rparr>)"

section \<open>Client handles and zone routing\<close>

text \<open>An accepted socket draws the next connection number; its handle's id stays 0.\<close>

definition accept_connection :: "world_server \<Rightarrow> client_handle \<times> world_server" where
  "accept_connection s =
     (\<lparr>ch_id = 0, ch_conn_seq = wsv_conn_seq s\<rparr>,
      s\<lparr>wsv_conn_seq := wsv_conn_seq s + 1, wsv_owned := (wsv_owned s)(wsv_conn_seq s := [])\<rparr>)"

definition note_owned :: "client_handle \<Rightarrow> session_channel \<Rightarrow> u32 \<Rightarrow> world_server \<Rightarrow> world_server" where
  "note_owned client channel session_id s =
     s\<lparr>wsv_owned := (wsv_owned s)(ch_conn_seq client := wsv_owned s (ch_conn_seq client) @ [(channel, session_id)])\<rparr>"

fun register_zone_server :: "u32 list \<Rightarrow> nat \<Rightarrow> world_server \<Rightarrow> world_server" where
  "register_zone_server [] handle s = s"
| "register_zone_server (z # zs) handle s =
     register_zone_server zs handle (s\<lparr>wsv_routing := (wsv_routing s)(z \<mapsto> handle)\<rparr>)"

fun unregister_zone_server :: "u32 list \<Rightarrow> world_server \<Rightarrow> world_server" where
  "unregister_zone_server [] s = s"
| "unregister_zone_server (z # zs) s = unregister_zone_server zs (s\<lparr>wsv_routing := (wsv_routing s)(z := None)\<rparr>)"

definition zone_server_for :: "u32 \<Rightarrow> world_server \<Rightarrow> nat option" where
  "zone_server_for zone_id s = wsv_routing s zone_id"

section \<open>The hello frame\<close>

text \<open>
  The session id is a decimal string of at most twelve bytes; every byte is a character of the Latin-1
  block, of which \<open>trim\<close> strips the white space. \<open>str::parse::<u32>\<close> takes an optional plus sign.
\<close>

definition latin1_white :: "u8 \<Rightarrow> bool" where
  "latin1_white b \<longleftrightarrow> (9 \<le> b \<and> b \<le> 13) \<or> b = 32 \<or> b = 0x85 \<or> b = 0xA0"

definition latin1_trim :: "u8 list \<Rightarrow> u8 list" where
  "latin1_trim s = rev (dropWhile latin1_white (rev (dropWhile latin1_white s)))"

fun parse_digits :: "u8 list \<Rightarrow> nat \<Rightarrow> nat option" where
  "parse_digits [] acc = Some acc"
| "parse_digits (b # bs) acc =
     (if 48 \<le> b \<and> b \<le> 57 \<and> acc * 10 + (unat b - 48) < 2 ^ 32 then parse_digits bs (acc * 10 + (unat b - 48)) else None)"

definition parse_u32 :: "u8 list \<Rightarrow> u32 option" where
  "parse_u32 s =
     (let digits = (case s of [] \<Rightarrow> [] | b # bs \<Rightarrow> if b = 43 then bs else s)
      in if digits = [] then None else map_option of_nat (parse_digits digits 0))"

definition hello_parse :: "u8 list \<Rightarrow> u32 option" where
  "hello_parse base_packet_body =
     (if length base_packet_body < 0x14 + 12 then None
      else Some (case parse_u32 (latin1_trim (until_nul (take 12 (drop 0x14 base_packet_body)))) of
          Some i \<Rightarrow> i | None \<Rightarrow> 0))"

section \<open>Sessions\<close>

definition session_begin_confirm_is_error :: "u16 \<Rightarrow> bool" where
  "session_begin_confirm_is_error error_code \<longleftrightarrow> error_code \<noteq> 0"

fun is_stale_end_confirm :: "u64 option \<Rightarrow> u64 option \<Rightarrow> bool" where
  "is_stale_end_confirm (Some c) (Some r) \<longleftrightarrow> c \<noteq> r"
| "is_stale_end_confirm _ _ \<longleftrightarrow> False"

definition conn_of :: "wsession \<Rightarrow> u64" where
  "conn_of session = ch_conn_seq (wss_client session)"

definition hello_session :: "db_down \<Rightarrow> u32 \<Rightarrow> session_channel \<Rightarrow> client_handle \<Rightarrow> world_server \<Rightarrow> wsession" where
  "hello_session down session_id channel client s =
     (let session = wsession_new session_id channel client
      in case db_session_info down (wsv_db s) session_id of
           Some (Some snap) \<Rightarrow> session\<lparr>wss_character_name := cr_name snap,
             wss_current_zone_id := cr_current_zone_id snap, wss_active_linkshell_name := cr_active_linkshell snap\<rparr>
         | _ \<Rightarrow> session)"

definition request_end :: "u32 \<Rightarrow> u32 \<Rightarrow> u64 \<Rightarrow> nat option \<Rightarrow> world_server \<Rightarrow> world_server \<times> world_out list" where
  "request_end now session_id conn_seq routing s =
     (case routing of
        Some handle \<Rightarrow> (mark_pending_end session_id conn_seq s, [ToZone handle (ws_session_end now session_id)])
      | None \<Rightarrow> (s, []))"

definition end_existing_session ::
    "u32 \<Rightarrow> session_channel \<Rightarrow> wsession \<Rightarrow> client_handle \<Rightarrow> world_server \<Rightarrow> world_server \<times> world_out list" where
  "end_existing_session now channel old client s =
     (if conn_of old = ch_conn_seq client then (s, [])
      else let (s, outs) = (if channel = ZoneChannel
             then request_end now (wss_session_id old) (conn_of old) (wss_routing1 old) s else (s, []));
           (s, removed) = sr_remove_if channel (wss_session_id old) (conn_of old) s
      in (s, outs @ [Shutdown (conn_of old)]))"

definition channel_of :: "u16 \<Rightarrow> session_channel" where
  "channel_of ty = (if ty = 2 then ChatChannel else ZoneChannel)"

definition handle_hello ::
    "u32 \<Rightarrow> db_down \<Rightarrow> client_handle \<Rightarrow> base_packet \<Rightarrow> world_server \<Rightarrow> world_server \<times> world_out list \<times> handled" where
  "handle_hello now down client packet s =
     (case hello_parse (bp_data packet) of
        None \<Rightarrow> (s, [], Failed)
      | Some session_id \<Rightarrow>
          let channel = channel_of (connection_type (bp_header packet));
              session = hello_session down session_id channel client s;
              routing = (if channel = ZoneChannel then zone_server_for (wss_current_zone_id session) s else None);
              session = session\<lparr>wss_routing1 := routing\<rparr>;
              begins = (case routing of Some handle \<Rightarrow> [ToZone handle (ws_session_begin now session_id True)] | None \<Rightarrow> []);
              (s, evictions) = (case sr_get channel session_id s of
                  Some old \<Rightarrow> end_existing_session now channel old client s
                | None \<Rightarrow> (s, []));
              s = note_owned client channel session_id (sr_add channel session_id session s)
          in (s, begins @ evictions
                @ [ToClient (ch_conn_seq client) (build_0x7_packet now 0x0E016EE5),
                   ToClient (ch_conn_seq client) (build_0x2_packet now session_id)], Done))"

fun disconnect_owned ::
    "u32 \<Rightarrow> u64 \<Rightarrow> (session_channel \<times> u32) list \<Rightarrow> world_server \<Rightarrow> world_server \<times> world_out list" where
  "disconnect_owned now conn_seq [] s = (s, [])"
| "disconnect_owned now conn_seq ((channel, i) # owned) s =
     (case sr_get channel i s of
        None \<Rightarrow> disconnect_owned now conn_seq owned s
      | Some session \<Rightarrow>
          if conn_of session \<noteq> conn_seq then disconnect_owned now conn_seq owned s
          else let (s, outs) = (if channel = ZoneChannel then request_end now i conn_seq (wss_routing1 session) s else (s, []));
                   (s, removed) = sr_remove_if channel i conn_seq s;
                   (s, outs') = disconnect_owned now conn_seq owned s
               in (s, outs @ outs'))"

definition handle_disconnect :: "u32 \<Rightarrow> client_handle \<Rightarrow> world_server \<Rightarrow> world_server \<times> world_out list" where
  "handle_disconnect now client s =
     disconnect_owned now (ch_conn_seq client) (wsv_owned s (ch_conn_seq client)) s"

definition handle_ping :: "u32 \<Rightarrow> client_handle \<Rightarrow> world_server \<Rightarrow> world_server \<times> world_out list \<times> handled" where
  "handle_ping now client s = (s, [ToClient (ch_conn_seq client) (build_0x8_ping_packet now (ch_id client))], Done)"

section \<open>Game messages\<close>

definition to_session :: "wsession \<Rightarrow> subpacket \<Rightarrow> world_out" where
  "to_session session sub = ToClient (conn_of session) sub"

text \<open>The fan-out of a party chat line to the other members that are online.\<close>

definition party_chat_outs :: "u32 \<Rightarrow> u32 \<Rightarrow> wsession \<Rightarrow> u8 list \<Rightarrow> party \<Rightarrow> world_server \<Rightarrow> world_out list" where
  "party_chat_outs now target session message pt s =
     concat (map (\<lambda>member. if member = target then []
         else case sr_get ZoneChannel member s of
             None \<Rightarrow> []
           | Some peer \<Rightarrow> [to_session peer (build_send_message now target (wss_session_id peer) MESSAGE_TYPE_PARTY
                (wss_character_name session) message)])
       (pt_members pt))"

definition MOTD_LINES :: "string list" where
  "MOTD_LINES =
     [''-------- Login Message --------'', ''Welcome to Garlemald!'', ''Welcome to Eorzea!'',
      ''Here is a test Message of the Day from the World Server!'']"

definition ascii_bytes :: "string \<Rightarrow> u8 list" where
  "ascii_bytes cs = map (\<lambda>c. of_nat (of_char c)) cs"

definition login_outs :: "u32 \<Rightarrow> u32 \<Rightarrow> wsession \<Rightarrow> world_out list" where
  "login_outs now target session =
     map (\<lambda>line. to_session session
         (build_send_message now target target MESSAGE_TYPE_GENERAL_INFO [] (ascii_bytes line))) MOTD_LINES
     @ [to_session session (build_set_active_linkshell now target 0)]"

definition forward_outs :: "wsession \<Rightarrow> subpacket \<Rightarrow> world_out list" where
  "forward_outs session sub =
     (case wss_routing1 session of Some z \<Rightarrow> [ToZone z sub] | None \<Rightarrow> [])
     @ (case wss_routing2 session of Some z \<Rightarrow> [ToZone z sub] | None \<Rightarrow> [])"

definition handle_game_message :: "u32 \<Rightarrow> subpacket \<Rightarrow> world_server \<Rightarrow> world_server \<times> world_out list \<times> handled" where
  "handle_game_message now sub s =
     (let target = target_id (sp_header sub)
      in case sr_get ZoneChannel target s of
           None \<Rightarrow> (s, [], Done)
         | Some session \<Rightarrow>
             (case (if opcode (sp_game_message sub) = 0x00C9 then pm_get_party (wsv_parties s) target else None) of
                Some pt \<Rightarrow> (s, party_chat_outs now target session (utf8_lossy (until_nul (sp_data sub))) pt s, Done)
              | None \<Rightarrow>
                  (s, (if opcode (sp_game_message sub) = 0x0006 then login_outs now target session else [])
                      @ forward_outs session sub, Done)))"

section \<open>Session control\<close>

definition modify_wsession :: "u32 \<Rightarrow> (wsession \<Rightarrow> wsession) \<Rightarrow> world_server \<Rightarrow> world_server" where
  "modify_wsession i f s = s\<lparr>wsv_zone := (wsv_zone s)(i := map_option f (wsv_zone s i))\<rparr>"

definition handle_begin_confirm :: "subpacket \<Rightarrow> world_server \<Rightarrow> world_server \<times> world_out list \<times> handled" where
  "handle_begin_confirm sub s = (s, [], Done)"

definition end_confirmed :: "u32 \<Rightarrow> world_server \<Rightarrow> world_server" where
  "end_confirmed session_id s =
     (let (recorded, s) = take_pending_end session_id s;
          current = map_option conn_of (sr_get ZoneChannel session_id s)
      in if is_stale_end_confirm current recorded then s
         else sr_remove ChatChannel session_id (sr_remove ZoneChannel session_id s))"

definition handle_end_confirm :: "u32 \<Rightarrow> subpacket \<Rightarrow> world_server \<Rightarrow> world_server \<times> world_out list \<times> handled" where
  "handle_end_confirm now sub s =
     (let target = target_id (sp_header sub)
      in case session_end_confirm_parse (sp_data sub) of
           Ok (SessionEndConfirm session_id error_code destination_zone) \<Rightarrow>
             if error_code \<noteq> 0 then (s, [], Done)
             else if destination_zone \<noteq> 0 \<and> sr_get ZoneChannel target s \<noteq> None
             then (case zone_server_for destination_zone s of
                 Some handle \<Rightarrow> (modify_wsession target (\<lambda>session. session\<lparr>wss_routing1 := Some handle\<rparr>) s,
                   [ToZone handle (ws_session_begin now session_id False)], Done)
               | None \<Rightarrow> (s, [], Done))
             else (end_confirmed session_id s, [], Done)
         | _ \<Rightarrow> (s, [], Done))"

definition handle_zone_change_request :: "u32 \<Rightarrow> subpacket \<Rightarrow> world_server \<Rightarrow> world_server \<times> world_out list \<times> handled" where
  "handle_zone_change_request now sub s =
     (case world_request_zone_change_parse (sp_data sub) of
        Ok (WorldRequestZoneChange session_id zone_id spawn_type x y z rot) \<Rightarrow>
          (case sr_get ZoneChannel (target_id (sp_header sub)) s of
             Some session \<Rightarrow> (case wss_routing1 session of
                 Some handle \<Rightarrow> (s, [ToZone handle (ws_session_end_with_zone now session_id zone_id spawn_type x y z rot)], Done)
               | None \<Rightarrow> (s, [], Done))
           | None \<Rightarrow> (s, [], Done))
      | _ \<Rightarrow> (s, [], Done))"

end
