(* ===== verification/WorldHandlers.thy ===== *)
theory WorldHandlers
  imports WorldProcessor
begin

text \<open>
  The group handlers of \<open>world-server/src/processor.rs\<close>, with their notifications, and the two dispatchers:
  \<open>handle_world_packet\<close> by control opcode and \<open>process_packet\<close> by subpacket type, which a client's
  connection runs; \<open>zone_reply\<close> is the reader of a map server's connection (\<open>server.rs\<close>).
\<close>

section \<open>Notifications\<close>

definition send_game_message_to :: "u32 \<Rightarrow> world_server \<Rightarrow> u32 \<Rightarrow> u16 \<Rightarrow> lua_param list \<Rightarrow> world_out list" where
  "send_game_message_to now s recipient text_id params =
     (case sr_get ZoneChannel recipient s of
        None \<Rightarrow> []
      | Some session \<Rightarrow> [to_session session (build_game_message now recipient
          \<lparr>gmo_sender_actor_id = 0, gmo_receiver_actor_id = recipient, gmo_text_id = text_id, gmo_log = 0x20,
           gmo_display_id = None, gmo_custom_sender = None, gmo_lua_params = params\<rparr>)])"

definition session_character_name :: "world_server \<Rightarrow> u32 \<Rightarrow> u8 list option" where
  "session_character_name s chara_id = map_option wss_character_name (sr_get ZoneChannel chara_id s)"

definition notify_linkshell_join :: "u32 \<Rightarrow> u64 \<Rightarrow> u32 \<Rightarrow> u8 list \<Rightarrow> world_server \<Rightarrow> world_out list" where
  "notify_linkshell_join now ls_id joiner_id ls_name s =
     (case lsm_cached_by_id (wsv_linkshells s) ls_id of
        None \<Rightarrow> []
      | Some ls \<Rightarrow>
          let joiner_name = (case session_character_name s joiner_id of Some n \<Rightarrow> n | None \<Rightarrow> [])
          in concat (map (\<lambda>member.
               if lm_character_id member = joiner_id
               then send_game_message_to now s joiner_id 25157 [LInt32 0, LActor joiner_id, LString ls_name]
               else send_game_message_to now s (lm_character_id member) 25284
                 [LInt32 0, LString joiner_name, LString ls_name])
             (lk_members ls)))"

definition notify_linkshell_self_leave :: "u32 \<Rightarrow> u32 \<Rightarrow> u8 list \<Rightarrow> world_server \<Rightarrow> world_out list" where
  "notify_linkshell_self_leave now leaver_id ls_name s =
     send_game_message_to now s leaver_id 25162 [LInt32 1, LString ls_name]"

definition notify_linkshell_kick :: "u32 \<Rightarrow> u64 \<Rightarrow> u32 \<Rightarrow> u8 list \<Rightarrow> u8 list \<Rightarrow> world_server \<Rightarrow> world_out list" where
  "notify_linkshell_kick now ls_id kicked_id kicked_name ls_name s =
     (case lsm_cached_by_id (wsv_linkshells s) ls_id of
        None \<Rightarrow> []
      | Some ls \<Rightarrow> concat (map (\<lambda>member.
            if lm_character_id member = kicked_id
            then send_game_message_to now s kicked_id 25184 [LInt32 1, LString ls_name]
            else send_game_message_to now s (lm_character_id member) 25280
              [LInt32 1, LString kicked_name, LString ls_name])
          (lk_members ls)))"

definition notify_linkshell_rank_change :: "u32 \<Rightarrow> u32 \<Rightarrow> u8 \<Rightarrow> u8 list \<Rightarrow> world_server \<Rightarrow> world_out list" where
  "notify_linkshell_rank_change now target rank ls_name s =
     send_game_message_to now s target 25277 [LInt32 (100000 + ucast rank), LString ls_name]"

section \<open>Party handlers\<close>

type_synonym handler = "subpacket \<Rightarrow> world_server \<Rightarrow> world_server \<times> world_out list \<times> handled"

text \<open>
  The change to the party is made on a clone; what the handler leaves behind is the disbanding. An unknown
  command changes nothing on the clone, and disbands as well.
\<close>

definition party_modified :: "party \<Rightarrow> u16 \<Rightarrow> u32 \<Rightarrow> party" where
  "party_modified pt command actor_id =
     (if command = 0 \<or> command = 2 then pt\<lparr>pt_leader := actor_id\<rparr>
      else if command = 1 \<or> command = 3 then fst (party_remove_member pt actor_id)
      else pt)"

definition handle_party_modify :: handler where
  "handle_party_modify sub s =
     (case party_modify_parse (sp_data sub) of
        Ok (PartyModify command actor_id name) \<Rightarrow>
          let target = target_id (sp_header sub)
          in (case pm_get_party (wsv_parties s) target of
                Some pt \<Rightarrow>
                  if 1 < party_member_count pt
                  then let pt = party_modified pt command actor_id
                       in (s\<lparr>wsv_parties := pm_disband (wsv_parties s) target\<rparr>, [], Done)
                  else (s, [], Done)
              | None \<Rightarrow> (s, [], Done))
      | _ \<Rightarrow> (s, [], Failed))"

definition handle_party_leave :: handler where
  "handle_party_leave sub s =
     (case party_leave_parse (sp_data sub) of
        Ok (PartyLeave is_disband) \<Rightarrow>
          let source = source_id (sp_header sub)
          in (s\<lparr>wsv_parties := (if is_disband then pm_disband (wsv_parties s) source
                else fst (pm_remove_member (wsv_parties s) source source))\<rparr>, [], Done)
      | _ \<Rightarrow> (s, [], Failed))"

definition handle_party_invite :: handler where
  "handle_party_invite sub s =
     (case party_invite_parse (sp_data sub) of
        Ok (PartyInvite command actor_id name) \<Rightarrow>
          let source = source_id (sp_header sub);
              (next_group, parties, pt) = pm_ensure_party (wsv_next_group s) (wsv_parties s) source;
              parties = (if command = 1 \<and> actor_id \<noteq> 0 then pm_add_member parties source actor_id else parties)
          in (s\<lparr>wsv_next_group := next_group, wsv_parties := parties\<rparr>, [], Done)
      | _ \<Rightarrow> (s, [], Failed))"

definition handle_group_invite_result :: handler where
  "handle_group_invite_result sub s =
     (case group_invite_result_parse (sp_data sub) of Ok _ \<Rightarrow> (s, [], Done) | _ \<Rightarrow> (s, [], Failed))"

section \<open>Linkshell handlers\<close>

definition set_linkshells :: "linkshell_manager \<times> world_db \<times> bool \<Rightarrow> world_server \<Rightarrow> world_server" where
  "set_linkshells r s = s\<lparr>wsv_linkshells := fst r, wsv_db := fst (snd r)\<rparr>"

definition handled_if :: "bool \<Rightarrow> handled" where
  "handled_if ok = (if ok then Done else Failed)"

definition handle_create_linkshell :: "u32 \<Rightarrow> db_down \<Rightarrow> handler" where
  "handle_create_linkshell now down sub s =
     (case create_linkshell_parse (sp_data sub) of
        Ok (CreateLinkshell name crest_id master) \<Rightarrow>
          let source = source_id (sp_header sub);
              err = can_create_linkshell down (wsv_db s) name;
              (s, final_err) =
                (if err = 0
                 then (case lsm_create down (wsv_next_group s) (wsv_linkshells s) (wsv_db s) name crest_id master of
                     (next_group, m, db, result) \<Rightarrow>
                       (s\<lparr>wsv_next_group := next_group, wsv_linkshells := m, wsv_db := db\<rparr>,
                        if result = None then 3 else err))
                 else (s, err))
          in (s, (case sr_get ZoneChannel source s of
                Some session \<Rightarrow> [to_session session (build_linkshell_result now source final_err)] | None \<Rightarrow> []), Done)
      | _ \<Rightarrow> (s, [], Failed))"

definition handle_modify_linkshell :: "db_down \<Rightarrow> handler" where
  "handle_modify_linkshell down sub s =
     (case modify_linkshell_parse (sp_data sub) of
        Ok (ModifyLinkshell current_name arg_code new_name crest_id master) \<Rightarrow>
          if arg_code = 1
          then let r = lsm_change_crest down (wsv_linkshells s) (wsv_db s) current_name crest_id
               in (set_linkshells r s, [], handled_if (snd (snd r)))
          else if arg_code = 2
          then let (m, ok) = lsm_change_master (wsv_linkshells s) current_name master
               in (s\<lparr>wsv_linkshells := m\<rparr>, [], handled_if ok)
          else (s, [], Done)
      | _ \<Rightarrow> (s, [], Failed))"

definition handle_delete_linkshell :: handler where
  "handle_delete_linkshell sub s =
     (case delete_linkshell_parse (sp_data sub) of
        Ok (DeleteLinkshell name) \<Rightarrow>
          let (m, ok) = lsm_delete (wsv_linkshells s) name in (s\<lparr>wsv_linkshells := m\<rparr>, [], handled_if ok)
      | _ \<Rightarrow> (s, [], Failed))"

definition handle_linkshell_change :: "db_down \<Rightarrow> handler" where
  "handle_linkshell_change down sub s =
     (case linkshell_change_parse (sp_data sub) of
        Ok (LinkshellChange ls_name) \<Rightarrow>
          let source = source_id (sp_header sub)
          in (case sr_get ZoneChannel source s of
                None \<Rightarrow> (s, [], Done)
              | Some session \<Rightarrow>
                  (case db_set_active_ls down (wsv_db s) (wss_session_id session) ls_name of
                     None \<Rightarrow> (s, [], Failed)
                   | Some db \<Rightarrow>
                       (modify_wsession source (\<lambda>session. session\<lparr>wss_active_linkshell_name := ls_name\<rparr>)
                          (s\<lparr>wsv_db := db\<rparr>), [], Done)))
      | _ \<Rightarrow> (s, [], Failed))"

text \<open>The cache-through lookup as a step of the state.\<close>

definition load_linkshell :: "db_down \<Rightarrow> u8 list \<Rightarrow> world_server \<Rightarrow> world_server \<times> linkshell option option" where
  "load_linkshell down name s =
     (case lsm_get_or_load down (wsv_next_group s) (wsv_linkshells s) (wsv_db s) name of
        (next_group, m, r) \<Rightarrow> (s\<lparr>wsv_next_group := next_group, wsv_linkshells := m\<rparr>, r))"

definition handle_linkshell_invite :: "u32 \<Rightarrow> db_down \<Rightarrow> handler" where
  "handle_linkshell_invite now down sub s =
     (case linkshell_invite_parse (sp_data sub) of
        Ok (LinkshellInvite actor_id ls_name) \<Rightarrow>
          (case load_linkshell down ls_name s of
             (s, None) \<Rightarrow> (s, [], Failed)
           | (s, Some None) \<Rightarrow> (s, [], Done)
           | (s, Some (Some ls)) \<Rightarrow>
               let r = lsm_add_member down (wsv_linkshells s) (wsv_db s) (lk_db_id ls) actor_id RANK_MEMBER;
                   s = set_linkshells r s
               in if snd (snd r) then (s, notify_linkshell_join now (lk_db_id ls) actor_id ls_name s, Done)
                  else (s, [], Failed))
      | _ \<Rightarrow> (s, [], Failed))"

definition handle_linkshell_invite_cancel :: handler where
  "handle_linkshell_invite_cancel sub s = (s, [], Done)"

definition leave_target :: "db_down \<Rightarrow> subpacket \<Rightarrow> bool \<Rightarrow> u8 list \<Rightarrow> world_server \<Rightarrow> u32 option option" where
  "leave_target down sub is_kicked kicked_name s =
     (if is_kicked then db_character_id_by_name down (wsv_db s) kicked_name
      else Some (Some (source_id (sp_header sub))))"

definition handle_linkshell_leave :: "u32 \<Rightarrow> db_down \<Rightarrow> handler" where
  "handle_linkshell_leave now down sub s =
     (case linkshell_leave_parse (sp_data sub) of
        Ok (LinkshellLeave is_kicked kicked_name ls_name) \<Rightarrow>
          (case load_linkshell down ls_name s of
             (s, None) \<Rightarrow> (s, [], Failed)
           | (s, Some None) \<Rightarrow> (s, [], Done)
           | (s, Some (Some ls)) \<Rightarrow>
               (case leave_target down sub is_kicked kicked_name s of
                  None \<Rightarrow> (s, [], Failed)
                | Some None \<Rightarrow> (s, [], Done)
                | Some (Some target) \<Rightarrow>
                    let outs = (if is_kicked then notify_linkshell_kick now (lk_db_id ls) target kicked_name ls_name s
                          else notify_linkshell_self_leave now target ls_name s);
                        r = lsm_remove_member down (wsv_linkshells s) (wsv_db s) (lk_db_id ls) target
                    in (set_linkshells r s, outs, handled_if (snd (snd r)))))
      | _ \<Rightarrow> (s, [], Failed))"

definition handle_linkshell_rank_change :: "u32 \<Rightarrow> db_down \<Rightarrow> handler" where
  "handle_linkshell_rank_change now down sub s =
     (case linkshell_rank_change_parse (sp_data sub) of
        Ok (LinkshellRankChange name ls_name rank) \<Rightarrow>
          (case load_linkshell down ls_name s of
             (s, None) \<Rightarrow> (s, [], Failed)
           | (s, Some None) \<Rightarrow> (s, [], Done)
           | (s, Some (Some ls)) \<Rightarrow>
               (case db_character_id_by_name down (wsv_db s) name of
                  None \<Rightarrow> (s, [], Failed)
                | Some None \<Rightarrow> (s, [], Done)
                | Some (Some target) \<Rightarrow>
                    let r = lsm_change_rank down (wsv_linkshells s) (wsv_db s) (lk_db_id ls) target rank;
                        s = set_linkshells r s
                    in if snd (snd r) then (s, notify_linkshell_rank_change now target rank ls_name s, Done)
                       else (s, [], Failed)))
      | _ \<Rightarrow> (s, [], Failed))"

section \<open>Dispatch\<close>

definition handle_world_packet :: "u32 \<Rightarrow> db_down \<Rightarrow> handler" where
  "handle_world_packet now down sub s =
     (let ty = sp_type (sp_header sub)
      in if ty = 0x1000 then handle_begin_confirm sub s
         else if ty = 0x1001 then handle_end_confirm now sub s
         else if ty = 0x1002 then handle_zone_change_request now sub s
         else if ty = 0x1020 then handle_party_modify sub s
         else if ty = 0x1021 then handle_party_leave sub s
         else if ty = 0x1022 then handle_party_invite sub s
         else if ty = 0x1023 then handle_group_invite_result sub s
         else if ty = 0x1025 then handle_create_linkshell now down sub s
         else if ty = 0x1026 then handle_modify_linkshell down sub s
         else if ty = 0x1027 then handle_delete_linkshell sub s
         else if ty = 0x1028 then handle_linkshell_change down sub s
         else if ty = 0x1029 then handle_linkshell_invite now down sub s
         else if ty = 0x1030 then handle_linkshell_invite_cancel sub s
         else if ty = 0x1031 then handle_linkshell_leave now down sub s
         else if ty = 0x1032 then handle_linkshell_rank_change now down sub s
         else (s, [], Done))"

definition dispatch_subpacket :: "u32 \<Rightarrow> db_down \<Rightarrow> client_handle \<Rightarrow> base_packet \<Rightarrow> handler" where
  "dispatch_subpacket now down client packet sub s =
     (let ty = sp_type (sp_header sub)
      in if ty = 0x01 then handle_hello now down client packet s
         else if ty = 0x07 then handle_ping now client s
         else if ty = 0x08 then (s, [], Done)
         else if ty = SUBPACKET_TYPE_GAMEMESSAGE then handle_game_message now sub s
         else if 0x1000 \<le> ty then handle_world_packet now down sub s
         else (s, [], Done))"

text \<open>The first subpacket that fails ends the packet; what the ones before it did stays.\<close>

fun dispatch_all :: "u32 \<Rightarrow> db_down \<Rightarrow> client_handle \<Rightarrow> base_packet \<Rightarrow> subpacket list \<Rightarrow> world_server \<Rightarrow>
    world_server \<times> world_out list \<times> handled" where
  "dispatch_all now down client packet [] s = (s, [], Done)"
| "dispatch_all now down client packet (sub # subs) s =
     (case dispatch_subpacket now down client packet sub s of
        (s, outs, Done) \<Rightarrow>
          (case dispatch_all now down client packet subs s of (s, outs', r) \<Rightarrow> (s, outs @ outs', r))
      | (s, outs, r) \<Rightarrow> (s, outs, r))"

definition process_packet ::
    "(u8 list \<Rightarrow> (packet_error, u8 list) outcome) \<Rightarrow> u32 \<Rightarrow> db_down \<Rightarrow> client_handle \<Rightarrow> base_packet \<Rightarrow> world_server \<Rightarrow>
      world_server \<times> world_out list \<times> handled" where
  "process_packet inflate now down client packet s =
     (case (if is_compressed (bp_header packet) = 1 then packet_decompress inflate packet else Ok packet) of
        Err _ \<Rightarrow> (s, [], Failed)
      | Panic \<Rightarrow> (s, [], Panicked)
      | Ok packet \<Rightarrow>
          (case get_subpackets packet of
             Err _ \<Rightarrow> (s, [], Failed)
           | Panic \<Rightarrow> (s, [], Panicked)
           | Ok subs \<Rightarrow> dispatch_all now down client packet subs s))"

section \<open>The reader of a map server's connection\<close>

definition relay_session :: "u32 \<Rightarrow> world_server \<Rightarrow> wsession option" where
  "relay_session target s =
     (case sr_get ZoneChannel target s of Some session \<Rightarrow> Some session | None \<Rightarrow> sr_get ChatChannel target s)"

definition zone_reply :: "u32 \<Rightarrow> db_down \<Rightarrow> subpacket \<Rightarrow> world_server \<Rightarrow> world_server \<times> world_out list" where
  "zone_reply now down sub s =
     (case zone_reply_route sub of
        ControlPacket \<Rightarrow> (case handle_world_packet now down sub s of (s, outs, _) \<Rightarrow> (s, outs))
      | DropUntargeted \<Rightarrow> (s, [])
      | RelayToClient target \<Rightarrow>
          (s, case relay_session target s of Some session \<Rightarrow> [to_session session sub] | None \<Rightarrow> []))"

fun zone_replies :: "u32 \<Rightarrow> db_down \<Rightarrow> subpacket list \<Rightarrow> world_server \<Rightarrow> world_server \<times> world_out list" where
  "zone_replies now down [] s = (s, [])"
| "zone_replies now down (sub # subs) s =
     (case zone_reply now down sub s of (s, outs) \<Rightarrow>
       (case zone_replies now down subs s of (s, outs') \<Rightarrow> (s, outs @ outs')))"

text \<open>A decompression or parse error skips the packet and keeps the connection.\<close>

definition zone_packet ::
    "(u8 list \<Rightarrow> (packet_error, u8 list) outcome) \<Rightarrow> u32 \<Rightarrow> db_down \<Rightarrow> base_packet \<Rightarrow> world_server \<Rightarrow>
      world_server \<times> world_out list \<times> handled" where
  "zone_packet inflate now down packet s =
     (case (if is_compressed (bp_header packet) = 1 then packet_decompress inflate packet else Ok packet) of
        Err _ \<Rightarrow> (s, [], Done)
      | Panic \<Rightarrow> (s, [], Panicked)
      | Ok packet \<Rightarrow>
          (case get_subpackets packet of
             Err _ \<Rightarrow> (s, [], Done)
           | Panic \<Rightarrow> (s, [], Panicked)
           | Ok subs \<Rightarrow> (case zone_replies now down subs s of (s, outs) \<Rightarrow> (s, outs, Done))))"

end
