(* ===== verification/WorldServerLaws.thy ===== *)
theory WorldServerLaws
  imports WorldHandlers EventLog
begin

text \<open>
  The session laws of the world server. A configuration is the server's state with the connections whose
  read-loop still runs; a step accepts a socket, handles a packet of a live connection, tears a connection
  down, or handles a packet of a map server. The invariant ties every registered session to the connection
  that created it, which is what makes the teardown exact.
\<close>

section \<open>What a handler does to the sessions\<close>

definition sess_view :: "world_server \<Rightarrow> session_channel \<Rightarrow> u32 \<Rightarrow> (u32 \<times> client_handle) option" where
  "sess_view s ch i = map_option (\<lambda>x. (wss_session_id x, wss_client x)) (sr_map ch s i)"

definition sessions_within :: "world_server \<Rightarrow> world_server \<Rightarrow> bool" where
  "sessions_within s s' \<longleftrightarrow>
     (\<forall>ch i v. sess_view s' ch i = Some v \<longrightarrow> sess_view s ch i = Some v)
     \<and> wsv_owned s' = wsv_owned s \<and> wsv_conn_seq s' = wsv_conn_seq s"

lemma sessions_within_refl [simp, intro]: "sessions_within s s"
  by (simp add: sessions_within_def)

lemma sessions_within_trans [trans]: "sessions_within s s' \<Longrightarrow> sessions_within s' s'' \<Longrightarrow> sessions_within s s''"
  by (simp add: sessions_within_def)

lemma sessions_within_same:
  assumes "wsv_zone s' = wsv_zone s" and "wsv_chat s' = wsv_chat s" and "wsv_owned s' = wsv_owned s"
    and "wsv_conn_seq s' = wsv_conn_seq s"
  shows "sessions_within s s'"
proof -
  have "sr_map ch s' = sr_map ch s" for ch using assms by (cases ch) simp_all
  then show ?thesis using assms by (simp add: sessions_within_def sess_view_def)
qed

lemma sr_map_update: "sr_map ch (sr_update ch' f s) = (if ch = ch' then f (sr_map ch s) else sr_map ch s)"
  by (cases ch; cases ch') simp_all

lemma sr_update_fields [simp]:
  "wsv_owned (sr_update ch f s) = wsv_owned s" "wsv_conn_seq (sr_update ch f s) = wsv_conn_seq s"
  "wsv_pending_ends (sr_update ch f s) = wsv_pending_ends s" "wsv_routing (sr_update ch f s) = wsv_routing s"
  "wsv_db (sr_update ch f s) = wsv_db s" "wsv_parties (sr_update ch f s) = wsv_parties s"
  "wsv_linkshells (sr_update ch f s) = wsv_linkshells s" "wsv_names (sr_update ch f s) = wsv_names s"
  "wsv_next_group (sr_update ch f s) = wsv_next_group s"
  by (cases ch; simp)+

lemma sr_remove_fields [simp]:
  "wsv_owned (sr_remove ch i s) = wsv_owned s" "wsv_conn_seq (sr_remove ch i s) = wsv_conn_seq s"
  "wsv_pending_ends (sr_remove ch i s) = wsv_pending_ends s" "wsv_routing (sr_remove ch i s) = wsv_routing s"
  "wsv_db (sr_remove ch i s) = wsv_db s"
  by (simp_all add: sr_remove_def)

lemma sr_map_remove: "sr_map ch (sr_remove ch' i s) = (if ch = ch' then (sr_map ch s)(i := None) else sr_map ch s)"
  by (simp add: sr_remove_def sr_map_update)

lemma sr_map_pending [simp]:
  "sr_map ch (s\<lparr>wsv_pending_ends := p\<rparr>) = sr_map ch s" "sr_map ch (s\<lparr>wsv_owned := ow\<rparr>) = sr_map ch s"
  "sr_map ch (s\<lparr>wsv_names := n\<rparr>) = sr_map ch s" "sr_map ch (s\<lparr>wsv_conn_seq := c\<rparr>) = sr_map ch s"
  "sr_map ch (s\<lparr>wsv_routing := rt\<rparr>) = sr_map ch s"
  by (cases ch; simp)+

lemma sr_map_mark [simp]: "sr_map ch (mark_pending_end i c s) = sr_map ch s"
  by (simp add: mark_pending_end_def)

lemma mark_fields [simp]:
  "wsv_owned (mark_pending_end i c s) = wsv_owned s" "wsv_conn_seq (mark_pending_end i c s) = wsv_conn_seq s"
  by (simp_all add: mark_pending_end_def)

lemma sessions_within_remove: "sessions_within s (sr_remove ch i s)"
  by (auto simp: sessions_within_def sess_view_def sr_map_remove)

lemma sessions_within_modify:
  assumes "\<And>x. wss_session_id (f x) = wss_session_id x \<and> wss_client (f x) = wss_client x"
  shows "sessions_within s (modify_wsession i f s)"
proof -
  have "sess_view (modify_wsession i f s) ch j = sess_view s ch j" for ch j
    using assms by (cases ch) (auto simp: sess_view_def modify_wsession_def option.map_comp comp_def)
  then show ?thesis by (simp add: sessions_within_def modify_wsession_def)
qed

lemma sessions_within_end_confirmed: "sessions_within s (end_confirmed i s)"
proof -
  let ?p = "s\<lparr>wsv_pending_ends := (wsv_pending_ends s)(i := None)\<rparr>"
  have "sessions_within s ?p" by (rule sessions_within_same) simp_all
  moreover have "sessions_within ?p (sr_remove ChatChannel i (sr_remove ZoneChannel i ?p))"
    by (meson sessions_within_remove sessions_within_trans)
  ultimately show ?thesis
    unfolding end_confirmed_def take_pending_end_def Let_def prod.case
    by (auto intro: sessions_within_trans)
qed

lemma sessions_within_end_confirm: "sessions_within s (fst (handle_end_confirm now sub s))"
  unfolding handle_end_confirm_def Let_def
  by (auto split: outcome.splits world_packet.splits option.splits
    intro: sessions_within_end_confirmed sessions_within_modify)

lemma sessions_within_zone_change: "sessions_within s (fst (handle_zone_change_request now sub s))"
  by (auto simp: handle_zone_change_request_def split: outcome.splits world_packet.splits option.splits)

lemma sessions_within_party:
  "sessions_within s (fst (handle_party_modify sub s))"
  "sessions_within s (fst (handle_party_leave sub s))"
  "sessions_within s (fst (handle_party_invite sub s))"
  "sessions_within s (fst (handle_group_invite_result sub s))"
  by (auto simp: handle_party_modify_def handle_party_leave_def handle_party_invite_def
      handle_group_invite_result_def Let_def
    split: outcome.splits world_packet.splits option.splits prod.splits intro: sessions_within_same)

lemma load_linkshell_same:
  "load_linkshell down name s = (s', r) \<Longrightarrow> sessions_within s s'"
  by (auto simp: load_linkshell_def split: prod.splits intro: sessions_within_same)

lemma set_linkshells_same: "sessions_within s (set_linkshells r s)"
  by (rule sessions_within_same) (simp_all add: set_linkshells_def)

lemma sessions_within_linkshell_edit:
  "sessions_within s (fst (handle_create_linkshell now down sub s))"
  "sessions_within s (fst (handle_modify_linkshell down sub s))"
  "sessions_within s (fst (handle_delete_linkshell sub s))"
  by (auto simp: handle_create_linkshell_def handle_modify_linkshell_def handle_delete_linkshell_def Let_def
    split: outcome.splits world_packet.splits option.splits prod.splits
    intro: sessions_within_same set_linkshells_same)

lemma sessions_within_linkshell_change: "sessions_within s (fst (handle_linkshell_change down sub s))"
proof -
  have "sessions_within s (modify_wsession i (\<lambda>x. x\<lparr>wss_active_linkshell_name := n\<rparr>) (s\<lparr>wsv_db := db\<rparr>))" for i n db
    by (rule sessions_within_trans [OF _ sessions_within_modify]) (auto intro: sessions_within_same)
  then show ?thesis
    by (auto simp: handle_linkshell_change_def Let_def split: outcome.splits world_packet.splits option.splits)
qed

lemma sessions_within_linkshell_roster:
  "sessions_within s (fst (handle_linkshell_invite now down sub s))"
  "sessions_within s (fst (handle_linkshell_leave now down sub s))"
  "sessions_within s (fst (handle_linkshell_rank_change now down sub s))"
  by (auto simp: handle_linkshell_invite_def handle_linkshell_leave_def handle_linkshell_rank_change_def Let_def
    split: outcome.splits world_packet.splits option.splits prod.splits if_splits
    dest!: load_linkshell_same intro: sessions_within_trans [OF _ set_linkshells_same])

lemmas sessions_within_handlers =
  sessions_within_end_confirm sessions_within_zone_change sessions_within_party sessions_within_linkshell_edit
  sessions_within_linkshell_change sessions_within_linkshell_roster

lemma sessions_within_world_packet: "sessions_within s (fst (handle_world_packet now down sub s))"
  unfolding handle_world_packet_def Let_def
  by (simp add: sessions_within_handlers handle_begin_confirm_def handle_linkshell_invite_cancel_def)

lemma sessions_within_game_message: "fst (handle_game_message now sub s) = s"
  by (auto simp: handle_game_message_def Let_def split: option.splits)

section \<open>Configurations and steps\<close>

record world_config =
  wc_server :: world_server
  wc_live :: "u64 set"

text \<open>
  The connection numbers do not wrap within a run: a step accepts a socket only below the last number.
\<close>

inductive world_step :: "world_config \<Rightarrow> world_config \<Rightarrow> world_out list \<Rightarrow> bool" where
  ws_accept: "wsv_conn_seq s + 1 \<noteq> 0 \<Longrightarrow> accept_connection s = (client, s') \<Longrightarrow>
    world_step \<lparr>wc_server = s, wc_live = live\<rparr> \<lparr>wc_server = s', wc_live = insert (ch_conn_seq client) live\<rparr> []"
| ws_packet: "ch_conn_seq client \<in> live \<Longrightarrow> process_packet inflate now down client packet s = (s', outs, r) \<Longrightarrow>
    world_step \<lparr>wc_server = s, wc_live = live\<rparr> \<lparr>wc_server = s', wc_live = live\<rparr> outs"
| ws_disconnect: "handle_disconnect now client s = (s', outs) \<Longrightarrow>
    world_step \<lparr>wc_server = s, wc_live = live\<rparr> \<lparr>wc_server = s', wc_live = live - {ch_conn_seq client}\<rparr> outs"
| ws_zone_packet: "zone_packet inflate now down packet s = (s', outs, r) \<Longrightarrow>
    world_step \<lparr>wc_server = s, wc_live = live\<rparr> \<lparr>wc_server = s', wc_live = live\<rparr> outs"
| ws_zone_up: "world_step \<lparr>wc_server = s, wc_live = live\<rparr>
    \<lparr>wc_server = register_zone_server zone_ids handle s, wc_live = live\<rparr> []"
| ws_zone_down: "world_step \<lparr>wc_server = s, wc_live = live\<rparr>
    \<lparr>wc_server = unregister_zone_server zone_ids s, wc_live = live\<rparr> []"

inductive_cases world_stepE: "world_step c c' outs"

definition world_start :: "world_db \<Rightarrow> (u32 \<times> u8 list) list \<Rightarrow> world_config" where
  "world_start db names =
     \<lparr>wc_server = sr_preload_names names
        \<lparr>wsv_zone = Map.empty, wsv_chat = Map.empty, wsv_names = Map.empty, wsv_pending_ends = Map.empty,
         wsv_owned = (\<lambda>_. []), wsv_conn_seq = 1, wsv_routing = Map.empty, wsv_parties = Map.empty,
         wsv_linkshells = linkshell_manager_new, wsv_next_group = FIRST_GROUP_ID, wsv_db = db\<rparr>,
      wc_live = {}\<rparr>"

section \<open>The invariant\<close>

definition sessions_owned :: "world_server \<Rightarrow> u64 set \<Rightarrow> bool" where
  "sessions_owned s live \<longleftrightarrow>
     (\<forall>ch i sid client. sess_view s ch i = Some (sid, client) \<longrightarrow>
        sid = i \<and> ch_conn_seq client \<in> live \<and> (ch, i) \<in> set (wsv_owned s (ch_conn_seq client)))
     \<and> (\<forall>c \<in> live. c < wsv_conn_seq s)"

lemma sessions_ownedI:
  assumes "\<And>ch i x. sr_map ch s i = Some x \<Longrightarrow>
      wss_session_id x = i \<and> conn_of x \<in> live \<and> (ch, i) \<in> set (wsv_owned s (conn_of x))"
    and "\<And>c. c \<in> live \<Longrightarrow> c < wsv_conn_seq s"
  shows "sessions_owned s live"
  unfolding sessions_owned_def sess_view_def using assms by (auto simp: conn_of_def)

lemma sessions_ownedD:
  assumes "sessions_owned s live" and "sr_map ch s i = Some x"
  shows "wss_session_id x = i \<and> conn_of x \<in> live \<and> (ch, i) \<in> set (wsv_owned s (conn_of x))"
proof -
  have "sess_view s ch i = Some (wss_session_id x, wss_client x)" using assms(2) by (simp add: sess_view_def)
  with assms(1) show ?thesis unfolding sessions_owned_def conn_of_def by blast
qed

lemma owned_within: "sessions_owned s live \<Longrightarrow> sessions_within s s' \<Longrightarrow> sessions_owned s' live"
  unfolding sessions_owned_def sessions_within_def by (elim conjE) (simp, blast)

lemma sr_add_map: "sr_map ch (sr_add ch' i x s) = (if ch = ch' then (sr_map ch s)(i \<mapsto> x) else sr_map ch s)"
  by (simp add: sr_add_def Let_def sr_map_update)

lemma sr_add_fields [simp]:
  "wsv_owned (sr_add ch i x s) = wsv_owned s" "wsv_conn_seq (sr_add ch i x s) = wsv_conn_seq s"
  by (simp_all add: sr_add_def Let_def)

lemma owned_add_note:
  assumes "sessions_owned s live" and "ch_conn_seq client \<in> live" and "wss_session_id x = i" and "wss_client x = client"
  shows "sessions_owned (note_owned client ch i (sr_add ch i x s)) live"
proof (rule sessions_ownedI)
  fix ch' j y assume y: "sr_map ch' (note_owned client ch i (sr_add ch i x s)) j = Some y"
  show "wss_session_id y = j \<and> conn_of y \<in> live
    \<and> (ch', j) \<in> set (wsv_owned (note_owned client ch i (sr_add ch i x s)) (conn_of y))"
  proof (cases "ch' = ch \<and> j = i")
    case True
    with y assms show ?thesis by (auto simp: note_owned_def sr_add_map conn_of_def)
  next
    case False
    with y have "sr_map ch' s j = Some y" by (auto simp: note_owned_def sr_add_map split: if_splits)
    with sessions_ownedD [OF assms(1) this] show ?thesis
      by (cases "conn_of y = ch_conn_seq client") (simp_all add: note_owned_def)
  qed
next
  fix c assume "c \<in> live"
  with assms(1) show "c < wsv_conn_seq (note_owned client ch i (sr_add ch i x s))"
    by (simp add: note_owned_def sessions_owned_def)
qed

lemma sessions_within_request_end: "sessions_within s (fst (request_end now i c r s))"
  by (auto simp: request_end_def mark_pending_end_def split: option.splits intro: sessions_within_same)

lemma sessions_within_remove_if: "sessions_within s (fst (sr_remove_if ch i c s))"
  by (auto simp: sr_remove_if_def split: option.splits intro: sessions_within_remove)

lemma sessions_within_evict: "sessions_within s (fst (end_existing_session now ch old client s))"
proof -
  let ?s1 = "fst (if ch = ZoneChannel then request_end now (wss_session_id old) (conn_of old) (wss_routing1 old) s else (s, []))"
  have "sessions_within s ?s1" by (simp add: sessions_within_request_end)
  then have "sessions_within s (fst (sr_remove_if ch (wss_session_id old) (conn_of old) ?s1))"
    by (rule sessions_within_trans) (rule sessions_within_remove_if)
  then show ?thesis
    by (auto simp: end_existing_session_def Let_def case_prod_beta)
qed

lemma hello_session_view [simp]:
  "wss_session_id (hello_session down i ch client s) = i" "wss_client (hello_session down i ch client s) = client"
  by (auto simp: hello_session_def wsession_new_def Let_def split: option.splits)

lemma owned_hello:
  assumes "sessions_owned s live" and "ch_conn_seq client \<in> live"
  shows "sessions_owned (fst (handle_hello now down client packet s)) live"
proof (cases "hello_parse (bp_data packet)")
  case None
  with assms show ?thesis by (simp add: handle_hello_def)
next
  case (Some i)
  define ch where "ch = channel_of (connection_type (bp_header packet))"
  define s1 where "s1 = fst (case sr_get ch i s of Some old \<Rightarrow> end_existing_session now ch old client s | None \<Rightarrow> (s, []))"
  have "sessions_within s s1"
    by (auto simp: s1_def sessions_within_evict split: option.split)
  with assms(1) have "sessions_owned s1 live" by (rule owned_within)
  then show ?thesis
    using Some assms(2)
    by (simp add: handle_hello_def Let_def case_prod_beta ch_def [symmetric] s1_def [symmetric] owned_add_note)
qed

lemma owned_dispatch:
  assumes "sessions_owned s live" and "ch_conn_seq client \<in> live"
  shows "sessions_owned (fst (dispatch_subpacket now down client packet sub s)) live"
  using assms owned_hello [OF assms] owned_within [OF assms(1) sessions_within_world_packet]
  by (simp add: dispatch_subpacket_def Let_def sessions_within_game_message handle_ping_def)

lemma owned_dispatch_all:
  assumes "sessions_owned s live" and "ch_conn_seq client \<in> live"
  shows "sessions_owned (fst (dispatch_all now down client packet subs s)) live"
  using assms
proof (induction subs arbitrary: s)
  case (Cons sub subs)
  obtain s1 outs r where d: "dispatch_subpacket now down client packet sub s = (s1, outs, r)"
    by (rule prod_cases3)
  with owned_dispatch [OF Cons(2,3), of now down packet sub] have "sessions_owned s1 live" by simp
  with Cons d show ?case by (cases r) (simp_all add: case_prod_beta)
qed simp

lemma owned_process_packet:
  assumes "sessions_owned s live" and "ch_conn_seq client \<in> live"
  shows "sessions_owned (fst (process_packet inflate now down client packet s)) live"
  using assms by (auto simp: process_packet_def owned_dispatch_all split: outcome.split)

lemma sessions_within_zone_reply: "sessions_within s (fst (zone_reply now down sub s))"
  using sessions_within_world_packet [of s now down sub]
  by (auto simp: zone_reply_def split: zone_reply_route.split prod.split)

lemma sessions_within_zone_replies: "sessions_within s (fst (zone_replies now down subs s))"
proof (induction subs arbitrary: s)
  case (Cons sub subs)
  obtain s1 outs where d: "zone_reply now down sub s = (s1, outs)" by (rule prod.exhaust)
  with sessions_within_zone_reply [of s now down sub] have "sessions_within s s1" by simp
  with Cons [of s1] d show ?case by (auto simp: case_prod_beta intro: sessions_within_trans)
qed simp

lemma sessions_within_zone_packet: "sessions_within s (fst (zone_packet inflate now down packet s))"
  by (auto simp: zone_packet_def case_prod_beta sessions_within_zone_replies split: outcome.split)

section \<open>Tearing a connection down\<close>

definition torn_down :: "u64 \<Rightarrow> (session_channel \<times> u32) list \<Rightarrow> world_server \<Rightarrow> session_channel \<Rightarrow> u32 \<Rightarrow> bool" where
  "torn_down c owned s ch i \<longleftrightarrow>
     (ch, i) \<in> set owned \<and> (\<exists>x. sr_map ch s i = Some x \<and> conn_of x = c)"

definition end_frames :: "u32 \<Rightarrow> u64 \<Rightarrow> (session_channel \<times> u32) list \<Rightarrow> world_server \<Rightarrow> world_out set" where
  "end_frames now c owned s =
     {ToZone h (ws_session_end now i) | h i x.
        (ZoneChannel, i) \<in> set owned \<and> wsv_zone s i = Some x \<and> conn_of x = c \<and> wss_routing1 x = Some h}"

lemma sr_remove_if_matching:
  "sr_map ch s i = Some x \<Longrightarrow> conn_of x = c \<Longrightarrow> sr_remove_if ch i c s = (sr_remove ch i s, True)"
  by (simp add: sr_remove_if_def conn_of_def)

lemma request_end_map [simp]: "sr_map ch (fst (request_end now i c r s)) = sr_map ch s"
  by (auto simp: request_end_def split: option.split)

lemma disconnect_skip:
  "\<not> (\<exists>x. sr_map ch s i = Some x \<and> conn_of x = c) \<Longrightarrow>
    disconnect_owned now c ((ch, i) # owned) s = disconnect_owned now c owned s"
  by (auto simp: sr_get_def split: option.split)

lemma disconnect_take:
  assumes "sr_map ch s i = Some x" and "conn_of x = c"
  shows "disconnect_owned now c ((ch, i) # owned) s =
    (let e = (if ch = ZoneChannel then request_end now i c (wss_routing1 x) s else (s, []));
         r = disconnect_owned now c owned (sr_remove ch i (fst e))
     in (fst r, snd e @ snd r))"
proof -
  let ?e = "if ch = ZoneChannel then request_end now i c (wss_routing1 x) s else (s, [])"
  have "sr_remove_if ch i c (fst ?e) = (sr_remove ch i (fst ?e), True)"
    using assms by (cases ch) (simp_all add: sr_remove_if_matching del: sr_map.simps)
  then show ?thesis
    using assms by (simp add: sr_get_def Let_def case_prod_beta)
qed

lemma removed_first_map:
  "sr_map ch' (sr_remove ch i (fst (if ch = ZoneChannel then request_end now i c r s else (s, [])))) j
    = (if ch' = ch \<and> j = i then None else sr_map ch' s j)"
  by (simp add: sr_map_remove)

lemma disconnect_owned_map:
  "sr_map ch (fst (disconnect_owned now c owned s)) i = (if torn_down c owned s ch i then None else sr_map ch s i)"
proof (induction owned arbitrary: s)
  case Nil
  then show ?case by (simp add: torn_down_def)
next
  case (Cons p owned)
  obtain ch' j where p: "p = (ch', j)" by (rule prod.exhaust)
  show ?case
  proof (cases "\<exists>x. sr_map ch' s j = Some x \<and> conn_of x = c")
    case False
    with Cons disconnect_skip [OF this, of now owned] p show ?thesis by (auto simp: torn_down_def)
  next
    case True
    then obtain x where x: "sr_map ch' s j = Some x" "conn_of x = c" by blast
    show ?thesis
      unfolding p disconnect_take [OF x] Let_def fst_conv Cons torn_down_def removed_first_map
      using x by auto
  qed
qed

fun end_frame :: "u32 \<Rightarrow> u64 \<Rightarrow> world_server \<Rightarrow> session_channel \<times> u32 \<Rightarrow> world_out set" where
  "end_frame now c s (ch, i) =
     (case (if ch = ZoneChannel then wsv_zone s i else None) of
        Some x \<Rightarrow> if conn_of x = c then set (snd (request_end now i c (wss_routing1 x) s)) else {}
      | None \<Rightarrow> {})"

lemma end_frames_UN: "end_frames now c owned s = (\<Union>p \<in> set owned. end_frame now c s p)"
  by (auto simp: end_frames_def request_end_def split: option.splits if_splits) force+

lemma request_end_frames:
  "snd (request_end now i c r s) = (case r of Some h \<Rightarrow> [ToZone h (ws_session_end now i)] | None \<Rightarrow> [])"
  by (simp add: request_end_def split: option.split)

lemma end_frame_matching:
  assumes "sr_map ch s j = Some x" and "conn_of x = c"
  shows "end_frame now c s (ch, j)
    = set (snd (if ch = ZoneChannel then request_end now j c (wss_routing1 x) s else (s, [])))"
  using assms by (cases ch) simp_all

lemma end_frame_other:
  "\<not> (\<exists>x. sr_map ch s j = Some x \<and> conn_of x = c) \<Longrightarrow> end_frame now c s (ch, j) = {}"
  by (cases ch) (auto split: option.split)

lemma end_frame_removed:
  "end_frame now c (sr_remove ch j (fst (if ch = ZoneChannel then request_end now j d r s else (s, [])))) p
    = (if p = (ch, j) then {} else end_frame now c s p)"
proof -
  obtain ch' k where p: "p = (ch', k)" by (rule prod.exhaust)
  show ?thesis
    using removed_first_map [of ZoneChannel ch j now d r s k]
    by (auto simp: p request_end_frames split: option.splits)
qed

lemma disconnect_owned_frames:
  "set (snd (disconnect_owned now c owned s)) = end_frames now c owned s"
  unfolding end_frames_UN
proof (induction owned arbitrary: s)
  case (Cons p owned)
  obtain ch j where p: "p = (ch, j)" by (rule prod.exhaust)
  show ?case
  proof (cases "\<exists>x. sr_map ch s j = Some x \<and> conn_of x = c")
    case False
    show ?thesis
      unfolding p disconnect_skip [OF False, of now owned] Cons by (simp add: end_frame_other [OF False] del: end_frame.simps)
  next
    case True
    then obtain x where x: "sr_map ch s j = Some x" "conn_of x = c" by blast
    show ?thesis
      unfolding p disconnect_take [OF x] Let_def snd_conv set_append Cons end_frame_matching [OF x, symmetric]
        end_frame_removed
      by (auto split: if_splits simp del: end_frame.simps)
  qed
qed simp

lemma disconnect_within: "sessions_within s (fst (disconnect_owned now c owned s))"
proof (induction owned arbitrary: s)
  case (Cons p owned)
  obtain ch j where p: "p = (ch, j)" by (rule prod.exhaust)
  show ?case
  proof (cases "\<exists>x. sr_map ch s j = Some x \<and> conn_of x = c")
    case False
    with Cons p disconnect_skip [OF this, of now owned] show ?thesis by simp
  next
    case True
    then obtain x where x: "sr_map ch s j = Some x" "conn_of x = c" by blast
    let ?e = "if ch = ZoneChannel then request_end now j c (wss_routing1 x) s else (s, [])"
    have "sessions_within s (fst ?e)" by (simp add: sessions_within_request_end)
    also have "sessions_within (fst ?e) (sr_remove ch j (fst ?e))" by (rule sessions_within_remove)
    also have "sessions_within (sr_remove ch j (fst ?e)) (fst (disconnect_owned now c owned (sr_remove ch j (fst ?e))))"
      by (rule Cons)
    finally show ?thesis unfolding p disconnect_take [OF x] Let_def fst_conv .
  qed
qed simp

lemma handle_disconnect_map:
  assumes "sessions_owned s live"
  shows "sr_map ch (fst (handle_disconnect now client s)) i =
    (case sr_map ch s i of Some x \<Rightarrow> if conn_of x = ch_conn_seq client then None else Some x | None \<Rightarrow> None)"
proof -
  have "torn_down (ch_conn_seq client) (wsv_owned s (ch_conn_seq client)) s ch i
      \<longleftrightarrow> (\<exists>x. sr_map ch s i = Some x \<and> conn_of x = ch_conn_seq client)"
    unfolding torn_down_def by (auto dest: sessions_ownedD [OF assms])
  then show ?thesis
    by (auto simp: handle_disconnect_def disconnect_owned_map split: option.split)
qed

lemma owned_disconnect:
  assumes "sessions_owned s live"
  shows "sessions_owned (fst (handle_disconnect now client s)) (live - {ch_conn_seq client})"
proof -
  let ?s' = "fst (handle_disconnect now client s)"
  have w: "sessions_within s ?s'" by (simp add: handle_disconnect_def disconnect_within)
  show ?thesis
  proof (rule sessions_ownedI)
    fix ch i x assume x: "sr_map ch ?s' i = Some x"
    with handle_disconnect_map [OF assms, of ch now client i]
    have "conn_of x \<noteq> ch_conn_seq client" by (auto split: option.split_asm if_split_asm)
    with sessions_ownedD [OF owned_within [OF assms w] x]
    show "wss_session_id x = i \<and> conn_of x \<in> live - {ch_conn_seq client} \<and> (ch, i) \<in> set (wsv_owned ?s' (conn_of x))"
      by simp
  next
    fix c assume "c \<in> live - {ch_conn_seq client}"
    with assms w show "c < wsv_conn_seq ?s'" by (simp add: sessions_owned_def sessions_within_def)
  qed
qed

section \<open>Reachable configurations\<close>

lemma register_zone_within: "sessions_within s (register_zone_server zs h s)"
proof (induction zs arbitrary: s)
  case (Cons z zs)
  have "sessions_within s (s\<lparr>wsv_routing := (wsv_routing s)(z \<mapsto> h)\<rparr>)" by (rule sessions_within_same) simp_all
  with Cons show ?case by (auto intro: sessions_within_trans)
qed simp

lemma unregister_zone_within: "sessions_within s (unregister_zone_server zs s)"
proof (induction zs arbitrary: s)
  case (Cons z zs)
  have "sessions_within s (s\<lparr>wsv_routing := (wsv_routing s)(z := None)\<rparr>)" by (rule sessions_within_same) simp_all
  with Cons show ?case by (auto intro: sessions_within_trans)
qed simp

lemma owned_accept:
  assumes "sessions_owned s live" and "wsv_conn_seq s + 1 \<noteq> 0" and "accept_connection s = (client, s')"
  shows "sessions_owned s' (insert (ch_conn_seq client) live)"
proof -
  have s': "s' = s\<lparr>wsv_conn_seq := wsv_conn_seq s + 1, wsv_owned := (wsv_owned s)(wsv_conn_seq s := [])\<rparr>"
    and c: "ch_conn_seq client = wsv_conn_seq s"
    using assms(3) by (auto simp: accept_connection_def)
  have lt: "wsv_conn_seq s < wsv_conn_seq s + 1" using unatSuc [of "wsv_conn_seq s"] assms(2) by (simp add: word_less_nat_alt add.commute)
  have live: "d < wsv_conn_seq s" if "d \<in> live" for d using assms(1) that by (simp add: sessions_owned_def)
  show ?thesis
  proof (rule sessions_ownedI)
    fix ch i x assume "sr_map ch s' i = Some x"
    then have x: "sr_map ch s i = Some x" by (simp add: s')
    from sessions_ownedD [OF assms(1) x] live [of "conn_of x"]
    show "wss_session_id x = i \<and> conn_of x \<in> insert (ch_conn_seq client) live \<and> (ch, i) \<in> set (wsv_owned s' (conn_of x))"
      by (auto simp: s' c)
  next
    fix d assume "d \<in> insert (ch_conn_seq client) live"
    with live lt show "d < wsv_conn_seq s'" by (auto simp: s' c intro: less_trans)
  qed
qed

text \<open>The contract of a step relation that keeps a property of its states; an event log is one.\<close>

locale step_invariant =
  fixes step :: "'s \<Rightarrow> 's \<Rightarrow> 'e list \<Rightarrow> bool"
    and inv :: "'s \<Rightarrow> bool"
  assumes step_keeps: "inv s \<Longrightarrow> step s s' es \<Longrightarrow> inv s'"
begin

lemma run_keeps: "emits_star step s s' es \<Longrightarrow> inv s \<Longrightarrow> inv s'"
  by (induction rule: emits_star.induct) (auto intro: step_keeps)

end

sublocale event_log \<subseteq> keeps: step_invariant step inv
  by unfold_locales (rule step_inv)

definition config_tied :: "world_config \<Rightarrow> bool" where
  "config_tied c \<longleftrightarrow> sessions_owned (wc_server c) (wc_live c)"

interpretation world_run: step_invariant world_step config_tied
proof
  fix c c' outs assume inv: "config_tied c" and "world_step c c' outs"
  from this(2) inv show "config_tied c'"
  proof (cases rule: world_step.cases)
    case (ws_accept s client s' live)
    with inv show ?thesis by (simp add: config_tied_def owned_accept)
  next
    case (ws_packet client live inflate now down packet s s' r)
    with inv owned_process_packet [of s live client inflate now down packet] show ?thesis
      by (simp add: config_tied_def)
  next
    case (ws_disconnect now client s s' live)
    with inv owned_disconnect [of s live now client] show ?thesis by (simp add: config_tied_def)
  next
    case (ws_zone_packet inflate now down packet s s' r live)
    with inv sessions_within_zone_packet [of s inflate now down packet] show ?thesis
      by (auto simp: config_tied_def intro: owned_within)
  next
    case (ws_zone_up s live zs h)
    with inv show ?thesis by (auto simp: config_tied_def intro: owned_within register_zone_within)
  next
    case (ws_zone_down s live zs)
    with inv show ?thesis by (auto simp: config_tied_def intro: owned_within unregister_zone_within)
  qed
qed

lemma preload_sessions [simp]:
  "sr_map ch (sr_preload_names names s) = sr_map ch s"
  by (induction names s rule: sr_preload_names.induct) simp_all

lemma start_tied: "config_tied (world_start db names)"
proof -
  have "sr_map ch (wc_server (world_start db names)) i = None" for ch i
    by (cases ch) (simp_all add: world_start_def del: sr_map.simps, simp_all)
  then show ?thesis
    unfolding config_tied_def by (intro sessions_ownedI) (simp_all add: world_start_def)
qed

lemma run_tied: "emits_star world_step (world_start db names) c outs \<Longrightarrow> sessions_owned (wc_server c) (wc_live c)"
  using world_run.run_keeps [OF _ start_tied] by (simp add: config_tied_def)

section \<open>The hello frame\<close>

lemma evict_map:
  assumes "sr_map ch s i = Some old" and "wss_session_id old = i"
  shows "sr_map ch' (fst (end_existing_session now ch old client s)) j
    = (if ch' = ch \<and> j = i \<and> conn_of old \<noteq> ch_conn_seq client then None else sr_map ch' s j)"
proof (cases "conn_of old = ch_conn_seq client")
  case True
  then show ?thesis by (simp add: end_existing_session_def)
next
  case False
  let ?e = "if ch = ZoneChannel then request_end now i (conn_of old) (wss_routing1 old) s else (s, [])"
  have "sr_map ch (fst ?e) i = Some old" using assms(1) by (cases ch) simp_all
  then have "sr_remove_if ch i (conn_of old) (fst ?e) = (sr_remove ch i (fst ?e), True)"
    by (rule sr_remove_if_matching) simp
  then have "fst (end_existing_session now ch old client s) = sr_remove ch i (fst ?e)"
    using False assms(2) by (cases ch) (simp_all add: end_existing_session_def Let_def case_prod_beta)
  then show ?thesis using False removed_first_map [of ch' ch i now "conn_of old" "wss_routing1 old" s j] by simp
qed

lemma evict_outs:
  "wss_session_id old = i \<Longrightarrow> conn_of old \<noteq> ch_conn_seq client \<Longrightarrow>
    snd (end_existing_session now ch old client s) =
      (if ch = ZoneChannel then (case wss_routing1 old of Some h \<Rightarrow> [ToZone h (ws_session_end now i)] | None \<Rightarrow> []) else [])
      @ [Shutdown (conn_of old)]"
  by (auto simp: end_existing_session_def Let_def case_prod_beta request_end_frames)

lemma hello_eq:
  assumes "hello_parse (bp_data packet) = Some i" and "channel_of (connection_type (bp_header packet)) = ch"
  shows "handle_hello now down client packet s =
    (let session = hello_session down i ch client s;
         routing = (if ch = ZoneChannel then zone_server_for (wss_current_zone_id session) s else None);
         e = (case sr_map ch s i of Some old \<Rightarrow> end_existing_session now ch old client s | None \<Rightarrow> (s, []))
     in (note_owned client ch i (sr_add ch i (session\<lparr>wss_routing1 := routing\<rparr>) (fst e)),
         (case routing of Some h \<Rightarrow> [ToZone h (ws_session_begin now i True)] | None \<Rightarrow> []) @ snd e
         @ [ToClient (ch_conn_seq client) (build_0x7_packet now 0x0E016EE5),
            ToClient (ch_conn_seq client) (build_0x2_packet now i)], Done))"
  using assms by (simp add: handle_hello_def Let_def case_prod_beta sr_get_def)

lemma note_owned_map [simp]: "sr_map ch (note_owned client ch' i s) = sr_map ch s"
  by (simp add: note_owned_def)

lemma hello_map:
  assumes "sessions_owned s live" and "hello_parse (bp_data packet) = Some i"
    and "channel_of (connection_type (bp_header packet)) = ch"
  shows "\<exists>x. sr_map ch (fst (handle_hello now down client packet s)) i = Some x \<and> conn_of x = ch_conn_seq client"
    and "(ch', j) \<noteq> (ch, i) \<Longrightarrow> sr_map ch' (fst (handle_hello now down client packet s)) j = sr_map ch' s j"
proof -
  let ?e = "case sr_map ch s i of Some old \<Rightarrow> end_existing_session now ch old client s | None \<Rightarrow> (s, [])"
  have e: "sr_map ch' (fst ?e) j = sr_map ch' s j" if "(ch', j) \<noteq> (ch, i)"
    using that sessions_ownedD [OF assms(1), of ch i] evict_map [of ch s i] by (auto split: option.split)
  show "\<exists>x. sr_map ch (fst (handle_hello now down client packet s)) i = Some x \<and> conn_of x = ch_conn_seq client"
    by (simp add: hello_eq [OF assms(2,3)] Let_def sr_add_map conn_of_def)
  show "sr_map ch' (fst (handle_hello now down client packet s)) j = sr_map ch' s j" if "(ch', j) \<noteq> (ch, i)"
    using that e by (auto simp: hello_eq [OF assms(2,3)] Let_def sr_add_map)
qed

lemma hello_evicts:
  assumes "hello_parse (bp_data packet) = Some i" and "channel_of (connection_type (bp_header packet)) = ch"
    and "sr_map ch s i = Some old" and "wss_session_id old = i" and "conn_of old \<noteq> ch_conn_seq client"
  shows "Shutdown (conn_of old) \<in> set (fst (snd (handle_hello now down client packet s)))"
    and "ch = ZoneChannel \<Longrightarrow> wss_routing1 old = Some h \<Longrightarrow>
      ToZone h (ws_session_end now i) \<in> set (fst (snd (handle_hello now down client packet s)))"
    and "ch = ZoneChannel \<Longrightarrow> wss_routing1 old = Some h \<Longrightarrow>
      wsv_pending_ends (fst (handle_hello now down client packet s)) i = Some (conn_of old)"
proof -
  let ?e = "end_existing_session now ch old client s" and ?r = "handle_hello now down client packet s"
  have sub: "set (snd ?e) \<subseteq> set (fst (snd ?r))"
    unfolding hello_eq [OF assms(1,2)] Let_def assms(3) option.case fst_conv snd_conv set_append by blast
  have pend: "wsv_pending_ends (fst ?r) = wsv_pending_ends (fst ?e)"
    unfolding hello_eq [OF assms(1,2)] Let_def assms(3) option.case fst_conv
    by (simp add: note_owned_def sr_add_def Let_def)
  have "Shutdown (conn_of old) \<in> set (snd ?e)" unfolding evict_outs [OF assms(4,5)] set_append by (rule UnI2) simp
  with sub show "Shutdown (conn_of old) \<in> set (fst (snd ?r))" by (rule subsetD)
  assume h: "ch = ZoneChannel" "wss_routing1 old = Some h"
  have "ToZone h (ws_session_end now i) \<in> set (snd ?e)" unfolding evict_outs [OF assms(4,5)] using h by simp
  with sub show "ToZone h (ws_session_end now i) \<in> set (fst (snd ?r))" by (rule subsetD)
  show "wsv_pending_ends (fst ?r) i = Some (conn_of old)"
    unfolding pend using assms(4,5) h
    by (simp add: end_existing_session_def request_end_def Let_def case_prod_beta sr_remove_if_def mark_pending_end_def
        split: option.split)
qed

section \<open>The end confirm\<close>

lemma end_confirmed_zone:
  "wsv_zone (end_confirmed i s) =
     (case (wsv_zone s i, wsv_pending_ends s i) of
        (Some x, Some c) \<Rightarrow> if c \<noteq> conn_of x then wsv_zone s else (wsv_zone s)(i := None)
      | _ \<Rightarrow> (wsv_zone s)(i := None))"
  by (auto simp: end_confirmed_def take_pending_end_def Let_def sr_get_def sr_remove_def split: option.splits)

lemma end_confirmed_pending:
  "wsv_pending_ends (end_confirmed i s) = (wsv_pending_ends s)(i := None)"
  by (auto simp: end_confirmed_def take_pending_end_def Let_def)

lemma end_confirm_error:
  assumes "session_end_confirm_parse (sp_data sub) = Ok (SessionEndConfirm i e d)" and "e \<noteq> 0"
  shows "handle_end_confirm now sub s = (s, [], Done)"
  using assms by (simp add: handle_end_confirm_def Let_def)

lemma end_confirm_final:
  assumes "session_end_confirm_parse (sp_data sub) = Ok (SessionEndConfirm i 0 0)"
  shows "handle_end_confirm now sub s = (end_confirmed i s, [], Done)"
  using assms by (simp add: handle_end_confirm_def Let_def)

lemma world_packet_end_confirm:
  "sp_type (sp_header sub) = 0x1001 \<Longrightarrow> handle_world_packet now down sub s = handle_end_confirm now sub s"
  by (simp add: handle_world_packet_def Let_def)

lemma control_frame_header [simp]:
  "sp_type (sp_header (control_frame now op i data)) = op"
  "source_id (sp_header (control_frame now op i data)) = i"
  "sp_data (control_frame now op i data) = data"
  by (simp_all add: control_frame_def set_target_id_def new_with_flag_def Let_def)

section \<open>An example run\<close>

text \<open>
  Player 7, saved in zone 5, which map server 3 owns: the map server comes up, a client connects and greets,
  and a second client connects.
\<close>

definition demo_db :: world_db where
  "demo_db = \<lparr>wd_linkshells = [], wd_sequence = 0, wd_members = [],
     wd_characters = [\<lparr>cr_id = 7, cr_name = [65], cr_current_zone_id = 5, cr_active_linkshell = []\<rparr>]\<rparr>"

definition demo_hello_sub :: subpacket where
  "demo_hello_sub = new_with_flag 0 False 1 0 (replicate 4 0 @ [55] @ replicate 11 0)"

definition demo_hello :: base_packet where
  "demo_hello = \<lparr>bp_header = \<lparr>is_authenticated = 0, is_compressed = 0, connection_type = 1, packet_size = 48,
     num_subpackets = 1, bp_timestamp = 0\<rparr>, bp_data = sp_bytes demo_hello_sub\<rparr>"

definition demo_client :: "u64 \<Rightarrow> client_handle" where
  "demo_client n = \<lparr>ch_id = 0, ch_conn_seq = n\<rparr>"

lemma demo_client_seq [simp]: "ch_conn_seq (demo_client n) = n"
  by (simp add: demo_client_def)

definition demo_no_fail :: db_down where
  "demo_no_fail = (\<lambda>_. False)"

definition demo_up :: world_server where
  "demo_up = (wc_server (world_start demo_db []))\<lparr>wsv_routing := [5 \<mapsto> 3]\<rparr>"

definition demo_connected :: world_server where
  "demo_connected = snd (accept_connection demo_up)"

definition demo_greeted :: world_server where
  "demo_greeted = fst (handle_hello 0 demo_no_fail (demo_client 1) demo_hello demo_connected)"

definition demo_both :: world_config where
  "demo_both = \<lparr>wc_server = snd (accept_connection demo_greeted), wc_live = {2, 1}\<rparr>"

lemma demo_hello_parse: "hello_parse (bp_data demo_hello) = Some 7"
  by (simp add: demo_hello_def demo_hello_sub_def sp_bytes_def is_gm_def new_with_flag_def sizes Let_def hello_parse_def
      until_nul_def latin1_trim_def latin1_white_def parse_u32_def)

lemma demo_subpackets: "get_subpackets demo_hello = Ok [demo_hello_sub]"
  using subpackets_from_stream [of "[demo_hello_sub]" "[]"]
  by (simp add: get_subpackets_def demo_hello_def sp_stream_def sp_wf_def demo_hello_sub_def new_with_flag_def sizes Let_def
      is_gm_def sp_len_def)

lemma demo_channel: "channel_of (connection_type (bp_header demo_hello)) = ZoneChannel"
  by (simp add: demo_hello_def channel_of_def)

lemma demo_process:
  "process_packet inflate now down client demo_hello s = handle_hello now down client demo_hello s"
proof -
  have "dispatch_subpacket now down client demo_hello demo_hello_sub s = handle_hello now down client demo_hello s"
    by (simp add: dispatch_subpacket_def demo_hello_sub_def new_with_flag_def Let_def)
  moreover have "snd (snd (handle_hello now down client demo_hello s)) = Done"
    by (simp add: hello_eq [OF demo_hello_parse demo_channel] Let_def)
  moreover have "is_compressed (bp_header demo_hello) = 0" by (simp add: demo_hello_def)
  ultimately show ?thesis
    by (auto simp: process_packet_def demo_subpackets split: prod.splits)
qed

lemma demo_hello_step:
  assumes "ch_conn_seq client \<in> live"
  shows "\<exists>outs. world_step \<lparr>wc_server = s, wc_live = live\<rparr>
    \<lparr>wc_server = fst (handle_hello 0 demo_no_fail client demo_hello s), wc_live = live\<rparr> outs"
proof -
  obtain s' outs r where h: "handle_hello 0 demo_no_fail client demo_hello s = (s', outs, r)" by (rule prod_cases3)
  then have "process_packet Ok 0 demo_no_fail client demo_hello s = (s', outs, r)" by (simp add: demo_process)
  from ws_packet [OF assms this] show ?thesis by (auto simp: h)
qed

lemma demo_seq: "wsv_conn_seq demo_greeted = 2"
  by (simp add: demo_greeted_def hello_eq [OF demo_hello_parse demo_channel] Let_def note_owned_def demo_connected_def
    demo_up_def accept_connection_def world_start_def)

lemma demo_run: "\<exists>outs. emits_star world_step (world_start demo_db []) demo_both outs"
proof -
  let ?start = "world_start demo_db []" and ?step = "world_step"
  have "?step ?start \<lparr>wc_server = demo_up, wc_live = {}\<rparr> []"
    using ws_zone_up [of "wc_server ?start" "{}" "[5]" 3] by (simp add: world_start_def demo_up_def)
  moreover have "?step \<lparr>wc_server = demo_up, wc_live = {}\<rparr> \<lparr>wc_server = demo_connected, wc_live = {1}\<rparr> []"
    using ws_accept [of demo_up "demo_client 1" demo_connected "{}"]
    by (simp add: demo_connected_def demo_client_def accept_connection_def demo_up_def world_start_def)
  moreover obtain outs where "?step \<lparr>wc_server = demo_connected, wc_live = {1}\<rparr> \<lparr>wc_server = demo_greeted, wc_live = {1}\<rparr> outs"
    using demo_hello_step [of "demo_client 1" "{1}" demo_connected]
    by (auto simp: demo_greeted_def demo_client_def)
  moreover have "?step \<lparr>wc_server = demo_greeted, wc_live = {1}\<rparr> demo_both []"
    using ws_accept [of demo_greeted "demo_client 2" "snd (accept_connection demo_greeted)" "{1}"]
    by (simp add: demo_both_def demo_client_def accept_connection_def demo_seq insert_commute)
  ultimately show ?thesis
    by (meson emits_step emits_refl)
qed

text \<open>The session the run leaves registered.\<close>

lemma demo_session:
  "sr_get ZoneChannel 7 (wc_server demo_both) = Some
    \<lparr>wss_session_id = 7, wss_channel = ZoneChannel, wss_client = demo_client 1, wss_character_name = [65],
     wss_current_zone_id = 5, wss_active_linkshell_name = [], wss_routing1 = Some 3, wss_routing2 = None\<rparr>"
  by (simp add: demo_both_def demo_greeted_def hello_eq [OF demo_hello_parse demo_channel] Let_def note_owned_def
    sr_add_def demo_connected_def demo_up_def accept_connection_def world_start_def sr_get_def hello_session_def
    db_session_info_def demo_no_fail_def demo_db_def wsession_new_def zone_server_for_def)

text \<open>An end confirm of session 7, final and without error.\<close>

definition demo_confirm :: subpacket where
  "demo_confirm = control_frame 0 0x1001 7 (le_bytes 4 (7 :: u32) @ le_bytes 2 (0 :: u16) @ le_bytes 4 (0 :: u32))"

lemma demo_confirm_parse: "session_end_confirm_parse (sp_data demo_confirm) = Ok (SessionEndConfirm 7 0 0)"
  by (simp add: demo_confirm_def session_end_confirm_parse_def read_le_def read_exact_def)

lemma demo_confirm_type: "sp_type (sp_header demo_confirm) = 0x1001"
  by (simp add: demo_confirm_def)

lemma demo_no_pending: "wsv_pending_ends (wc_server demo_both) 7 = None"
  by (simp add: demo_both_def demo_greeted_def hello_eq [OF demo_hello_parse demo_channel] Let_def note_owned_def
    sr_add_def demo_connected_def demo_up_def accept_connection_def world_start_def)

section \<open>Properties\<close>



text \<open>
  Tearing a connection down is exact in every reachable configuration: the sessions it still holds
  disappear, every other session stays as it is, also one that took over an id the connection used to own,
  and the frames sent are the session ends of exactly its zone sessions, each to the map server that has it.
\<close>

lemma disconnect_exact:
  assumes "emits_star world_step (world_start db names) c outs"
    and "handle_disconnect now client (wc_server c) = (s', frames)"
  shows "(\<forall>ch i. sr_get ch i s' = (case sr_get ch i (wc_server c) of
      Some x \<Rightarrow> if conn_of x = ch_conn_seq client then None else Some x | None \<Rightarrow> None))
    \<and> set frames = {ToZone h (ws_session_end now i) | h i x. sr_get ZoneChannel i (wc_server c) = Some x
        \<and> conn_of x = ch_conn_seq client \<and> wss_routing1 x = Some h}"
proof
  let ?s = "wc_server c" and ?c = "ch_conn_seq client"
  note tied = run_tied [OF assms(1)]
  show "\<forall>ch i. sr_get ch i s' = (case sr_get ch i ?s of Some x \<Rightarrow> if conn_of x = ?c then None else Some x | None \<Rightarrow> None)"
    using handle_disconnect_map [OF tied, of _ now client] assms(2) by (simp add: sr_get_def)
  have own: "(ZoneChannel, i) \<in> set (wsv_owned ?s ?c)" if "wsv_zone ?s i = Some x" "conn_of x = ?c" for i x
    using sessions_ownedD [OF tied, of ZoneChannel i x] that by simp
  have "set frames = end_frames now ?c (wsv_owned ?s ?c) ?s"
    using disconnect_owned_frames [of now ?c "wsv_owned ?s ?c" ?s] assms(2) by (simp add: handle_disconnect_def)
  also have "\<dots> = {ToZone h (ws_session_end now i) | h i x. sr_get ZoneChannel i ?s = Some x
        \<and> conn_of x = ?c \<and> wss_routing1 x = Some h}"
    unfolding end_frames_def sr_get_def sr_map.simps by (intro Collect_cong iffI; elim exE conjE) (use own in blast)+
  finally show "set frames = {ToZone h (ws_session_end now i) | h i x. sr_get ZoneChannel i ?s = Some x
        \<and> conn_of x = ?c \<and> wss_routing1 x = Some h}" .
qed

lemma disconnect_exact_witness:
  "sr_get ZoneChannel 7 (fst (handle_disconnect 0 (demo_client 1) (wc_server demo_both))) = None"
proof -
  obtain outs where "emits_star world_step (world_start demo_db []) demo_both outs" using demo_run by blast
  from disconnect_exact [OF this, of 0 "demo_client 1", OF surjective_pairing, THEN conjunct1, rule_format, of ZoneChannel 7]
  show ?thesis by (simp add: demo_session conn_of_def)
qed

text \<open>
  A hello always ends with the greeting connection's session registered under the id it names, and
  touches no other registration. When another connection held the id, it is told to shut down, and the map
  server that had its zone session is asked to end it, with the request recorded against the old connection.
\<close>

lemma hello_takes_over:
  assumes "emits_star world_step (world_start db names) c outs0"
    and "hello_parse (bp_data packet) = Some i" and "channel_of (connection_type (bp_header packet)) = ch"
    and "handle_hello now down client packet (wc_server c) = (s', outs, r)"
  shows "(\<exists>x. sr_get ch i s' = Some x \<and> conn_of x = ch_conn_seq client)
    \<and> (\<forall>ch' j. (ch', j) \<noteq> (ch, i) \<longrightarrow> sr_get ch' j s' = sr_get ch' j (wc_server c))
    \<and> (\<forall>old. sr_get ch i (wc_server c) = Some old \<and> conn_of old \<noteq> ch_conn_seq client \<longrightarrow>
         Shutdown (conn_of old) \<in> set outs
         \<and> (\<forall>h. ch = ZoneChannel \<and> wss_routing1 old = Some h \<longrightarrow>
              ToZone h (ws_session_end now i) \<in> set outs \<and> wsv_pending_ends s' i = Some (conn_of old)))"
proof (intro conjI allI impI)
  note tied = run_tied [OF assms(1)]
  show "\<exists>x. sr_get ch i s' = Some x \<and> conn_of x = ch_conn_seq client"
    using hello_map(1) [OF tied assms(2,3), of now down client] assms(4) by (simp add: sr_get_def)
  show "sr_get ch' j s' = sr_get ch' j (wc_server c)" if "(ch', j) \<noteq> (ch, i)" for ch' j
    using hello_map(2) [OF tied assms(2,3) that, of now down client] assms(4) by (simp add: sr_get_def)
  fix old assume "sr_get ch i (wc_server c) = Some old \<and> conn_of old \<noteq> ch_conn_seq client"
  then have old: "sr_map ch (wc_server c) i = Some old" "conn_of old \<noteq> ch_conn_seq client" by (simp_all add: sr_get_def)
  with sessions_ownedD [OF tied, of ch i old] have "wss_session_id old = i" by simp
  note ev = hello_evicts [OF assms(2,3) old(1) this old(2), where now = now and down = down,
    unfolded assms(4) fst_conv snd_conv]
  from ev(1) show "Shutdown (conn_of old) \<in> set outs" .
  fix h assume "ch = ZoneChannel \<and> wss_routing1 old = Some h"
  with ev(2,3) show "ToZone h (ws_session_end now i) \<in> set outs" "wsv_pending_ends s' i = Some (conn_of old)"
    by simp_all
qed

lemma hello_takes_over_witness:
  "Shutdown 1 \<in> set (fst (snd (handle_hello 0 demo_no_fail (demo_client 2) demo_hello (wc_server demo_both))))"
proof -
  obtain outs0 where run: "emits_star world_step (world_start demo_db []) demo_both outs0" using demo_run by blast
  obtain s' outs r where h: "handle_hello 0 demo_no_fail (demo_client 2) demo_hello (wc_server demo_both) = (s', outs, r)"
    by (rule prod_cases3)
  from hello_takes_over [OF run demo_hello_parse demo_channel h] show ?thesis
    by (simp add: h demo_session conn_of_def)
qed

text \<open>
  What a successful final end confirm does to the zone sessions: it drops the session it names unless
  another connection than the recorded one holds it, and it uses the record up. The guard therefore works
  once: when two takeovers of an id left a single record, the first confirm is recognised as stale and the
  second removes the live session.
\<close>

lemma end_confirm_guard:
  assumes "sp_type (sp_header sub) = 0x1001"
    and "session_end_confirm_parse (sp_data sub) = Ok (SessionEndConfirm i 0 0)"
    and "handle_world_packet now down sub s = (s1, outs, r)"
    and "handle_world_packet now down sub s1 = (s2, outs', r')"
  shows "(\<forall>j. sr_get ZoneChannel j s1 =
            (if j = i \<and> \<not> (\<exists>x c. sr_get ZoneChannel i s = Some x \<and> wsv_pending_ends s i = Some c \<and> c \<noteq> conn_of x)
             then None else sr_get ZoneChannel j s))
    \<and> wsv_pending_ends s1 i = None \<and> sr_get ZoneChannel i s2 = None"
proof -
  have s: "s1 = end_confirmed i s" "s2 = end_confirmed i s1"
    using assms(3,4) by (simp_all add: world_packet_end_confirm [OF assms(1)] end_confirm_final [OF assms(2)])
  have "wsv_pending_ends s1 i = None" by (simp add: s(1) end_confirmed_pending)
  then show ?thesis
    by (auto simp: s sr_get_def end_confirmed_zone split: option.splits if_splits)
qed

lemma end_confirm_guard_witness:
  "sr_get ZoneChannel 7 (fst (handle_world_packet 0 demo_no_fail demo_confirm
     (fst (handle_world_packet 0 demo_no_fail demo_confirm (wc_server demo_both))))) = None"
proof -
  obtain s1 o1 r1 where 1: "handle_world_packet 0 demo_no_fail demo_confirm (wc_server demo_both) = (s1, o1, r1)"
    by (rule prod_cases3)
  obtain s2 o2 r2 where 2: "handle_world_packet 0 demo_no_fail demo_confirm s1 = (s2, o2, r2)"
    by (rule prod_cases3)
  from end_confirm_guard [OF demo_confirm_type demo_confirm_parse 1 2] show ?thesis by (simp add: 1 2)
qed

text \<open>
  The reply the map server sends to every session end carries error code 1, and the world server does
  nothing with it: no session, no record and no frame changes, so a requested end is never completed and the
  record stays behind.
\<close>

lemma map_end_reply_ignored:
  assumes "build_session_end now' i 1 0 = Ok sub"
  shows "zone_reply now down sub s = (s, [])"
proof -
  have data: "sp_data sub = le_bytes 4 i @ le_bytes 2 (1 :: u16) @ le_bytes 4 (0 :: u32)"
    and ty: "sp_type (sp_header sub) = 0x1001"
    using assms
    by (auto simp: build_session_end_def copy_from_slice_def overwrite_def set_target_id_def new_with_flag_def
        Let_def OP_SESSION_END_def)
  have "session_end_confirm_parse (sp_data sub) = Ok (SessionEndConfirm i 1 0)"
    by (simp add: data session_end_confirm_parse_def read_le_def read_exact_def)
  then show ?thesis
    by (simp add: zone_reply_def zone_reply_route_def ty world_packet_end_confirm end_confirm_error)
qed

lemma map_end_reply_ignored_witness:
  "\<exists>sub. build_session_end 0 7 1 0 = Ok sub \<and> zone_reply 0 demo_no_fail sub (wc_server demo_both) = (wc_server demo_both, [])"
proof -
  obtain sub where "build_session_end 0 7 1 0 = Ok sub"
    by (auto simp: build_session_end_def copy_from_slice_def)
  with map_end_reply_ignored [OF this] show ?thesis by blast
qed

text \<open>
  The world server takes control packets from game clients as well: any connection that sends a
  session end confirm naming a player, with no end pending for that player, removes the player's sessions.
\<close>

lemma client_can_evict:
  assumes "sp_type (sp_header sub) = 0x1001"
    and "session_end_confirm_parse (sp_data sub) = Ok (SessionEndConfirm victim 0 0)"
    and "wsv_pending_ends s victim = None"
  shows "sr_get ZoneChannel victim (fst (dispatch_subpacket now down client packet sub s)) = None
    \<and> sr_get ChatChannel victim (fst (dispatch_subpacket now down client packet sub s)) = None"
proof -
  have "dispatch_subpacket now down client packet sub s = (end_confirmed victim s, [], Done)"
    by (simp add: dispatch_subpacket_def Let_def assms(1) sizes world_packet_end_confirm end_confirm_final [OF assms(2)])
  then show ?thesis
    using assms(3)
    by (simp add: end_confirmed_def take_pending_end_def Let_def sr_get_def sr_remove_def split: option.split)
qed

lemma client_can_evict_witness:
  "sr_get ZoneChannel 7 (fst (dispatch_subpacket 0 demo_no_fail (demo_client 2) demo_hello demo_confirm (wc_server demo_both))) = None"
  using client_can_evict [OF demo_confirm_type demo_confirm_parse demo_no_pending, of 0 demo_no_fail "demo_client 2" demo_hello]
  by simp

end
