(* ===== verification/WorldHandoff.thy ===== *)
theory WorldHandoff
  imports WorldServerLaws WorldZones
begin

text \<open>
  The two servers together: the map server's side of a session's life (\<open>map-server/src/processor.rs\<close>,
  \<open>handle_session_begin\<close> and \<open>handle_session_end\<close>), run on the frames the world server's handlers send.
\<close>

section \<open>The map server's session begin\<close>

text \<open>
  What the begin handler does to the session table and the actor registry, given the row the character load
  returns (the hydration of the character object itself is not part of these two); the row's fields that the
  session takes over.
\<close>

record loaded_player =
  lp_current_zone_id :: u32
  lp_current_private_area :: "u8 list"
  lp_current_private_area_type :: u32
  lp_position :: vector3
  lp_rotation :: f32_bits

definition is_login_request :: "u8 list \<Rightarrow> bool" where
  "is_login_request data = (case data of [] \<Rightarrow> False | b # _ \<Rightarrow> b \<noteq> 0)"

definition begin_session :: "loaded_player \<Rightarrow> u32 \<Rightarrow> session" where
  "begin_session loaded session_id =
     (session_new session_id)
       \<lparr>s_current_zone_id := lp_current_zone_id loaded,
        s_current_private_area_name :=
          (if lp_current_private_area loaded = [] then None else Some (lp_current_private_area loaded)),
        s_current_private_area_level := lp_current_private_area_type loaded,
        s_destination := lp_position loaded, s_destination_rot := lp_rotation loaded\<rparr>"

definition map_session_begin :: "loaded_player option \<Rightarrow> subpacket \<Rightarrow> registry \<times> world \<Rightarrow> registry \<times> world" where
  "map_session_begin row sub rw =
     (let session_id = source_id (sp_header sub); is_login = is_login_request (sp_data sub); (reg, w) = rw
      in case row of
           None \<Rightarrow> (reg, w)
         | Some loaded \<Rightarrow>
             let session = begin_session loaded session_id;
                 w = upsert_session session (register_client session_id w);
                 reg = r_insert (h_new session_id TagPlayer (lp_current_zone_id loaded) session_id) reg
             in (reg, if is_login then w
                  else do_zone_change_with_private_area session_id session_id (lp_current_zone_id loaded)
                    (s_current_private_area_name session) (lp_current_private_area_type loaded)
                    (lp_position loaded) (lp_rotation loaded) w))"

definition map_session_end :: "subpacket \<Rightarrow> registry \<times> world \<Rightarrow> registry \<times> world" where
  "map_session_end sub rw = handle_session_end (source_id (sp_header sub)) (fst rw) (snd rw)"

text \<open>The session arms of \<open>process_packet\<close>; the other frames do not concern the session table.\<close>

definition map_session_frame :: "(u32 \<Rightarrow> loaded_player option) \<Rightarrow> subpacket \<Rightarrow> registry \<times> world \<Rightarrow> registry \<times> world" where
  "map_session_frame load sub rw =
     (if sp_type (sp_header sub) = OP_SESSION_BEGIN then map_session_begin (load (source_id (sp_header sub))) sub rw
      else if sp_type (sp_header sub) = OP_SESSION_END then map_session_end sub rw
      else rw)"

fun frames_for :: "nat \<Rightarrow> world_out list \<Rightarrow> subpacket list" where
  "frames_for h [] = []"
| "frames_for h (ToZone h' sub # outs) = (if h' = h then sub # frames_for h outs else frames_for h outs)"
| "frames_for h (_ # outs) = frames_for h outs"

section \<open>Lemmas\<close>

lemma frames_for_append [simp]: "frames_for h (a @ b) = frames_for h a @ frames_for h b"
  by (induction h a rule: frames_for.induct) simp_all

lemma session_end_gone:
  "r_find_by_session i (fst (map_session_end (ws_session_end now i) rw)) = None"
  "w_sessions (snd (map_session_end (ws_session_end now i) rw)) i = None"
  "i \<notin> w_clients (snd (map_session_end (ws_session_end now i) rw))"
  by (auto simp: map_session_end_def ws_session_end_def handle_session_end_def r_remove_session_def
      r_find_by_session_def remove_session_def split: option.splits)

lemma session_begin_present:
  "w_sessions (snd (map_session_begin (Some loaded) (ws_session_begin now i True) rw)) i = Some (begin_session loaded i)"
  by (simp add: map_session_begin_def ws_session_begin_def is_login_request_def begin_session_def session_new_def
      Let_def upsert_session_def case_prod_beta)

lemma hello_frames:
  assumes "sessions_owned s live" and "hello_parse (bp_data packet) = Some i"
    and "channel_of (connection_type (bp_header packet)) = ZoneChannel"
    and "sr_get ZoneChannel i s = Some old" and "conn_of old \<noteq> ch_conn_seq client"
    and "wss_routing1 old = Some h"
    and "zone_server_for (wss_current_zone_id (hello_session down i ZoneChannel client s)) s = Some h"
  shows "frames_for h (fst (snd (handle_hello now down client packet s))) = [ws_session_begin now i True, ws_session_end now i]"
proof -
  have m: "sr_map ZoneChannel s i = Some old" using assms(4) by (simp add: sr_get_def)
  with sessions_ownedD [OF assms(1) this] have id: "wss_session_id old = i" by simp
  show ?thesis
    unfolding hello_eq [OF assms(2,3)] Let_def m option.case fst_conv snd_conv evict_outs [OF id assms(5)]
    using assms(6,7) by simp
qed

section \<open>Properties\<close>

text \<open>
  C26: a player who logs in again while the old connection is still up loses the map side of the new login.
  The world server sends the begin of the new session before the end of the old one, both for the same id and
  to the same map server; after the first the map server has the new session, after both it has neither a
  session, nor a client, nor an actor for the player, while the world server keeps the new session and
  forwards its traffic there.
\<close>

lemma relogin_ends_itself:
  assumes "emits_star world_step (world_start db names) c outs0"
    and "hello_parse (bp_data packet) = Some i"
    and "channel_of (connection_type (bp_header packet)) = ZoneChannel"
    and "sr_get ZoneChannel i (wc_server c) = Some old" and "conn_of old \<noteq> ch_conn_seq client"
    and "wss_routing1 old = Some h"
    and "zone_server_for (wss_current_zone_id (hello_session down i ZoneChannel client (wc_server c))) (wc_server c) = Some h"
    and "handle_hello now down client packet (wc_server c) = (s', outs, r)"
    and "load i = Some loaded"
  shows "\<exists>begin_frame end_frame. frames_for h outs = [begin_frame, end_frame]
    \<and> w_sessions (snd (map_session_frame load begin_frame rw)) i = Some (begin_session loaded i)
    \<and> (let rw' = map_session_frame load end_frame (map_session_frame load begin_frame rw)
       in w_sessions (snd rw') i = None \<and> i \<notin> w_clients (snd rw') \<and> r_find_by_session i (fst rw') = None)
    \<and> (\<exists>x. sr_get ZoneChannel i s' = Some x \<and> conn_of x = ch_conn_seq client \<and> wss_routing1 x = Some h)"
proof -
  let ?b = "ws_session_begin now i True" and ?e = "ws_session_end now i"
  note tied = run_tied [OF assms(1)]
  have frames: "frames_for h outs = [?b, ?e]"
    using hello_frames [OF tied assms(2-7), of now] assms(8) by simp
  have b: "map_session_frame load ?b rw = map_session_begin (Some loaded) ?b rw" for rw
    using assms(9) by (simp add: map_session_frame_def ws_session_begin_def)
  have e: "map_session_frame load ?e rw = map_session_end ?e rw" for rw
    by (simp add: map_session_frame_def ws_session_end_def OP_SESSION_BEGIN_def OP_SESSION_END_def)
  have "\<exists>x. sr_get ZoneChannel i (fst (handle_hello now down client packet (wc_server c))) = Some x
      \<and> conn_of x = ch_conn_seq client \<and> wss_routing1 x = Some h"
    unfolding hello_eq [OF assms(2,3)] Let_def fst_conv sr_get_def note_owned_map sr_add_map using assms(7)
    by (simp add: conn_of_def)
  then show ?thesis
    using frames by (simp add: b e Let_def session_begin_present session_end_gone assms(8))
qed

lemma relogin_ends_itself_witness:
  "length (frames_for 3 (fst (snd (handle_hello 0 demo_no_fail (demo_client 2) demo_hello (wc_server demo_both))))) = 2"
proof -
  obtain outs0 where run: "emits_star world_step (world_start demo_db []) demo_both outs0" using demo_run by blast
  obtain s' outs r where h: "handle_hello 0 demo_no_fail (demo_client 2) demo_hello (wc_server demo_both) = (s', outs, r)"
    by (rule prod_cases3)
  have z: "zone_server_for (wss_current_zone_id (hello_session demo_no_fail 7 ZoneChannel (demo_client 2) (wc_server demo_both)))
      (wc_server demo_both) = Some 3"
    by (simp add: demo_both_def demo_greeted_def hello_eq [OF demo_hello_parse demo_channel] Let_def note_owned_def
      sr_add_def demo_connected_def demo_up_def accept_connection_def world_start_def hello_session_def
      db_session_info_def demo_no_fail_def demo_db_def wsession_new_def zone_server_for_def)
  have row: "(\<lambda>_. Some \<lparr>lp_current_zone_id = 5, lp_current_private_area = [], lp_current_private_area_type = 0,
      lp_position = \<lparr>v_x = 0, v_y = 0, v_z = 0\<rparr>, lp_rotation = 0\<rparr>) 7 = Some \<lparr>lp_current_zone_id = 5, lp_current_private_area = [],
      lp_current_private_area_type = 0, lp_position = \<lparr>v_x = 0, v_y = 0, v_z = 0\<rparr>, lp_rotation = 0\<rparr>"
    by simp
  from relogin_ends_itself [OF run demo_hello_parse demo_channel demo_session _ _ z h row, where rw = "(r_new,
      \<lparr>w_zones = Map.empty, w_sessions = Map.empty, w_clients = {}, w_seamless_boundaries = (\<lambda>_. [])\<rparr>)"]
  show ?thesis by (auto simp: conn_of_def h)
qed

end
