(* ===== verification/WorldGroupLaws.thy ===== *)
theory WorldGroupLaws
  imports WorldHandlers
begin

text \<open>
  The laws of the world server's groups. The linkshell manager keeps rosters in memory beside the tables;
  \<open>roster_store\<close> is what it relies on the tables for, and coherence of the cache is proved from that
  interface. Parties follow.
\<close>

section \<open>The interface of the roster tables\<close>

locale roster_store =
  fixes roster :: "'s \<Rightarrow> u64 \<Rightarrow> linkshell_member set"
    and add :: "'s \<Rightarrow> u64 \<Rightarrow> u32 \<Rightarrow> u8 \<Rightarrow> 's option"
    and remove :: "'s \<Rightarrow> u64 \<Rightarrow> u32 \<Rightarrow> 's option"
    and set_rank :: "'s \<Rightarrow> u64 \<Rightarrow> u32 \<Rightarrow> u8 \<Rightarrow> 's option"
  assumes add_roster: "add s i c r = Some s' \<Longrightarrow> roster s' j =
      (if j = i then {x \<in> roster s i. lm_character_id x \<noteq> c}
          \<union> {\<lparr>lm_character_id = c, lm_linkshell_id = i, lm_rank = r\<rparr>} else roster s j)"
    and remove_roster: "remove s i c = Some s' \<Longrightarrow> roster s' j =
      (if j = i then {x \<in> roster s i. lm_character_id x \<noteq> c} else roster s j)"
    and rank_roster: "set_rank s i c r = Some s' \<Longrightarrow> roster s' j =
      (if j = i then (\<lambda>x. if lm_character_id x = c then x\<lparr>lm_rank := r\<rparr> else x) ` roster s i else roster s j)"
begin

text \<open>A cached member list tracks the stored roster.\<close>

definition tracks :: "linkshell_member list \<Rightarrow> 's \<Rightarrow> u64 \<Rightarrow> bool" where
  "tracks ms s i \<longleftrightarrow> distinct (map lm_character_id ms) \<and> set ms = roster s i"

lemma tracks_other:
  "j \<noteq> i \<Longrightarrow> add s i c r = Some s' \<Longrightarrow> tracks ms s' j = tracks ms s j"
  "j \<noteq> i \<Longrightarrow> remove s i c = Some s' \<Longrightarrow> tracks ms s' j = tracks ms s j"
  "j \<noteq> i \<Longrightarrow> set_rank s i c r = Some s' \<Longrightarrow> tracks ms s' j = tracks ms s j"
  by (simp_all add: tracks_def add_roster remove_roster rank_roster)

lemma distinct_filter_members:
  "distinct (map lm_character_id ms) \<Longrightarrow> distinct (map lm_character_id (filter P ms))"
  by (simp add: distinct_map_filter)

lemma tracks_add:
  assumes "tracks ms s i" and "add s i c r = Some s'"
  shows "tracks (filter (\<lambda>x. lm_character_id x \<noteq> c) ms @ [\<lparr>lm_character_id = c, lm_linkshell_id = i, lm_rank = r\<rparr>]) s' i"
  using assms by (auto simp: tracks_def add_roster distinct_filter_members)

lemma tracks_remove:
  assumes "tracks ms s i" and "remove s i c = Some s'"
  shows "tracks (filter (\<lambda>x. lm_character_id x \<noteq> c) ms) s' i"
  using assms by (auto simp: tracks_def remove_roster distinct_filter_members)

lemma set_first_rank_map:
  "distinct (map lm_character_id ms) \<Longrightarrow>
    set_first_rank c r ms = map (\<lambda>x. if lm_character_id x = c then x\<lparr>lm_rank := r\<rparr> else x) ms"
  by (induction ms) (auto intro!: map_idI [symmetric] simp: image_iff)

lemma tracks_rank:
  assumes "tracks ms s i" and "set_rank s i c r = Some s'"
  shows "tracks (set_first_rank c r ms) s' i"
proof -
  have "map lm_character_id (set_first_rank c r ms) = map lm_character_id ms"
    by (induction ms) simp_all
  moreover have "set (set_first_rank c r ms) = roster s' i"
    using assms by (simp add: tracks_def rank_roster set_first_rank_map)
  ultimately show ?thesis using assms(1) by (simp add: tracks_def)
qed

end

definition db_roster :: "world_db \<Rightarrow> u64 \<Rightarrow> linkshell_member set" where
  "db_roster db i = {x \<in> set (wd_members db). lm_linkshell_id x = i}"

lemma member_eqI:
  "lm_character_id (x :: linkshell_member) = c \<Longrightarrow> lm_linkshell_id x = i \<Longrightarrow> lm_rank x = r \<Longrightarrow>
    x = \<lparr>lm_character_id = c, lm_linkshell_id = i, lm_rank = r\<rparr>"
  by (cases x) simp

lemma set_rank_where_roster:
  "{x \<in> set (set_rank_where c i r ms). lm_linkshell_id x = j} =
     (if j = i then (\<lambda>x. if lm_character_id x = c then x\<lparr>lm_rank := r\<rparr> else x) ` {x \<in> set ms. lm_linkshell_id x = i}
      else {x \<in> set ms. lm_linkshell_id x = j})"
  by (auto simp: set_rank_where_def same_membership_def image_iff split: if_splits)

lemma db_add_roster:
  assumes "db_add_player down db i c r = Some db'"
  shows "db_roster db' j = (if j = i then {x \<in> db_roster db i. lm_character_id x \<noteq> c}
      \<union> {\<lparr>lm_character_id = c, lm_linkshell_id = i, lm_rank = r\<rparr>} else db_roster db j)"
proof (cases "\<exists>m \<in> set (wd_members db). same_membership c i m")
  case True
  then obtain m where m: "m \<in> set (wd_members db)" "lm_character_id m = c" "lm_linkshell_id m = i"
    by (auto simp: same_membership_def)
  have "db_roster db' j = {x \<in> set (set_rank_where c i r (wd_members db)). lm_linkshell_id x = j}"
    using assms True by (auto simp: db_add_player_def db_roster_def split: if_splits)
  also have "\<dots> = (if j = i then {x \<in> db_roster db i. lm_character_id x \<noteq> c}
      \<union> {\<lparr>lm_character_id = c, lm_linkshell_id = i, lm_rank = r\<rparr>} else db_roster db j)"
    unfolding set_rank_where_roster db_roster_def using m
    by (auto simp: image_iff intro: member_eqI intro!: bexI [of _ m])
  finally show ?thesis .
next
  case False
  then show ?thesis
    using assms by (auto simp: db_add_player_def db_roster_def same_membership_def split: if_splits)
qed

interpretation shells: roster_store db_roster "db_add_player down" "db_remove_player down" "db_change_rank down"
  for down
proof
  show "db_roster db' j = (if j = i then {x \<in> db_roster db i. lm_character_id x \<noteq> c}
      \<union> {\<lparr>lm_character_id = c, lm_linkshell_id = i, lm_rank = r\<rparr>} else db_roster db j)"
    if "db_add_player down db i c r = Some db'" for db i c r db' j
    using that by (rule db_add_roster)
  show "db_roster db' j = (if j = i then {x \<in> db_roster db i. lm_character_id x \<noteq> c} else db_roster db j)"
    if "db_remove_player down db i c = Some db'" for db i c db' j
    using that by (auto simp: db_remove_player_def db_roster_def same_membership_def split: if_splits)
  show "db_roster db' j = (if j = i then (\<lambda>x. if lm_character_id x = c then x\<lparr>lm_rank := r\<rparr> else x) ` db_roster db i
      else db_roster db j)" if "db_change_rank down db i c r = Some db'" for db i c r db' j
  proof -
    have "wd_members db' = set_rank_where c i r (wd_members db)"
      using that by (auto simp: db_change_rank_def split: if_splits)
    then show ?thesis unfolding db_roster_def by (simp only: set_rank_where_roster)
  qed
qed

section \<open>Coherence of the cache\<close>

text \<open>The tables' own invariant: their keys, and no row of a linkshell that does not exist yet.\<close>

definition db_wf :: "world_db \<Rightarrow> bool" where
  "db_wf db \<longleftrightarrow>
     distinct (map lr_id (wd_linkshells db)) \<and> distinct (map lr_name (wd_linkshells db))
     \<and> (\<forall>r \<in> set (wd_linkshells db). lr_id r \<le> wd_sequence db)
     \<and> distinct (map (\<lambda>m. (lm_character_id m, lm_linkshell_id m)) (wd_members db))
     \<and> (\<forall>m \<in> set (wd_members db). lm_linkshell_id m \<le> wd_sequence db)"

definition row_of :: "linkshell \<Rightarrow> u8 \<Rightarrow> linkshell_row" where
  "row_of ls rank = \<lparr>lr_id = lk_db_id ls, lr_name = lk_name ls, lr_crest_icon = lk_crest ls, lr_master = lk_master ls, lr_rank = rank\<rparr>"

lemma row_of_fields [simp]: "lr_id (row_of ls rank) = lk_db_id ls" "lr_name (row_of ls rank) = lk_name ls"
  by (simp_all add: row_of_def)

definition entry_ok :: "world_db \<Rightarrow> u64 \<Rightarrow> linkshell \<Rightarrow> bool" where
  "entry_ok db i ls \<longleftrightarrow> lk_db_id ls = i \<and> (\<exists>rank. row_of ls rank \<in> set (wd_linkshells db))
     \<and> shells.tracks (lk_members ls) db i"

definition coherent :: "linkshell_manager \<Rightarrow> world_db \<Rightarrow> bool" where
  "coherent m db \<longleftrightarrow> db_wf db \<and> (\<forall>i ls. lsm_cache m i = Some ls \<longrightarrow> entry_ok db i ls)
     \<and> (\<forall>name i. lsm_by_name m name = Some i \<longrightarrow> (\<exists>ls. lsm_cache m i = Some ls \<and> lk_name ls = name))"

lemma coherentI:
  assumes "db_wf db" and "\<And>i ls. lsm_cache m i = Some ls \<Longrightarrow> entry_ok db i ls"
    and "\<And>name i. lsm_by_name m name = Some i \<Longrightarrow> \<exists>ls. lsm_cache m i = Some ls \<and> lk_name ls = name"
  shows "coherent m db"
  using assms by (simp add: coherent_def)

lemma coherentD:
  assumes "coherent m db"
  shows "db_wf db" and "lsm_cache m i = Some ls \<Longrightarrow> entry_ok db i ls"
    and "lsm_by_name m name = Some i \<Longrightarrow> \<exists>ls. lsm_cache m i = Some ls \<and> lk_name ls = name"
  using assms by (simp_all add: coherent_def)

lemma entry_same:
  "wd_linkshells db' = wd_linkshells db \<Longrightarrow> shells.tracks (lk_members ls) db' i = shells.tracks (lk_members ls) db i
    \<Longrightarrow> entry_ok db' i ls = entry_ok db i ls"
  by (simp add: entry_ok_def)

lemma tracks_roster: "db_roster db' i = db_roster db i \<Longrightarrow> shells.tracks ms db' i = shells.tracks ms db i"
  by (simp add: shells.tracks_def)

text \<open>A roster change and the same change to the cached entry.\<close>

lemma coherent_roster_change:
  assumes co: "coherent m db" and wf: "db_wf db'" and shells: "wd_linkshells db' = wd_linkshells db"
    and other: "\<And>j ms. j \<noteq> i \<Longrightarrow> shells.tracks ms db' j = shells.tracks ms db j"
    and entry: "\<And>ms. shells.tracks ms db i \<Longrightarrow> shells.tracks (f ms) db' i"
  shows "coherent (cache_update (\<lambda>ls. ls\<lparr>lk_members := f (lk_members ls)\<rparr>) i m) db'"
proof (rule coherentI)
  let ?g = "\<lambda>ls. ls\<lparr>lk_members := f (lk_members ls)\<rparr>"
  have cache: "lsm_cache (cache_update ?g i m) j = (if j = i then map_option ?g (lsm_cache m i) else lsm_cache m j)" for j
    by (auto simp: cache_update_def split: option.split)
  have names: "lsm_by_name (cache_update ?g i m) = lsm_by_name m"
    by (auto simp: cache_update_def split: option.split)
  show "db_wf db'" by (rule wf)
  fix j ls assume ls: "lsm_cache (cache_update ?g i m) j = Some ls"
  show "entry_ok db' j ls"
  proof (cases "j = i")
    case True
    with ls obtain z where z: "lsm_cache m i = Some z" "ls = ?g z" by (auto simp: cache)
    from coherentD(2) [OF co z(1)] show ?thesis
      unfolding True z(2) entry_ok_def row_of_def shells using entry [of "lk_members z"] by auto
  next
    case False
    with ls have "entry_ok db j ls" using coherentD(2) [OF co] by (simp add: cache)
    then show ?thesis using False by (simp add: entry_ok_def shells other)
  qed
next
  let ?g = "\<lambda>ls. ls\<lparr>lk_members := f (lk_members ls)\<rparr>"
  fix name j assume "lsm_by_name (cache_update ?g i m) name = Some j"
  then have "lsm_by_name m name = Some j" by (auto simp: cache_update_def split: option.splits)
  from coherentD(3) [OF co this]
  show "\<exists>ls. lsm_cache (cache_update ?g i m) j = Some ls \<and> lk_name ls = name"
    by (auto simp: cache_update_def split: option.split)
qed

lemma keys_set_rank [simp]:
  "map (\<lambda>m. (lm_character_id m, lm_linkshell_id m)) (set_rank_where c i r ms) = map (\<lambda>m. (lm_character_id m, lm_linkshell_id m)) ms"
  by (simp add: set_rank_where_def comp_def)

lemma set_rank_bound: "\<forall>m \<in> set ms. lm_linkshell_id m \<le> b \<Longrightarrow> \<forall>m \<in> set (set_rank_where c i r ms). lm_linkshell_id m \<le> b"
  by (auto simp: set_rank_where_def)

lemma db_wf_add:
  assumes "db_wf db" and "i \<le> wd_sequence db" and "db_add_player down db i c r = Some db'"
  shows "db_wf db'"
proof (cases "\<exists>m \<in> set (wd_members db). same_membership c i m")
  case True
  with assms show ?thesis by (auto simp: db_wf_def db_add_player_def set_rank_bound split: if_splits)
next
  case False
  then have "(c, i) \<notin> (\<lambda>m. (lm_character_id m, lm_linkshell_id m)) ` set (wd_members db)"
    by (auto simp: same_membership_def)
  with False assms show ?thesis by (auto simp: db_wf_def db_add_player_def split: if_splits)
qed

lemma db_wf_remove: "db_wf db \<Longrightarrow> db_remove_player down db i c = Some db' \<Longrightarrow> db_wf db'"
  by (auto simp: db_wf_def db_remove_player_def distinct_map_filter split: if_splits)

lemma db_wf_rank: "db_wf db \<Longrightarrow> db_change_rank down db i c r = Some db' \<Longrightarrow> db_wf db'"
  by (auto simp: db_wf_def db_change_rank_def set_rank_bound split: if_splits)

lemma db_shells_same:
  "db_add_player down db i c r = Some db' \<Longrightarrow> wd_linkshells db' = wd_linkshells db \<and> wd_sequence db' = wd_sequence db"
  "db_remove_player down db i c = Some db' \<Longrightarrow> wd_linkshells db' = wd_linkshells db \<and> wd_sequence db' = wd_sequence db"
  "db_change_rank down db i c r = Some db' \<Longrightarrow> wd_linkshells db' = wd_linkshells db \<and> wd_sequence db' = wd_sequence db"
  by (auto simp: db_add_player_def db_remove_player_def db_change_rank_def split: if_splits)

lemma coherent_add:
  assumes co: "coherent m db" and i: "i \<le> wd_sequence db"
  shows "coherent (fst (lsm_add_member down m db i c r)) (fst (snd (lsm_add_member down m db i c r)))"
proof (cases "db_add_player down db i c r")
  case None
  with co show ?thesis by (simp add: lsm_add_member_def)
next
  case (Some db')
  have "coherent (cache_update (\<lambda>ls. ls\<lparr>lk_members := filter (\<lambda>x. lm_character_id x \<noteq> c) (lk_members ls)
      @ [\<lparr>lm_character_id = c, lm_linkshell_id = i, lm_rank = r\<rparr>]\<rparr>) i m) db'"
    using co db_wf_add [OF coherentD(1) [OF co] i Some] db_shells_same(1) [OF Some]
      shells.tracks_other(1) [OF _ Some] shells.tracks_add [OF _ Some]
    by (intro coherent_roster_change) simp_all
  with Some show ?thesis by (simp add: lsm_add_member_def)
qed

lemma coherent_remove:
  assumes co: "coherent m db"
  shows "coherent (fst (lsm_remove_member down m db i c)) (fst (snd (lsm_remove_member down m db i c)))"
proof (cases "db_remove_player down db i c")
  case None
  with co show ?thesis by (simp add: lsm_remove_member_def)
next
  case (Some db')
  have "coherent (cache_update (\<lambda>ls. ls\<lparr>lk_members := filter (\<lambda>x. lm_character_id x \<noteq> c) (lk_members ls)\<rparr>) i m) db'"
    using co db_wf_remove [OF coherentD(1) [OF co] Some] db_shells_same(2) [OF Some]
      shells.tracks_other(2) [OF _ Some] shells.tracks_remove [OF _ Some]
    by (intro coherent_roster_change) simp_all
  with Some show ?thesis by (simp add: lsm_remove_member_def)
qed

lemma coherent_rank:
  assumes co: "coherent m db"
  shows "coherent (fst (lsm_change_rank down m db i c r)) (fst (snd (lsm_change_rank down m db i c r)))"
proof (cases "db_change_rank down db i c r")
  case None
  with co show ?thesis by (simp add: lsm_change_rank_def)
next
  case (Some db')
  have "coherent (cache_update (\<lambda>ls. ls\<lparr>lk_members := set_first_rank c r (lk_members ls)\<rparr>) i m) db'"
    using co db_wf_rank [OF coherentD(1) [OF co] Some] db_shells_same(3) [OF Some]
      shells.tracks_other(3) [OF _ Some] shells.tracks_rank [OF _ Some]
    by (intro coherent_roster_change) simp_all
  with Some show ?thesis by (simp add: lsm_change_rank_def)
qed

text \<open>A new entry, for a row of the tables and with the stored roster.\<close>

lemma coherent_enter:
  assumes co: "coherent m db" and wf: "db_wf db'"
    and kept: "\<And>j e. lsm_cache m j = Some e \<Longrightarrow> j \<noteq> lk_db_id ls \<Longrightarrow> entry_ok db' j e"
    and new: "entry_ok db' (lk_db_id ls) ls"
    and named: "\<And>name. lsm_by_name m name = Some (lk_db_id ls) \<Longrightarrow> name = lk_name ls"
  shows "coherent \<lparr>lsm_cache = (lsm_cache m)(lk_db_id ls \<mapsto> ls), lsm_by_name = (lsm_by_name m)(lk_name ls \<mapsto> lk_db_id ls)\<rparr> db'"
proof (rule coherentI)
  show "db_wf db'" by (rule wf)
  show "entry_ok db' i e"
    if "lsm_cache \<lparr>lsm_cache = (lsm_cache m)(lk_db_id ls \<mapsto> ls), lsm_by_name = (lsm_by_name m)(lk_name ls \<mapsto> lk_db_id ls)\<rparr> i = Some e"
    for i e using that kept new by (auto split: if_splits)
  fix name i
  assume n: "lsm_by_name \<lparr>lsm_cache = (lsm_cache m)(lk_db_id ls \<mapsto> ls), lsm_by_name = (lsm_by_name m)(lk_name ls \<mapsto> lk_db_id ls)\<rparr> name = Some i"
  show "\<exists>e. lsm_cache \<lparr>lsm_cache = (lsm_cache m)(lk_db_id ls \<mapsto> ls), lsm_by_name = (lsm_by_name m)(lk_name ls \<mapsto> lk_db_id ls)\<rparr> i = Some e
      \<and> lk_name e = name"
  proof (cases "name = lk_name ls")
    case True
    with n show ?thesis by simp
  next
    case False
    with n have m: "lsm_by_name m name = Some i" by simp
    with named False have "i \<noteq> lk_db_id ls" by blast
    with coherentD(3) [OF co m] show ?thesis by simp
  qed
qed

text \<open>Rows are determined by their id, and by their name.\<close>

lemma row_unique:
  assumes "db_wf db" and "r \<in> set (wd_linkshells db)" and "r' \<in> set (wd_linkshells db)"
    and "lr_id r = lr_id r' \<or> lr_name r = lr_name r'"
  shows "r = r'"
  using assms by (auto simp: db_wf_def distinct_map dest: inj_onD)

lemma roster_distinct:
  assumes "db_wf db"
  shows "distinct (map lm_character_id (filter (\<lambda>m. lm_linkshell_id m = i) (wd_members db)))"
proof -
  have "distinct (map (\<lambda>m. (lm_character_id m, lm_linkshell_id m)) (filter (\<lambda>m. lm_linkshell_id m = i) (wd_members db)))"
    using assms by (simp add: db_wf_def distinct_map_filter)
  then show ?thesis by (auto simp: distinct_map inj_on_def)
qed

lemma find_row:
  assumes "find (\<lambda>r. lr_name r = name) (wd_linkshells db) = Some r"
  shows "r \<in> set (wd_linkshells db)" and "lr_name r = name"
  using assms by (auto simp: find_Some_iff)

lemma coherent_load:
  assumes co: "coherent m db" and up: "\<not> down QLinkshellMembers"
    and load: "lsm_get_or_load down next_id m db name = (next_id', m', result)"
  shows "coherent m' db" and "result = Some (Some ls) \<Longrightarrow> lk_db_id ls \<le> wd_sequence db"
proof -
  have bound: "entry_ok db i e \<Longrightarrow> lk_db_id e \<le> wd_sequence db" for i e
    using coherentD(1) [OF co] by (auto simp: db_wf_def entry_ok_def row_of_def)
  have "coherent m' db \<and> (result = Some (Some ls) \<longrightarrow> lk_db_id ls \<le> wd_sequence db)"
  proof (cases "lsm_get m name")
    case (Some e)
    then obtain i where "lsm_cache m i = Some e" by (auto simp: lsm_get_def split: option.splits)
    with coherentD(2) [OF co] have "lk_db_id e \<le> wd_sequence db" using bound by blast
    with co load Some show ?thesis by (auto simp: lsm_get_or_load_def)
  next
    case None
    show ?thesis
    proof (cases "down QLinkshellByName \<or> find (\<lambda>r. lr_name r = name) (wd_linkshells db) = None")
      case True
      with co load None show ?thesis by (auto simp: lsm_get_or_load_def alloc_group_id_def db_linkshell_by_name_def split: if_splits)
    next
      case False
      then obtain r where r: "find (\<lambda>r. lr_name r = name) (wd_linkshells db) = Some r" by blast
      note row = find_row [OF r]
      define e where "e = (linkshell_new (lr_id r) next_id (lr_name r) (lr_crest_icon r) (lr_master r) RANK_MASTER)
        \<lparr>lk_members := sort_key lm_character_id (filter (\<lambda>x. lm_linkshell_id x = lr_id r) (wd_members db))\<rparr>"
      have res: "result = Some (Some e)"
        and m': "m' = \<lparr>lsm_cache = (lsm_cache m)(lk_db_id e \<mapsto> e), lsm_by_name = (lsm_by_name m)(lk_name e \<mapsto> lk_db_id e)\<rparr>"
        using load None False r up
        by (auto simp: lsm_get_or_load_def alloc_group_id_def db_linkshell_by_name_def db_ls_members_def e_def
            linkshell_new_def Let_def)
      have eid: "lk_db_id e = lr_id r" "lk_name e = lr_name r" by (simp_all add: e_def linkshell_new_def)
      have "row_of e (lr_rank r) = r" by (simp add: e_def row_of_def linkshell_new_def)
      with row(1) have "\<exists>rank. row_of e rank \<in> set (wd_linkshells db)" by metis
      moreover have "shells.tracks (lk_members e) db (lr_id r)"
        using roster_distinct [OF coherentD(1) [OF co], of "lr_id r"]
        by (simp add: shells.tracks_def db_roster_def e_def distinct_map)
      ultimately have ok: "entry_ok db (lk_db_id e) e" by (simp add: entry_ok_def eid)
      have "n = lk_name e" if n: "lsm_by_name m n = Some (lk_db_id e)" for n
      proof -
        from coherentD(3) [OF co n] obtain x where x: "lsm_cache m (lk_db_id e) = Some x" "lk_name x = n" by blast
        from coherentD(2) [OF co x(1)] obtain rank where "row_of x rank \<in> set (wd_linkshells db)" "lk_db_id x = lk_db_id e"
          by (auto simp: entry_ok_def)
        with row_unique [OF coherentD(1) [OF co] row(1), of "row_of x rank"] eid have "r = row_of x rank" by simp
        then have "lr_name r = lk_name x" by simp
        with eid x(2) show ?thesis by simp
      qed
      then have "coherent m' db"
        unfolding m' using co coherentD(1,2) [OF co] ok by (intro coherent_enter) blast+
      with res bound [OF ok] show ?thesis by auto
    qed
  qed
  then show "coherent m' db" "result = Some (Some ls) \<Longrightarrow> lk_db_id ls \<le> wd_sequence db" by blast+
qed

lemma coherent_crest:
  assumes co: "coherent m db"
  shows "coherent (fst (lsm_change_crest down m db name crest)) (fst (snd (lsm_change_crest down m db name crest)))"
proof (cases "lsm_by_name m name = None \<or> down QChangeCrest")
  case True
  with co show ?thesis by (auto simp: lsm_change_crest_def db_change_crest_def split: option.split)
next
  case False
  then obtain i where i: "lsm_by_name m name = Some i" "\<not> down QChangeCrest" by auto
  from coherentD(3) [OF co i(1)] obtain e where e: "lsm_cache m i = Some e" by blast
  let ?up = "\<lambda>r. if lr_id r = i then r\<lparr>lr_crest_icon := crest\<rparr> else r"
  let ?db = "db\<lparr>wd_linkshells := map ?up (wd_linkshells db)\<rparr>"
  let ?m = "m\<lparr>lsm_cache := (lsm_cache m)(i \<mapsto> e\<lparr>lk_crest := crest\<rparr>)\<rparr>"
  have eq: "lsm_change_crest down m db name crest = (?m, ?db, True)"
    using i e by (simp add: lsm_change_crest_def db_change_crest_def cache_update_def)
  have keys: "map lr_id (map ?up rs) = map lr_id rs" "map lr_name (map ?up rs) = map lr_name rs" for rs
    by (induction rs) simp_all
  have wf: "db_wf ?db"
    using coherentD(1) [OF co] unfolding db_wf_def by (auto simp: keys simp del: map_map)
  have tracks: "shells.tracks ms ?db j = shells.tracks ms db j" for ms j by (simp add: shells.tracks_def db_roster_def)
  have "coherent ?m ?db"
  proof (rule coherentI)
    show "db_wf ?db" by (rule wf)
    fix j ls assume ls: "lsm_cache ?m j = Some ls"
    show "entry_ok ?db j ls"
    proof (cases "j = i")
      case True
      from coherentD(2) [OF co e] obtain rank where "row_of e rank \<in> set (wd_linkshells db)" "lk_db_id e = i"
        "shells.tracks (lk_members e) db i" by (auto simp: entry_ok_def)
      moreover from this have "row_of (e\<lparr>lk_crest := crest\<rparr>) rank \<in> set (wd_linkshells ?db)"
        by (auto simp: row_of_def image_iff intro!: bexI [of _ "row_of e rank"])
      ultimately show ?thesis using ls True by (auto simp: entry_ok_def tracks)
    next
      case False
      with ls have "lsm_cache m j = Some ls" by simp
      from coherentD(2) [OF co this] obtain rank where r: "row_of ls rank \<in> set (wd_linkshells db)" "lk_db_id ls = j"
        "shells.tracks (lk_members ls) db j" by (auto simp: entry_ok_def)
      from r(1,2) False have "row_of ls rank \<in> set (wd_linkshells ?db)"
        by (auto simp: row_of_def image_iff intro!: bexI [of _ "row_of ls rank"])
      with r(2,3) show ?thesis by (auto simp: entry_ok_def tracks)
    qed
  next
    fix n j assume "lsm_by_name ?m n = Some j"
    then have "lsm_by_name m n = Some j" by simp
    from coherentD(3) [OF co this] e show "\<exists>ls. lsm_cache ?m j = Some ls \<and> lk_name ls = n" by auto
  qed
  with eq show ?thesis by simp
qed

lemma fresh_id:
  assumes "wd_sequence db < 0x7FFFFFFFFFFFFFFF"
  shows "wd_sequence db < wd_sequence db + 1"
proof -
  have "1 + wd_sequence db \<noteq> 0"
  proof
    assume "1 + wd_sequence db = 0"
    then have "wd_sequence db = - 1" by (simp add: eq_neg_iff_add_eq_0 add.commute)
    with assms show False by simp
  qed
  from unatSuc [OF this] show ?thesis by (simp add: word_less_nat_alt add.commute)
qed

text \<open>Inserting the row of a new linkshell.\<close>

lemma create_row:
  assumes co: "coherent m db" and new: "db_create_linkshell down db name crest master = Some (i, db')"
  shows "coherent m db'" and "i = wd_sequence db'" and "db_roster db' i = {}" and "lsm_cache m i = None"
    and "\<lparr>lr_id = i, lr_name = name, lr_crest_icon = crest, lr_master = master, lr_rank = RANK_MASTER\<rparr> \<in> set (wd_linkshells db')"
proof -
  let ?r = "\<lparr>lr_id = i, lr_name = name, lr_crest_icon = crest, lr_master = master, lr_rank = RANK_MASTER\<rparr>"
  note wf = coherentD(1) [OF co]
  have i: "i = wd_sequence db + 1" and db': "db' = db\<lparr>wd_sequence := i, wd_linkshells := wd_linkshells db @ [?r]\<rparr>"
    and name: "name \<notin> lr_name ` set (wd_linkshells db)" and small: "wd_sequence db < 0x7FFFFFFFFFFFFFFF"
    using new by (auto simp: db_create_linkshell_def Let_def not_le split: if_splits)
  note lt = fresh_id [OF small]
  have old: "lr_id r < i" if "r \<in> set (wd_linkshells db)" for r
    using wf that lt by (auto simp: db_wf_def i intro: le_less_trans)
  have oldm: "lm_linkshell_id x < i" if "x \<in> set (wd_members db)" for x
    using wf that lt by (auto simp: db_wf_def i intro: le_less_trans)
  have wf': "db_wf db'"
    using wf name old oldm lt by (auto simp: db_wf_def db' i intro: less_imp_le)
  have tracks: "shells.tracks ms db' j = shells.tracks ms db j" for ms j
    by (simp add: shells.tracks_def db_roster_def db')
  have rows: "set (wd_linkshells db) \<subseteq> set (wd_linkshells db')" by (auto simp: db')
  show "coherent m db'"
  proof (rule coherentI)
    show "db_wf db'" by (rule wf')
    show "entry_ok db' j e" if "lsm_cache m j = Some e" for j e
      using coherentD(2) [OF co that] rows by (auto simp: entry_ok_def tracks)
    show "\<exists>ls. lsm_cache m j = Some ls \<and> lk_name ls = n" if "lsm_by_name m n = Some j" for n j
      using coherentD(3) [OF co that] .
  qed
  show "i = wd_sequence db'" "?r \<in> set (wd_linkshells db')" by (simp_all add: db')
  show "db_roster db' i = {}" using oldm by (auto simp: db_roster_def db')
  show "lsm_cache m i = None"
  proof (rule ccontr)
    assume "lsm_cache m i \<noteq> None"
    then obtain e where "lsm_cache m i = Some e" by blast
    from coherentD(2) [OF co this] obtain rank where "row_of e rank \<in> set (wd_linkshells db)" "lk_db_id e = i"
      by (auto simp: entry_ok_def)
    with old [of "row_of e rank"] show False by simp
  qed
qed

lemma coherent_create:
  assumes co: "coherent m db" and create: "lsm_create down next_id m db name crest master = (next_id', m', db', result)"
  shows "coherent m' db'"
proof (cases "db_create_linkshell down db name crest master")
  case None
  with co create show ?thesis by (simp add: lsm_create_def)
next
  case (Some p)
  obtain i db1 where p: "p = (i, db1)" by (rule prod.exhaust)
  note row = create_row [OF co Some [unfolded p]]
  show ?thesis
  proof (cases "i = 0 \<or> db_add_player down db1 i master RANK_MASTER = None")
    case True
    with row(1) create Some p show ?thesis by (auto simp: lsm_create_def split: if_splits)
  next
    case False
    then obtain db2 where add: "db_add_player down db1 i master RANK_MASTER = Some db2" and i: "i \<noteq> 0" by auto
    let ?new = "\<lparr>lm_character_id = master, lm_linkshell_id = i, lm_rank = RANK_MASTER\<rparr>"
    define e where "e = (linkshell_new i next_id name crest master RANK_MASTER)\<lparr>lk_members := [?new]\<rparr>"
    have e: "lk_db_id e = i" "lk_name e = name" "lk_members e = [?new]" by (simp_all add: e_def linkshell_new_def)
    have res: "m' = \<lparr>lsm_cache = (lsm_cache m)(lk_db_id e \<mapsto> e), lsm_by_name = (lsm_by_name m)(lk_name e \<mapsto> lk_db_id e)\<rparr>"
      "db' = db2"
      using create Some p i add by (auto simp: lsm_create_def alloc_group_id_def Let_def e_def linkshell_new_def)
    note shells_same = db_shells_same(1) [OF add]
    have "row_of e RANK_MASTER \<in> set (wd_linkshells db2)"
      using row(5) shells_same by (simp add: row_of_def e_def linkshell_new_def)
    moreover have "shells.tracks (lk_members e) db2 i"
      using db_add_roster [OF add, of i] row(3) by (simp add: shells.tracks_def e)
    ultimately have new: "entry_ok db2 (lk_db_id e) e" unfolding entry_ok_def e(1) by blast
    have kept: "entry_ok db2 j x" if "lsm_cache m j = Some x" "j \<noteq> lk_db_id e" for j x
      using coherentD(2) [OF row(1) that(1)] that(2) shells_same shells.tracks_other(1) [OF _ add]
      by (simp add: entry_ok_def e)
    have named: "n = lk_name e" if "lsm_by_name m n = Some (lk_db_id e)" for n
      using coherentD(3) [OF co that] row(4) by (simp add: e)
    have "db_wf db2" using db_wf_add [OF coherentD(1) [OF row(1)] _ add] row(2) by simp
    from coherent_enter [OF co this kept new named] show ?thesis unfolding res .
  qed
qed

section \<open>The handlers keep the cache coherent\<close>

definition linkshells_ok :: "world_server \<Rightarrow> bool" where
  "linkshells_ok s \<longleftrightarrow> coherent (wsv_linkshells s) (wsv_db s)"

lemma linkshells_ok_same:
  "wsv_linkshells s' = wsv_linkshells s \<Longrightarrow> wsv_db s' = wsv_db s \<Longrightarrow> linkshells_ok s \<Longrightarrow> linkshells_ok s'"
  by (simp add: linkshells_ok_def)

lemma ok_load:
  assumes "linkshells_ok s" and "\<not> down QLinkshellMembers" and "load_linkshell down name s = (s', r)"
  shows "linkshells_ok s'" and "r = Some (Some ls) \<Longrightarrow> lk_db_id ls \<le> wd_sequence (wsv_db s')"
  using assms coherent_load [of "wsv_linkshells s" "wsv_db s" down "wsv_next_group s" name]
  by (auto simp: load_linkshell_def linkshells_ok_def split: prod.splits)

lemma ok_set:
  "linkshells_ok s \<Longrightarrow> i \<le> wd_sequence (wsv_db s) \<Longrightarrow>
    linkshells_ok (set_linkshells (lsm_add_member down (wsv_linkshells s) (wsv_db s) i c r) s)"
  "linkshells_ok s \<Longrightarrow> linkshells_ok (set_linkshells (lsm_remove_member down (wsv_linkshells s) (wsv_db s) i c) s)"
  "linkshells_ok s \<Longrightarrow> linkshells_ok (set_linkshells (lsm_change_rank down (wsv_linkshells s) (wsv_db s) i c r) s)"
  "linkshells_ok s \<Longrightarrow> linkshells_ok (set_linkshells (lsm_change_crest down (wsv_linkshells s) (wsv_db s) n cr) s)"
  by (simp_all add: linkshells_ok_def set_linkshells_def coherent_add coherent_remove coherent_rank coherent_crest)

lemma ok_create: "linkshells_ok s \<Longrightarrow> linkshells_ok (fst (handle_create_linkshell now down sub s))"
  by (auto simp: handle_create_linkshell_def linkshells_ok_def Let_def
    split: outcome.splits world_packet.splits prod.splits intro: coherent_create)

lemma ok_invite:
  assumes "linkshells_ok s" and "\<not> down QLinkshellMembers"
  shows "linkshells_ok (fst (handle_linkshell_invite now down sub s))"
  using assms ok_load [where down = down, OF assms]
  by (auto simp: handle_linkshell_invite_def Let_def ok_set
    split: outcome.splits world_packet.splits prod.splits option.splits)

lemma ok_leave:
  assumes "linkshells_ok s" and "\<not> down QLinkshellMembers"
  shows "linkshells_ok (fst (handle_linkshell_leave now down sub s))"
  using assms ok_load [where down = down, OF assms]
  by (auto simp: handle_linkshell_leave_def Let_def ok_set
    split: outcome.splits world_packet.splits prod.splits option.splits)

lemma ok_rank:
  assumes "linkshells_ok s" and "\<not> down QLinkshellMembers"
  shows "linkshells_ok (fst (handle_linkshell_rank_change now down sub s))"
  using assms ok_load [where down = down, OF assms]
  by (auto simp: handle_linkshell_rank_change_def Let_def ok_set
    split: outcome.splits world_packet.splits prod.splits option.splits)

lemma ok_modify: "linkshells_ok s \<Longrightarrow> linkshells_ok (fst (handle_modify_linkshell down sub s))"
  by (auto simp: handle_modify_linkshell_def Let_def ok_set lsm_change_master_def
    split: outcome.splits world_packet.splits)

lemma ok_change:
  assumes "linkshells_ok s"
  shows "linkshells_ok (fst (handle_linkshell_change down sub s))"
proof -
  have "coherent (wsv_linkshells s) (wsv_db s\<lparr>wd_characters := cs\<rparr>)" for cs
    using assms by (simp add: linkshells_ok_def coherent_def db_wf_def entry_ok_def shells.tracks_def db_roster_def)
  then show ?thesis
    using assms
    by (auto simp: handle_linkshell_change_def Let_def linkshells_ok_def modify_wsession_def db_set_active_ls_def
      split: outcome.splits world_packet.splits option.splits if_splits)
qed

lemma ok_control:
  assumes "linkshells_ok s"
  shows "linkshells_ok (fst (handle_end_confirm now sub s))" "linkshells_ok (fst (handle_zone_change_request now sub s))"
    "linkshells_ok (fst (handle_party_modify sub s))" "linkshells_ok (fst (handle_party_leave sub s))"
    "linkshells_ok (fst (handle_party_invite sub s))" "linkshells_ok (fst (handle_group_invite_result sub s))"
    "linkshells_ok (fst (handle_delete_linkshell sub s))"
  using assms
  by (auto simp: linkshells_ok_def handle_end_confirm_def handle_zone_change_request_def handle_party_modify_def
      handle_party_leave_def handle_party_invite_def handle_group_invite_result_def handle_delete_linkshell_def
      lsm_delete_def end_confirmed_def take_pending_end_def modify_wsession_def sr_remove_def Let_def
    split: outcome.splits world_packet.splits option.splits prod.splits)

section \<open>Properties of the linkshells\<close>

text \<open>
  C27: the linkshell cache never disagrees with the tables. If every cached linkshell has its row with its
  name, crest and master, its member list is the stored roster without duplicates, and the name index leads
  to it, then all of that holds again after any control packet, whatever database calls fail, also half-way
  through a creation; the one exception is the roster read of a lookup, whose failure is not reported.
\<close>

lemma linkshell_cache_coherent:
  assumes "linkshells_ok s" and "\<not> down QLinkshellMembers"
  shows "linkshells_ok (fst (handle_world_packet now down sub s))"
  unfolding handle_world_packet_def Let_def
  using assms
  by (simp add: ok_create ok_invite ok_leave ok_rank ok_modify ok_change ok_control
    handle_begin_confirm_def handle_linkshell_invite_cancel_def)

text \<open>
  When the roster read of a lookup does fail, the linkshell is cached with no members at all, and
  every later lookup by that name, with the database up again, is answered from the cache with the empty
  roster.
\<close>

lemma failed_roster_read_sticks:
  assumes "lsm_get m name = None" and "\<not> down QLinkshellByName" and "down QLinkshellMembers"
    and "find (\<lambda>r. lr_name r = name) (wd_linkshells db) = Some row"
    and "lsm_get_or_load down next_id m db name = (next_id', m', result)"
  shows "\<exists>ls. result = Some (Some ls) \<and> lk_members ls = []
    \<and> (\<forall>down' db' next_id''. lsm_get_or_load down' next_id'' m' db' name = (next_id'', m', Some (Some ls)))"
proof -
  let ?ls = "linkshell_new (lr_id row) next_id (lr_name row) (lr_crest_icon row) (lr_master row) RANK_MASTER"
  have name: "lr_name row = name" using assms(4) by (rule find_row(2))
  have res: "result = Some (Some ?ls)" "lsm_get m' name = Some ?ls"
    using assms name
    by (auto simp: lsm_get_or_load_def alloc_group_id_def db_linkshell_by_name_def db_ls_members_def Let_def lsm_get_def
        linkshell_new_def)
  then show ?thesis by (auto simp: lsm_get_or_load_def linkshell_new_def)
qed

text \<open>One linkshell, created in an empty state: it is cached, and its row is what the lookup reads.\<close>

definition demo_tables :: world_db where
  "demo_tables = \<lparr>wd_linkshells = [\<lparr>lr_id = 1, lr_name = [71], lr_crest_icon = 2, lr_master = 7, lr_rank = 10\<rparr>],
     wd_sequence = 1, wd_members = [\<lparr>lm_character_id = 7, lm_linkshell_id = 1, lm_rank = 10\<rparr>], wd_characters = []\<rparr>"

definition demo_groups :: world_server where
  "demo_groups = \<lparr>wsv_zone = Map.empty, wsv_chat = Map.empty, wsv_names = Map.empty, wsv_pending_ends = Map.empty,
     wsv_owned = (\<lambda>_. []), wsv_conn_seq = 1, wsv_routing = Map.empty, wsv_parties = Map.empty,
     wsv_linkshells = linkshell_manager_new, wsv_next_group = FIRST_GROUP_ID, wsv_db = demo_tables\<rparr>"

definition demo_invite :: subpacket where
  "demo_invite = control_frame 0 0x1029 7 (le_bytes 4 (9 :: u32) @ [71] @ replicate 31 0)"

lemma demo_groups_ok: "linkshells_ok demo_groups"
  by (simp add: linkshells_ok_def coherent_def db_wf_def demo_groups_def demo_tables_def linkshell_manager_new_def)

lemma linkshell_cache_coherent_witness:
  "linkshells_ok (fst (handle_world_packet 0 (\<lambda>_. False) demo_invite demo_groups))"
  by (rule linkshell_cache_coherent [OF demo_groups_ok]) simp

lemma failed_roster_read_sticks_witness:
  "\<exists>m' ls. lk_members ls = [] \<and> lsm_get_or_load (\<lambda>_. False) 0 m' demo_tables [71] = (0, m', Some (Some ls))"
proof -
  obtain n' m' r where l: "lsm_get_or_load (\<lambda>c. c = QLinkshellMembers) 0 linkshell_manager_new demo_tables [71] = (n', m', r)"
    by (rule prod_cases3)
  have "lsm_get linkshell_manager_new [71] = None" by (simp add: lsm_get_def linkshell_manager_new_def)
  from failed_roster_read_sticks [OF this _ _ _ l] obtain ls where "lk_members ls = []"
    and "\<forall>down' db' next_id''. lsm_get_or_load down' next_id'' m' db' [71] = (next_id'', m', Some (Some ls))"
    by (auto simp: demo_tables_def)
  then show ?thesis by blast
qed

section \<open>Parties\<close>

definition party_ok :: "u32 \<Rightarrow> party \<Rightarrow> bool" where
  "party_ok owner p \<longleftrightarrow> pt_owner p = owner \<and> distinct (pt_members p)
     \<and> (pt_leader p \<in> set (pt_members p) \<or> pt_leader p = 0)"

definition parties_ok :: "party_manager \<Rightarrow> bool" where
  "parties_ok m \<longleftrightarrow> (\<forall>owner p. m owner = Some p \<longrightarrow> party_ok owner p)"

lemma party_ok_new: "party_ok owner (party_new g owner)"
  by (simp add: party_ok_def party_new_def)

lemma party_ok_add: "party_ok owner p \<Longrightarrow> party_ok owner (party_add_member p c)"
  by (auto simp: party_ok_def party_add_member_def)

lemma first_or_zero_in: "first_or_zero xs \<in> set xs \<or> first_or_zero xs = 0"
  by (cases xs) (simp_all add: first_or_zero_def)

lemma party_ok_remove:
  assumes "party_ok owner p"
  shows "party_ok owner (fst (party_remove_member p c))"
proof (cases "pt_leader p = c")
  case True
  with assms first_or_zero_in [of "remove1 c (pt_members p)"] show ?thesis
    by (auto simp: party_ok_def party_remove_member_def Let_def)
next
  case False
  with assms show ?thesis by (auto simp: party_ok_def party_remove_member_def Let_def)
qed

lemma parties_ok_update: "parties_ok m \<Longrightarrow> party_ok owner p \<Longrightarrow> parties_ok (m(owner \<mapsto> p))"
  by (simp add: parties_ok_def)

lemma parties_ok_disband: "parties_ok m \<Longrightarrow> parties_ok (pm_disband m owner)"
  by (simp add: parties_ok_def pm_disband_def)

lemma parties_ok_add: "parties_ok m \<Longrightarrow> parties_ok (pm_add_member m owner c)"
  by (auto simp: pm_add_member_def parties_ok_def party_ok_add split: option.split)

lemma parties_ok_remove: "parties_ok m \<Longrightarrow> parties_ok (fst (pm_remove_member m owner c))"
  by (auto simp: pm_remove_member_def parties_ok_def case_prod_beta party_ok_remove split: option.split)

lemma parties_ok_ensure: "parties_ok m \<Longrightarrow> pm_ensure_party n m owner = (n', m', p) \<Longrightarrow> parties_ok m'"
  by (auto simp: pm_ensure_party_def alloc_group_id_def Let_def parties_ok_update party_ok_new split: option.splits)

lemma wsv_parties_fields [simp]:
  "wsv_parties (modify_wsession i f s) = wsv_parties s" "wsv_parties (set_linkshells r s) = wsv_parties s"
  "wsv_parties (end_confirmed i s) = wsv_parties s"
  by (simp_all add: modify_wsession_def set_linkshells_def end_confirmed_def take_pending_end_def Let_def sr_remove_def)

lemma load_linkshell_parties: "load_linkshell down name s = (s', r) \<Longrightarrow> wsv_parties s' = wsv_parties s"
  by (auto simp: load_linkshell_def split: prod.splits)

lemma parties_untouched:
  "wsv_parties (fst (handle_end_confirm now sub s)) = wsv_parties s"
  "wsv_parties (fst (handle_zone_change_request now sub s)) = wsv_parties s"
  "wsv_parties (fst (handle_group_invite_result sub s)) = wsv_parties s"
  "wsv_parties (fst (handle_create_linkshell now down sub s)) = wsv_parties s"
  "wsv_parties (fst (handle_modify_linkshell down sub s)) = wsv_parties s"
  "wsv_parties (fst (handle_delete_linkshell sub s)) = wsv_parties s"
  "wsv_parties (fst (handle_linkshell_change down sub s)) = wsv_parties s"
  by (auto simp: handle_end_confirm_def handle_zone_change_request_def handle_group_invite_result_def
      handle_create_linkshell_def handle_modify_linkshell_def handle_delete_linkshell_def handle_linkshell_change_def Let_def
    split: outcome.splits world_packet.splits option.splits prod.splits)

lemma parties_untouched_roster:
  "wsv_parties (fst (handle_linkshell_invite now down sub s)) = wsv_parties s"
  "wsv_parties (fst (handle_linkshell_leave now down sub s)) = wsv_parties s"
  "wsv_parties (fst (handle_linkshell_rank_change now down sub s)) = wsv_parties s"
  by (auto simp: handle_linkshell_invite_def handle_linkshell_leave_def handle_linkshell_rank_change_def Let_def
    split: outcome.splits world_packet.splits option.splits prod.splits dest: load_linkshell_parties)

lemma parties_ok_handlers:
  assumes "parties_ok (wsv_parties s)"
  shows "parties_ok (wsv_parties (fst (handle_party_modify sub s)))"
    and "parties_ok (wsv_parties (fst (handle_party_leave sub s)))"
    and "parties_ok (wsv_parties (fst (handle_party_invite sub s)))"
  using assms parties_ok_ensure [OF assms]
  by (auto simp: handle_party_modify_def handle_party_leave_def handle_party_invite_def Let_def
      parties_ok_disband parties_ok_remove parties_ok_add
    split: outcome.splits world_packet.splits option.splits prod.splits)



text \<open>
  A party modification, a change of leader or a kick, dissolves the party: whenever the party of the
  addressed player has more than one member, any readable modification leaves no party there, with every
  other party and the rest of the state as it was, and nobody is told.
\<close>

lemma party_modify_dissolves:
  assumes "sp_type (sp_header sub) = 0x1020" and "party_modify_parse (sp_data sub) = Ok (PartyModify command actor_id name)"
    and "wsv_parties s (target_id (sp_header sub)) = Some p" and "1 < party_member_count p"
  shows "handle_world_packet now down sub s =
    (s\<lparr>wsv_parties := (wsv_parties s)(target_id (sp_header sub) := None)\<rparr>, [], Done)"
  using assms
  by (simp add: handle_world_packet_def Let_def handle_party_modify_def pm_get_party_def pm_disband_def)

lemma party_modify_dissolves_witness:
  "wsv_parties (fst (handle_world_packet 0 (\<lambda>_. False)
      (control_frame 0 0x1020 7 (le_bytes 2 (2 :: u16) @ le_bytes 4 (9 :: u32)))
      (demo_groups\<lparr>wsv_parties := [7 \<mapsto> party_add_member (party_new 1 7) 9]\<rparr>))) 7 = None"
proof -
  let ?f = "control_frame 0 0x1020 7 (le_bytes 2 (2 :: u16) @ le_bytes 4 (9 :: u32))"
  have "party_modify_parse (sp_data ?f) = Ok (PartyModify 2 9 [])"
    by (simp add: control_frame_def set_target_id_def new_with_flag_def Let_def party_modify_parse_def read_le_def read_exact_def)
  moreover have "sp_type (sp_header ?f) = 0x1020" "target_id (sp_header ?f) = 7"
    by (simp_all add: control_frame_def set_target_id_def new_with_flag_def Let_def)
  ultimately show ?thesis
    using party_modify_dissolves [of ?f 2 9 "[]" "demo_groups\<lparr>wsv_parties := [7 \<mapsto> party_add_member (party_new 1 7) 9]\<rparr>"
        "party_add_member (party_new 1 7) 9" 0 "\<lambda>_. False"]
    by (simp add: party_member_count_def party_add_member_def party_new_def)
qed

text \<open>Beside these: what a member who does not own the party cannot do, since parties are filed under their owner.\<close>

lemma party_leave_of_member:
  assumes "wsv_parties s (source_id (sp_header sub)) = None" and "party_leave_parse (sp_data sub) = Ok (PartyLeave flag)"
  shows "handle_party_leave sub s = (s, [], Done)"
proof -
  have "(wsv_parties s)(source_id (sp_header sub) := None) = wsv_parties s" using assms(1) by auto
  then show ?thesis using assms by (simp add: handle_party_leave_def Let_def pm_disband_def pm_remove_member_def)
qed

lemma party_chat_of_member:
  assumes "wsv_parties s (target_id (sp_header sub)) = None" and "sr_get ZoneChannel (target_id (sp_header sub)) s = Some x"
    and "opcode (sp_game_message sub) = 0x00C9"
  shows "handle_game_message now sub s = (s, forward_outs x sub, Done)"
  using assms by (simp add: handle_game_message_def Let_def pm_get_party_def)

end
