(* ===== verification/Ieee.thy ===== *)
theory Ieee
  imports Prelude
begin

text \<open>
  The floating-point arithmetic of the language, as the battle runtime uses it: \<open>f32\<close> and \<open>f64\<close>
  values are their IEEE 754 bit patterns (\<open>u32\<close> and \<open>u64\<close>), an operation decodes its operands to
  a sign, an integer significand and a power of two, computes exactly on integers and rounds once,
  to nearest with ties to even. A NaN result is the quiet one with an empty payload; nothing in
  the modelled code looks inside a NaN. Everything is on \<open>int\<close>, so that concrete values evaluate.
\<close>

section \<open>Powers, bit lengths and square roots of integers\<close>

fun pow2 :: "int \<Rightarrow> int" where
  "pow2 k = (if k \<le> 0 then 1 else if even k then (let h = pow2 (k div 2) in h * h) else 2 * pow2 (k - 1))"

fun bitlen :: "int \<Rightarrow> int" where
  "bitlen n = (if n \<le> 0 then 0 else 1 + bitlen (n div 2))"

fun isqrt :: "int \<Rightarrow> int" where
  "isqrt n = (if n \<le> 0 then 0
    else let r = 2 * isqrt (n div 4) in if (r + 1) * (r + 1) \<le> n then r + 1 else r)"

declare pow2.simps [simp del] bitlen.simps [simp del] isqrt.simps [simp del]

section \<open>Decoded values, formats, bit patterns\<close>

text \<open>\<open>FFin s m e\<close> is \<open>m * 2 ^ e\<close>, negated when \<open>s\<close>; a zero keeps its sign.\<close>

datatype fp = FNan | FInf bool | FFin bool int int

text \<open>A format is its precision and the least and greatest exponent of the last significand bit.\<close>

type_synonym fp_format = "int \<times> int \<times> int"

definition F32 :: fp_format where "F32 = (24, - 149, 104)"
definition F64 :: fp_format where "F64 = (53, - 1074, 971)"

fun fp_decode :: "fp_format \<Rightarrow> int \<Rightarrow> fp" where
  "fp_decode (p, emin, emax) b =
     (let h = pow2 (p - 1); top = (emax - emin + 3) * h; s = (top \<le> b);
          r = (if s then b - top else b); ex = r div h; fr = r mod h
      in if ex = 0 then FFin s fr emin
         else if ex = emax - emin + 2 then (if fr = 0 then FInf s else FNan)
         else FFin s (fr + h) (emin + ex - 1))"

fun fp_encode :: "fp_format \<Rightarrow> fp \<Rightarrow> int" where
  "fp_encode (p, emin, emax) x =
     (let h = pow2 (p - 1); top = (emax - emin + 3) * h
      in case x of
           FNan \<Rightarrow> (emax - emin + 2) * h + pow2 (p - 2)
         | FInf s \<Rightarrow> (if s then top else 0) + (emax - emin + 2) * h
         | FFin s m e \<Rightarrow> (if s then top else 0) + (if m < h then m else (e - emin + 1) * h + (m - h)))"

text \<open>The values a pattern of the format can denote.\<close>

fun fp_canonical :: "fp_format \<Rightarrow> fp \<Rightarrow> bool" where
  "fp_canonical (p, emin, emax) (FFin s m e) \<longleftrightarrow>
     0 \<le> m \<and> m < pow2 p \<and> emin \<le> e \<and> e \<le> emax \<and> (m < pow2 (p - 1) \<longrightarrow> e = emin)"
| "fp_canonical fmt x \<longleftrightarrow> True"

section \<open>Rounding\<close>

text \<open>The fraction \<open>n / d * 2 ^ k\<close> as a numerator and a denominator.\<close>

definition fp_scale :: "int \<Rightarrow> int \<Rightarrow> int \<Rightarrow> int \<times> int" where
  "fp_scale n d k = (if 0 \<le> k then (n * pow2 k, d) else (n, d * pow2 (- k)))"

definition div_floor :: "int \<times> int \<Rightarrow> int" where
  "div_floor q = fst q div snd q"

definition div_nearest :: "int \<times> int \<Rightarrow> int" where
  "div_nearest q =
     (let m = fst q div snd q; r = 2 * (fst q mod snd q)
      in if snd q < r \<or> (r = snd q \<and> odd m) then m + 1 else m)"

fun fp_round :: "fp_format \<Rightarrow> bool \<Rightarrow> int \<Rightarrow> int \<Rightarrow> int \<Rightarrow> fp" where
  "fp_round (p, emin, emax) s n d e =
     (if n = 0 then FFin s 0 emin
      else let q0 = max emin (bitlen n - bitlen d + e - p);
               q = (if pow2 p \<le> div_floor (fp_scale n d (e - q0)) then q0 + 1 else q0);
               m = div_nearest (fp_scale n d (e - q))
           in if m = pow2 p then (if emax < q + 1 then FInf s else FFin s (pow2 (p - 1)) (q + 1))
              else if emax < q then FInf s else FFin s m q)"

section \<open>Arithmetic on decoded values\<close>

definition fp_signed :: "bool \<Rightarrow> int \<Rightarrow> int" where
  "fp_signed s m = (if s then - m else m)"

fun fp_zero :: "fp_format \<Rightarrow> bool \<Rightarrow> fp" where
  "fp_zero (p, emin, emax) s = FFin s 0 emin"

fun fp_neg :: "fp \<Rightarrow> fp" where
  "fp_neg FNan = FNan"
| "fp_neg (FInf s) = FInf (\<not> s)"
| "fp_neg (FFin s m e) = FFin (\<not> s) m e"

fun fp_abs :: "fp \<Rightarrow> fp" where
  "fp_abs FNan = FNan"
| "fp_abs (FInf s) = FInf False"
| "fp_abs (FFin s m e) = FFin False m e"

fun fp_add :: "fp_format \<Rightarrow> fp \<Rightarrow> fp \<Rightarrow> fp" where
  "fp_add fmt FNan y = FNan"
| "fp_add fmt x FNan = FNan"
| "fp_add fmt (FInf s) (FInf t) = (if s = t then FInf s else FNan)"
| "fp_add fmt (FInf s) (FFin t n f) = FInf s"
| "fp_add fmt (FFin s m e) (FInf t) = FInf t"
| "fp_add fmt (FFin s m e) (FFin t n f) =
     (let g = min e f; i = fp_signed s m * pow2 (e - g) + fp_signed t n * pow2 (f - g)
      in if i = 0 then fp_zero fmt (s \<and> t) else fp_round fmt (i < 0) \<bar>i\<bar> 1 g)"

definition fp_sub :: "fp_format \<Rightarrow> fp \<Rightarrow> fp \<Rightarrow> fp" where
  "fp_sub fmt x y = fp_add fmt x (fp_neg y)"

fun fp_mul :: "fp_format \<Rightarrow> fp \<Rightarrow> fp \<Rightarrow> fp" where
  "fp_mul fmt FNan y = FNan"
| "fp_mul fmt x FNan = FNan"
| "fp_mul fmt (FInf s) (FInf t) = FInf (s \<noteq> t)"
| "fp_mul fmt (FInf s) (FFin t n f) = (if n = 0 then FNan else FInf (s \<noteq> t))"
| "fp_mul fmt (FFin s m e) (FInf t) = (if m = 0 then FNan else FInf (s \<noteq> t))"
| "fp_mul fmt (FFin s m e) (FFin t n f) = fp_round fmt (s \<noteq> t) (m * n) 1 (e + f)"

fun fp_div :: "fp_format \<Rightarrow> fp \<Rightarrow> fp \<Rightarrow> fp" where
  "fp_div fmt FNan y = FNan"
| "fp_div fmt x FNan = FNan"
| "fp_div fmt (FInf s) (FInf t) = FNan"
| "fp_div fmt (FInf s) (FFin t n f) = FInf (s \<noteq> t)"
| "fp_div fmt (FFin s m e) (FInf t) = fp_zero fmt (s \<noteq> t)"
| "fp_div fmt (FFin s m e) (FFin t n f) =
     (if n = 0 then (if m = 0 then FNan else FInf (s \<noteq> t)) else fp_round fmt (s \<noteq> t) m n (e - f))"

text \<open>The remainder of a division truncated towards zero (\<open>%\<close>): it is exact.\<close>

fun fp_rem :: "fp_format \<Rightarrow> fp \<Rightarrow> fp \<Rightarrow> fp" where
  "fp_rem fmt FNan y = FNan"
| "fp_rem fmt x FNan = FNan"
| "fp_rem fmt (FInf s) y = FNan"
| "fp_rem fmt (FFin s m e) (FInf t) = FFin s m e"
| "fp_rem fmt (FFin s m e) (FFin t n f) =
     (if n = 0 then FNan
      else let g = min e f in fp_round fmt s ((m * pow2 (e - g)) mod (n * pow2 (f - g))) 1 g)"

text \<open>
  The square root: enough bits are taken that the integer root has two more than the precision,
  and a last odd bit says that the root is not exact.
\<close>

fun fp_sqrt :: "fp_format \<Rightarrow> fp \<Rightarrow> fp" where
  "fp_sqrt fmt FNan = FNan"
| "fp_sqrt fmt (FInf s) = (if s then FNan else FInf False)"
| "fp_sqrt (p, emin, emax) (FFin s m e) =
     (if m = 0 then FFin s 0 emin
      else if s then FNan
      else let t0 = max 0 (2 * p + 4 - bitlen m);
               t = (if even (e - t0) then t0 else t0 + 1);
               n = m * pow2 t; r = isqrt n
           in fp_round (p, emin, emax) False (2 * r + (if r * r = n then 0 else 1)) 1 ((e - t) div 2 - 1))"

section \<open>Comparisons\<close>

fun fp_less :: "fp \<Rightarrow> fp \<Rightarrow> bool" where
  "fp_less (FInf s) (FInf t) \<longleftrightarrow> s \<and> \<not> t"
| "fp_less (FInf s) (FFin t n f) \<longleftrightarrow> s"
| "fp_less (FFin s m e) (FInf t) \<longleftrightarrow> \<not> t"
| "fp_less (FFin s m e) (FFin t n f) \<longleftrightarrow>
     fp_signed s m * pow2 (e - min e f) < fp_signed t n * pow2 (f - min e f)"
| "fp_less x y \<longleftrightarrow> False"

fun fp_eq :: "fp \<Rightarrow> fp \<Rightarrow> bool" where
  "fp_eq (FInf s) (FInf t) \<longleftrightarrow> s = t"
| "fp_eq (FFin s m e) (FFin t n f) \<longleftrightarrow>
     fp_signed s m * pow2 (e - min e f) = fp_signed t n * pow2 (f - min e f)"
| "fp_eq x y \<longleftrightarrow> False"

definition fp_le :: "fp \<Rightarrow> fp \<Rightarrow> bool" where
  "fp_le x y \<longleftrightarrow> fp_less x y \<or> fp_eq x y"

text \<open>
  \<open>max\<close> and \<open>min\<close> return the other operand for a NaN; \<open>clamp\<close> keeps a NaN.
\<close>

definition fp_max :: "fp \<Rightarrow> fp \<Rightarrow> fp" where
  "fp_max x y = (if x = FNan then y else if y = FNan then x else if fp_less x y then y else x)"

definition fp_min :: "fp \<Rightarrow> fp \<Rightarrow> fp" where
  "fp_min x y = (if x = FNan then y else if y = FNan then x else if fp_less y x then y else x)"

definition fp_clamp :: "fp \<Rightarrow> fp \<Rightarrow> fp \<Rightarrow> fp" where
  "fp_clamp lo hi x = (let y = (if fp_less x lo then lo else x) in if fp_less hi y then hi else y)"

section \<open>Integers\<close>

definition fp_of_int :: "fp_format \<Rightarrow> int \<Rightarrow> fp" where
  "fp_of_int fmt i = fp_round fmt (i < 0) \<bar>i\<bar> 1 0"

fun fp_convert :: "fp_format \<Rightarrow> fp \<Rightarrow> fp" where
  "fp_convert fmt FNan = FNan"
| "fp_convert fmt (FInf s) = FInf s"
| "fp_convert fmt (FFin s m e) = fp_round fmt s m 1 e"

text \<open>The integer part, and the saturating \<open>as\<close> to an integer type with the given range.\<close>

definition fp_int_part :: "bool \<Rightarrow> int \<Rightarrow> int \<Rightarrow> int" where
  "fp_int_part s m e = fp_signed s (if 0 \<le> e then m * pow2 e else m div pow2 (- e))"

fun fp_to_int :: "int \<Rightarrow> int \<Rightarrow> fp \<Rightarrow> int" where
  "fp_to_int lo hi FNan = 0"
| "fp_to_int lo hi (FInf s) = (if s then lo else hi)"
| "fp_to_int lo hi (FFin s m e) = max lo (min hi (fp_int_part s m e))"

fun fp_ceil :: "fp_format \<Rightarrow> fp \<Rightarrow> fp" where
  "fp_ceil fmt (FFin s m e) =
     (if 0 \<le> e then FFin s m e
      else let k = pow2 (- e)
           in fp_round fmt s (if s then m div k else (m + k - 1) div k) 1 0)"
| "fp_ceil fmt x = x"

text \<open>\<open>round\<close>: half-way cases away from zero.\<close>

fun fp_round_half_away :: "fp_format \<Rightarrow> fp \<Rightarrow> fp" where
  "fp_round_half_away fmt (FFin s m e) =
     (if 0 \<le> e then FFin s m e
      else let k = pow2 (- e) in fp_round fmt s ((2 * m + k) div (2 * k)) 1 0)"
| "fp_round_half_away fmt x = x"

section \<open>\<open>f32\<close> and \<open>f64\<close>\<close>

definition f32_val :: "u32 \<Rightarrow> fp" where "f32_val b = fp_decode F32 (uint b)"
definition f32_bits_of :: "fp \<Rightarrow> u32" where "f32_bits_of x = word_of_int (fp_encode F32 x)"
definition f64_val :: "u64 \<Rightarrow> fp" where "f64_val b = fp_decode F64 (uint b)"
definition f64_bits_of :: "fp \<Rightarrow> u64" where "f64_bits_of x = word_of_int (fp_encode F64 x)"

definition f32_add :: "u32 \<Rightarrow> u32 \<Rightarrow> u32" where
  "f32_add a b = f32_bits_of (fp_add F32 (f32_val a) (f32_val b))"
definition f32_sub :: "u32 \<Rightarrow> u32 \<Rightarrow> u32" where
  "f32_sub a b = f32_bits_of (fp_sub F32 (f32_val a) (f32_val b))"
definition f32_mul :: "u32 \<Rightarrow> u32 \<Rightarrow> u32" where
  "f32_mul a b = f32_bits_of (fp_mul F32 (f32_val a) (f32_val b))"
definition f32_div :: "u32 \<Rightarrow> u32 \<Rightarrow> u32" where
  "f32_div a b = f32_bits_of (fp_div F32 (f32_val a) (f32_val b))"
definition f32_sqrt :: "u32 \<Rightarrow> u32" where
  "f32_sqrt a = f32_bits_of (fp_sqrt F32 (f32_val a))"
definition f32_neg :: "u32 \<Rightarrow> u32" where
  "f32_neg a = f32_bits_of (fp_neg (f32_val a))"
definition f32_abs :: "u32 \<Rightarrow> u32" where
  "f32_abs a = f32_bits_of (fp_abs (f32_val a))"
definition f32_lt :: "u32 \<Rightarrow> u32 \<Rightarrow> bool" where "f32_lt a b \<longleftrightarrow> fp_less (f32_val a) (f32_val b)"
definition f32_le :: "u32 \<Rightarrow> u32 \<Rightarrow> bool" where "f32_le a b \<longleftrightarrow> fp_le (f32_val a) (f32_val b)"
definition f32_eq :: "u32 \<Rightarrow> u32 \<Rightarrow> bool" where "f32_eq a b \<longleftrightarrow> fp_eq (f32_val a) (f32_val b)"
definition f32_max :: "u32 \<Rightarrow> u32 \<Rightarrow> u32" where
  "f32_max a b = f32_bits_of (fp_max (f32_val a) (f32_val b))"
definition f32_min :: "u32 \<Rightarrow> u32 \<Rightarrow> u32" where
  "f32_min a b = f32_bits_of (fp_min (f32_val a) (f32_val b))"
definition f32_clamp :: "u32 \<Rightarrow> u32 \<Rightarrow> u32 \<Rightarrow> u32" where
  "f32_clamp lo hi a = f32_bits_of (fp_clamp (f32_val lo) (f32_val hi) (f32_val a))"
definition f32_ceil :: "u32 \<Rightarrow> u32" where
  "f32_ceil a = f32_bits_of (fp_ceil F32 (f32_val a))"
definition f32_of_int :: "int \<Rightarrow> u32" where "f32_of_int i = f32_bits_of (fp_of_int F32 i)"

text \<open>\<open>rem_euclid\<close>: the truncated remainder, moved up by the divisor where it is negative.\<close>

definition f32_rem_euclid :: "u32 \<Rightarrow> u32 \<Rightarrow> u32" where
  "f32_rem_euclid a b =
     (let r = fp_rem F32 (f32_val a) (f32_val b)
      in if fp_less r (FFin False 0 0) then f32_bits_of (fp_add F32 r (fp_abs (f32_val b)))
         else f32_bits_of r)"

definition f64_of_f32 :: "u32 \<Rightarrow> u64" where
  "f64_of_f32 a = f64_bits_of (fp_convert F64 (f32_val a))"

definition f64_add :: "u64 \<Rightarrow> u64 \<Rightarrow> u64" where
  "f64_add a b = f64_bits_of (fp_add F64 (f64_val a) (f64_val b))"
definition f64_sub :: "u64 \<Rightarrow> u64 \<Rightarrow> u64" where
  "f64_sub a b = f64_bits_of (fp_sub F64 (f64_val a) (f64_val b))"
definition f64_mul :: "u64 \<Rightarrow> u64 \<Rightarrow> u64" where
  "f64_mul a b = f64_bits_of (fp_mul F64 (f64_val a) (f64_val b))"
definition f64_div :: "u64 \<Rightarrow> u64 \<Rightarrow> u64" where
  "f64_div a b = f64_bits_of (fp_div F64 (f64_val a) (f64_val b))"
definition f64_lt :: "u64 \<Rightarrow> u64 \<Rightarrow> bool" where "f64_lt a b \<longleftrightarrow> fp_less (f64_val a) (f64_val b)"
definition f64_le :: "u64 \<Rightarrow> u64 \<Rightarrow> bool" where "f64_le a b \<longleftrightarrow> fp_le (f64_val a) (f64_val b)"
definition f64_eq :: "u64 \<Rightarrow> u64 \<Rightarrow> bool" where "f64_eq a b \<longleftrightarrow> fp_eq (f64_val a) (f64_val b)"
definition f64_max :: "u64 \<Rightarrow> u64 \<Rightarrow> u64" where
  "f64_max a b = f64_bits_of (fp_max (f64_val a) (f64_val b))"
definition f64_min :: "u64 \<Rightarrow> u64 \<Rightarrow> u64" where
  "f64_min a b = f64_bits_of (fp_min (f64_val a) (f64_val b))"
definition f64_clamp :: "u64 \<Rightarrow> u64 \<Rightarrow> u64 \<Rightarrow> u64" where
  "f64_clamp lo hi a = f64_bits_of (fp_clamp (f64_val lo) (f64_val hi) (f64_val a))"
definition f64_ceil :: "u64 \<Rightarrow> u64" where
  "f64_ceil a = f64_bits_of (fp_ceil F64 (f64_val a))"
definition f64_round :: "u64 \<Rightarrow> u64" where
  "f64_round a = f64_bits_of (fp_round_half_away F64 (f64_val a))"
definition f64_of_int :: "int \<Rightarrow> u64" where "f64_of_int i = f64_bits_of (fp_of_int F64 i)"

definition f64_to_u16 :: "u64 \<Rightarrow> u16" where
  "f64_to_u16 a = word_of_int (fp_to_int 0 65535 (f64_val a))"
definition f64_to_i32 :: "u64 \<Rightarrow> int" where
  "f64_to_i32 a = fp_to_int (- (2 ^ 31)) (2 ^ 31 - 1) (f64_val a)"

end
