(* ===== verification/IeeeLaws.thy ===== *)
theory IeeeLaws
  imports Ieee
begin

text \<open>
  Laws of the floating-point arithmetic of \<open>Ieee\<close>: the integer helpers meet their specifications,
  decoding and encoding are inverse on canonical values, rounding changes no representable value,
  the comparison is the order of the exact values, and clamped values convert to integers within
  the range they were clamped to.
\<close>

named_theorems fp_simps

section \<open>Powers, bit lengths, square roots\<close>

lemma pow2_eq [fp_simps]: "pow2 k = 2 ^ nat k"
proof (induction k rule: pow2.induct)
  case (1 k)
  show ?case
  proof (cases "k \<le> 0")
    case True
    then show ?thesis by (simp add: pow2.simps [of k])
  next
    case False
    show ?thesis
    proof (cases "even k")
      case True
      then obtain j where j: "k = 2 * j" by (elim evenE)
      have "pow2 (k div 2) = 2 ^ nat j" using 1 False True j by simp
      moreover have "nat k = nat j + nat j" using j False by simp
      ultimately show ?thesis using False True by (simp add: pow2.simps [of k] power_add Let_def)
    next
      case odd: False
      have "pow2 (k - 1) = 2 ^ nat (k - 1)" using 1 False odd by simp
      moreover have "nat k = Suc (nat (k - 1))" using False by simp
      ultimately show ?thesis using False odd by (simp add: pow2.simps [of k])
    qed
  qed
qed

lemma pow2_pos [simp]: "0 < pow2 k" by (simp add: pow2_eq)

lemma pow2_nonneg [simp]: "0 \<le> pow2 k" by (simp add: pow2_eq)

lemma pow2_neq [simp]: "pow2 k \<noteq> 0" by (simp add: pow2_eq)

lemma pow2_add: "0 \<le> a \<Longrightarrow> 0 \<le> b \<Longrightarrow> pow2 (a + b) = pow2 a * pow2 b"
  by (simp add: pow2_eq nat_add_distrib power_add)

lemma pow2_mono: "a \<le> b \<Longrightarrow> pow2 a \<le> pow2 b"
  by (simp add: pow2_eq nat_mono power_increasing)

lemma pow2_step: "0 < a \<Longrightarrow> pow2 a = 2 * pow2 (a - 1)"
  using pow2_add [of 1 "a - 1"] by (simp add: pow2_eq)

lemma bitlen_bounds: "0 < n \<Longrightarrow> 1 \<le> bitlen n \<and> pow2 (bitlen n - 1) \<le> n \<and> n < pow2 (bitlen n)"
proof (induction n rule: bitlen.induct)
  case (1 n)
  show ?case
  proof (cases "n = 1")
    case True
    then show ?thesis by (simp add: bitlen.simps pow2_eq)
  next
    case False
    then have h: "0 < n div 2" using 1 by simp
    then have ih: "1 \<le> bitlen (n div 2)" "pow2 (bitlen (n div 2) - 1) \<le> n div 2" "n div 2 < pow2 (bitlen (n div 2))"
      using 1 by auto
    have b: "bitlen n = 1 + bitlen (n div 2)" using 1 by (simp add: bitlen.simps [of n])
    have "pow2 (bitlen (n div 2)) = 2 * pow2 (bitlen (n div 2) - 1)" using ih(1) by (intro pow2_step) simp
    moreover have "pow2 (1 + bitlen (n div 2)) = 2 * pow2 (bitlen (n div 2))"
      using pow2_step [of "1 + bitlen (n div 2)"] ih(1) by simp
    ultimately have "2 * pow2 (bitlen (n div 2) - 1) \<le> n" "n < pow2 (1 + bitlen (n div 2))"
      using ih by linarith+
    moreover have "pow2 (bitlen (n div 2)) = 2 * pow2 (bitlen (n div 2) - 1)"
      using ih(1) by (intro pow2_step) simp
    ultimately show ?thesis using ih(1) b by simp
  qed
qed

lemma isqrt_spec: "0 \<le> n \<Longrightarrow> 0 \<le> isqrt n \<and> isqrt n * isqrt n \<le> n \<and> n < (isqrt n + 1) * (isqrt n + 1)"
proof (induction n rule: isqrt.induct)
  case (1 n)
  show ?case
  proof (cases "n \<le> 0")
    case True
    then have "n = 0" using 1 by simp
    then show ?thesis by (simp add: isqrt.simps [of 0])
  next
    case False
    define r where "r = isqrt (n div 4)"
    have ih: "0 \<le> r" "r * r \<le> n div 4" "n div 4 < (r + 1) * (r + 1)"
      using 1 False unfolding r_def by auto
    have lo: "(2 * r) * (2 * r) \<le> n" using ih(2) by (simp add: algebra_simps)
    have "n div 4 + 1 \<le> (r + 1) * (r + 1)" using ih(3) by simp
    then have hi: "n < (2 * r + 2) * (2 * r + 2)" by (simp add: algebra_simps)
    have eq: "isqrt n = (if (2 * r + 1) * (2 * r + 1) \<le> n then 2 * r + 1 else 2 * r)"
      using False by (simp add: isqrt.simps [of n] Let_def r_def)
    show ?thesis using eq lo hi ih(1) by (auto simp: algebra_simps)
  qed
qed

section \<open>Rounding and encoding\<close>

lemma fp_scale_int: "0 \<le> k \<Longrightarrow> fp_scale n d k = (n * pow2 k, d)" "k < 0 \<Longrightarrow> fp_scale n d k = (n, d * pow2 (- k))"
  by (auto simp: fp_scale_def)

lemma div_nearest_one [simp]: "div_nearest (n, 1) = n"
  by (simp add: div_nearest_def)

lemma div_floor_one [simp]: "div_floor (n, 1) = n"
  by (simp add: div_floor_def)

lemma pow2_0 [simp]: "pow2 0 = 1" by (simp add: pow2_eq)

lemma bitlen_one: "bitlen 1 = 1"
  by (simp add: bitlen.simps)

lemma bitlen_le: "0 < n \<Longrightarrow> n < pow2 k \<Longrightarrow> 0 \<le> k \<Longrightarrow> bitlen n \<le> k"
proof (rule ccontr)
  assume n: "0 < n" "n < pow2 k" and k: "\<not> bitlen n \<le> k"
  then have "pow2 k \<le> pow2 (bitlen n - 1)" by (intro pow2_mono) simp
  then show False using n bitlen_bounds [OF n(1)] by linarith
qed

lemma bitlen_ge: "pow2 k \<le> n \<Longrightarrow> k + 1 \<le> bitlen n" if "0 \<le> k"
proof (rule ccontr)
  assume n: "pow2 k \<le> n" and k: "\<not> k + 1 \<le> bitlen n"
  have "0 < n" using n pow2_pos [of k] by linarith
  moreover have "pow2 (bitlen n) \<le> pow2 k" using k by (intro pow2_mono) simp
  ultimately show False using n bitlen_bounds [of n] by linarith
qed

text \<open>A representable value rounds to itself.\<close>

lemma fp_round_exact:
  assumes c: "fp_canonical (p, emin, emax) (FFin s m e)" and p: "2 \<le> p" and z: "m = 0 \<Longrightarrow> e = emin"
  shows "fp_round (p, emin, emax) s m 1 e = FFin s m e"
proof (cases "m = 0")
  case True
  then show ?thesis using z by simp
next
  case False
  have m: "0 < m" "m < pow2 p" "emin \<le> e" "e \<le> emax" "m < pow2 (p - 1) \<longrightarrow> e = emin"
    using c False by auto
  have b: "bitlen m \<le> p" using bitlen_le m p by simp
  define q0 where "q0 = max emin (bitlen m - bitlen 1 + e - p)"
  have q0: "q0 = (if m < pow2 (p - 1) then e else if e = emin then e else e - 1)"
  proof (cases "m < pow2 (p - 1)")
    case True
    then show ?thesis using m b by (simp add: q0_def bitlen_one)
  next
    case False
    then have "p \<le> bitlen m" using bitlen_ge [of "p - 1" m] p by simp
    then show ?thesis using False b m by (auto simp: q0_def bitlen_one)
  qed
  define q where "q = (if pow2 p \<le> div_floor (fp_scale m 1 (e - q0)) then q0 + 1 else q0)"
  have q: "q = e"
  proof (cases "q0 = e")
    case True
    then show ?thesis using m by (simp add: q_def fp_scale_int)
  next
    case False
    then have "q0 = e - 1" "\<not> m < pow2 (p - 1)" using q0 by (auto split: if_splits)
    moreover from this have "pow2 p \<le> m * pow2 1" using pow2_step [of p] p by (simp add: pow2_eq)
    ultimately show ?thesis by (simp add: q_def fp_scale_int)
  qed
  have "fp_round (p, emin, emax) s m 1 e =
      (let n = div_nearest (fp_scale m 1 (e - q))
       in if n = pow2 p then (if emax < q + 1 then FInf s else FFin s (pow2 (p - 1)) (q + 1))
          else if emax < q then FInf s else FFin s n q)"
    using False by (simp add: Let_def q_def q0_def)
  then show ?thesis using q m by (simp add: fp_scale_int Let_def)
qed

lemma fp_decode_encode:
  assumes c: "fp_canonical (p, emin, emax) x" and p: "2 \<le> p" "emin \<le> emax"
  shows "fp_decode (p, emin, emax) (fp_encode (p, emin, emax) x) = x"
proof -
  define h where "h = pow2 (p - 1)"
  have h: "0 < h" "pow2 p = 2 * h" using pow2_step [of p] p by (simp_all add: h_def)
  have half: "0 < pow2 (p - 2)" "pow2 (p - 2) < h" "h = 2 * pow2 (p - 2)"
    using pow2_step [of "p - 1"] p by (simp_all add: h_def)
  define top where "top = (emax - emin + 3) * h"
  have dec: "fp_decode (p, emin, emax) ((if s then top else 0) + (ex * h + fr)) =
      (if ex = 0 then FFin s fr emin
       else if ex = emax - emin + 2 then (if fr = 0 then FInf s else FNan)
       else FFin s (fr + h) (emin + ex - 1))"
    if b: "0 \<le> ex" "ex \<le> emax - emin + 2" "0 \<le> fr" "fr < h" for s ex fr
  proof -
    have "ex * h + fr < (ex + 1) * h" using b h by (simp add: algebra_simps)
    also have "\<dots> \<le> top" unfolding top_def by (intro mult_right_mono) (use b h in auto)
    finally have lt: "ex * h + fr < top" .
    have "0 \<le> ex * h" using b h by simp
    then have ge: "0 \<le> ex * h + fr" using b by linarith
    have "(ex * h + fr) div h = ex" "(ex * h + fr) mod h = fr"
      using b h by (simp_all add: div_add1_eq)
    moreover define b where "b = (if s then top else 0) + (ex * h + fr)"
    moreover have "(top \<le> b) = s" "(if top \<le> b then b - top else b) = ex * h + fr"
      using lt ge by (simp_all add: b_def split: if_split)
    ultimately show ?thesis
      by (simp only: fp_decode.simps Let_def h_def [symmetric] top_def [symmetric] b_def [symmetric])
  qed
  show ?thesis
  proof (cases x)
    case FNan
    then show ?thesis using dec [of "emax - emin + 2" "pow2 (p - 2)" False] half(2) p
      by (simp add: Let_def h_def [symmetric] del: fp_decode.simps)
  next
    case (FInf s)
    then show ?thesis using dec [of "emax - emin + 2" 0 s] h p
      by (cases s) (simp_all add: Let_def h_def [symmetric] top_def [symmetric] del: fp_decode.simps)
  next
    case (FFin s m e)
    then have m: "0 \<le> m" "m < 2 * h" "emin \<le> e" "e \<le> emax" "m < h \<longrightarrow> e = emin"
      using c h by (auto simp: h_def)
    show ?thesis
    proof (cases "m < h")
      case True
      then show ?thesis using dec [of 0 m s] m FFin p
        by (cases s) (simp_all add: Let_def h_def [symmetric] top_def [symmetric] del: fp_decode.simps)
    next
      case False
      then show ?thesis using dec [of "e - emin + 1" "m - h" s] m FFin p
        by (cases s) (simp_all add: Let_def h_def [symmetric] top_def [symmetric] add.assoc del: fp_decode.simps)
    qed
  qed
qed

lemma fp_canonical_decode:
  assumes b: "0 \<le> b" "b < 2 * ((emax - emin + 3) * pow2 (p - 1))" and p: "2 \<le> p" "emin \<le> emax"
  shows "fp_canonical (p, emin, emax) (fp_decode (p, emin, emax) b)"
proof -
  define h where "h = pow2 (p - 1)"
  have h: "0 < h" "pow2 p = 2 * h" using pow2_step [of p] p by (simp_all add: h_def)
  define top where "top = (emax - emin + 3) * h"
  define r where "r = (if top \<le> b then b - top else b)"
  have r: "0 \<le> r" "r < (emax - emin + 3) * h" using b by (auto simp: r_def top_def h_def mult.commute)
  have ex: "0 \<le> r div h" using r h by (simp add: pos_imp_zdiv_nonneg_iff)
  have ex2: "r div h < emax - emin + 3"
  proof (rule ccontr)
    assume "\<not> ?thesis"
    then have "(emax - emin + 3) * h \<le> (r div h) * h" using h by (intro mult_right_mono) auto
    also have "\<dots> \<le> r" using div_mult_mod_eq [of r h] pos_mod_sign [OF h(1), of r] by linarith
    finally show False using r by simp
  qed
  have fr: "0 \<le> r mod h" "r mod h < h" using h by simp_all
  have fd: "fp_decode (p, emin, emax) b =
      (if r div h = 0 then FFin (top \<le> b) (r mod h) emin
       else if r div h = emax - emin + 2 then (if r mod h = 0 then FInf (top \<le> b) else FNan)
       else FFin (top \<le> b) (r mod h + h) (emin + r div h - 1))"
    by (simp only: fp_decode.simps Let_def h_def [symmetric] top_def [symmetric] r_def [symmetric])
  have fin: "fp_canonical (p, emin, emax) (FFin s m e)"
    if "0 \<le> m" "m < 2 * h" "emin \<le> e" "e \<le> emax" "m < h \<Longrightarrow> e = emin" for s m e
    using that h by (auto simp: h_def)
  show ?thesis
  proof (cases "r div h = 0 \<or> r div h = emax - emin + 2")
    case True
    have "fp_canonical (p, emin, emax) (FFin (top \<le> b) (r mod h) emin)"
      by (rule fin) (use fr h p in linarith)+
    then show ?thesis using True fd by (auto simp del: fp_canonical.simps(1) fp_decode.simps)
  next
    case False
    have "fp_canonical (p, emin, emax) (FFin (top \<le> b) (r mod h + h) (emin + r div h - 1))"
      by (rule fin) (use fr h p ex ex2 False in linarith)+
    then show ?thesis using False fd by (simp del: fp_canonical.simps(1) fp_decode.simps)
  qed
qed

section \<open>Comparison\<close>

lemma fp_less_irrefl [simp]: "\<not> fp_less x x"
  by (cases x) auto

lemma scaled_less:
  assumes "g \<le> min e f"
  shows "a * pow2 (e - min e f) < b * pow2 (f - min e f) \<longleftrightarrow> a * pow2 (e - g) < b * pow2 (f - g)"
proof -
  have "pow2 (e - g) = pow2 (e - min e f) * pow2 (min e f - g)"
    using pow2_add [of "e - min e f" "min e f - g"] assms by simp
  moreover have "pow2 (f - g) = pow2 (f - min e f) * pow2 (min e f - g)"
    using pow2_add [of "f - min e f" "min e f - g"] assms by simp
  ultimately show ?thesis by (metis mult.assoc mult_less_cancel_right_pos pow2_pos)
qed

lemma fp_less_trans: "fp_less x y \<Longrightarrow> fp_less y z \<Longrightarrow> fp_less x z"
proof (cases x; cases y; cases z)
  fix s m e t n f u k g
  assume c: "x = FFin s m e" "y = FFin t n f" "z = FFin u k g" and l: "fp_less x y" "fp_less y z"
  define b where "b = min e (min f g)"
  have "fp_signed s m * pow2 (e - b) < fp_signed t n * pow2 (f - b)"
    using l(1) c scaled_less [of b e f] by (simp add: b_def)
  moreover have "fp_signed t n * pow2 (f - b) < fp_signed u k * pow2 (g - b)"
    using l(2) c scaled_less [of b f g "fp_signed t n" "fp_signed u k"] by (simp add: b_def min.coboundedI2)
  ultimately show "fp_less x z" using c scaled_less [of b e g "fp_signed s m" "fp_signed u k"]
    by (simp add: b_def min.coboundedI2)
qed auto

lemma fp_less_linear: "x \<noteq> FNan \<Longrightarrow> y \<noteq> FNan \<Longrightarrow> fp_less x y \<or> fp_eq x y \<or> fp_less y x"
  by (cases x; cases y) (auto simp: min.commute)

lemma fp_less_asym: "fp_less x y \<Longrightarrow> \<not> fp_less y x"
  using fp_less_trans fp_less_irrefl by blast

lemma fp_less_not_nan: "fp_less x y \<Longrightarrow> x \<noteq> FNan \<and> y \<noteq> FNan"
  by (cases x; cases y) auto

text \<open>A clamped value is between its bounds, unless it is NaN.\<close>

lemma fp_clamp_cases: "fp_clamp lo hi x \<in> {lo, hi, x}"
  by (simp add: fp_clamp_def Let_def)

lemma fp_clamp_bounds:
  "\<not> fp_less hi lo \<Longrightarrow> \<not> fp_less (fp_clamp lo hi x) lo \<and> \<not> fp_less hi (fp_clamp lo hi x)"
  by (auto simp: fp_clamp_def Let_def)

lemma fp_clamp_nan: "fp_clamp lo hi FNan = FNan"
  by (cases lo; cases hi) (simp_all add: fp_clamp_def)

section \<open>Conversion to integers\<close>

lemma div_pow2_scale: "0 \<le> i \<Longrightarrow> 0 \<le> j \<Longrightarrow> (m * pow2 j) div pow2 (i + j) = m div pow2 i"
  by (simp add: pow2_add)

lemma fp_int_part_le:
  assumes le: "\<not> fp_less (FFin False n f) (FFin False m e)" and pos: "0 \<le> m" "0 \<le> n"
  shows "fp_int_part False m e \<le> fp_int_part False n f"
proof -
  define b where "b = min 0 (min e f)"
  have part: "fp_int_part False k c = (k * pow2 (c - b)) div pow2 (- b)" if "b \<le> c" "b \<le> 0" for k c
  proof (cases "0 \<le> c")
    case True
    then have "pow2 (c - b) = pow2 c * pow2 (- b)" using pow2_add [of c "- b"] that by simp
    then have "k * pow2 (c - b) = (k * pow2 c) * pow2 (- b)" by (simp add: mult.assoc)
    moreover have "(k * pow2 c) * pow2 (- b) div pow2 (- b) = k * pow2 c"
      by (intro nonzero_mult_div_cancel_right) simp
    ultimately show ?thesis using True by (simp only: fp_int_part_def fp_signed_def if_True if_False)
  next
    case False
    then have "(k * pow2 (c - b)) div pow2 ((- c) + (c - b)) = k div pow2 (- c)"
      using that by (intro div_pow2_scale) auto
    then show ?thesis using False by (simp add: fp_int_part_def fp_signed_def)
  qed
  have "m * pow2 (e - b) \<le> n * pow2 (f - b)"
    using le scaled_less [of b f e n m] by (simp add: b_def fp_signed_def min.commute not_less min.coboundedI2)
  then have "(m * pow2 (e - b)) div pow2 (- b) \<le> (n * pow2 (f - b)) div pow2 (- b)"
    by (intro zdiv_mono1) auto
  then show ?thesis using part [of e m] part [of f n] by (simp add: b_def min.coboundedI2)
qed

lemma fp_int_part_neg: "0 \<le> m \<Longrightarrow> fp_int_part True m e \<le> 0"
  by (simp add: fp_int_part_def fp_signed_def pos_imp_zdiv_nonneg_iff)

text \<open>What is clamped to non-negative integers is within them after the conversion.\<close>

lemma fp_to_int_bounds: "lo \<le> 0 \<Longrightarrow> 0 \<le> hi \<Longrightarrow> lo \<le> fp_to_int lo hi x \<and> fp_to_int lo hi x \<le> hi"
  by (cases x) auto

lemma fp_to_int_le:
  assumes "\<not> fp_less (FFin False n f) x" "0 \<le> n" "fp_canonical fmt x" "x \<noteq> FNan" "0 \<le> hi"
  shows "fp_to_int 0 hi x \<le> fp_int_part False n f"
proof -
  have n: "0 \<le> fp_int_part False n f"
    using assms(2) by (simp add: fp_int_part_def fp_signed_def pos_imp_zdiv_nonneg_iff)
  show ?thesis
  proof (cases x)
    case (FInf s)
    then show ?thesis using assms n by simp
  next
    case (FFin s m e)
    have m: "0 \<le> m" using assms(3) FFin by (cases fmt) auto
    show ?thesis
    proof (cases s)
      case True
      then show ?thesis using FFin fp_int_part_neg [OF m, of e] n by simp
    next
      case False
      then show ?thesis using FFin fp_int_part_le [of n f m e] assms(1,2) m n by simp
    qed
  qed (use assms in simp)
qed

section \<open>The two formats\<close>

lemma formats [simp]:
  "fp_canonical F32 (f32_val a)" "fp_canonical F64 (f64_val b)"
proof -
  have "fp_canonical (24, - 149, 104) (fp_decode (24, - 149, 104) (uint a))"
    by (rule fp_canonical_decode) (use uint_lt2p [of a] in \<open>simp_all add: pow2_eq\<close>)
  then show "fp_canonical F32 (f32_val a)" by (simp only: F32_def f32_val_def)
  have "fp_canonical (53, - 1074, 971) (fp_decode (53, - 1074, 971) (uint b))"
    by (rule fp_canonical_decode) (use uint_lt2p [of b] in \<open>simp_all add: pow2_eq\<close>)
  then show "fp_canonical F64 (f64_val b)" by (simp only: F64_def f64_val_def)
qed

lemma fp_encode_range:
  assumes c: "fp_canonical (p, emin, emax) x" and p: "2 \<le> p" "emin \<le> emax"
  shows "0 \<le> fp_encode (p, emin, emax) x \<and> fp_encode (p, emin, emax) x < 2 * ((emax - emin + 3) * pow2 (p - 1))"
proof -
  define h where "h = pow2 (p - 1)"
  have h: "0 < h" "pow2 p = 2 * h" using pow2_step [of p] p by (simp_all add: h_def)
  have half: "0 < pow2 (p - 2)" "pow2 (p - 2) < h"
    using pow2_step [of "p - 1"] p by (simp_all add: h_def)
  define top where "top = (emax - emin + 3) * h"
  have step: "k * h + d < top \<and> 0 \<le> k * h + d"
    if "0 \<le> k" "k \<le> emax - emin + 2" "0 \<le> d" "d < h" for k d
  proof -
    have "k * h + d < (k + 1) * h" using that by (simp add: algebra_simps)
    also have "\<dots> \<le> top" unfolding top_def by (intro mult_right_mono) (use that h in auto)
    finally show ?thesis using that h by simp
  qed
  show ?thesis
  proof (cases x)
    case FNan
    have "0 \<le> (emax - emin + 2) * h + pow2 (p - 2) \<and> (emax - emin + 2) * h + pow2 (p - 2) < top"
      using step [OF _ _ pow2_nonneg half(2), of "emax - emin + 2"] p by simp
    then have "0 \<le> (emax - emin + 2) * h + pow2 (p - 2) \<and> (emax - emin + 2) * h + pow2 (p - 2) < 2 * top"
      by linarith
    then show ?thesis using FNan by (simp add: Let_def h_def [symmetric] top_def [symmetric])
  next
    case (FInf s)
    have "0 \<le> (emax - emin + 2) * h \<and> (emax - emin + 2) * h < top"
      using step [of "emax - emin + 2" 0] h p by simp
    then have "0 \<le> top + (emax - emin + 2) * h" "(emax - emin + 2) * h < 2 * top"
        "0 \<le> (emax - emin + 2) * h" "(emax - emin + 2) * h < top"
      by linarith+
    then show ?thesis using FInf by (simp add: Let_def h_def [symmetric] top_def [symmetric])
  next
    case (FFin s m e)
    then have m: "0 \<le> m" "m < 2 * h" "emin \<le> e" "e \<le> emax" using c h by auto
    have "m < h \<Longrightarrow> m < top" using step [of 0 m] m p by simp
    have small: "0 \<le> top" using step [of 0 0] h p by simp
    have "m < h \<or> 0 \<le> (e - emin + 1) * h + (m - h) \<and> (e - emin + 1) * h + (m - h) < top"
      using step [of "e - emin + 1" "m - h"] m by (cases "m < h") auto
    define v where "v = (if m < h then m else (e - emin + 1) * h + (m - h))"
    have v: "0 \<le> v" "v < top"
      using \<open>m < h \<or> _\<close> \<open>m < h \<Longrightarrow> m < top\<close> m(1) by (auto simp: v_def simp del: mult_minus1 split: if_splits)
    have "fp_encode (p, emin, emax) x = (if s then top else 0) + v"
      by (simp only: FFin fp_encode.simps Let_def fp.case h_def [symmetric] top_def [symmetric] v_def)
    then show ?thesis using v small by (simp add: h_def [symmetric] top_def [symmetric] split: if_splits)
  qed
qed

text \<open>Storing a canonical value and reading it again gives it back.\<close>

lemma f64_val_bits_of: "fp_canonical F64 x \<Longrightarrow> f64_val (f64_bits_of x) = x"
proof -
  assume c: "fp_canonical F64 x"
  then have "0 \<le> fp_encode F64 x \<and> fp_encode F64 x < 2 ^ 64"
    using fp_encode_range [of 53 "- 1074" 971 x] by (simp add: F64_def pow2_eq)
  then have "uint (f64_bits_of x) = fp_encode F64 x"
    by (simp add: f64_bits_of_def uint_word_of_int_eq take_bit_int_eq_self)
  then show ?thesis using c fp_decode_encode [of 53 "- 1074" 971 x] by (simp add: f64_val_def F64_def)
qed

lemma f32_val_bits_of: "fp_canonical F32 x \<Longrightarrow> f32_val (f32_bits_of x) = x"
proof -
  assume c: "fp_canonical F32 x"
  then have "0 \<le> fp_encode F32 x \<and> fp_encode F32 x < 2 ^ 32"
    using fp_encode_range [of 24 "- 149" 104 x] by (simp add: F32_def pow2_eq)
  then have "uint (f32_bits_of x) = fp_encode F32 x"
    by (simp add: f32_bits_of_def uint_word_of_int_eq take_bit_int_eq_self)
  then show ?thesis using c fp_decode_encode [of 24 "- 149" 104 x] by (simp add: f32_val_def F32_def)
qed

lemma f64_val_clamp: "f64_val (f64_clamp lo hi a) = fp_clamp (f64_val lo) (f64_val hi) (f64_val a)"
proof -
  have "fp_canonical F64 (fp_clamp (f64_val lo) (f64_val hi) (f64_val a))"
    by (simp add: fp_clamp_def Let_def)
  then show ?thesis by (simp add: f64_clamp_def f64_val_bits_of)
qed

end
