(* ===== verification/BattleTypes.thy ===== *)
theory BattleTypes
  imports AreaGrid Ieee
begin

text \<open>
  The data of the battle runtime (\<open>map-server/src/battle/\<close>): the hit and action enumerations and
  the effect bits of \<open>effects.rs\<close>, commands and their results of \<open>command.rs\<close> with the check of
  a main target, the target flags and actor views of \<open>target_find.rs\<close>, and the events of
  \<open>outbox.rs\<close>. A record of the source keeps the fields that some modelled operation reads or
  writes; the animation and naming fields of a command are carried along unread by the source too.
\<close>

section \<open>effects.rs\<close>

datatype hit_type =
  HtMiss | HtEvade | HtParry | HtBlock | HtSingleResist | HtDoubleResist | HtTripleResist
  | HtFullResist | HtHit | HtCrit

fun hit_type_as_u16 :: "hit_type \<Rightarrow> u16" where
  "hit_type_as_u16 HtMiss = 0"
| "hit_type_as_u16 HtEvade = 1"
| "hit_type_as_u16 HtParry = 2"
| "hit_type_as_u16 HtBlock = 3"
| "hit_type_as_u16 HtSingleResist = 4"
| "hit_type_as_u16 HtDoubleResist = 5"
| "hit_type_as_u16 HtTripleResist = 6"
| "hit_type_as_u16 HtFullResist = 7"
| "hit_type_as_u16 HtHit = 8"
| "hit_type_as_u16 HtCrit = 9"

definition hit_landed :: "hit_type \<Rightarrow> bool" where
  "hit_landed t \<longleftrightarrow> t \<notin> {HtMiss, HtEvade, HtSingleResist, HtDoubleResist, HtFullResist}"

datatype action_type = AtNone | AtPhysical | AtMagic | AtHeal | AtStatus

fun action_type_of_u16 :: "u16 \<Rightarrow> action_type" where
  "action_type_of_u16 v =
     (if v = 1 then AtPhysical else if v = 2 then AtMagic else if v = 3 then AtHeal
      else if v = 4 then AtStatus else AtNone)"

datatype action_property =
  ApNone | ApSlashing | ApPiercing | ApBlunt | ApProjectile | ApFire | ApIce | ApWind | ApEarth
  | ApLightning | ApWater | ApAstral | ApUmbral | ApHeal

definition action_properties :: "action_property list" where
  "action_properties =
     [ApNone, ApSlashing, ApPiercing, ApBlunt, ApProjectile, ApFire, ApIce, ApWind, ApEarth,
      ApLightning, ApWater, ApAstral, ApUmbral, ApHeal]"

definition action_property_of_u16 :: "u16 \<Rightarrow> action_property" where
  "action_property_of_u16 v = (if unat v < 14 then action_properties ! unat v else ApNone)"

definition HIT_EFFECT_TYPE :: u32 where "HIT_EFFECT_TYPE = 0x08000000"
definition STATUS_EFFECT_TYPE :: u32 where "STATUS_EFFECT_TYPE = 0x20000000"
definition MAGIC_EFFECT_TYPE :: u32 where "MAGIC_EFFECT_TYPE = 0x30000000"
definition RECOIL_LV2 :: u32 where "RECOIL_LV2 = 0x1"
definition RECOIL_LV3 :: u32 where "RECOIL_LV3 = 0x2"
definition CRITICAL_HIT :: u32 where "CRITICAL_HIT = 0x3"
definition HE_PROTECT :: u32 where "HE_PROTECT = 0x40"
definition HE_MISS :: u32 where "HE_MISS = 0"
definition HE_EVADE :: u32 where "HE_EVADE = 0x200"
definition HE_HIT :: u32 where "HE_HIT = 0x600"
definition HE_CRIT :: u32 where "HE_CRIT = 0x800"
definition HE_PARRY :: u32 where "HE_PARRY = 0xE00"
definition HE_BLOCK :: u32 where "HE_BLOCK = 0x1000"
definition HE_STONESKIN :: u32 where "HE_STONESKIN = 0x3200"
definition HE_FULL_RESIST :: u32 where "HE_FULL_RESIST = 0"
definition HE_WEAK_RESIST :: u32 where "HE_WEAK_RESIST = 0x1"
definition HE_NO_RESIST :: u32 where "HE_NO_RESIST = 0x2"
definition HE_MAGIC_SHELL :: u32 where "HE_MAGIC_SHELL = 0x10"
definition HE_HEAL :: u32 where "HE_HEAL = 0x100"

definition HD_FRONT :: u8 where "HD_FRONT = 1"
definition HD_RIGHT :: u8 where "HD_RIGHT = 2"
definition HD_REAR :: u8 where "HD_REAR = 4"
definition HD_LEFT :: u8 where "HD_LEFT = 8"

definition dir_contains :: "u8 \<Rightarrow> u8 \<Rightarrow> bool" where
  "dir_contains d other \<longleftrightarrow> (d AND other) = other"

section \<open>target_find.rs: flags and views\<close>

definition VT_SELF :: u16 where "VT_SELF = 0x0001"
definition VT_SELF_ONLY :: u16 where "VT_SELF_ONLY = 0x0002"
definition VT_PARTY :: u16 where "VT_PARTY = 0x0004"
definition VT_PARTY_ONLY :: u16 where "VT_PARTY_ONLY = 0x0008"
definition VT_ALLY :: u16 where "VT_ALLY = 0x0010"
definition VT_ALLY_ONLY :: u16 where "VT_ALLY_ONLY = 0x0020"
definition VT_NPC :: u16 where "VT_NPC = 0x0040"
definition VT_NPC_ONLY :: u16 where "VT_NPC_ONLY = 0x0080"
definition VT_ENEMY :: u16 where "VT_ENEMY = 0x0100"
definition VT_ENEMY_ONLY :: u16 where "VT_ENEMY_ONLY = 0x0200"
definition VT_CORPSE :: u16 where "VT_CORPSE = 0x1000"
definition VT_CORPSE_ONLY :: u16 where "VT_CORPSE_ONLY = 0x2000"
definition VT_MAIN_TARGET_PARTY :: u16 where "VT_MAIN_TARGET_PARTY = 0x4000"
definition VT_MAIN_TARGET_PARTY_ONLY :: u16 where "VT_MAIN_TARGET_PARTY_ONLY = 0x8000"

definition vt_intersects :: "u16 \<Rightarrow> u16 \<Rightarrow> bool" where
  "vt_intersects a b \<longleftrightarrow> (a AND b) \<noteq> 0"

record actor_view =
  av_actor_id :: u32
  av_position :: vector3
  av_rotation :: f32_bits
  av_is_alive :: bool
  av_is_static :: bool
  av_allegiance :: u32
  av_party_id :: u64
  av_zone_id :: u32
  av_is_updates_locked :: bool
  av_is_player :: bool
  av_is_battle_npc :: bool

text \<open>\<open>ActorArena\<close>: who an id is, and who is around an actor within a radius.\<close>

record arena =
  ar_get :: "u32 \<Rightarrow> actor_view option"
  ar_around :: "u32 \<Rightarrow> f32_bits \<Rightarrow> actor_view list"

section \<open>command.rs\<close>

text \<open>The command categories of \<open>CommandType\<close>.\<close>

definition CT_WEAPON_SKILL :: u16 where "CT_WEAPON_SKILL = 2"
definition CT_ABILITY :: u16 where "CT_ABILITY = 3"
definition CT_SPELL :: u16 where "CT_SPELL = 4"

record battle_command =
  bc_id :: u16
  bc_main_target :: u16
  bc_num_hits :: u8
  bc_range :: f32_bits
  bc_status_id :: u32
  bc_status_chance :: f32_bits
  bc_cast_type :: u8
  bc_cast_time_ms :: u32
  bc_recast_time_ms :: u32
  bc_mp_cost :: int
  bc_tp_cost :: int
  bc_world_master_text_id :: u16
  bc_combo_next_command_id :: "int \<times> int"
  bc_combo_step :: int
  bc_is_combo :: bool
  bc_combo_effect_added :: bool
  bc_command_type :: u16
  bc_action_property :: action_property
  bc_action_type :: action_type
  bc_enmity_modifier :: f32_bits
  bc_accuracy_modifier :: f32_bits
  bc_bonus_crit_rate :: f32_bits
  bc_base_potency :: u16
  bc_max_recast_time_seconds :: u32
  bc_battle_animation :: u32

definition is_spell :: "battle_command \<Rightarrow> bool" where
  "is_spell c \<longleftrightarrow> bc_mp_cost c \<noteq> 0 \<or> bc_cast_time_ms c \<noteq> 0"

definition is_instant_cast :: "battle_command \<Rightarrow> bool" where
  "is_instant_cast c \<longleftrightarrow> bc_cast_time_ms c = 0"

text \<open>The level curve of the magic point cost; \<open>user_level\<close> is an \<open>i16\<close>, the sums are \<open>i32\<close>.\<close>

definition mp_cost_base :: "int \<Rightarrow> int" where
  "mp_cost_base level =
     (if level \<le> 10 then 100 + level * 10
      else if level \<le> 20 then 200 + (level - 10) * 20
      else if level \<le> 30 then 400 + (level - 20) * 40
      else if level \<le> 40 then 800 + (level - 30) * 70
      else if level \<le> 50 then 1500 + (level - 40) * 130
      else if level \<le> 60 then 2800 + (level - 50) * 200
      else if level \<le> 70 then 4800 + (level - 60) * 320
      else 8000 + (level - 70) * 500)"

text \<open>The literal \<open>0.001\<close>, one and \<open>u16::MAX\<close> as \<open>f64\<close>.\<close>

definition f64_milli :: u64 where "f64_milli = 0x3F50624DD2F1A9FC"
definition f64_one :: u64 where "f64_one = 0x3FF0000000000000"
definition f64_u16_max :: u64 where "f64_u16_max = 0x40EFFFE000000000"

definition calculate_mp_cost :: "int \<Rightarrow> f32_bits \<Rightarrow> battle_command \<Rightarrow> u16" where
  "calculate_mp_cost user_level combo_bonus c =
     (if bc_mp_cost c = 0 then 0
      else let scaled = f64_ceil (f64_mul (f64_mul (f64_of_int (mp_cost_base user_level)) (f64_of_int (bc_mp_cost c))) f64_milli);
               with_combo = f64_ceil (f64_mul scaled (f64_sub f64_one (f64_of_f32 combo_bonus)))
           in f64_to_u16 (f64_clamp 0 f64_u16_max with_combo))"

text \<open>\<open>i16::MIN\<close> and \<open>i16::MAX\<close> as \<open>f32\<close>; the result is an \<open>i16\<close>.\<close>

definition calculate_tp_cost :: "f32_bits \<Rightarrow> battle_command \<Rightarrow> int" where
  "calculate_tp_cost combo_bonus c =
     (let cost = f32_mul (f32_of_int (bc_tp_cost c)) (f32_sub 0x3F800000 combo_bonus)
      in fp_to_int (- 32768) 32767 (f32_val (f32_clamp 0xC7000000 0x46FFFE00 (f32_ceil cost))))"

definition combo_matches :: "int \<Rightarrow> battle_command \<Rightarrow> bool" where
  "combo_matches command_id c \<longleftrightarrow>
     fst (bc_combo_next_command_id c) = command_id \<or> snd (bc_combo_next_command_id c) = command_id"

datatype target_validation_error =
  TargetDoesNotExist | CannotTargetKoTarget | MustTargetKoTarget | CannotTargetSelf | MustTargetSelf
  | CannotTargetAlly | MustTargetAlly | CannotTargetEnemy | MustTargetEnemy | InvalidTarget
  | CannotTargetParty | OutOfZone

fun target_error_text :: "target_validation_error \<Rightarrow> u16" where
  "target_error_text TargetDoesNotExist = 32511"
| "target_error_text CannotTargetKoTarget = 32512"
| "target_error_text MustTargetKoTarget = 32513"
| "target_error_text CannotTargetSelf = 32514"
| "target_error_text MustTargetSelf = 32515"
| "target_error_text CannotTargetAlly = 32516"
| "target_error_text MustTargetAlly = 32517"
| "target_error_text CannotTargetEnemy = 32518"
| "target_error_text MustTargetEnemy = 32519"
| "target_error_text InvalidTarget = 32547"
| "target_error_text CannotTargetParty = 32548"
| "target_error_text OutOfZone = 32540"

record actor_snapshot =
  as_actor_id :: u32
  as_is_alive :: bool
  as_is_static :: bool
  as_allegiance :: u32
  as_party_id :: u64
  as_zone_id :: u32
  as_is_updates_locked :: bool

text \<open>\<open>validate_main_target\<close>: \<open>None\<close> for \<open>Ok(())\<close>, else the first check that fails.\<close>

definition validate_main_target ::
  "actor_snapshot \<Rightarrow> actor_snapshot option \<Rightarrow> battle_command \<Rightarrow> target_validation_error option" where
  "validate_main_target user target_opt c =
     (case target_opt of None \<Rightarrow> Some TargetDoesNotExist
      | Some tgt \<Rightarrow>
        (let flags = vt_intersects (bc_main_target c);
             is_self = (as_actor_id user = as_actor_id tgt);
             is_ally = (as_allegiance tgt = as_allegiance user);
             same_party = (as_party_id user \<noteq> 0 \<and> as_party_id tgt = as_party_id user)
         in if \<not> flags VT_CORPSE \<and> \<not> as_is_alive tgt then Some CannotTargetKoTarget
            else if flags VT_CORPSE_ONLY \<and> as_is_alive tgt then Some MustTargetKoTarget
            else if \<not> flags VT_SELF \<and> is_self then Some CannotTargetSelf
            else if flags VT_SELF_ONLY \<and> \<not> is_self then Some MustTargetSelf
            else if \<not> flags VT_ALLY \<and> is_ally \<and> \<not> is_self then Some CannotTargetAlly
            else if flags VT_ALLY_ONLY \<and> \<not> is_ally then Some MustTargetAlly
            else if \<not> flags VT_ENEMY \<and> \<not> is_ally then Some CannotTargetEnemy
            else if flags VT_ENEMY_ONLY \<and> is_ally then Some MustTargetEnemy
            else if \<not> flags VT_PARTY \<and> same_party then Some CannotTargetParty
            else if flags VT_PARTY_ONLY \<and> \<not> same_party then Some InvalidTarget
            else if \<not> flags VT_NPC \<and> as_is_static tgt then Some InvalidTarget
            else if flags VT_NPC_ONLY \<and> \<not> as_is_static tgt then Some InvalidTarget
            else if as_is_updates_locked tgt then Some InvalidTarget
            else if as_zone_id tgt \<noteq> as_zone_id user then Some OutOfZone
            else None))"

section \<open>Results\<close>

record command_result =
  cr_target_actor_id :: u32
  cr_amount :: u16
  cr_amount_mitigated :: u16
  cr_enmity :: u16
  cr_world_master_text_id :: u16
  cr_effect_id :: u32
  cr_param :: u8
  cr_hit_num :: u8
  cr_animation :: u32
  cr_command_type :: u16
  cr_action_property :: action_property
  cr_action_type :: action_type
  cr_hit_type :: hit_type
  cr_parry_rate :: u64
  cr_block_rate :: u64
  cr_resist_rate :: u64
  cr_hit_rate :: u64
  cr_crit_rate :: u64

text \<open>\<open>CommandResult::default()\<close>; the default hit type is \<open>Hit\<close>.\<close>

definition default_result :: command_result where
  "default_result =
     \<lparr>cr_target_actor_id = 0, cr_amount = 0, cr_amount_mitigated = 0, cr_enmity = 0,
      cr_world_master_text_id = 0, cr_effect_id = 0, cr_param = 0, cr_hit_num = 0, cr_animation = 0,
      cr_command_type = 0, cr_action_property = ApNone, cr_action_type = AtNone, cr_hit_type = HtHit,
      cr_parry_rate = 0, cr_block_rate = 0, cr_resist_rate = 0, cr_hit_rate = 0, cr_crit_rate = 0\<rparr>"

definition result_for_target :: "u32 \<Rightarrow> u16 \<Rightarrow> u32 \<Rightarrow> command_result" where
  "result_for_target target_actor text effect =
     default_result\<lparr>cr_target_actor_id := target_actor, cr_world_master_text_id := text,
                    cr_effect_id := effect, cr_hit_num := 1, cr_hit_type := HtHit\<rparr>"

definition result_from_command :: "u32 \<Rightarrow> battle_command \<Rightarrow> u8 \<Rightarrow> command_result" where
  "result_from_command target_actor c hit_num =
     default_result\<lparr>cr_target_actor_id := target_actor,
                    cr_world_master_text_id := bc_world_master_text_id c,
                    cr_command_type := bc_command_type c, cr_action_property := bc_action_property c,
                    cr_action_type := bc_action_type c, cr_hit_num := hit_num, cr_hit_type := HtHit\<rparr>"

record result_container =
  rc_main :: "command_result list"
  rc_additional :: "command_result list"

definition add_action :: "command_result \<Rightarrow> result_container \<Rightarrow> result_container" where
  "add_action r c = c\<lparr>rc_main := rc_main c @ [r]\<rparr>"

definition add_additional :: "command_result \<Rightarrow> result_container \<Rightarrow> result_container" where
  "add_additional r c = c\<lparr>rc_additional := rc_additional c @ [r]\<rparr>"

definition combine_lists :: "result_container \<Rightarrow> command_result list \<times> result_container" where
  "combine_lists c = (rc_main c @ rc_additional c, c\<lparr>rc_main := [], rc_additional := []\<rparr>)"

section \<open>outbox.rs\<close>

text \<open>The events the AI container, the controllers and the dispatcher exchange.\<close>

datatype battle_event =
    BeEngage u32 u32
  | BeDisengage u32
  | BeTargetChange u32 "u32 option"
  | BeDoBattleAction u32 u32 u32 "command_result list"
  | BePlayAnimation u32 u32
  | BeResolveAutoAttack u32 u32
  | BeAutoAttackOutOfRange u32
  | BeResolveAction u32 u32 battle_command
  | BeCastStart u32 u32 u16 u32 u8
  | BeCastComplete u32 u16
  | BeCastInterrupted u32 u16
  | BeHateAdd u32 u32 int
  | BeHateClear u32 "u32 option"
  | BeQueryTargets u32 u32 u16 u32
  | BeDie u32
  | BeRevive u32
  | BeDespawn u32
  | BeSpawn u32
  | BeRecalcStats u32
  | BeLuaCall u32 string u16 "u32 option"
  | BeWorldMasterText u32 u16

end
