(* ===== verification/PathFind.thy ===== *)
theory PathFind
  imports AreaGrid Ieee
begin

text \<open>
  The path follower of \<open>map-server/src/battle/path_find.rs\<close>, with the distances of
  \<open>common/src/utils.rs\<close>. The navigation mesh and the sink that publishes positions are interfaces
  of the source: a mesh is a function, a sink a record of functions on the state behind it.
\<close>

section \<open>Distances\<close>

definition xz_distance_squared :: "f32_bits \<Rightarrow> f32_bits \<Rightarrow> f32_bits \<Rightarrow> f32_bits \<Rightarrow> f32_bits" where
  "xz_distance_squared x z x2 z2 =
     (let dx = f32_sub x x2; dz = f32_sub z z2 in f32_add (f32_mul dx dx) (f32_mul dz dz))"

definition xz_distance :: "f32_bits \<Rightarrow> f32_bits \<Rightarrow> f32_bits \<Rightarrow> f32_bits \<Rightarrow> f32_bits" where
  "xz_distance x z x2 z2 =
     (if f32_eq x x2 \<and> f32_eq z z2 then 0 else f32_sqrt (xz_distance_squared x z x2 z2))"

section \<open>Paths\<close>

record path_find =
  pf_path :: "vector3 list"
  pf_can_follow_path :: bool
  pf_distance_from_point :: f32_bits
  pf_flags :: u32

definition PF_NONE :: u32 where "PF_NONE = 0"
definition PF_SCRIPTED :: u32 where "PF_SCRIPTED = 1"
definition PF_IGNORE_NAV :: u32 where "PF_IGNORE_NAV = 2"

definition pf_flags_contain :: "u32 \<Rightarrow> path_find \<Rightarrow> bool" where
  "pf_flags_contain flag p \<longleftrightarrow> (pf_flags p AND flag) = flag"

definition pf_new :: path_find where
  "pf_new = \<lparr>pf_path = [], pf_can_follow_path = False, pf_distance_from_point = 0, pf_flags = 0\<rparr>"

definition is_following_path :: "path_find \<Rightarrow> bool" where
  "is_following_path p \<longleftrightarrow> pf_path p \<noteq> []"

definition is_following_scripted_path :: "path_find \<Rightarrow> bool" where
  "is_following_scripted_path p \<longleftrightarrow> pf_flags_contain PF_SCRIPTED p"

definition pf_clear :: "path_find \<Rightarrow> path_find" where
  "pf_clear p = p\<lparr>pf_path := [], pf_flags := PF_NONE, pf_distance_from_point := 0\<rparr>"

definition set_path_flags :: "u32 \<Rightarrow> path_find \<Rightarrow> path_find" where
  "set_path_flags flags p = p\<lparr>pf_flags := flags\<rparr>"

definition set_distance_from_point :: "f32_bits \<Rightarrow> path_find \<Rightarrow> path_find" where
  "set_distance_from_point d p = p\<lparr>pf_distance_from_point := d\<rparr>"

type_synonym navmesh = "vector3 \<Rightarrow> vector3 \<Rightarrow> f32_bits \<Rightarrow> nat \<Rightarrow> vector3 list"

text \<open>\<open>1e-6\<close> and \<open>f32::EPSILON\<close>.\<close>

definition f32_micro :: f32_bits where "f32_micro = 0x358637BD"
definition f32_epsilon :: f32_bits where "f32_epsilon = 0x34000000"

definition f32_to_usize :: "f32_bits \<Rightarrow> nat" where
  "f32_to_usize b = nat (fp_to_int 0 (2 ^ 64 - 1) (f32_val b))"

text \<open>\<open>StraightLineNavmesh\<close>: evenly spaced points, the last one the destination.\<close>

definition straight_line_path :: navmesh where
  "straight_line_path start dest step_size max_points =
     (let dx = f32_sub (v_x dest) (v_x start); dy = f32_sub (v_y dest) (v_y start);
          dz = f32_sub (v_z dest) (v_z start);
          total = f32_max (f32_sqrt (f32_add (f32_mul dx dx) (f32_mul dz dz))) f32_micro;
          steps = min (max (f32_to_usize (f32_ceil (f32_div total step_size))) 1) max_points
      in map (\<lambda>i. let t = f32_div (f32_of_int (int i)) (f32_of_int (int steps))
                  in \<lparr>v_x = f32_add (v_x start) (f32_mul dx t), v_y = f32_add (v_y start) (f32_mul dy t),
                      v_z = f32_add (v_z start) (f32_mul dz t)\<rparr>) [1..<steps + 1])"

definition prepare_path ::
  "navmesh \<Rightarrow> vector3 \<Rightarrow> vector3 \<Rightarrow> f32_bits \<Rightarrow> nat \<Rightarrow> path_find \<Rightarrow> path_find" where
  "prepare_path mesh start dest step_size max_points p =
     (if pf_flags_contain PF_IGNORE_NAV p then p\<lparr>pf_path := [dest]\<rparr>
      else p\<lparr>pf_path := mesh start dest step_size max_points\<rparr>)"

definition path_in_range ::
  "navmesh \<Rightarrow> vector3 \<Rightarrow> vector3 \<Rightarrow> f32_bits \<Rightarrow> f32_bits \<Rightarrow> nat \<Rightarrow> path_find \<Rightarrow> path_find" where
  "path_in_range mesh start dest attack_range step_size max_points p =
     prepare_path mesh start dest step_size max_points (p\<lparr>pf_distance_from_point := attack_range\<rparr>)"

section \<open>Following a path\<close>

record 's movement_sink =
  ms_queue_position_update :: "vector3 \<Rightarrow> 's \<Rightarrow> 's"
  ms_look_at :: "vector3 \<Rightarrow> 's \<Rightarrow> 's"
  ms_get_position :: "'s \<Rightarrow> vector3"
  ms_get_speed :: "'s \<Rightarrow> f32_bits"
  ms_get_attack_range :: "'s \<Rightarrow> f32_bits"

definition lerp_toward :: "vector3 \<Rightarrow> vector3 \<Rightarrow> f32_bits \<Rightarrow> vector3" where
  "lerp_toward start dest distance =
     (let dx = f32_sub (v_x dest) (v_x start); dz = f32_sub (v_z dest) (v_z start);
          total = f32_max (f32_sqrt (f32_add (f32_mul dx dx) (f32_mul dz dz))) f32_micro;
          ratio = f32_clamp 0 0x3F800000 (f32_div distance total)
      in \<lparr>v_x = f32_add (v_x start) (f32_mul dx ratio), v_y = v_y start,
          v_z = f32_add (v_z start) (f32_mul dz ratio)\<rparr>)"

text \<open>\<open>4.5\<close> and \<open>3.0\<close> as \<open>f32\<close> are \<open>0x40900000\<close> and \<open>0x40400000\<close>.\<close>

definition at_point :: "'s movement_sink \<Rightarrow> 's \<Rightarrow> vector3 option \<Rightarrow> path_find \<Rightarrow> bool" where
  "at_point ops s point_opt p =
     (case (case point_opt of Some q \<Rightarrow> Some q
            | None \<Rightarrow> if pf_path p = [] then None else Some (last (pf_path p))) of
        None \<Rightarrow> True
      | Some point \<Rightarrow>
          (let pos = ms_get_position ops s
           in if f32_eq (pf_distance_from_point p) 0
              then f32_lt (f32_abs (f32_sub (v_x pos) (v_x point))) f32_epsilon
                   \<and> f32_lt (f32_abs (f32_sub (v_z pos) (v_z point))) f32_epsilon
              else f32_le (xz_distance (v_x pos) (v_z pos) (v_x point) (v_z point))
                          (f32_add (pf_distance_from_point p) 0x40900000)))"

definition step_to :: "'s movement_sink \<Rightarrow> vector3 \<Rightarrow> path_find \<Rightarrow> 's \<Rightarrow> 's" where
  "step_to ops point p s =
     (let step = f32_div (ms_get_speed ops s) 0x40400000;
          pos = ms_get_position ops s;
          distance_to = xz_distance (v_x pos) (v_z pos) (v_x point) (v_z point);
          s1 = ms_look_at ops point s;
          partway = ms_queue_position_update ops
            (lerp_toward pos point (f32_sub distance_to (pf_distance_from_point p)))
      in if f32_le distance_to (f32_add (pf_distance_from_point p) step)
         then if f32_le (pf_distance_from_point p) (ms_get_attack_range ops s1)
              then ms_queue_position_update ops point s1
              else partway s1
         else partway s1)"

definition follow_path :: "'s movement_sink \<Rightarrow> path_find \<Rightarrow> 's \<Rightarrow> path_find \<times> 's" where
  "follow_path ops p s =
     (case pf_path p of
        [] \<Rightarrow> (p, s)
      | point # rest \<Rightarrow>
          (let s1 = step_to ops point p s
           in (if at_point ops s1 (Some point) p then p\<lparr>pf_path := rest\<rparr> else p, s1)))"

end
