(* ===== verification/BattleAi.thy ===== *)
theory BattleAi
  imports BattleTypes PathFind
begin

text \<open>
  The AI of a battle actor: the states of \<open>battle/state.rs\<close>, the controllers of
  \<open>battle/controller.rs\<close> and the container of \<open>battle/ai_container.rs\<close> that owns the state stack
  and ticks both. Times are \<open>u64\<close> milliseconds and wrap as the release profile does. The stack is
  kept with its top first (the source pushes at the end of a vector). An operation that pushes to
  the outbox returns the events it pushed, in order. \<open>atan2\<close> is a parameter: its result is that of
  the platform's math library.
\<close>

section \<open>state.rs\<close>

definition MAX_STATE_STACK :: nat where "MAX_STATE_STACK = 10"

datatype battle_state_kind = BkAttack | BkMagic | BkAbility | BkWeaponSkill | BkItem | BkDeath | BkDespawn | BkInactive

text \<open>The last component of \<open>BbMagic\<close> is \<open>cast_started\<close>.\<close>

datatype battle_state_body =
    BbAttack u64
  | BbMagic battle_command u64 bool
  | BbAbility battle_command u64
  | BbWeaponSkill battle_command u64
  | BbItem u32 u64
  | BbDeath u64
  | BbDespawn u64
  | BbInactive u64

record battle_state =
  bs_kind :: battle_state_kind
  bs_body :: battle_state_body
  bs_owner :: u32
  bs_target :: u32
  bs_start_time_ms :: u64
  bs_can_interrupt :: bool
  bs_interrupt :: bool
  bs_is_completed :: bool
  bs_error_text_id :: u16

definition make_state ::
  "battle_state_kind \<Rightarrow> battle_state_body \<Rightarrow> u32 \<Rightarrow> u32 \<Rightarrow> u64 \<Rightarrow> bool \<Rightarrow> battle_state" where
  "make_state kind body owner_id target_actor now can_interrupt =
     \<lparr>bs_kind = kind, bs_body = body, bs_owner = owner_id, bs_target = target_actor,
      bs_start_time_ms = now, bs_can_interrupt = can_interrupt, bs_interrupt = False,
      bs_is_completed = False, bs_error_text_id = 0\<rparr>"

definition state_attack :: "u32 \<Rightarrow> u32 \<Rightarrow> u64 \<Rightarrow> u32 \<Rightarrow> battle_state" where
  "state_attack owner_id target_actor now delay =
     make_state BkAttack (BbAttack (now + ucast delay)) owner_id target_actor now False"

definition state_magic :: "u32 \<Rightarrow> u32 \<Rightarrow> battle_command \<Rightarrow> u64 \<Rightarrow> battle_state" where
  "state_magic owner_id target_actor c now =
     make_state BkMagic (BbMagic c (now + ucast (bc_cast_time_ms c)) False) owner_id target_actor now True"

definition state_ability :: "u32 \<Rightarrow> u32 \<Rightarrow> battle_command \<Rightarrow> u64 \<Rightarrow> battle_state" where
  "state_ability owner_id target_actor c now =
     make_state BkAbility (BbAbility c (now + ucast (bc_cast_time_ms c))) owner_id target_actor now True"

definition state_weapon_skill :: "u32 \<Rightarrow> u32 \<Rightarrow> battle_command \<Rightarrow> u64 \<Rightarrow> battle_state" where
  "state_weapon_skill owner_id target_actor c now =
     make_state BkWeaponSkill (BbWeaponSkill c (now + ucast (bc_cast_time_ms c))) owner_id target_actor now True"

definition state_item :: "u32 \<Rightarrow> u32 \<Rightarrow> u32 \<Rightarrow> u32 \<Rightarrow> u64 \<Rightarrow> battle_state" where
  "state_item owner_id target_actor item cast_time now =
     make_state BkItem (BbItem item (now + ucast cast_time)) owner_id target_actor now True"

definition state_death :: "u32 \<Rightarrow> u64 \<Rightarrow> u64 \<Rightarrow> battle_state" where
  "state_death owner_id now fadeout = make_state BkDeath (BbDeath (now + fadeout)) owner_id 0 now False"

definition state_despawn :: "u32 \<Rightarrow> u64 \<Rightarrow> u64 \<Rightarrow> battle_state" where
  "state_despawn owner_id now respawn = make_state BkDespawn (BbDespawn (now + respawn)) owner_id 0 now False"

definition state_inactive :: "u32 \<Rightarrow> u64 \<Rightarrow> u64 \<Rightarrow> battle_state" where
  "state_inactive owner_id now duration =
     make_state BkInactive (BbInactive (if duration = 0 then 0 else now + duration)) owner_id 0 now False"

definition state_can_change :: "battle_state \<Rightarrow> bool" where
  "state_can_change s \<longleftrightarrow> bs_kind s \<in> {BkAttack, BkDeath, BkDespawn}"

definition set_interrupted :: "bool \<Rightarrow> battle_state \<Rightarrow> battle_state" where
  "set_interrupted flag s = s\<lparr>bs_interrupt := flag\<rparr>"

datatype state_tick_result = StContinue | StComplete | StInterrupted

text \<open>The time at which a body ends by itself; an attack never does, nor an inactive lock of 0.\<close>

fun state_due :: "u64 \<Rightarrow> battle_state_body \<Rightarrow> bool" where
  "state_due now (BbAttack t) = False"
| "state_due now (BbMagic c t st) = (t \<le> now)"
| "state_due now (BbAbility c t) = (t \<le> now)"
| "state_due now (BbWeaponSkill c t) = (t \<le> now)"
| "state_due now (BbItem i t) = (t \<le> now)"
| "state_due now (BbDeath t) = (t \<le> now)"
| "state_due now (BbDespawn t) = (t \<le> now)"
| "state_due now (BbInactive t) = (t \<noteq> 0 \<and> t \<le> now)"

definition state_update :: "u64 \<Rightarrow> battle_state \<Rightarrow> state_tick_result \<times> battle_state" where
  "state_update now s =
     (if bs_interrupt s \<and> bs_can_interrupt s then (StInterrupted, s)
      else if state_due now (bs_body s) then (StComplete, s\<lparr>bs_is_completed := True\<rparr>)
      else (StContinue, s))"

fun attack_ready :: "u64 \<Rightarrow> battle_state_body \<Rightarrow> bool" where
  "attack_ready now (BbAttack t) = (t \<le> now)"
| "attack_ready now b = False"

definition is_attack_ready :: "u64 \<Rightarrow> battle_state \<Rightarrow> bool" where
  "is_attack_ready now s = attack_ready now (bs_body s)"

definition schedule_next_swing :: "u64 \<Rightarrow> u32 \<Rightarrow> battle_state \<Rightarrow> battle_state" where
  "schedule_next_swing now delay s =
     (case bs_body s of BbAttack t \<Rightarrow> s\<lparr>bs_body := BbAttack (now + ucast delay)\<rparr> | _ \<Rightarrow> s)"

fun state_command :: "battle_state_body \<Rightarrow> battle_command option" where
  "state_command (BbMagic c t st) = Some c"
| "state_command (BbAbility c t) = Some c"
| "state_command (BbWeaponSkill c t) = Some c"
| "state_command b = None"

definition is_casting :: "battle_state \<Rightarrow> bool" where
  "is_casting s \<longleftrightarrow> bs_kind s \<in> {BkMagic, BkAbility, BkWeaponSkill}"

section \<open>controller.rs\<close>

datatype controller_kind = CkPlayer | CkBattleNpc | CkAlly | CkPet

definition DT_NONE :: u32 where "DT_NONE = 0"
definition DT_SIGHT :: u32 where "DT_SIGHT = 0x01"
definition DT_SCENT :: u32 where "DT_SCENT = 0x02"
definition DT_SOUND :: u32 where "DT_SOUND = 0x04"
definition DT_LOW_HP :: u32 where "DT_LOW_HP = 0x08"
definition DT_IGNORE_LEVEL_DIFFERENCE :: u32 where "DT_IGNORE_LEVEL_DIFFERENCE = 0x10"

definition dt_contains :: "u32 \<Rightarrow> u32 \<Rightarrow> bool" where
  "dt_contains d other \<longleftrightarrow> (d AND other) = other"

text \<open>The fields of \<open>BattleNpcControllerState\<close> that the controller reads or writes.\<close>

record npc_controller =
  nc_detection_type :: u32
  nc_sight_range :: f32_bits
  nc_sound_range :: f32_bits
  nc_level :: int
  nc_neutral :: bool
  nc_is_moving_to_spawn :: bool
  nc_roam_delay_seconds :: u32
  nc_neutral_time_ms :: u64
  nc_wait_time_ms :: u64
  nc_content_group_ids :: "u32 list"
  nc_is_caster :: bool
  nc_standback_range :: f32_bits
  nc_next_cast_ms :: u64
  nc_spell :: "battle_command option"

record controller =
  ct_owner :: u32
  ct_kind :: controller_kind
  ct_last_update_ms :: u64
  ct_last_combat_tick_ms :: u64
  ct_can_update :: bool
  ct_auto_attack_enabled :: bool
  ct_casting_enabled :: bool
  ct_weapon_skill_enabled :: bool
  ct_battle :: npc_controller
  ct_pet_master :: u32

text \<open>\<open>20.0\<close>, \<open>10.0\<close> and \<open>15.0\<close> as \<open>f32\<close>.\<close>

definition controller_new :: "controller_kind \<Rightarrow> u32 \<Rightarrow> controller" where
  "controller_new kind owner_id =
     \<lparr>ct_owner = owner_id, ct_kind = kind, ct_last_update_ms = 0, ct_last_combat_tick_ms = 0,
      ct_can_update = True, ct_auto_attack_enabled = True, ct_casting_enabled = True,
      ct_weapon_skill_enabled = True,
      ct_battle = \<lparr>nc_detection_type = DT_NONE, nc_sight_range = 0x41A00000, nc_sound_range = 0x41200000,
        nc_level = 0, nc_neutral = False, nc_is_moving_to_spawn = False, nc_roam_delay_seconds = 5,
        nc_neutral_time_ms = 0, nc_wait_time_ms = 0, nc_content_group_ids = [], nc_is_caster = False,
        nc_standback_range = 0x41700000, nc_next_cast_ms = 0, nc_spell = None\<rparr>,
      ct_pet_master = 0\<rparr>"

text \<open>\<open>ControllerOwnerView\<close>: the fields the controllers and the container read.\<close>

record owner_view =
  ov_actor :: actor_view
  ov_is_engaged :: bool
  ov_is_spawned :: bool
  ov_most_hated :: "u32 option"
  ov_current_target :: "u32 option"
  ov_has_prevent_movement :: bool
  ov_is_close_to_spawn :: bool
  ov_attack_delay_ms :: u32
  ov_attack_range :: f32_bits

datatype controller_decision =
    CdIdle
  | CdEngage u32
  | CdDisengage
  | CdMoveTo vector3
  | CdFaceTarget vector3
  | CdRoam
  | CdCast u32
  | CdChangeTarget "u32 option"
  | CdLuaCombatTick "u32 option"

definition COMBAT_TICK_INTERVAL_MS :: u64 where "COMBAT_TICK_INTERVAL_MS = 3000"
definition DEFAULT_ROAM_DELAY_MS :: u64 where "DEFAULT_ROAM_DELAY_MS = 5000"
definition AGGRO_SCAN_RADIUS :: f32_bits where "AGGRO_SCAN_RADIUS = 0x42480000"
definition AGGRO_LEVEL_CAP :: int where "AGGRO_LEVEL_CAP = 10"
definition MAX_DETECT_DISTANCE :: f32_bits where "MAX_DETECT_DISTANCE = 0x41A00000"
definition MAX_DETECT_Y_DIFF :: f32_bits where "MAX_DETECT_Y_DIFF = 0x41000000"

text \<open>The target level is a constant.\<close>

definition owner_target_level :: "actor_view \<Rightarrow> int" where "owner_target_level t = 1"

definition can_aggro :: "owner_view \<Rightarrow> actor_view \<Rightarrow> controller \<Rightarrow> bool" where
  "can_aggro owner t c =
     (if nc_neutral (ct_battle c) \<or> nc_detection_type (ct_battle c) = DT_NONE then False
      else if \<not> av_is_alive t then False
      else if \<not> dt_contains (nc_detection_type (ct_battle c)) DT_IGNORE_LEVEL_DIFFERENCE
              \<and> i16_wrap \<bar>i16_wrap (nc_level (ct_battle c) - owner_target_level t)\<bar> > AGGRO_LEVEL_CAP then False
      else ov_is_spawned owner \<and> \<not> ov_is_engaged owner)"

text \<open>\<open>TAU\<close> and \<open>PI / 2.0\<close> as \<open>f32\<close>.\<close>

definition f32_tau :: f32_bits where "f32_tau = 0x40C90FDB"
definition f32_pi :: f32_bits where "f32_pi = 0x40490FDB"
definition f32_half_pi :: f32_bits where "f32_half_pi = 0x3FC90FDB"

type_synonym atan2_fun = "f32_bits \<Rightarrow> f32_bits \<Rightarrow> f32_bits"

definition is_facing :: "atan2_fun \<Rightarrow> vector3 \<Rightarrow> f32_bits \<Rightarrow> vector3 \<Rightarrow> bool" where
  "is_facing atan2 origin rotation tgt =
     (let dx = f32_sub (v_x tgt) (v_x origin); dz = f32_sub (v_z tgt) (v_z origin);
          angle_to = atan2 dx dz;
          diff = f32_rem_euclid (f32_sub angle_to rotation) f32_tau;
          gap = f32_min diff (f32_sub f32_tau diff)
      in f32_le gap (f32_div f32_pi 0x40000000))"

definition flat_distance :: "vector3 \<Rightarrow> vector3 \<Rightarrow> f32_bits" where
  "flat_distance a b =
     (let dx = f32_sub (v_x b) (v_x a); dz = f32_sub (v_z b) (v_z a)
      in f32_sqrt (f32_add (f32_mul dx dx) (f32_mul dz dz)))"

text \<open>\<open>target_view_has_stealth\<close> is the constant \<open>false\<close>; the low-HP arm returns false like the end.\<close>

definition can_detect :: "atan2_fun \<Rightarrow> owner_view \<Rightarrow> actor_view \<Rightarrow> controller \<Rightarrow> bool" where
  "can_detect atan2 owner t c =
     (let pos = av_position (ov_actor owner);
          dist = flat_distance pos (av_position t);
          y_diff = f32_abs (f32_sub (v_y (av_position t)) (v_y pos));
          d = nc_detection_type (ct_battle c)
      in if f32_lt MAX_DETECT_Y_DIFF y_diff then False
         else if f32_lt MAX_DETECT_DISTANCE dist then False
         else dt_contains d DT_SIGHT \<and> is_facing atan2 pos (av_rotation (ov_actor owner)) (av_position t)
                \<and> f32_le dist (nc_sight_range (ct_battle c))
              \<or> dt_contains d DT_SOUND \<and> f32_le dist (nc_sound_range (ct_battle c))
              \<or> dt_contains d DT_SCENT \<and> f32_le dist (nc_sound_range (ct_battle c)))"

definition aggro_candidate :: "atan2_fun \<Rightarrow> owner_view \<Rightarrow> controller \<Rightarrow> actor_view \<Rightarrow> bool" where
  "aggro_candidate atan2 owner c t \<longleftrightarrow>
     av_actor_id t \<noteq> av_actor_id (ov_actor owner)
     \<and> av_allegiance t \<noteq> av_allegiance (ov_actor owner)
     \<and> av_is_alive t
     \<and> \<not> (ct_kind c = CkAlly \<and> av_actor_id t \<notin> set (nc_content_group_ids (ct_battle c)))
     \<and> can_aggro owner t c \<and> can_detect atan2 owner t c"

definition try_aggro :: "atan2_fun \<Rightarrow> u64 \<Rightarrow> owner_view \<Rightarrow> arena \<Rightarrow> controller \<Rightarrow> u32 option" where
  "try_aggro atan2 now owner ar c =
     (if now < nc_neutral_time_ms (ct_battle c) \<or> nc_is_moving_to_spawn (ct_battle c) then None
      else if nc_neutral (ct_battle c) then None
      else map_option av_actor_id
             (find (aggro_candidate atan2 owner c) (ar_around ar (av_actor_id (ov_actor owner)) AGGRO_SCAN_RADIUS)))"

definition should_deaggro :: "owner_view \<Rightarrow> bool" where
  "should_deaggro owner \<longleftrightarrow> ov_most_hated owner = None \<or> \<not> ov_is_close_to_spawn owner"

definition combat_tick_due :: "u64 \<Rightarrow> controller \<Rightarrow> bool" where
  "combat_tick_due now c \<longleftrightarrow> COMBAT_TICK_INTERVAL_MS \<le> u64_saturating_sub now (ct_last_combat_tick_ms c)"

text \<open>\<open>0.2\<close> as \<open>f32\<close> is \<open>0x3E4CCCCD\<close>.\<close>

definition pursue_target ::
  "u64 \<Rightarrow> owner_view \<Rightarrow> u32 \<Rightarrow> actor_view \<Rightarrow> controller \<Rightarrow> controller_decision \<times> controller" where
  "pursue_target now owner target_actor t c =
     (let pos = av_position (ov_actor owner); tpos = av_position t;
          dx = f32_sub (v_x tpos) (v_x pos); dz = f32_sub (v_z tpos) (v_z pos);
          dist = f32_sqrt (f32_add (f32_mul dx dx) (f32_mul dz dz));
          stop = (if nc_is_caster (ct_battle c) then nc_standback_range (ct_battle c)
                  else f32_sub (ov_attack_range owner) 0x3E4CCCCD)
      in if nc_is_caster (ct_battle c) \<and> ct_casting_enabled c \<and> nc_next_cast_ms (ct_battle c) \<le> now
            \<and> (case nc_spell (ct_battle c) of None \<Rightarrow> False | Some s \<Rightarrow> f32_le dist (bc_range s))
         then (CdCast target_actor, c)
         else if f32_lt stop dist \<and> \<not> ov_has_prevent_movement owner
         then (let k = f32_div (f32_sub dist stop) dist
               in (CdMoveTo \<lparr>v_x = f32_add (v_x pos) (f32_mul dx k),
                             v_y = f32_add (v_y pos) (f32_mul (f32_sub (v_y tpos) (v_y pos)) k),
                             v_z = f32_add (v_z pos) (f32_mul dz k)\<rparr>, c))
         else if combat_tick_due now c
         then (CdLuaCombatTick (Some target_actor), c\<lparr>ct_last_combat_tick_ms := now\<rparr>)
         else (CdFaceTarget tpos, c))"

definition do_combat_tick :: "u64 \<Rightarrow> owner_view \<Rightarrow> arena \<Rightarrow> controller \<Rightarrow> controller_decision \<times> controller" where
  "do_combat_tick now owner ar c =
     (if should_deaggro owner then (CdDisengage, c)
      else if ov_most_hated owner \<noteq> ov_current_target owner then (CdChangeTarget (ov_most_hated owner), c)
      else case ov_current_target owner of
             None \<Rightarrow> (CdIdle, c)
           | Some target_actor \<Rightarrow>
              (case ar_get ar target_actor of
                 Some t \<Rightarrow> pursue_target now owner target_actor t c
               | None \<Rightarrow>
                   if combat_tick_due now c
                   then (CdLuaCombatTick (Some target_actor), c\<lparr>ct_last_combat_tick_ms := now\<rparr>)
                   else (CdIdle, c)))"

definition do_roam_tick :: "u64 \<Rightarrow> controller \<Rightarrow> controller_decision \<times> controller" where
  "do_roam_tick now c =
     (if now < nc_wait_time_ms (ct_battle c) then (CdIdle, c)
      else (CdRoam,
            c\<lparr>ct_battle := (ct_battle c)
                \<lparr>nc_neutral_time_ms := now + 5000,
                 nc_wait_time_ms :=
                   now + max (ucast (nc_roam_delay_seconds (ct_battle c)) * 1000) DEFAULT_ROAM_DELAY_MS\<rparr>\<rparr>))"

definition tick_battle_npc ::
  "atan2_fun \<Rightarrow> u64 \<Rightarrow> owner_view \<Rightarrow> arena \<Rightarrow> controller \<Rightarrow> controller_decision \<times> controller" where
  "tick_battle_npc atan2 now owner ar c =
     (if \<not> av_is_alive (ov_actor owner) then (CdIdle, c)
      else if ov_is_engaged owner then do_combat_tick now owner ar c
      else case ov_most_hated owner of
             Some hated \<Rightarrow> (CdEngage hated, c)
           | None \<Rightarrow>
              (case try_aggro atan2 now owner ar c of
                 Some target_actor \<Rightarrow> (CdEngage target_actor, c)
               | None \<Rightarrow>
                   if nc_is_moving_to_spawn (ct_battle c) \<or> 0 < nc_roam_delay_seconds (ct_battle c)
                   then do_roam_tick now c else (CdIdle, c)))"

definition controller_tick ::
  "atan2_fun \<Rightarrow> u64 \<Rightarrow> owner_view \<Rightarrow> arena \<Rightarrow> controller \<Rightarrow> controller_decision \<times> controller" where
  "controller_tick atan2 now owner ar c =
     (if \<not> ct_can_update c then (CdIdle, c)
      else let c1 = c\<lparr>ct_last_update_ms := now\<rparr>
           in case ct_kind c of
                CkPlayer \<Rightarrow> (CdIdle, c1)
              | CkPet \<Rightarrow> (CdIdle, c1)
              | CkBattleNpc \<Rightarrow> tick_battle_npc atan2 now owner ar c1
              | CkAlly \<Rightarrow> tick_battle_npc atan2 now owner ar c1)"

section \<open>ai_container.rs\<close>

datatype movement_step = StepMoveTo vector3 | StepFace vector3

record queued_action =
  qa_fire_at_ms :: u64
  qa_check_state :: bool
  qa_tag :: u32

text \<open>
  \<open>ActionQueue::push\<close> appends and sorts by the time with a stable sort; \<open>drain_due\<close> takes the
  elapsed prefix.
\<close>

definition action_push :: "queued_action \<Rightarrow> queued_action list \<Rightarrow> queued_action list" where
  "action_push a q = sort_key qa_fire_at_ms (q @ [a])"

definition drain_due :: "u64 \<Rightarrow> queued_action list \<Rightarrow> queued_action list \<times> queued_action list" where
  "drain_due now q = (takeWhile (\<lambda>a. qa_fire_at_ms a \<le> now) q, dropWhile (\<lambda>a. qa_fire_at_ms a \<le> now) q)"

record ai_container =
  ai_owner :: u32
  ai_controller :: "controller option"
  ai_path_find :: "path_find option"
  ai_action_queue :: "queued_action list"
  ai_pending_movement :: "movement_step option"
  ai_movement_step_count :: u32
  ai_states :: "battle_state list"
  ai_last_action_time_ms :: u64
  ai_latest_update_ms :: u64
  ai_prev_update_ms :: u64

definition ai_new :: "u32 \<Rightarrow> controller option \<Rightarrow> path_find option \<Rightarrow> ai_container" where
  "ai_new owner_id c p =
     \<lparr>ai_owner = owner_id, ai_controller = c, ai_path_find = p, ai_action_queue = [],
      ai_pending_movement = None, ai_movement_step_count = 0, ai_states = [],
      ai_last_action_time_ms = 0, ai_latest_update_ms = 0, ai_prev_update_ms = 0\<rparr>"

definition current_state :: "ai_container \<Rightarrow> battle_state option" where
  "current_state a = (case ai_states a of [] \<Rightarrow> None | s # _ \<Rightarrow> Some s)"

definition is_current :: "battle_state_kind \<Rightarrow> ai_container \<Rightarrow> bool" where
  "is_current kind a \<longleftrightarrow> map_option bs_kind (current_state a) = Some kind"

definition can_change_state :: "ai_container \<Rightarrow> bool" where
  "can_change_state a = (case current_state a of None \<Rightarrow> True | Some s \<Rightarrow> state_can_change s)"

definition can_follow_path :: "ai_container \<Rightarrow> bool" where
  "can_follow_path a \<longleftrightarrow> ai_path_find a \<noteq> None \<and> can_change_state a"

definition is_engaged :: "ai_container \<Rightarrow> bool" where
  "is_engaged a \<longleftrightarrow> (\<exists>s \<in> set (ai_states a). bs_kind s = BkAttack)"

definition is_dead :: "ai_container \<Rightarrow> bool" where
  "is_dead a = (case current_state a of None \<Rightarrow> False | Some s \<Rightarrow> bs_kind s = BkDeath)"

definition is_spawned :: "ai_container \<Rightarrow> bool" where
  "is_spawned a \<longleftrightarrow> \<not> is_dead a"

definition update_last_action_time :: "u64 \<Rightarrow> u32 \<Rightarrow> ai_container \<Rightarrow> ai_container" where
  "update_last_action_time now delay_seconds a =
     a\<lparr>ai_last_action_time_ms := now + ucast delay_seconds * 1000\<rparr>"

definition check_completed_states :: "ai_container \<Rightarrow> ai_container" where
  "check_completed_states a = a\<lparr>ai_states := dropWhile bs_is_completed (ai_states a)\<rparr>"

definition force_change_state :: "battle_state \<Rightarrow> ai_container \<Rightarrow> bool \<times> ai_container" where
  "force_change_state s a =
     (if MAX_STATE_STACK \<le> length (ai_states a) then (False, a)
      else let a1 = check_completed_states a in (True, a1\<lparr>ai_states := s # ai_states a1\<rparr>))"

definition change_state :: "battle_state \<Rightarrow> ai_container \<Rightarrow> bool \<times> ai_container" where
  "change_state s a =
     (if \<not> can_change_state a then (False, a)
      else if MAX_STATE_STACK \<le> length (ai_states a) then (False, a)
      else let a1 = check_completed_states a in (True, a1\<lparr>ai_states := s # ai_states a1\<rparr>))"

definition interrupt_states :: "ai_container \<Rightarrow> ai_container" where
  "interrupt_states a = a\<lparr>ai_states := dropWhile bs_can_interrupt (ai_states a)\<rparr>"

definition clear_states :: "ai_container \<Rightarrow> ai_container" where
  "clear_states a = a\<lparr>ai_states := []\<rparr>"

definition clear_path :: "ai_container \<Rightarrow> ai_container" where
  "clear_path a = a\<lparr>ai_path_find := map_option pf_clear (ai_path_find a)\<rparr>"

definition ai_reset :: "ai_container \<Rightarrow> ai_container" where
  "ai_reset a = clear_path (clear_states a)"

definition internal_engage :: "u32 \<Rightarrow> u64 \<Rightarrow> u32 \<Rightarrow> ai_container \<Rightarrow> bool \<times> ai_container" where
  "internal_engage target_actor now attack_delay a =
     (if is_engaged a then (False, a)
      else force_change_state (state_attack (ai_owner a) target_actor now attack_delay) a)"

definition internal_disengage :: "ai_container \<Rightarrow> ai_container \<times> battle_event list" where
  "internal_disengage a = (clear_states (clear_path a), [BeDisengage (ai_owner a)])"

definition internal_cast :: "u32 \<Rightarrow> battle_command \<Rightarrow> u64 \<Rightarrow> ai_container \<Rightarrow> bool \<times> ai_container" where
  "internal_cast target_actor c now a = change_state (state_magic (ai_owner a) target_actor c now) a"

definition internal_ability :: "u32 \<Rightarrow> battle_command \<Rightarrow> u64 \<Rightarrow> ai_container \<Rightarrow> bool \<times> ai_container" where
  "internal_ability target_actor c now a = change_state (state_ability (ai_owner a) target_actor c now) a"

definition internal_weapon_skill :: "u32 \<Rightarrow> battle_command \<Rightarrow> u64 \<Rightarrow> ai_container \<Rightarrow> bool \<times> ai_container" where
  "internal_weapon_skill target_actor c now a =
     change_state (state_weapon_skill (ai_owner a) target_actor c now) a"

definition internal_use_item :: "u32 \<Rightarrow> u32 \<Rightarrow> u32 \<Rightarrow> u64 \<Rightarrow> ai_container \<Rightarrow> bool \<times> ai_container" where
  "internal_use_item target_actor item cast_time now a =
     change_state (state_item (ai_owner a) target_actor item cast_time now) a"

definition internal_die :: "u64 \<Rightarrow> u64 \<Rightarrow> ai_container \<Rightarrow> ai_container \<times> battle_event list" where
  "internal_die now fadeout a =
     (snd (force_change_state (state_death (ai_owner a) now fadeout) (clear_states (clear_path a))),
      [BeDie (ai_owner a)])"

definition internal_despawn :: "u64 \<Rightarrow> u64 \<Rightarrow> ai_container \<Rightarrow> ai_container \<times> battle_event list" where
  "internal_despawn now respawn a =
     (snd (force_change_state (state_despawn (ai_owner a) now respawn) (clear_states a)),
      [BeDespawn (ai_owner a)])"

subsection \<open>The tick\<close>

definition retarget :: "u32 \<Rightarrow> battle_state \<Rightarrow> battle_state" where
  "retarget target_actor s = (if bs_kind s = BkAttack then s\<lparr>bs_target := target_actor\<rparr> else s)"

fun apply_decision ::
  "controller_decision \<Rightarrow> u64 \<Rightarrow> u32 \<Rightarrow> ai_container \<Rightarrow> ai_container \<times> battle_event list" where
  "apply_decision CdIdle now delay a = (a, [])"
| "apply_decision (CdEngage t) now delay a = (snd (internal_engage t now delay a), [BeEngage (ai_owner a) t])"
| "apply_decision CdDisengage now delay a = (a, [BeDisengage (ai_owner a)])"
| "apply_decision (CdMoveTo p) now delay a = (a\<lparr>ai_pending_movement := Some (StepMoveTo p)\<rparr>, [])"
| "apply_decision (CdFaceTarget p) now delay a = (a\<lparr>ai_pending_movement := Some (StepFace p)\<rparr>, [])"
| "apply_decision CdRoam now delay a = (a, [])"
| "apply_decision (CdCast t) now delay a =
     (if is_current BkMagic a then (a, [])
      else case Option.bind (ai_controller a) (\<lambda>c. nc_spell (ct_battle c)) of
             None \<Rightarrow> (a, [])
           | Some c \<Rightarrow>
               (let (ok, a1) = internal_cast t c now a
                in if ok
                   then (a1\<lparr>ai_controller := map_option
                             (\<lambda>k. k\<lparr>ct_battle := (ct_battle k)
                                \<lparr>nc_next_cast_ms := now + ucast (bc_cast_time_ms c) + ucast (bc_recast_time_ms c)\<rparr>\<rparr>)
                             (ai_controller a1)\<rparr>,
                         [BeCastStart (ai_owner a) t (bc_id c) (bc_cast_time_ms c) (bc_cast_type c)])
                   else (a1, [])))"
| "apply_decision (CdChangeTarget t) now delay a =
     ((case t of None \<Rightarrow> a | Some n \<Rightarrow> a\<lparr>ai_states := map (retarget n) (ai_states a)\<rparr>),
      [BeTargetChange (ai_owner a) t])"
| "apply_decision (CdLuaCombatTick t) now delay a = (a, [BeLuaCall (ai_owner a) ''onCombatTick'' 0 t])"

text \<open>
  What a swing needs of the tick: whether auto-attack is on, the reach, the owner's position and
  the delay, at least half a second, that re-arms the clock.
\<close>

record swing_gate =
  sg_auto_attack :: bool
  sg_range :: f32_bits
  sg_position :: vector3
  sg_delay :: u32

definition swing_events :: "u32 \<Rightarrow> swing_gate \<Rightarrow> arena \<Rightarrow> u32 \<Rightarrow> battle_event list" where
  "swing_events owner_id g ar target_actor =
     (let target_view = ar_get ar target_actor;
          in_range = (case target_view of None \<Rightarrow> False
            | Some t \<Rightarrow>
                let dx = f32_sub (v_x (av_position t)) (v_x (sg_position g));
                    dz = f32_sub (v_z (av_position t)) (v_z (sg_position g))
                in f32_le (f32_add (f32_mul dx dx) (f32_mul dz dz)) (f32_mul (sg_range g) (sg_range g)))
      in if target_actor \<noteq> 0 \<and> sg_auto_attack g \<and> in_range then [BeResolveAutoAttack owner_id target_actor]
         else if target_actor \<noteq> 0 \<and> sg_auto_attack g \<and> target_view \<noteq> None then [BeAutoAttackOutOfRange owner_id]
         else [])"

definition completion_events :: "u32 \<Rightarrow> battle_state \<Rightarrow> battle_event list" where
  "completion_events owner_id s =
     (case state_command (bs_body s) of
        Some c \<Rightarrow>
          if is_casting s \<and> bs_target s \<noteq> 0
          then (if bs_kind s = BkMagic then [BeCastComplete owner_id (bc_id c)] else [])
               @ [BeResolveAction owner_id (bs_target s) c]
          else []
      | None \<Rightarrow> [])"

definition interrupt_events :: "u32 \<Rightarrow> battle_state \<Rightarrow> battle_event list" where
  "interrupt_events owner_id s =
     (if bs_kind s = BkMagic
      then [BeCastInterrupted owner_id (case state_command (bs_body s) of Some c \<Rightarrow> bc_id c | None \<Rightarrow> 0)]
      else [])"

text \<open>The loop over the stack: states that end are popped, the first one that goes on stops it.\<close>

fun run_states :: "u32 \<Rightarrow> swing_gate \<Rightarrow> arena \<Rightarrow> u64 \<Rightarrow> battle_state list \<Rightarrow> battle_state list \<times> battle_event list" where
  "run_states owner_id g ar now [] = ([], [])"
| "run_states owner_id g ar now (s # rest) =
     (case state_update now s of
        (StContinue, s1) \<Rightarrow>
          if bs_kind s = BkAttack \<and> is_attack_ready now s1
          then (schedule_next_swing now (sg_delay g) s1 # rest, swing_events owner_id g ar (bs_target s))
          else (s1 # rest, [])
      | (StComplete, s1) \<Rightarrow>
          (let (stack, ob) = run_states owner_id g ar now rest in (stack, completion_events owner_id s1 @ ob))
      | (StInterrupted, s1) \<Rightarrow>
          (let (stack, ob) = run_states owner_id g ar now rest in (stack, interrupt_events owner_id s1 @ ob)))"

definition action_events :: "u32 \<Rightarrow> queued_action list \<Rightarrow> battle_event list" where
  "action_events owner_id acts = map (\<lambda>x. BeLuaCall owner_id ''onActionQueueFire'' (ucast (qa_tag x)) None) acts"

text \<open>The decision of a tick, with the controller's own bookkeeping applied.\<close>

definition decide ::
  "atan2_fun \<Rightarrow> u64 \<Rightarrow> owner_view \<Rightarrow> arena \<Rightarrow> ai_container \<Rightarrow> controller_decision option \<times> ai_container" where
  "decide atan2 now owner ar a =
     (case ai_controller a of
        None \<Rightarrow> (None, a)
      | Some c \<Rightarrow>
          if ct_can_update c
          then (let (d, c1) = controller_tick atan2 now owner ar c
                in (Some d, a\<lparr>ai_controller := Some c1\<rparr>))
          else (None, a))"

definition swing_gate_of :: "owner_view \<Rightarrow> ai_container \<Rightarrow> swing_gate" where
  "swing_gate_of owner a =
     \<lparr>sg_auto_attack = (case ai_controller a of None \<Rightarrow> True | Some c \<Rightarrow> ct_auto_attack_enabled c),
      sg_range = ov_attack_range owner, sg_position = av_position (ov_actor owner),
      sg_delay = max (ov_attack_delay_ms owner) 500\<rparr>"

definition ai_update ::
  "atan2_fun \<Rightarrow> u64 \<Rightarrow> owner_view \<Rightarrow> arena \<Rightarrow> ai_container \<Rightarrow> ai_container \<times> battle_event list" where
  "ai_update atan2 now owner ar a =
     (let a0 = a\<lparr>ai_prev_update_ms := ai_latest_update_ms a, ai_latest_update_ms := now,
                 ai_pending_movement := None\<rparr>;
          (d, a1) = decide atan2 now owner ar a0;
          (a2, ob1) = (case d of None \<Rightarrow> (a1, []) | Some x \<Rightarrow> apply_decision x now (ov_attack_delay_ms owner) a1);
          (stack, ob2) = run_states (ai_owner a2) (swing_gate_of owner a2) ar now (ai_states a2);
          (due, later) = drain_due now (ai_action_queue a2)
      in (a2\<lparr>ai_states := stack, ai_action_queue := later\<rparr>,
          ob1 @ ob2 @ action_events (ai_owner a2) due))"

end
