(* ===== verification/Hate.thy ===== *)
theory Hate
  imports Prelude "HOL-Library.AList" "HOL-Library.Multiset"
begin

text \<open>
  The enmity tracker, \<open>map-server/src/battle/hate.rs\<close>: entries by actor id. The hash map is an
  association list in its iteration order, which the source leaves open; the laws show that the
  choice of a target does not depend on it.
\<close>

section \<open>Entries and operations\<close>

record hate_entry =
  he_actor_id :: u32
  he_cumulative_enmity :: u32
  he_volatile_enmity :: u32
  he_is_active :: bool

record hate_container =
  hc_owner_actor_id :: u32
  hc_entries :: "(u32 \<times> hate_entry) list"

definition hate_entry_new :: "u32 \<Rightarrow> hate_entry" where
  "hate_entry_new a =
     \<lparr>he_actor_id = a, he_cumulative_enmity = 1, he_volatile_enmity = 0, he_is_active = True\<rparr>"

definition hate_new :: "u32 \<Rightarrow> hate_container" where
  "hate_new owner = \<lparr>hc_owner_actor_id = owner, hc_entries = []\<rparr>"

definition hate_get :: "u32 \<Rightarrow> hate_container \<Rightarrow> hate_entry option" where
  "hate_get a h = map_of (hc_entries h) a"

definition has_hate_for :: "u32 \<Rightarrow> hate_container \<Rightarrow> bool" where
  "has_hate_for a h \<longleftrightarrow> hate_get a h \<noteq> None"

definition add_base_hate :: "u32 \<Rightarrow> hate_container \<Rightarrow> hate_container" where
  "add_base_hate a h =
     (case hate_get a h of
        Some e \<Rightarrow> h
      | None \<Rightarrow> h\<lparr>hc_entries := AList.update a (hate_entry_new a) (hc_entries h)\<rparr>)"

text \<open>\<open>damage\<close> is an \<open>i32\<close>; a negative one adds nothing.\<close>

definition update_hate :: "u32 \<Rightarrow> int \<Rightarrow> hate_container \<Rightarrow> hate_container" where
  "update_hate a damage h =
     (let h' = add_base_hate a h
      in case hate_get a h' of
           None \<Rightarrow> h'
         | Some e \<Rightarrow>
             h'\<lparr>hc_entries := AList.update a
                  (e\<lparr>he_cumulative_enmity :=
                       u32_saturating_add (he_cumulative_enmity e) (word_of_int (max damage 0))\<rparr>)
                  (hc_entries h')\<rparr>)"

definition clear_hate :: "u32 option \<Rightarrow> hate_container \<Rightarrow> hate_container" where
  "clear_hate target_opt h =
     (case target_opt of
        Some a \<Rightarrow> h\<lparr>hc_entries := AList.delete a (hc_entries h)\<rparr>
      | None \<Rightarrow> h\<lparr>hc_entries := []\<rparr>)"

definition hate_set_active :: "u32 \<Rightarrow> bool \<Rightarrow> hate_container \<Rightarrow> hate_container" where
  "hate_set_active a active h =
     (case hate_get a h of
        None \<Rightarrow> h
      | Some e \<Rightarrow> h\<lparr>hc_entries := AList.update a (e\<lparr>he_is_active := active\<rparr>) (hc_entries h)\<rparr>)"

text \<open>
  The order of \<open>most_hated\<close>: the enmity first, and of two equal ones the lower id is the greater.
  \<open>max_by\<close> folds from the left and keeps the later of two equal elements.
\<close>

definition hate_greater :: "hate_entry \<Rightarrow> hate_entry \<Rightarrow> bool" where
  "hate_greater a b \<longleftrightarrow>
     he_cumulative_enmity b < he_cumulative_enmity a
     \<or> he_cumulative_enmity a = he_cumulative_enmity b \<and> he_actor_id a < he_actor_id b"

fun hate_max :: "hate_entry \<Rightarrow> hate_entry list \<Rightarrow> hate_entry" where
  "hate_max m [] = m"
| "hate_max m (e # es) = hate_max (if hate_greater m e then m else e) es"

definition most_hated :: "hate_container \<Rightarrow> u32 option" where
  "most_hated h =
     (case filter he_is_active (map snd (hc_entries h)) of
        [] \<Rightarrow> None
      | e # es \<Rightarrow> Some (he_actor_id (hate_max e es)))"

section \<open>Well-formedness: one entry per id, under its own id\<close>

definition hate_wf :: "hate_container \<Rightarrow> bool" where
  "hate_wf h \<longleftrightarrow> distinct (map fst (hc_entries h)) \<and> (\<forall>(a, e) \<in> set (hc_entries h). he_actor_id e = a)"

lemma hate_wfI:
  "distinct (map fst (hc_entries h)) \<Longrightarrow> (\<And>a e. (a, e) \<in> set (hc_entries h) \<Longrightarrow> he_actor_id e = a) \<Longrightarrow> hate_wf h"
  by (auto simp: hate_wf_def)

lemma hate_wfD: "hate_wf h \<Longrightarrow> hate_get a h = Some e \<Longrightarrow> he_actor_id e = a"
  by (auto simp: hate_wf_def hate_get_def dest: map_of_SomeD)

lemma hate_get_iff: "hate_wf h \<Longrightarrow> (a, e) \<in> set (hc_entries h) \<longleftrightarrow> hate_get a h = Some e"
  by (simp add: hate_wf_def hate_get_def)

lemma hate_get_update [simp]:
  "hate_get b (h\<lparr>hc_entries := AList.update a e (hc_entries h)\<rparr>) = (if b = a then Some e else hate_get b h)"
  by (simp add: hate_get_def update_conv')

lemma wf_update:
  assumes "hate_wf h" "he_actor_id e = a"
  shows "hate_wf (h\<lparr>hc_entries := AList.update a e (hc_entries h)\<rparr>)"
proof (rule hate_wfI)
  show "distinct (map fst (hc_entries (h\<lparr>hc_entries := AList.update a e (hc_entries h)\<rparr>)))"
    using assms by (simp add: hate_wf_def distinct_update)
  then have d: "distinct (map fst (AList.update a e (hc_entries h)))" by simp
  fix b x assume "(b, x) \<in> set (hc_entries (h\<lparr>hc_entries := AList.update a e (hc_entries h)\<rparr>))"
  then have "map_of (AList.update a e (hc_entries h)) b = Some x" using d by simp
  then show "he_actor_id x = b"
    using assms hate_wfD [OF assms(1)] by (auto simp: update_conv' hate_get_def split: if_splits)
qed

lemma hate_wf_new: "hate_wf (hate_new owner)"
  by (simp add: hate_wf_def hate_new_def)

lemma hate_wf_add_base: "hate_wf h \<Longrightarrow> hate_wf (add_base_hate a h)"
  by (auto simp: add_base_hate_def hate_entry_new_def intro!: wf_update split: option.split)

lemma hate_wf_update_hate: "hate_wf h \<Longrightarrow> hate_wf (update_hate a d h)"
  using hate_wf_add_base [of h a]
  by (auto simp: update_hate_def Let_def intro!: wf_update dest: hate_wfD split: option.split)

lemma hate_wf_clear: "hate_wf h \<Longrightarrow> hate_wf (clear_hate t h)"
proof (cases t)
  case (Some a)
  assume w: "hate_wf h"
  show ?thesis
  proof (rule hate_wfI)
    show "distinct (map fst (hc_entries (clear_hate t h)))"
      using w Some by (simp add: clear_hate_def hate_wf_def distinct_delete)
    fix b x assume "(b, x) \<in> set (hc_entries (clear_hate t h))"
    then have "(b, x) \<in> set (hc_entries h)"
      using Some by (auto simp: clear_hate_def AList.delete_eq)
    then show "he_actor_id x = b" using w by (auto simp: hate_wf_def)
  qed
qed (simp add: clear_hate_def hate_wf_def)

lemma hate_wf_set_active: "hate_wf h \<Longrightarrow> hate_wf (hate_set_active a b h)"
  by (auto simp: hate_set_active_def intro!: wf_update dest: hate_wfD split: option.split)

section \<open>What the operations do to an entry\<close>

lemma u32_saturating_add_min: "unat (u32_saturating_add a b) = min (2 ^ 32 - 1) (unat a + unat b)"
proof (cases "unat a + unat b < 2 ^ 32")
  case True
  then have "unat (a + b) = unat a + unat b" by (subst unat_add_lem [THEN iffD1]) simp_all
  then show ?thesis using True by (simp add: u32_saturating_add_def)
next
  case False
  moreover have "unat (0xFFFFFFFF :: u32) = 2 ^ 32 - 1" by simp
  ultimately show ?thesis by (simp add: u32_saturating_add_def)
qed

lemma update_hate_get:
  "hate_get b (update_hate a d h) =
     (if b = a
      then (let e = (case hate_get a h of Some e \<Rightarrow> e | None \<Rightarrow> hate_entry_new a)
            in Some (e\<lparr>he_cumulative_enmity :=
                 u32_saturating_add (he_cumulative_enmity e) (word_of_int (max d 0))\<rparr>))
      else hate_get b h)"
  by (auto simp: update_hate_def add_base_hate_def Let_def split: option.split)

text \<open>The enmity of a target after a list of hits on an empty tracker, as a number.\<close>

fun enmity_sum :: "u32 \<Rightarrow> (u32 \<times> int) list \<Rightarrow> nat" where
  "enmity_sum a [] = 0"
| "enmity_sum a ((b, d) # hits) = (if b = a then nat d else 0) + enmity_sum a hits"

lemma enmity_fold:
  assumes "\<forall>(b, d) \<in> set hits. i32_range d" "hate_get a h = Some e"
  shows "\<exists>e'. hate_get a (fold (\<lambda>(b, d). update_hate b d) hits h) = Some e'
    \<and> he_is_active e' = he_is_active e \<and> he_volatile_enmity e' = he_volatile_enmity e
    \<and> unat (he_cumulative_enmity e') = min (2 ^ 32 - 1) (unat (he_cumulative_enmity e) + enmity_sum a hits)"
  using assms
proof (induction hits arbitrary: h e)
  case Nil
  have "unat (he_cumulative_enmity e) < 2 ^ 32"
    using unsigned_less [of "he_cumulative_enmity e", where 'a = nat] by simp
  then show ?case using Nil by simp
next
  case (Cons hit hits)
  obtain b d where hit: "hit = (b, d)" by (cases hit)
  have d: "i32_range d" using Cons.prems(1) hit by simp
  have w: "unat (word_of_int (max d 0) :: u32) = nat d"
    using d by (simp add: unat_eq_nat_uint uint_word_of_int_eq take_bit_int_eq_self i32_range_def max_def)
  let ?e1 = "if b = a then e\<lparr>he_cumulative_enmity := u32_saturating_add (he_cumulative_enmity e) (word_of_int (max d 0))\<rparr> else e"
  have g: "hate_get a (update_hate b d h) = Some ?e1"
    using Cons.prems(2) by (auto simp: update_hate_get Let_def)
  have u: "unat (he_cumulative_enmity ?e1) =
      (if b = a then min (2 ^ 32 - 1) (unat (he_cumulative_enmity e) + nat d) else unat (he_cumulative_enmity e))"
    by (simp add: u32_saturating_add_min w)
  obtain e' where e': "hate_get a (fold (\<lambda>(b, d). update_hate b d) hits (update_hate b d h)) = Some e'"
      "he_is_active e' = he_is_active ?e1" "he_volatile_enmity e' = he_volatile_enmity ?e1"
      "unat (he_cumulative_enmity e') = min (2 ^ 32 - 1) (unat (he_cumulative_enmity ?e1) + enmity_sum a hits)"
    using Cons.IH [OF _ g] Cons.prems(1) by auto
  have "unat (he_cumulative_enmity e')
      = min (2 ^ 32 - 1) (unat (he_cumulative_enmity e) + enmity_sum a (hit # hits))"
    using e'(4) u hit by (auto simp: min_def)
  then show ?case using e' hit by (auto split: if_splits)
qed

section \<open>The most hated target\<close>

lemma hate_greater_trans: "hate_greater a b \<Longrightarrow> hate_greater b c \<Longrightarrow> hate_greater a c"
  by (auto simp: hate_greater_def)

lemma hate_greater_total: "he_actor_id a \<noteq> he_actor_id b \<Longrightarrow> hate_greater a b \<or> hate_greater b a"
  by (auto simp: hate_greater_def)

lemma hate_greater_asym: "hate_greater a b \<Longrightarrow> \<not> hate_greater b a"
  by (auto simp: hate_greater_def)

lemma hate_max_in: "hate_max m es \<in> insert m (set es)"
  by (induction es arbitrary: m) auto

lemma hate_max_not_less: "e \<in> insert m (set es) \<Longrightarrow> \<not> hate_greater e (hate_max m es)"
proof (induction es arbitrary: m e)
  case Nil
  then show ?case by (simp add: hate_greater_def)
next
  case (Cons x es)
  let ?m = "if hate_greater m x then m else x"
  have top: "\<not> hate_greater ?m (hate_max ?m es)" using Cons.IH by simp
  show ?case
  proof (cases "e \<in> insert ?m (set es)")
    case True
    then show ?thesis using Cons.IH by simp
  next
    case False
    then have "\<not> hate_greater e ?m" using Cons.prems by (auto simp: hate_greater_def)
    then have "\<not> hate_greater e (hate_max ?m es)"
      using top by (auto simp: hate_greater_def)
    then show ?thesis by simp
  qed
qed

text \<open>
  The choice: an active entry that no other active entry beats. With one entry per id it is the
  only one, so the iteration order of the map does not matter.
\<close>

lemma most_hated_some_iff:
  assumes w: "hate_wf h"
  shows "most_hated h = Some a \<longleftrightarrow>
    (\<exists>e. hate_get a h = Some e \<and> he_is_active e \<and>
         (\<forall>b f. hate_get b h = Some f \<longrightarrow> he_is_active f \<longrightarrow> b \<noteq> a \<longrightarrow> hate_greater e f))" (is "?l = ?r")
proof -
  let ?A = "filter he_is_active (map snd (hc_entries h))"
  have A: "f \<in> set ?A \<longleftrightarrow> hate_get (he_actor_id f) h = Some f \<and> he_is_active f" for f
    using w hate_get_iff [OF w] by (force simp: hate_wf_def)
  have max: "?A \<noteq> [] \<Longrightarrow> \<exists>m. most_hated h = Some (he_actor_id m) \<and> m \<in> set ?A \<and> (\<forall>f \<in> set ?A. \<not> hate_greater f m)"
  proof -
    assume "?A \<noteq> []"
    then obtain e es where e: "?A = e # es" by (meson neq_Nil_conv)
    have "hate_max e es \<in> set ?A" using hate_max_in [of e es] unfolding e by simp
    moreover have "\<forall>f \<in> set ?A. \<not> hate_greater f (hate_max e es)"
      using hate_max_not_less [of _ e es] unfolding e by simp
    ultimately show ?thesis using e by (auto simp: most_hated_def)
  qed
  show ?thesis
  proof
    assume l: ?l
    then have "?A \<noteq> []" by (auto simp: most_hated_def)
    then obtain m where m: "he_actor_id m = a" "m \<in> set ?A" "\<forall>f \<in> set ?A. \<not> hate_greater f m"
      using max l by auto
    have "hate_greater m f" if f: "hate_get b h = Some f" "he_is_active f" "b \<noteq> a" for b f
    proof -
      have "he_actor_id f = b" using hate_wfD [OF w f(1)] .
      then show ?thesis using m f A hate_greater_total [of m f] by auto
    qed
    then show ?r using m A by blast
  next
    assume ?r
    then obtain e where e: "hate_get a h = Some e" "he_is_active e"
        "\<And>b f. hate_get b h = Some f \<Longrightarrow> he_is_active f \<Longrightarrow> b \<noteq> a \<Longrightarrow> hate_greater e f"
      by blast
    have ea: "he_actor_id e = a" using hate_wfD [OF w e(1)] .
    then have "e \<in> set ?A" using A e by simp
    then have "?A \<noteq> []" by (metis list.set(1) empty_iff)
    then obtain m where m: "most_hated h = Some (he_actor_id m)" "m \<in> set ?A" "\<forall>f \<in> set ?A. \<not> hate_greater f m"
      using max by blast
    have "he_actor_id m = a" using e(3) [of "he_actor_id m" m] m \<open>e \<in> set ?A\<close> A by blast
    then show ?l using m by simp
  qed
qed

lemma most_hated_none_iff:
  assumes w: "hate_wf h"
  shows "most_hated h = None \<longleftrightarrow> (\<forall>a e. hate_get a h = Some e \<longrightarrow> \<not> he_is_active e)"
proof -
  have "most_hated h = None \<longleftrightarrow> filter he_is_active (map snd (hc_entries h)) = []"
    by (simp add: most_hated_def split: list.split)
  also have "\<dots> \<longleftrightarrow> (\<forall>p \<in> set (hc_entries h). \<not> he_is_active (snd p))"
    by (simp add: filter_empty_conv)
  also have "\<dots> \<longleftrightarrow> (\<forall>a e. (a, e) \<in> set (hc_entries h) \<longrightarrow> \<not> he_is_active e)"
    by force
  finally show ?thesis by (simp only: hate_get_iff [OF w])
qed

end
