(* ===== verification/BattleTick.thy ===== *)
theory BattleTick
  imports BattleAi Hate Zone
begin

text \<open>
  The part of the game ticker that drives one actor of a zone (\<open>runtime/ticker.rs\<close>): the zone as
  the arena of the AI (\<open>zone/zone.rs\<close>), the owner view, the AI pass with its movement intent, the
  movement step, what the dispatcher does to the actor's own enmity for the events of the AI
  (\<open>runtime/dispatcher.rs\<close>), and the housekeeping of rentals, of the rested bonus and of the dead.
\<close>

section \<open>The zone as an arena\<close>

definition stored_to_view :: "u32 \<Rightarrow> stored_actor \<Rightarrow> actor_view" where
  "stored_to_view zone_id a =
     \<lparr>av_actor_id = sa_actor_id a, av_position = sa_position a, av_rotation = 0, av_is_alive = sa_is_alive a,
      av_is_static = (sa_kind a = AkNpc),
      av_allegiance = (case sa_kind a of AkPlayer \<Rightarrow> 1 | AkNpc \<Rightarrow> 0 | AkOther \<Rightarrow> 0
        | AkBattleNpc \<Rightarrow> 2 | AkPet \<Rightarrow> 2 | AkAlly \<Rightarrow> 3),
      av_party_id = 0, av_zone_id = zone_id, av_is_updates_locked = False,
      av_is_player = (sa_kind a = AkPlayer), av_is_battle_npc = (sa_kind a = AkBattleNpc)\<rparr>"

text \<open>\<open>(check_distance / 50.0).ceil() as i32\<close>; the query itself clamps it to 0.\<close>

definition radius_in_cells :: "f32_bits \<Rightarrow> int" where
  "radius_in_cells r = f32_to_i32 (f32_ceil (f32_div r 0x42480000))"

text \<open>
  A lookup searches every area of the zone, in the iteration orders of its maps; the range query
  looks at the root area only.
\<close>

definition zone_arena :: "(u8 list \<times> u32) list \<Rightarrow> u8 list list \<Rightarrow> zone \<Rightarrow> arena" where
  "zone_arena pa_keys ca_names z =
     \<lparr>ar_get = (\<lambda>a. map_option (stored_to_view (ad_actor_id (z_core z))) (find_actor_in_zone pa_keys ca_names a z)),
      ar_around = (\<lambda>center r. map (stored_to_view (ad_actor_id (z_core z)))
        (actors_around center (radius_in_cells r) (z_core z)))\<rparr>"

section \<open>The actor\<close>

definition MAIN_STATE_PASSIVE :: u16 where "MAIN_STATE_PASSIVE = 0"
definition MAIN_STATE_DEAD :: u16 where "MAIN_STATE_DEAD = 1"
definition MAIN_STATE_ACTIVE :: u16 where "MAIN_STATE_ACTIVE = 2"
definition MAIN_STATE_MOUNTED :: u16 where "MAIN_STATE_MOUNTED = 0xF"

text \<open>
  The fields of a character the pass reads or writes. The reach, swing delay and speed are the
  results of the character's getters on its modifiers; hit points are \<open>i16\<close>.
\<close>

record fighter =
  fi_actor_id :: u32
  fi_position :: vector3
  fi_rotation :: f32_bits
  fi_main_state :: u16
  fi_hp :: int
  fi_max_hp :: int
  fi_tp :: int
  fi_attack_range :: f32_bits
  fi_attack_delay_ms :: u32
  fi_speed :: f32_bits
  fi_ai :: ai_container
  fi_hate :: hate_container

definition fi_is_alive :: "fighter \<Rightarrow> bool" where
  "fi_is_alive f \<longleftrightarrow> 0 < fi_hp f"

definition build_owner_view :: "u32 \<Rightarrow> fighter \<Rightarrow> owner_view" where
  "build_owner_view zone_id f =
     \<lparr>ov_actor = \<lparr>av_actor_id = fi_actor_id f, av_position = fi_position f, av_rotation = fi_rotation f,
        av_is_alive = fi_is_alive f, av_is_static = False,
        av_allegiance = (if ai_controller (fi_ai f) \<noteq> None then 2 else 1), av_party_id = 0,
        av_zone_id = zone_id, av_is_updates_locked = False, av_is_player = False, av_is_battle_npc = True\<rparr>,
      ov_is_engaged = is_engaged (fi_ai f), ov_is_spawned = True,
      ov_most_hated = most_hated (fi_hate f),
      ov_current_target = (case current_state (fi_ai f) of None \<Rightarrow> None
        | Some s \<Rightarrow> if bs_target s \<noteq> 0 then Some (bs_target s) else None),
      ov_has_prevent_movement = False, ov_is_close_to_spawn = True,
      ov_attack_delay_ms = fi_attack_delay_ms f, ov_attack_range = fi_attack_range f\<rparr>"

text \<open>The AI pass of \<open>tick_zone\<close>: a dead actor neither thinks nor walks.\<close>

definition tick_ai ::
  "atan2_fun \<Rightarrow> u64 \<Rightarrow> u32 \<Rightarrow> arena \<Rightarrow> fighter \<Rightarrow> fighter \<times> battle_event list \<times> movement_step option" where
  "tick_ai atan2 now zone_id ar f =
     (if fi_main_state f = MAIN_STATE_DEAD
      then (f\<lparr>fi_ai := (fi_ai f)\<lparr>ai_pending_movement := None\<rparr>\<rparr>, [], None)
      else let (a, ob) = ai_update atan2 now (build_owner_view zone_id f) ar (fi_ai f);
               move = (if can_change_state a then ai_pending_movement a else None)
           in (f\<lparr>fi_ai := a\<lparr>ai_pending_movement := None\<rparr>\<rparr>, ob, move))"

section \<open>Movement\<close>

definition look_at_rotation ::
  "atan2_fun \<Rightarrow> f32_bits \<Rightarrow> f32_bits \<Rightarrow> f32_bits \<Rightarrow> f32_bits \<Rightarrow> f32_bits" where
  "look_at_rotation atan2 owner_x owner_z x z =
     (if f32_eq owner_x x \<and> f32_eq owner_z z then 0
      else let d_x = f32_sub owner_x x; d_z = f32_sub owner_z z
           in f32_add (f32_sub f32_pi (atan2 d_z d_x)) f32_half_pi)"

text \<open>
  One step: the new fighter and, where a packet goes out, its position, rotation and move state;
  then the grid is told the position. \<open>0.1\<close> as \<open>f32\<close> is \<open>0x3DCCCCCD\<close>.
\<close>

record moved_packet =
  mp_position :: vector3
  mp_rotation :: f32_bits
  mp_move_state :: u16

definition step_position :: "fighter \<Rightarrow> vector3 \<Rightarrow> bool \<times> vector3" where
  "step_position f dest =
     (let pos = fi_position f;
          dx = f32_sub (v_x dest) (v_x pos); dz = f32_sub (v_z dest) (v_z pos);
          dist = f32_sqrt (f32_add (f32_mul dx dx) (f32_mul dz dz));
          step_len = f32_mul (fi_speed f) 0x3DCCCCCD;
          advance = f32_min step_len dist
      in (f32_le dist step_len,
          if f32_lt f32_epsilon dist
          then (let t = f32_div advance dist
                in \<lparr>v_x = f32_add (v_x pos) (f32_mul dx t),
                    v_y = f32_add (v_y pos) (f32_mul (f32_sub (v_y dest) (v_y pos)) t),
                    v_z = f32_add (v_z pos) (f32_mul dz t)\<rparr>)
          else pos))"

fun move_fighter :: "atan2_fun \<Rightarrow> movement_step \<Rightarrow> fighter \<Rightarrow> fighter \<times> moved_packet option \<times> vector3 option" where
  "move_fighter atan2 (StepFace p) f =
     (f\<lparr>fi_rotation := look_at_rotation atan2 (v_x (fi_position f)) (v_z (fi_position f)) (v_x p) (v_z p),
        fi_ai := (fi_ai f)\<lparr>ai_movement_step_count := 0\<rparr>\<rparr>, None, None)"
| "move_fighter atan2 (StepMoveTo dest) f =
     (let (arrived, p) = step_position f dest;
          rot = look_at_rotation atan2 (v_x (fi_position f)) (v_z (fi_position f)) (v_x dest) (v_z dest);
          step_count = ai_movement_step_count (fi_ai f) + 1;
          emit = (arrived \<or> step_count mod 3 = 1)
      in (f\<lparr>fi_position := p, fi_rotation := rot,
             fi_ai := (fi_ai f)\<lparr>ai_movement_step_count := (if arrived then 0 else step_count)\<rparr>\<rparr>,
          (if emit then Some \<lparr>mp_position = p, mp_rotation = rot, mp_move_state = (if arrived then 0 else 2)\<rparr> else None),
          Some p))"

definition apply_npc_movement_step ::
  "atan2_fun \<Rightarrow> movement_step \<Rightarrow> fighter \<Rightarrow> zone \<Rightarrow> fighter \<times> zone \<times> moved_packet option" where
  "apply_npc_movement_step atan2 step f z =
     (let (f1, packet, p) = move_fighter atan2 step f
      in (f1,
          (case p of None \<Rightarrow> z
           | Some pos \<Rightarrow> z\<lparr>z_core := fst (update_actor_position (fi_actor_id f) pos (z_core z))\<rparr>),
          packet))"

section \<open>Dispatch to the actor's own enmity\<close>

fun dispatch_hate :: "battle_event \<Rightarrow> fighter \<Rightarrow> fighter" where
  "dispatch_hate (BeEngage owner_id t) f = (if owner_id = fi_actor_id f then f\<lparr>fi_hate := update_hate t 1 (fi_hate f)\<rparr> else f)"
| "dispatch_hate (BeDisengage owner_id) f = (if owner_id = fi_actor_id f then f\<lparr>fi_hate := clear_hate None (fi_hate f)\<rparr> else f)"
| "dispatch_hate (BeHateAdd owner_id t n) f = (if owner_id = fi_actor_id f then f\<lparr>fi_hate := update_hate t n (fi_hate f)\<rparr> else f)"
| "dispatch_hate (BeHateClear owner_id t) f = (if owner_id = fi_actor_id f then f\<lparr>fi_hate := clear_hate t (fi_hate f)\<rparr> else f)"
| "dispatch_hate e f = f"

text \<open>One tick of one actor: the AI pass, the movement, and its own events dispatched.\<close>

definition tick_fighter ::
  "atan2_fun \<Rightarrow> u64 \<Rightarrow> u32 \<Rightarrow> arena \<Rightarrow> fighter \<Rightarrow> fighter \<times> battle_event list" where
  "tick_fighter atan2 now zone_id ar f =
     (let (f1, ob, move) = tick_ai atan2 now zone_id ar f;
          f2 = (case move of None \<Rightarrow> f1 | Some step \<Rightarrow> fst (move_fighter atan2 step f1))
      in (fold dispatch_hate ob f2, ob))"

section \<open>Regeneration out of combat\<close>

definition PASSIVE_MODE_HP_REGEN_PERCENT :: int where "PASSIVE_MODE_HP_REGEN_PERCENT = 2"
definition ACTIVE_MODE_HP_REGEN_PERCENT :: int where "ACTIVE_MODE_HP_REGEN_PERCENT = 1"
definition OUT_OF_COMBAT_TP_DECAY_PER_TICK :: int where "OUT_OF_COMBAT_TP_DECAY_PER_TICK = 90"

record passive_regen =
  pr_hp :: int
  pr_mp :: int
  pr_tp :: int

definition compute_passive_regen :: "fighter \<Rightarrow> passive_regen" where
  "compute_passive_regen f =
     (if fi_main_state f = MAIN_STATE_DEAD \<or> \<not> fi_is_alive f \<or> is_engaged (fi_ai f)
      then \<lparr>pr_hp = 0, pr_mp = 0, pr_tp = 0\<rparr>
      else let pct = (if fi_main_state f = MAIN_STATE_PASSIVE then PASSIVE_MODE_HP_REGEN_PERCENT
                      else ACTIVE_MODE_HP_REGEN_PERCENT)
           in \<lparr>pr_hp = (if fi_hp f < fi_max_hp f then max (i32_div (i32_wrap (fi_max_hp f * pct)) 100) 1 else 0),
               pr_mp = 0,
               pr_tp = (if fi_main_state f = MAIN_STATE_PASSIVE
                        then - min OUT_OF_COMBAT_TP_DECAY_PER_TICK (fi_tp f) else 0)\<rparr>)"

section \<open>Rentals and the rested bonus\<close>

definition INN_REST_INTERVAL_SECS :: u32 where "INN_REST_INTERVAL_SECS = 60"
definition INN_REST_BONUS_CAP :: int where "INN_REST_BONUS_CAP = 100"

record housekeeping =
  hk_main_state :: u16
  hk_new_main_state :: u16
  hk_mount_state :: u8
  hk_rental_expire_time :: u32
  hk_rental_min_left :: u8
  hk_rest_bonus_exp_rate :: int
  hk_last_rest_accrual_utc :: u32

text \<open>
  The tick's clock in seconds: \<open>now_ms\<close> counts from the start of the server
  (\<open>runtime/clock.rs\<close>).
\<close>

definition tick_utc :: "u64 \<Rightarrow> u32" where
  "tick_utc now = ucast (now div 1000)"

definition tick_rental :: "u64 \<Rightarrow> housekeeping \<Rightarrow> housekeeping" where
  "tick_rental now h =
     (if hk_rental_expire_time h = 0 then h
      else if hk_rental_expire_time h \<le> tick_utc now
      then h\<lparr>hk_rental_expire_time := 0, hk_rental_min_left := 0, hk_mount_state := 0,
             hk_main_state := MAIN_STATE_PASSIVE, hk_new_main_state := MAIN_STATE_PASSIVE\<rparr>
      else h\<lparr>hk_rental_min_left := ucast ((hk_rental_expire_time h - tick_utc now) div 60)\<rparr>)"

definition tick_rest :: "u64 \<Rightarrow> bool \<Rightarrow> housekeeping \<Rightarrow> housekeeping" where
  "tick_rest now zone_is_inn h =
     (if zone_is_inn \<and> hk_rest_bonus_exp_rate h < INN_REST_BONUS_CAP
      then (if hk_last_rest_accrual_utc h = 0 then h\<lparr>hk_last_rest_accrual_utc := tick_utc now\<rparr>
            else let elapsed = u32_saturating_sub (tick_utc now) (hk_last_rest_accrual_utc h);
                     earned = i32_wrap (uint (elapsed div INN_REST_INTERVAL_SECS))
                 in if 0 < earned
                    then h\<lparr>hk_rest_bonus_exp_rate :=
                             min (i32_wrap (hk_rest_bonus_exp_rate h + earned)) INN_REST_BONUS_CAP,
                           hk_last_rest_accrual_utc :=
                             u32_saturating_add (hk_last_rest_accrual_utc h)
                               (word_of_int earned * INN_REST_INTERVAL_SECS)\<rparr>
                    else h)
      else if \<not> zone_is_inn then h\<lparr>hk_last_rest_accrual_utc := 0\<rparr> else h)"

text \<open>\<open>apply_start_chocobo_rental\<close> (\<open>processor.rs\<close>) stamps the wall clock.\<close>

definition start_chocobo_rental :: "u32 \<Rightarrow> u8 \<Rightarrow> housekeeping \<Rightarrow> housekeeping" where
  "start_chocobo_rental unix_now minutes h =
     h\<lparr>hk_rental_expire_time := unix_now + ucast minutes * 60, hk_rental_min_left := minutes\<rparr>"

text \<open>\<open>rentchocobo\<close> and \<open>dismount\<close> of the console (\<open>command_processor.rs\<close>), for a player online.\<close>

definition rent_chocobo :: "u32 \<Rightarrow> u8 \<Rightarrow> housekeeping \<Rightarrow> housekeeping" where
  "rent_chocobo unix_now minutes h =
     h\<lparr>hk_rental_expire_time := unix_now + ucast minutes * 60, hk_rental_min_left := minutes,
        hk_mount_state := 1, hk_main_state := MAIN_STATE_MOUNTED, hk_new_main_state := MAIN_STATE_MOUNTED\<rparr>"

definition dismount :: "housekeeping \<Rightarrow> housekeeping" where
  "dismount h =
     h\<lparr>hk_mount_state := 0, hk_rental_expire_time := 0, hk_rental_min_left := 0,
        hk_main_state := MAIN_STATE_PASSIVE, hk_new_main_state := MAIN_STATE_PASSIVE\<rparr>"

section \<open>The dead\<close>

definition BNPC_DEFAULT_RESPAWN_SECS :: u32 where "BNPC_DEFAULT_RESPAWN_SECS = 30"
definition CORPSE_DESPAWN_SECS :: u32 where "CORPSE_DESPAWN_SECS = 10"

datatype death_tick_action = DtaNone | DtaAutoRevive | DtaRespawn | DtaDespawn

text \<open>\<open>raise > 0.0\<close> is read off the modifier map; the stamp of the death is wall-clock seconds.\<close>

definition death_action :: "u16 \<Rightarrow> u64 \<Rightarrow> bool \<Rightarrow> bool \<Rightarrow> u32 \<Rightarrow> u32 \<Rightarrow> death_tick_action" where
  "death_action main_state raise is_player respawn_disabled time_of_death unix_now =
     (if main_state \<noteq> MAIN_STATE_DEAD then DtaNone
      else if f64_lt 0 raise then DtaAutoRevive
      else if \<not> is_player \<and> \<not> respawn_disabled \<and> time_of_death \<noteq> 0
              \<and> u32_saturating_add time_of_death BNPC_DEFAULT_RESPAWN_SECS \<le> unix_now then DtaRespawn
      else if \<not> is_player \<and> respawn_disabled \<and> time_of_death \<noteq> 0
              \<and> u32_saturating_add time_of_death CORPSE_DESPAWN_SECS \<le> unix_now then DtaDespawn
      else DtaNone)"

end
