(* ===== verification/BattleLaws.thy ===== *)
theory BattleLaws
  imports BattleTick
begin

text \<open>
  Laws of the battle AI: which target an actor hates most after a history of hits; the shape of
  the state stack of every reachable container: at most one attack, depth at most four, nothing
  completed or interrupted left in it, so that a push is never refused for depth.
\<close>

section \<open>Enmity after a history of hits\<close>

definition hate_after :: "u32 \<Rightarrow> (u32 \<times> int) list \<Rightarrow> hate_container" where
  "hate_after owner_id hits = fold (\<lambda>(b, d). update_hate b d) hits (hate_new owner_id)"

definition enmity_of :: "(u32 \<times> int) list \<Rightarrow> u32 \<Rightarrow> nat" where
  "enmity_of hits a = min (2 ^ 32 - 1) (1 + enmity_sum a hits)"

lemma hate_wf_fold: "hate_wf h \<Longrightarrow> hate_wf (fold (\<lambda>(b, d). update_hate b d) hits h)"
  by (induction hits arbitrary: h) (auto simp: hate_wf_update_hate)

lemma hate_after_get:
  assumes "\<forall>(b, d) \<in> set hits. i32_range d"
  shows "hate_get a (hate_after owner_id hits) = None \<longleftrightarrow> a \<notin> fst ` set hits"
    and "hate_get a (hate_after owner_id hits) = Some e \<Longrightarrow>
      he_is_active e \<and> he_actor_id e = a \<and> unat (he_cumulative_enmity e) = enmity_of hits a"
proof -
  have gen: "(a \<notin> fst ` set hits \<longrightarrow> hate_get a (fold (\<lambda>(b, d). update_hate b d) hits h) = None)
      \<and> (a \<in> fst ` set hits \<longrightarrow> (\<exists>e. hate_get a (fold (\<lambda>(b, d). update_hate b d) hits h) = Some e
           \<and> he_is_active e \<and> unat (he_cumulative_enmity e) = enmity_of hits a))"
    if "hate_get a h = None" "\<forall>(b, d) \<in> set hits. i32_range d" for h
    using that
  proof (induction hits arbitrary: h)
    case Nil
    then show ?case by simp
  next
    case (Cons hit hits)
    obtain b d where hit: "hit = (b, d)" by (cases hit)
    show ?case
    proof (cases "b = a")
      case False
      then have "hate_get a (update_hate b d h) = None" using Cons.prems by (simp add: update_hate_get)
      then show ?thesis using Cons.IH [of "update_hate b d h"] Cons.prems hit False
        by (auto simp: enmity_of_def)
    next
      case True
      have d: "i32_range d" using Cons.prems hit by simp
      let ?e = "(hate_entry_new a)\<lparr>he_cumulative_enmity := u32_saturating_add 1 (word_of_int (max d 0))\<rparr>"
      have w: "unat (word_of_int (max d 0) :: u32) = nat d"
        using d by (simp add: unat_eq_nat_uint uint_word_of_int_eq take_bit_int_eq_self i32_range_def max_def)
      have g: "hate_get a (update_hate b d h) = Some ?e"
        using Cons.prems True by (simp add: update_hate_get hate_entry_new_def)
      have "\<forall>(b, d) \<in> set hits. i32_range d" using Cons.prems by simp
      from enmity_fold [OF this g] obtain e where
          e: "hate_get a (fold (\<lambda>(b, d). update_hate b d) hits (update_hate b d h)) = Some e"
          "he_is_active e = he_is_active ?e"
          "unat (he_cumulative_enmity e) = min (2 ^ 32 - 1) (unat (he_cumulative_enmity ?e) + enmity_sum a hits)"
        by blast
      have "unat (he_cumulative_enmity ?e) = min (2 ^ 32 - 1) (1 + nat d)"
        by (simp add: u32_saturating_add_min w)
      then have "unat (he_cumulative_enmity e) = enmity_of (hit # hits) a"
        using e(3) hit True by (auto simp: enmity_of_def min_def)
      then show ?thesis using e hit True by (simp add: hate_entry_new_def)
    qed
  qed
  have n: "hate_get a (hate_new owner_id) = None" by (simp add: hate_new_def hate_get_def)
  note g = gen [OF n assms]
  then show "hate_get a (hate_after owner_id hits) = None \<longleftrightarrow> a \<notin> fst ` set hits"
    by (auto simp: hate_after_def)
  assume s: "hate_get a (hate_after owner_id hits) = Some e"
  have "hate_wf (hate_after owner_id hits)"
    unfolding hate_after_def by (rule hate_wf_fold) (rule hate_wf_new)
  then have "he_actor_id e = a" using s hate_wfD by blast
  then show "he_is_active e \<and> he_actor_id e = a \<and> unat (he_cumulative_enmity e) = enmity_of hits a"
    using g s by (auto simp: hate_after_def)
qed

text \<open>
  C9: after any hits on a fresh tracker the most hated target is the one with the greatest
  saturated sum of one and its damages, and of two equal ones the lower id.
\<close>

theorem most_hated_after_hits:
  assumes r: "\<forall>(b, d) \<in> set hits. i32_range d"
  shows "most_hated (hate_after owner_id hits) = Some a \<longleftrightarrow>
    a \<in> fst ` set hits
    \<and> (\<forall>b \<in> fst ` set hits. b \<noteq> a \<longrightarrow>
         enmity_of hits b < enmity_of hits a \<or> enmity_of hits b = enmity_of hits a \<and> a < b)"
proof -
  let ?h = "hate_after owner_id hits"
  have wf: "hate_wf ?h" unfolding hate_after_def by (rule hate_wf_fold) (rule hate_wf_new)
  have ex: "b \<in> fst ` set hits \<longleftrightarrow> (\<exists>f. hate_get b ?h = Some f)" for b
    using hate_after_get(1) [OF r, of b owner_id] by auto
  have gr: "hate_greater e f \<longleftrightarrow> enmity_of hits b < enmity_of hits a \<or> enmity_of hits b = enmity_of hits a \<and> a < b"
    if "hate_get a ?h = Some e" "hate_get b ?h = Some f" for e f b
  proof -
    have "he_actor_id e = a" "he_actor_id f = b" "unat (he_cumulative_enmity e) = enmity_of hits a"
        "unat (he_cumulative_enmity f) = enmity_of hits b"
      using hate_after_get(2) [OF r that(1)] hate_after_get(2) [OF r that(2)] by simp_all
    then show ?thesis
      unfolding hate_greater_def word_less_nat_alt [of "he_cumulative_enmity f"]
        word_unat_eq_iff [of "he_cumulative_enmity e"] by auto
  qed
  have act: "he_is_active f" if "hate_get b ?h = Some f" for b f
    using hate_after_get(2) [OF r that] by simp
  show ?thesis
  proof
    assume "most_hated ?h = Some a"
    then obtain e where e: "hate_get a ?h = Some e"
        "\<And>b f. hate_get b ?h = Some f \<Longrightarrow> he_is_active f \<Longrightarrow> b \<noteq> a \<Longrightarrow> hate_greater e f"
      unfolding most_hated_some_iff [OF wf] by blast
    show "a \<in> fst ` set hits \<and> (\<forall>b \<in> fst ` set hits. b \<noteq> a \<longrightarrow>
         enmity_of hits b < enmity_of hits a \<or> enmity_of hits b = enmity_of hits a \<and> a < b)"
    proof (intro conjI ballI impI)
      show "a \<in> fst ` set hits" using ex e(1) by blast
      fix b assume "b \<in> fst ` set hits" "b \<noteq> a"
      then obtain f where "hate_get b ?h = Some f" using ex by blast
      then show "enmity_of hits b < enmity_of hits a \<or> enmity_of hits b = enmity_of hits a \<and> a < b"
        using e(2) act gr [OF e(1)] \<open>b \<noteq> a\<close> by blast
    qed
  next
    assume a: "a \<in> fst ` set hits \<and> (\<forall>b \<in> fst ` set hits. b \<noteq> a \<longrightarrow>
         enmity_of hits b < enmity_of hits a \<or> enmity_of hits b = enmity_of hits a \<and> a < b)"
    then obtain e where e: "hate_get a ?h = Some e" using ex by blast
    have "hate_greater e f" if "hate_get b ?h = Some f" "b \<noteq> a" for b f
      using a ex that gr [OF e that(1)] by blast
    then show "most_hated ?h = Some a"
      unfolding most_hated_some_iff [OF wf] using e act by blast
  qed
qed

theorem most_hated_after_hits_witness:
  "most_hated (hate_after 9 [(7, 5), (3, 5), (8, 2), (8, - 4)]) = Some 3"
  by (subst most_hated_after_hits) (auto simp: i32_range_def enmity_of_def)

section \<open>The state stack of a reachable container\<close>

definition busy :: "battle_state_kind \<Rightarrow> bool" where
  "busy k \<longleftrightarrow> k \<in> {BkMagic, BkAbility, BkWeaponSkill, BkItem}"

definition terminal :: "battle_state_kind \<Rightarrow> bool" where
  "terminal k \<longleftrightarrow> k \<in> {BkDeath, BkDespawn}"

text \<open>
  The kinds, top first: one attack at most, no busy state directly on a busy one, a terminal
  state only at the bottom, no lock.
\<close>

fun stack_shape :: "battle_state_kind list \<Rightarrow> bool" where
  "stack_shape [] \<longleftrightarrow> True"
| "stack_shape (k # ks) \<longleftrightarrow> stack_shape ks \<and>
     (if k = BkAttack then BkAttack \<notin> set ks
      else if busy k then (case ks of [] \<Rightarrow> True | j # _ \<Rightarrow> \<not> busy j)
      else terminal k \<and> ks = [])"

lemma busy_simps [simp]: "\<not> busy BkAttack" "\<not> terminal BkAttack"
  by (auto simp: busy_def terminal_def)

lemma shape_suffix: "stack_shape (xs @ ys) \<Longrightarrow> stack_shape ys"
  by (induction xs) auto

text \<open>Under a state that is no attack nothing is left, or it is busy with no busy state below.\<close>

lemma shape_two:
  assumes "stack_shape (x # y # ks)" "x \<noteq> BkAttack"
  shows "busy x \<and> \<not> busy y \<and> (y \<noteq> BkAttack \<longrightarrow> ks = [])"
proof -
  have x: "busy x" "\<not> busy y" using assms by (simp_all split: if_splits)
  moreover have "stack_shape (y # ks)" using assms(1) by simp
  ultimately show ?thesis by (simp split: if_splits)
qed

lemma shape_no_attack: "stack_shape ks \<Longrightarrow> BkAttack \<notin> set ks \<Longrightarrow> length ks \<le> 2"
proof (cases ks)
  case (Cons x js)
  then show "stack_shape ks \<Longrightarrow> BkAttack \<notin> set ks \<Longrightarrow> length ks \<le> 2"
    using shape_two by (cases js) force+
qed simp

lemma shape_length: "stack_shape ks \<Longrightarrow> length ks \<le> 4"
proof (cases "BkAttack \<in> set ks")
  case False
  then show "stack_shape ks \<Longrightarrow> length ks \<le> 4" using shape_no_attack by fastforce
next
  case True
  assume s: "stack_shape ks"
  obtain pre below where ks: "ks = pre @ BkAttack # below" "BkAttack \<notin> set pre"
    using split_list_first [OF True] by blast
  have b: "stack_shape (BkAttack # below)" using s ks shape_suffix by blast
  then have "length below \<le> 2" using shape_no_attack [of below] by simp
  moreover have "length pre \<le> 1"
  proof (cases pre)
    case (Cons x ys)
    show ?thesis
    proof (cases ys)
      case (Cons y zs)
      then have "stack_shape (x # y # zs @ BkAttack # below)" "x \<noteq> BkAttack" "y \<noteq> BkAttack"
        using s ks \<open>pre = x # ys\<close> by auto
      then show ?thesis using shape_two by blast
    qed (use Cons in simp)
  qed simp
  ultimately show ?thesis using ks by simp
qed

fun body_fits :: "battle_state_kind \<Rightarrow> battle_state_body \<Rightarrow> bool" where
  "body_fits k (BbAttack t) \<longleftrightarrow> k = BkAttack"
| "body_fits k (BbMagic c t st) \<longleftrightarrow> k = BkMagic"
| "body_fits k (BbAbility c t) \<longleftrightarrow> k = BkAbility"
| "body_fits k (BbWeaponSkill c t) \<longleftrightarrow> k = BkWeaponSkill"
| "body_fits k (BbItem i t) \<longleftrightarrow> k = BkItem"
| "body_fits k (BbDeath t) \<longleftrightarrow> k = BkDeath"
| "body_fits k (BbDespawn t) \<longleftrightarrow> k = BkDespawn"
| "body_fits k (BbInactive t) \<longleftrightarrow> k = BkInactive"

lemma fits_attack: "body_fits BkAttack b \<longleftrightarrow> (\<exists>t. b = BbAttack t)"
  by (cases b) auto

definition state_ok :: "battle_state \<Rightarrow> bool" where
  "state_ok s \<longleftrightarrow> \<not> bs_is_completed s \<and> \<not> bs_interrupt s \<and> body_fits (bs_kind s) (bs_body s)"

definition stack_ok :: "battle_state list \<Rightarrow> bool" where
  "stack_ok ss \<longleftrightarrow> stack_shape (map bs_kind ss) \<and> (\<forall>s \<in> set ss. state_ok s)"

named_theorems state_defs

lemmas state_constructors [state_defs] =
  state_attack_def state_magic_def state_ability_def state_weapon_skill_def state_item_def
  state_death_def state_despawn_def make_state_def

lemma new_state_ok [simp]:
  "state_ok (state_attack o1 t now d)" "state_ok (state_magic o1 t c now)" "state_ok (state_ability o1 t c now)"
  "state_ok (state_weapon_skill o1 t c now)" "state_ok (state_item o1 t i d now)"
  "state_ok (state_death o1 now n)" "state_ok (state_despawn o1 now n)"
  by (simp_all add: state_ok_def state_defs)

lemma new_state_kind [simp]:
  "bs_kind (state_attack o1 t now d) = BkAttack" "bs_kind (state_magic o1 t c now) = BkMagic"
  "bs_kind (state_ability o1 t c now) = BkAbility" "bs_kind (state_weapon_skill o1 t c now) = BkWeaponSkill"
  "bs_kind (state_item o1 t i d now) = BkItem" "bs_kind (state_death o1 now n) = BkDeath"
  "bs_kind (state_despawn o1 now n) = BkDespawn"
  by (simp_all add: state_defs)

lemma stack_ok_Nil [simp]: "stack_ok []"
  by (simp add: stack_ok_def)

lemma stack_ok_suffix: "stack_ok (xs @ ys) \<Longrightarrow> stack_ok ys"
  using shape_suffix [of "map bs_kind xs"] by (auto simp: stack_ok_def)

lemma stack_ok_dropWhile: "stack_ok ss \<Longrightarrow> stack_ok (dropWhile P ss)"
  using stack_ok_suffix [of "takeWhile P ss"] by simp

lemma stack_ok_length: "stack_ok ss \<Longrightarrow> length ss \<le> 4"
  using shape_length [of "map bs_kind ss"] by (simp add: stack_ok_def)

lemma stack_ok_no_completed: "stack_ok ss \<Longrightarrow> dropWhile bs_is_completed ss = ss"
  by (cases ss) (auto simp: stack_ok_def state_ok_def)

text \<open>The three pushes that happen.\<close>

lemma force_push:
  "stack_ok (ai_states a) \<Longrightarrow> force_change_state s a = (True, a\<lparr>ai_states := s # ai_states a\<rparr>)"
  using stack_ok_length [of "ai_states a"] stack_ok_no_completed [of "ai_states a"]
  by (simp add: force_change_state_def check_completed_states_def MAX_STATE_STACK_def Let_def)

lemma change_push:
  "stack_ok (ai_states a) \<Longrightarrow>
     change_state s a = (if can_change_state a then (True, a\<lparr>ai_states := s # ai_states a\<rparr>) else (False, a))"
  using stack_ok_length [of "ai_states a"] stack_ok_no_completed [of "ai_states a"]
  by (simp add: change_state_def check_completed_states_def MAX_STATE_STACK_def Let_def)

lemma can_change_not_busy:
  "can_change_state a \<Longrightarrow> (case map bs_kind (ai_states a) of [] \<Rightarrow> True | j # _ \<Rightarrow> \<not> busy j)"
  by (cases "ai_states a") (auto simp: can_change_state_def current_state_def state_can_change_def busy_def)

lemma push_busy_ok:
  "stack_ok (ai_states a) \<Longrightarrow> busy (bs_kind s) \<Longrightarrow> state_ok s \<Longrightarrow> stack_ok (ai_states (snd (change_state s a)))"
  using can_change_not_busy [of a] by (auto simp: change_push stack_ok_def)

lemma engage_ok: "stack_ok (ai_states a) \<Longrightarrow> stack_ok (ai_states (snd (internal_engage t now d a)))"
  by (auto simp: internal_engage_def force_push stack_ok_def is_engaged_def)

lemma casts_ok:
  assumes "stack_ok (ai_states a)"
  shows "stack_ok (ai_states (snd (internal_cast t c now a)))"
    and "stack_ok (ai_states (snd (internal_ability t c now a)))"
    and "stack_ok (ai_states (snd (internal_weapon_skill t c now a)))"
    and "stack_ok (ai_states (snd (internal_use_item t i d now a)))"
  using push_busy_ok [OF assms]
  by (simp_all add: internal_cast_def internal_ability_def internal_weapon_skill_def internal_use_item_def busy_def)

lemma die_ok:
  "stack_ok (ai_states (fst (internal_die now n a)))" "stack_ok (ai_states (fst (internal_despawn now n a)))"
  by (simp_all add: internal_die_def internal_despawn_def force_push clear_states_def stack_ok_def terminal_def busy_def)

lemma retarget_simps [simp]:
  "bs_kind (retarget t s) = bs_kind s" "bs_body (retarget t s) = bs_body s" "state_ok (retarget t s) = state_ok s"
  by (simp_all add: retarget_def state_ok_def)

lemma stack_ok_retarget: "stack_ok ss \<Longrightarrow> stack_ok (map (retarget t) ss)"
  by (simp add: stack_ok_def comp_def)

lemma schedule_simps [simp]: "bs_kind (schedule_next_swing now d s) = bs_kind s"
  by (simp add: schedule_next_swing_def split: battle_state_body.split)

lemma schedule_ok: "state_ok s \<Longrightarrow> state_ok (schedule_next_swing now d s)"
  by (cases "bs_body s") (auto simp: state_ok_def schedule_next_swing_def)

text \<open>
  The loop over a sound stack: the states that are due leave with their events, and the first one
  that is not due is the new top, its swing clock re-armed where a swing was ready.
\<close>

lemma completion_events_completed [simp]: "completion_events o1 (s\<lparr>bs_is_completed := True\<rparr>) = completion_events o1 s"
  by (cases "state_command (bs_body s)") (simp_all add: completion_events_def is_casting_def)

definition after_due ::
  "u32 \<Rightarrow> swing_gate \<Rightarrow> arena \<Rightarrow> u64 \<Rightarrow> battle_state list \<Rightarrow> battle_event list \<Rightarrow> battle_state list \<times> battle_event list" where
  "after_due o1 g ar now rest ob =
     (case rest of
        [] \<Rightarrow> ([], ob)
      | s # r \<Rightarrow> if bs_kind s = BkAttack \<and> is_attack_ready now s
                then (schedule_next_swing now (sg_delay g) s # r, ob @ swing_events o1 g ar (bs_target s))
                else (s # r, ob))"

lemma after_due_append:
  "after_due o1 g ar now rest (xs @ ob) =
     (fst (after_due o1 g ar now rest ob), xs @ snd (after_due o1 g ar now rest ob))"
  by (cases rest) (simp_all add: after_due_def)

abbreviation due_at :: "u64 \<Rightarrow> battle_state \<Rightarrow> bool" where
  "due_at now \<equiv> (\<lambda>s. state_due now (bs_body s))"

lemma run_states_eq:
  "\<forall>s \<in> set ss. state_ok s \<Longrightarrow>
    run_states o1 g ar now ss =
      after_due o1 g ar now (dropWhile (due_at now) ss) (concat (map (completion_events o1) (takeWhile (due_at now) ss)))"
proof (induction ss)
  case (Cons s rest)
  have s: "\<not> bs_interrupt s" using Cons.prems by (simp add: state_ok_def)
  show ?case
  proof (cases "state_due now (bs_body s)")
    case True
    have "run_states o1 g ar now (s # rest)
        = (fst (run_states o1 g ar now rest), completion_events o1 s @ snd (run_states o1 g ar now rest))"
      using True s by (simp add: state_update_def split: prod.split)
    moreover have "\<forall>x \<in> set rest. state_ok x" using Cons.prems by simp
    ultimately show ?thesis using True Cons.IH
      by (simp only: after_due_append dropWhile.simps takeWhile.simps list.map concat.simps if_True simp_thms)
  next
    case False
    then show ?thesis using s by (simp add: state_update_def after_due_def)
  qed
qed (simp add: after_due_def)

lemma after_due_ok: "stack_ok rest \<Longrightarrow> stack_ok (fst (after_due o1 g ar now rest ob))"
  by (cases rest) (auto simp: after_due_def stack_ok_def schedule_ok)

lemma run_states_ok: "stack_ok ss \<Longrightarrow> stack_ok (fst (run_states o1 g ar now ss))"
  using run_states_eq [of ss] after_due_ok stack_ok_dropWhile by (simp add: stack_ok_def [of ss])

lemma cast_decision_cases:
  "apply_decision (CdCast t) now d a = (a, [])
   \<or> (\<exists>c. fst (internal_cast t c now a) \<and> ai_states (fst (apply_decision (CdCast t) now d a)) = ai_states (snd (internal_cast t c now a))
        \<and> ai_owner (fst (apply_decision (CdCast t) now d a)) = ai_owner (snd (internal_cast t c now a))
        \<and> snd (apply_decision (CdCast t) now d a)
            = [BeCastStart (ai_owner a) t (bc_id c) (bc_cast_time_ms c) (bc_cast_type c)])"
proof (cases "is_current BkMagic a \<or> Option.bind (ai_controller a) (\<lambda>c. nc_spell (ct_battle c)) = None")
  case True
  then show ?thesis by auto
next
  case False
  then obtain c where c: "Option.bind (ai_controller a) (\<lambda>c. nc_spell (ct_battle c)) = Some c" by auto
  obtain ok a1 where i: "internal_cast t c now a = (ok, a1)" by fastforce
  have "\<not> ok \<Longrightarrow> a1 = a" using i by (auto simp: internal_cast_def change_state_def Let_def split: if_splits)
  then show ?thesis using False c i by (cases ok) (auto intro!: exI [of _ c])
qed

lemma apply_decision_ok: "stack_ok (ai_states a) \<Longrightarrow> stack_ok (ai_states (fst (apply_decision x now d a)))"
proof (cases x)
  case (CdCast t)
  assume a: "stack_ok (ai_states a)"
  show ?thesis unfolding CdCast using cast_decision_cases [of t now d a] casts_ok(1) [OF a] a by force
qed (auto simp: engage_ok stack_ok_retarget split: option.split)

lemma decide_states [simp]: "ai_states (snd (decide atan2 now owner ar a)) = ai_states a"
    "ai_owner (snd (decide atan2 now owner ar a)) = ai_owner a"
  by (auto simp: decide_def split: option.split prod.split)

lemma ai_update_ok: "stack_ok (ai_states a) \<Longrightarrow> stack_ok (ai_states (fst (ai_update atan2 now owner ar a)))"
proof -
  assume a: "stack_ok (ai_states a)"
  define a0 where "a0 = a\<lparr>ai_prev_update_ms := ai_latest_update_ms a, ai_latest_update_ms := now, ai_pending_movement := None\<rparr>"
  obtain d a1 where d: "decide atan2 now owner ar a0 = (d, a1)" by fastforce
  have "stack_ok (ai_states a1)" 
  proof -
    have "ai_states a1 = ai_states a0" using decide_states(1) [of atan2 now owner ar a0] d by (metis snd_conv)
    then show ?thesis using a by (simp add: a0_def)
  qed
  then have "stack_ok (ai_states (fst (case d of None \<Rightarrow> (a1, []) | Some x \<Rightarrow> apply_decision x now (ov_attack_delay_ms owner) a1)))"
    by (simp add: apply_decision_ok split: option.split)
  then show ?thesis using d run_states_ok
    by (auto simp: ai_update_def Let_def a0_def [symmetric] split: prod.split) (metis fst_conv)
qed


section \<open>Reachable containers\<close>

text \<open>
  One step of a container: an operation of \<open>ai_container.rs\<close>, or a write of code outside it to the
  public fields (controller, path, queue, movement), which leaves the stack and the owner alone.
\<close>

inductive ai_step :: "ai_container \<Rightarrow> battle_event list \<Rightarrow> ai_container \<Rightarrow> bool" where
  step_engage: "ai_step a [] (snd (internal_engage t now d a))"
| step_cast: "ai_step a [] (snd (internal_cast t c now a))"
| step_ability: "ai_step a [] (snd (internal_ability t c now a))"
| step_weapon_skill: "ai_step a [] (snd (internal_weapon_skill t c now a))"
| step_item: "ai_step a [] (snd (internal_use_item t i cast_time now a))"
| step_disengage: "ai_step a (snd (internal_disengage a)) (fst (internal_disengage a))"
| step_die: "ai_step a (snd (internal_die now n a)) (fst (internal_die now n a))"
| step_despawn: "ai_step a (snd (internal_despawn now n a)) (fst (internal_despawn now n a))"
| step_interrupt: "ai_step a [] (interrupt_states a)"
| step_check: "ai_step a [] (check_completed_states a)"
| step_clear: "ai_step a [] (clear_states a)"
| step_reset: "ai_step a [] (ai_reset a)"
| step_update: "ai_step a (snd (ai_update atan2 now owner ar a)) (fst (ai_update atan2 now owner ar a))"
| step_other: "ai_states a' = ai_states a \<Longrightarrow> ai_owner a' = ai_owner a \<Longrightarrow> ai_step a [] a'"

inductive ai_reachable :: "ai_container \<Rightarrow> bool" where
  reach_new: "ai_reachable (ai_new owner_id c p)"
| reach_step: "ai_reachable a \<Longrightarrow> ai_step a ob a' \<Longrightarrow> ai_reachable a'"

lemma ai_step_ok: "ai_step a ob a' \<Longrightarrow> stack_ok (ai_states a) \<Longrightarrow> stack_ok (ai_states a')"
  by (induction rule: ai_step.induct)
    (auto simp: engage_ok casts_ok die_ok ai_update_ok stack_ok_dropWhile internal_disengage_def clear_states_def
      interrupt_states_def check_completed_states_def ai_reset_def clear_path_def)

lemma reachable_ok: "ai_reachable a \<Longrightarrow> stack_ok (ai_states a)"
  by (induction rule: ai_reachable.induct) (auto simp: ai_new_def ai_step_ok)

text \<open>
  C10: whatever is done to a container, its stack is at most four deep (the cap is ten), holds at
  most one attack, death or despawn only at the bottom, and no completed state; so an engagement
  is refused only to an engaged actor, and a cast only by the state on top.
\<close>

theorem ai_stack_bounded:
  assumes "ai_reachable a"
  shows "stack_shape (map bs_kind (ai_states a)) \<and> length (ai_states a) \<le> 4
    \<and> (\<forall>s \<in> set (ai_states a). \<not> bs_is_completed s)
    \<and> fst (internal_engage t now d a) = (\<not> is_engaged a)
    \<and> fst (internal_cast t c now a) = can_change_state a"
proof -
  have ok: "stack_ok (ai_states a)" using assms by (rule reachable_ok)
  then show ?thesis
    using stack_ok_length [OF ok] force_push [OF ok] change_push [OF ok]
    by (auto simp: stack_ok_def state_ok_def internal_engage_def internal_cast_def)
qed

definition demo_spell :: battle_command where
  "demo_spell = \<lparr>bc_id = 27313, bc_main_target = VT_ENEMY, bc_num_hits = 1, bc_range = 0x41A00000,
     bc_status_id = 0, bc_status_chance = 0, bc_cast_type = 2, bc_cast_time_ms = 2000,
     bc_recast_time_ms = 6000, bc_mp_cost = 10, bc_tp_cost = 0, bc_world_master_text_id = 0,
     bc_combo_next_command_id = (0, 0), bc_combo_step = 0, bc_is_combo = False,
     bc_combo_effect_added = False, bc_command_type = CT_SPELL, bc_action_property = ApFire,
     bc_action_type = AtMagic, bc_enmity_modifier = 0x3F800000, bc_accuracy_modifier = 0,
     bc_bonus_crit_rate = 0, bc_base_potency = 100, bc_max_recast_time_seconds = 6,
     bc_battle_animation = 0\<rparr>"

text \<open>A dead actor casts, engages over the cast, and casts again: the deepest stack.\<close>

definition deep_stack :: ai_container where
  "deep_stack =
     snd (internal_cast 2 demo_spell 300 (snd (internal_engage 2 200 2500
       (snd (internal_cast 2 demo_spell 100 (fst (internal_die 0 5000 (ai_new 1 None None))))))))"

lemma deep_stack_reachable: "ai_reachable deep_stack"
  unfolding deep_stack_def by (intro reach_step [OF _ step_cast] reach_step [OF _ step_engage] reach_step [OF _ step_die] reach_new)

lemma deep_stack_kinds: "map bs_kind (ai_states deep_stack) = [BkMagic, BkAttack, BkMagic, BkDeath]"
  by (simp add: deep_stack_def internal_cast_def internal_engage_def internal_die_def clear_states_def clear_path_def
      force_change_state_def change_state_def check_completed_states_def can_change_state_def current_state_def
      is_engaged_def state_can_change_def state_defs ai_new_def MAX_STATE_STACK_def)

theorem ai_stack_bounded_witness:
  "length (ai_states deep_stack) \<le> 4 \<and> map bs_kind (ai_states deep_stack) = [BkMagic, BkAttack, BkMagic, BkDeath]
   \<and> \<not> fst (internal_engage 5 9 2500 deep_stack)"
proof -
  have "is_engaged deep_stack" using deep_stack_kinds by (auto simp: is_engaged_def)
  then show ?thesis
    using ai_stack_bounded [OF deep_stack_reachable, of 5 9 2500 demo_spell] deep_stack_kinds by simp
qed

end
