(* ===== verification/BattleRuns.thy ===== *)
theory BattleRuns
  imports BattleLaws
begin

text \<open>
  Laws of runs of the battle AI: swings at least half a second apart, a cast under a later attack
  that no update ever resolves.
\<close>

section \<open>Updates\<close>

record tick_input =
  ti_now :: u64
  ti_owner :: owner_view
  ti_arena :: arena

fun run_updates :: "atan2_fun \<Rightarrow> tick_input list \<Rightarrow> ai_container \<Rightarrow> ai_container \<times> battle_event list" where
  "run_updates atan2 [] a = (a, [])"
| "run_updates atan2 (x # xs) a =
     (let (a1, ob1) = ai_update atan2 (ti_now x) (ti_owner x) (ti_arena x) a;
          (a2, ob2) = run_updates atan2 xs a1
      in (a2, ob1 @ ob2))"

text \<open>An update is a decision on the stack, then the loop over it, then the queue.\<close>

definition decided ::
  "atan2_fun \<Rightarrow> u64 \<Rightarrow> owner_view \<Rightarrow> arena \<Rightarrow> ai_container \<Rightarrow> ai_container \<times> battle_event list" where
  "decided atan2 now owner ar a =
     (let (d, a1) = decide atan2 now owner ar
            (a\<lparr>ai_prev_update_ms := ai_latest_update_ms a, ai_latest_update_ms := now, ai_pending_movement := None\<rparr>)
      in case d of None \<Rightarrow> (a1, []) | Some x \<Rightarrow> apply_decision x now (ov_attack_delay_ms owner) a1)"

lemma ai_update_eq:
  "ai_update atan2 now owner ar a =
     (let (a2, ob1) = decided atan2 now owner ar a;
          (stack, ob2) = run_states (ai_owner a2) (swing_gate_of owner a2) ar now (ai_states a2);
          (due, later) = drain_due now (ai_action_queue a2)
      in (a2\<lparr>ai_states := stack, ai_action_queue := later\<rparr>, ob1 @ ob2 @ action_events (ai_owner a2) due))"
  by (simp add: ai_update_def decided_def Let_def split: prod.split)

lemma engaged_stays: "is_engaged a \<Longrightarrow> internal_engage t now d a = (False, a)"
  by (simp add: internal_engage_def)

text \<open>What a decision does to the stack: one attack or one cast on top, or attacks retargeted.\<close>

lemma apply_decision_stack:
  assumes "stack_ok (ai_states a)"
  shows "ai_owner (fst (apply_decision x now d a)) = ai_owner a \<and>
    (ai_states (fst (apply_decision x now d a)) = ai_states a
     \<or> (\<not> is_engaged a \<and> (\<exists>t. ai_states (fst (apply_decision x now d a)) = state_attack (ai_owner a) t now d # ai_states a))
     \<or> (\<exists>t c. ai_states (fst (apply_decision x now d a)) = state_magic (ai_owner a) t c now # ai_states a)
     \<or> (\<exists>t. ai_states (fst (apply_decision x now d a)) = map (retarget t) (ai_states a)))"
proof (cases x)
  case (CdCast t)
  then show ?thesis
    using cast_decision_cases [of t now d a] change_push [OF assms]
    by (auto simp: internal_cast_def split: if_splits)
next
  case (CdEngage t)
  then show ?thesis using force_push [OF assms] by (auto simp: internal_engage_def)
qed (auto split: option.split)

lemma apply_decision_no_swing: "BeResolveAutoAttack p q \<notin> set (snd (apply_decision x now d a))"
proof (cases x)
  case (CdCast t)
  then show ?thesis using cast_decision_cases [of t now d a] by auto
qed auto

definition stack_change :: "ai_container \<Rightarrow> battle_state list \<Rightarrow> bool" where
  "stack_change a ss \<longleftrightarrow> ss = ai_states a
     \<or> \<not> is_engaged a \<and> (\<exists>s. bs_kind s = BkAttack \<and> ss = s # ai_states a)
     \<or> (\<exists>s. bs_kind s = BkMagic \<and> ss = s # ai_states a)
     \<or> (\<exists>t. ss = map (retarget t) (ai_states a))"

lemma stack_change_cases [consumes 1, case_names same attack magic retarget]:
  assumes "stack_change a ss"
  obtains "ss = ai_states a"
    | s where "\<not> is_engaged a" "bs_kind s = BkAttack" "ss = s # ai_states a"
    | s where "bs_kind s = BkMagic" "ss = s # ai_states a"
    | t where "ss = map (retarget t) (ai_states a)"
  using assms unfolding stack_change_def by blast

lemma apply_decision_change:
  assumes "stack_ok (ai_states a)"
  shows "stack_change a (ai_states (fst (apply_decision x now d a)))"
proof -
  have "ai_states (fst (apply_decision x now d a)) = ai_states a
     \<or> \<not> is_engaged a \<and> (\<exists>t. ai_states (fst (apply_decision x now d a)) = state_attack (ai_owner a) t now d # ai_states a)
     \<or> (\<exists>t c. ai_states (fst (apply_decision x now d a)) = state_magic (ai_owner a) t c now # ai_states a)
     \<or> (\<exists>t. ai_states (fst (apply_decision x now d a)) = map (retarget t) (ai_states a))"
    using apply_decision_stack [OF assms, of x now d] by blast
  then show ?thesis unfolding stack_change_def
    using new_state_kind(1,2) by metis
qed

lemma decided_stack:
  assumes "stack_ok (ai_states a)"
  shows "stack_ok (ai_states (fst (decided atan2 now owner ar a)))"
    and "ai_owner (fst (decided atan2 now owner ar a)) = ai_owner a"
    and "stack_change a (ai_states (fst (decided atan2 now owner ar a)))"
    and "BeResolveAutoAttack p q \<notin> set (snd (decided atan2 now owner ar a))"
proof -
  define a0 where "a0 = a\<lparr>ai_prev_update_ms := ai_latest_update_ms a, ai_latest_update_ms := now, ai_pending_movement := None\<rparr>"
  obtain d a1 where d: "decide atan2 now owner ar a0 = (d, a1)" by fastforce
  have a1: "ai_states a1 = ai_states a" "ai_owner a1 = ai_owner a"
    using decide_states [of atan2 now owner ar a0] unfolding d by (simp_all add: a0_def)
  have ok: "stack_ok (ai_states a1)" using a1 assms by simp
  have ch: "stack_change a1 = stack_change a" using a1 by (simp add: fun_eq_iff stack_change_def is_engaged_def)
  have eq: "decided atan2 now owner ar a =
      (case d of None \<Rightarrow> (a1, []) | Some x \<Rightarrow> apply_decision x now (ov_attack_delay_ms owner) a1)"
    using d by (simp add: decided_def a0_def)
  show "stack_ok (ai_states (fst (decided atan2 now owner ar a)))"
    unfolding eq using ok apply_decision_ok by (auto split: option.split)
  show "ai_owner (fst (decided atan2 now owner ar a)) = ai_owner a"
    unfolding eq using apply_decision_stack [OF ok] a1 by (auto split: option.split)
  show "BeResolveAutoAttack p q \<notin> set (snd (decided atan2 now owner ar a))"
    unfolding eq using apply_decision_no_swing by (auto split: option.split)
  have "stack_change a1 (ai_states a1)" by (simp add: stack_change_def)
  then show "stack_change a (ai_states (fst (decided atan2 now owner ar a)))"
    unfolding eq ch [symmetric] using apply_decision_change [OF ok] by (auto split: option.split)
qed

lemma update_parts:
  assumes "stack_ok (ai_states a)"
  obtains ss g where
    "stack_change a ss" "stack_ok ss" "sg_delay g = max (ov_attack_delay_ms owner) 500"
    "ai_states (fst (ai_update atan2 now owner ar a)) = fst (run_states (ai_owner a) g ar now ss)"
    "\<And>p q. BeResolveAutoAttack p q \<in> set (snd (ai_update atan2 now owner ar a))
       \<longleftrightarrow> BeResolveAutoAttack p q \<in> set (snd (run_states (ai_owner a) g ar now ss))"
    "ai_owner (fst (ai_update atan2 now owner ar a)) = ai_owner a"
proof -
  obtain a2 ob1 where d: "decided atan2 now owner ar a = (a2, ob1)" by fastforce
  have parts: "stack_ok (ai_states a2)" "ai_owner a2 = ai_owner a" "stack_change a (ai_states a2)"
      "\<And>p q. BeResolveAutoAttack p q \<notin> set ob1"
    using decided_stack [OF assms] d by (metis fst_conv snd_conv)+
  obtain stack ob2 where rs: "run_states (ai_owner a) (swing_gate_of owner a2) ar now (ai_states a2) = (stack, ob2)"
    by fastforce
  obtain due later where dr: "drain_due now (ai_action_queue a2) = (due, later)" by fastforce
  have eq: "ai_update atan2 now owner ar a
      = (a2\<lparr>ai_states := stack, ai_action_queue := later\<rparr>, ob1 @ ob2 @ action_events (ai_owner a) due)"
    using d rs dr parts(2) by (simp add: ai_update_eq)
  have acts: "BeResolveAutoAttack p q \<notin> set (action_events w due)" for p q w due
    by (auto simp: action_events_def)
  show ?thesis
    by (rule that [of "ai_states a2" "swing_gate_of owner a2"])
      (use parts eq rs acts in \<open>simp_all add: swing_gate_of_def\<close>)
qed

section \<open>Swings\<close>

definition armed :: "u64 \<Rightarrow> battle_state list \<Rightarrow> bool" where
  "armed t0 ss \<longleftrightarrow> (\<exists>s \<in> set ss. bs_kind s = BkAttack)
     \<and> (\<forall>s \<in> set ss. bs_kind s = BkAttack \<longrightarrow> (\<exists>t. bs_body s = BbAttack t \<and> t0 \<le> t))"

lemma attack_not_due: "state_ok s \<Longrightarrow> bs_kind s = BkAttack \<Longrightarrow> \<not> due_at now s"
  using fits_attack [of "bs_body s"] by (auto simp: state_ok_def)

lemma in_set_dropWhile: "x \<in> set xs \<Longrightarrow> \<not> P x \<Longrightarrow> x \<in> set (dropWhile P xs)"
  by (induction xs) auto

lemma armed_dropWhile:
  "stack_ok ss \<Longrightarrow> armed t0 ss \<Longrightarrow> armed t0 (dropWhile (due_at now) ss)"
  using attack_not_due in_set_dropWhile [of _ ss "due_at now"] set_dropWhileD [of _ "due_at now" ss]
  unfolding armed_def stack_ok_def by blast

lemma no_swing_completion [simp]: "BeResolveAutoAttack p q \<notin> set (completion_events o1 s)"
  by (cases "state_command (bs_body s)") (auto simp: completion_events_def)

lemma armed_run:
  assumes ok: "stack_ok ss" and arm: "armed t0 ss" and now: "now < t0"
  shows "armed t0 (fst (run_states o1 g ar now ss))
    \<and> BeResolveAutoAttack p q \<notin> set (snd (run_states o1 g ar now ss))"
proof -
  let ?rest = "dropWhile (due_at now) ss"
  have s: "\<forall>s \<in> set ss. state_ok s" using ok by (simp add: stack_ok_def)
  have r: "armed t0 ?rest" using ok arm by (rule armed_dropWhile)
  then obtain x xs where x: "?rest = x # xs" by (cases ?rest) (auto simp: armed_def)
  have "\<not> (bs_kind x = BkAttack \<and> is_attack_ready now x)"
    using r now unfolding x by (auto simp: armed_def is_attack_ready_def)
  then show ?thesis using r x by (auto simp: run_states_eq [OF s] after_due_def)
qed

lemma swing_arms:
  assumes ok: "stack_ok ss" and sw: "BeResolveAutoAttack p q \<in> set (snd (run_states o1 g ar now ss))"
    and d: "500 \<le> sg_delay g" and now: "now < 2 ^ 63"
  shows "armed (now + 500) (fst (run_states o1 g ar now ss))"
proof -
  let ?rest = "dropWhile (due_at now) ss"
  have s: "\<forall>s \<in> set ss. state_ok s" using ok by (simp add: stack_ok_def)
  have rok: "stack_ok ?rest" using ok by (rule stack_ok_dropWhile)
  obtain x xs where x: "?rest = x # xs" "bs_kind x = BkAttack" "is_attack_ready now x"
    using sw by (cases ?rest) (auto simp: run_states_eq [OF s] after_due_def split: if_splits)
  have fst: "fst (run_states o1 g ar now ss) = schedule_next_swing now (sg_delay g) x # xs"
    using x by (simp add: run_states_eq [OF s] after_due_def)
  have "BkAttack \<notin> set (map bs_kind xs)" using rok x by (simp add: stack_ok_def)
  then have none: "\<forall>y \<in> set xs. bs_kind y \<noteq> BkAttack" by (force simp: image_iff)
  obtain t where t: "bs_body x = BbAttack t"
    using rok x fits_attack by (auto simp: stack_ok_def state_ok_def)
  have small: "unat (sg_delay g) < 2 ^ 32"
    using unsigned_less [of "sg_delay g", where 'a = nat] by simp
  then have u: "unat (ucast (sg_delay g) :: u64) = unat (sg_delay g)"
    by (simp add: unsigned_ucast_eq take_bit_nat_eq_self)
  then have "500 \<le> unat (ucast (sg_delay g) :: u64)"
    using d by (simp add: word_le_nat_alt)
  moreover have "unat (ucast (sg_delay g) :: u64) < 2 ^ 32" using u small by simp
  moreover have "unat now < 2 ^ 63" using now by (simp add: word_less_nat_alt)
  ultimately have "now + 500 \<le> now + ucast (sg_delay g)"
    by (simp add: word_le_nat_alt unat_word_ariths)
  then show ?thesis using t none x by (auto simp: fst armed_def schedule_next_swing_def)
qed

lemma armed_update:
  assumes ok: "stack_ok (ai_states a)" and arm: "armed t0 (ai_states a)" and now: "now < t0"
  shows "armed t0 (ai_states (fst (ai_update atan2 now owner ar a)))
    \<and> BeResolveAutoAttack p q \<notin> set (snd (ai_update atan2 now owner ar a))"
proof -
  obtain ss g where f: "stack_change a ss" "stack_ok ss"
    "ai_states (fst (ai_update atan2 now owner ar a)) = fst (run_states (ai_owner a) g ar now ss)"
    "\<And>p q. BeResolveAutoAttack p q \<in> set (snd (ai_update atan2 now owner ar a))
       \<longleftrightarrow> BeResolveAutoAttack p q \<in> set (snd (run_states (ai_owner a) g ar now ss))"
    using update_parts [OF ok] by metis
  have "is_engaged a" using arm by (auto simp: armed_def is_engaged_def)
  with f(1) arm have "armed t0 ss" by (cases rule: stack_change_cases) (auto simp: armed_def)
  then show ?thesis using armed_run [OF f(2) _ now] f(3,4) by auto
qed

lemma armed_runs:
  "stack_ok (ai_states a) \<Longrightarrow> armed t0 (ai_states a) \<Longrightarrow> \<forall>x \<in> set xs. ti_now x < t0 \<Longrightarrow>
     BeResolveAutoAttack p q \<notin> set (snd (run_updates atan2 xs a))"
proof (induction xs arbitrary: a)
  case (Cons x xs)
  obtain a1 ob1 where u: "ai_update atan2 (ti_now x) (ti_owner x) (ti_arena x) a = (a1, ob1)" by fastforce
  have "armed t0 (ai_states a1)" "BeResolveAutoAttack p q \<notin> set ob1" "stack_ok (ai_states a1)"
    using armed_update [OF Cons.prems(1,2), of "ti_now x" atan2 "ti_owner x" "ti_arena x" p q]
      ai_update_ok [OF Cons.prems(1), of atan2 "ti_now x" "ti_owner x" "ti_arena x"] Cons.prems(3) u by auto
  then have "BeResolveAutoAttack p q \<notin> set (snd (run_updates atan2 xs a1))" "BeResolveAutoAttack p q \<notin> set ob1"
    using Cons.IH [of a1] Cons.prems(3) by simp_all
  then show ?case using u by (cases "run_updates atan2 xs a1") simp
qed simp


definition demo_view :: "u32 \<Rightarrow> f32_bits \<Rightarrow> u32 \<Rightarrow> actor_view" where
  "demo_view a x side =
     \<lparr>av_actor_id = a, av_position = \<lparr>v_x = x, v_y = 0, v_z = 0\<rparr>, av_rotation = 0, av_is_alive = True,
      av_is_static = False, av_allegiance = side, av_party_id = 0, av_zone_id = 1,
      av_is_updates_locked = False, av_is_player = False, av_is_battle_npc = True\<rparr>"

text \<open>Actor 2 stands two yalms from the origin; the reach is three.\<close>

definition demo_arena :: arena where
  "demo_arena = \<lparr>ar_get = (\<lambda>a. if a = 2 then Some (demo_view 2 0x40000000 1) else None), ar_around = (\<lambda>_ _. [])\<rparr>"

definition demo_owner :: owner_view where
  "demo_owner = \<lparr>ov_actor = demo_view 1 0 2, ov_is_engaged = True, ov_is_spawned = True, ov_most_hated = Some 2,
     ov_current_target = Some 2, ov_has_prevent_movement = False, ov_is_close_to_spawn = True,
     ov_attack_delay_ms = 100, ov_attack_range = 0x40400000\<rparr>"

definition demo_engaged :: ai_container where
  "demo_engaged = snd (internal_engage 2 0 2000 (ai_new 1 None None))"

lemma demo_engaged_reachable: "ai_reachable demo_engaged"
  unfolding demo_engaged_def by (intro reach_step [OF _ step_engage] reach_new)

lemma demo_swing: "snd (ai_update (\<lambda>_ _. 0) 2000 demo_owner demo_arena demo_engaged) = [BeResolveAutoAttack 1 2]"
  by code_simp


section \<open>A buried cast\<close>

lemma dropWhile_stop: "\<not> P y \<Longrightarrow> dropWhile P (xs @ y # ys) = dropWhile P xs @ y # ys"
  by (induction xs) auto

lemma buried_update:
  assumes ok: "stack_ok (ai_states a)" and st: "ai_states a = pre @ att # below" "bs_kind att = BkAttack"
  shows "\<exists>pre' att'. bs_kind att' = BkAttack
    \<and> ai_states (fst (ai_update atan2 now owner ar a)) = pre' @ att' # below"
proof -
  obtain ss g where f: "stack_change a ss" "stack_ok ss"
    "ai_states (fst (ai_update atan2 now owner ar a)) = fst (run_states (ai_owner a) g ar now ss)"
    using update_parts [OF ok] by metis
  have eng: "is_engaged a" using st by (auto simp: is_engaged_def)
  have "stack_ok (att # below)" using ok st stack_ok_suffix by metis
  then have "BkAttack \<notin> set (map bs_kind below)" using st(2) by (simp add: stack_ok_def)
  then have below: "\<forall>s \<in> set below. retarget t s = s" for t by (force simp: retarget_def)
  have "\<exists>pre1 att1. bs_kind att1 = BkAttack \<and> ss = pre1 @ att1 # below"
    using f(1)
  proof (cases rule: stack_change_cases)
    case same
    then show ?thesis using st by blast
  next
    case (attack s)
    then show ?thesis using eng by simp
  next
    case (magic s)
    then have "ss = (s # pre) @ att # below" using st by simp
    then show ?thesis using st by blast
  next
    case (retarget t)
    then have "ss = map (retarget t) pre @ retarget t att # below"
      using st below [of t] by (simp add: map_idI)
    then show ?thesis using st(2) by (metis retarget_simps(1))
  qed
  then obtain pre1 att1 where s1: "bs_kind att1 = BkAttack" "ss = pre1 @ att1 # below" by blast
  have sok: "\<forall>s \<in> set ss. state_ok s" using f(2) by (simp add: stack_ok_def)
  then have nd: "\<not> due_at now att1" using s1 by (intro attack_not_due) auto
  let ?pre2 = "dropWhile (due_at now) pre1"
  have drop: "dropWhile (due_at now) ss = ?pre2 @ att1 # below"
    unfolding s1(2) using nd by (rule dropWhile_stop)
  show ?thesis
  proof (cases ?pre2)
    case Nil
    have "\<exists>att'. bs_kind att' = BkAttack \<and> fst (run_states (ai_owner a) g ar now ss) = [] @ att' # below"
      using s1(1) by (simp add: run_states_eq [OF sok] drop Nil after_due_def)
    then show ?thesis using f(3) by metis
  next
    case (Cons x xs)
    have "\<exists>y. fst (run_states (ai_owner a) g ar now ss) = (y # xs) @ att1 # below"
      by (simp add: run_states_eq [OF sok] drop Cons after_due_def)
    then show ?thesis using f(3) s1(1) by metis
  qed
qed

text \<open>
  C12: a cast in progress under which an actor is engaged is lost: the attack state goes on top of
  it and stays there through any updates, with the stack of the cast unchanged below it, so the
  cast is never completed, interrupted or resolved until the whole stack is cleared.
\<close>

theorem engage_buries_cast:
  assumes "ai_reachable a" "\<not> is_engaged a"
  shows "\<exists>pre att. bs_kind att = BkAttack
    \<and> ai_states (fst (run_updates atan2 xs (snd (internal_engage t now d a)))) = pre @ att # ai_states a"
proof -
  have runs: "\<exists>pre att. bs_kind att = BkAttack \<and> ai_states (fst (run_updates atan2 xs b)) = pre @ att # below"
    if "stack_ok (ai_states b)" "\<exists>pre att. bs_kind att = BkAttack \<and> ai_states b = pre @ att # below" for b below
    using that
  proof (induction xs arbitrary: b)
    case (Cons x xs)
    obtain b1 ob1 where u: "ai_update atan2 (ti_now x) (ti_owner x) (ti_arena x) b = (b1, ob1)" by fastforce
    have "stack_ok (ai_states b1)" "\<exists>pre att. bs_kind att = BkAttack \<and> ai_states b1 = pre @ att # below"
      using ai_update_ok [OF Cons.prems(1), of atan2 "ti_now x" "ti_owner x" "ti_arena x"]
        buried_update [OF Cons.prems(1), where ?atan2.0 = atan2 and now = "ti_now x" and owner = "ti_owner x" and ar = "ti_arena x"]
        Cons.prems(2) u by auto
    then show ?case using Cons.IH [of b1] u by (simp add: case_prod_beta)
  qed simp
  have ok: "stack_ok (ai_states a)" using assms(1) by (rule reachable_ok)
  have "ai_states (snd (internal_engage t now d a)) = [] @ state_attack (ai_owner a) t now d # ai_states a"
    using assms(2) force_push [OF ok] by (simp add: internal_engage_def)
  then show ?thesis using runs [OF engage_ok [OF ok]] new_state_kind(1) by blast
qed

definition demo_casting :: ai_container where
  "demo_casting = snd (internal_cast 2 demo_spell 0 (ai_new 1 None None))"

text \<open>The spell takes two seconds; ten seconds later its state is still on the stack.\<close>

theorem engage_buries_cast_witness:
  "\<exists>pre att. bs_kind att = BkAttack
    \<and> ai_states (fst (run_updates (\<lambda>_ _. 0) [\<lparr>ti_now = 12000, ti_owner = demo_owner, ti_arena = demo_arena\<rparr>]
         (snd (internal_engage 2 100 2000 demo_casting)))) = pre @ att # [state_magic 1 2 demo_spell 0]"
proof -
  have "ai_reachable demo_casting"
    unfolding demo_casting_def by (intro reach_step [OF _ step_cast] reach_new)
  moreover have s: "ai_states demo_casting = [state_magic 1 2 demo_spell 0]"
    by (simp add: demo_casting_def internal_cast_def change_state_def can_change_state_def current_state_def
        check_completed_states_def MAX_STATE_STACK_def ai_new_def)
  moreover have "\<not> is_engaged demo_casting" by (simp add: is_engaged_def s)
  ultimately show ?thesis using engage_buries_cast [of demo_casting] by metis
qed

end
