(* ===== verification/BattleTickLaws.thy ===== *)
theory BattleTickLaws
  imports BattleRuns
begin

text \<open>
  Laws of the ticker's pass over one actor: the disengagement that an engaged actor without enmity
  repeats at every tick, the pace of movement packets, and the clocks of the chocobo rental and of
  the rested bonus.
\<close>

section \<open>Disengaging\<close>

text \<open>A living battle actor that is engaged and hates nobody.\<close>

definition forgotten :: "fighter \<Rightarrow> bool" where
  "forgotten f \<longleftrightarrow>
     (\<exists>c. ai_controller (fi_ai f) = Some c \<and> ct_can_update c \<and> ct_kind c \<in> {CkBattleNpc, CkAlly})
     \<and> fi_is_alive f \<and> fi_main_state f \<noteq> MAIN_STATE_DEAD \<and> is_engaged (fi_ai f)
     \<and> hc_entries (fi_hate f) = [] \<and> ai_owner (fi_ai f) = fi_actor_id f \<and> stack_ok (ai_states (fi_ai f))"

lemma attack_stays:
  assumes ok: "stack_ok ss" and att: "\<exists>s \<in> set ss. bs_kind s = BkAttack"
  shows "\<exists>s \<in> set (fst (run_states o1 g ar now ss)). bs_kind s = BkAttack"
proof -
  let ?rest = "dropWhile (due_at now) ss"
  have s: "\<forall>s \<in> set ss. state_ok s" using ok by (simp add: stack_ok_def)
  have r: "\<exists>s \<in> set ?rest. bs_kind s = BkAttack"
    using att s attack_not_due in_set_dropWhile [of _ ss "due_at now"] by metis
  then obtain x xs where x: "?rest = x # xs" by (cases ?rest) auto
  show ?thesis using r unfolding x by (auto simp: run_states_eq [OF s] x after_due_def)
qed

lemma dispatch_other:
  "(\<forall>e \<in> set ob. \<forall>p t n u. e \<noteq> BeEngage p t \<and> e \<noteq> BeDisengage p \<and> e \<noteq> BeHateAdd p t n \<and> e \<noteq> BeHateClear p u)
     \<Longrightarrow> fold dispatch_hate ob f = f"
proof (induction ob arbitrary: f)
  case (Cons e ob)
  then have "dispatch_hate e f = f" by (cases e) auto
  then show ?case using Cons by simp
qed simp

lemma stack_events_quiet:
  assumes "\<forall>s \<in> set ss. state_ok s" "e \<in> set (snd (run_states o1 g ar now ss))"
  shows "(\<forall>p t n u. e \<noteq> BeEngage p t \<and> e \<noteq> BeDisengage p \<and> e \<noteq> BeHateAdd p t n \<and> e \<noteq> BeHateClear p u)"
proof -
  have c: "e \<in> set (completion_events o1 s) \<Longrightarrow> ?thesis" for s
    by (cases "state_command (bs_body s)") (auto simp: completion_events_def split: if_splits)
  have w: "e \<in> set (swing_events o1 g ar t) \<Longrightarrow> ?thesis" for t
    by (auto simp: swing_events_def Let_def split: if_splits)
  show ?thesis
    using assms(2) c w by (cases "dropWhile (due_at now) ss")
      (auto simp: run_states_eq [OF assms(1)] after_due_def split: if_splits)
qed

lemma forgotten_decides:
  assumes "forgotten f"
  shows "\<exists>c c1. ai_controller (fi_ai f) = Some c \<and> ct_kind c1 = ct_kind c \<and> ct_can_update c1
    \<and> decided atan2 now (build_owner_view zone_id f) ar (fi_ai f)
      = ((fi_ai f)\<lparr>ai_prev_update_ms := ai_latest_update_ms (fi_ai f), ai_latest_update_ms := now,
            ai_pending_movement := None, ai_controller := Some c1\<rparr>, [BeDisengage (fi_actor_id f)])"
proof -
  obtain c where c: "ai_controller (fi_ai f) = Some c" "ct_can_update c" "ct_kind c \<in> {CkBattleNpc, CkAlly}"
    using assms by (auto simp: forgotten_def)
  have m: "most_hated (fi_hate f) = None" using assms by (simp add: forgotten_def most_hated_def)
  let ?v = "build_owner_view zone_id f"
  have v: "av_is_alive (ov_actor ?v)" "ov_is_engaged ?v" "should_deaggro ?v"
    using assms m by (simp_all add: forgotten_def build_owner_view_def should_deaggro_def)
  let ?c1 = "c\<lparr>ct_last_update_ms := now\<rparr>"
  have "controller_tick atan2 now ?v ar c = (CdDisengage, ?c1)"
    using c v by (auto simp: controller_tick_def tick_battle_npc_def do_combat_tick_def Let_def)
  then show ?thesis using c assms
    by (intro exI [of _ c] exI [of _ ?c1]) (simp add: decided_def decide_def forgotten_def)
qed

lemma forgotten_tick:
  assumes f: "forgotten f"
  shows "forgotten (fst (tick_fighter atan2 now zone_id ar f))
    \<and> (\<exists>rest. snd (tick_fighter atan2 now zone_id ar f) = BeDisengage (fi_actor_id f) # rest)"
proof -
  let ?a = "fi_ai f"
  let ?v = "build_owner_view zone_id f"
  obtain c c1 where c: "ai_controller ?a = Some c" "ct_kind c1 = ct_kind c" "ct_can_update c1"
    and d: "decided atan2 now ?v ar ?a
      = (?a\<lparr>ai_prev_update_ms := ai_latest_update_ms ?a, ai_latest_update_ms := now,
            ai_pending_movement := None, ai_controller := Some c1\<rparr>, [BeDisengage (fi_actor_id f)])" (is "_ = (?a2, _)")
    using forgotten_decides [OF f] by blast
  have ok: "stack_ok (ai_states ?a)" and eng: "\<exists>s \<in> set (ai_states ?a). bs_kind s = BkAttack"
    and own: "ai_owner ?a = fi_actor_id f" using f by (auto simp: forgotten_def is_engaged_def)
  obtain stack ob where rs: "run_states (ai_owner ?a) (swing_gate_of ?v ?a2) ar now (ai_states ?a) = (stack, ob)"
    by fastforce
  obtain due later where dr: "drain_due now (ai_action_queue ?a) = (due, later)" by fastforce
  define a3 where "a3 = ?a2\<lparr>ai_states := stack, ai_action_queue := later\<rparr>"
  have u: "ai_update atan2 now ?v ar ?a = (a3, BeDisengage (fi_actor_id f) # ob @ action_events (ai_owner ?a) due)"
    using d rs dr by (simp add: ai_update_eq a3_def)
  have stack: "stack_ok stack" "\<exists>s \<in> set stack. bs_kind s = BkAttack"
    using run_states_ok [OF ok] attack_stays [OF ok eng] rs by (metis fst_conv)+
  have alive: "fi_main_state f \<noteq> MAIN_STATE_DEAD" using f by (simp add: forgotten_def)
  have t: "tick_ai atan2 now zone_id ar f
      = (f\<lparr>fi_ai := a3\<lparr>ai_pending_movement := None\<rparr>\<rparr>, BeDisengage (fi_actor_id f) # ob @ action_events (ai_owner ?a) due, None)"
    using u alive by (simp add: tick_ai_def a3_def)
  define f1 where "f1 = f\<lparr>fi_ai := a3\<lparr>ai_pending_movement := None\<rparr>\<rparr>"
  have quiet: "fold dispatch_hate (ob @ action_events (ai_owner ?a) due) h = h" for h
  proof (rule dispatch_other, rule ballI)
    fix e assume e: "e \<in> set (ob @ action_events (ai_owner ?a) due)"
    show "\<forall>p t n u. e \<noteq> BeEngage p t \<and> e \<noteq> BeDisengage p \<and> e \<noteq> BeHateAdd p t n \<and> e \<noteq> BeHateClear p u"
    proof (cases "e \<in> set ob")
      case True
      then show ?thesis using stack_events_quiet [of "ai_states ?a"] ok rs by (metis snd_conv stack_ok_def)
    next
      case False
      then show ?thesis using e by (auto simp: action_events_def)
    qed
  qed
  have res: "tick_fighter atan2 now zone_id ar f
      = (f1\<lparr>fi_hate := clear_hate None (fi_hate f)\<rparr>, BeDisengage (fi_actor_id f) # ob @ action_events (ai_owner ?a) due)"
    using t quiet by (simp add: tick_fighter_def f1_def del: fold_append)
  have "forgotten (f1\<lparr>fi_hate := clear_hate None (fi_hate f)\<rparr>)"
    using f c stack by (simp add: forgotten_def f1_def a3_def clear_hate_def is_engaged_def fi_is_alive_def)
  then show ?thesis using res by simp
qed

text \<open>The events of each of a list of ticks.\<close>

fun run_fighter :: "atan2_fun \<Rightarrow> (u64 \<times> u32 \<times> arena) list \<Rightarrow> fighter \<Rightarrow> fighter \<times> battle_event list list" where
  "run_fighter atan2 [] f = (f, [])"
| "run_fighter atan2 ((now, zone_id, ar) # xs) f =
     (let (f1, ob) = tick_fighter atan2 now zone_id ar f;
          (f2, obs) = run_fighter atan2 xs f1
      in (f2, ob # obs))"

lemma tick_fighter_id: "fi_actor_id (fst (tick_fighter atan2 now zone_id ar f)) = fi_actor_id f"
proof -
  have d: "fi_actor_id (dispatch_hate e h) = fi_actor_id h" for e h by (cases e) auto
  have fo: "fi_actor_id (fold dispatch_hate ob h) = fi_actor_id h" for ob h
    by (induction ob arbitrary: h) (simp_all add: d)
  have m: "fi_actor_id (fst (move_fighter atan2 st h)) = fi_actor_id h" for st h
    by (cases st) (auto simp: Let_def split: prod.split)
  show ?thesis
    by (auto simp: tick_fighter_def tick_ai_def Let_def fo m split: prod.split option.split)
qed

text \<open>
  An engaged battle actor whose enmity is empty never leaves combat by itself: every tick
  reports a disengagement again, and after any number of ticks it is still engaged.
\<close>

theorem disengage_repeats:
  assumes "forgotten f"
  shows "is_engaged (fi_ai (fst (run_fighter atan2 xs f)))
    \<and> length (snd (run_fighter atan2 xs f)) = length xs
    \<and> (\<forall>ob \<in> set (snd (run_fighter atan2 xs f)). \<exists>rest. ob = BeDisengage (fi_actor_id f) # rest)"
  using assms
proof (induction xs arbitrary: f)
  case Nil
  then show ?case by (simp add: forgotten_def)
next
  case (Cons x xs)
  obtain now zone_id ar where x: "x = (now, zone_id, ar)" by (cases x)
  obtain f1 ob where t: "tick_fighter atan2 now zone_id ar f = (f1, ob)" by fastforce
  have "forgotten f1" "\<exists>rest. ob = BeDisengage (fi_actor_id f) # rest" "fi_actor_id f1 = fi_actor_id f"
    using forgotten_tick [OF Cons.prems, of atan2 now zone_id ar] tick_fighter_id [of atan2 now zone_id ar f] t by auto
  then show ?case using Cons.IH [of f1] t x by (simp add: case_prod_beta)
qed

text \<open>A wolf that lost its only target.\<close>

definition demo_wolf :: fighter where
  "demo_wolf = \<lparr>fi_actor_id = 7, fi_position = \<lparr>v_x = 0, v_y = 0, v_z = 0\<rparr>, fi_rotation = 0,
     fi_main_state = MAIN_STATE_ACTIVE, fi_hp = 100, fi_max_hp = 100, fi_tp = 0,
     fi_attack_range = 0x40400000, fi_attack_delay_ms = 2500, fi_speed = 0x40A00000,
     fi_ai = snd (internal_engage 2 0 2500 (ai_new 7 (Some (controller_new CkBattleNpc 7)) None)),
     fi_hate = hate_new 7\<rparr>"

theorem disengage_repeats_witness:
  "length (snd (run_fighter (\<lambda>_ _. 0) [(100, 1, demo_arena), (200, 1, demo_arena)] demo_wolf)) = 2
   \<and> is_engaged (fi_ai (fst (run_fighter (\<lambda>_ _. 0) [(100, 1, demo_arena), (200, 1, demo_arena)] demo_wolf)))"
proof -
  have "forgotten demo_wolf"
    by (simp add: forgotten_def demo_wolf_def internal_engage_def force_change_state_def check_completed_states_def
        is_engaged_def ai_new_def MAX_STATE_STACK_def controller_new_def fi_is_alive_def hate_new_def
        MAIN_STATE_ACTIVE_def MAIN_STATE_DEAD_def stack_ok_def)
  from disengage_repeats [OF this, of "\<lambda>_ _. 0" "[(100, 1, demo_arena), (200, 1, demo_arena)]"] show ?thesis
    by simp
qed

section \<open>Rentals\<close>

lemma tick_rental_zero: "hk_rental_expire_time h = 0 \<Longrightarrow> tick_rental now h = h"
  by (simp add: tick_rental_def)

lemma rental_fold:
  "hk_rental_expire_time h = e \<Longrightarrow> e \<noteq> 0 \<Longrightarrow>
     hk_rental_expire_time (fold tick_rental nows h) = (if \<exists>now \<in> set nows. e \<le> tick_utc now then 0 else e)"
proof (induction nows arbitrary: h)
  case (Cons now nows)
  have done0: "hk_rental_expire_time (fold tick_rental xs k) = 0" if "hk_rental_expire_time k = 0" for xs k
    using that by (induction xs arbitrary: k) (simp_all add: tick_rental_zero)
  show ?case
  proof (cases "e \<le> tick_utc now")
    case True
    then have "hk_rental_expire_time (tick_rental now h) = 0"
      using Cons.prems by (simp add: tick_rental_def)
    then show ?thesis using True done0 by simp
  next
    case False
    then have "hk_rental_expire_time (tick_rental now h) = e"
      using Cons.prems by (simp add: tick_rental_def)
    then show ?thesis using Cons.IH [of "tick_rental now h"] Cons.prems(2) False by simp
  qed
qed simp


definition demo_keeping :: housekeeping where
  "demo_keeping = \<lparr>hk_main_state = MAIN_STATE_PASSIVE, hk_new_main_state = MAIN_STATE_PASSIVE, hk_mount_state = 0,
     hk_rental_expire_time = 0, hk_rental_min_left = 0, hk_rest_bonus_exp_rate = 0,
     hk_last_rest_accrual_utc = 0\<rparr>"


section \<open>The rested bonus\<close>

lemma uint_tick_diff: "b \<le> a \<Longrightarrow> uint ((a :: u32) - b) = uint a - uint b"
proof -
  assume "b \<le> a"
  then have "0 \<le> uint a - uint b" "uint a - uint b < 2 ^ 32"
    using uint_lt2p [of a] uint_ge_0 [of b] unfolding word_le_def by (simp_all, linarith)
  then show ?thesis by (simp add: uint_word_ariths)
qed

lemma uint_saturating_add: "uint (u32_saturating_add a b) = min (2 ^ 32 - 1) (uint a + uint b)"
  by (simp only: uint_nat u32_saturating_add_min of_nat_min of_nat_add) simp

text \<open>
  While the cap is not reached, the anchor has advanced by a whole minute per point earned.
\<close>

definition rest_account :: "int \<Rightarrow> u32 \<Rightarrow> u32 \<Rightarrow> housekeeping \<Rightarrow> bool" where
  "rest_account b0 t0 t h \<longleftrightarrow>
     hk_rest_bonus_exp_rate h = min 100 (b0 + (uint t - uint t0) div 60)
     \<and> (hk_rest_bonus_exp_rate h < 100 \<longrightarrow>
          uint (hk_last_rest_accrual_utc h) = uint t0 + 60 * (hk_rest_bonus_exp_rate h - b0)
          \<and> hk_last_rest_accrual_utc h \<noteq> 0)"

lemma rest_account_step:
  assumes acc: "rest_account b0 t0 t h" and b0: "0 \<le> b0" "b0 \<le> 100" and le: "t0 \<le> t" "t \<le> tick_utc now"
  shows "rest_account b0 t0 (tick_utc now) (tick_rest now True h)"
proof -
  define u where "u = uint (tick_utc now)"
  define v where "v = uint t"
  define w where "w = uint t0"
  have ord: "0 \<le> w" "w \<le> v" "v \<le> u" using le by (auto simp: u_def v_def w_def word_le_def)
  have umax: "u < 2 ^ 32" using uint_lt2p [of "tick_utc now"] by (simp add: u_def)
  have b: "hk_rest_bonus_exp_rate h = min 100 (b0 + (v - w) div 60)" using acc by (simp add: rest_account_def v_def w_def)
  have mono: "(v - w) div 60 \<le> (u - w) div 60" using ord by (intro zdiv_mono1) auto
  show ?thesis
  proof (cases "hk_rest_bonus_exp_rate h < 100")
    case False
    then have "tick_rest now True h = h" by (simp add: tick_rest_def INN_REST_BONUS_CAP_def)
    then show ?thesis using False b mono by (auto simp: rest_account_def u_def w_def)
  next
    case True
    let ?a = "hk_last_rest_accrual_utc h"
    have rate: "hk_rest_bonus_exp_rate h = b0 + (v - w) div 60" using b True by auto
    have a: "uint ?a = w + 60 * ((v - w) div 60)" "?a \<noteq> 0"
      using acc True rate by (auto simp: rest_account_def w_def)
    have "60 * ((v - w) div 60) \<le> v - w" by simp
    then have au: "uint ?a \<le> u" using a ord by linarith
    then have ale: "?a \<le> tick_utc now" by (simp add: u_def word_le_def)
    have el: "uint (u32_saturating_sub (tick_utc now) ?a) = u - uint ?a"
      using ale au by (simp add: u32_saturating_sub_def uint_tick_diff u_def)
    define k where "k = (u - uint ?a) div 60"
    have ku: "uint (u32_saturating_sub (tick_utc now) ?a div INN_REST_INTERVAL_SECS) = k"
      using el by (simp add: INN_REST_INTERVAL_SECS_def uint_div k_def)
    have k: "0 \<le> k" "60 * k \<le> u - uint ?a" "u - w = 60 * ((v - w) div 60) + (u - uint ?a)"
      using au a ord by (auto simp: k_def pos_imp_zdiv_nonneg_iff)
    have kk: "(u - w) div 60 = (v - w) div 60 + k"
      using k(3) by (simp add: k_def)
    have krange: "i32_range k" "i32_range (hk_rest_bonus_exp_rate h + k)"
      using k umax True rate b0 ord by (auto simp: i32_range_def pos_imp_zdiv_nonneg_iff)
    show ?thesis
    proof (cases "k = 0")
      case True
      then have "tick_rest now True h = h"
        using \<open>hk_rest_bonus_exp_rate h < 100\<close> a(2) ku krange by (simp add: tick_rest_def INN_REST_BONUS_CAP_def)
      then show ?thesis using acc kk True
        by (simp add: rest_account_def u_def [symmetric] v_def [symmetric] w_def [symmetric])
    next
      case False
      then have kpos: "0 < k" using k by simp
      have mul: "word_of_int k * INN_REST_INTERVAL_SECS = (word_of_int (60 * k) :: u32)"
        by (simp add: INN_REST_INTERVAL_SECS_def mult.commute)
      have "uint (word_of_int (60 * k) :: u32) = 60 * k"
      proof -
        have "60 * k < 2 ^ 32" using k(2) umax uint_ge_0 [of ?a] by linarith
        then show ?thesis unfolding uint_word_of_int_eq using k(1) by (intro take_bit_int_eq_self) simp_all
      qed
      then have sat: "uint (u32_saturating_add ?a (word_of_int k * INN_REST_INTERVAL_SECS))
          = uint ?a + 60 * k"
        using k umax au unfolding mul uint_saturating_add by (simp add: min_def)
      have st: "tick_rest now True h = h\<lparr>hk_rest_bonus_exp_rate := min (hk_rest_bonus_exp_rate h + k) 100,
            hk_last_rest_accrual_utc := u32_saturating_add ?a (word_of_int k * INN_REST_INTERVAL_SECS)\<rparr>"
        using \<open>hk_rest_bonus_exp_rate h < 100\<close> a(2) ku krange kpos
        by (simp add: tick_rest_def INN_REST_BONUS_CAP_def Let_def)
      have "u32_saturating_add ?a (word_of_int k * INN_REST_INTERVAL_SECS) \<noteq> 0"
        using sat kpos uint_ge_0 [of ?a] by (metis add_nonneg_pos less_irrefl mult_pos_pos unsigned_0 zero_less_numeral)
      then show ?thesis unfolding st rest_account_def
        using sat a rate kk b0 by (auto simp: u_def [symmetric] w_def [symmetric] min_def)
    qed
  qed
qed

text \<open>
  C14: in an inn the rested bonus is exact: after any ticks in order, the first of which only sets
  the anchor, it is the starting bonus plus one per whole minute between the first and the last
  tick, however the ticks are spread, and at most a hundred.
\<close>

theorem rest_bonus_exact:
  assumes "hk_last_rest_accrual_utc h = 0" "0 \<le> hk_rest_bonus_exp_rate h" "hk_rest_bonus_exp_rate h \<le> 100"
    and "tick_utc first \<noteq> 0" "sorted (map tick_utc (first # later))"
  shows "hk_rest_bonus_exp_rate (fold (\<lambda>now. tick_rest now True) (first # later) h)
    = min 100 (hk_rest_bonus_exp_rate h
        + (uint (tick_utc (last (first # later))) - uint (tick_utc first)) div 60)"
proof -
  let ?b0 = "hk_rest_bonus_exp_rate h"
  have acc0: "rest_account ?b0 (tick_utc first) (tick_utc first) (tick_rest first True h)"
    using assms(1-4) by (auto simp: rest_account_def tick_rest_def INN_REST_BONUS_CAP_def)
  have gen: "rest_account ?b0 (tick_utc first) (tick_utc (last (t # later))) (fold (\<lambda>now. tick_rest now True) later k)"
    if "rest_account ?b0 (tick_utc first) (tick_utc t) k" "tick_utc first \<le> tick_utc t"
      "sorted (map tick_utc (t # later))" for t k
    using that
  proof (induction later arbitrary: t k)
    case (Cons x xs)
    then have "rest_account ?b0 (tick_utc first) (tick_utc x) (tick_rest x True k)"
      using rest_account_step [OF Cons.prems(1) assms(2,3)] by simp
    moreover have "tick_utc first \<le> tick_utc x" using Cons.prems by (auto intro: order_trans)
    ultimately show ?case using Cons.IH [of x "tick_rest x True k"] Cons.prems(3) by simp
  qed simp
  show ?thesis using gen [OF acc0 order_refl assms(5)] by (simp add: rest_account_def)
qed

theorem rest_bonus_exact_witness:
  "hk_rest_bonus_exp_rate (fold (\<lambda>now. tick_rest now True) [5000, 64900, 65000, 184000, 185000] demo_keeping) = 3"
  by (subst rest_bonus_exact) (simp_all add: demo_keeping_def tick_utc_def)

end
