(* ===== verification/Modifier.thy ===== *)
theory Modifier
  imports Ieee
begin

text \<open>
  The stat modifiers of a character (\<open>map-server/src/actor/modifier.rs\<close>). A modifier of the
  source is an enumeration with explicit \<open>u32\<close> values, and the map is keyed by those values, so a
  modifier is its value here. Magnitudes are \<open>f64\<close>, kept as bit patterns.
\<close>

type_synonym f64_bits = u64

section \<open>More operations on \<open>f64\<close>\<close>

definition f64_neg :: "f64_bits \<Rightarrow> f64_bits" where
  "f64_neg a = f64_bits_of (fp_neg (f64_val a))"

fun fp_floor :: "fp_format \<Rightarrow> fp \<Rightarrow> fp" where
  "fp_floor fmt (FFin s m e) =
     (if 0 \<le> e then FFin s m e
      else let k = pow2 (- e)
           in fp_round fmt s (if s then (m + k - 1) div k else m div k) 1 0)"
| "fp_floor fmt x = x"

definition f64_floor :: "f64_bits \<Rightarrow> f64_bits" where
  "f64_floor a = f64_bits_of (fp_floor F64 (f64_val a))"

definition f64_to_u32 :: "f64_bits \<Rightarrow> u32" where
  "f64_to_u32 a = word_of_int (fp_to_int 0 (2 ^ 32 - 1) (f64_val a))"

definition f64_to_u64 :: "f64_bits \<Rightarrow> u64" where
  "f64_to_u64 a = word_of_int (fp_to_int 0 (2 ^ 64 - 1) (f64_val a))"

definition f32_of_f64 :: "f64_bits \<Rightarrow> f32_bits" where
  "f32_of_f64 a = f32_bits_of (fp_convert F32 (f64_val a))"

text \<open>
  A decimal literal \<open>n / d\<close>: both are representable, so the division rounds the exact decimal
  once, as the compiler does.
\<close>

definition f64_lit :: "int \<Rightarrow> int \<Rightarrow> f64_bits" where
  "f64_lit n d = f64_div (f64_of_int n) (f64_of_int d)"

section \<open>Modifiers\<close>

definition MOD_HP :: u32 where "MOD_HP = 0"
definition MOD_MP :: u32 where "MOD_MP = 1"
definition MOD_TP :: u32 where "MOD_TP = 2"
definition MOD_STRENGTH :: u32 where "MOD_STRENGTH = 3"
definition MOD_VITALITY :: u32 where "MOD_VITALITY = 4"
definition MOD_DEXTERITY :: u32 where "MOD_DEXTERITY = 5"
definition MOD_INTELLIGENCE :: u32 where "MOD_INTELLIGENCE = 6"
definition MOD_MIND :: u32 where "MOD_MIND = 7"
definition MOD_PIETY :: u32 where "MOD_PIETY = 8"
definition MOD_ACCURACY :: u32 where "MOD_ACCURACY = 15"
definition MOD_ATTACK :: u32 where "MOD_ATTACK = 17"
definition MOD_DEFENSE :: u32 where "MOD_DEFENSE = 18"
definition MOD_ATTACK_MAGIC_POTENCY :: u32 where "MOD_ATTACK_MAGIC_POTENCY = 23"
definition MOD_HEALING_MAGIC_POTENCY :: u32 where "MOD_HEALING_MAGIC_POTENCY = 24"
definition MOD_ENFEEBLING_MAGIC_POTENCY :: u32 where "MOD_ENFEEBLING_MAGIC_POTENCY = 26"
definition MOD_MAGIC_ACCURACY :: u32 where "MOD_MAGIC_ACCURACY = 27"
definition MOD_MAGIC_EVASION :: u32 where "MOD_MAGIC_EVASION = 28"
definition MOD_PARRY :: u32 where "MOD_PARRY = 39"
definition MOD_BLOCK_RATE :: u32 where "MOD_BLOCK_RATE = 40"
definition MOD_BLOCK :: u32 where "MOD_BLOCK = 41"
definition MOD_REGEN :: u32 where "MOD_REGEN = 48"
definition MOD_REFRESH :: u32 where "MOD_REFRESH = 49"
definition MOD_DELAY :: u32 where "MOD_DELAY = 59"
definition MOD_MOVEMENT_SPEED :: u32 where "MOD_MOVEMENT_SPEED = 61"
definition MOD_TARGETABLE :: u32 where "MOD_TARGETABLE = 107"
definition MOD_HP_PERCENT :: u32 where "MOD_HP_PERCENT = 109"
definition MOD_MP_PERCENT :: u32 where "MOD_MP_PERCENT = 110"
definition MOD_ATTACK_RANGE :: u32 where "MOD_ATTACK_RANGE = 112"
definition MOD_RAISE :: u32 where "MOD_RAISE = 113"
definition MOD_MINIMUM_HP_LOCK :: u32 where "MOD_MINIMUM_HP_LOCK = 114"
definition MOD_MINIMUM_TP_LOCK :: u32 where "MOD_MINIMUM_TP_LOCK = 116"
definition MOD_ATTACK_TYPE :: u32 where "MOD_ATTACK_TYPE = 117"
definition MOD_CAN_BLOCK :: u32 where "MOD_CAN_BLOCK = 118"
definition MOD_HIT_COUNT :: u32 where "MOD_HIT_COUNT = 119"
definition MOD_RAW_EVADE_RATE :: u32 where "MOD_RAW_EVADE_RATE = 120"
definition MOD_RAW_PARRY_RATE :: u32 where "MOD_RAW_PARRY_RATE = 121"
definition MOD_RAW_BLOCK_RATE :: u32 where "MOD_RAW_BLOCK_RATE = 122"
definition MOD_RAW_RESIST_RATE :: u32 where "MOD_RAW_RESIST_RATE = 123"
definition MOD_RAW_HIT_RATE :: u32 where "MOD_RAW_HIT_RATE = 124"
definition MOD_RAW_CRIT_RATE :: u32 where "MOD_RAW_CRIT_RATE = 125"
definition MOD_DAMAGE_TAKEN_DOWN :: u32 where "MOD_DAMAGE_TAKEN_DOWN = 126"
definition MOD_REGAIN :: u32 where "MOD_REGAIN = 127"
definition MOD_REGEN_DOWN :: u32 where "MOD_REGEN_DOWN = 128"
definition MOD_STONESKIN :: u32 where "MOD_STONESKIN = 129"
definition MOD_STEALTH :: u32 where "MOD_STEALTH = 131"
definition MOD_WEAPON_DAMAGE_POWER :: u32 where "MOD_WEAPON_DAMAGE_POWER = 200"

text \<open>\<open>Modifier::from_u32\<close>: the values that name a modifier.\<close>

definition modifier_from_u32 :: "u32 \<Rightarrow> u32 option" where
  "modifier_from_u32 v =
     (if v \<le> 53 \<or> 56 \<le> v \<and> v \<le> 83 \<or> 101 \<le> v \<and> v \<le> 131 \<or> v = 200 then Some v else None)"

text \<open>\<open>decode_param_bonus_type\<close>, on an \<open>i32\<close>.\<close>

definition PARAM_BONUS_BASE :: int where "PARAM_BONUS_BASE = 15001"
definition PARAM_BONUS_MAX :: int where "PARAM_BONUS_MAX = 15100"

definition decode_param_bonus_type :: "int \<Rightarrow> u32 option" where
  "decode_param_bonus_type p =
     (if PARAM_BONUS_BASE \<le> p \<and> p \<le> PARAM_BONUS_MAX then Some (word_of_int (p - PARAM_BONUS_BASE)) else None)"

section \<open>The map\<close>

text \<open>A missing key reads as zero.\<close>

type_synonym modifier_map = "u32 \<rightharpoonup> f64_bits"

definition mod_new :: modifier_map where "mod_new = Map.empty"

definition mod_get :: "u32 \<Rightarrow> modifier_map \<Rightarrow> f64_bits" where
  "mod_get k m = (case m k of Some v \<Rightarrow> v | None \<Rightarrow> 0)"

definition mod_set :: "u32 \<Rightarrow> f64_bits \<Rightarrow> modifier_map \<Rightarrow> modifier_map" where
  "mod_set k v m = m(k \<mapsto> v)"

definition mod_add :: "u32 \<Rightarrow> f64_bits \<Rightarrow> modifier_map \<Rightarrow> modifier_map" where
  "mod_add k d m = mod_set k (f64_add (mod_get k m) d) m"

definition mod_subtract :: "u32 \<Rightarrow> f64_bits \<Rightarrow> modifier_map \<Rightarrow> modifier_map" where
  "mod_subtract k d m = mod_add k (f64_neg d) m"

definition mod_multiply :: "u32 \<Rightarrow> f64_bits \<Rightarrow> modifier_map \<Rightarrow> modifier_map" where
  "mod_multiply k factor m = mod_set k (f64_mul (mod_get k m) factor) m"

definition mod_divide :: "u32 \<Rightarrow> f64_bits \<Rightarrow> modifier_map \<Rightarrow> modifier_map" where
  "mod_divide k divisor m = (if f64_eq divisor 0 then m else mod_set k (f64_div (mod_get k m) divisor) m)"

definition mod_clear :: "modifier_map \<Rightarrow> modifier_map" where
  "mod_clear m = Map.empty"

named_theorems mod_simps

lemma mod_get_new [mod_simps]: "mod_get k mod_new = 0"
  by (simp add: mod_get_def mod_new_def)

lemma mod_get_set [mod_simps]: "mod_get k (mod_set j v m) = (if k = j then v else mod_get k m)"
  by (simp add: mod_get_def mod_set_def)

lemma mod_get_add [mod_simps]:
  "mod_get k (mod_add j d m) = (if k = j then f64_add (mod_get j m) d else mod_get k m)"
  by (simp add: mod_add_def mod_get_set)

lemma mod_get_subtract [mod_simps]:
  "mod_get k (mod_subtract j d m) = (if k = j then f64_add (mod_get j m) (f64_neg d) else mod_get k m)"
  by (simp add: mod_subtract_def mod_get_add)

end
