(* ===== verification/StatusEffects.thy ===== *)
theory StatusEffects
  imports Modifier "HOL-Library.AList"
begin

text \<open>
  Status effects (\<open>map-server/src/status/\<close>): the flags and overwrite rules of \<open>flags.rs\<close>, the
  short ids of \<open>ids.rs\<close>, the events of \<open>outbox.rs\<close>, and the effect and its container of
  \<open>mod.rs\<close>. The effect map is an association list whose order stands for the iteration order of
  the hash map. An operation returns the events it pushed, in order. Times are \<open>u64\<close>
  milliseconds and \<open>u32\<close> seconds, durations and deltas \<open>u32\<close> and \<open>i32\<close>.
\<close>

section \<open>Flags, ids and events\<close>

definition SF_LOSE_ON_DEATH :: u32 where "SF_LOSE_ON_DEATH = 0x1"
definition SF_LOSE_ON_ZONING :: u32 where "SF_LOSE_ON_ZONING = 0x2"
definition SF_LOSE_ON_LOGOUT :: u32 where "SF_LOSE_ON_LOGOUT = 0x10"
definition SF_STANCE :: u32 where "SF_STANCE = 0x20000000"

definition sf_contains :: "u32 \<Rightarrow> u32 \<Rightarrow> bool" where
  "sf_contains flags other \<longleftrightarrow> (flags AND other) = other"

definition sf_intersects :: "u32 \<Rightarrow> u32 \<Rightarrow> bool" where
  "sf_intersects flags other \<longleftrightarrow> (flags AND other) \<noteq> 0"

datatype overwrite_rule = OwNone | OwAlways | OwGreaterOrEqualTo | OwGreaterOnly

fun overwrite_from_u8 :: "u8 \<Rightarrow> overwrite_rule" where
  "overwrite_from_u8 b =
     (if b = 1 then OwAlways else if b = 2 then OwGreaterOrEqualTo
      else if b = 3 then OwGreaterOnly else OwNone)"

fun overwrite_as_u8 :: "overwrite_rule \<Rightarrow> u8" where
  "overwrite_as_u8 OwNone = 0"
| "overwrite_as_u8 OwAlways = 1"
| "overwrite_as_u8 OwGreaterOrEqualTo = 2"
| "overwrite_as_u8 OwGreaterOnly = 3"

definition STATUS_POISON :: u32 where "STATUS_POISON = 223011"
definition STATUS_EXP_CHAIN :: u32 where "STATUS_EXP_CHAIN = 300004"

definition status_id_of :: "u32 \<Rightarrow> u16" where
  "status_id_of effect_id = ucast (u32_saturating_sub effect_id 200000)"

datatype status_event =
    StDbSave u32
  | StSetStatus u32 u16 u16
  | StSetTime u32 u16 u32
  | StRecalcStats u32
  | StHpTick u32 int
  | StMpTick u32 int
  | StTpTick u32 int
  | StLuaCall u32 u32 string
  | StText u32 u16 u32 bool

definition MAX_EFFECTS :: nat where "MAX_EFFECTS = 20"
definition DEFAULT_GAIN_TEXT_ID :: u16 where "DEFAULT_GAIN_TEXT_ID = 30328"
definition DEFAULT_LOSS_TEXT_ID :: u16 where "DEFAULT_LOSS_TEXT_ID = 30331"
definition REPLACE_TEXT_ID :: u16 where "REPLACE_TEXT_ID = 30330"
definition STANCE_END_TIME :: u32 where "STANCE_END_TIME = 0xFFFFFFFF"
definition REGEN_TICK_MS :: u64 where "REGEN_TICK_MS = 3000"

section \<open>One effect\<close>

record status_effect =
  se_owner :: u32
  se_source :: u32
  se_id :: u32
  se_start_time :: u32
  se_end_time :: u32
  se_last_tick_ms :: u64
  se_duration :: u32
  se_tick_ms :: u32
  se_magnitude :: f64_bits
  se_tier :: u8
  se_extra :: f64_bits
  se_flags :: u32
  se_overwrite :: overwrite_rule
  se_silent_on_gain :: bool
  se_silent_on_loss :: bool
  se_hidden :: bool
  se_gain_text :: u16
  se_loss_text :: u16

text \<open>Seconds of a millisecond clock, \<open>(now_ms / 1000) as u32\<close>.\<close>

definition secs :: "u64 \<Rightarrow> u32" where
  "secs now = ucast (now div 1000)"

definition effect_from_template ::
  "u32 \<Rightarrow> u32 \<Rightarrow> u8 \<Rightarrow> u32 \<Rightarrow> bool \<Rightarrow> bool \<Rightarrow> bool \<Rightarrow> u16 \<Rightarrow> u16 \<Rightarrow> status_effect" where
  "effect_from_template effect_id flags rule tick hidden silent_gain silent_loss gain_text loss_text =
     \<lparr>se_owner = 0, se_source = 0, se_id = effect_id, se_start_time = 0, se_end_time = 0,
      se_last_tick_ms = 0, se_duration = 0, se_tick_ms = tick, se_magnitude = 0, se_tier = 0,
      se_extra = 0, se_flags = flags, se_overwrite = overwrite_from_u8 rule,
      se_silent_on_gain = silent_gain, se_silent_on_loss = silent_loss, se_hidden = hidden,
      se_gain_text = gain_text, se_loss_text = loss_text\<rparr>"

definition effect_new :: "u32 \<Rightarrow> u32 \<Rightarrow> f64_bits \<Rightarrow> u32 \<Rightarrow> u32 \<Rightarrow> u8 \<Rightarrow> u64 \<Rightarrow> status_effect" where
  "effect_new owner_id effect_id magnitude tick duration tier now =
     \<lparr>se_owner = owner_id, se_source = owner_id, se_id = effect_id, se_start_time = secs now,
      se_end_time = 0, se_last_tick_ms = now, se_duration = duration, se_tick_ms = tick,
      se_magnitude = magnitude, se_tier = tier, se_extra = 0, se_flags = 0, se_overwrite = OwNone,
      se_silent_on_gain = False, se_silent_on_loss = False, se_hidden = False,
      se_gain_text = DEFAULT_GAIN_TEXT_ID, se_loss_text = DEFAULT_LOSS_TEXT_ID\<rparr>"

definition cloned_for :: "u32 \<Rightarrow> status_effect \<Rightarrow> status_effect" where
  "cloned_for new_owner e = e\<lparr>se_owner := new_owner, se_source := new_owner\<rparr>"

definition effect_status_id :: "status_effect \<Rightarrow> u16" where
  "effect_status_id e = status_id_of (se_id e)"

definition is_stance :: "status_effect \<Rightarrow> bool" where
  "is_stance e \<longleftrightarrow> sf_contains (se_flags e) SF_STANCE"

definition set_start_time :: "u64 \<Rightarrow> status_effect \<Rightarrow> status_effect" where
  "set_start_time now e = e\<lparr>se_start_time := secs now, se_last_tick_ms := now\<rparr>"

definition set_end_time :: "u32 \<Rightarrow> status_effect \<Rightarrow> status_effect" where
  "set_end_time t e = e\<lparr>se_end_time := (if is_stance e then STANCE_END_TIME else t)\<rparr>"

definition wire_end_time :: "status_effect \<Rightarrow> u32" where
  "wire_end_time e = (if is_stance e then STANCE_END_TIME else se_end_time e)"

definition refresh_time :: "u64 \<Rightarrow> u16 option \<Rightarrow> status_effect \<Rightarrow> status_effect \<times> status_event list" where
  "refresh_time now slot e =
     (let e1 = set_end_time (u32_saturating_add (secs now) (se_duration e)) e
      in (e1, case slot of None \<Rightarrow> [] | Some i \<Rightarrow> [StSetTime (se_owner e1) i (wire_end_time e1)]))"

text \<open>One effect's tick: whether it has expired, the effect, and its \<open>onTick\<close>.\<close>

definition effect_update :: "u64 \<Rightarrow> status_effect \<Rightarrow> bool \<times> status_effect \<times> status_event list" where
  "effect_update now e =
     (let ticked = (se_tick_ms e \<noteq> 0 \<and> ucast (se_tick_ms e) \<le> u64_saturating_sub now (se_last_tick_ms e));
          e1 = (if ticked then e\<lparr>se_last_tick_ms := now\<rparr> else e)
      in (\<not> is_stance e1 \<and> se_end_time e1 \<noteq> 0 \<and> se_end_time e1 \<le> secs now, e1,
          if ticked then [StLuaCall (se_owner e) (se_id e) ''onTick''] else []))"

section \<open>The container\<close>

record status_container =
  sc_owner :: u32
  sc_effects :: "(u32 \<times> status_effect) list"
  sc_status :: "u16 list"
  sc_shown_time :: "u32 list"
  sc_last_regen_ms :: u64

definition status_new :: "u32 \<Rightarrow> status_container" where
  "status_new owner_id =
     \<lparr>sc_owner = owner_id, sc_effects = [], sc_status = replicate MAX_EFFECTS 0,
      sc_shown_time = replicate MAX_EFFECTS 0, sc_last_regen_ms = 0\<rparr>"

definition status_get :: "u32 \<Rightarrow> status_container \<Rightarrow> status_effect option" where
  "status_get effect_id c = map_of (sc_effects c) effect_id"

definition status_has :: "u32 \<Rightarrow> status_container \<Rightarrow> bool" where
  "status_has effect_id c \<longleftrightarrow> status_get effect_id c \<noteq> None"

definition get_by_flag :: "u32 \<Rightarrow> status_container \<Rightarrow> status_effect list" where
  "get_by_flag flag c = filter (\<lambda>e. sf_intersects (se_flags e) flag) (map snd (sc_effects c))"

definition has_by_flag :: "u32 \<Rightarrow> status_container \<Rightarrow> bool" where
  "has_by_flag flag c \<longleftrightarrow> (\<exists>p \<in> set (sc_effects c). sf_intersects (se_flags (snd p)) flag)"

text \<open>\<open>iter().position(..)\<close>.\<close>

fun first_index :: "('a \<Rightarrow> bool) \<Rightarrow> 'a list \<Rightarrow> nat option" where
  "first_index P [] = None"
| "first_index P (x # xs) = (if P x then Some 0 else map_option Suc (first_index P xs))"

definition set_status_at_index :: "nat \<Rightarrow> u16 \<Rightarrow> status_container \<Rightarrow> status_container \<times> status_event list" where
  "set_status_at_index i sid c =
     (if i < length (sc_status c)
      then (c\<lparr>sc_status := (sc_status c)[i := sid]\<rparr>, [StSetStatus (sc_owner c) (of_nat i) sid])
      else (c, []))"

definition set_time_at_index :: "nat \<Rightarrow> u32 \<Rightarrow> status_container \<Rightarrow> status_container \<times> status_event list" where
  "set_time_at_index i t c =
     (if i < length (sc_shown_time c)
      then (c\<lparr>sc_shown_time := (sc_shown_time c)[i := t]\<rparr>, [StSetTime (sc_owner c) (of_nat i) t])
      else (c, []))"

text \<open>Both writes to a slot, the icon and its time.\<close>

definition set_slot :: "nat \<Rightarrow> u16 \<Rightarrow> u32 \<Rightarrow> status_container \<Rightarrow> status_container \<times> status_event list" where
  "set_slot i sid t c =
     (let (c1, ob1) = set_status_at_index i sid c; (c2, ob2) = set_time_at_index i t c1
      in (c2, ob1 @ ob2))"

section \<open>Regeneration\<close>

record passive_delta =
  pd_hp :: int
  pd_mp :: int
  pd_tp :: int

definition regen_tick :: "modifier_map \<Rightarrow> passive_delta \<Rightarrow> status_container \<Rightarrow> status_event list" where
  "regen_tick mods passive c =
     (let dot = f64_to_i32 (mod_get MOD_REGEN_DOWN mods);
          regen = i32_wrap (f64_to_i32 (mod_get MOD_REGEN mods) + pd_hp passive);
          refresh = i32_wrap (f64_to_i32 (mod_get MOD_REFRESH mods) + pd_mp passive);
          regain = i32_wrap (f64_to_i32 (mod_get MOD_REGAIN mods) + pd_tp passive)
      in (if 0 < dot then [StHpTick (sc_owner c) (- dot)] else [])
         @ (if regen \<noteq> 0 then [StHpTick (sc_owner c) regen] else [])
         @ (if refresh \<noteq> 0 then [StMpTick (sc_owner c) refresh] else [])
         @ (if regain \<noteq> 0 then [StTpTick (sc_owner c) regain] else []))"

section \<open>Adding and removing\<close>

fun overwrites :: "overwrite_rule \<Rightarrow> status_effect \<Rightarrow> status_effect \<Rightarrow> bool" where
  "overwrites OwNone old e = False"
| "overwrites OwAlways old e = True"
| "overwrites OwGreaterOnly old e =
     (se_duration old < se_duration e \<or> f64_lt (se_magnitude old) (se_magnitude e))"
| "overwrites OwGreaterOrEqualTo old e =
     (se_duration old \<le> se_duration e \<or> f64_le (se_magnitude old) (se_magnitude e))"

definition or_else :: "'a option \<Rightarrow> 'a option \<Rightarrow> 'a option" where
  "or_else a b = (case a of None \<Rightarrow> b | Some x \<Rightarrow> Some x)"

definition add_status_effect ::
  "status_effect \<Rightarrow> u32 \<Rightarrow> u64 \<Rightarrow> u16 \<Rightarrow> status_container \<Rightarrow> bool \<times> status_container \<times> status_event list" where
  "add_status_effect e0 source_id now text c =
     (let existing = status_get (se_id e0) c;
          can_overwrite = (case existing of None \<Rightarrow> False | Some old \<Rightarrow> overwrites (se_overwrite old) old e0)
      in if existing \<noteq> None \<and> \<not> can_overwrite then (False, c, [])
         else
           let ob1 = (if se_silent_on_gain e0 then [] else [StText (sc_owner c) text (se_id e0) True]);
               c1 = (if can_overwrite then c\<lparr>sc_effects := AList.delete (se_id e0) (sc_effects c)\<rparr> else c);
               prior_slot = (if can_overwrite
                 then first_index (\<lambda>s. s = effect_status_id e0) (sc_status c1) else None);
               e1 = set_start_time now (e0\<lparr>se_owner := sc_owner c, se_source := source_id\<rparr>);
               e2 = set_end_time (u32_saturating_add (secs now) (se_duration e1)) e1
           in if MAX_EFFECTS \<le> length (sc_effects c1) then (False, c1, ob1)
              else
                let ob2 = [StLuaCall (sc_owner c) (se_id e0) ''onGain''];
                    slot = or_else prior_slot
                      (or_else (first_index (\<lambda>s. s = effect_status_id e2) (sc_status c1))
                               (first_index (\<lambda>s. s = 0) (sc_status c1)));
                    (c2, ob3) = (if se_hidden e2 then (c1, [])
                      else case slot of None \<Rightarrow> (c1, [])
                           | Some i \<Rightarrow> set_slot i (effect_status_id e2) (wire_end_time e2) c1)
                in (True, c2\<lparr>sc_effects := AList.update (se_id e0) e2 (sc_effects c2)\<rparr>,
                    ob1 @ ob2 @ ob3 @ [StRecalcStats (sc_owner c)]))"

definition remove_status_effect ::
  "u32 \<Rightarrow> u16 \<Rightarrow> bool \<Rightarrow> status_container \<Rightarrow> bool \<times> status_container \<times> status_event list" where
  "remove_status_effect effect_id text play c =
     (case status_get effect_id c of
        None \<Rightarrow> (False, c, [])
      | Some e \<Rightarrow>
         (let ob1 = (if se_silent_on_loss e then [] else [StText (sc_owner c) text effect_id play]);
              (c1, ob2) = (if se_hidden e then (c, [])
                else case first_index (\<lambda>s. s = effect_status_id e) (sc_status c) of
                       None \<Rightarrow> (c, [])
                     | Some i \<Rightarrow> set_slot i 0 0 c)
          in (True, c1\<lparr>sc_effects := AList.delete effect_id (sc_effects c1)\<rparr>,
              ob1 @ ob2 @ [StLuaCall (sc_owner c) effect_id ''onLose'', StRecalcStats (sc_owner c)])))"

text \<open>Removal of a list of effects one after the other, with the loss text of each.\<close>

fun remove_effects ::
  "bool \<Rightarrow> (u32 \<times> u16) list \<Rightarrow> status_container \<Rightarrow> status_container \<times> status_event list" where
  "remove_effects play [] c = (c, [])"
| "remove_effects play ((a, text) # rest) c =
     (let (removed, c1, ob1) = remove_status_effect a text play c;
          (c2, ob2) = remove_effects play rest c1
      in (c2, ob1 @ ob2))"

definition remove_by_flag :: "u32 \<Rightarrow> status_container \<Rightarrow> bool \<times> status_container \<times> status_event list" where
  "remove_by_flag flag c =
     (let ids = map (\<lambda>e. (se_id e, se_loss_text e)) (get_by_flag flag c);
          (c1, ob) = remove_effects True ids c
      in (ids \<noteq> [], c1, ob))"

definition clear_all :: "status_container \<Rightarrow> status_container \<times> status_event list" where
  "clear_all c = remove_effects False (map (\<lambda>e. (se_id e, se_loss_text e)) (map snd (sc_effects c))) c"

definition replace_effect ::
  "u32 \<Rightarrow> status_effect \<Rightarrow> u64 \<Rightarrow> status_container \<Rightarrow> bool \<times> status_container \<times> status_event list" where
  "replace_effect old_id new0 now c =
     (case status_get old_id c of
        None \<Rightarrow> (False, c, [])
      | Some old \<Rightarrow>
         (let c1 = c\<lparr>sc_effects := AList.delete old_id (sc_effects c)\<rparr>;
              e1 = set_start_time now (new0\<lparr>se_owner := sc_owner c\<rparr>);
              e2 = set_end_time (u32_saturating_add (secs now) (se_duration e1)) e1;
              (c2, ob2) = (case first_index (\<lambda>s. s = effect_status_id old) (sc_status c1) of
                 None \<Rightarrow> (c1, [])
               | Some i \<Rightarrow>
                  (let (k1, o1) = set_status_at_index i 0 c1;
                       (k2, o2) = set_slot i (effect_status_id e2) (wire_end_time e2) k1
                   in (k2, o1 @ o2)))
          in (True, c2\<lparr>sc_effects := AList.update (se_id e2) e2 (sc_effects c2)\<rparr>,
              [StLuaCall (sc_owner c) old_id ''onLose'', StLuaCall (sc_owner c) (se_id new0) ''onGain'']
              @ ob2 @ [StText (sc_owner c) REPLACE_TEXT_ID (se_id e2) True])))"

definition copy_effect ::
  "status_effect \<Rightarrow> u64 \<Rightarrow> status_container \<Rightarrow> bool \<times> status_container \<times> status_event list" where
  "copy_effect template now c =
     add_status_effect (cloned_for (sc_owner c) template) (se_source template) now DEFAULT_GAIN_TEXT_ID c"

definition save_to_db :: "status_container \<Rightarrow> status_event list" where
  "save_to_db c = [StDbSave (sc_owner c)]"

section \<open>The tick\<close>

fun update_effects ::
  "u64 \<Rightarrow> (u32 \<times> status_effect) list \<Rightarrow> u32 list \<times> (u32 \<times> status_effect) list \<times> status_event list" where
  "update_effects now [] = ([], [], [])"
| "update_effects now ((a, e) # rest) =
     (let (expired, e1, ob1) = effect_update now e;
          (gone, rest1, ob2) = update_effects now rest
      in ((if expired then a # gone else gone), (a, e1) # rest1, ob1 @ ob2))"

definition loss_text_of :: "status_container \<Rightarrow> u32 \<Rightarrow> u16" where
  "loss_text_of c a = (case status_get a c of Some e \<Rightarrow> se_loss_text e | None \<Rightarrow> DEFAULT_LOSS_TEXT_ID)"

definition status_update ::
  "u64 \<Rightarrow> modifier_map \<Rightarrow> passive_delta \<Rightarrow> status_container \<Rightarrow> status_container \<times> status_event list" where
  "status_update now mods passive c =
     (let due = (REGEN_TICK_MS \<le> u64_saturating_sub now (sc_last_regen_ms c));
          ob1 = (if due then regen_tick mods passive c else []);
          c1 = (if due then c\<lparr>sc_last_regen_ms := now\<rparr> else c);
          (expired, effects, ob2) = update_effects now (sc_effects c1);
          c2 = c1\<lparr>sc_effects := effects\<rparr>;
          (c3, ob3) = remove_effects True (map (\<lambda>a. (a, loss_text_of c2 a)) expired) c2
      in (c3, ob1 @ ob2 @ ob3))"

text \<open>The rows of \<open>Database::save_player_status_effects\<close>.\<close>

record status_row =
  sr_status_id :: u32
  sr_duration :: u32
  sr_magnitude :: u64
  sr_tick :: u32
  sr_tier :: u8
  sr_extra :: u64

definition to_db_entries :: "status_container \<Rightarrow> status_row list" where
  "to_db_entries c = map (\<lambda>(a, e).
     \<lparr>sr_status_id = se_id e, sr_duration = se_duration e, sr_magnitude = f64_to_u64 (se_magnitude e),
      sr_tick = se_tick_ms e, sr_tier = se_tier e, sr_extra = f64_to_u64 (se_extra e)\<rparr>) (sc_effects c)"

end
