(* ===== verification/Chara.thy ===== *)
theory Chara
  imports StatusEffects BattleTick
begin

text \<open>
  A character and its pools and stats (\<open>map-server/src/actor/chara.rs\<close>, with the fields of
  \<open>actor/mod.rs\<close> and the item attributes of \<open>data.rs\<close> they use). Pools and levels are \<open>i16\<close> and the
  tactical points \<open>u16\<close>, kept as integers; the sums are \<open>i32\<close>. \<open>clamp\<close> panics when its bounds
  are crossed, so setting a pool is an outcome. Equipment is a list of slots with their items in
  the iteration order of the source's map.
\<close>

text \<open>A slot of the command bar, \<open>gamedata::HotbarEntry\<close>.\<close>

record hotbar_entry =
  hb_slot :: u16
  hb_command :: u32
  hb_recast :: u32

record character =
  ch_actor_id :: u32
  ch_main_state :: u16
  ch_new_main_state :: u16
  ch_time_of_death_utc :: u32
  ch_hp :: int
  ch_max_hp :: int
  ch_mp :: int
  ch_max_mp :: int
  ch_tp :: int
  ch_class :: int
  ch_current_job :: int
  ch_level :: int
  ch_mods :: modifier_map
  ch_actor_class_id :: u32
  ch_status :: status_container
  ch_ai :: ai_container
  ch_hate :: hate_container
  ch_skill_level :: "int list"
  ch_skill_point :: "int list"
  ch_rest_bonus :: int
  ch_hotbar :: "hotbar_entry list"

text \<open>\<open>Character::new\<close>.\<close>

definition character_new :: "u32 \<Rightarrow> character" where
  "character_new actor_id =
     \<lparr>ch_actor_id = actor_id, ch_main_state = 0, ch_new_main_state = 0, ch_time_of_death_utc = 0,
      ch_hp = 0, ch_max_hp = 0, ch_mp = 0, ch_max_mp = 0, ch_tp = 0, ch_class = 0, ch_current_job = 0,
      ch_level = 0, ch_mods = mod_new, ch_actor_class_id = 0, ch_status = status_new actor_id,
      ch_ai = ai_new actor_id None None, ch_hate = hate_new actor_id,
      ch_skill_level = replicate 52 0, ch_skill_point = replicate 52 0, ch_rest_bonus = 0, ch_hotbar = []\<rparr>"

definition MAX_TP :: int where "MAX_TP = 3000"

definition ch_is_dead :: "character \<Rightarrow> bool" where "ch_is_dead c \<longleftrightarrow> ch_hp c \<le> 0"
definition ch_is_alive :: "character \<Rightarrow> bool" where "ch_is_alive c \<longleftrightarrow> 0 < ch_hp c"

text \<open>\<open>Ord::clamp\<close>.\<close>

definition clamp_int :: "int \<Rightarrow> int \<Rightarrow> int \<Rightarrow> ('e, int) outcome" where
  "clamp_int lo hi x = (if lo \<le> hi then Ok (max lo (min hi x)) else Panic)"

text \<open>Integer division truncates toward zero.\<close>

definition i32_quot :: "int \<Rightarrow> int \<Rightarrow> int" where
  "i32_quot a b = sgn a * sgn b * (\<bar>a\<bar> div \<bar>b\<bar>)"

definition hpp :: "character \<Rightarrow> int" where
  "hpp c = (if ch_max_hp c = 0 then 0 else max 0 (min 100 (i32_quot (ch_hp c * 100) (ch_max_hp c))))"

definition mpp :: "character \<Rightarrow> int" where
  "mpp c = (if ch_max_mp c = 0 then 0 else max 0 (min 100 (i32_quot (ch_mp c * 100) (ch_max_mp c))))"

definition tpp :: "character \<Rightarrow> int" where
  "tpp c = min (ch_tp c) 3000 * 100 div 3000"

section \<open>Pools\<close>

type_synonym 'a result = "(unit, 'a) outcome"

definition hp_floor :: "character \<Rightarrow> int" where
  "hp_floor c = (if f64_le (f64_lit 1 1) (mod_get MOD_MINIMUM_HP_LOCK (ch_mods c)) then 1 else 0)"

definition set_hp :: "int \<Rightarrow> character \<Rightarrow> character result" where
  "set_hp hp c = bind_outcome (clamp_int (hp_floor c) (ch_max_hp c) hp) (\<lambda>h. Ok (c\<lparr>ch_hp := h\<rparr>))"

text \<open>\<open>max_hp.max(0) as i16\<close> wraps above the range of \<open>i16\<close>.\<close>

definition set_max_hp :: "int \<Rightarrow> character \<Rightarrow> character" where
  "set_max_hp max_hp c =
     (let m = i16_wrap (max max_hp 0) in c\<lparr>ch_max_hp := m, ch_hp := (if m < ch_hp c then m else ch_hp c)\<rparr>)"

definition set_mp :: "int \<Rightarrow> character \<Rightarrow> character result" where
  "set_mp mp c = bind_outcome (clamp_int 0 (ch_max_mp c) mp) (\<lambda>m. Ok (c\<lparr>ch_mp := m\<rparr>))"

definition set_max_mp :: "int \<Rightarrow> character \<Rightarrow> character" where
  "set_max_mp max_mp c =
     (let m = i16_wrap (max max_mp 0) in c\<lparr>ch_max_mp := m, ch_mp := (if m < ch_mp c then m else ch_mp c)\<rparr>)"

definition add_hp :: "int \<Rightarrow> character \<Rightarrow> character result" where
  "add_hp delta c = set_hp (i32_wrap (ch_hp c + delta)) c"

definition add_mp :: "int \<Rightarrow> character \<Rightarrow> character result" where
  "add_mp delta c = set_mp (i32_wrap (ch_mp c + delta)) c"

definition tp_floor :: "character \<Rightarrow> int" where
  "tp_floor c = max 0 (min MAX_TP (f64_to_i32 (mod_get MOD_MINIMUM_TP_LOCK (ch_mods c))))"

definition add_tp :: "int \<Rightarrow> character \<Rightarrow> character" where
  "add_tp delta c = c\<lparr>ch_tp := max (tp_floor c) (min MAX_TP (i32_wrap (ch_tp c + delta)))\<rparr>"

definition del_hp :: "int \<Rightarrow> character \<Rightarrow> character result" where
  "del_hp n c = add_hp (i32_wrap (- n)) c"

definition del_mp :: "int \<Rightarrow> character \<Rightarrow> character result" where
  "del_mp n c = add_mp (i32_wrap (- n)) c"

definition del_tp :: "int \<Rightarrow> character \<Rightarrow> character" where
  "del_tp n c = add_tp (i32_wrap (- n)) c"

section \<open>Recalculation\<close>

text \<open>The current pool: a percentage of the maximum where one is set, else all of it.\<close>

definition pool_of :: "f64_bits \<Rightarrow> int \<Rightarrow> int" where
  "pool_of percent maximum =
     (if f64_lt 0 percent then f64_to_i32 (f64_ceil (f64_mul (f64_div percent (f64_lit 100 1)) (f64_of_int maximum)))
      else maximum)"

definition seed_hit_count :: "character \<Rightarrow> character" where
  "seed_hit_count c =
     (if f64_le (mod_get MOD_HIT_COUNT (ch_mods c)) 0
      then c\<lparr>ch_mods := mod_set MOD_HIT_COUNT (f64_lit 1 1) (ch_mods c)\<rparr> else c)"

definition calculate_base_stats :: "character \<Rightarrow> character result" where
  "calculate_base_stats c =
     (let hp_mod = f64_to_i32 (mod_get MOD_HP (ch_mods c)) in
      bind_outcome
        (if 0 < hp_mod
         then set_hp (pool_of (mod_get MOD_HP_PERCENT (ch_mods c)) hp_mod) (set_max_hp hp_mod c)
         else Ok c) (\<lambda>c1.
      let mp_mod = f64_to_i32 (mod_get MOD_MP (ch_mods c1)) in
      bind_outcome
        (if 0 < mp_mod
         then set_mp (pool_of (mod_get MOD_MP_PERCENT (ch_mods c1)) mp_mod) (set_max_mp mp_mod c1)
         else Ok c1) (\<lambda>c2.
      Ok (seed_hit_count c2))))"

definition recalculate_stats :: "character \<Rightarrow> character result" where
  "recalculate_stats c = calculate_base_stats c"

subsection \<open>The stats of a player\<close>

definition CLASSID_PUG :: int where "CLASSID_PUG = 2"
definition CLASSID_GLA :: int where "CLASSID_GLA = 3"
definition CLASSID_MRD :: int where "CLASSID_MRD = 4"
definition CLASSID_ARC :: int where "CLASSID_ARC = 7"
definition CLASSID_LNC :: int where "CLASSID_LNC = 8"
definition CLASSID_THM :: int where "CLASSID_THM = 22"
definition CLASSID_CNJ :: int where "CLASSID_CNJ = 23"
definition CLASSID_CRP :: int where "CLASSID_CRP = 29"
definition CLASSID_CUL :: int where "CLASSID_CUL = 36"
definition CLASSID_MIN :: int where "CLASSID_MIN = 39"
definition CLASSID_FSH :: int where "CLASSID_FSH = 41"

definition seed_if_zero :: "u32 \<Rightarrow> f64_bits \<Rightarrow> modifier_map \<Rightarrow> modifier_map" where
  "seed_if_zero k v m = (if f64_le (mod_get k m) 0 then mod_set k v m else m)"

definition primaries :: "u32 list" where
  "primaries = [MOD_STRENGTH, MOD_VITALITY, MOD_DEXTERITY, MOD_INTELLIGENCE, MOD_MIND, MOD_PIETY]"

text \<open>The two stats a class emphasises; none for an unknown class.\<close>

definition class_emphasis :: "int \<Rightarrow> (u32 \<times> u32) option" where
  "class_emphasis class =
     (if class = CLASSID_PUG then Some (MOD_STRENGTH, MOD_DEXTERITY)
      else if class = CLASSID_LNC then Some (MOD_STRENGTH, MOD_VITALITY)
      else if class = CLASSID_ARC then Some (MOD_DEXTERITY, MOD_STRENGTH)
      else if class = CLASSID_GLA then Some (MOD_VITALITY, MOD_STRENGTH)
      else if class = CLASSID_MRD then Some (MOD_STRENGTH, MOD_VITALITY)
      else if class = CLASSID_THM then Some (MOD_INTELLIGENCE, MOD_MIND)
      else if class = CLASSID_CNJ then Some (MOD_MIND, MOD_PIETY)
      else if CLASSID_CRP \<le> class \<and> class \<le> CLASSID_CUL then Some (MOD_DEXTERITY, MOD_INTELLIGENCE)
      else if CLASSID_MIN \<le> class \<and> class \<le> CLASSID_FSH then Some (MOD_DEXTERITY, MOD_MIND)
      else None)"

definition level_curve :: "int \<Rightarrow> int \<Rightarrow> int \<Rightarrow> f64_bits" where
  "level_curve base per_level level =
     f64_add (f64_lit base 1) (f64_mul (f64_of_int (max level 1)) (f64_lit per_level 1))"

definition baseline_mods :: "int \<Rightarrow> int \<Rightarrow> modifier_map \<Rightarrow> modifier_map" where
  "baseline_mods class level m =
     (let primary = level_curve 8 2 level;
          mp = (if class = CLASSID_THM \<or> class = CLASSID_CNJ then level_curve 80 20 level
                else level_curve 20 5 level);
          m1 = seed_if_zero MOD_TP (f64_lit 1000 1)
                 (seed_if_zero MOD_MP mp (seed_if_zero MOD_HP (level_curve 250 30 level) m));
          seeded = filter (\<lambda>k. f64_le (mod_get k m1) 0) primaries;
          m2 = fold (\<lambda>k. seed_if_zero k primary) primaries m1;
          bump = (\<lambda>k n. if k \<in> set seeded then mod_add k (f64_lit 2 1) n else n)
      in case class_emphasis class of None \<Rightarrow> m2
         | Some (k1, k2) \<Rightarrow> bump k2 (bump k1 m2))"

definition apply_player_stat_baseline :: "character \<Rightarrow> character" where
  "apply_player_stat_baseline c = c\<lparr>ch_mods := baseline_mods (ch_class c) (ch_level c) (ch_mods c)\<rparr>"

definition pipeline_keys :: "u32 list" where
  "pipeline_keys =
     [MOD_HP, MOD_MP, MOD_TP, MOD_STRENGTH, MOD_VITALITY, MOD_DEXTERITY, MOD_INTELLIGENCE, MOD_MIND,
      MOD_PIETY, MOD_ATTACK, MOD_ACCURACY, MOD_DEFENSE, MOD_ATTACK_MAGIC_POTENCY,
      MOD_HEALING_MAGIC_POTENCY, MOD_MAGIC_ACCURACY, MOD_MAGIC_EVASION, MOD_ENFEEBLING_MAGIC_POTENCY,
      MOD_DELAY, MOD_ATTACK_TYPE, MOD_HIT_COUNT, MOD_PARRY, MOD_WEAPON_DAMAGE_POWER]"

definition reset_player_bonus_stats :: "character \<Rightarrow> character" where
  "reset_player_bonus_stats c = c\<lparr>ch_mods := fold (\<lambda>k. mod_set k 0) pipeline_keys (ch_mods c)\<rparr>"

record weapon_attributes =
  wa_delay_ms :: u32
  wa_attack_type :: u16
  wa_hit_count :: u16
  wa_damage_power :: u16
  wa_attack :: u16
  wa_parry :: u16

record item_stats =
  is_gear_bonuses :: "(u32 \<times> int) list"
  is_weapon :: "weapon_attributes option"

type_synonym item_catalog = "u32 \<rightharpoonup> item_stats"
type_synonym equipment = "(u16 \<times> u32) list"

definition SLOT_MAINHAND :: u16 where "SLOT_MAINHAND = 0"
definition SLOT_OFFHAND :: u16 where "SLOT_OFFHAND = 1"

definition gear_of_item :: "item_catalog \<Rightarrow> u32 \<Rightarrow> modifier_map \<Rightarrow> modifier_map" where
  "gear_of_item items item m =
     (case items item of None \<Rightarrow> m
      | Some i \<Rightarrow> fold (\<lambda>(k, d). mod_add k (f64_of_int d)) (is_gear_bonuses i) m)"

definition apply_player_gear_stats :: "item_catalog \<Rightarrow> equipment \<Rightarrow> character \<Rightarrow> character" where
  "apply_player_gear_stats items eq c = c\<lparr>ch_mods := fold (gear_of_item items) (map snd eq) (ch_mods c)\<rparr>"

definition weapon_in :: "item_catalog \<Rightarrow> equipment \<Rightarrow> u16 \<Rightarrow> weapon_attributes option" where
  "weapon_in items eq slot =
     Option.bind (map_of eq slot) (\<lambda>item. Option.bind (items item) is_weapon)"

definition main_hand_mods :: "weapon_attributes \<Rightarrow> modifier_map \<Rightarrow> modifier_map" where
  "main_hand_mods w m =
     mod_add MOD_PARRY (f64_of_int (uint (wa_parry w)))
      (mod_add MOD_ATTACK (f64_of_int (uint (wa_attack w)))
      (mod_set MOD_HIT_COUNT (f64_of_int (uint (wa_hit_count w)))
      (mod_set MOD_ATTACK_TYPE (f64_of_int (uint (wa_attack_type w)))
      (mod_set MOD_DELAY (f64_div (f64_of_int (uint (wa_delay_ms w))) (f64_lit 1000 1)) m))))"

definition off_hand_mods :: "weapon_attributes \<Rightarrow> modifier_map \<Rightarrow> modifier_map" where
  "off_hand_mods w m =
     mod_add MOD_PARRY (f64_of_int (uint (wa_parry w)))
      (mod_add MOD_ATTACK (f64_of_int (uint (wa_attack w))) m)"

definition weapon_mods :: "item_catalog \<Rightarrow> equipment \<Rightarrow> modifier_map \<Rightarrow> modifier_map" where
  "weapon_mods items eq m =
     (let m1 = (case weapon_in items eq SLOT_MAINHAND of None \<Rightarrow> m | Some w \<Rightarrow> main_hand_mods w m)
      in case weapon_in items eq SLOT_OFFHAND of None \<Rightarrow> m1 | Some w \<Rightarrow> off_hand_mods w m1)"

definition apply_player_weapon_stats :: "item_catalog \<Rightarrow> equipment \<Rightarrow> character \<Rightarrow> character" where
  "apply_player_weapon_stats items eq c = c\<lparr>ch_mods := weapon_mods items eq (ch_mods c)\<rparr>"

definition weapon_damage_power_mods :: "item_catalog \<Rightarrow> equipment \<Rightarrow> modifier_map \<Rightarrow> modifier_map" where
  "weapon_damage_power_mods items eq m =
     mod_set MOD_WEAPON_DAMAGE_POWER
       (case weapon_in items eq SLOT_MAINHAND of None \<Rightarrow> 0 | Some w \<Rightarrow> f64_of_int (uint (wa_damage_power w))) m"

definition apply_player_weapon_damage_power :: "item_catalog \<Rightarrow> equipment \<Rightarrow> character \<Rightarrow> character" where
  "apply_player_weapon_damage_power items eq c = c\<lparr>ch_mods := weapon_damage_power_mods items eq (ch_mods c)\<rparr>"

definition derived :: "int \<Rightarrow> int \<Rightarrow> f64_bits \<Rightarrow> f64_bits" where
  "derived n d v = f64_floor (f64_mul v (f64_lit n d))"

definition derivation_mods :: "modifier_map \<Rightarrow> modifier_map" where
  "derivation_mods m =
     (let mnd = derived 25 100 (mod_get MOD_MIND m); pie = derived 25 100 (mod_get MOD_PIETY m)
      in mod_add MOD_ENFEEBLING_MAGIC_POTENCY pie
          (mod_add MOD_MAGIC_EVASION pie
          (mod_add MOD_HEALING_MAGIC_POTENCY mnd
          (mod_add MOD_MAGIC_ACCURACY mnd
          (mod_add MOD_ATTACK_MAGIC_POTENCY (derived 25 100 (mod_get MOD_INTELLIGENCE m))
          (mod_add MOD_DEFENSE (derived 667 1000 (mod_get MOD_VITALITY m))
          (mod_add MOD_ACCURACY (derived 667 1000 (mod_get MOD_DEXTERITY m))
          (mod_add MOD_ATTACK (derived 667 1000 (mod_get MOD_STRENGTH m)) m))))))))"

definition apply_player_stat_derivation :: "character \<Rightarrow> character" where
  "apply_player_stat_derivation c = c\<lparr>ch_mods := derivation_mods (ch_mods c)\<rparr>"

text \<open>
  The write to the character in \<open>apply_recalc_stats\<close> (\<open>runtime/dispatcher.rs\<close>): the pipeline for a
  player, then the pools.
\<close>

definition player_pipeline :: "item_catalog \<Rightarrow> equipment \<Rightarrow> character \<Rightarrow> character" where
  "player_pipeline items eq c =
     apply_player_stat_derivation (apply_player_weapon_damage_power items eq
       (apply_player_weapon_stats items eq (apply_player_gear_stats items eq
         (apply_player_stat_baseline (reset_player_bonus_stats c)))))"

definition recalc_character :: "bool \<Rightarrow> item_catalog \<Rightarrow> equipment \<Rightarrow> character \<Rightarrow> character result" where
  "recalc_character is_player items eq c =
     recalculate_stats (if is_player then player_pipeline items eq c else c)"

section \<open>Predicates and rates\<close>

definition can_attack :: "character \<Rightarrow> bool" where
  "can_attack c \<longleftrightarrow> ch_is_alive c \<and> f64_le (mod_get MOD_STEALTH (ch_mods c)) 0
     \<and> f64_le 0 (mod_get MOD_CAN_BLOCK (ch_mods c))"

definition get_attack_range :: "character \<Rightarrow> f32_bits" where
  "get_attack_range c =
     (let raw = mod_get MOD_ATTACK_RANGE (ch_mods c) in if f64_lt 0 raw then f32_of_f64 raw else 0x40400000)"

definition get_attack_delay_ms :: "character \<Rightarrow> u32" where
  "get_attack_delay_ms c =
     (let delay = mod_get MOD_DELAY (ch_mods c)
      in if f64_lt 0 delay then f64_to_u32 (f64_mul delay (f64_lit 1000 1)) else 2500)"

definition get_speed :: "character \<Rightarrow> f32_bits" where
  "get_speed c =
     (let ms = mod_get MOD_MOVEMENT_SPEED (ch_mods c) in if f64_lt 0 ms then f32_of_f64 ms else 0x40A00000)"

text \<open>\<open>class as u8\<close> truncates.\<close>

definition class_u8 :: "character \<Rightarrow> int" where "class_u8 c = ch_class c mod 256"

definition is_disciple_of_war :: "character \<Rightarrow> bool" where
  "is_disciple_of_war c \<longleftrightarrow> 2 \<le> class_u8 c \<and> class_u8 c \<le> 8"
definition is_disciple_of_magic :: "character \<Rightarrow> bool" where
  "is_disciple_of_magic c \<longleftrightarrow> 22 \<le> class_u8 c \<and> class_u8 c \<le> 23"
definition is_disciple_of_hand :: "character \<Rightarrow> bool" where
  "is_disciple_of_hand c \<longleftrightarrow> 29 \<le> class_u8 c \<and> class_u8 c \<le> 36"
definition is_disciple_of_land :: "character \<Rightarrow> bool" where
  "is_disciple_of_land c \<longleftrightarrow> 39 \<le> class_u8 c \<and> class_u8 c \<le> 41"

definition is_valid_target :: "character \<Rightarrow> u32 \<Rightarrow> character \<Rightarrow> bool" where
  "is_valid_target target_c bits c \<longleftrightarrow>
     (ch_is_alive target_c \<or> (bits AND 0x20) \<noteq> 0)
     \<and> (ch_actor_id c \<noteq> ch_actor_id target_c \<or> (bits AND 0x01) \<noteq> 0)
     \<and> \<not> f64_lt (mod_get MOD_TARGETABLE (ch_mods target_c)) 0"

end
