(* ===== verification/BattleMath.thy ===== *)
theory BattleMath
  imports BattleTypes Modifier
begin

text \<open>
  The damage formulas and the resolution of a hit (\<open>map-server/src/battle/utils.rs\<close>) and the
  experience formulas of \<open>battle/exp.rs\<close>. Operations that change a result in place return it.
  Levels and pools are \<open>i16\<close>, rates and intermediate damages \<open>f64\<close>. A random source is its
  sequence of values with the number of values drawn.
\<close>

section \<open>Texts and effect bits of a hit\<close>

fun physical_hit_text_id :: "hit_type \<Rightarrow> u16" where
  "physical_hit_text_id t =
     (case t of HtMiss \<Rightarrow> 30311 | HtEvade \<Rightarrow> 30310 | HtParry \<Rightarrow> 30308 | HtBlock \<Rightarrow> 30306
      | HtHit \<Rightarrow> 30301 | HtCrit \<Rightarrow> 30302 | _ \<Rightarrow> 0)"

fun magical_hit_text_id :: "hit_type \<Rightarrow> u16" where
  "magical_hit_text_id t =
     (case t of HtSingleResist \<Rightarrow> 30318 | HtDoubleResist \<Rightarrow> 30317 | HtTripleResist \<Rightarrow> 30316
      | HtFullResist \<Rightarrow> 30316 | HtHit \<Rightarrow> 30319 | HtCrit \<Rightarrow> 30392 | _ \<Rightarrow> 0)"

fun multi_hit_text_id :: "hit_type \<Rightarrow> u16" where
  "multi_hit_text_id t =
     (case t of HtMiss \<Rightarrow> 30449 | HtParry \<Rightarrow> 30448 | HtBlock \<Rightarrow> 30447 | HtHit \<Rightarrow> 30443
      | HtCrit \<Rightarrow> 30444 | _ \<Rightarrow> 0)"

fun physical_hit_effect :: "hit_type \<Rightarrow> u32" where
  "physical_hit_effect t =
     (case t of HtMiss \<Rightarrow> HE_MISS | HtEvade \<Rightarrow> HE_EVADE | HtParry \<Rightarrow> HE_PARRY | HtBlock \<Rightarrow> HE_BLOCK
      | HtHit \<Rightarrow> HE_HIT | HtCrit \<Rightarrow> HE_CRIT OR CRITICAL_HIT | _ \<Rightarrow> 0)"

fun magical_hit_effect :: "hit_type \<Rightarrow> u32" where
  "magical_hit_effect t =
     (case t of HtSingleResist \<Rightarrow> HE_WEAK_RESIST | HtDoubleResist \<Rightarrow> HE_WEAK_RESIST
      | HtTripleResist \<Rightarrow> HE_WEAK_RESIST | HtFullResist \<Rightarrow> HE_FULL_RESIST | HtHit \<Rightarrow> HE_NO_RESIST
      | HtCrit \<Rightarrow> HE_CRIT | _ \<Rightarrow> 0)"

section \<open>Views and random values\<close>

record combat_view =
  cv_actor_id :: u32
  cv_level :: int
  cv_max_hp :: int
  cv_mods :: modifier_map
  cv_has_aegis_boon :: bool
  cv_has_protect :: bool
  cv_has_shell :: bool
  cv_has_stoneskin :: bool

definition cv_get_mod :: "combat_view \<Rightarrow> u32 \<Rightarrow> f64_bits" where
  "cv_get_mod v k = mod_get k (cv_mods v)"

type_synonym rng = "(nat \<Rightarrow> f64_bits) \<times> nat"

definition next_f64 :: "rng \<Rightarrow> f64_bits \<times> rng" where
  "next_f64 r = (fst r (snd r), (fst r, snd r + 1))"

definition fixed_rng :: "f64_bits list \<Rightarrow> rng" where
  "fixed_rng values = (\<lambda>i. values ! (i mod length values), 0)"

text \<open>\<open>next_f64() * 100.0\<close>.\<close>

definition roll :: "rng \<Rightarrow> f64_bits \<times> rng" where
  "roll r = (let (x, r1) = next_f64 r in (f64_mul x (f64_lit 100 1), r1))"

section \<open>Damage\<close>

definition f64_u16 :: "u16 \<Rightarrow> f64_bits" where "f64_u16 x = f64_of_int (uint x)"

definition calculate_dlvl_modifier :: "int \<Rightarrow> f64_bits" where
  "calculate_dlvl_modifier dlvl =
     (let raw = (if 0 \<le> dlvl
                 then f64_add (f64_mul (f64_lit 35 100) (f64_of_int dlvl)) (f64_lit 225 1000)
                 else f64_add (f64_mul (f64_lit 1 100) (f64_of_int dlvl)) (f64_lit 25 100))
      in f64_clamp 0 (f64_lit 1 1) raw)"

definition clamp_damage :: "f64_bits \<Rightarrow> u16" where
  "clamp_damage v = f64_to_u16 (f64_clamp 0 (f64_lit 9999 1) v)"

text \<open>\<open>defender.level - attacker.level\<close> on \<open>i16\<close>.\<close>

definition level_gap :: "combat_view \<Rightarrow> combat_view \<Rightarrow> int" where
  "level_gap attacker defender = i16_wrap (cv_level defender - cv_level attacker)"

definition damage_down :: "combat_view \<Rightarrow> f64_bits" where
  "damage_down defender =
     f64_sub (f64_lit 1 1) (f64_div (cv_get_mod defender MOD_DAMAGE_TAKEN_DOWN) (f64_lit 100 1))"

text \<open>What both formulas do with their mitigation.\<close>

definition mitigate :: "f64_bits \<Rightarrow> combat_view \<Rightarrow> command_result \<Rightarrow> command_result" where
  "mitigate mitigation defender a =
     (let pre = f64_max (f64_sub (f64_u16 (cr_amount a)) mitigation) 0
      in a\<lparr>cr_amount := clamp_damage (f64_mul (f64_u16 (clamp_damage pre)) (damage_down defender))\<rparr>)"

definition calculate_physical_damage_taken ::
  "combat_view \<Rightarrow> combat_view \<Rightarrow> command_result \<Rightarrow> command_result" where
  "calculate_physical_damage_taken attacker defender a =
     mitigate (f64_mul (calculate_dlvl_modifier (level_gap attacker defender)) (cv_get_mod defender MOD_DEFENSE))
       defender a"

definition calculate_spell_damage_taken ::
  "combat_view \<Rightarrow> combat_view \<Rightarrow> command_result \<Rightarrow> command_result" where
  "calculate_spell_damage_taken attacker defender a =
     mitigate (f64_mul (calculate_dlvl_modifier (level_gap attacker defender))
         (f64_add (cv_get_mod defender MOD_DEFENSE) (f64_mul (f64_lit 67 100) (cv_get_mod defender MOD_VITALITY))))
       defender a"

text \<open>The share that is mitigated and the share that is left.\<close>

definition split_damage :: "f64_bits \<Rightarrow> f64_bits \<Rightarrow> command_result \<Rightarrow> command_result" where
  "split_damage mitigated left a =
     a\<lparr>cr_amount_mitigated := clamp_damage (f64_mul (f64_u16 (cr_amount a)) mitigated),
       cr_amount := clamp_damage (f64_mul (f64_u16 (cr_amount a)) left)\<rparr>"

definition calculate_block_damage :: "combat_view \<Rightarrow> command_result \<Rightarrow> command_result" where
  "calculate_block_damage defender a =
     (let blocked = (if cv_has_aegis_boon defender then f64_lit 1 1
                     else f64_add (f64_mul (cv_get_mod defender MOD_BLOCK) (f64_lit 2 1000))
                                  (f64_mul (cv_get_mod defender MOD_VITALITY) (f64_lit 1 1000)))
      in split_damage blocked (f64_sub (f64_lit 1 1) blocked) a)"

definition calculate_crit_damage :: "combat_view \<Rightarrow> combat_view \<Rightarrow> command_result \<Rightarrow> command_result" where
  "calculate_crit_damage attacker defender a =
     (let dlvl = f64_of_int (level_gap attacker defender);
          bonus = f64_add (f64_sub (f64_mul (f64_lit 4 100) (f64_mul dlvl dlvl)) (f64_mul (f64_lit 2 1) dlvl))
                          (f64_lit 120 100)
      in a\<lparr>cr_amount := clamp_damage (f64_mul (f64_u16 (cr_amount a))
             (f64_clamp (f64_lit 115 100) (f64_lit 175 100) bonus))\<rparr>)"

definition calculate_parry_damage :: "command_result \<Rightarrow> command_result" where
  "calculate_parry_damage a =
     split_damage (f64_sub (f64_lit 1 1) (f64_lit 75 100)) (f64_lit 75 100) a"

fun resist_tier :: "hit_type \<Rightarrow> int" where
  "resist_tier t =
     (case t of HtSingleResist \<Rightarrow> 1 | HtDoubleResist \<Rightarrow> 2 | HtTripleResist \<Rightarrow> 3 | HtFullResist \<Rightarrow> 4 | _ \<Rightarrow> 0)"

definition calculate_resist_damage :: "command_result \<Rightarrow> command_result" where
  "calculate_resist_damage a =
     (let percent = f64_mul (f64_lit 25 100) (f64_of_int (resist_tier (cr_hit_type a)))
      in split_damage (f64_sub (f64_lit 1 1) percent) percent a)"

definition handle_stoneskin :: "modifier_map \<Rightarrow> command_result \<Rightarrow> modifier_map \<times> command_result" where
  "handle_stoneskin mods a =
     (let mitigation = f64_min (f64_u16 (cr_amount a)) (mod_get MOD_STONESKIN mods)
      in (mod_subtract MOD_STONESKIN mitigation mods,
          a\<lparr>cr_amount := clamp_damage (f64_sub (f64_u16 (cr_amount a)) mitigation)\<rparr>))"

section \<open>Rates\<close>

text \<open>An optional skill; its \<open>f32\<close> modifiers default to zero.\<close>

definition skill_f64 :: "(battle_command \<Rightarrow> f32_bits) \<Rightarrow> battle_command option \<Rightarrow> f64_bits" where
  "skill_f64 sel skill = f64_of_f32 (case skill of None \<Rightarrow> 0 | Some s \<Rightarrow> sel s)"

definition get_hit_rate :: "combat_view \<Rightarrow> combat_view \<Rightarrow> battle_command option \<Rightarrow> f64_bits" where
  "get_hit_rate attacker defender skill =
     f64_clamp 0 (f64_lit 100 1)
       (f64_sub
         (f64_add (f64_lit 80 1)
           (f64_clamp 0 (f64_lit 100 1)
             (f64_add (cv_get_mod attacker MOD_RAW_HIT_RATE) (skill_f64 bc_accuracy_modifier skill))))
         (cv_get_mod defender MOD_RAW_EVADE_RATE))"

definition get_parry_rate :: "combat_view \<Rightarrow> command_result \<Rightarrow> f64_bits" where
  "get_parry_rate defender a =
     (if \<not> f64_eq (cv_get_mod defender MOD_CAN_BLOCK) 0 \<or> cr_param a = HD_REAR then 0
      else f64_add (f64_add (f64_lit 10 1) (f64_mul (cv_get_mod defender MOD_PARRY) (f64_lit 1 10)))
                   (cv_get_mod defender MOD_RAW_PARRY_RATE))"

definition get_crit_rate :: "combat_view \<Rightarrow> command_result \<Rightarrow> battle_command option \<Rightarrow> f64_bits" where
  "get_crit_rate attacker a skill =
     (if cr_action_type a = AtStatus then 0
      else f64_add (f64_add (f64_lit 10 1) (f64_mul (f64_lit 16 100) (skill_f64 bc_bonus_crit_rate skill)))
                   (cv_get_mod attacker MOD_RAW_CRIT_RATE))"

definition is_elemental :: "action_property \<Rightarrow> bool" where
  "is_elemental p \<longleftrightarrow> p \<in> {ApFire, ApIce, ApWind, ApEarth, ApLightning, ApWater, ApAstral, ApUmbral}"

definition get_resist_rate :: "combat_view \<Rightarrow> command_result \<Rightarrow> f64_bits" where
  "get_resist_rate defender a =
     (if cr_command_type a \<noteq> CT_SPELL \<and> \<not> is_elemental (cr_action_property a) then 0
      else f64_add (f64_lit 15 1) (cv_get_mod defender MOD_RAW_RESIST_RATE))"

definition get_block_rate :: "combat_view \<Rightarrow> combat_view \<Rightarrow> command_result \<Rightarrow> f64_bits" where
  "get_block_rate attacker defender a =
     (if f64_eq (cv_get_mod defender MOD_CAN_BLOCK) 0 \<or> cr_param a = HD_REAR then 0
      else let dlvl = f64_of_int (level_gap attacker defender);
               b1 = f64_add (f64_mul (f64_lit 25 10) dlvl) (f64_lit 5 1);
               b2 = f64_add b1 (f64_mul (cv_get_mod defender MOD_DEXTERITY) (f64_lit 1 10));
               b3 = f64_add b2 (f64_mul (cv_get_mod defender MOD_BLOCK_RATE) (f64_lit 2 10))
           in f64_add (f64_min b3 (f64_lit 25 1)) (cv_get_mod defender MOD_RAW_BLOCK_RATE))"

section \<open>Rolls\<close>

definition try_miss ::
  "combat_view \<Rightarrow> combat_view \<Rightarrow> battle_command option \<Rightarrow> command_result \<Rightarrow> rng \<Rightarrow> bool \<times> command_result \<times> rng" where
  "try_miss attacker defender skill a r =
     (let (x, r1) = roll r
      in if f64_le (get_hit_rate attacker defender skill) x
         then (True, a\<lparr>cr_hit_type := HtMiss, cr_amount_mitigated := cr_amount a, cr_amount := 0\<rparr>, r1)
         else (False, a, r1))"

definition try_crit :: "combat_view \<Rightarrow> combat_view \<Rightarrow> command_result \<Rightarrow> rng \<Rightarrow> bool \<times> command_result \<times> rng" where
  "try_crit attacker defender a r =
     (let (x, r1) = roll r
      in if f64_le x (cr_crit_rate a)
         then (True, calculate_crit_damage attacker defender (a\<lparr>cr_hit_type := HtCrit\<rparr>), r1)
         else (False, a, r1))"

text \<open>The loop of \<open>try_resist\<close>: a value is drawn before the bound of the counter is looked at.\<close>

function resist_rolls :: "f64_bits \<Rightarrow> int \<Rightarrow> rng \<Rightarrow> int \<times> rng" where
  "resist_rolls rate i r =
     (let (x, r1) = roll r
      in if f64_le x rate \<and> i < 4 then resist_rolls (f64_div rate (f64_lit 2 1)) (i + 1) r1 else (i, r1))"
  by pat_completeness auto
termination by (relation "measure (\<lambda>(rate, i, r). nat (4 - i))") auto

definition resist_type :: "int \<Rightarrow> hit_type" where
  "resist_type i = (if i = 0 then HtSingleResist else if i = 1 then HtDoubleResist
     else if i = 2 then HtTripleResist else HtFullResist)"

definition try_resist :: "command_result \<Rightarrow> rng \<Rightarrow> bool \<times> command_result \<times> rng" where
  "try_resist a r =
     (let (i, r1) = resist_rolls (cr_resist_rate a) (- 1) r
      in if i \<noteq> - 1 then (True, calculate_resist_damage (a\<lparr>cr_hit_type := resist_type i\<rparr>), r1)
         else (False, a, r1))"

definition try_block :: "combat_view \<Rightarrow> command_result \<Rightarrow> rng \<Rightarrow> bool \<times> command_result \<times> rng" where
  "try_block defender a r =
     (let (x, r1) = roll r
      in if f64_le x (cr_block_rate a)
         then (True, calculate_block_damage defender (a\<lparr>cr_hit_type := HtBlock\<rparr>), r1) else (False, a, r1))"

definition try_parry :: "command_result \<Rightarrow> rng \<Rightarrow> bool \<times> command_result \<times> rng" where
  "try_parry a r =
     (let (x, r1) = roll r
      in if f64_le x (cr_parry_rate a)
         then (True, calculate_parry_damage (a\<lparr>cr_hit_type := HtParry\<rparr>), r1) else (False, a, r1))"

definition calc_rates ::
  "combat_view \<Rightarrow> combat_view \<Rightarrow> battle_command option \<Rightarrow> command_result \<Rightarrow> command_result" where
  "calc_rates attacker defender skill a =
     a\<lparr>cr_hit_rate := get_hit_rate attacker defender skill, cr_crit_rate := get_crit_rate attacker a skill,
       cr_block_rate := get_block_rate attacker defender a, cr_parry_rate := get_parry_rate defender a,
       cr_resist_rate := get_resist_rate defender a\<rparr>"

section \<open>Effect bits\<close>

text \<open>The combo bits of a skill whose effect has not been added yet, and the skill with it marked.\<close>

definition combo_bits :: "bool \<Rightarrow> battle_command option \<Rightarrow> u32 \<times> battle_command option" where
  "combo_bits landed skill =
     (case skill of None \<Rightarrow> (0, None)
      | Some s \<Rightarrow>
          if bc_is_combo s \<and> landed \<and> \<not> bc_combo_effect_added s
          then (push_bit 15 (word_of_int (max (bc_combo_step s) 0)), Some (s\<lparr>bc_combo_effect_added := True\<rparr>))
          else (0, Some s))"

definition set_hit_effect_physical ::
  "combat_view \<Rightarrow> battle_command option \<Rightarrow> command_result \<Rightarrow> battle_command option \<times> command_result" where
  "set_hit_effect_physical defender skill a =
     (let dealt = f64_div (f64_mul (f64_lit 100 1) (f64_u16 (cr_amount a))) (f64_of_int (max (cv_max_hp defender) 1));
          recoil = (if cr_hit_type a = HtCrit then CRITICAL_HIT
                    else if f64_lt (f64_lit 5 1) dealt then RECOIL_LV2
                    else if f64_lt (f64_lit 10 1) dealt then RECOIL_LV3 else 0);
          (combo, skill1) = combo_bits (hit_landed (cr_hit_type a)) skill;
          buffs = (if hit_type_as_u16 HtParry \<le> hit_type_as_u16 (cr_hit_type a)
                   then (if cv_has_protect defender then HE_PROTECT else 0)
                        OR (if cv_has_stoneskin defender then HE_STONESKIN else 0) else 0)
      in (skill1, a\<lparr>cr_effect_id :=
            HIT_EFFECT_TYPE OR recoil OR physical_hit_effect (cr_hit_type a) OR combo OR buffs\<rparr>))"

definition set_hit_effect_spell ::
  "combat_view \<Rightarrow> battle_command option \<Rightarrow> command_result \<Rightarrow> battle_command option \<times> command_result" where
  "set_hit_effect_spell defender skill a =
     (let (combo, skill1) = combo_bits True skill;
          shell = (if hit_landed (cr_hit_type a) \<and> cv_has_shell defender then HE_MAGIC_SHELL else 0)
      in (skill1, a\<lparr>cr_effect_id := MAGIC_EFFECT_TYPE OR magical_hit_effect (cr_hit_type a) OR combo OR shell\<rparr>))"

definition set_hit_effect_heal :: "command_result \<Rightarrow> command_result" where
  "set_hit_effect_heal a = a\<lparr>cr_effect_id := MAGIC_EFFECT_TYPE OR HE_HEAL OR RECOIL_LV3\<rparr>"

definition set_hit_effect_status :: "battle_command \<Rightarrow> command_result \<Rightarrow> command_result" where
  "set_hit_effect_status skill a =
     a\<lparr>cr_effect_id := STATUS_EFFECT_TYPE OR bc_status_id skill, cr_hit_type := HtHit\<rparr>"

section \<open>Hit chains\<close>

record damage_request =
  dr_target_actor_id :: u32
  dr_amount :: u16
  dr_enmity :: u16

text \<open>What a hit chain leaves behind: the request, the defender's modifiers, skill, result, rows, source.\<close>

record hit_outcome =
  ho_request :: "damage_request option"
  ho_mods :: modifier_map
  ho_skill :: "battle_command option"
  ho_action :: command_result
  ho_results :: result_container
  ho_rng :: rng

definition request_for :: "combat_view \<Rightarrow> command_result \<Rightarrow> damage_request option" where
  "request_for defender a =
     (if cv_actor_id defender = 0 then None
      else Some \<lparr>dr_target_actor_id = cv_actor_id defender, dr_amount = cr_amount a, dr_enmity = cr_enmity a\<rparr>)"

text \<open>The rolls of a physical action: miss, else the stoneskin, then crit, block, parry or a plain hit.\<close>

definition physical_rolls ::
  "combat_view \<Rightarrow> combat_view \<Rightarrow> battle_command option \<Rightarrow> modifier_map \<Rightarrow> command_result \<Rightarrow> rng
   \<Rightarrow> modifier_map \<times> command_result \<times> rng" where
  "physical_rolls attacker defender skill mods a r =
     (let (missed, a1, r1) = try_miss attacker defender skill a r
      in if missed then (mods, a1, r1)
         else let (mods1, a2) = handle_stoneskin mods a1;
                  (crit, a3, r2) = try_crit attacker defender a2 r1
              in if crit then (mods1, a3, r2)
                 else let (blocked, a4, r3) = try_block defender a3 r2
                      in if blocked then (mods1, a4, r3)
                         else let (parried, a5, r4) = try_parry a4 r3
                              in (mods1, if parried then a5 else a5\<lparr>cr_hit_type := HtHit\<rparr>, r4))"

definition scale_enmity :: "battle_command option \<Rightarrow> command_result \<Rightarrow> command_result" where
  "scale_enmity skill a =
     a\<lparr>cr_enmity := f64_to_u16 (f64_min
        (f64_mul (f64_u16 (cr_enmity a))
                 (f64_of_f32 (case skill of None \<Rightarrow> 0x3F800000 | Some s \<Rightarrow> bc_enmity_modifier s)))
        (f64_lit 65535 1))\<rparr>"

definition finish_action_physical ::
  "combat_view \<Rightarrow> combat_view \<Rightarrow> modifier_map \<Rightarrow> battle_command option \<Rightarrow> command_result \<Rightarrow> result_container
   \<Rightarrow> rng \<Rightarrow> hit_outcome" where
  "finish_action_physical attacker defender mods skill a results r =
     (let (mods1, a1, r1) = physical_rolls attacker defender skill mods a r;
          multi_hit = (case skill of None \<Rightarrow> False | Some s \<Rightarrow> 1 < bc_num_hits s);
          results1 = (if multi_hit \<and> cr_hit_num a1 = 1
                      then add_action (default_result\<lparr>cr_target_actor_id := cv_actor_id attacker,
                             cr_world_master_text_id := 30441, cr_effect_id := 0, cr_hit_num := 1\<rparr>) results
                      else results);
          a2 = a1\<lparr>cr_world_master_text_id := (if multi_hit then multi_hit_text_id (cr_hit_type a1)
                                               else physical_hit_text_id (cr_hit_type a1))\<rparr>;
          (skill1, a3) = set_hit_effect_physical defender skill a2;
          a4 = scale_enmity skill1 (calculate_physical_damage_taken attacker defender a3)
      in \<lparr>ho_request = request_for defender a4, ho_mods = mods1, ho_skill = skill1, ho_action = a4,
          ho_results = add_action a4 results1, ho_rng = r1\<rparr>)"

definition spell_rolls ::
  "combat_view \<Rightarrow> combat_view \<Rightarrow> command_result \<Rightarrow> rng \<Rightarrow> command_result \<times> rng" where
  "spell_rolls attacker defender a r =
     (let (resisted, a1, r1) = try_resist a r
      in if resisted then (a1, r1)
         else let (crit, a2, r2) = try_crit attacker defender a1 r1
              in (if crit then a2 else a2\<lparr>cr_hit_type := HtHit\<rparr>, r2))"

definition finish_action_spell ::
  "combat_view \<Rightarrow> combat_view \<Rightarrow> modifier_map \<Rightarrow> battle_command option \<Rightarrow> command_result \<Rightarrow> result_container
   \<Rightarrow> rng \<Rightarrow> hit_outcome" where
  "finish_action_spell attacker defender mods skill a results r =
     (let (mods1, a1) = handle_stoneskin mods a;
          (a2, r1) = spell_rolls attacker defender a1 r;
          a3 = a2\<lparr>cr_world_master_text_id := magical_hit_text_id (cr_hit_type a2)\<rparr>;
          (skill1, a4) = set_hit_effect_spell defender skill a3;
          (mods2, a5) = handle_stoneskin mods1 a4;
          a6 = calculate_spell_damage_taken attacker defender a5
      in \<lparr>ho_request = request_for defender a6, ho_mods = mods2, ho_skill = skill1, ho_action = a6,
          ho_results = add_action a6 results, ho_rng = r1\<rparr>)"

definition finish_action_heal :: "command_result \<Rightarrow> result_container \<Rightarrow> u16 \<times> command_result \<times> result_container" where
  "finish_action_heal a results =
     (let a1 = set_hit_effect_heal a in (cr_amount a1, a1, add_action a1 results))"

definition try_status :: "command_result \<Rightarrow> battle_command \<Rightarrow> rng \<Rightarrow> bool \<times> rng" where
  "try_status a skill r =
     (if bc_status_id skill = 0 \<or> \<not> hit_landed (cr_hit_type a) then (False, r)
      else let (x, r1) = next_f64 r in (f64_lt x (f64_of_f32 (bc_status_chance skill)), r1))"

definition finish_action_status :: "battle_command \<Rightarrow> command_result \<Rightarrow> result_container \<Rightarrow> command_result \<times> result_container" where
  "finish_action_status skill a results =
     (let a1 = set_hit_effect_status skill a in (a1, add_action a1 results))"

datatype position_bonus = PbNone | PbFront | PbRear | PbFlank

definition hit_dir_to_position :: "u8 \<Rightarrow> position_bonus" where
  "hit_dir_to_position d =
     (if dir_contains d HD_FRONT then PbFront
      else if dir_contains d HD_RIGHT \<or> dir_contains d HD_LEFT then PbFlank
      else if dir_contains d HD_REAR then PbRear else PbNone)"

definition attack_calculate_base_damage :: "combat_view \<Rightarrow> rng \<Rightarrow> int \<times> rng" where
  "attack_calculate_base_damage attacker r =
     (let base = f64_add (f64_add (cv_get_mod attacker MOD_WEAPON_DAMAGE_POWER)
                   (f64_mul (f64_lit 85 100) (cv_get_mod attacker MOD_STRENGTH))) (cv_get_mod attacker MOD_ATTACK);
          (x, r1) = next_f64 r;
          dev = f64_add (f64_lit 96 100) (f64_mul x (f64_lit 8 100))
      in (max 1 (min 9999 (f64_to_i32 (f64_round (f64_mul base dev)))), r1))"

definition attack_calculate_damage :: "combat_view \<Rightarrow> combat_view \<Rightarrow> rng \<Rightarrow> int \<times> rng" where
  "attack_calculate_damage attacker defender r = attack_calculate_base_damage attacker r"

section \<open>Experience of \<open>utils.rs\<close>\<close>

definition UTILS_BASE_EXP :: "int list" where
  "UTILS_BASE_EXP =
     [150, 150, 150, 150, 150, 150, 150, 150, 150, 150,
      150, 150, 150, 150, 150, 150, 150, 150, 160, 170,
      180, 190, 190, 200, 210, 220, 230, 240, 250, 260,
      270, 280, 290, 300, 310, 320, 330, 340, 350, 360,
      370, 380, 380, 390, 400, 410, 420, 430, 430, 440]"

text \<open>The curve of the level difference; both formulas use it.\<close>

definition exp_dlvl_modifier :: "int \<Rightarrow> f64_bits" where
  "exp_dlvl_modifier dlvl =
     (if 0 \<le> dlvl then f64_add (f64_lit 1 1) (f64_mul (f64_lit 2 10) (f64_of_int dlvl))
      else f64_add (f64_add (f64_lit 1 1) (f64_mul (f64_lit 1 10) (f64_of_int dlvl)))
             (f64_mul (f64_lit 25 10000) (f64_of_int (i32_wrap (dlvl * dlvl)))))"

text \<open>\<open>get_base_exp\<close> adds the two terms of the falloff before it adds them to one.\<close>

definition get_base_exp :: "int \<Rightarrow> int \<Rightarrow> nat \<Rightarrow> u16" where
  "get_base_exp player_level mob_level members =
     (let dlvl = mob_level - player_level
      in if dlvl \<le> - 20 then 0
         else let base_level = min (max (min player_level mob_level) 1) 50;
                  base = f64_of_int (UTILS_BASE_EXP ! nat (base_level - 1));
                  modifier = (if 0 \<le> dlvl then f64_add (f64_lit 1 1) (f64_mul (f64_lit 2 10) (f64_of_int dlvl))
                    else f64_add (f64_lit 1 1) (f64_add (f64_mul (f64_lit 1 10) (f64_of_int dlvl))
                           (f64_mul (f64_lit 25 10000) (f64_of_int (i32_wrap (dlvl * dlvl))))));
                  party = (if members \<le> 1 then f64_lit 1 1 else f64_lit 667 1000)
              in f64_to_u16 (f64_clamp 0 (f64_lit 65535 1) (f64_mul (f64_mul base modifier) party)))"

definition get_link_bonus :: "u16 \<Rightarrow> u8" where
  "get_link_bonus n = (if n = 0 then 0 else if n = 1 then 25 else if n = 2 then 50 else if n = 3 then 75 else 100)"

definition get_chain_bonus :: "u16 \<Rightarrow> u8" where
  "get_chain_bonus t = (if t = 0 then 0 else if t = 1 then 20 else if t = 2 then 25 else if t = 3 then 30
     else if t = 4 then 40 else 50)"

definition get_chain_time_limit :: "u16 \<Rightarrow> u8" where
  "get_chain_time_limit t = (if t = 0 then 100 else if t = 1 then 80 else if t = 2 then 60 else if t = 3 then 20 else 10)"

section \<open>Experience of \<open>exp.rs\<close>\<close>

definition BASE_EXP :: "int list" where
  "BASE_EXP =
     [625, 625, 625, 625, 625, 601, 567, 533, 499, 465,
      431, 397, 364, 330, 296, 262, 228, 194, 160, 170,
      180, 190, 190, 200, 210, 220, 230, 240, 250, 260,
      270, 280, 290, 300, 310, 320, 330, 340, 350, 360,
      370, 380, 380, 390, 400, 410, 420, 430, 430, 440]"

definition LINK_BONUS :: "u8 list" where "LINK_BONUS = [0, 25, 50, 75, 100]"
definition CHAIN_BONUS :: "u8 list" where "CHAIN_BONUS = [0, 20, 25, 30, 40, 50]"
definition CHAIN_TIME_LIMIT_S :: "u8 list" where "CHAIN_TIME_LIMIT_S = [100, 80, 60, 20, 10]"
definition MIN_DLVL :: int where "MIN_DLVL = - 20"

definition base_kill_exp :: "int \<Rightarrow> int \<Rightarrow> u32 \<Rightarrow> u16" where
  "base_kill_exp player_level mob_level party_size =
     (let dlvl = mob_level - player_level
      in if dlvl \<le> MIN_DLVL then 0
         else let base_level = max 1 (min 50 (min player_level mob_level));
                  base = f64_of_int (BASE_EXP ! nat (base_level - 1));
                  party = (if party_size \<le> 1 then f64_lit 1 1 else f64_lit 667 1000)
              in f64_to_u16 (f64_mul (f64_mul base (exp_dlvl_modifier dlvl)) party))"

definition link_bonus :: "u16 \<Rightarrow> u8" where
  "link_bonus n = LINK_BONUS ! min (unat n) 4"

definition chain_bonus :: "u8 \<Rightarrow> u8" where
  "chain_bonus t = CHAIN_BONUS ! min (unat t) 5"

definition chain_time_limit_s :: "u8 \<Rightarrow> u8" where
  "chain_time_limit_s t = CHAIN_TIME_LIMIT_S ! min (unat t) 4"

text \<open>An \<open>i64\<close> intermediate that cannot overflow.\<close>

definition with_bonus :: "int \<Rightarrow> u8 \<Rightarrow> int" where
  "with_bonus x bonus =
     (if x \<le> 0 \<or> bonus = 0 then x else min (x + (x * uint bonus + 99) div 100) (2 ^ 31 - 1))"

end
