(* ===== verification/Progress.thy ===== *)
theory Progress
  imports Chara BattleMath
begin

text \<open>
  Experience and levels: the curve and the roll-over of \<open>map-server/src/battle/save.rs\<close>, and the
  parts of \<open>apply_add_exp\<close> of \<open>runtime/quest_apply.rs\<close>: the write to the character with the rested
  bonus, the writes to the database (\<open>database.rs\<close>) and the text rows. Skill points are \<open>i32\<close>,
  levels \<open>i16\<close>. The handler itself is in \<open>Hotbar\<close>, since a new level equips commands.
\<close>

section \<open>Levels\<close>

definition NUM_SKILLS :: nat where "NUM_SKILLS = 52"
definition MAX_LEVEL :: int where "MAX_LEVEL = 50"

definition LEVEL_THRESHOLDS :: "int list" where
  "LEVEL_THRESHOLDS =
     [570, 700, 880, 1100, 1500, 1800, 2300, 3200, 4300, 5000,
      5900, 6800, 7700, 8700, 9700, 11000, 12000, 13000, 15000, 16000,
      20000, 22000, 23000, 25000, 27000, 29000, 31000, 33000, 35000, 38000,
      45000, 47000, 50000, 53000, 56000, 59000, 62000, 65000, 68000, 71000,
      74000, 78000, 81000, 85000, 89000, 92000, 96000, 100000, 100000, 110000]"

definition threshold_at :: "int \<Rightarrow> int" where
  "threshold_at level = LEVEL_THRESHOLDS ! nat (max (level - 1) 0)"

function level_loop :: "int \<Rightarrow> int \<Rightarrow> int \<Rightarrow> int \<times> int \<times> int" where
  "level_loop level sp gained =
     (if level < MAX_LEVEL \<and> threshold_at level \<le> sp
      then level_loop (level + 1) (sp - threshold_at level) (gained + 1)
      else (level, sp, gained))"
  by pat_completeness auto
termination by (relation "measure (\<lambda>(level, sp, gained). nat (MAX_LEVEL - level))") auto

definition level_up_if_threshold_crossed :: "int \<Rightarrow> int \<Rightarrow> int \<times> int \<times> int" where
  "level_up_if_threshold_crossed level skill_point =
     (let (lvl, sp, gained) = level_loop (max level 1) (max skill_point 0) 0
      in (lvl, if MAX_LEVEL \<le> lvl then 0 else sp, gained))"

section \<open>The rested bonus\<close>

definition i32_saturating_sum :: "int \<Rightarrow> int \<Rightarrow> int" where
  "i32_saturating_sum a b = max (- (2 ^ 31)) (min (2 ^ 31 - 1) (a + b))"

text \<open>The gain and the pool that is left. \<open>exp + 49\<close> wraps near the top of \<open>i32\<close>.\<close>

definition consume_rested_xp :: "int \<Rightarrow> int \<Rightarrow> int \<times> int" where
  "consume_rested_xp x rested =
     (if x \<le> 0 \<or> rested \<le> 0 then (x, max rested 0)
      else let bonus = i32_wrap (x * min rested 100 div 100);
               decay = max (i32_quot (i32_wrap (x + 49)) 50) 1
           in (i32_saturating_sum x bonus, max (i32_wrap (rested - decay)) 0))"

section \<open>The database rows\<close>

text \<open>\<open>class_column\<close> (\<open>gamedata.rs\<close>): the classes that have a column.\<close>

definition has_class_column :: "u8 \<Rightarrow> bool" where
  "has_class_column class_id \<longleftrightarrow>
     class_id \<in> set [2, 3, 4, 7, 8, 22, 23, 29, 30, 31, 32, 33, 34, 35, 36, 39, 40, 41]"

record exp_db =
  xd_exp :: "u8 \<Rightarrow> int"
  xd_level :: "u8 \<Rightarrow> int"
  xd_main_skill :: "u8 \<times> int"
  xd_rest :: int

text \<open>A write happens unless the call fails; one to a class without a column does nothing.\<close>

definition db_set_exp :: "bool \<Rightarrow> u8 \<Rightarrow> int \<Rightarrow> exp_db \<Rightarrow> exp_db" where
  "db_set_exp ok class_id x d = (if ok \<and> has_class_column class_id then d\<lparr>xd_exp := (xd_exp d)(class_id := x)\<rparr> else d)"

definition db_set_level :: "bool \<Rightarrow> u8 \<Rightarrow> int \<Rightarrow> exp_db \<Rightarrow> exp_db" where
  "db_set_level ok class_id l d = (if ok \<and> has_class_column class_id then d\<lparr>xd_level := (xd_level d)(class_id := l)\<rparr> else d)"

definition db_save_current_class :: "bool \<Rightarrow> u8 \<Rightarrow> int \<Rightarrow> exp_db \<Rightarrow> exp_db" where
  "db_save_current_class ok class_id l d = (if ok then d\<lparr>xd_main_skill := (class_id, l)\<rparr> else d)"

definition db_set_rest :: "bool \<Rightarrow> int \<Rightarrow> exp_db \<Rightarrow> exp_db" where
  "db_set_rest ok r d = (if ok then d\<lparr>xd_rest := r\<rparr> else d)"

text \<open>Which of the four calls succeed.\<close>

record exp_calls =
  xc_exp :: bool
  xc_level :: bool
  xc_class :: bool
  xc_rest :: bool

section \<open>The gain\<close>

text \<open>What the write to the character reports.\<close>

record exp_gain =
  xg_effective :: int
  xg_exp :: int
  xg_level :: int
  xg_gained :: int
  xg_rested_before :: int
  xg_rested_after :: int
  xg_active :: bool

definition gain_exp :: "u8 \<Rightarrow> int \<Rightarrow> character \<Rightarrow> (exp_gain \<times> character) option" where
  "gain_exp class_id x c =
     (let slot = unat class_id
      in if length (ch_skill_point c) \<le> slot then None
         else let (effective, rested) = consume_rested_xp x (ch_rest_bonus c);
                  combined = max (i32_saturating_sum (ch_skill_point c ! slot) effective) 0;
                  prior = max (if slot < length (ch_skill_level c) then ch_skill_level c ! slot else 1) 1;
                  (lvl, sp, gained) = level_up_if_threshold_crossed prior combined;
                  active = (ch_class c = uint class_id);
                  c1 = c\<lparr>ch_rest_bonus := rested, ch_skill_point := (ch_skill_point c)[slot := sp]\<rparr>;
                  c2 = (if 0 < gained
                        then c1\<lparr>ch_skill_level := (ch_skill_level c1)[slot := lvl],
                               ch_level := (if active then lvl else ch_level c1)\<rparr>
                        else c1)
              in Some (\<lparr>xg_effective = effective, xg_exp = sp, xg_level = lvl, xg_gained = gained,
                        xg_rested_before = ch_rest_bonus c, xg_rested_after = rested, xg_active = active\<rparr>, c2))"

definition persist_gain :: "exp_calls \<Rightarrow> u8 \<Rightarrow> exp_gain \<Rightarrow> exp_db \<Rightarrow> exp_db" where
  "persist_gain ok class_id g d =
     (let d1 = db_set_exp (xc_exp ok) class_id (xg_exp g) d;
          d2 = (if 0 < xg_gained g
                then let d' = db_set_level (xc_level ok) class_id (xg_level g) d1
                     in if xg_active g then db_save_current_class (xc_class ok) class_id (xg_level g) d' else d'
                else d1)
      in if xg_rested_after g \<noteq> xg_rested_before g then db_set_rest (xc_rest ok) (xg_rested_after g) d2 else d2)"

section \<open>The text rows\<close>

definition class_experience_text_id :: "u8 \<Rightarrow> u16 option" where
  "class_experience_text_id class_id =
     map_of [(2, 33934), (3, 33935), (4, 33936), (7, 33937), (8, 33938), (10, 33939), (22, 33940),
       (23, 33941), (29, 33945), (30, 33946), (31, 33947), (32, 33948), (33, 33949), (34, 33950),
       (35, 33951), (36, 33952), (39, 33953), (40, 33954), (41, 33955)] class_id"

text \<open>A row is its text, its amount and its parameter; unlocked commands are an argument.\<close>

definition exp_row :: "u8 \<Rightarrow> int \<Rightarrow> exp_gain \<Rightarrow> (u16 \<times> int \<times> int) list" where
  "exp_row class_id base g =
     (case class_experience_text_id class_id of
        Some text \<Rightarrow>
          if 0 < xg_effective g
          then [(text, min (xg_effective g) 65535,
                 min (if 0 < base \<and> base < xg_effective g
                      then (xg_effective g - base) * 100 div base else 0) 255)]
          else []
      | None \<Rightarrow> [])"

definition level_rows :: "(int \<Rightarrow> u16 list) \<Rightarrow> exp_gain \<Rightarrow> (u16 \<times> int \<times> int) list" where
  "level_rows unlocked g =
     concat (map (\<lambda>l. (33909, max l 0, 0) # map (\<lambda>k. (33926, uint k, 0)) (unlocked l))
       [xg_level g - xg_gained g + 1 .. xg_level g])"

definition exp_rows :: "(int \<Rightarrow> u16 list) \<Rightarrow> u8 \<Rightarrow> int \<Rightarrow> exp_gain \<Rightarrow> (u16 \<times> int \<times> int) list" where
  "exp_rows unlocked class_id base g = exp_row class_id base g @ level_rows unlocked g"

end
