(* ===== verification/Hotbar.thy ===== *)
theory Hotbar
  imports Progress "HOL-Library.AList"
begin

text \<open>
  The command bar: the rows of \<open>characters_hotbar\<close> (\<open>database.rs\<close>), the bar kept in the character,
  and the handlers that change both: equip, unequip, swap, equip in the first open slot and class
  change (\<open>processor.rs\<close>), the commands a new level unlocks and the experience gain that grants
  them (\<open>runtime/quest_apply.rs\<close>). The table is an association list from character, class and
  slot; a call to the database that fails changes nothing and \<open>hv_up\<close> says which calls succeed.
  The script catalog is an argument. A handler returns what it sends to the client.
\<close>

definition HOTBAR_SLOTS :: u16 where "HOTBAR_SLOTS = 30"
definition COMMAND_BORDER :: u16 where "COMMAND_BORDER = 0x20"
definition COMMAND_MASK :: u32 where "COMMAND_MASK = 0xA0F00000"

section \<open>The table\<close>

type_synonym hotbar_rows = "((u32 \<times> u8 \<times> u16) \<times> (u32 \<times> u32)) list"

definition db_equip_ability :: "u32 \<Rightarrow> u8 \<Rightarrow> u16 \<Rightarrow> u32 \<Rightarrow> u32 \<Rightarrow> hotbar_rows \<Rightarrow> hotbar_rows" where
  "db_equip_ability chara class_id slot command recast rows =
     AList.update (chara, class_id, slot) (command AND 0xFFFF, recast) rows"

definition db_unequip_ability :: "u32 \<Rightarrow> u8 \<Rightarrow> u16 \<Rightarrow> hotbar_rows \<Rightarrow> hotbar_rows" where
  "db_unequip_ability chara class_id slot rows = AList.delete (chara, class_id, slot) rows"

text \<open>The rows of a class, in the order of their slots.\<close>

definition db_load_hotbar :: "u32 \<Rightarrow> u8 \<Rightarrow> hotbar_rows \<Rightarrow> hotbar_entry list" where
  "db_load_hotbar chara class_id rows =
     sort_key hb_slot
       (map (\<lambda>((_, _, slot), (command, recast)). \<lparr>hb_slot = slot, hb_command = command, hb_recast = recast\<rparr>)
         (filter (\<lambda>((ch, cl, _), _). ch = chara \<and> cl = class_id) rows))"

fun first_gap :: "u16 \<Rightarrow> u16 list \<Rightarrow> u16" where
  "first_gap expected [] = expected"
| "first_gap expected (s # ss) = (if s \<noteq> expected then expected else first_gap (expected + 1) ss)"

definition db_find_first_command_slot :: "u32 \<Rightarrow> u8 \<Rightarrow> hotbar_rows \<Rightarrow> u16" where
  "db_find_first_command_slot chara class_id rows = first_gap 0 (map hb_slot (db_load_hotbar chara class_id rows))"

section \<open>The bar of the character\<close>

definition bar_find :: "u16 \<Rightarrow> hotbar_entry list \<Rightarrow> hotbar_entry option" where
  "bar_find slot bar = find (\<lambda>e. hb_slot e = slot) bar"

text \<open>Replace the first entry of a slot, or push one.\<close>

fun bar_put :: "u16 \<Rightarrow> u32 \<Rightarrow> u32 \<Rightarrow> hotbar_entry list \<Rightarrow> hotbar_entry list" where
  "bar_put slot command recast [] = [\<lparr>hb_slot = slot, hb_command = command, hb_recast = recast\<rparr>]"
| "bar_put slot command recast (e # es) =
     (if hb_slot e = slot then e\<lparr>hb_command := command, hb_recast := recast\<rparr> # es
      else e # bar_put slot command recast es)"

definition first_free_hotbar_slot :: "hotbar_entry list \<Rightarrow> u16" where
  "first_free_hotbar_slot bar =
     (case find (\<lambda>s. \<not> list_ex (\<lambda>e. hb_slot e = s \<and> hb_command e AND 0xFFFF \<noteq> 0) bar) (map of_nat [0..<30]) of
        Some s \<Rightarrow> s | None \<Rightarrow> HOTBAR_SLOTS)"

text \<open>The recast of a command that was used (\<open>resolve_action\<close>): its first entry, and the slot of it.\<close>

fun start_recast :: "u16 \<Rightarrow> u32 \<Rightarrow> hotbar_entry list \<Rightarrow> u16 option \<times> hotbar_entry list" where
  "start_recast command_id recast_end [] = (None, [])"
| "start_recast command_id recast_end (e # es) =
     (if ucast (hb_command e) = command_id then (Some (hb_slot e), e\<lparr>hb_recast := recast_end\<rparr> # es)
      else let (slot, es1) = start_recast command_id recast_end es in (slot, e # es1))"

section \<open>State and environment\<close>

record hotbar_catalog =
  hk_unlocked :: "u8 \<Rightarrow> int \<Rightarrow> u16 list"
  hk_max_recast :: "u16 \<rightharpoonup> u32"

datatype hotbar_call =
    HcEquip u8 u16 u32 | HcUnequip u8 u16 | HcLoad u8 | HcReload u8 | HcFind u8 u32 | HcLevels
  | HcSetLevel u8

record hotbar_env =
  hv_player :: u32
  hv_session :: u32
  hv_client :: bool
  hv_catalog :: "hotbar_catalog option"
  hv_now :: u32
  hv_up :: "hotbar_call \<Rightarrow> bool"

record hotbar_state =
  hs_player :: "character option"
  hs_rows :: hotbar_rows
  hs_exp :: exp_db

datatype hotbar_out =
    HoToast u16 u32
  | HoSlot u16 u32 u16 u32
  | HoJob u32 u32
  | HoLevel u8 int
  | HoSkillPoint u8 int "int option"
  | HoRows "(u16 \<times> int \<times> int) list"

definition on_bar :: "(hotbar_entry list \<Rightarrow> hotbar_entry list) \<Rightarrow> hotbar_state \<Rightarrow> hotbar_state" where
  "on_bar f s = s\<lparr>hs_player := map_option (\<lambda>c. c\<lparr>ch_hotbar := f (ch_hotbar c)\<rparr>) (hs_player s)\<rparr>"

definition send_hotbar_slot_update :: "hotbar_env \<Rightarrow> u16 \<Rightarrow> hotbar_state \<Rightarrow> hotbar_out list" where
  "send_hotbar_slot_update v slot s =
     (case hs_player s of None \<Rightarrow> []
      | Some c \<Rightarrow>
          if \<not> hv_client v then []
          else let (command, recast) = (case bar_find slot (ch_hotbar c) of
                     Some e \<Rightarrow> (hb_command e OR COMMAND_MASK, hb_recast e) | None \<Rightarrow> (0, 0));
                   max_recast = (case hv_catalog v of None \<Rightarrow> 0
                     | Some k \<Rightarrow> (case hk_max_recast k (ucast command) of None \<Rightarrow> 0 | Some m \<Rightarrow> ucast m))
               in [HoSlot slot command max_recast recast])"

text \<open>The text row of a command, shown to a player with a client.\<close>

definition command_toast :: "hotbar_env \<Rightarrow> u16 \<Rightarrow> u32 \<Rightarrow> hotbar_state \<Rightarrow> hotbar_out list" where
  "command_toast v text command s =
     (if hs_player s \<noteq> None \<and> hv_client v then [HoToast text command] else [])"

definition u16_saturating_sub :: "u16 \<Rightarrow> u16 \<Rightarrow> u16" where
  "u16_saturating_sub a b = (if a < b then 0 else a - b)"

section \<open>Handlers\<close>

text \<open>What \<open>apply_equip_ability\<close> and the first-open-slot handler share once they have a slot.\<close>

definition equip_at :: "hotbar_env \<Rightarrow> u8 \<Rightarrow> u32 \<Rightarrow> u16 \<Rightarrow> hotbar_state \<Rightarrow> hotbar_state \<times> hotbar_out list" where
  "equip_at v class_id command slot s =
     (if \<not> hv_up v (HcEquip class_id slot command) then (s, [])
      else let s1 = on_bar (bar_put slot (command OR COMMAND_MASK) 0)
                      (s\<lparr>hs_rows := db_equip_ability (hv_player v) class_id slot command 0 (hs_rows s)\<rparr>)
           in (s1, command_toast v 30603 command s1 @ send_hotbar_slot_update v slot s1))"

definition apply_equip_ability ::
  "hotbar_env \<Rightarrow> u8 \<Rightarrow> u32 \<Rightarrow> u16 \<Rightarrow> hotbar_state \<Rightarrow> hotbar_state \<times> hotbar_out list" where
  "apply_equip_ability v class_id command slot s =
     equip_at v class_id command (u16_saturating_sub slot COMMAND_BORDER) s"

definition apply_equip_ability_in_first_open_slot ::
  "hotbar_env \<Rightarrow> u8 \<Rightarrow> u32 \<Rightarrow> hotbar_state \<Rightarrow> hotbar_state \<times> hotbar_out list" where
  "apply_equip_ability_in_first_open_slot v class_id command s =
     (if \<not> hv_up v (HcFind class_id command) then (s, [])
      else let slot = db_find_first_command_slot (hv_player v) class_id (hs_rows s)
           in if 30 \<le> slot then (s, []) else equip_at v class_id command slot s)"

definition apply_unequip_ability ::
  "hotbar_env \<Rightarrow> u8 \<Rightarrow> u16 \<Rightarrow> hotbar_state \<Rightarrow> hotbar_state \<times> hotbar_out list" where
  "apply_unequip_ability v class_id slot s =
     (let command = (case hs_player s of None \<Rightarrow> 0
            | Some c \<Rightarrow> (case bar_find slot (ch_hotbar c) of None \<Rightarrow> 0 | Some e \<Rightarrow> hb_command e XOR COMMAND_MASK))
      in if \<not> hv_up v (HcUnequip class_id slot) then (s, [])
         else let s1 = on_bar (filter (\<lambda>e. hb_slot e \<noteq> slot))
                         (s\<lparr>hs_rows := db_unequip_ability (hv_player v) class_id slot (hs_rows s)\<rparr>)
              in (s1, (if command \<noteq> 0 \<and> hv_session v \<noteq> 0 then command_toast v 30604 command s1 else [])
                      @ send_hotbar_slot_update v slot s1))"

text \<open>The command and recast of a slot, zero for an empty one.\<close>

definition slot_content :: "u16 \<Rightarrow> hotbar_entry list \<Rightarrow> u32 \<times> u32" where
  "slot_content slot bar = (case bar_find slot bar of None \<Rightarrow> (0, 0) | Some e \<Rightarrow> (hb_command e, hb_recast e))"

definition swap_entry :: "u16 \<Rightarrow> u16 \<Rightarrow> u32 \<times> u32 \<Rightarrow> u32 \<times> u32 \<Rightarrow> hotbar_entry \<Rightarrow> hotbar_entry" where
  "swap_entry s1 s2 c1 c2 e =
     (if hb_slot e = s1 then e\<lparr>hb_command := fst c2, hb_recast := snd c2\<rparr>
      else if hb_slot e = s2 then e\<lparr>hb_command := fst c1, hb_recast := snd c1\<rparr> else e)"

definition apply_swap_abilities ::
  "hotbar_env \<Rightarrow> u8 \<Rightarrow> u16 \<Rightarrow> u16 \<Rightarrow> hotbar_state \<Rightarrow> hotbar_state \<times> hotbar_out list" where
  "apply_swap_abilities v class_id slot1 slot2 s =
     (let z1 = u16_saturating_sub slot1 COMMAND_BORDER; z2 = u16_saturating_sub slot2 COMMAND_BORDER
      in if \<not> hv_up v (HcLoad class_id) then (s, [])
         else let entries = db_load_hotbar (hv_player v) class_id (hs_rows s);
                  c1 = slot_content z1 entries; c2 = slot_content z2 entries
              in if \<not> hv_up v (HcEquip class_id z1 (fst c2)) then (s, [])
                 else let s1 = s\<lparr>hs_rows := db_equip_ability (hv_player v) class_id z1 (fst c2) (snd c2) (hs_rows s)\<rparr>
                      in if \<not> hv_up v (HcEquip class_id z2 (fst c1)) then (s1, [])
                         else let s2 = on_bar (map (swap_entry z1 z2 c1 c2))
                                    (s1\<lparr>hs_rows := db_equip_ability (hv_player v) class_id z2 (fst c1) (snd c1) (hs_rows s1)\<rparr>)
                              in (s2, send_hotbar_slot_update v z1 s2 @ send_hotbar_slot_update v z2 s2))"

section \<open>Unlocked commands\<close>

definition convert_class_id_to_job_id :: "u8 \<Rightarrow> u8" where
  "convert_class_id_to_job_id class_id =
     (if class_id = 2 \<or> class_id = 3 \<or> class_id = 4 then class_id + 13
      else if class_id = 7 \<or> class_id = 8 then class_id + 11
      else if class_id = 22 \<or> class_id = 23 then class_id + 4 else class_id)"

text \<open>One unlocked command: the bar of the class, then the row of the job.\<close>

definition equip_on_class_bar ::
  "hotbar_env \<Rightarrow> u8 \<Rightarrow> bool \<Rightarrow> u32 \<Rightarrow> u16 \<Rightarrow> u32 \<Rightarrow> hotbar_state \<Rightarrow> hotbar_state \<times> hotbar_out list" where
  "equip_on_class_bar v class_id is_active command slot recast_end s =
     (if HOTBAR_SLOTS \<le> slot \<or> \<not> hv_up v (HcEquip class_id slot command) then (s, [])
      else let s1 = s\<lparr>hs_rows := db_equip_ability (hv_player v) class_id slot command recast_end (hs_rows s)\<rparr>
           in if is_active
              then let s2 = on_bar (bar_put slot (command OR COMMAND_MASK) recast_end) s1
                   in (s2, send_hotbar_slot_update v slot s2)
              else (s1, []))"

definition equip_on_job_bar :: "hotbar_env \<Rightarrow> u8 \<Rightarrow> u8 \<Rightarrow> u32 \<Rightarrow> u32 \<Rightarrow> hotbar_state \<Rightarrow> hotbar_state" where
  "equip_on_job_bar v class_id job_id command recast_end s =
     (if job_id = class_id \<or> \<not> hv_up v (HcFind job_id command) then s
      else let slot = db_find_first_command_slot (hv_player v) job_id (hs_rows s)
           in if slot < HOTBAR_SLOTS \<and> hv_up v (HcEquip job_id slot command)
              then s\<lparr>hs_rows := db_equip_ability (hv_player v) job_id slot command recast_end (hs_rows s)\<rparr> else s)"

definition equip_unlocked ::
  "hotbar_env \<Rightarrow> hotbar_catalog \<Rightarrow> u8 \<Rightarrow> bool \<Rightarrow> u16 \<Rightarrow> hotbar_state \<Rightarrow> hotbar_state \<times> hotbar_out list" where
  "equip_unlocked v k class_id is_active command_id s =
     (let command = ucast command_id;
          recast_end = u32_saturating_add (hv_now v) (case hk_max_recast k command_id of Some m \<Rightarrow> m | None \<Rightarrow> 5);
          slot = (if is_active then Some (first_free_hotbar_slot (case hs_player s of Some c \<Rightarrow> ch_hotbar c | None \<Rightarrow> []))
                  else if hv_up v (HcFind class_id command)
                  then Some (db_find_first_command_slot (hv_player v) class_id (hs_rows s)) else None)
      in case slot of None \<Rightarrow> (s, [])
         | Some i \<Rightarrow>
             (let (s1, out) = equip_on_class_bar v class_id is_active command i recast_end s
              in (equip_on_job_bar v class_id (convert_class_id_to_job_id class_id) command recast_end s1, out)))"

text \<open>A step for each element of a list, with what they send.\<close>

fun for_each :: "('a \<Rightarrow> 's \<Rightarrow> 's \<times> 'o list) \<Rightarrow> 'a list \<Rightarrow> 's \<Rightarrow> 's \<times> 'o list" where
  "for_each f [] s = (s, [])"
| "for_each f (x # xs) s = (let (s1, o1) = f x s; (s2, o2) = for_each f xs s1 in (s2, o1 @ o2))"

definition equip_abilities_at_level ::
  "hotbar_env \<Rightarrow> hotbar_catalog \<Rightarrow> u8 \<Rightarrow> int \<Rightarrow> hotbar_state \<Rightarrow> hotbar_state \<times> hotbar_out list" where
  "equip_abilities_at_level v k class_id at_level s =
     (case hs_player s of None \<Rightarrow> (s, [])
      | Some c \<Rightarrow> for_each (equip_unlocked v k class_id (ch_class c = uint class_id)) (hk_unlocked k class_id at_level) s)"

section \<open>Class change\<close>

definition first_time_init :: "hotbar_env \<Rightarrow> u8 \<Rightarrow> hotbar_state \<Rightarrow> hotbar_state \<times> hotbar_entry list \<times> hotbar_out list" where
  "first_time_init v class_id s =
     (let db_level = (if hv_up v HcLevels \<and> has_class_column class_id then xd_level (hs_exp s) class_id else 0)
      in if 0 < db_level then (s, [], [])
         else let s1 = s\<lparr>hs_exp := db_set_level (hv_up v (HcSetLevel class_id)) class_id 1 (hs_exp s),
                         hs_player := map_option (\<lambda>c. c\<lparr>ch_skill_level := (ch_skill_level c)[unat class_id := 1]\<rparr>) (hs_player s)\<rparr>
              in case hv_catalog v of None \<Rightarrow> (s1, [], [])
                 | Some k \<Rightarrow>
                     (let (s2, out) = equip_abilities_at_level v k class_id 1 s1
                      in (s2, if hv_up v (HcReload class_id) then db_load_hotbar (hv_player v) class_id (hs_rows s2) else [], out)))"

definition apply_do_class_change :: "hotbar_env \<Rightarrow> u8 \<Rightarrow> hotbar_state \<Rightarrow> hotbar_state \<times> hotbar_out list" where
  "apply_do_class_change v class_id s =
     (if hs_player s = None \<or> \<not> hv_up v (HcLoad class_id) then (s, [])
      else let loaded = db_load_hotbar (hv_player v) class_id (hs_rows s);
               (s1, bar, out) = (if loaded = [] then first_time_init v class_id s else (s, loaded, []));
               s2 = s1\<lparr>hs_player := map_option (\<lambda>c. c\<lparr>ch_class := uint class_id, ch_hotbar := bar\<rparr>) (hs_player s1)\<rparr>
           in (s2, out @ [HoJob (hv_player v) (ucast class_id)]
                   @ concat (map (\<lambda>i. send_hotbar_slot_update v (of_nat i) s2) [0..<30])))"

section \<open>The experience gain\<close>

text \<open>\<open>emit_exp_property_updates\<close>, to a player with a session and a client.\<close>

definition emit_exp_property_updates :: "hotbar_env \<Rightarrow> u8 \<Rightarrow> int \<Rightarrow> exp_gain \<Rightarrow> hotbar_out list" where
  "emit_exp_property_updates v class_id base g =
     (if hv_session v = 0 \<or> \<not> hv_client v then []
      else let slot = (if class_id = 0 then 0 else class_id - 1);
               unlocked = (\<lambda>l. case hv_catalog v of None \<Rightarrow> [] | Some k \<Rightarrow> hk_unlocked k class_id l)
           in (if 0 < xg_gained g then [HoLevel slot (xg_level g)] else [])
              @ [HoSkillPoint slot (xg_exp g)
                  (if xg_rested_before g \<noteq> xg_rested_after g then Some (xg_rested_after g) else None)]
              @ (let rows = exp_rows unlocked class_id base g in if rows = [] then [] else [HoRows rows]))"

definition apply_add_exp ::
  "hotbar_env \<Rightarrow> exp_calls \<Rightarrow> u8 \<Rightarrow> int \<Rightarrow> hotbar_state \<Rightarrow> hotbar_state \<times> hotbar_out list" where
  "apply_add_exp v ok class_id x s =
     (if x = 0 then (s, [])
      else case hs_player s of None \<Rightarrow> (s, [])
      | Some c \<Rightarrow>
         (case gain_exp class_id x c of None \<Rightarrow> (s, [])
          | Some (g, c1) \<Rightarrow>
             (let s1 = s\<lparr>hs_player := Some c1, hs_exp := persist_gain ok class_id g (hs_exp s)\<rparr>;
                  (s2, out) = (case hv_catalog v of
                      Some k \<Rightarrow> if 0 < xg_gained g
                        then for_each (equip_abilities_at_level v k class_id) [xg_level g - xg_gained g + 1 .. xg_level g] s1
                        else (s1, [])
                    | None \<Rightarrow> (s1, []))
              in (s2, out @ emit_exp_property_updates v class_id x g))))"

end
