(* ===== verification/Combat.thy ===== *)
theory Combat
  imports Hotbar GrandCompany ActorRegistry
begin

text \<open>
  The dispatcher of battle and status events (\<open>map-server/src/runtime/dispatcher.rs\<close>): resolution of
  an attack and of an action, the pools, recalculation, death, revival, the awards of a kill, and
  \<open>apply_try_status\<close> (\<open>runtime/quest_apply.rs\<close>). The state is what the handlers reach through the
  registry, the sessions and the database; a handler returns the new state with what it
  broadcasts, or a panic where a pool is clamped between crossed bounds. Each handler runs to its
  end before the next. The scripts behind a content signal and a quest's kill hook, the exponential
  of the tactical point formula, the catalogs, the clock and which database calls succeed are
  arguments. Who receives a broadcast is the grid's business (\<open>AreaGrid\<close>).
\<close>

section \<open>State\<close>

record combatant =
  cb_handle :: actor_handle
  cb_char :: character
  cb_position :: vector3
  cb_rotation :: f32_bits
  cb_spawn :: vector3
  cb_respawn_disabled :: bool
  cb_mount_state :: u8
  cb_rental_expire_time :: u32
  cb_rental_min_left :: u8
  cb_last_rest_accrual_utc :: u32

record content_script =
  ct_script :: string
  ct_director :: u32
  ct_warp_complete :: bool

record map_session =
  ms_id :: u32
  ms_content :: "content_script option"
  ms_rosters :: "u32 \<rightharpoonup> u32 list"

text \<open>The registry is in its iteration order; \<open>cw_zone\<close> is the zone the events belong to.\<close>

record combat_world =
  cw_actors :: "(u32 \<times> combatant) list"
  cw_sessions :: "map_session list"
  cw_zone :: zone
  cw_rows :: hotbar_rows
  cw_exp :: "u32 \<Rightarrow> exp_db"
  cw_gc :: gc_world
  cw_saved_status :: "u32 \<Rightarrow> status_row list"
  cw_rng :: rng

text \<open>\<open>ce_lua\<close> and \<open>ce_db\<close> say whether the optional engine and database are there.\<close>

record combat_env =
  ce_lua :: bool
  ce_db :: bool
  ce_exp :: "f64_bits \<Rightarrow> f64_bits"
  ce_items :: item_catalog
  ce_equipment :: "u32 \<Rightarrow> u8 \<Rightarrow> equipment"
  ce_catalog :: hotbar_catalog
  ce_client :: "u32 \<Rightarrow> bool"
  ce_now :: u32
  ce_hotbar_up :: "u32 \<Rightarrow> hotbar_call \<Rightarrow> bool"
  ce_exp_calls :: exp_calls
  ce_status_up :: "u32 \<Rightarrow> bool"
  ce_gc_up :: "gc_db_call \<Rightarrow> bool"
  ce_signal :: "u32 \<Rightarrow> string \<Rightarrow> combat_world \<Rightarrow> combat_world"
  ce_on_kill :: "u32 \<Rightarrow> u32 \<Rightarrow> combat_world \<Rightarrow> combat_world"

text \<open>A row of a command result on the wire.\<close>

record wire_result =
  wr_target_id :: u32
  wr_hit_num :: u8
  wr_hit_effect :: u32
  wr_mitigated_amount :: u32
  wr_amount :: u32
  wr_command_type :: u8
  wr_animation_id :: u32
  wr_text_id :: u16
  wr_param :: u32
  wr_action_property :: u8

definition default_wire :: wire_result where
  "default_wire = \<lparr>wr_target_id = 0, wr_hit_num = 0, wr_hit_effect = 0, wr_mitigated_amount = 0, wr_amount = 0,
     wr_command_type = 0, wr_animation_id = 0, wr_text_id = 0, wr_param = 0, wr_action_property = 0\<rparr>"

datatype combat_out =
    CoResults u32 u32 u16 nat "wire_result list"
  | CoQuickly u32 u16 u16 u16 u16 int
  | CoPlayerPools u32 u16 u16 u8 u16
  | CoTrio u32 u16
  | CoState u32 u16
  | CoHateType u32 u8
  | CoEnmity u32 u32 u8
  | CoResetHead u32
  | CoChant u32 u32
  | CoAnimation u32 u32
  | CoText u32 u16
  | CoRecast u32 u16 u16 u32
  | CoStatus status_event
  | CoHotbar u32 hotbar_out
  | CoRemove u32
  | CoMoved u32 moved_packet

type_synonym cstep = "combat_world \<Rightarrow> (combat_world \<times> combat_out list) result"

subsection \<open>Steps\<close>

definition c_skip :: cstep where "c_skip w = Ok (w, [])"
definition c_say :: "combat_out list \<Rightarrow> cstep" where "c_say out w = Ok (w, out)"
definition c_upd :: "(combat_world \<Rightarrow> combat_world) \<Rightarrow> cstep" where "c_upd f w = Ok (f w, [])"

definition c_seq :: "cstep \<Rightarrow> cstep \<Rightarrow> cstep" where
  "c_seq f g w = bind_outcome (f w) (\<lambda>(w1, o1). bind_outcome (g w1) (\<lambda>(w2, o2). Ok (w2, o1 @ o2)))"

fun c_all :: "cstep list \<Rightarrow> cstep" where
  "c_all [] = c_skip"
| "c_all (f # fs) = c_seq f (c_all fs)"

definition c_when :: "(combat_world \<Rightarrow> bool) \<Rightarrow> cstep \<Rightarrow> cstep" where
  "c_when P f w = (if P w then f w else Ok (w, []))"

definition combatant_of :: "u32 \<Rightarrow> combat_world \<Rightarrow> combatant option" where
  "combatant_of a w = map_of (cw_actors w) a"

definition char_of :: "u32 \<Rightarrow> combat_world \<Rightarrow> character option" where
  "char_of a w = map_option cb_char (combatant_of a w)"

definition upd_combatant :: "u32 \<Rightarrow> (combatant \<Rightarrow> combatant) \<Rightarrow> combat_world \<Rightarrow> combat_world" where
  "upd_combatant a f w = w\<lparr>cw_actors := map (\<lambda>(b, c). (b, if b = a then f c else c)) (cw_actors w)\<rparr>"

definition upd_char :: "u32 \<Rightarrow> (character \<Rightarrow> character) \<Rightarrow> combat_world \<Rightarrow> combat_world" where
  "upd_char a f = upd_combatant a (\<lambda>c. c\<lparr>cb_char := f (cb_char c)\<rparr>)"

text \<open>A write to a character that may panic; nothing for an actor that is gone.\<close>

definition c_char :: "u32 \<Rightarrow> (character \<Rightarrow> character result) \<Rightarrow> cstep" where
  "c_char a f w = (case char_of a w of None \<Rightarrow> Ok (w, [])
     | Some c \<Rightarrow> bind_outcome (f c) (\<lambda>c1. Ok (upd_char a (\<lambda>_. c1) w, [])))"

definition kind_of :: "u32 \<Rightarrow> combat_world \<Rightarrow> actor_kind_tag option" where
  "kind_of a w = map_option (h_kind \<circ> cb_handle) (combatant_of a w)"

definition is_player_actor :: "u32 \<Rightarrow> combat_world \<Rightarrow> bool" where
  "is_player_actor a w \<longleftrightarrow> kind_of a w = Some TagPlayer"

section \<open>Command results\<close>

text \<open>\<open>action_property as u8\<close>: the position of the constructor.\<close>

definition action_property_u8 :: "action_property \<Rightarrow> u8" where
  "action_property_u8 p = (case first_index (\<lambda>q. q = p) action_properties of None \<Rightarrow> 0 | Some i \<Rightarrow> of_nat i)"

definition battle_result_to_wire :: "command_result \<Rightarrow> wire_result" where
  "battle_result_to_wire r =
     \<lparr>wr_target_id = cr_target_actor_id r, wr_hit_num = cr_hit_num r, wr_hit_effect = cr_effect_id r,
      wr_mitigated_amount = ucast (cr_amount_mitigated r), wr_amount = ucast (cr_amount r),
      wr_command_type = ucast (cr_command_type r), wr_animation_id = cr_animation r,
      wr_text_id = cr_world_master_text_id r, wr_param = ucast (cr_param r),
      wr_action_property = action_property_u8 (cr_action_property r)\<rparr>"

text \<open>The containers of a batch: one row, up to ten, or up to eighteen.\<close>

function result_packets :: "'a list \<Rightarrow> (nat \<times> 'a list) list" where
  "result_packets rows =
     (if rows = [] then []
      else if length rows = 1 then [(1, rows)]
      else if length rows \<le> 10 then [(10, rows)]
      else (18, take 18 rows) # result_packets (drop 18 rows))"
  by pat_completeness auto
termination by (relation "measure length") auto

definition broadcast_rows :: "u32 \<Rightarrow> u32 \<Rightarrow> u16 \<Rightarrow> wire_result list \<Rightarrow> combat_out list" where
  "broadcast_rows source animation command rows =
     map (\<lambda>(cap, part). CoResults source animation command cap part) (result_packets rows)"

definition broadcast_results :: "u32 \<Rightarrow> u32 \<Rightarrow> u16 \<Rightarrow> command_result list \<Rightarrow> combat_out list" where
  "broadcast_results source animation command results =
     broadcast_rows source animation command (map battle_result_to_wire results)"

definition pool_u16 :: "int \<Rightarrow> u16" where "pool_u16 x = word_of_int (max x 0)"

definition broadcast_state_quickly :: "u32 \<Rightarrow> combat_world \<Rightarrow> combat_out list" where
  "broadcast_state_quickly a w =
     (case char_of a w of None \<Rightarrow> []
      | Some c \<Rightarrow> [CoQuickly a (pool_u16 (ch_hp c)) (pool_u16 (ch_max_hp c)) (pool_u16 (ch_mp c))
                     (pool_u16 (ch_max_mp c)) (ch_tp c)])"

definition c_quickly :: "u32 \<Rightarrow> cstep" where
  "c_quickly a w = Ok (w, broadcast_state_quickly a w)"

section \<open>Status events\<close>

definition apply_hp_delta :: "u32 \<Rightarrow> int \<Rightarrow> cstep" where
  "apply_hp_delta a delta = c_char a (add_hp delta)"

definition apply_mp_delta :: "u32 \<Rightarrow> int \<Rightarrow> cstep" where
  "apply_mp_delta a delta = c_char a (add_mp delta)"

definition apply_tp_delta :: "u32 \<Rightarrow> int \<Rightarrow> cstep" where
  "apply_tp_delta a delta = c_char a (\<lambda>c. Ok (add_tp delta c))"

text \<open>A pool write, then the pools on the wire where the pool moved.\<close>

definition tick_pool :: "u32 \<Rightarrow> (character \<Rightarrow> int) \<Rightarrow> cstep \<Rightarrow> cstep" where
  "tick_pool a pool f w =
     bind_outcome (f w) (\<lambda>(w1, out).
       if map_option pool (char_of a w1) \<noteq> map_option pool (char_of a w)
       then Ok (w1, out @ broadcast_state_quickly a w1) else Ok (w1, out))"

definition resolve_current_class_id :: "character \<Rightarrow> u8" where
  "resolve_current_class_id c =
     (if ch_current_job c \<noteq> 0 then word_of_int (ch_current_job c) else word_of_int (ch_class c))"

definition pools :: "character \<Rightarrow> int \<times> int \<times> int \<times> int" where
  "pools c = (ch_hp c, ch_max_hp c, ch_mp c, ch_max_mp c)"

definition apply_recalc_stats :: "combat_env \<Rightarrow> item_catalog \<Rightarrow> u32 \<Rightarrow> cstep" where
  "apply_recalc_stats e items a w =
     (case char_of a w of None \<Rightarrow> Ok (w, [])
      | Some c \<Rightarrow>
          let player = is_player_actor a w;
              eq = (if player then ce_equipment e a (resolve_current_class_id c) else [])
          in bind_outcome (recalc_character player items eq c) (\<lambda>c1.
               Ok (upd_char a (\<lambda>_. c1) w,
                   if player \<and> pools c1 \<noteq> pools c
                   then [CoQuickly a (pool_u16 (ch_hp c1)) (pool_u16 (ch_max_hp c1)) (pool_u16 (ch_mp c1))
                           (pool_u16 (ch_max_mp c1)) (ch_tp c1),
                         CoPlayerPools a (pool_u16 (ch_hp c1)) (pool_u16 (ch_max_hp c1))
                           (word_of_int (max (ch_class c1) 0)) (word_of_int (max (ch_level c1) 1))]
                   else [])))"

definition save_status :: "combat_env \<Rightarrow> u32 \<Rightarrow> cstep" where
  "save_status e a w =
     (case char_of a w of None \<Rightarrow> Ok (w, [])
      | Some c \<Rightarrow> Ok (if ce_status_up e a
          then w\<lparr>cw_saved_status := (cw_saved_status w)(a := to_db_entries (ch_status c))\<rparr> else w, []))"

fun dispatch_status_event :: "combat_env \<Rightarrow> item_catalog \<Rightarrow> status_event \<Rightarrow> cstep" where
  "dispatch_status_event e items (StDbSave a) = save_status e a"
| "dispatch_status_event e items (StHpTick a d) = tick_pool a ch_hp (apply_hp_delta a d)"
| "dispatch_status_event e items (StMpTick a d) = tick_pool a ch_mp (apply_mp_delta a d)"
| "dispatch_status_event e items (StTpTick a d) = tick_pool a ch_tp (apply_tp_delta a d)"
| "dispatch_status_event e items (StRecalcStats a) = apply_recalc_stats e items a"
| "dispatch_status_event e items (StLuaCall a k f) = c_skip"
| "dispatch_status_event e items (StSetStatus a i k) = c_say [CoStatus (StSetStatus a i k)]"
| "dispatch_status_event e items (StSetTime a i t) = c_say [CoStatus (StSetTime a i t)]"
| "dispatch_status_event e items (StText a t k p) = c_say [CoStatus (StText a t k p)]"

definition dispatch_status_events :: "combat_env \<Rightarrow> item_catalog \<Rightarrow> status_event list \<Rightarrow> cstep" where
  "dispatch_status_events e items events = c_all (map (dispatch_status_event e items) events)"

text \<open>The catalog of the engine, an empty one without it.\<close>

definition lua_items :: "combat_env \<Rightarrow> item_catalog" where
  "lua_items e = (if ce_lua e then ce_items e else (\<lambda>_. None))"

text \<open>A write to the effects of an actor, its events dispatched.\<close>

definition c_status ::
  "combat_env \<Rightarrow> item_catalog \<Rightarrow> u32 \<Rightarrow> (status_container \<Rightarrow> status_container \<times> status_event list) \<Rightarrow> cstep" where
  "c_status e items a f w =
     (case char_of a w of None \<Rightarrow> Ok (w, [])
      | Some c \<Rightarrow>
         (let (st, events) = f (ch_status c)
          in dispatch_status_events e items events (upd_char a (\<lambda>c. c\<lparr>ch_status := st\<rparr>) w)))"

definition unix_ms :: "combat_env \<Rightarrow> u64" where
  "unix_ms e = ucast (ce_now e) * 1000"

definition apply_try_status ::
  "combat_env \<Rightarrow> u32 \<Rightarrow> u32 \<Rightarrow> u32 \<Rightarrow> u32 \<Rightarrow> f64_bits \<Rightarrow> u32 \<Rightarrow> u8 \<Rightarrow> combat_world
   \<Rightarrow> (bool \<times> combat_world \<times> combat_out list) result" where
  "apply_try_status e source_id a status_id duration magnitude tick tier w =
     (case char_of a w of None \<Rightarrow> Ok (False, w, [])
      | Some c \<Rightarrow>
         (let (landed, st, events) =
            add_status_effect (effect_new a status_id magnitude tick duration tier (unix_ms e)) source_id (unix_ms e)
              DEFAULT_GAIN_TEXT_ID (ch_status c);
              w1 = upd_char a (\<lambda>c. c\<lparr>ch_status := st\<rparr>) w
          in if \<not> landed then Ok (False, w1, [])
             else bind_outcome (dispatch_status_events e (lua_items e) events w1) (\<lambda>(w2, out). Ok (True, w2, out))))"

section \<open>State changes\<close>

definition pre_warp :: "u32 \<Rightarrow> combat_world \<Rightarrow> bool" where
  "pre_warp a w \<longleftrightarrow> (\<exists>s \<in> set (cw_sessions w). case ms_content s of None \<Rightarrow> False
     | Some t \<Rightarrow> \<not> ct_warp_complete t \<and> (case ms_rosters s (ct_director t) of None \<Rightarrow> False | Some r \<Rightarrow> a \<in> set r))"

definition emit_change_state_trio :: "u32 \<Rightarrow> u16 \<Rightarrow> cstep" where
  "emit_change_state_trio a st w =
     (case char_of a w of None \<Rightarrow> Ok (w, [])
      | Some c \<Rightarrow>
          if ch_main_state c = MAIN_STATE_DEAD \<and> st \<noteq> MAIN_STATE_DEAD then Ok (w, [])
          else Ok (upd_char a (\<lambda>c. c\<lparr>ch_main_state := st, ch_new_main_state := st\<rparr>) w,
                   if pre_warp a w then [] else [CoTrio a st]))"

definition fire_content_signal :: "combat_env \<Rightarrow> u32 \<Rightarrow> string \<Rightarrow> cstep" where
  "fire_content_signal e a signal w =
     (case combatant_of a w of None \<Rightarrow> Ok (w, [])
      | Some p \<Rightarrow>
          if ce_lua e \<and> ce_db e \<and> h_is_player (cb_handle p) \<and> h_session_id (cb_handle p) \<noteq> 0
             \<and> (\<exists>s \<in> set (cw_sessions w). ms_id s = h_session_id (cb_handle p) \<and> ms_content s \<noteq> None)
          then Ok (ce_signal e a signal w, []) else Ok (w, []))"

text \<open>The first session whose active roster holds the dead actor decides.\<close>

definition roster_of :: "u32 \<Rightarrow> map_session \<Rightarrow> u32 list option" where
  "roster_of a s = (case ms_content s of None \<Rightarrow> None
     | Some t \<Rightarrow> (case ms_rosters s (ct_director t) of None \<Rightarrow> None
        | Some r \<Rightarrow> if a \<in> set r then Some r else None))"

definition live_hostile :: "combat_world \<Rightarrow> u32 \<Rightarrow> bool" where
  "live_hostile w a \<longleftrightarrow> kind_of a w = Some TagBattleNpc
     \<and> (case char_of a w of None \<Rightarrow> False | Some c \<Rightarrow> ch_main_state c \<noteq> MAIN_STATE_DEAD)"

fun content_complete :: "combat_env \<Rightarrow> u32 \<Rightarrow> map_session list \<Rightarrow> cstep" where
  "content_complete e a [] w = Ok (w, [])"
| "content_complete e a (s # ss) w =
     (case roster_of a s of None \<Rightarrow> content_complete e a ss w
      | Some r \<Rightarrow>
          if list_ex (live_hostile w) r then Ok (w, [])
          else case find (\<lambda>(b, p). indexed (cb_handle p) \<and> h_session_id (cb_handle p) = ms_id s) (cw_actors w) of
                 None \<Rightarrow> Ok (w, [])
               | Some (b, p) \<Rightarrow> Ok (ce_signal e b ''battleComplete'' w, []))"

definition check_content_battle_complete :: "combat_env \<Rightarrow> u32 \<Rightarrow> cstep" where
  "check_content_battle_complete e a w = content_complete e a (cw_sessions w) w"

section \<open>Death and revival\<close>

definition HATE_TYPE_DEAD :: u8 where "HATE_TYPE_DEAD = 4"
definition HATE_TYPE_ENGAGED :: u8 where "HATE_TYPE_ENGAGED = 2"

text \<open>The write to the one who dies: its character and the events of the effects it loses.\<close>

definition mark_dead :: "u32 \<Rightarrow> character \<Rightarrow> character \<times> status_event list" where
  "mark_dead now c =
     (let (removed, st, events) = remove_by_flag SF_LOSE_ON_DEATH (ch_status c)
      in (c\<lparr>ch_hp := (if 0 < ch_hp c then 0 else ch_hp c), ch_main_state := MAIN_STATE_DEAD,
            ch_new_main_state := MAIN_STATE_DEAD, ch_time_of_death_utc := now,
            ch_ai := clear_states (ch_ai c), ch_status := st, ch_hate := clear_hate None (ch_hate c)\<rparr>, events))"

text \<open>Every other actor of the zone forgets the dead one, and stops what it did to it.\<close>

definition forget_dead :: "u32 \<Rightarrow> character \<Rightarrow> character" where
  "forget_dead dead c =
     (let targets = (case current_state (ch_ai c) of None \<Rightarrow> False | Some s \<Rightarrow> bs_target s = dead)
      in c\<lparr>ch_hate := clear_hate (Some dead) (ch_hate c),
           ch_ai := (if targets then clear_states (ch_ai c) else ch_ai c)\<rparr>)"

definition zone_forgets :: "u32 \<Rightarrow> u32 \<Rightarrow> combat_world \<Rightarrow> combat_world" where
  "zone_forgets zone_id dead w =
     w\<lparr>cw_actors := map (\<lambda>(b, c). (b, if b \<noteq> dead \<and> h_zone_id (cb_handle c) = zone_id
        then c\<lparr>cb_char := forget_dead dead (cb_char c)\<rparr> else c)) (cw_actors w)\<rparr>"

definition apply_die :: "combat_env \<Rightarrow> u32 \<Rightarrow> cstep" where
  "apply_die e a w =
     (case combatant_of a w of None \<Rightarrow> Ok (w, [])
      | Some p \<Rightarrow>
          if ch_main_state (cb_char p) = MAIN_STATE_DEAD then Ok (w, [])
          else
            (let (c1, events) = mark_dead (ce_now e) (cb_char p);
                 bnpc = (h_kind (cb_handle p) = TagBattleNpc)
             in c_all
                 [emit_change_state_trio a MAIN_STATE_DEAD,
                  c_say (if bnpc then [CoHateType a HATE_TYPE_DEAD] else []),
                  c_when (\<lambda>_. ce_lua e \<and> ce_db e) (dispatch_status_events e (ce_items e) events),
                  c_when (\<lambda>_. bnpc \<and> ce_lua e \<and> ce_db e) (check_content_battle_complete e a)]
                 (zone_forgets (h_zone_id (cb_handle p)) a (upd_char a (\<lambda>_. c1) w))))"

definition revive :: "character \<Rightarrow> character result" where
  "revive c = bind_outcome (set_hp (ch_max_hp c) c) (\<lambda>c1. bind_outcome (set_mp (ch_max_mp c) c1) (\<lambda>c2.
     Ok (c2\<lparr>ch_main_state := MAIN_STATE_PASSIVE, ch_new_main_state := MAIN_STATE_PASSIVE,
            ch_time_of_death_utc := 0\<rparr>)))"

definition apply_revive :: "u32 \<Rightarrow> cstep" where
  "apply_revive a w =
     (case char_of a w of None \<Rightarrow> Ok (w, [])
      | Some c \<Rightarrow>
          if ch_main_state c \<noteq> MAIN_STATE_DEAD then Ok (w, [])
          else c_seq (c_char a revive) (c_say [CoState a MAIN_STATE_PASSIVE]) w)"

section \<open>The awards of a kill\<close>

definition SELF_PAYING_CONTENT_SCRIPTS :: "string list" where
  "SELF_PAYING_CONTENT_SCRIPTS = [''SimpleContent30010'', ''SimpleContent30002'', ''SimpleContent30079'']"

definition self_paying :: "u32 \<Rightarrow> combat_world \<Rightarrow> bool" where
  "self_paying session w \<longleftrightarrow> session \<noteq> 0
     \<and> (\<exists>s \<in> set (cw_sessions w). ms_id s = session
          \<and> (case ms_content s of None \<Rightarrow> False | Some t \<Rightarrow> ct_script t \<in> set SELF_PAYING_CONTENT_SCRIPTS))"

text \<open>The tier of a chain that has not run out by the wall clock.\<close>

definition chain_tier :: "u32 \<Rightarrow> status_container \<Rightarrow> u8" where
  "chain_tier now st = (case status_get STATUS_EXP_CHAIN st of None \<Rightarrow> 0
     | Some c \<Rightarrow> if now < se_end_time c then se_tier c else 0)"

definition u8_saturating_add :: "u8 \<Rightarrow> u8 \<Rightarrow> u8" where
  "u8_saturating_add a b = (if uint a + uint b < 256 then a + b else 255)"

definition chain_effect :: "u32 \<Rightarrow> u8 \<Rightarrow> u64 \<Rightarrow> status_effect" where
  "chain_effect owner_id tier now =
     (effect_new owner_id STATUS_EXP_CHAIN 0 0 (ucast (chain_time_limit_s tier)) (u8_saturating_add tier 1) now)
       \<lparr>se_flags := 273, se_overwrite := OwAlways, se_hidden := True, se_silent_on_gain := True,
        se_silent_on_loss := True\<rparr>"

definition refresh_chain :: "u32 \<Rightarrow> u8 \<Rightarrow> u64 \<Rightarrow> status_container \<Rightarrow> status_container \<times> status_event list" where
  "refresh_chain owner_id tier now st =
     snd (add_status_effect (chain_effect owner_id tier now) owner_id now DEFAULT_GAIN_TEXT_ID st)"

definition kill_rows :: "u32 \<Rightarrow> u32 \<Rightarrow> u8 \<Rightarrow> wire_result list" where
  "kill_rows attacker defender tier =
     default_wire\<lparr>wr_target_id := defender, wr_text_id := 30108, wr_hit_num := 1\<rparr>
     # (if 0 < tier
        then [default_wire\<lparr>wr_target_id := attacker, wr_text_id := 33919, wr_amount := ucast tier,
                           wr_param := ucast (chain_time_limit_s tier), wr_hit_num := 1\<rparr>]
        else [])"

definition hotbar_env_of :: "combat_env \<Rightarrow> u32 \<Rightarrow> combat_world \<Rightarrow> hotbar_env" where
  "hotbar_env_of e a w =
     (let session = (case combatant_of a w of None \<Rightarrow> 0 | Some p \<Rightarrow> h_session_id (cb_handle p))
      in \<lparr>hv_player = a, hv_session = session, hv_client = ce_client e session,
          hv_catalog = (if ce_lua e then Some (ce_catalog e) else None), hv_now = ce_now e,
          hv_up = ce_hotbar_up e a\<rparr>)"

text \<open>A handler of the command bar run on the world.\<close>

definition on_hotbar :: "u32 \<Rightarrow> (hotbar_state \<Rightarrow> hotbar_state \<times> hotbar_out list) \<Rightarrow> cstep" where
  "on_hotbar a f w =
     (let (s, out) = f \<lparr>hs_player = char_of a w, hs_rows = cw_rows w, hs_exp = cw_exp w a\<rparr>;
          w1 = (case hs_player s of None \<Rightarrow> w | Some c \<Rightarrow> upd_char a (\<lambda>_. c) w)
      in Ok (w1\<lparr>cw_rows := hs_rows s, cw_exp := (cw_exp w1)(a := hs_exp s)\<rparr>, map (CoHotbar a) out))"

definition add_exp :: "combat_env \<Rightarrow> u32 \<Rightarrow> u8 \<Rightarrow> int \<Rightarrow> cstep" where
  "add_exp e a class_id x w = on_hotbar a (apply_add_exp (hotbar_env_of e a w) (ce_exp_calls e) class_id x) w"

definition award_battle_exp :: "combat_env \<Rightarrow> u32 \<Rightarrow> u32 \<Rightarrow> int \<Rightarrow> cstep" where
  "award_battle_exp e attacker defender mob_level w =
     (case combatant_of attacker w of None \<Rightarrow> Ok (w, [])
      | Some p \<Rightarrow>
          if self_paying (h_session_id (cb_handle p)) w then Ok (w, [])
          else
            let c = cb_char p;
                class_id = word_of_int (max 0 (min 255 (ch_class c)));
                base = uint (base_kill_exp (ch_level c) mob_level 1);
                tier = chain_tier (ce_now e) (ch_status c)
            in if base = 0 then Ok (w, [])
               else c_all
                 [c_status e (lua_items e) attacker (refresh_chain attacker tier (unix_ms e)),
                  c_say (broadcast_rows attacker 0 0 (kill_rows attacker defender tier)),
                  add_exp e attacker class_id
                    (with_bonus base (word_of_int (min 255 (uint (link_bonus 0) + uint (chain_bonus tier)))))] w)"

definition die_if_defender_fell :: "combat_env \<Rightarrow> u32 \<Rightarrow> u32 option \<Rightarrow> cstep" where
  "die_if_defender_fell e defender attacker_opt w =
     (case combatant_of defender w of None \<Rightarrow> Ok (w, [])
      | Some p \<Rightarrow>
          let c = cb_char p; bnpc = (h_kind (cb_handle p) = TagBattleNpc);
              class_id = (if bnpc then ch_actor_class_id c else 0);
              mob_level = (if bnpc then max (ch_level c) 1 else 1)
          in if \<not> ch_is_dead c \<or> ch_main_state c = MAIN_STATE_DEAD then Ok (w, [])
             else c_seq (apply_die e defender)
               (c_when (\<lambda>w. bnpc \<and> ce_db e \<and> (case attacker_opt of None \<Rightarrow> False | Some b \<Rightarrow> is_player_actor b w))
                 (case attacker_opt of None \<Rightarrow> c_skip
                  | Some b \<Rightarrow> c_all
                      [c_upd (\<lambda>w. w\<lparr>cw_gc := award_grand_company_seals (ce_gc_up e) b mob_level (cw_gc w)\<rparr>),
                       award_battle_exp e b defender mob_level,
                       c_when (\<lambda>_. ce_lua e) (c_upd (ce_on_kill e b class_id))])) w)"

section \<open>Attacks and actions\<close>

definition view_of :: "u32 \<Rightarrow> character \<Rightarrow> combat_view" where
  "view_of a c =
     \<lparr>cv_actor_id = a, cv_level = ch_level c, cv_max_hp = ch_max_hp c, cv_mods = ch_mods c,
      cv_has_aegis_boon = False, cv_has_protect = False, cv_has_shell = False, cv_has_stoneskin = False\<rparr>"

text \<open>The tactical points of a hit taken: \<open>ceil(5 * exp(-0.0667 * level) * amount)\<close>.\<close>

definition tp_for_damage :: "(f64_bits \<Rightarrow> f64_bits) \<Rightarrow> int \<Rightarrow> u16 \<Rightarrow> int" where
  "tp_for_damage ex level amount =
     f64_to_i32 (f64_ceil (f64_mul (f64_mul (f64_lit 5 1)
       (ex (f64_mul (f64_neg (f64_lit 667 10000)) (f64_of_int level)))) (f64_u16 amount)))"

definition take_damage ::
  "(f64_bits \<Rightarrow> f64_bits) \<Rightarrow> u32 \<Rightarrow> damage_request option \<Rightarrow> character \<Rightarrow> character result" where
  "take_damage ex attacker request c =
     (case request of None \<Rightarrow> Ok c
      | Some r \<Rightarrow>
          if dr_amount r = 0 then Ok c
          else bind_outcome (add_hp (- uint (dr_amount r)) c) (\<lambda>c1.
            let c2 = c1\<lparr>ch_hate := update_hate attacker (uint (dr_enmity r)) (ch_hate c1)\<rparr>
            in Ok (if ch_is_alive c2 then add_tp (tp_for_damage ex (ch_level c) (dr_amount r)) c2 else c2)))"

definition landed_amount :: "damage_request option \<Rightarrow> u16" where
  "landed_amount request = (case request of None \<Rightarrow> 0 | Some r \<Rightarrow> dr_amount r)"

text \<open>The points of a swing: its delay in seconds times a hundred.\<close>

definition swing_tp :: "character \<Rightarrow> int" where
  "swing_tp c = f64_to_i32 (f64_mul (f64_div (f64_of_int (uint (get_attack_delay_ms c))) (f64_lit 1000 1)) (f64_lit 100 1))"

definition CT_AUTO_ATTACK :: u16 where "CT_AUTO_ATTACK = 1"
definition AUTO_ATTACK_COMMAND_ID :: u16 where "AUTO_ATTACK_COMMAND_ID = 22104"

definition auto_attack_result :: "u32 \<Rightarrow> int \<Rightarrow> command_result" where
  "auto_attack_result defender base =
     (result_for_target defender 0 0)\<lparr>cr_amount := word_of_int (max base 0), cr_command_type := CT_AUTO_ATTACK,
        cr_action_type := AtPhysical, cr_action_property := ApSlashing, cr_enmity := word_of_int (max base 0)\<rparr>"

definition empty_results :: result_container where
  "empty_results = \<lparr>rc_main = [], rc_additional = []\<rparr>"

text \<open>The swing on the defender: what the hit chain leaves, with the base damage rolled first.\<close>

definition swing :: "u32 \<Rightarrow> character \<Rightarrow> u32 \<Rightarrow> character \<Rightarrow> rng \<Rightarrow> hit_outcome" where
  "swing attacker ac defender dc r =
     (let av = view_of attacker ac; dv = view_of defender dc;
          (base, r1) = attack_calculate_base_damage av r;
          result = calc_rates av dv None (auto_attack_result defender base)
      in finish_action_physical av dv (ch_mods dc) None result empty_results r1)"

definition tp_reached :: "u32 \<Rightarrow> combat_world \<Rightarrow> bool" where
  "tp_reached a w \<longleftrightarrow> (case char_of a w of None \<Rightarrow> False | Some c \<Rightarrow> 1000 \<le> ch_tp c)"

definition resolve_auto_attack :: "combat_env \<Rightarrow> u32 \<Rightarrow> u32 \<Rightarrow> cstep" where
  "resolve_auto_attack e attacker defender w =
     (if attacker = defender then Ok (w, [])
      else case (char_of attacker w, char_of defender w) of
        (Some ac, Some dc) \<Rightarrow>
          if \<not> ch_is_alive ac then Ok (w, [])
          else if \<not> ch_is_alive dc
          then Ok (w\<lparr>cw_rng := snd (attack_calculate_base_damage (view_of attacker ac) (cw_rng w))\<rparr>, [])
          else
            let h = swing attacker ac defender dc (cw_rng w);
                landed = 0 < landed_amount (ho_request h);
                player = is_player_actor attacker w; defender_player = is_player_actor defender w
            in c_all
                [c_upd (\<lambda>w. w\<lparr>cw_rng := ho_rng h\<rparr>),
                 c_char defender (\<lambda>c. take_damage (ce_exp e) attacker (ho_request h) (c\<lparr>ch_mods := ho_mods h\<rparr>)),
                 c_when (\<lambda>_. landed) (c_char attacker (\<lambda>c. Ok (add_tp (swing_tp c) c))),
                 (\<lambda>w1. c_all
                   [c_when (\<lambda>_. player) (fire_content_signal e attacker ''playerAttack''),
                    c_when (\<lambda>_. player \<and> landed \<and> tp_reached attacker w1) (fire_content_signal e attacker ''tpOver1000'')] w1),
                 c_when (\<lambda>w1. defender_player \<and> tp_reached defender w1) (fire_content_signal e defender ''tpOver1000''),
                 c_say (broadcast_results attacker (if player then 0x19001000 else 0x11001000)
                          AUTO_ATTACK_COMMAND_ID (rc_main (ho_results h))),
                 c_when (\<lambda>_. landed) (c_seq (c_quickly defender) (c_quickly attacker)),
                 die_if_defender_fell e defender (Some attacker)] w
      | _ \<Rightarrow> Ok (w, []))"

text \<open>The amount of an action: its potency, else one that grows with the level.\<close>

definition action_amount :: "battle_command \<Rightarrow> int \<Rightarrow> u16" where
  "action_amount k level =
     (if 0 < bc_base_potency k then bc_base_potency k else word_of_int (min (15 + 5 * max level 1) 9999))"

text \<open>What an action does to the defender: the hit chain of its type, or a heal.\<close>

record action_effect =
  ae_request :: "damage_request option"
  ae_heal :: "u16 option"
  ae_mods :: modifier_map
  ae_rows :: "command_result list"
  ae_rng :: rng

definition of_hit :: "hit_outcome \<Rightarrow> action_effect" where
  "of_hit h = \<lparr>ae_request = ho_request h, ae_heal = None, ae_mods = ho_mods h, ae_rows = rc_main (ho_results h),
               ae_rng = ho_rng h\<rparr>"

definition action_on :: "u32 \<Rightarrow> character \<Rightarrow> u32 \<Rightarrow> character \<Rightarrow> battle_command \<Rightarrow> rng \<Rightarrow> action_effect" where
  "action_on attacker ac defender dc k r =
     (let av = view_of attacker ac; dv = view_of defender dc;
          amount = action_amount k (ch_level ac);
          result = calc_rates av dv (Some k)
            ((result_from_command defender k 1)\<lparr>cr_amount := amount, cr_enmity := amount\<rparr>)
      in case bc_action_type k of
           AtPhysical \<Rightarrow> of_hit (finish_action_physical av dv (ch_mods dc) (Some k) result empty_results r)
         | AtMagic \<Rightarrow> of_hit (finish_action_spell av dv (ch_mods dc) (Some k) result empty_results r)
         | AtHeal \<Rightarrow> (let (heal, a1, results) = finish_action_heal result empty_results
                      in \<lparr>ae_request = None, ae_heal = Some heal, ae_mods = ch_mods dc, ae_rows = rc_main results, ae_rng = r\<rparr>)
         | _ \<Rightarrow> (let (a1, results) = finish_action_status k result empty_results
                 in \<lparr>ae_request = None, ae_heal = None, ae_mods = ch_mods dc, ae_rows = rc_main results, ae_rng = r\<rparr>))"

definition heal_or_damage :: "combat_env \<Rightarrow> u32 \<Rightarrow> action_effect \<Rightarrow> character \<Rightarrow> character result" where
  "heal_or_damage e attacker f c =
     (let c1 = c\<lparr>ch_mods := ae_mods f\<rparr>
      in bind_outcome (case ae_heal f of None \<Rightarrow> Ok c1 | Some n \<Rightarrow> add_hp (uint n) c1)
           (take_damage (ce_exp e) attacker (ae_request f)))"

text \<open>The costs of a player's action, the points of an ability, and the recast of its slot.\<close>

definition pay_costs :: "battle_command \<Rightarrow> u16 \<Rightarrow> character \<Rightarrow> character result" where
  "pay_costs k landed c =
     bind_outcome (if bc_mp_cost k \<noteq> 0 then add_mp (- bc_mp_cost k) c else Ok c) (\<lambda>c1.
       let c2 = (if bc_tp_cost k \<noteq> 0 then add_tp (- bc_tp_cost k) c1 else c1)
       in Ok (if bc_command_type k = CT_ABILITY \<and> 0 < landed then add_tp (swing_tp c2) c2 else c2))"

definition start_recast_of :: "combat_env \<Rightarrow> u32 \<Rightarrow> battle_command \<Rightarrow> cstep" where
  "start_recast_of e a k w =
     (case char_of a w of None \<Rightarrow> Ok (w, [])
      | Some c \<Rightarrow>
         (let recast_end = u32_saturating_add (ce_now e) (bc_max_recast_time_seconds k);
              class_id = word_of_int (max (ch_class c) 0);
              (slot, bar) = start_recast (bc_id k) recast_end (ch_hotbar c);
              w1 = upd_char a (\<lambda>c. c\<lparr>ch_hotbar := bar\<rparr>) w
          in case slot of None \<Rightarrow> Ok (w1, [])
             | Some i \<Rightarrow>
                 Ok (if ce_db e \<and> ce_hotbar_up e a (HcEquip class_id i (ucast (bc_id k)))
                     then w1\<lparr>cw_rows := db_equip_ability a class_id i (ucast (bc_id k)) recast_end (cw_rows w1)\<rparr> else w1,
                     [CoRecast a i (ucast (bc_max_recast_time_seconds k)) recast_end])))"

definition resolve_action :: "combat_env \<Rightarrow> u32 \<Rightarrow> u32 \<Rightarrow> battle_command \<Rightarrow> cstep" where
  "resolve_action e attacker defender k w =
     (case (char_of attacker w, char_of defender w) of
        (Some ac, Some dc) \<Rightarrow>
          let heal = (bc_action_type k = AtHeal) in
          if \<not> ch_is_alive ac \<or> (\<not> ch_is_alive dc \<and> \<not> heal) then Ok (w, [])
          else
            let f = action_on attacker ac defender dc k (cw_rng w);
                landed = landed_amount (ae_request f); player = is_player_actor attacker w
            in c_all
                [c_upd (\<lambda>w. w\<lparr>cw_rng := ae_rng f\<rparr>),
                 c_char defender (heal_or_damage e attacker f),
                 c_when (\<lambda>_. player) (c_seq (c_char attacker (pay_costs k landed)) (start_recast_of e attacker k)),
                 c_when (\<lambda>_. player \<and> bc_command_type k = CT_WEAPON_SKILL) (fire_content_signal e attacker ''weaponskillUsed''),
                 c_say (broadcast_results attacker (bc_battle_animation k) (bc_id k) (ae_rows f)),
                 c_when (\<lambda>_. 0 < landed \<or> heal) (c_quickly defender),
                 c_when (\<lambda>_. player) (c_quickly attacker),
                 die_if_defender_fell e defender (Some attacker)] w
      | _ \<Rightarrow> Ok (w, []))"

section \<open>Battle events\<close>

definition NO_ENMITY_TARGET :: u32 where "NO_ENMITY_TARGET = 0xE0000000"

definition on_hate :: "u32 \<Rightarrow> (hate_container \<Rightarrow> hate_container) \<Rightarrow> cstep" where
  "on_hate a f = c_upd (upd_char a (\<lambda>c. c\<lparr>ch_hate := f (ch_hate c)\<rparr>))"

definition if_bnpc :: "u32 \<Rightarrow> combat_out \<Rightarrow> cstep" where
  "if_bnpc a out = c_when (\<lambda>w. kind_of a w = Some TagBattleNpc) (c_say [out])"

text \<open>\<open>DoBattleAction\<close> packs ten rows even for a single one.\<close>

function action_packets :: "'a list \<Rightarrow> (nat \<times> 'a list) list" where
  "action_packets rows =
     (if rows = [] then [] else if length rows \<le> 10 then [(10, rows)]
      else (18, take 18 rows) # action_packets (drop 18 rows))"
  by pat_completeness auto
termination by (relation "measure length") auto

fun dispatch_battle_event :: "combat_env \<Rightarrow> battle_event \<Rightarrow> cstep" where
  "dispatch_battle_event e (BeEngage a t) =
     c_all [c_say [CoEnmity a t 100], on_hate a (update_hate t 1), emit_change_state_trio a MAIN_STATE_ACTIVE,
            if_bnpc a (CoHateType a HATE_TYPE_ENGAGED)]"
| "dispatch_battle_event e (BeDisengage a) =
     c_all [c_say [CoEnmity a NO_ENMITY_TARGET 0], emit_change_state_trio a MAIN_STATE_PASSIVE,
            if_bnpc a (CoHateType a 1), c_say [CoResetHead a], on_hate a (clear_hate None)]"
| "dispatch_battle_event e (BeDie a) = apply_die e a"
| "dispatch_battle_event e (BeRevive a) = apply_revive a"
| "dispatch_battle_event e (BeTargetChange a t) =
     c_say [case t of None \<Rightarrow> CoEnmity a NO_ENMITY_TARGET 0 | Some b \<Rightarrow> CoEnmity a b 100]"
| "dispatch_battle_event e (BeDoBattleAction a skill animation results) =
     c_say (map (\<lambda>(cap, part). CoResults a animation 0 cap part) (action_packets (map battle_result_to_wire results)))"
| "dispatch_battle_event e (BePlayAnimation a animation) = c_say [CoAnimation a animation]"
| "dispatch_battle_event e (BeCastStart a t command ms cast_type) =
     c_say [CoChant a 0xF0,
            CoResults a (0x6F000000 OR ucast cast_type) command 1
              [default_wire\<lparr>wr_target_id := t, wr_text_id := 30128, wr_param := 1, wr_hit_num := 1\<rparr>]]"
| "dispatch_battle_event e (BeCastComplete a command) = c_say [CoChant a 0]"
| "dispatch_battle_event e (BeCastInterrupted a command) = c_say [CoChant a 0]"
| "dispatch_battle_event e (BeHateAdd a t n) = on_hate a (update_hate t n)"
| "dispatch_battle_event e (BeHateClear a t) = on_hate a (clear_hate t)"
| "dispatch_battle_event e (BeResolveAutoAttack a t) = resolve_auto_attack e a t"
| "dispatch_battle_event e (BeAutoAttackOutOfRange a) =
     c_when (is_player_actor a) (c_say [CoText a 32537])"
| "dispatch_battle_event e (BeResolveAction a t k) = resolve_action e a t k"
| "dispatch_battle_event e (BeSpawn a) = c_skip"
| "dispatch_battle_event e (BeDespawn a) = c_skip"
| "dispatch_battle_event e (BeRecalcStats a) = c_skip"
| "dispatch_battle_event e (BeQueryTargets a b c d) = c_skip"
| "dispatch_battle_event e (BeLuaCall a b c d) = c_skip"
| "dispatch_battle_event e (BeWorldMasterText a t) = c_skip"

end
