(* ===== verification/CombatTick.thy ===== *)
theory CombatTick
  imports Combat
begin

text \<open>
  The ticker over a whole zone (\<open>GameTicker::tick_zone\<close> of \<open>runtime/ticker.rs\<close>): for each actor the
  status tick, the AI and its movement, rentals and rest, the housekeeping of the dead, and the
  dispatch of the events it raised; then the sweep of finished content areas. The clock of the
  ticker counts from the start of the server, the one of the environment is the wall clock. An
  actor that an earlier one removed in the same tick is skipped. The console's home point revival
  is not here.
\<close>

record tick_env =
  te_combat :: combat_env
  te_atan2 :: atan2_fun
  te_pa_keys :: "(u8 list \<times> u32) list"
  te_ca_names :: "u8 list list"

definition tick_arena :: "tick_env \<Rightarrow> combat_world \<Rightarrow> arena" where
  "tick_arena t w = zone_arena (te_pa_keys t) (te_ca_names t) (cw_zone w)"

section \<open>The actor as the AI pass sees it\<close>

definition fighter_of :: "u32 \<Rightarrow> combatant \<Rightarrow> fighter" where
  "fighter_of a p =
     (let c = cb_char p
      in \<lparr>fi_actor_id = a, fi_position = cb_position p, fi_rotation = cb_rotation p, fi_main_state = ch_main_state c,
          fi_hp = ch_hp c, fi_max_hp = ch_max_hp c, fi_tp = ch_tp c, fi_attack_range = get_attack_range c,
          fi_attack_delay_ms = get_attack_delay_ms c, fi_speed = get_speed c, fi_ai = ch_ai c, fi_hate = ch_hate c\<rparr>)"

text \<open>The fields the pass writes.\<close>

definition put_fighter :: "fighter \<Rightarrow> combatant \<Rightarrow> combatant" where
  "put_fighter f p = p\<lparr>cb_char := (cb_char p)\<lparr>ch_ai := fi_ai f\<rparr>, cb_position := fi_position f, cb_rotation := fi_rotation f\<rparr>"

section \<open>The steps of one actor\<close>

definition passive_of :: "u32 \<Rightarrow> combatant \<Rightarrow> passive_delta" where
  "passive_of a p =
     (let r = compute_passive_regen (fighter_of a p) in \<lparr>pd_hp = pr_hp r, pd_mp = pr_mp r, pd_tp = pr_tp r\<rparr>)"

definition tick_status :: "u64 \<Rightarrow> u32 \<Rightarrow> combatant \<Rightarrow> combatant \<times> status_event list" where
  "tick_status now a p =
     (let c = cb_char p; (st, events) = status_update now (ch_mods c) (passive_of a p) (ch_status c)
      in (p\<lparr>cb_char := c\<lparr>ch_status := st\<rparr>\<rparr>, events))"

definition tick_mind ::
  "tick_env \<Rightarrow> u64 \<Rightarrow> u32 \<Rightarrow> combat_world \<Rightarrow> combat_world \<times> battle_event list \<times> combat_out list" where
  "tick_mind t now a w =
     (case combatant_of a w of None \<Rightarrow> (w, [], [])
      | Some p \<Rightarrow>
         (let (f, events, move) = tick_ai (te_atan2 t) now (ad_actor_id (z_core (cw_zone w))) (tick_arena t w) (fighter_of a p);
              (f1, z, packet) = (case move of None \<Rightarrow> (f, cw_zone w, None)
                 | Some step \<Rightarrow> apply_npc_movement_step (te_atan2 t) step f (cw_zone w))
          in ((upd_combatant a (put_fighter f1) w)\<lparr>cw_zone := z\<rparr>, events,
              case packet of None \<Rightarrow> [] | Some m \<Rightarrow> [CoMoved a m])))"

definition housekeeping_of :: "combatant \<Rightarrow> housekeeping" where
  "housekeeping_of p =
     \<lparr>hk_main_state = ch_main_state (cb_char p), hk_new_main_state = ch_new_main_state (cb_char p),
      hk_mount_state = cb_mount_state p, hk_rental_expire_time = cb_rental_expire_time p,
      hk_rental_min_left = cb_rental_min_left p, hk_rest_bonus_exp_rate = ch_rest_bonus (cb_char p),
      hk_last_rest_accrual_utc = cb_last_rest_accrual_utc p\<rparr>"

definition put_housekeeping :: "housekeeping \<Rightarrow> combatant \<Rightarrow> combatant" where
  "put_housekeeping h p =
     p\<lparr>cb_char := (cb_char p)\<lparr>ch_main_state := hk_main_state h, ch_new_main_state := hk_new_main_state h,
                               ch_rest_bonus := hk_rest_bonus_exp_rate h\<rparr>,
       cb_mount_state := hk_mount_state h, cb_rental_expire_time := hk_rental_expire_time h,
       cb_rental_min_left := hk_rental_min_left h, cb_last_rest_accrual_utc := hk_last_rest_accrual_utc h\<rparr>"

definition tick_housekeeping :: "u64 \<Rightarrow> bool \<Rightarrow> combatant \<Rightarrow> combatant" where
  "tick_housekeeping now zone_is_inn p =
     put_housekeeping (tick_rest now zone_is_inn (tick_rental now (housekeeping_of p))) p"

definition apply_despawn_actor :: "u32 \<Rightarrow> cstep" where
  "apply_despawn_actor a w =
     (case combatant_of a w of None \<Rightarrow> Ok (w, [])
      | Some p \<Rightarrow> Ok (w\<lparr>cw_actors := filter (\<lambda>(b, c). b \<noteq> a) (cw_actors w),
            cw_zone := (cw_zone w)\<lparr>z_core := fst (snd (remove_actor a (z_core (cw_zone w))))\<rparr>\<rparr>, [CoRemove a]))"

definition tick_dead :: "tick_env \<Rightarrow> u32 \<Rightarrow> cstep" where
  "tick_dead t a w =
     (case combatant_of a w of None \<Rightarrow> Ok (w, [])
      | Some p \<Rightarrow>
         (case death_action (ch_main_state (cb_char p)) (mod_get MOD_RAISE (ch_mods (cb_char p)))
                 (h_kind (cb_handle p) = TagPlayer) (cb_respawn_disabled p) (ch_time_of_death_utc (cb_char p))
                 (ce_now (te_combat t)) of
            DtaNone \<Rightarrow> Ok (w, [])
          | DtaDespawn \<Rightarrow> apply_despawn_actor a w
          | DtaAutoRevive \<Rightarrow> apply_revive a w
          | DtaRespawn \<Rightarrow> apply_revive a (upd_combatant a (\<lambda>p. p\<lparr>cb_position := cb_spawn p\<rparr>) w)))"

section \<open>One actor, and the zone\<close>

definition tick_actor :: "tick_env \<Rightarrow> u64 \<Rightarrow> bool \<Rightarrow> u32 \<Rightarrow> cstep" where
  "tick_actor t now zone_is_inn a w =
     (case combatant_of a w of None \<Rightarrow> Ok (w, [])
      | Some p \<Rightarrow>
         (let (p1, status_events) = tick_status now a p;
              (w1, battle_events, out) = tick_mind t now a (upd_combatant a (\<lambda>_. p1) w)
          in c_all
              ([c_say out, c_upd (upd_combatant a (tick_housekeeping now zone_is_inn)), tick_dead t a,
                dispatch_status_events (te_combat t) (ce_items (te_combat t)) status_events]
               @ map (dispatch_battle_event (te_combat t)) battle_events) w1))"

definition actors_in_zone :: "u32 \<Rightarrow> combat_world \<Rightarrow> u32 list" where
  "actors_in_zone zone_id w = map fst (filter (\<lambda>(a, p). h_zone_id (cb_handle p) = zone_id) (cw_actors w))"

definition tick_zone :: "tick_env \<Rightarrow> u64 \<Rightarrow> cstep" where
  "tick_zone t now w =
     (let core = z_core (cw_zone w)
      in c_all
          (map (tick_actor t now (ac_is_inn core)) (actors_in_zone (ad_actor_id core) w)
           @ [\<lambda>w1. Ok (w1\<lparr>cw_zone := fst (sweep_finished_content (te_ca_names t) (cw_zone w1))\<rparr>, [])]) w)"

end
