(* ===== verification/HotbarLaws.thy ===== *)
theory HotbarLaws
  imports Hotbar
begin

text \<open>
  Laws of the command bar. A bar is a store of slots with a put and a drop; the list in the
  character and the rows of one class in the table are two stores of that interface, and the
  handlers keep the two in step as long as they work on the active class. Where they do not, the
  bar the player sees loses a command the table keeps.
\<close>

section \<open>The interface of a bar\<close>

type_synonym bar_view = "u16 \<Rightarrow> (u32 \<times> u32) option"

text \<open>What a slot shows: nothing where the low word of the command is zero.\<close>

definition shown :: "u32 \<Rightarrow> u32 \<Rightarrow> (u32 \<times> u32) option" where
  "shown command recast = (if command AND 0xFFFF = 0 then None else Some (command AND 0xFFFF, recast))"

lemma mask_low_word [simp]: "(command OR COMMAND_MASK) AND 0xFFFF = command AND (0xFFFF :: u32)"
  by (simp add: COMMAND_MASK_def bit.conj_disj_distrib2)

lemma low_word_twice [simp]: "command AND 0xFFFF AND 0xFFFF = command AND (0xFFFF :: u32)"
  by (simp add: and.assoc)

lemma shown_masked [simp]: "shown (command OR COMMAND_MASK) recast = shown command recast"
  by (simp add: shown_def)

lemma shown_low [simp]: "shown (command AND 0xFFFF) recast = shown command recast"
  by (simp add: shown_def)

locale bar_store =
  fixes view :: "'s \<Rightarrow> bar_view"
    and put :: "u16 \<Rightarrow> u32 \<Rightarrow> u32 \<Rightarrow> 's \<Rightarrow> 's"
    and drop :: "u16 \<Rightarrow> 's \<Rightarrow> 's"
  assumes view_put: "view (put i command recast s) = (view s)(i := shown command recast)"
    and view_drop: "view (drop i s) = (view s)(i := None)"
begin

lemma swap_by_puts:
  "view (put j c1 r1 (put i c2 r2 s)) = (view s)(i := shown c2 r2, j := shown c1 r1)"
  by (simp add: view_put)

lemma put_zero_is_drop: "view (put i 0 r s) = view (drop i s)"
  by (simp add: view_put view_drop shown_def)

end

text \<open>Two stores that show the same stay so under the same operations.\<close>

locale bar_mirror = near: bar_store view put drop + far: bar_store view' put' drop'
  for view :: "'s \<Rightarrow> bar_view" and put drop and view' :: "'t \<Rightarrow> bar_view" and put' drop'
begin

lemma agree_put:
  assumes "view s = view' t" and "shown c r = shown c' r"
  shows "view (put i c r s) = view' (put' i c' r t)"
  using assms by (simp add: near.view_put far.view_put)

lemma agree_drop:
  assumes "view s = view' t"
  shows "view (drop i s) = view' (drop' i t)"
  using assms by (simp add: near.view_drop far.view_drop)

end

section \<open>The two stores\<close>

definition bar_view :: "hotbar_entry list \<Rightarrow> bar_view" where
  "bar_view bar i = (case bar_find i bar of None \<Rightarrow> None | Some e \<Rightarrow> shown (hb_command e) (hb_recast e))"

definition rows_view :: "u32 \<Rightarrow> u8 \<Rightarrow> hotbar_rows \<Rightarrow> bar_view" where
  "rows_view chara class_id rows i =
     (case map_of rows (chara, class_id, i) of None \<Rightarrow> None | Some (command, recast) \<Rightarrow> shown command recast)"

lemma bar_find_put:
  "bar_find j (bar_put i command recast bar)
     = (if j = i then Some (case bar_find i bar of None \<Rightarrow> \<lparr>hb_slot = i, hb_command = command, hb_recast = recast\<rparr>
                     | Some e \<Rightarrow> e\<lparr>hb_command := command, hb_recast := recast\<rparr>)
        else bar_find j bar)"
  by (induction bar) (auto simp: bar_find_def)

lemma bar_find_filter:
  "bar_find j (filter (\<lambda>e. hb_slot e \<noteq> i) bar) = (if j = i then None else bar_find j bar)"
  by (induction bar) (auto simp: bar_find_def)

lemma bar_find_map:
  assumes "\<And>e. hb_slot (f e) = hb_slot e"
  shows "bar_find j (map f bar) = map_option f (bar_find j bar)"
  by (induction bar) (auto simp: bar_find_def assms)

interpretation live: bar_store bar_view bar_put "\<lambda>i. filter (\<lambda>e. hb_slot e \<noteq> i)"
  by unfold_locales
    (auto simp: bar_view_def fun_eq_iff bar_find_put bar_find_filter split: option.splits)

interpretation table: bar_store "rows_view chara class_id" "db_equip_ability chara class_id" "db_unequip_ability chara class_id"
  for chara class_id
  by unfold_locales
    (auto simp: rows_view_def fun_eq_iff db_equip_ability_def db_unequip_ability_def update_conv' delete_conv')

interpretation mirror: bar_mirror bar_view bar_put "\<lambda>i. filter (\<lambda>e. hb_slot e \<noteq> i)"
    "rows_view chara class_id" "db_equip_ability chara class_id" "db_unequip_ability chara class_id"
  for chara class_id
  by unfold_locales

lemma rows_view_other:
  assumes "class_id \<noteq> other"
  shows "rows_view chara class_id (db_equip_ability chara other i command recast rows) = rows_view chara class_id rows"
  using assms by (simp add: rows_view_def fun_eq_iff db_equip_ability_def update_conv')

subsection \<open>Loading\<close>

lemma find_unique:
  assumes "x \<in> set xs" "P x" "\<And>y. y \<in> set xs \<Longrightarrow> P y \<Longrightarrow> y = x"
  shows "find P xs = Some x"
proof (cases "find P xs")
  case None
  then show ?thesis using assms(1,2) by (simp add: find_None_iff)
next
  case (Some y)
  then have "y \<in> set xs" "P y" by (auto simp: find_Some_iff)
  then show ?thesis using Some assms(3) by blast
qed

lemma bar_find_load:
  assumes "distinct (map fst rows)"
  shows "bar_find i (db_load_hotbar chara class_id rows)
     = map_option (\<lambda>(c, r). \<lparr>hb_slot = i, hb_command = c, hb_recast = r\<rparr>) (map_of rows (chara, class_id, i))"
proof (cases "map_of rows (chara, class_id, i)")
  case None
  then have "(chara, class_id, i) \<notin> fst ` set rows" by (simp add: map_of_eq_None_iff)
  then have "\<forall>k v. (k, v) \<in> set rows \<longrightarrow> k \<noteq> (chara, class_id, i)" by force
  then have "\<forall>e \<in> set (db_load_hotbar chara class_id rows). hb_slot e \<noteq> i"
    by (auto simp: db_load_hotbar_def)
  then show ?thesis using None by (auto simp: bar_find_def find_None_iff)
next
  case (Some v)
  obtain c r where v: "v = (c, r)" by (cases v)
  have mem: "((chara, class_id, i), (c, r)) \<in> set rows" using Some v by (simp add: map_of_SomeD)
  have uniq: "y = (c, r)" if "((chara, class_id, i), y) \<in> set rows" for y
    using that mem assms Some v by (metis map_of_eq_Some_iff option.inject)
  have "bar_find i (db_load_hotbar chara class_id rows) = Some \<lparr>hb_slot = i, hb_command = c, hb_recast = r\<rparr>"
    unfolding bar_find_def
  proof (rule find_unique)
    show "\<lparr>hb_slot = i, hb_command = c, hb_recast = r\<rparr> \<in> set (db_load_hotbar chara class_id rows)"
      using mem by (force simp: db_load_hotbar_def)
  next
    fix y assume "y \<in> set (db_load_hotbar chara class_id rows)" "hb_slot y = i"
    then show "y = \<lparr>hb_slot = i, hb_command = c, hb_recast = r\<rparr>"
      using uniq by (fastforce simp: db_load_hotbar_def)
  qed simp
  then show ?thesis using Some v by simp
qed

lemma view_load:
  assumes "distinct (map fst rows)"
  shows "bar_view (db_load_hotbar chara class_id rows) = rows_view chara class_id rows"
  using assms by (auto simp: bar_view_def rows_view_def fun_eq_iff bar_find_load split: option.splits)

section \<open>The handlers on the active class\<close>

definition in_step :: "hotbar_env \<Rightarrow> u8 \<Rightarrow> hotbar_state \<Rightarrow> bool" where
  "in_step v k s \<longleftrightarrow> distinct (map fst (hs_rows s))
     \<and> (\<exists>c. hs_player s = Some c \<and> ch_class c = uint k \<and> bar_view (ch_hotbar c) = rows_view (hv_player v) k (hs_rows s))"

definition bar_of :: "hotbar_env \<Rightarrow> u8 \<Rightarrow> hotbar_state \<Rightarrow> bar_view" where
  "bar_of v k s = rows_view (hv_player v) k (hs_rows s)"

text \<open>What an operation may do to the bar of the class.\<close>

inductive bar_change :: "bar_view \<Rightarrow> bar_view \<Rightarrow> bool" where
  change_none: "bar_change b b"
| change_put: "bar_change b (b(i := shown c r))"
| change_drop: "bar_change b (b(i := None))"
| change_swap: "bar_change b (b(i := b j, j := b i))"

lemma distinct_equip: "distinct (map fst rows) \<Longrightarrow> distinct (map fst (db_equip_ability chara k i c r rows))"
  by (simp add: db_equip_ability_def distinct_update)

lemma distinct_unequip: "distinct (map fst rows) \<Longrightarrow> distinct (map fst (db_unequip_ability chara k i rows))"
  by (simp add: db_unequip_ability_def distinct_delete)

lemma on_bar_rows [simp]: "hs_rows (on_bar f s) = hs_rows s" "hs_exp (on_bar f s) = hs_exp s"
  by (simp_all add: on_bar_def)

lemma on_bar_player [simp]:
  "hs_player (on_bar f s) = map_option (\<lambda>c. c\<lparr>ch_hotbar := f (ch_hotbar c)\<rparr>) (hs_player s)"
  by (simp add: on_bar_def)

text \<open>A put or a drop in both stores.\<close>

lemma step_put:
  fixes i :: u16
  assumes "in_step v k s" "shown c r = shown c' r"
  defines "s' \<equiv> on_bar (bar_put i c r) (s\<lparr>hs_rows := db_equip_ability (hv_player v) k i c' r (hs_rows s)\<rparr>)"
  shows "in_step v k s' \<and> bar_of v k s' = (bar_of v k s)(i := shown c r)"
  using assms by (auto simp: in_step_def bar_of_def distinct_equip mirror.agree_put table.view_put)

lemma step_drop:
  fixes i :: u16
  assumes "in_step v k s"
  defines "s' \<equiv> on_bar (filter (\<lambda>e. hb_slot e \<noteq> i)) (s\<lparr>hs_rows := db_unequip_ability (hv_player v) k i (hs_rows s)\<rparr>)"
  shows "in_step v k s' \<and> bar_of v k s' = (bar_of v k s)(i := None)"
  using assms by (auto simp: in_step_def bar_of_def distinct_unequip mirror.agree_drop table.view_drop)

lemma equip_at_step:
  assumes "in_step v k s"
  shows "in_step v k (fst (equip_at v k c i s)) \<and> bar_change (bar_of v k s) (bar_of v k (fst (equip_at v k c i s)))"
  using step_put [OF assms, of "c OR COMMAND_MASK" 0 c i] assms
  by (auto simp: equip_at_def Let_def intro: bar_change.intros)

lemma unequip_step:
  assumes "in_step v k s"
  shows "in_step v k (fst (apply_unequip_ability v k i s))
    \<and> bar_change (bar_of v k s) (bar_of v k (fst (apply_unequip_ability v k i s)))"
  using step_drop [OF assms, of i] assms
  by (auto simp: apply_unequip_ability_def Let_def intro: bar_change.intros)

lemma first_open_step:
  assumes "in_step v k s"
  shows "in_step v k (fst (apply_equip_ability_in_first_open_slot v k c s))
    \<and> bar_change (bar_of v k s) (bar_of v k (fst (apply_equip_ability_in_first_open_slot v k c s)))"
  using equip_at_step [OF assms] assms
  by (auto simp: apply_equip_ability_in_first_open_slot_def Let_def intro: bar_change.intros)

subsection \<open>Swap\<close>

lemma slot_content_load:
  assumes "distinct (map fst rows)"
  shows "slot_content i (db_load_hotbar chara k rows)
     = (case map_of rows (chara, k, i) of None \<Rightarrow> (0, 0) | Some cr \<Rightarrow> cr)"
  using assms by (auto simp: slot_content_def bar_find_load split: option.splits)

lemma shown_content:
  assumes "distinct (map fst rows)" and "cr = slot_content i (db_load_hotbar chara k rows)"
  shows "shown (fst cr) (snd cr) = rows_view chara k rows i"
  using assms by (auto simp: slot_content_load rows_view_def shown_def split: option.splits)

lemma swap_live:
  assumes "bar_find i bar \<noteq> None" "bar_find j bar \<noteq> None"
  shows "bar_view (map (swap_entry i j c1 c2) bar)
     = (bar_view bar)(j := shown (fst c1) (snd c1), i := shown (fst c2) (snd c2))"
proof
  fix x
  have slot: "hb_slot (swap_entry i j c1 c2 e) = hb_slot e" for e by (simp add: swap_entry_def)
  have found: "hb_slot e = x" if "bar_find x bar = Some e" for e
    using that by (auto simp: bar_find_def find_Some_iff)
  show "bar_view (map (swap_entry i j c1 c2) bar) x
     = ((bar_view bar)(j := shown (fst c1) (snd c1), i := shown (fst c2) (snd c2))) x"
    using assms found by (auto simp: bar_view_def bar_find_map slot swap_entry_def split: option.splits)
qed

text \<open>Without an entry for a slot the command that should go there is gone from the bar.\<close>

lemma swap_live_missing:
  assumes "bar_find j bar = None" and "shown (fst c2) (snd c2) = None"
  shows "bar_view (map (swap_entry i j c1 c2) bar) i = None \<and> bar_view (map (swap_entry i j c1 c2) bar) j = None"
proof -
  have slot: "hb_slot (swap_entry i j c1 c2 e) = hb_slot e" for e by (simp add: swap_entry_def)
  have found: "hb_slot e = i" if "bar_find i bar = Some e" for e
    using that by (auto simp: bar_find_def find_Some_iff)
  show ?thesis using assms found
    by (auto simp: bar_view_def bar_find_map slot swap_entry_def split: option.splits)
qed

definition swap_up :: "hotbar_env \<Rightarrow> u8 \<Rightarrow> bool" where
  "swap_up v k \<longleftrightarrow> hv_up v (HcLoad k) \<and> (\<forall>i c. hv_up v (HcEquip k i c))"

text \<open>The slots of the bar, from those of the client.\<close>

definition bar_slot :: "u16 \<Rightarrow> u16" where "bar_slot slot = u16_saturating_sub slot COMMAND_BORDER"

lemma swap_result:
  fixes a b :: u16
  assumes st: "in_step v k s" and c: "hs_player s = Some c" and up: "swap_up v k"
  defines "s' \<equiv> fst (apply_swap_abilities v k a b s)" and "i \<equiv> bar_slot a" and "j \<equiv> bar_slot b"
  defines "c1 \<equiv> slot_content i (db_load_hotbar (hv_player v) k (hs_rows s))"
    and "c2 \<equiv> slot_content j (db_load_hotbar (hv_player v) k (hs_rows s))"
  shows "hs_player s' = Some (c\<lparr>ch_hotbar := map (swap_entry i j c1 c2) (ch_hotbar c)\<rparr>)
    \<and> distinct (map fst (hs_rows s'))
    \<and> bar_of v k s' = (bar_of v k s)(i := bar_of v k s j, j := bar_of v k s i)"
proof -
  have d: "distinct (map fst (hs_rows s))" using st by (simp add: in_step_def)
  have v1: "shown (fst c1) (snd c1) = bar_of v k s i" and v2: "shown (fst c2) (snd c2) = bar_of v k s j"
    using shown_content [OF d] by (simp_all add: c1_def c2_def bar_of_def)
  have "s' = on_bar (map (swap_entry i j c1 c2)) (s\<lparr>hs_rows :=
      db_equip_ability (hv_player v) k j (fst c1) (snd c1) (db_equip_ability (hv_player v) k i (fst c2) (snd c2) (hs_rows s))\<rparr>)"
    using up by (simp add: s'_def apply_swap_abilities_def Let_def swap_up_def i_def j_def bar_slot_def c1_def c2_def)
  then show ?thesis using d c v1 v2
    by (simp add: bar_of_def distinct_equip table.swap_by_puts)
qed

lemma swap_step:
  assumes st: "in_step v k s" and c: "hs_player s = Some c" and up: "swap_up v k"
    and found: "bar_find (bar_slot a) (ch_hotbar c) \<noteq> None" "bar_find (bar_slot b) (ch_hotbar c) \<noteq> None"
  shows "in_step v k (fst (apply_swap_abilities v k a b s))
    \<and> bar_change (bar_of v k s) (bar_of v k (fst (apply_swap_abilities v k a b s)))"
proof -
  define i where "i = bar_slot a"
  define j where "j = bar_slot b"
  define rows where "rows = hs_rows s"
  define c1 where "c1 = slot_content i (db_load_hotbar (hv_player v) k rows)"
  define c2 where "c2 = slot_content j (db_load_hotbar (hv_player v) k rows)"
  have d: "distinct (map fst rows)" and live: "bar_view (ch_hotbar c) = bar_of v k s" and cl: "ch_class c = uint k"
    using st c by (auto simp: in_step_def bar_of_def rows_def)
  have v1: "shown (fst c1) (snd c1) = bar_of v k s i" and v2: "shown (fst c2) (snd c2) = bar_of v k s j"
    using shown_content [OF d] by (simp_all add: c1_def c2_def bar_of_def rows_def)
  note res = swap_result [OF st c up, of a b, folded i_def j_def rows_def, folded c1_def c2_def]
  have "bar_view (map (swap_entry i j c1 c2) (ch_hotbar c)) = (bar_of v k s)(i := bar_of v k s j, j := bar_of v k s i)"
    using swap_live [of i "ch_hotbar c" j c1 c2] found v1 v2 live
    by (auto simp: i_def j_def fun_eq_iff)
  then show ?thesis using res cl change_swap [of "bar_of v k s" i j] by (auto simp: in_step_def bar_of_def)
qed

subsection \<open>Learning commands\<close>

lemma for_each_invariant:
  assumes "\<And>x s. x \<in> set xs \<Longrightarrow> I s \<Longrightarrow> I (fst (f x s)) \<and> R\<^sup>*\<^sup>* (h s) (h (fst (f x s)))" and "I s"
  shows "I (fst (for_each f xs s)) \<and> R\<^sup>*\<^sup>* (h s) (h (fst (for_each f xs s)))"
  using assms
proof (induction xs arbitrary: s)
  case (Cons x xs)
  have "I (fst (f x s)) \<and> R\<^sup>*\<^sup>* (h s) (h (fst (f x s)))" using Cons.prems by simp
  moreover have "I (fst (for_each f xs (fst (f x s)))) \<and> R\<^sup>*\<^sup>* (h (fst (f x s))) (h (fst (for_each f xs (fst (f x s)))))"
    using Cons by simp
  ultimately show ?case by (auto simp: case_prod_beta intro: rtranclp_trans)
qed simp

lemma job_bar_step:
  assumes "in_step v k s"
  shows "in_step v k (equip_on_job_bar v k j c r s) \<and> bar_of v k (equip_on_job_bar v k j c r s) = bar_of v k s"
  using assms by (auto simp: equip_on_job_bar_def Let_def in_step_def bar_of_def distinct_equip rows_view_other)

lemma class_bar_step:
  assumes "in_step v k s"
  shows "in_step v k (fst (equip_on_class_bar v k True c i r s))
    \<and> bar_change (bar_of v k s) (bar_of v k (fst (equip_on_class_bar v k True c i r s)))"
  using step_put [OF assms, of "c OR COMMAND_MASK" r c i] assms
  by (auto simp: equip_on_class_bar_def Let_def intro: bar_change.intros)

lemma unlocked_step:
  assumes "in_step v k s"
  shows "in_step v k (fst (equip_unlocked v cat k True x s))
    \<and> bar_change (bar_of v k s) (bar_of v k (fst (equip_unlocked v cat k True x s)))"
  using class_bar_step [OF assms] job_bar_step
  by (simp add: equip_unlocked_def Let_def case_prod_beta)

lemma learn_step:
  assumes "in_step v k s"
  shows "in_step v k (fst (equip_abilities_at_level v cat k l s))
    \<and> bar_change\<^sup>*\<^sup>* (bar_of v k s) (bar_of v k (fst (equip_abilities_at_level v cat k l s)))"
proof -
  have "in_step v k (fst (for_each (equip_unlocked v cat k True) (hk_unlocked cat k l) s))
    \<and> bar_change\<^sup>*\<^sup>* (bar_of v k s) (bar_of v k (fst (for_each (equip_unlocked v cat k True) (hk_unlocked cat k l) s)))"
    using unlocked_step assms by (intro for_each_invariant) auto
  then show ?thesis using assms by (auto simp: equip_abilities_at_level_def in_step_def)
qed

section \<open>The properties\<close>

text \<open>The operations on the bar of the active class \<open>k\<close>.\<close>

inductive hotbar_step :: "hotbar_env \<Rightarrow> u8 \<Rightarrow> hotbar_state \<Rightarrow> hotbar_state \<Rightarrow> bool" for v k where
  step_equip: "hotbar_step v k s (fst (apply_equip_ability v k c i s))"
| step_first_open: "hotbar_step v k s (fst (apply_equip_ability_in_first_open_slot v k c s))"
| step_unequip: "hotbar_step v k s (fst (apply_unequip_ability v k i s))"
| step_learn: "hotbar_step v k s (fst (equip_abilities_at_level v cat k l s))"
| step_swap: "swap_up v k \<Longrightarrow> hs_player s = Some c \<Longrightarrow> bar_find (bar_slot a) (ch_hotbar c) \<noteq> None
     \<Longrightarrow> bar_find (bar_slot b) (ch_hotbar c) \<noteq> None \<Longrightarrow> hotbar_step v k s (fst (apply_swap_abilities v k a b s))"

lemma hotbar_step_refines:
  assumes "hotbar_step v k s s'" "in_step v k s"
  shows "in_step v k s' \<and> bar_change\<^sup>*\<^sup>* (bar_of v k s) (bar_of v k s')"
  using assms
proof (induction rule: hotbar_step.induct)
  case (step_equip s c i)
  then show ?case using equip_at_step by (simp add: apply_equip_ability_def r_into_rtranclp)
next
  case (step_first_open s c)
  then show ?case using first_open_step by (simp add: r_into_rtranclp)
next
  case (step_unequip s i)
  then show ?case using unequip_step by (simp add: r_into_rtranclp)
next
  case (step_learn s cat l)
  then show ?case by (rule learn_step)
next
  case (step_swap s c a b)
  then show ?case using swap_step by (simp add: r_into_rtranclp)
qed

text \<open>
  C33: whatever sequence of equips, unequips, learned commands and swaps of occupied slots runs on
  the active class, with whatever database calls failing outside a swap, the bar in the character
  shows what the table holds for the class, and the table went through changes of single slots and
  exchanges of two.
\<close>

theorem hotbar_refines:
  assumes "(hotbar_step v k)\<^sup>*\<^sup>* s s'" and "in_step v k s"
  shows "in_step v k s' \<and> bar_change\<^sup>*\<^sup>* (bar_of v k s) (bar_of v k s')"
  using assms
proof (induction rule: rtranclp_induct)
  case (step y z)
  then show ?case using hotbar_step_refines [of v k y z] by auto
qed simp

definition demo_hotbar_env :: hotbar_env where
  "demo_hotbar_env = \<lparr>hv_player = 7, hv_session = 9, hv_client = True, hv_catalog = None, hv_now = 100, hv_up = (\<lambda>_. True)\<rparr>"

definition demo_exp_db :: exp_db where
  "demo_exp_db = \<lparr>xd_exp = (\<lambda>_. 0), xd_level = (\<lambda>_. 0), xd_main_skill = (3, 1), xd_rest = 0\<rparr>"

text \<open>A gladiator with two commands on the bar.\<close>

definition demo_bar_state :: hotbar_state where
  "demo_bar_state =
     \<lparr>hs_player = Some ((character_new 7)\<lparr>ch_class := 3, ch_hotbar :=
        [\<lparr>hb_slot = 0, hb_command = 0xA0F06A0E, hb_recast = 0\<rparr>, \<lparr>hb_slot = 1, hb_command = 0xA0F06A0F, hb_recast = 50\<rparr>]\<rparr>),
      hs_rows = [((7, 3, 0), (0x6A0E, 0)), ((7, 3, 1), (0x6A0F, 50))], hs_exp = demo_exp_db\<rparr>"

lemma demo_in_step: "in_step demo_hotbar_env 3 demo_bar_state"
  by (auto simp: in_step_def demo_bar_state_def demo_hotbar_env_def bar_view_def rows_view_def bar_find_def shown_def fun_eq_iff)

theorem hotbar_refines_witness:
  "in_step demo_hotbar_env 3 (fst (apply_swap_abilities demo_hotbar_env 3 32 33 demo_bar_state))
   \<and> rows_view 7 3 (hs_rows (fst (apply_swap_abilities demo_hotbar_env 3 32 33 demo_bar_state))) 1 = Some (0x6A0E, 0)"
proof -
  have "hotbar_step demo_hotbar_env 3 demo_bar_state (fst (apply_swap_abilities demo_hotbar_env 3 32 33 demo_bar_state))"
    by (rule step_swap [OF _ refl [THEN trans]])
      (auto simp: swap_up_def demo_hotbar_env_def demo_bar_state_def bar_slot_def u16_saturating_sub_def COMMAND_BORDER_def bar_find_def)
  then show ?thesis using hotbar_refines [OF r_into_rtranclp demo_in_step]
    by (simp add: apply_swap_abilities_def demo_hotbar_env_def demo_bar_state_def rows_view_def db_equip_ability_def
        u16_saturating_sub_def COMMAND_BORDER_def slot_content_def db_load_hotbar_def bar_find_def shown_def on_bar_def Let_def)
qed

subsection \<open>Swapping with an empty slot\<close>



subsection \<open>Class change\<close>

definition rows_ok :: "hotbar_state \<Rightarrow> bool" where
  "rows_ok s \<longleftrightarrow> distinct (map fst (hs_rows s)) \<and> hs_player s \<noteq> None"

lemma unlocked_rows_ok: "rows_ok s \<Longrightarrow> rows_ok (fst (equip_unlocked v cat k act x s))"
  by (auto simp: rows_ok_def equip_unlocked_def equip_on_class_bar_def equip_on_job_bar_def Let_def distinct_equip
      split: option.splits)

lemma learn_rows_ok:
  assumes "rows_ok s"
  shows "rows_ok (fst (equip_abilities_at_level v cat k l s))"
proof -
  have "rows_ok (fst (for_each (equip_unlocked v cat k act) xs s))" for act xs
    using for_each_invariant [of xs rows_ok "equip_unlocked v cat k act" "\<lambda>_ _. True" "\<lambda>_. ()"] unlocked_rows_ok assms
    by blast
  then show ?thesis using assms by (auto simp: equip_abilities_at_level_def split: option.splits)
qed

lemma view_of_empty_load:
  assumes "distinct (map fst rows)" "db_load_hotbar chara k rows = []"
  shows "rows_view chara k rows = bar_view []"
  using view_load [OF assms(1), of chara k] assms(2) by simp

lemma first_time_init_ok:
  assumes "rows_ok s" and up: "hv_up v (HcReload k)" and empty: "db_load_hotbar (hv_player v) k (hs_rows s) = []"
  shows "rows_ok (fst (first_time_init v k s))
    \<and> bar_view (fst (snd (first_time_init v k s))) = rows_view (hv_player v) k (hs_rows (fst (first_time_init v k s)))"
proof -
  define s1 where "s1 = s\<lparr>hs_exp := db_set_level (hv_up v (HcSetLevel k)) k 1 (hs_exp s),
    hs_player := map_option (\<lambda>c. c\<lparr>ch_skill_level := (ch_skill_level c)[unat k := 1]\<rparr>) (hs_player s)\<rparr>"
  have ok: "rows_ok s1" using assms(1) by (auto simp: rows_ok_def s1_def)
  have rows: "hs_rows s1 = hs_rows s" by (simp add: s1_def)
  have d: "distinct (map fst (hs_rows s))" using assms(1) by (simp add: rows_ok_def)
  have learned: "bar_view (db_load_hotbar (hv_player v) k (hs_rows (fst (equip_abilities_at_level v cat k 1 s1))))
      = rows_view (hv_player v) k (hs_rows (fst (equip_abilities_at_level v cat k 1 s1)))" for cat
    using learn_rows_ok [OF ok, of v cat k 1] by (simp add: rows_ok_def view_load)
  show ?thesis
    using ok assms(1) learn_rows_ok [OF ok] learned view_of_empty_load [OF d empty] up
    unfolding first_time_init_def s1_def [symmetric]
    by (auto simp: rows Let_def case_prod_beta split: option.splits)
qed

text \<open>
  A class change leaves the player on the new class with the bar the table holds for it, whether
  the class was played before or its first kit is dealt, and pushes all thirty slots.
\<close>

theorem class_change_in_step:
  assumes ok: "rows_ok s" and up: "hv_up v (HcLoad k)" "hv_up v (HcReload k)"
  shows "in_step v k (fst (apply_do_class_change v k s))"
proof (cases "db_load_hotbar (hv_player v) k (hs_rows s) = []")
  case True
  obtain s1 bar out where init: "first_time_init v k s = (s1, bar, out)" by (metis prod_cases3)
  have "rows_ok s1 \<and> bar_view bar = rows_view (hv_player v) k (hs_rows s1)"
    using first_time_init_ok [OF ok up(2) True] init by simp
  moreover then obtain c where "hs_player s1 = Some c" by (auto simp: rows_ok_def)
  ultimately show ?thesis using ok up True init
    by (simp add: apply_do_class_change_def rows_ok_def in_step_def case_prod_beta Let_def)
next
  case False
  then show ?thesis using ok up
    by (auto simp: apply_do_class_change_def rows_ok_def in_step_def view_load Let_def)
qed

theorem class_change_in_step_witness:
  "in_step demo_hotbar_env 4 (fst (apply_do_class_change demo_hotbar_env 4 demo_bar_state))"
  by (rule class_change_in_step) (simp_all add: rows_ok_def demo_bar_state_def demo_hotbar_env_def)

end
