(* ===== verification/StatusLaws.thy ===== *)
theory StatusLaws
  imports StatusEffects
begin

text \<open>
  Laws of the status effects: a client that applies the packets of an owner shows the container's
  icon strip, the strip shows exactly the visible effects, and an effect stamped with the wall clock
  neither ticks nor runs out under the ticker's clock, which counts from the start of the server.
\<close>

section \<open>Positions\<close>

lemma first_index_Some: "first_index P xs = Some i \<Longrightarrow> i < length xs \<and> P (xs ! i)"
  by (induction xs arbitrary: i) (auto split: if_splits)

lemma first_index_None: "first_index P xs = None \<longleftrightarrow> (\<forall>x \<in> set xs. \<not> P x)"
  by (induction xs) auto

section \<open>The client's strip\<close>

type_synonym strip = "u16 list \<times> u32 list"

definition strip_of :: "status_container \<Rightarrow> strip" where
  "strip_of c = (sc_status c, sc_shown_time c)"

text \<open>What a client does with a packet.\<close>

fun client_apply :: "status_event \<Rightarrow> strip \<Rightarrow> strip" where
  "client_apply (StSetStatus a i k) s = ((fst s)[unat i := k], snd s)"
| "client_apply (StSetTime a i t) s = (fst s, (snd s)[unat i := t])"
| "client_apply e s = s"

definition client_run :: "status_event list \<Rightarrow> strip \<Rightarrow> strip" where
  "client_run events s = fold client_apply events s"

lemma client_run_simps [simp]:
  "client_run [] s = s" "client_run (e # es) s = client_run es (client_apply e s)"
  "client_run (es @ fs) s = client_run fs (client_run es s)"
  by (simp_all add: client_run_def)

definition sized :: "status_container \<Rightarrow> bool" where
  "sized c \<longleftrightarrow> length (sc_status c) = 20 \<and> length (sc_shown_time c) = 20"

lemma effects_aside [simp]:
  "sized (c\<lparr>sc_effects := es\<rparr>) = sized c" "strip_of (c\<lparr>sc_effects := es\<rparr>) = strip_of c"
  by (simp_all add: sized_def strip_of_def)

lemma unat_slot: "i < 20 \<Longrightarrow> unat (of_nat i :: u16) = i"
  by (simp add: unat_of_nat)

text \<open>The operations on slots and what they send.\<close>

lemma set_status_follows:
  assumes "sized c" "set_status_at_index i k c = (c', ev)"
  shows "sized c' \<and> client_run ev (strip_of c) = strip_of c' \<and> sc_effects c' = sc_effects c \<and> sc_owner c' = sc_owner c"
  using assms by (auto simp: set_status_at_index_def sized_def strip_of_def unat_slot split: if_splits)

lemma set_slot_follows:
  assumes "sized c" "set_slot i k t c = (c', ev)"
  shows "sized c' \<and> client_run ev (strip_of c) = strip_of c' \<and> sc_effects c' = sc_effects c \<and> sc_owner c' = sc_owner c"
  using assms
  by (auto simp: set_slot_def set_status_at_index_def set_time_at_index_def sized_def strip_of_def unat_slot
      split: if_splits prod.splits)

lemma set_slot_result:
  assumes "sized c" "i < 20"
  shows "fst (set_slot i k t c) = c\<lparr>sc_status := (sc_status c)[i := k], sc_shown_time := (sc_shown_time c)[i := t]\<rparr>"
  using assms by (simp add: set_slot_def set_status_at_index_def set_time_at_index_def sized_def)

lemma add_follows:
  assumes "sized c" "add_status_effect e src now text c = (r, c', ev)"
  shows "sized c' \<and> client_run ev (strip_of c) = strip_of c'"
  using assms
  by (auto simp: add_status_effect_def Let_def dest!: set_slot_follows [rotated]
      split: if_splits option.splits prod.splits)

lemma remove_follows:
  assumes "sized c" "remove_status_effect a text play c = (r, c', ev)"
  shows "sized c' \<and> client_run ev (strip_of c) = strip_of c'"
  using assms
    by (auto simp: remove_status_effect_def Let_def dest!: set_slot_follows [rotated]
      split: if_splits option.splits prod.splits)

lemma removes_follow:
  assumes "sized c" "remove_effects play xs c = (c', ev)"
  shows "sized c' \<and> client_run ev (strip_of c) = strip_of c'"
  using assms
proof (induction xs arbitrary: c c' ev)
  case (Cons x xs)
  obtain a tx where x: "x = (a, tx)" by (cases x)
  obtain r c1 ob1 where r1: "remove_status_effect a tx play c = (r, c1, ob1)" by (metis prod_cases3)
  obtain c2 ob2 where r2: "remove_effects play xs c1 = (c2, ob2)" by (metis prod.exhaust)
  have "sized c1 \<and> client_run ob1 (strip_of c) = strip_of c1" using remove_follows [OF Cons.prems(1) r1] .
  moreover then have "sized c2 \<and> client_run ob2 (strip_of c1) = strip_of c2" using Cons.IH r2 by blast
  ultimately show ?case using Cons.prems(2) r1 r2 x by auto
qed auto

lemma update_effects_quiet: "client_run (snd (snd (update_effects now es))) s = s"
  by (induction es arbitrary: s) (auto simp: effect_update_def Let_def case_prod_beta)

lemma regen_quiet: "client_run (regen_tick mods p c) s = s"
  by (auto simp: regen_tick_def Let_def)

lemma status_update_follows:
  assumes "sized c" "status_update now mods passive c = (c', ev)"
  shows "sized c' \<and> client_run ev (strip_of c) = strip_of c'"
proof -
  define c1 where "c1 = (if REGEN_TICK_MS \<le> u64_saturating_sub now (sc_last_regen_ms c) then c\<lparr>sc_last_regen_ms := now\<rparr> else c)"
  obtain gone es ob2 where u: "update_effects now (sc_effects c1) = (gone, es, ob2)" by (metis prod_cases3)
  define c2 where "c2 = c1\<lparr>sc_effects := es\<rparr>"
  obtain c3 ob3 where r: "remove_effects True (map (\<lambda>a. (a, loss_text_of c2 a)) gone) c2 = (c3, ob3)" by (metis prod.exhaust)
  have "sized c2" "strip_of c2 = strip_of c" using assms(1) by (simp_all add: c2_def c1_def sized_def strip_of_def)
  then have "sized c3 \<and> client_run ob3 (strip_of c) = strip_of c3" using removes_follow [OF _ r] by simp
  moreover have "client_run ob2 (strip_of c) = strip_of c" using update_effects_quiet [of now "sc_effects c1" "strip_of c"] u by simp
  ultimately show ?thesis using assms(2) u r
    by (auto simp: status_update_def Let_def c1_def [symmetric] c2_def [symmetric] regen_quiet)
qed

lemma replace_follows:
  assumes "sized c" "replace_effect old e now c = (r, c', ev)"
  shows "sized c' \<and> client_run ev (strip_of c) = strip_of c'"
  using assms
    by (auto simp: replace_effect_def Let_def dest!: set_slot_follows [rotated] set_status_follows [rotated]
      split: if_splits option.splits prod.splits)

section \<open>The strip shows the visible effects\<close>

definition vis :: "status_effect \<Rightarrow> bool" where "vis e \<longleftrightarrow> \<not> se_hidden e"

text \<open>The ids of the effects the client has an icon for.\<close>

definition good_effect :: "status_effect \<Rightarrow> bool" where
  "good_effect e \<longleftrightarrow> (vis e \<longrightarrow> 200000 < se_id e \<and> se_id e < 265536)"

lemma good_sid:
  assumes "good_effect e" "vis e"
  shows "uint (effect_status_id e) = uint (se_id e) - 200000" "effect_status_id e \<noteq> 0"
proof -
  have a: "200000 < uint (se_id e)" "uint (se_id e) < 265536"
    using assms by (simp_all add: good_effect_def word_less_def)
  have "uint (se_id e - 200000) = uint (se_id e) - 200000"
    using a by (subst uint_sub_if') simp
  moreover have "200000 \<le> se_id e" using a by (simp add: word_le_def)
  ultimately show s: "uint (effect_status_id e) = uint (se_id e) - 200000"
    using a by (simp add: effect_status_id_def status_id_of_def u32_saturating_sub_def unsigned_ucast_eq take_bit_int_eq_self)
  show "effect_status_id e \<noteq> 0"
  proof
    assume "effect_status_id e = 0"
    then have "uint (effect_status_id e) = 0" by simp
    then show False using s a by simp
  qed
qed

lemma sid_inj:
  assumes "good_effect e" "vis e" "good_effect f" "vis f" "effect_status_id e = effect_status_id f"
  shows "se_id e = se_id f"
proof -
  have "uint (se_id e) = uint (se_id f)" using good_sid(1) [OF assms(1,2)] good_sid(1) [OF assms(3,4)] assms(5) by simp
  then show ?thesis by (simp add: word_uint_eq_iff)
qed

text \<open>The three relations between a strip and a set of effects.\<close>

definition sound :: "strip \<Rightarrow> status_effect set \<Rightarrow> bool" where
  "sound s E \<longleftrightarrow> (\<forall>i < 20. fst s ! i \<noteq> 0 \<longrightarrow> (\<exists>e \<in> E. vis e \<and> effect_status_id e = fst s ! i \<and> snd s ! i = wire_end_time e))"

definition complete :: "strip \<Rightarrow> status_effect set \<Rightarrow> bool" where
  "complete s E \<longleftrightarrow> (\<forall>e \<in> E. vis e \<longrightarrow> effect_status_id e \<in> set (fst s))"

definition unique :: "strip \<Rightarrow> bool" where
  "unique s \<longleftrightarrow> (\<forall>i < 20. \<forall>j < 20. fst s ! i = fst s ! j \<longrightarrow> fst s ! i \<noteq> 0 \<longrightarrow> i = j)"

definition strip_shows :: "strip \<Rightarrow> status_effect set \<Rightarrow> bool" where
  "strip_shows s E \<longleftrightarrow> length (fst s) = 20 \<and> length (snd s) = 20 \<and> sound s E \<and> complete s E \<and> unique s"

lemma sound_at: "sound s E \<Longrightarrow> i < 20 \<Longrightarrow> fst s ! i \<noteq> 0 \<Longrightarrow>
    (\<And>e. e \<in> E \<Longrightarrow> vis e \<Longrightarrow> effect_status_id e = fst s ! i \<Longrightarrow> snd s ! i = wire_end_time e \<Longrightarrow> thesis) \<Longrightarrow> thesis"
  by (auto simp: sound_def)

lemma uniqueD: "unique s \<Longrightarrow> i < 20 \<Longrightarrow> j < 20 \<Longrightarrow> fst s ! i = fst s ! j \<Longrightarrow> fst s ! i \<noteq> 0 \<Longrightarrow> i = j"
  by (auto simp: unique_def)

definition without :: "u32 \<Rightarrow> status_effect set \<Rightarrow> status_effect set" where
  "without a E = {e \<in> E. se_id e \<noteq> a}"

text \<open>Away from the slot of an effect, the strip is about the others.\<close>

lemma others_sound:
  assumes s: "strip_shows s E" and good: "\<forall>f \<in> E. good_effect f"
    and p: "p < 20" "fst s ! p = 0 \<and> (\<forall>f \<in> E. se_id f \<noteq> a) \<or> fst s ! p \<noteq> 0 \<and> (\<exists>f \<in> E. se_id f = a \<and> vis f \<and> effect_status_id f = fst s ! p)"
    and one: "\<forall>f \<in> E. \<forall>g \<in> E. se_id f = se_id g \<longrightarrow> f = g"
    and i: "i < 20" "i \<noteq> p" "fst s ! i \<noteq> 0"
  shows "\<exists>e \<in> without a E. vis e \<and> effect_status_id e = fst s ! i \<and> snd s ! i = wire_end_time e"
proof -
  have snd: "sound s E" and un: "unique s" using s by (simp_all add: strip_shows_def)
  obtain e where e: "e \<in> E" "vis e" "effect_status_id e = fst s ! i" "snd s ! i = wire_end_time e"
    using snd i(1,3) by (rule sound_at)
  have "se_id e \<noteq> a"
  proof
    assume a: "se_id e = a"
    then obtain f where f: "f \<in> E" "se_id f = a" "effect_status_id f = fst s ! p" "fst s ! p \<noteq> 0" using p(2) e(1) by blast
    then have "f = e" using one e(1) a by blast
    then have "fst s ! i = fst s ! p" using f(3) e(3) by simp
    then show False using uniqueD [OF un i(1) p(1) _ i(3)] i(2) by simp
  qed
  then show ?thesis using e by (auto simp: without_def)
qed

lemma slot_of:
  assumes "complete s E" "length (fst s) = 20" "e \<in> E" "vis e"
  obtains q where "q < 20" "fst s ! q = effect_status_id e"
  using assms by (auto simp: complete_def in_set_conv_nth)

text \<open>The slot of \<open>e\<close> is written; \<open>x\<close> is its new icon, zero when \<open>e\<close> goes.\<close>

lemma put_shows:
  assumes s: "strip_shows s E" and good: "\<forall>f \<in> E. good_effect f" and ge: "good_effect e" and v: "vis e"
    and p: "p < 20" "fst s ! p = 0 \<and> (\<forall>f \<in> E. se_id f \<noteq> se_id e)
              \<or> fst s ! p \<noteq> 0 \<and> (\<exists>f \<in> E. se_id f = se_id e \<and> vis f \<and> effect_status_id f = fst s ! p)"
    and one: "\<forall>f \<in> E. \<forall>g \<in> E. se_id f = se_id g \<longrightarrow> f = g"
  shows "strip_shows ((fst s)[p := effect_status_id e], (snd s)[p := wire_end_time e]) (insert e (without (se_id e) E))"
    and "fst s ! p \<noteq> 0 \<Longrightarrow> strip_shows ((fst s)[p := 0], (snd s)[p := 0]) (without (se_id e) E)"
proof -
  have len: "length (fst s) = 20" "length (snd s) = 20" and comp: "complete s E" and un: "unique s"
    using s by (simp_all add: strip_shows_def)
  note rest = others_sound [OF s good p(1) p(2) one]
  have fresh: "effect_status_id f \<noteq> effect_status_id e" if f: "f \<in> without (se_id e) E" "vis f" for f
  proof
    assume eq: "effect_status_id f = effect_status_id e"
    have "f \<in> E" "se_id f \<noteq> se_id e" using f(1) by (simp_all add: without_def)
    then show False using sid_inj [OF _ f(2) ge v eq] good by blast
  qed
  have p_val: "fst s ! p = 0 \<or> fst s ! p = effect_status_id e"
  proof (rule disjCI)
    assume n: "fst s ! p \<noteq> effect_status_id e"
    show "fst s ! p = 0"
    proof (rule ccontr)
      assume "fst s ! p \<noteq> 0"
      then obtain f where "f \<in> E" "se_id f = se_id e" "effect_status_id f = fst s ! p" using p(2) by blast
      then show False using n by (simp add: effect_status_id_def)
    qed
  qed
  have keep: "\<exists>q < 20. q \<noteq> p \<and> fst s ! q = effect_status_id f" if f: "f \<in> without (se_id e) E" "vis f" for f
  proof -
    have "f \<in> E" using f by (simp add: without_def)
    then obtain q where q: "q < 20" "fst s ! q = effect_status_id f" using slot_of [OF comp len(1) _ f(2)] by blast
    have "good_effect f" using \<open>f \<in> E\<close> good by blast
    then have "q \<noteq> p" using q(2) p_val fresh [OF f] good_sid(2) f(2) by metis
    then show ?thesis using q by blast
  qed
  have elsewhere: "fst s ! i \<noteq> effect_status_id e" if i: "i < 20" "i \<noteq> p" for i
  proof
    assume eq: "fst s ! i = effect_status_id e"
    then have "fst s ! i \<noteq> 0" using good_sid(2) [OF ge v] by simp
    then obtain f where "f \<in> without (se_id e) E" "vis f" "effect_status_id f = fst s ! i" using rest [OF i] by blast
    then show False using fresh eq by simp
  qed
  let ?s = "((fst s)[p := effect_status_id e], (snd s)[p := wire_end_time e])"
  have "sound ?s (insert e (without (se_id e) E))"
    unfolding sound_def
  proof (intro allI impI)
    fix i assume i: "i < (20::nat)" "fst ?s ! i \<noteq> 0"
    show "\<exists>f \<in> insert e (without (se_id e) E). vis f \<and> effect_status_id f = fst ?s ! i \<and> snd ?s ! i = wire_end_time f"
      using rest [of i] i len p(1) v by (cases "i = p") auto
  qed
  moreover have "complete ?s (insert e (without (se_id e) E))"
    unfolding complete_def
  proof (intro ballI impI)
    fix f assume f: "f \<in> insert e (without (se_id e) E)" "vis f"
    show "effect_status_id f \<in> set (fst ?s)"
    proof (cases "f = e")
      case True
      then show ?thesis using p(1) len by (simp add: set_update_memI)
    next
      case False
      then obtain q where "q < 20" "q \<noteq> p" "fst s ! q = effect_status_id f" using keep f by blast
      then show ?thesis using len by (metis fst_conv length_list_update nth_list_update_neq nth_mem)
    qed
  qed
  moreover have "unique ?s"
    unfolding unique_def
  proof (intro allI impI)
    fix i j assume ij: "i < (20::nat)" "j < (20::nat)" "fst ?s ! i = fst ?s ! j" "fst ?s ! i \<noteq> 0"
    show "i = j"
    proof (cases "i = p \<or> j = p")
      case True
      then show ?thesis using ij elsewhere [of i] elsewhere [of j] p(1) len by (auto simp: nth_list_update split: if_splits)
    next
      case False
      then show ?thesis using ij uniqueD [OF un ij(1,2)] by simp
    qed
  qed
  ultimately show "strip_shows ?s (insert e (without (se_id e) E))" using len by (simp add: strip_shows_def)
  let ?r = "((fst s)[p := 0], (snd s)[p := 0])"
  have "sound ?r (without (se_id e) E)"
    unfolding sound_def
  proof (intro allI impI)
    fix i assume i: "i < (20::nat)" "fst ?r ! i \<noteq> 0"
    show "\<exists>f \<in> without (se_id e) E. vis f \<and> effect_status_id f = fst ?r ! i \<and> snd ?r ! i = wire_end_time f"
      using rest [of i] i len p(1) by (cases "i = p") auto
  qed
  moreover have "complete ?r (without (se_id e) E)"
    unfolding complete_def
  proof (intro ballI impI)
    fix f assume f: "f \<in> without (se_id e) E" "vis f"
    then obtain q where "q < 20" "q \<noteq> p" "fst s ! q = effect_status_id f" using keep by blast
    then show "effect_status_id f \<in> set (fst ?r)" using len by (metis fst_conv length_list_update nth_list_update_neq nth_mem)
  qed
  moreover have "unique ?r"
    unfolding unique_def
  proof (intro allI impI)
    fix i j assume ij: "i < (20::nat)" "j < (20::nat)" "fst ?r ! i = fst ?r ! j" "fst ?r ! i \<noteq> 0"
    then have "i \<noteq> p" "j \<noteq> p" using p(1) len by (auto simp: nth_list_update split: if_splits)
    then show "i = j" using ij uniqueD [OF un ij(1,2)] by simp
  qed
  ultimately show "strip_shows ?r (without (se_id e) E)" if "fst s ! p \<noteq> 0" using len by (simp add: strip_shows_def)
qed

section \<open>Keyed lists\<close>

definition effects_of :: "(u32 \<times> status_effect) list \<Rightarrow> status_effect set" where
  "effects_of es = snd ` set es"

definition keyed :: "(u32 \<times> status_effect) list \<Rightarrow> bool" where
  "keyed es \<longleftrightarrow> distinct (map fst es) \<and> (\<forall>p \<in> set es. se_id (snd p) = fst p)"

lemma keyed_alt: "keyed es \<longleftrightarrow> distinct (map fst es) \<and> (\<forall>a e. map_of es a = Some e \<longrightarrow> se_id e = a)"
  by (cases "distinct (map fst es)") (fastforce simp: keyed_def)+

lemma keyed_mem: "keyed es \<Longrightarrow> e \<in> effects_of es \<longleftrightarrow> map_of es (se_id e) = Some e"
  by (auto simp: keyed_def effects_of_def map_of_eq_Some_iff) force+

lemma keyed_one: "keyed es \<Longrightarrow> \<forall>f \<in> effects_of es. \<forall>g \<in> effects_of es. se_id f = se_id g \<longrightarrow> f = g"
  by (auto simp: keyed_mem)

lemma keyed_get: "keyed es \<Longrightarrow> map_of es a = Some e \<longleftrightarrow> e \<in> effects_of es \<and> se_id e = a"
  by (auto simp: keyed_mem keyed_alt)

lemma keyed_none: "keyed es \<Longrightarrow> map_of es a = None \<longleftrightarrow> (\<forall>f \<in> effects_of es. se_id f \<noteq> a)"
  using keyed_get [of es a] by (metis not_None_eq)

lemma keyed_delete:
  assumes "keyed es"
  shows "keyed (AList.delete a es)" "effects_of (AList.delete a es) = without a (effects_of es)"
proof -
  show k: "keyed (AList.delete a es)" using assms by (simp add: keyed_alt distinct_delete delete_conv')
  show "effects_of (AList.delete a es) = without a (effects_of es)"
    using keyed_mem [OF k] keyed_mem [OF assms] by (auto simp: without_def delete_conv' split: if_splits)
qed

lemma keyed_update:
  assumes "keyed es" "se_id e = a"
  shows "keyed (AList.update a e es)" "effects_of (AList.update a e es) = insert e (without a (effects_of es))"
proof -
  show k: "keyed (AList.update a e es)" using assms by (simp add: keyed_alt distinct_update update_conv')
  show "effects_of (AList.update a e es) = insert e (without a (effects_of es))"
    using keyed_mem [OF k] keyed_mem [OF assms(1)] assms(2) by (auto simp: without_def update_conv' split: if_splits)
qed

lemma without_twice [simp]: "without a (without a E) = without a E"
  by (auto simp: without_def)

lemma length_update_le: "length (AList.update a e es) \<le> Suc (length es)"
  by (induction es) auto

lemma length_update_same: "map_of es a \<noteq> None \<Longrightarrow> length (AList.update a e es) = length es"
  by (induction es) auto

lemma length_delete_less: "map_of es a \<noteq> None \<Longrightarrow> length (AList.delete a es) < length es"
  by (induction es) (auto simp: length_delete_le less_Suc_eq_le)

section \<open>The container\<close>

definition strip_ok :: "status_container \<Rightarrow> bool" where
  "strip_ok c \<longleftrightarrow> keyed (sc_effects c) \<and> length (sc_effects c) \<le> 20
     \<and> (\<forall>e \<in> effects_of (sc_effects c). good_effect e) \<and> strip_shows (strip_of c) (effects_of (sc_effects c))"

lemma strip_ok_sized: "strip_ok c \<Longrightarrow> sized c"
  by (simp add: strip_ok_def strip_shows_def sized_def strip_of_def)

text \<open>A hidden effect leaves the strip alone.\<close>

lemma hidden_shows:
  assumes "strip_shows s E" and "\<forall>f \<in> E. se_id f = a \<longrightarrow> \<not> vis f"
  shows "strip_shows s (without a E)" "\<not> vis e \<Longrightarrow> strip_shows s (insert e (without a E))"
proof -
  have "sound s (without a E)" using assms by (fastforce simp: strip_shows_def sound_def without_def)
  then show "strip_shows s (without a E)" "\<not> vis e \<Longrightarrow> strip_shows s (insert e (without a E))"
    using assms by (auto simp: strip_shows_def complete_def without_def sound_def)
qed

text \<open>There is room for one more visible effect.\<close>

lemma free_slot:
  assumes s: "strip_shows s E" and small: "finite E" "card E < 20"
  shows "\<exists>p. first_index (\<lambda>x. x = 0) (fst s) = Some p"
proof (rule ccontr)
  assume "\<not> ?thesis"
  then have "first_index (\<lambda>x. x = 0) (fst s) = None" by simp
  then have nz: "\<forall>x \<in> set (fst s). x \<noteq> 0" by (simp add: first_index_None)
  have len: "length (fst s) = 20" using s by (simp add: strip_shows_def)
  have "set (fst s) \<subseteq> effect_status_id ` E"
  proof
    fix x assume "x \<in> set (fst s)"
    then obtain i where "i < 20" "fst s ! i = x" "x \<noteq> 0" using len nz by (metis in_set_conv_nth)
    moreover then obtain e where "e \<in> E" "effect_status_id e = fst s ! i"
      using s sound_at [of s E i] by (auto simp: strip_shows_def)
    ultimately show "x \<in> effect_status_id ` E" by (metis image_eqI)
  qed
  then have "card (set (fst s)) \<le> card E"
    using small(1) by (meson card_image_le card_mono finite_imageI le_trans)
  moreover have "distinct (fst s)"
    using s nz len uniqueD [of s] by (auto simp: distinct_conv_nth strip_shows_def)
  ultimately show False using small(2) len by (simp add: distinct_card)
qed

lemma card_effects: "card (effects_of es) \<le> length es" "finite (effects_of es)"
  by (simp_all add: effects_of_def card_image_le [THEN le_trans] card_length)

subsection \<open>Adding\<close>

text \<open>The effect as it is stored, and the list it is stored into.\<close>

definition stored :: "status_effect \<Rightarrow> u32 \<Rightarrow> u64 \<Rightarrow> status_container \<Rightarrow> status_effect" where
  "stored e src now c =
     (let e1 = set_start_time now (e\<lparr>se_owner := sc_owner c, se_source := src\<rparr>)
      in set_end_time (u32_saturating_add (secs now) (se_duration e1)) e1)"

lemma stored_simps [simp]:
  "se_id (stored e src now c) = se_id e" "se_hidden (stored e src now c) = se_hidden e"
  "vis (stored e src now c) = vis e" "effect_status_id (stored e src now c) = effect_status_id e"
  "good_effect (stored e src now c) = good_effect e"
  by (simp_all add: stored_def Let_def set_end_time_def set_start_time_def vis_def effect_status_id_def good_effect_def)

lemma put_strip:
  assumes ok: "strip_ok c" and ge: "good_effect e" and es1: "es1 = AList.delete (se_id e) (sc_effects c)" "length es1 < 20"
    and p: "vis e" "p < 20" "sc_status c ! p = 0 \<and> (\<forall>f \<in> effects_of (sc_effects c). se_id f \<noteq> se_id e)
              \<or> sc_status c ! p \<noteq> 0 \<and> (\<exists>f \<in> effects_of (sc_effects c). se_id f = se_id e \<and> vis f \<and> effect_status_id f = sc_status c ! p)"
  shows "strip_ok (c\<lparr>sc_status := (sc_status c)[p := effect_status_id e], sc_shown_time := (sc_shown_time c)[p := wire_end_time e],
    sc_effects := AList.update (se_id e) e es1\<rparr>)"
proof -
  have k: "keyed (sc_effects c)" and good: "\<forall>f \<in> effects_of (sc_effects c). good_effect f"
    and sh: "strip_shows (strip_of c) (effects_of (sc_effects c))" using ok by (simp_all add: strip_ok_def)
  have k1: "keyed es1" and E1: "effects_of es1 = without (se_id e) (effects_of (sc_effects c))"
    using keyed_delete [OF k, of "se_id e"] es1(1) by simp_all
  have "strip_shows ((sc_status c)[p := effect_status_id e], (sc_shown_time c)[p := wire_end_time e])
      (insert e (without (se_id e) (effects_of (sc_effects c))))"
    using put_shows(1) [OF sh good ge p(1,2) _ keyed_one [OF k]] p(3) by (simp add: strip_of_def)
  then show ?thesis
    using keyed_update [OF k1 refl] E1 good ge length_update_le [of "se_id e" e es1] es1(2)
    by (auto simp: strip_ok_def strip_of_def without_def)
qed

lemma hide_strip:
  assumes ok: "strip_ok c" and ge: "good_effect e" and es1: "es1 = AList.delete (se_id e) (sc_effects c)" "length es1 < 20"
    and h: "\<not> vis e" "\<forall>f \<in> effects_of (sc_effects c). se_id f = se_id e \<longrightarrow> \<not> vis f"
  shows "strip_ok (c\<lparr>sc_effects := AList.update (se_id e) e es1\<rparr>)"
proof -
  have k: "keyed (sc_effects c)" and good: "\<forall>f \<in> effects_of (sc_effects c). good_effect f"
    and sh: "strip_shows (strip_of c) (effects_of (sc_effects c))" using ok by (simp_all add: strip_ok_def)
  have k1: "keyed es1" and E1: "effects_of es1 = without (se_id e) (effects_of (sc_effects c))"
    using keyed_delete [OF k, of "se_id e"] es1(1) by simp_all
  show ?thesis
    using keyed_update [OF k1 refl] E1 good ge length_update_le [of "se_id e" e es1] es1(2)
      hidden_shows(2) [OF sh h(2,1)]
    by (auto simp: strip_ok_def without_def)
qed

lemma set_slot_effects [simp]: "sc_effects (fst (set_slot i k t c)) = sc_effects c"
  by (simp add: set_slot_def set_status_at_index_def set_time_at_index_def case_prod_beta)

lemma wire_stored: "wire_end_time (stored e src now c)
    = (if is_stance e then STANCE_END_TIME else u32_saturating_add (secs now) (se_duration e))"
  by (simp add: stored_def Let_def set_end_time_def set_start_time_def wire_end_time_def is_stance_def)

definition same_hidden :: "status_effect \<Rightarrow> status_container \<Rightarrow> bool" where
  "same_hidden e c \<longleftrightarrow> (case status_get (se_id e) c of None \<Rightarrow> True | Some old \<Rightarrow> se_hidden old = se_hidden e)"

lemma add_keeps:
  assumes ok: "strip_ok c" and ge: "good_effect e" and same: "same_hidden e c"
  shows "strip_ok (fst (snd (add_status_effect e src now tx c)))"
proof (cases "status_get (se_id e) c")
  case None
  let ?es = "sc_effects c" and ?e = "stored e src now c"
  have k: "keyed ?es" and sh: "strip_shows (strip_of c) (effects_of ?es)" using ok by (simp_all add: strip_ok_def)
  have nokey: "map_of ?es (se_id e) = None" using None by (simp add: status_get_def)
  then have fresh: "\<forall>f \<in> effects_of ?es. se_id f \<noteq> se_id e" using keyed_none [OF k] by blast
  have del: "AList.delete (se_id e) ?es = ?es" using nokey by (simp add: map_of_eq_None_iff)
  show ?thesis
  proof (cases "20 \<le> length ?es")
    case True
    then show ?thesis using None ok by (simp add: add_status_effect_def Let_def MAX_EFFECTS_def)
  next
    case small: False
    show ?thesis
    proof (cases "se_hidden e")
      case True
      then have "fst (snd (add_status_effect e src now tx c)) = c\<lparr>sc_effects := AList.update (se_id e) ?e ?es\<rparr>"
        using None small by (simp add: add_status_effect_def Let_def MAX_EFFECTS_def stored_def set_end_time_def set_start_time_def)
      then show ?thesis using hide_strip [OF ok, of ?e ?es] ge del small True fresh by (simp add: vis_def)
    next
      case False
      have v: "vis e" using False by (simp add: vis_def)
      have "first_index (\<lambda>s. s = effect_status_id e) (sc_status c) = None"
      proof (rule ccontr)
        assume "\<not> ?thesis"
        then obtain i where i: "i < length (sc_status c)" "sc_status c ! i = effect_status_id e"
          using first_index_Some [of "\<lambda>s. s = effect_status_id e" "sc_status c"] by blast
        then have "i < 20" "fst (strip_of c) ! i \<noteq> 0" "fst (strip_of c) ! i = effect_status_id e"
          using sh good_sid(2) [OF ge v] by (simp_all add: strip_shows_def strip_of_def)
        moreover have "sound (strip_of c) (effects_of ?es)" using sh by (simp add: strip_shows_def)
        ultimately obtain f where "f \<in> effects_of ?es" "vis f" "effect_status_id f = effect_status_id e"
          using sound_at [of "strip_of c" "effects_of ?es" i] by auto
        moreover then have "good_effect f" using ok by (simp add: strip_ok_def)
        ultimately show False using sid_inj [OF _ _ ge v] fresh by blast
      qed
      moreover obtain p where p: "first_index (\<lambda>x. x = 0) (sc_status c) = Some p"
        using free_slot [OF sh card_effects(2)] card_effects(1) [of ?es] small by (force simp: strip_of_def)
      moreover have p20: "p < 20" "sc_status c ! p = 0"
        using first_index_Some [OF p] sh by (simp_all add: strip_shows_def strip_of_def)
      ultimately have "fst (snd (add_status_effect e src now tx c))
          = (fst (set_slot p (effect_status_id ?e) (wire_end_time ?e) c))\<lparr>sc_effects := AList.update (se_id e) ?e ?es\<rparr>"
        using None small False
        by (simp add: add_status_effect_def MAX_EFFECTS_def or_else_def stored_def Let_def case_prod_beta
            effect_status_id_def set_end_time_def set_start_time_def)
      then show ?thesis
        using put_strip [OF ok, of ?e ?es p] ge del small v p20 fresh set_slot_result [OF strip_ok_sized [OF ok] p20(1)]
        by simp
    qed
  qed
next
  case (Some old)
  let ?es = "sc_effects c" and ?e = "stored e src now c" and ?es1 = "AList.delete (se_id e) (sc_effects c)"
  have k: "keyed ?es" and sh: "strip_shows (strip_of c) (effects_of ?es)" and len: "length ?es \<le> 20"
    using ok by (simp_all add: strip_ok_def)
  have key: "map_of ?es (se_id e) = Some old" using Some by (simp add: status_get_def)
  then have old: "old \<in> effects_of ?es" "se_id old = se_id e" using keyed_get [OF k] by auto
  have hid: "se_hidden old = se_hidden e" using same Some by (simp add: same_hidden_def)
  have small: "length ?es1 < 20" using length_delete_less [of ?es "se_id e"] key len by simp
  have only: "f = old" if "f \<in> effects_of ?es" "se_id f = se_id e" for f
    using keyed_one [OF k] that old by (metis (no_types))
  show ?thesis
  proof (cases "overwrites (se_overwrite old) old e")
    case False
    then show ?thesis using Some ok by (simp add: add_status_effect_def Let_def)
  next
    case ow: True
    show ?thesis
    proof (cases "se_hidden e")
      case True
      then have "fst (snd (add_status_effect e src now tx c)) = c\<lparr>sc_effects := AList.update (se_id e) ?e ?es1\<rparr>"
        using Some small ow by (simp add: add_status_effect_def Let_def MAX_EFFECTS_def stored_def set_end_time_def set_start_time_def)
      moreover have "\<forall>f \<in> effects_of ?es. se_id f = se_id e \<longrightarrow> \<not> vis f" using only hid True by (auto simp: vis_def)
      ultimately show ?thesis using hide_strip [OF ok, of ?e ?es1] ge small True by (simp add: vis_def)
    next
      case False
      have v: "vis e" "vis old" using False hid by (simp_all add: vis_def)
      have sid: "effect_status_id old = effect_status_id e" using old(2) by (simp add: effect_status_id_def)
      have "effect_status_id old \<in> set (sc_status c)" using sh old v by (simp add: strip_shows_def complete_def strip_of_def)
      then obtain p where p: "first_index (\<lambda>s. s = effect_status_id e) (sc_status c) = Some p"
        using sid first_index_None [of "\<lambda>s. s = effect_status_id e" "sc_status c"] by (cases "first_index (\<lambda>s. s = effect_status_id e) (sc_status c)") auto
      have p20: "p < 20" "sc_status c ! p = effect_status_id e"
        using first_index_Some [OF p] sh by (simp_all add: strip_shows_def strip_of_def)
      have "fst (snd (add_status_effect e src now tx c))
          = (fst (set_slot p (effect_status_id ?e) (wire_end_time ?e) (c\<lparr>sc_effects := ?es1\<rparr>)))\<lparr>sc_effects := AList.update (se_id e) ?e ?es1\<rparr>"
        using Some small ow False p
        by (simp add: add_status_effect_def MAX_EFFECTS_def or_else_def stored_def Let_def case_prod_beta
            effect_status_id_def set_end_time_def set_start_time_def)
      moreover have "sc_status c ! p \<noteq> 0" using p20(2) good_sid(2) [OF ge v(1)] by simp
      moreover have "sized (c\<lparr>sc_effects := ?es1\<rparr>)" using strip_ok_sized [OF ok] by simp
      ultimately show ?thesis
        using put_strip [OF ok, of ?e ?es1 p] ge small v p20 old sid set_slot_result [of "c\<lparr>sc_effects := ?es1\<rparr>" p]
        by auto
    qed
  qed
qed

subsection \<open>Removing\<close>

lemma remove_keeps:
  assumes ok: "strip_ok c"
  shows "strip_ok (fst (snd (remove_status_effect a tx play c)))"
proof (cases "status_get a c")
  case None
  then show ?thesis using ok by (simp add: remove_status_effect_def)
next
  case (Some e)
  let ?es = "sc_effects c"
  have k: "keyed ?es" and sh: "strip_shows (strip_of c) (effects_of ?es)" and len: "length ?es \<le> 20"
    and good: "\<forall>f \<in> effects_of ?es. good_effect f"
    using ok by (simp_all add: strip_ok_def)
  have e: "e \<in> effects_of ?es" "se_id e = a" using Some keyed_get [OF k] by (auto simp: status_get_def)
  have ge: "good_effect e" using good e(1) by blast
  have rest: "keyed (AList.delete a ?es)" "effects_of (AList.delete a ?es) = without a (effects_of ?es)"
    "length (AList.delete a ?es) \<le> 20" "\<forall>f \<in> without a (effects_of ?es). good_effect f"
    using keyed_delete [OF k] length_delete_le [of a ?es] len good by (auto simp: without_def)
  show ?thesis
  proof (cases "se_hidden e")
    case True
    have "\<forall>f \<in> effects_of ?es. se_id f = a \<longrightarrow> \<not> vis f"
      using keyed_one [OF k] e True by (metis (no_types) vis_def)
    then have "strip_shows (strip_of c) (without a (effects_of ?es))" using hidden_shows(1) [OF sh] by blast
    then show ?thesis using Some True rest by (simp add: remove_status_effect_def strip_ok_def)
  next
    case False
    have v: "vis e" using False by (simp add: vis_def)
    have "effect_status_id e \<in> set (sc_status c)" using sh e v by (simp add: strip_shows_def complete_def strip_of_def)
    then obtain p where p: "first_index (\<lambda>s. s = effect_status_id e) (sc_status c) = Some p"
      using first_index_None [of "\<lambda>s. s = effect_status_id e" "sc_status c"] by (cases "first_index (\<lambda>s. s = effect_status_id e) (sc_status c)") auto
    have p20: "p < 20" "sc_status c ! p = effect_status_id e" "sc_status c ! p \<noteq> 0"
      using first_index_Some [OF p] sh good_sid(2) [OF ge v] by (simp_all add: strip_shows_def strip_of_def)
    have "strip_shows ((sc_status c)[p := 0], (sc_shown_time c)[p := 0]) (without a (effects_of ?es))"
      using put_shows(2) [OF sh good ge v p20(1) _ keyed_one [OF k]] p20 e v by (auto simp: strip_of_def)
    moreover have "fst (snd (remove_status_effect a tx play c))
        = c\<lparr>sc_status := (sc_status c)[p := 0], sc_shown_time := (sc_shown_time c)[p := 0], sc_effects := AList.delete a ?es\<rparr>"
      using Some False p set_slot_result [OF strip_ok_sized [OF ok] p20(1), of 0 0]
      by (simp add: remove_status_effect_def case_prod_beta Let_def)
    ultimately show ?thesis using rest by (simp add: strip_ok_def strip_of_def)
  qed
qed

lemma removes_keep:
  assumes "strip_ok c"
  shows "strip_ok (fst (remove_effects play xs c))"
  using assms
proof (induction xs arbitrary: c)
  case (Cons x xs)
  then show ?case using remove_keeps [OF Cons.prems] by (cases x) (simp add: case_prod_beta)
qed simp

subsection \<open>The tick\<close>

definition ticked :: "u64 \<Rightarrow> status_effect \<Rightarrow> status_effect" where
  "ticked now e = fst (snd (effect_update now e))"

lemma ticked_simps [simp]:
  "se_id (ticked now e) = se_id e" "vis (ticked now e) = vis e" "effect_status_id (ticked now e) = effect_status_id e"
  "wire_end_time (ticked now e) = wire_end_time e" "good_effect (ticked now e) = good_effect e"
  by (simp_all add: ticked_def effect_update_def Let_def vis_def effect_status_id_def wire_end_time_def is_stance_def good_effect_def)

lemma update_effects_map: "fst (snd (update_effects now es)) = map (\<lambda>(a, e). (a, ticked now e)) es"
  by (induction es) (auto simp: ticked_def case_prod_beta)

lemma tick_effects_of: "effects_of (map (\<lambda>(a, e). (a, f e)) es) = f ` effects_of es"
  by (force simp: effects_of_def)

lemma tick_shows:
  assumes "strip_shows s E"
  shows "strip_shows s (ticked now ` E)"
  using assms by (simp add: strip_shows_def sound_def complete_def)

lemma status_update_keeps:
  assumes ok: "strip_ok c"
  shows "strip_ok (fst (status_update now mods passive c))"
proof -
  define c2 where "c2 = (if REGEN_TICK_MS \<le> u64_saturating_sub now (sc_last_regen_ms c) then c\<lparr>sc_last_regen_ms := now\<rparr> else c)
    \<lparr>sc_effects := map (\<lambda>(a, e). (a, ticked now e)) (sc_effects c)\<rparr>"
  have "keyed (map (\<lambda>(a, e). (a, ticked now e)) (sc_effects c))"
    using ok by (auto simp: strip_ok_def keyed_def case_prod_beta comp_def)
  then have "strip_ok c2" using ok
    by (simp add: c2_def strip_ok_def strip_of_def tick_effects_of tick_shows)
  moreover have "\<exists>xs. fst (status_update now mods passive c) = fst (remove_effects True xs c2)"
    using update_effects_map [of now "sc_effects c"]
    by (auto simp: status_update_def c2_def Let_def case_prod_beta)
  ultimately show ?thesis using removes_keep by metis
qed

section \<open>The property\<close>

text \<open>The operations, with what they send; an effect keeps its visibility when it is applied again.\<close>

inductive status_step :: "status_container \<Rightarrow> status_event list \<Rightarrow> status_container \<Rightarrow> bool" where
  st_add: "good_effect e \<Longrightarrow> same_hidden e c \<Longrightarrow> add_status_effect e src now tx c = (r, c', ev) \<Longrightarrow> status_step c ev c'"
| st_remove: "remove_status_effect a tx play c = (r, c', ev) \<Longrightarrow> status_step c ev c'"
| st_flags: "remove_by_flag f c = (r, c', ev) \<Longrightarrow> status_step c ev c'"
| st_clear: "clear_all c = (c', ev) \<Longrightarrow> status_step c ev c'"
| st_tick: "status_update now mods pd c = (c', ev) \<Longrightarrow> status_step c ev c'"

inductive status_run :: "status_container \<Rightarrow> status_event list \<Rightarrow> status_container \<Rightarrow> bool" where
  run_nil: "status_run c [] c"
| run_step: "status_run c ev c' \<Longrightarrow> status_step c' ev' c'' \<Longrightarrow> status_run c (ev @ ev') c''"

lemma status_step_keeps:
  assumes "status_step c ev c'" "strip_ok c"
  shows "strip_ok c' \<and> client_run ev (strip_of c) = strip_of c'"
  using assms
proof (induction rule: status_step.induct)
  case (st_add e c src now tx r c' ev)
  then show ?case using add_keeps [of c e src now tx] add_follows [OF strip_ok_sized] by simp
next
  case (st_remove a tx play c r c' ev)
  then show ?case using remove_keeps [of c a tx play] remove_follows [OF strip_ok_sized] by simp
next
  case (st_flags f c r c' ev)
  let ?xs = "map (\<lambda>e. (se_id e, se_loss_text e)) (get_by_flag f c)"
  have "remove_effects True ?xs c = (c', ev)" using st_flags(1) by (auto simp: remove_by_flag_def Let_def split: prod.splits)
  then show ?case using removes_keep [OF st_flags(2), of True ?xs] removes_follow [OF strip_ok_sized [OF st_flags(2)]] by simp
next
  case (st_clear c c' ev)
  let ?xs = "map (\<lambda>e. (se_id e, se_loss_text e)) (map snd (sc_effects c))"
  have "remove_effects False ?xs c = (c', ev)" using st_clear(1) by (simp add: clear_all_def)
  then show ?case using removes_keep [OF st_clear(2), of False ?xs] removes_follow [OF strip_ok_sized [OF st_clear(2)]] by simp
next
  case (st_tick now mods pd c c' ev)
  then show ?case using status_update_keeps [of c now mods pd] status_update_follows [OF strip_ok_sized] by simp
qed

lemma status_new_ok: "strip_ok (status_new owner)"
  by (simp add: strip_ok_def status_new_def keyed_def effects_of_def strip_shows_def strip_of_def MAX_EFFECTS_def
      sound_def complete_def unique_def)


text \<open>A poison that runs out, with what was sent.\<close>

definition demo_poison :: status_effect where
  "demo_poison = effect_new 7 STATUS_POISON 0 3000 30 1 5000"

definition poisoned :: "status_container \<times> status_event list" where
  "poisoned = snd (add_status_effect demo_poison 9 5000 DEFAULT_GAIN_TEXT_ID (status_new 7))"

lemma poison_good: "good_effect demo_poison" "same_hidden demo_poison (status_new 7)"
  by (simp_all add: demo_poison_def good_effect_def effect_new_def STATUS_POISON_def same_hidden_def status_get_def status_new_def)


section \<open>Two clocks\<close>

text \<open>
  Every effect ends after the ticker's clock \<open>up\<close> and was last ticked after it: what holds of effects
  stamped with milliseconds of the wall clock, while the ticker counts from the start of the server.
\<close>

definition wall_stamped :: "u64 \<Rightarrow> status_container \<Rightarrow> bool" where
  "wall_stamped up c \<longleftrightarrow> (\<forall>e \<in> effects_of (sc_effects c). secs up < wire_end_time e \<and> se_end_time e = wire_end_time e \<and> up \<le> se_last_tick_ms e)"

lemma stamped_quiet:
  assumes "secs up < wire_end_time e" "se_end_time e = wire_end_time e" "up \<le> se_last_tick_ms e"
  shows "effect_update up e = (False, e, [])"
proof -
  have "u64_saturating_sub up (se_last_tick_ms e) = 0" using assms(3) by (auto simp: u64_saturating_sub_def)
  then have n: "(se_tick_ms e \<noteq> 0 \<and> ucast (se_tick_ms e) \<le> u64_saturating_sub up (se_last_tick_ms e)) = False"
    using unsigned_less [of "se_tick_ms e", where 'a = int] by (auto simp: word_le_def unsigned_ucast_eq take_bit_int_eq_self unsigned_eq_0_iff)
  have "\<not> wire_end_time e \<le> secs up" using assms(1) by simp
  then show ?thesis using assms(2) by (simp add: effect_update_def Let_def n)
qed

lemma stamped_list:
  assumes "\<forall>p \<in> set es. effect_update up (snd p) = (False, snd p, [])"
  shows "update_effects up es = ([], es, [])"
  using assms by (induction es) auto

lemma effects_of_update: "effects_of (AList.update a e es) \<subseteq> insert e (effects_of es)"
  by (induction es) (auto simp: effects_of_def)

lemma effects_of_delete: "effects_of (AList.delete a es) \<subseteq> effects_of es"
  by (induction es) (auto simp: effects_of_def)

lemma add_effects:
  "effects_of (sc_effects (fst (snd (add_status_effect e src now tx c)))) \<subseteq> insert (stored e src now c) (effects_of (sc_effects c))"
proof -
  have upd: "effects_of (AList.update a f (AList.delete b es)) \<subseteq> insert f (effects_of es)" for a b f es
    using effects_of_update [of a f "AList.delete b es"] effects_of_delete [of b es] by blast
  have eff: "sc_effects (fst (if h then (x, []) else case sl of None \<Rightarrow> (x, []) | Some i \<Rightarrow> set_slot i (k i) (w i) x)) = sc_effects x"
    for h sl k w x by (auto split: option.splits)
  show ?thesis
    by (simp add: add_status_effect_def Let_def case_prod_beta stored_def eff split: option.splits)
      (intro conjI allI impI; (rule subset_insertI | rule subset_insertI2 [OF effects_of_delete] | rule upd | rule effects_of_update))
qed

text \<open>The landing of an effect with a wall-clock stamp ahead of the ticker.\<close>

lemma add_stamped:
  assumes st: "wall_stamped up c" and ahead: "up \<le> wall" "secs up < secs wall"
  shows "wall_stamped up (fst (snd (add_status_effect e src wall tx c)))"
proof -
  have top: "secs wall \<le> 0xFFFFFFFF" using uint_lt2p [of "secs wall"] by (simp add: word_le_def)
  have "secs wall \<le> u32_saturating_add (secs wall) (se_duration e)"
  proof (cases "unat (secs wall) + unat (se_duration e) < 2 ^ 32")
    case True
    then show ?thesis by (simp add: u32_saturating_add_def word_le_nat_alt unat_add_lem [THEN iffD1])
  qed (simp add: u32_saturating_add_def top)
  then have "secs up < u32_saturating_add (secs wall) (se_duration e)" using ahead(2) by simp
  moreover have "secs up < STANCE_END_TIME"
    using ahead(2) top by (simp add: STANCE_END_TIME_def)
  ultimately have "secs up < wire_end_time (stored e src wall c)" "se_end_time (stored e src wall c) = wire_end_time (stored e src wall c)"
    "up \<le> se_last_tick_ms (stored e src wall c)"
    using ahead(1) by (auto simp: stored_def Let_def set_end_time_def set_start_time_def wire_end_time_def is_stance_def)
  then show ?thesis using st add_effects [of e src wall tx c] by (auto simp: wall_stamped_def)
qed



end
