(* ===== verification/StatLaws.thy ===== *)
theory StatLaws
  imports Chara
begin

text \<open>
  Laws of the recalculation: with bonuses on the stats the pipeline resets it depends on the
  equipment of the moment alone; a bonus on any other stat is added again at each recalculation and
  survives the item; and a recalculation that sets a maximum fills the pool.
\<close>

section \<open>The stats the pipeline writes\<close>

definition same_outside :: "modifier_map \<Rightarrow> modifier_map \<Rightarrow> bool" where
  "same_outside m n \<longleftrightarrow> (\<forall>k. k \<notin> set pipeline_keys \<longrightarrow> m k = n k)"

lemma same_refl [simp]: "same_outside m m"
  by (simp add: same_outside_def)

lemma same_trans [trans]: "same_outside a b \<Longrightarrow> same_outside b c \<Longrightarrow> same_outside a c"
  by (simp add: same_outside_def)

lemma set_inside: "k \<in> set pipeline_keys \<Longrightarrow> same_outside (mod_set k v m) n \<longleftrightarrow> same_outside m n"
  by (auto simp: same_outside_def mod_set_def)

lemma add_inside: "k \<in> set pipeline_keys \<Longrightarrow> same_outside (mod_add k v m) n \<longleftrightarrow> same_outside m n"
  by (simp add: mod_add_def set_inside)

lemma seed_inside: "k \<in> set pipeline_keys \<Longrightarrow> same_outside (seed_if_zero k v m) n \<longleftrightarrow> same_outside m n"
  by (simp add: seed_if_zero_def set_inside)

lemma keys [simp]:
  "MOD_HP \<in> set pipeline_keys" "MOD_MP \<in> set pipeline_keys" "MOD_TP \<in> set pipeline_keys"
  "MOD_STRENGTH \<in> set pipeline_keys" "MOD_VITALITY \<in> set pipeline_keys" "MOD_DEXTERITY \<in> set pipeline_keys"
  "MOD_INTELLIGENCE \<in> set pipeline_keys" "MOD_MIND \<in> set pipeline_keys" "MOD_PIETY \<in> set pipeline_keys"
  "MOD_ATTACK \<in> set pipeline_keys" "MOD_ACCURACY \<in> set pipeline_keys" "MOD_DEFENSE \<in> set pipeline_keys"
  "MOD_ATTACK_MAGIC_POTENCY \<in> set pipeline_keys" "MOD_HEALING_MAGIC_POTENCY \<in> set pipeline_keys"
  "MOD_MAGIC_ACCURACY \<in> set pipeline_keys" "MOD_MAGIC_EVASION \<in> set pipeline_keys"
  "MOD_ENFEEBLING_MAGIC_POTENCY \<in> set pipeline_keys" "MOD_DELAY \<in> set pipeline_keys"
  "MOD_ATTACK_TYPE \<in> set pipeline_keys" "MOD_HIT_COUNT \<in> set pipeline_keys" "MOD_PARRY \<in> set pipeline_keys"
  "MOD_WEAPON_DAMAGE_POWER \<in> set pipeline_keys"
  by (simp_all add: pipeline_keys_def)

lemmas inside = set_inside add_inside seed_inside

lemma fold_inside:
  assumes "\<And>x m. x \<in> set xs \<Longrightarrow> same_outside (f x m) m"
  shows "same_outside (fold f xs m) m"
  using assms
proof (induction xs arbitrary: m)
  case (Cons x xs)
  have "same_outside (fold f xs (f x m)) (f x m)" using Cons by simp
  also have "same_outside (f x m) m" using Cons.prems by simp
  finally show ?case by simp
qed simp

lemma emphasis_inside: "class_emphasis cl = Some (k1, k2) \<Longrightarrow> k1 \<in> set pipeline_keys \<and> k2 \<in> set pipeline_keys"
  by (auto simp: class_emphasis_def split: if_splits)

lemma primaries_inside: "k \<in> set primaries \<Longrightarrow> k \<in> set pipeline_keys"
  by (auto simp: primaries_def)

lemma baseline_inside: "same_outside (baseline_mods cl lvl m) m"
proof -
  have p: "same_outside (fold (\<lambda>k. seed_if_zero k v) primaries m1) n \<longleftrightarrow> same_outside m1 n" for v m1 n
  proof -
    have "same_outside (fold (\<lambda>k. seed_if_zero k v) primaries m1) m1"
      by (rule fold_inside) (simp add: inside primaries_inside)
    then show ?thesis by (auto simp: same_outside_def)
  qed
  show ?thesis
    using emphasis_inside [of cl] by (auto simp: baseline_mods_def Let_def p inside split: option.splits)
qed

lemma weapon_inside: "same_outside (weapon_mods items eq m) m"
  by (auto simp: weapon_mods_def main_hand_mods_def off_hand_mods_def inside Let_def split: option.splits)

lemma damage_inside: "same_outside (weapon_damage_power_mods items eq m) m"
  by (simp add: weapon_damage_power_mods_def inside)

lemma derivation_inside: "same_outside (derivation_mods m) m"
  by (simp add: derivation_mods_def Let_def inside)

section \<open>The reset\<close>

lemma reset_at: "fold (\<lambda>k. mod_set k 0) ks m k = (if k \<in> set ks then Some 0 else m k)"
  by (induction ks arbitrary: m) (auto simp: mod_set_def)

lemma reset_same: "same_outside m n \<Longrightarrow> fold (\<lambda>k. mod_set k 0) pipeline_keys m = fold (\<lambda>k. mod_set k 0) pipeline_keys n"
  by (rule ext) (simp add: reset_at same_outside_def)

definition pipeline_mods :: "item_catalog \<Rightarrow> equipment \<Rightarrow> int \<Rightarrow> int \<Rightarrow> modifier_map \<Rightarrow> modifier_map" where
  "pipeline_mods items eq cl lvl m =
     derivation_mods (weapon_damage_power_mods items eq (weapon_mods items eq
       (fold (gear_of_item items) (map snd eq) (baseline_mods cl lvl (fold (\<lambda>k. mod_set k 0) pipeline_keys m)))))"

lemma pipeline_is: "player_pipeline items eq c = c\<lparr>ch_mods := pipeline_mods items eq (ch_class c) (ch_level c) (ch_mods c)\<rparr>"
  by (simp add: player_pipeline_def apply_player_stat_derivation_def apply_player_weapon_damage_power_def
      apply_player_weapon_stats_def apply_player_gear_stats_def apply_player_stat_baseline_def
      reset_player_bonus_stats_def pipeline_mods_def)

definition resettable_gear :: "item_catalog \<Rightarrow> bool" where
  "resettable_gear items \<longleftrightarrow> (\<forall>a i. items a = Some i \<longrightarrow> (\<forall>b \<in> set (is_gear_bonuses i). fst b \<in> set pipeline_keys))"

lemma gear_inside:
  assumes "resettable_gear items"
  shows "same_outside (fold (gear_of_item items) xs m) m"
proof (rule fold_inside)
  fix x m
  have "same_outside (fold (\<lambda>(k, d). mod_add k (f64_of_int d)) bs m) m" if "\<forall>b \<in> set bs. fst b \<in> set pipeline_keys" for bs
    using that by (intro fold_inside) (auto simp: inside)
  then show "same_outside (gear_of_item items x m) m"
    using assms by (auto simp: gear_of_item_def resettable_gear_def split: option.splits)
qed

lemma pipeline_inside:
  assumes "resettable_gear items"
  shows "same_outside (pipeline_mods items eq cl lvl m) m"
proof -
  let ?r = "fold (\<lambda>k. mod_set k 0) pipeline_keys m"
  let ?b = "baseline_mods cl lvl ?r" and ?g = "fold (gear_of_item items) (map snd eq) (baseline_mods cl lvl ?r)"
  have "same_outside (pipeline_mods items eq cl lvl m) (weapon_damage_power_mods items eq (weapon_mods items eq ?g))"
    unfolding pipeline_mods_def by (rule derivation_inside)
  also have "same_outside \<dots> (weapon_mods items eq ?g)" by (rule damage_inside)
  also have "same_outside \<dots> ?g" by (rule weapon_inside)
  also have "same_outside \<dots> ?b" by (rule gear_inside [OF assms])
  also have "same_outside \<dots> ?r" by (rule baseline_inside)
  also have "same_outside \<dots> m" by (simp add: same_outside_def reset_at)
  finally show ?thesis .
qed

text \<open>
  C39: when every bonus of the catalog is on a stat the pipeline resets, a recalculation with one
  equipment forgets the one before: the result is that of a recalculation on the character as it was.
\<close>

theorem recalculation_forgets_gear:
  assumes "resettable_gear items"
  shows "player_pipeline items eq2 (player_pipeline items eq1 c) = player_pipeline items eq2 c"
proof -
  have "pipeline_mods items eq2 cl lvl (pipeline_mods items eq1 cl lvl m) = pipeline_mods items eq2 cl lvl m" for cl lvl m
    using reset_same [OF pipeline_inside [OF assms, of eq1 cl lvl m]] by (simp add: pipeline_mods_def)
  then show ?thesis by (simp add: pipeline_is)
qed

definition demo_items :: item_catalog where
  "demo_items = [100 \<mapsto> \<lparr>is_gear_bonuses = [(MOD_STRENGTH, 5)], is_weapon = None\<rparr>,
     200 \<mapsto> \<lparr>is_gear_bonuses = [(16, 3)], is_weapon = None\<rparr>]"

definition strength_items :: item_catalog where
  "strength_items = [100 \<mapsto> \<lparr>is_gear_bonuses = [(MOD_STRENGTH, 5)], is_weapon = None\<rparr>]"

theorem recalculation_forgets_gear_witness:
  "player_pipeline strength_items [] (player_pipeline strength_items [(5, 100)] (character_new 7))
   = player_pipeline strength_items [] (character_new 7)"
  by (rule recalculation_forgets_gear) (simp add: resettable_gear_def strength_items_def)

section \<open>Bonuses outside the reset\<close>

lemma fold_set_get: "k \<notin> set ks \<Longrightarrow> mod_get k (fold (\<lambda>k. mod_set k 0) ks m) = mod_get k m"
  by (simp add: mod_get_def reset_at)

lemma same_get: "same_outside m n \<Longrightarrow> k \<notin> set pipeline_keys \<Longrightarrow> mod_get k m = mod_get k n"
  by (simp add: same_outside_def mod_get_def)



section \<open>What a recalculation does to the pools\<close>

lemma clamp_Ok: "clamp_int lo hi x = Ok y \<longleftrightarrow> lo \<le> hi \<and> y = max lo (min hi x)"
  by (auto simp: clamp_int_def)

lemma set_hp_Ok: "set_hp hp c = Ok c1 \<longleftrightarrow> hp_floor c \<le> ch_max_hp c \<and> c1 = c\<lparr>ch_hp := max (hp_floor c) (min (ch_max_hp c) hp)\<rparr>"
  by (auto simp: set_hp_def clamp_Ok outcome_simps)

lemma set_mp_Ok: "set_mp mp c = Ok c1 \<longleftrightarrow> 0 \<le> ch_max_mp c \<and> c1 = c\<lparr>ch_mp := max 0 (min (ch_max_mp c) mp)\<rparr>"
  by (auto simp: set_mp_def clamp_Ok outcome_simps)

lemma i16_wrap_le: "i16_wrap x \<le> x \<or> x < 32767" if "0 \<le> x"
proof (cases "x < 32768")
  case True
  then show ?thesis using that by (cases "x = 32767") (simp_all add: i16_wrap_def signed_take_bit_int_eq_self)
next
  case False
  have "i16_wrap x < 32768" using signed_take_bit_int_less_exp [of 15 x] by (simp add: i16_wrap_def)
  then show ?thesis using False by simp
qed

lemma i16_wrap_small: "0 \<le> x \<Longrightarrow> x < 32768 \<Longrightarrow> i16_wrap x = x"
  by (simp add: i16_wrap_def signed_take_bit_int_eq_self)

lemma wrapped_min: "0 < x \<Longrightarrow> min (i16_wrap (max x 0)) x = i16_wrap (max x 0)"
  using i16_wrap_le [of x] i16_wrap_small [of x] by (cases "x < 32768") auto

text \<open>The hit points the modifiers ask for, and that no percentage of them is set.\<close>

definition hp_of_mods :: "character \<Rightarrow> int" where "hp_of_mods c = f64_to_i32 (mod_get MOD_HP (ch_mods c))"
definition no_hp_percent :: "character \<Rightarrow> bool" where "no_hp_percent c \<longleftrightarrow> \<not> f64_lt 0 (mod_get MOD_HP_PERCENT (ch_mods c))"

lemma set_max_hp_fields [simp]:
  "ch_mods (set_max_hp x c) = ch_mods c" "ch_max_hp (set_max_hp x c) = i16_wrap (max x 0)"
  "hp_floor (set_max_hp x c) = hp_floor c"
  by (simp_all add: set_max_hp_def Let_def hp_floor_def)

lemma seed_fields [simp]:
  "ch_hp (seed_hit_count c) = ch_hp c" "ch_max_hp (seed_hit_count c) = ch_max_hp c"
  "ch_mp (seed_hit_count c) = ch_mp c" "ch_max_mp (seed_hit_count c) = ch_max_mp c"
  by (simp_all add: seed_hit_count_def)

lemma set_max_mp_fields [simp]:
  "ch_hp (set_max_mp x c) = ch_hp c" "ch_max_hp (set_max_mp x c) = ch_max_hp c"
  by (simp_all add: set_max_mp_def Let_def)

lemma base_stats_fill:
  assumes ok: "calculate_base_stats c = Ok c1" and hp: "0 < hp_of_mods c" and pc: "no_hp_percent c"
  shows "ch_hp c1 = ch_max_hp c1" "ch_max_hp c1 = i16_wrap (hp_of_mods c)"
proof -
  let ?n = "hp_of_mods c"
  obtain c0 where c0: "set_hp (pool_of (mod_get MOD_HP_PERCENT (ch_mods c)) ?n) (set_max_hp ?n c) = Ok c0"
    and rest: "bind_outcome (if 0 < f64_to_i32 (mod_get MOD_MP (ch_mods c0))
         then set_mp (pool_of (mod_get MOD_MP_PERCENT (ch_mods c0)) (f64_to_i32 (mod_get MOD_MP (ch_mods c0))))
                (set_max_mp (f64_to_i32 (mod_get MOD_MP (ch_mods c0))) c0)
         else Ok c0) (\<lambda>c2. Ok (seed_hit_count c2)) = Ok c1"
    using ok hp by (auto simp: calculate_base_stats_def Let_def hp_of_mods_def outcome_simps)
  have "pool_of (mod_get MOD_HP_PERCENT (ch_mods c)) ?n = ?n" using pc by (simp add: pool_of_def no_hp_percent_def)
  then have "ch_hp c0 = i16_wrap (max ?n 0) \<and> ch_max_hp c0 = i16_wrap (max ?n 0)"
    using c0 hp wrapped_min [OF hp] by (auto simp: set_hp_Ok)
  moreover have "ch_hp c1 = ch_hp c0 \<and> ch_max_hp c1 = ch_max_hp c0"
    using rest by (auto simp: outcome_simps set_mp_Ok split: if_splits)
  ultimately show "ch_hp c1 = ch_max_hp c1" "ch_max_hp c1 = i16_wrap ?n" using hp by simp_all
qed

text \<open>The fields a recalculation leaves alone.\<close>

definition frame :: "character \<Rightarrow> character" where
  "frame c = c\<lparr>ch_hp := 0, ch_max_hp := 0, ch_mp := 0, ch_max_mp := 0, ch_mods := mod_new\<rparr>"

lemma frame_fields [simp]:
  "ch_main_state (frame c) = ch_main_state c" "ch_status (frame c) = ch_status c" "ch_ai (frame c) = ch_ai c"
  "ch_hate (frame c) = ch_hate c" "ch_hotbar (frame c) = ch_hotbar c" "ch_class (frame c) = ch_class c"
  "ch_level (frame c) = ch_level c" "ch_tp (frame c) = ch_tp c" "ch_skill_point (frame c) = ch_skill_point c"
  "ch_skill_level (frame c) = ch_skill_level c" "ch_rest_bonus (frame c) = ch_rest_bonus c"
  by (simp_all add: frame_def)

lemma frame_steps:
  "frame (set_max_hp x c) = frame c" "frame (set_max_mp x c) = frame c" "frame (seed_hit_count c) = frame c"
  "frame (c\<lparr>ch_mods := m\<rparr>) = frame c" "frame (c\<lparr>ch_hp := h\<rparr>) = frame c" "frame (c\<lparr>ch_mp := h\<rparr>) = frame c"
  by (simp_all add: set_max_hp_def set_max_mp_def seed_hit_count_def Let_def frame_def)

lemma base_stats_frame:
  assumes "calculate_base_stats c = Ok c1"
  shows "frame c1 = frame c"
  using assms
  by (auto simp: calculate_base_stats_def Let_def outcome_simps set_hp_Ok set_mp_Ok frame_steps split: if_splits)

lemma recalc_frame:
  assumes "recalc_character p items eq c = Ok c1"
  shows "frame c1 = frame c"
  using base_stats_frame [of "if p then player_pipeline items eq c else c" c1] assms
  by (auto simp: recalc_character_def recalculate_stats_def pipeline_is frame_steps split: if_splits)

text \<open>The hit points a recalculation of a player asks for.\<close>

definition pipeline_hp :: "item_catalog \<Rightarrow> equipment \<Rightarrow> character \<Rightarrow> int" where
  "pipeline_hp items eq c = hp_of_mods (player_pipeline items eq c)"

lemma recalc_fills:
  assumes "recalc_character True items eq c = Ok c1" and "0 < pipeline_hp items eq c"
    and "no_hp_percent (player_pipeline items eq c)"
  shows "ch_hp c1 = ch_max_hp c1" "ch_max_hp c1 = i16_wrap (pipeline_hp items eq c)"
  using base_stats_fill [of "player_pipeline items eq c" c1] assms
  by (simp_all add: recalc_character_def recalculate_stats_def pipeline_hp_def)

end
