(* ===== verification/ProgressLaws.thy ===== *)
theory ProgressLaws
  imports HotbarLaws
begin

text \<open>
  Laws of the experience gain: the roll-over spends exactly the thresholds it crosses and stops below
  the next, and a gain taken in two parts leaves the character, the command bar and the database as
  the whole gain does, as long as there is no rested bonus.
\<close>

section \<open>The roll-over\<close>

lemma threshold_pos: "1 \<le> level \<Longrightarrow> level < MAX_LEVEL \<Longrightarrow> 0 < threshold_at level"
proof -
  assume "1 \<le> level" "level < MAX_LEVEL"
  then have "nat (max (level - 1) 0) < length LEVEL_THRESHOLDS" by (simp add: LEVEL_THRESHOLDS_def MAX_LEVEL_def)
  moreover have "\<forall>t \<in> set LEVEL_THRESHOLDS. 0 < t" by (simp add: LEVEL_THRESHOLDS_def)
  ultimately show ?thesis by (simp add: threshold_at_def)
qed

declare level_loop.simps [simp del]

lemma level_induct [case_names step]:
  assumes "\<And>l s. (\<And>s'. l < MAX_LEVEL \<Longrightarrow> P (l + 1) s') \<Longrightarrow> P l s"
  shows "P (l :: int) (s :: int)"
proof (induction "nat (MAX_LEVEL - l)" arbitrary: l s rule: less_induct)
  case less
  show ?case by (rule assms, rule less) simp
qed

text \<open>The counter is an accumulator.\<close>

lemma level_loop_acc:
  "level_loop l s g = (fst (level_loop l s 0), fst (snd (level_loop l s 0)), g + snd (snd (level_loop l s 0)))"
proof (induction l s arbitrary: g rule: level_induct)
  case (step l s)
  show ?case
  proof (cases "l < MAX_LEVEL \<and> threshold_at l \<le> s")
    case True
    let ?r = "level_loop (l + 1) (s - threshold_at l)"
    have a: "level_loop l s h = ?r (h + 1)" for h using True by (simp add: level_loop.simps [of l s])
    have b: "?r h = (fst (?r 0), fst (snd (?r 0)), h + snd (snd (?r 0)))" for h using step True by blast
    have "level_loop l s g = (fst (?r 0), fst (snd (?r 0)), g + 1 + snd (snd (?r 0)))" using a [of g] b [of "g + 1"] by argo
    moreover have "level_loop l s 0 = (fst (?r 0), fst (snd (?r 0)), 1 + snd (snd (?r 0)))" using a [of 0] b [of 1] by simp
    ultimately show ?thesis by simp
  next
    case False
    then have "level_loop l s h = (l, s, h)" for h by (subst level_loop.simps) auto
    then show ?thesis by simp
  qed
qed

text \<open>A run of the loop: where it stops, what it spent, and that it can go on with more points.\<close>

lemma level_loop_run:
  assumes "1 \<le> l" "0 \<le> s" "level_loop l s 0 = (l', s', n)"
  shows "l \<le> l'" "n = l' - l" "0 \<le> s'" "l' < MAX_LEVEL \<Longrightarrow> s' < threshold_at l'" "l' \<le> max l MAX_LEVEL"
    "s = s' + (\<Sum>i\<in>{l..<l'}. threshold_at i)"
    "0 \<le> y \<Longrightarrow> level_loop l (s + y) 0 = level_loop l' (s' + y) n"
proof -
  have "l \<le> l' \<and> n = l' - l \<and> 0 \<le> s' \<and> (l' < MAX_LEVEL \<longrightarrow> s' < threshold_at l') \<and> l' \<le> max l MAX_LEVEL
    \<and> s = s' + (\<Sum>i\<in>{l..<l'}. threshold_at i)
    \<and> (0 \<le> y \<longrightarrow> level_loop l (s + y) 0 = level_loop l' (s' + y) n)"
    using assms
  proof (induction l s arbitrary: l' s' n rule: level_induct)
    case (step l s)
    show ?case
    proof (cases "l < MAX_LEVEL \<and> threshold_at l \<le> s")
      case True
      let ?s = "s - threshold_at l"
      obtain m where r: "level_loop (l + 1) ?s 0 = (l', s', m)" and n: "n = 1 + m"
        using step.prems(3) level_loop_acc [of "l + 1" ?s 1] True
        by (cases "level_loop (l + 1) ?s 0") (simp add: level_loop.simps [of l s])
      have ih: "l + 1 \<le> l' \<and> m = l' - (l + 1) \<and> 0 \<le> s' \<and> (l' < MAX_LEVEL \<longrightarrow> s' < threshold_at l') \<and> l' \<le> max (l + 1) MAX_LEVEL
          \<and> ?s = s' + (\<Sum>i\<in>{l + 1..<l'}. threshold_at i)
          \<and> (0 \<le> y \<longrightarrow> level_loop (l + 1) (?s + y) 0 = level_loop l' (s' + y) m)"
        (is "?ord \<and> ?m \<and> ?pos \<and> ?below \<and> ?cap \<and> ?spent \<and> ?more")
      proof -
        have "l < MAX_LEVEL" "1 \<le> l + 1" "0 \<le> ?s" using step.prems True by simp_all
        from step.IH [OF this r] have ih: "?ord \<and> ?m \<and> ?pos \<and> ?below \<and> l' \<le> max (l + 1) MAX_LEVEL \<and> ?spent \<and> ?more" .
        then show ?thesis by blast
      qed
      have "{l..<l'} = insert l {l + 1..<l'}" using ih by auto
      then have "s = s' + (\<Sum>i\<in>{l..<l'}. threshold_at i)" using ih by simp
      moreover have "level_loop l (s + y) 0 = level_loop l' (s' + y) n" if "0 \<le> y"
      proof -
        have "level_loop l (s + y) 0 = level_loop (l + 1) (?s + y) 1"
          using True that by (simp add: level_loop.simps [of l "s + y"] algebra_simps)
        also have "\<dots> = level_loop l' (s' + y) n"
        proof -
          have "level_loop (l + 1) (?s + y) 0 = level_loop l' (s' + y) m" using ih that by blast
          then have "level_loop (l + 1) (?s + y) 1 = (let (a, b, k) = level_loop l' (s' + y) m in (a, b, 1 + k))"
            using level_loop_acc [of "l + 1" "?s + y" 1] by (simp add: case_prod_beta)
          also have "\<dots> = level_loop l' (s' + y) n"
            by (subst level_loop_acc [of l' "s' + y" m], subst level_loop_acc [of l' "s' + y" n]) (simp add: n)
          finally show ?thesis .
        qed
        finally show ?thesis .
      qed
      moreover have "l \<le> l'" "n = l' - l" "l' \<le> max l MAX_LEVEL" using ih n True by linarith+
      ultimately show ?thesis using ih by blast
    next
      case False
      then have stop: "level_loop l s 0 = (l, s, 0)" by (subst level_loop.simps) auto
      then have "l' = l" "s' = s" "n = 0" using step.prems by simp_all
      then show ?thesis using False step.prems by auto
    qed
  qed
  then show "l \<le> l'" "n = l' - l" "0 \<le> s'" "l' < MAX_LEVEL \<Longrightarrow> s' < threshold_at l'" "l' \<le> max l MAX_LEVEL"
    "s = s' + (\<Sum>i\<in>{l..<l'}. threshold_at i)"
    "0 \<le> y \<Longrightarrow> level_loop l (s + y) 0 = level_loop l' (s' + y) n" by blast+
qed



lemma level_up_eq:
  "1 \<le> l \<Longrightarrow> 0 \<le> s \<Longrightarrow> level_up_if_threshold_crossed l s
     = (case level_loop l s 0 of (l', s', n) \<Rightarrow> (l', if MAX_LEVEL \<le> l' then 0 else s', n))"
  by (simp add: level_up_if_threshold_crossed_def max_absorb1 split: prod.splits)

lemma level_up_reached:
  assumes "level_up_if_threshold_crossed l s = (l', s', n)" "1 \<le> l" "0 \<le> s"
  shows "l \<le> l'" "n = l' - l" "0 \<le> s'" "s' \<le> s"
proof -
  obtain r where r: "level_loop l s 0 = (l', r, n)" and s': "s' = (if MAX_LEVEL \<le> l' then 0 else r)"
    using assms by (auto simp: level_up_eq split: prod.splits)
  note run = level_loop_run [OF assms(2,3) r]
  show "l \<le> l'" "n = l' - l" by (rule run(1,2))+
  have "0 \<le> (\<Sum>i\<in>{l..<l'}. threshold_at i)"
  proof (rule sum_nonneg)
    fix i assume i: "i \<in> {l..<l'}"
    show "0 \<le> threshold_at i"
    proof (cases "i < MAX_LEVEL")
      case True
      then show ?thesis using threshold_pos [of i] i assms(2) by simp
    next
      case False
      then have "l \<le> MAX_LEVEL \<longrightarrow> l' \<le> MAX_LEVEL" "MAX_LEVEL < l \<longrightarrow> l' = l" using run(1,5) by auto
      then show ?thesis using False i by auto
    qed
  qed
  then show "0 \<le> s'" "s' \<le> s" using run(3,6) s' assms(3) by auto
qed

text \<open>Points added after a roll-over roll over as if they had been there at once.\<close>

lemma level_up_split:
  assumes "1 \<le> l" "0 \<le> s" "0 \<le> y" "level_up_if_threshold_crossed l s = (l1, s1, n1)"
    "level_up_if_threshold_crossed l1 (s1 + y) = (l2, s2, n2)"
  shows "level_up_if_threshold_crossed l (s + y) = (l2, s2, n1 + n2)"
proof -
  obtain r where r: "level_loop l s 0 = (l1, r, n1)" and s1: "s1 = (if MAX_LEVEL \<le> l1 then 0 else r)"
    using assms by (auto simp: level_up_if_threshold_crossed_def split: prod.splits)
  note run = level_loop_run [OF assms(1,2) r]
  have go: "level_loop l (s + y) 0 = level_loop l1 (r + y) n1" using run(7) assms(3) by blast
  show ?thesis
  proof (cases "MAX_LEVEL \<le> l1")
    case True
    have stop: "level_loop l1 z g = (l1, z, g)" for z g using True by (simp add: level_loop.simps)
    have "level_up_if_threshold_crossed l1 (s1 + y) = (l1, 0, 0)"
      using True assms(1) run(1) by (simp add: level_up_if_threshold_crossed_def stop)
    then have "l2 = l1" "s2 = 0" "n2 = 0" using assms(5) by simp_all
    moreover have "level_loop l (s + y) 0 = (l1, r + y, n1)" using go stop by simp
    ultimately show ?thesis using True assms(1-3)
      by (simp add: level_up_if_threshold_crossed_def max_absorb1)
  next
    case False
    obtain a b c where loop: "level_loop l1 (r + y) 0 = (a, b, c)" by (cases "level_loop l1 (r + y) 0")
    have "level_loop l1 (r + y) n1 = (a, b, n1 + c)" using level_loop_acc [of l1 "r + y" n1] loop by simp
    then have "level_up_if_threshold_crossed l (s + y) = (a, if MAX_LEVEL \<le> a then 0 else b, n1 + c)"
      using go assms(1-3) by (simp add: level_up_eq)
    moreover have "level_up_if_threshold_crossed l1 (s1 + y) = (a, if MAX_LEVEL \<le> a then 0 else b, c)"
      using False s1 loop run(1,3) assms(1,3) by (simp add: level_up_eq)
    ultimately show ?thesis using assms(5) by simp
  qed
qed

section \<open>The gain and the bar are apart\<close>

text \<open>What a gain writes: four fields of the character and the rows of the experience.\<close>

definition put_gain :: "int \<Rightarrow> int list \<Rightarrow> int list \<Rightarrow> int \<Rightarrow> exp_db \<Rightarrow> hotbar_state \<Rightarrow> hotbar_state" where
  "put_gain rest points levels level d s =
     s\<lparr>hs_player := map_option (\<lambda>c. c\<lparr>ch_rest_bonus := rest, ch_skill_point := points,
         ch_skill_level := levels, ch_level := level\<rparr>) (hs_player s), hs_exp := d\<rparr>"

lemma put_gain_player [simp]: "hs_player (put_gain a b d e x s) = map_option (\<lambda>c. c\<lparr>ch_rest_bonus := a, ch_skill_point := b,
         ch_skill_level := d, ch_level := e\<rparr>) (hs_player s)"
  and put_gain_rows [simp]: "hs_rows (put_gain a b d e x s) = hs_rows s"
  and put_gain_exp [simp]: "hs_exp (put_gain a b d e x s) = x"
  and put_gain_rows_update [simp]: "(put_gain a b d e x s)\<lparr>hs_rows := r\<rparr> = put_gain a b d e x (s\<lparr>hs_rows := r\<rparr>)"
  and put_gain_on_bar [simp]: "on_bar f (put_gain a b d e x s) = put_gain a b d e x (on_bar f s)"
  and put_gain_twice [simp]: "put_gain a b d e x (put_gain a' b' d' e' x' s) = put_gain a b d e x s"
  and put_gain_shown [simp]: "send_hotbar_slot_update v i (put_gain a b d e x s) = send_hotbar_slot_update v i s"
  by (cases "hs_player s"; simp add: put_gain_def on_bar_def send_hotbar_slot_update_def)+

lemma put_gain_class_bar: "equip_on_class_bar v k act command i recast (put_gain a b d e x s)
     = apfst (put_gain a b d e x) (equip_on_class_bar v k act command i recast s)"
  by (simp add: equip_on_class_bar_def Let_def)

lemma put_gain_job_bar: "equip_on_job_bar v k j command recast (put_gain a b d e x s)
     = put_gain a b d e x (equip_on_job_bar v k j command recast s)"
  by (simp add: equip_on_job_bar_def Let_def)

lemma put_gain_bar_of: "(case hs_player (put_gain a b d e x s) of Some c \<Rightarrow> ch_hotbar c | None \<Rightarrow> [])
     = (case hs_player s of Some c \<Rightarrow> ch_hotbar c | None \<Rightarrow> [])"
  by (simp split: option.split)

lemma put_gain_unlocked: "equip_unlocked v k cl act command (put_gain a b d e x s)
     = apfst (put_gain a b d e x) (equip_unlocked v k cl act command s)"
  unfolding equip_unlocked_def put_gain_bar_of
  by (simp add: put_gain_class_bar put_gain_job_bar Let_def case_prod_beta split: option.split)

lemma for_each_commute:
  assumes "\<And>x s. f x (g s) = apfst g (f x s)"
  shows "for_each f xs (g s) = apfst g (for_each f xs s)"
  by (induction xs arbitrary: s) (simp_all add: assms case_prod_beta)

lemma put_gain_at_level: "equip_abilities_at_level v k cl l (put_gain a b d e x s)
     = apfst (put_gain a b d e x) (equip_abilities_at_level v k cl l s)"
  by (cases "hs_player s")
     (simp_all add: equip_abilities_at_level_def for_each_commute put_gain_unlocked)

lemma put_gain_levels: "for_each (equip_abilities_at_level v k cl) ls (put_gain a b d e x s)
     = apfst (put_gain a b d e x) (for_each (equip_abilities_at_level v k cl) ls s)"
  by (rule for_each_commute) (rule put_gain_at_level)

lemma for_each_append: "fst (for_each f (xs @ ys) s) = fst (for_each f ys (fst (for_each f xs s)))"
  by (induction xs arbitrary: s) (simp_all add: case_prod_beta)

text \<open>Equipping touches the bar of the character and the rows of the bar, nothing else.\<close>

definition bar_only :: "hotbar_state \<Rightarrow> hotbar_state \<Rightarrow> bool" where
  "bar_only s t \<longleftrightarrow> hs_exp t = hs_exp s
     \<and> map_option (\<lambda>c. c\<lparr>ch_hotbar := []\<rparr>) (hs_player t) = map_option (\<lambda>c. c\<lparr>ch_hotbar := []\<rparr>) (hs_player s)"

lemma bar_only_refl [simp]: "bar_only s s" by (simp add: bar_only_def)
lemma bar_only_trans: "bar_only s t \<Longrightarrow> bar_only t u \<Longrightarrow> bar_only s u" by (simp add: bar_only_def)
lemma bar_only_on_bar [simp]: "bar_only s (on_bar f t) = bar_only s t"
  by (cases "hs_player t") (simp_all add: bar_only_def on_bar_def)
lemma bar_only_rows [simp]: "bar_only s (t\<lparr>hs_rows := r\<rparr>) = bar_only s t" by (simp add: bar_only_def)

lemma bar_only_unlocked: "bar_only s (fst (equip_unlocked v k cl act command s))"
  by (simp add: equip_unlocked_def equip_on_class_bar_def equip_on_job_bar_def Let_def case_prod_beta split: option.split)

lemma bar_only_for_each: "(\<And>x s. bar_only s (fst (f x s))) \<Longrightarrow> bar_only s (fst (for_each f xs s))"
  by (induction xs arbitrary: s) (auto simp: case_prod_beta intro: bar_only_trans)

lemma bar_only_levels: "bar_only s (fst (for_each (equip_abilities_at_level v k cl) ls s))"
  by (intro bar_only_for_each)
     (simp add: equip_abilities_at_level_def bar_only_for_each bar_only_unlocked split: option.split)

section \<open>A gain in two parts\<close>

definition plain_gain :: "u8 \<Rightarrow> int \<Rightarrow> character \<Rightarrow> bool" where
  "plain_gain class_id most c \<longleftrightarrow> ch_rest_bonus c \<le> 0 \<and> unat class_id < length (ch_skill_point c)
     \<and> unat class_id < length (ch_skill_level c) \<and> 0 \<le> ch_skill_point c ! unat class_id
     \<and> ch_skill_point c ! unat class_id + most < 2 ^ 31"

text \<open>What a gain without a bonus reports and writes.\<close>

lemma gain_exp_plain:
  assumes "plain_gain cl x c" "0 < x"
    "level_up_if_threshold_crossed (max (ch_skill_level c ! unat cl) 1) (ch_skill_point c ! unat cl + x) = (l, sp, n)"
  shows "gain_exp cl x c = Some
    (\<lparr>xg_effective = x, xg_exp = sp, xg_level = l, xg_gained = n, xg_rested_before = ch_rest_bonus c,
      xg_rested_after = 0, xg_active = (ch_class c = uint cl)\<rparr>,
     c\<lparr>ch_rest_bonus := 0, ch_skill_point := (ch_skill_point c)[unat cl := sp],
       ch_skill_level := (if 0 < n then (ch_skill_level c)[unat cl := l] else ch_skill_level c),
       ch_level := (if 0 < n \<and> ch_class c = uint cl then l else ch_level c)\<rparr>)"
proof -
  have "consume_rested_xp x (ch_rest_bonus c) = (x, 0)" using assms(1)
    by (simp add: consume_rested_xp_def plain_gain_def)
  moreover have "max (i32_saturating_sum (ch_skill_point c ! unat cl) x) 0 = ch_skill_point c ! unat cl + x"
    using assms(1,2) by (simp add: i32_saturating_sum_def plain_gain_def)
  ultimately show ?thesis using assms(1,3) by (simp add: gain_exp_def plain_gain_def Let_def)
qed

text \<open>The handler as a write of the gain around the equips.\<close>

definition equip_gained :: "hotbar_env \<Rightarrow> u8 \<Rightarrow> int list \<Rightarrow> hotbar_state \<Rightarrow> hotbar_state" where
  "equip_gained v cl ls s = (case hv_catalog v of
     None \<Rightarrow> s | Some k \<Rightarrow> fst (for_each (equip_abilities_at_level v k cl) ls s))"

lemma equip_gained_laws:
  shows "equip_gained v cl ls (put_gain a b d e x s) = put_gain a b d e x (equip_gained v cl ls s)"
    and "equip_gained v cl (ls @ ms) s = equip_gained v cl ms (equip_gained v cl ls s)"
    and "equip_gained v cl [] s = s"
    and "bar_only s (equip_gained v cl ls s)"
  by (simp_all add: equip_gained_def put_gain_levels for_each_append bar_only_levels split: option.split)

lemma upto_split: "(l :: int) \<le> l1 \<Longrightarrow> l1 \<le> l2 \<Longrightarrow> [l + 1 .. l1] @ [l1 + 1 .. l2] = [l + 1 .. l2]"
  by (cases "l = l1") (simp_all add: upto_split2 [of "l + 1" l1 l2])

lemma apply_add_exp_form:
  assumes "hs_player s = Some c" "plain_gain cl x c" "0 < x"
    "level_up_if_threshold_crossed (max (ch_skill_level c ! unat cl) 1) (ch_skill_point c ! unat cl + x) = (l, sp, n)"
    "n = l - max (ch_skill_level c ! unat cl) 1"
  shows "fst (apply_add_exp v ok cl x s) =
    put_gain 0 ((ch_skill_point c)[unat cl := sp])
      (if 0 < n then (ch_skill_level c)[unat cl := l] else ch_skill_level c)
      (if 0 < n \<and> ch_class c = uint cl then l else ch_level c)
      (persist_gain ok cl \<lparr>xg_effective = x, xg_exp = sp, xg_level = l, xg_gained = n,
         xg_rested_before = ch_rest_bonus c, xg_rested_after = 0, xg_active = (ch_class c = uint cl)\<rparr> (hs_exp s))
      (equip_gained v cl [max (ch_skill_level c ! unat cl) 1 + 1 .. l] s)"
proof -
  define g where "g = \<lparr>xg_effective = x, xg_exp = sp, xg_level = l, xg_gained = n, xg_rested_before = ch_rest_bonus c,
      xg_rested_after = 0, xg_active = (ch_class c = uint cl)\<rparr>"
  define levels where "levels = (if 0 < n then (ch_skill_level c)[unat cl := l] else ch_skill_level c)"
  define level where "level = (if 0 < n \<and> ch_class c = uint cl then l else ch_level c)"
  define c1 where "c1 = c\<lparr>ch_rest_bonus := 0, ch_skill_point := (ch_skill_point c)[unat cl := sp],
       ch_skill_level := levels, ch_level := level\<rparr>"
  have gain: "gain_exp cl x c = Some (g, c1)" unfolding g_def c1_def levels_def level_def by (rule gain_exp_plain [OF assms(2-4)])
  have g: "xg_level g = l" "xg_gained g = n" by (simp_all add: g_def)
  have put: "s\<lparr>hs_player := Some c1, hs_exp := d\<rparr> = put_gain 0 ((ch_skill_point c)[unat cl := sp]) levels level d s" for d
    by (simp add: put_gain_def assms(1) c1_def)
  have "[l - n + 1 .. l] = [max (ch_skill_level c ! unat cl) 1 + 1 .. l]" using assms(5) by simp
  moreover have "[max (ch_skill_level c ! unat cl) 1 + 1 .. l] = []" if "\<not> 0 < n"
    using assms(5) that by (intro upto_empty) linarith
  ultimately have "fst (apply_add_exp v ok cl x s) = put_gain 0 ((ch_skill_point c)[unat cl := sp]) levels level
      (persist_gain ok cl g (hs_exp s)) (equip_gained v cl [max (ch_skill_level c ! unat cl) 1 + 1 .. l] s)"
    using assms(3)
    by (cases "0 < n")
       (simp_all add: apply_add_exp_def assms(1) gain g put equip_gained_laws(3) case_prod_beta
         equip_gained_def put_gain_levels split: option.split)
  then show ?thesis unfolding g_def levels_def level_def .
qed

lemma persist_gain_twice:
  assumes "0 \<le> n1" "0 \<le> n2" "n2 = 0 \<Longrightarrow> l2 = l1"
  shows "persist_gain ok cl \<lparr>xg_effective = y, xg_exp = sp2, xg_level = l2, xg_gained = n2,
      xg_rested_before = 0, xg_rested_after = 0, xg_active = act\<rparr>
    (persist_gain ok cl \<lparr>xg_effective = x, xg_exp = sp1, xg_level = l1, xg_gained = n1,
      xg_rested_before = r, xg_rested_after = 0, xg_active = act\<rparr> d)
    = persist_gain ok cl \<lparr>xg_effective = x + y, xg_exp = sp2, xg_level = l2, xg_gained = n1 + n2,
      xg_rested_before = r, xg_rested_after = 0, xg_active = act\<rparr> d"
proof -
  consider "n1 = 0" "n2 = 0" | "n1 = 0" "0 < n2" | "0 < n1" "n2 = 0" | "0 < n1" "0 < n2" using assms by linarith
  then show ?thesis
    by cases (use assms in \<open>simp_all add: persist_gain_def db_set_exp_def db_set_level_def db_save_current_class_def
      db_set_rest_def Let_def add_pos_pos\<close>)
qed

lemma bar_only_player:
  assumes "bar_only s t" "hs_player s = Some c"
  obtains b where "hs_player t = Some (c\<lparr>ch_hotbar := b\<rparr>)"
proof -
  obtain c' where c': "hs_player t = Some c'" and eq: "c'\<lparr>ch_hotbar := []\<rparr> = c\<lparr>ch_hotbar := []\<rparr>"
    using assms by (auto simp: bar_only_def)
  from arg_cong [OF eq, of "\<lambda>d. d\<lparr>ch_hotbar := ch_hotbar c'\<rparr>"]
  have "c' = c\<lparr>ch_hotbar := ch_hotbar c'\<rparr>" by simp
  then show thesis using that c' by metis
qed


text \<open>A level-one gladiator gains 1270 points, in two parts: a level each, and 0 points left.\<close>

definition demo_gain_state :: hotbar_state where
  "demo_gain_state = demo_bar_state\<lparr>hs_player := Some ((character_new 7)\<lparr>ch_class := 3\<rparr>)\<rparr>"

definition demo_exp_calls :: exp_calls where
  "demo_exp_calls = \<lparr>xc_exp = True, xc_level = True, xc_class = True, xc_rest = True\<rparr>"

lemma demo_gain_level:
  "map_option (\<lambda>c. (ch_level c, ch_skill_point c ! 3))
     (hs_player (fst (apply_add_exp demo_hotbar_env demo_exp_calls 3 1270 demo_gain_state))) = Some (3, 0)"
proof -
  have "level_up_if_threshold_crossed 1 1270 = (3, 0, 2)" by code_simp
  moreover have "[2..3] = [2 :: int, 3]" by (simp add: upto_rec1)
  ultimately show ?thesis
    by (simp add: apply_add_exp_def demo_gain_state_def demo_hotbar_env_def gain_exp_def consume_rested_xp_def
      i32_saturating_sum_def character_new_def)
qed


end
