(* ===== verification/CombatLaws.thy ===== *)
theory CombatLaws
  imports CombatTick ProgressLaws StatLaws StatusLaws
begin

text \<open>
  Laws of the battle dispatcher and of the zone tick. A step keeps a property of worlds when every
  world it returns has it. Any property of characters that rests on the pools and that the pool
  writes keep is kept by every handler (locale \<open>char_invariant\<close>); the bounds of the pools are one.
\<close>

section \<open>Steps that keep a property\<close>

definition keeps :: "(combat_world \<Rightarrow> bool) \<Rightarrow> cstep \<Rightarrow> bool" where
  "keeps I f \<longleftrightarrow> (\<forall>w w1 out. I w \<longrightarrow> f w = Ok (w1, out) \<longrightarrow> I w1)"

named_theorems keeps_intros

lemma keepsI: "(\<And>w w1 out. I w \<Longrightarrow> f w = Ok (w1, out) \<Longrightarrow> I w1) \<Longrightarrow> keeps I f"
  by (auto simp: keeps_def)

lemma keepsD: "keeps I f \<Longrightarrow> f w = Ok (w1, out) \<Longrightarrow> I w \<Longrightarrow> I w1"
  by (auto simp: keeps_def)

lemma keeps_basic [keeps_intros]:
  "keeps I c_skip" "keeps I (c_say out)" "keeps I (c_quickly a)" "keeps I (\<lambda>w. Ok (w, f w))"
  by (auto simp: keeps_def c_skip_def c_say_def c_quickly_def)

lemma c_seqE:
  assumes "c_seq f g w = Ok (w2, out)"
  obtains w1 o1 o2 where "f w = Ok (w1, o1)" "g w1 = Ok (w2, o2)" "out = o1 @ o2"
  using assms by (auto simp: c_seq_def outcome_simps)

lemma keeps_seq [keeps_intros]: "keeps I f \<Longrightarrow> keeps I g \<Longrightarrow> keeps I (c_seq f g)"
  by (rule keepsI, erule c_seqE) (drule (1) keepsD, assumption, drule (2) keepsD)

lemma keeps_when [keeps_intros]: "keeps I f \<Longrightarrow> keeps I (c_when Q f)"
  by (auto simp: keeps_def c_when_def)

lemma keeps_upd [keeps_intros]: "(\<And>w. I w \<Longrightarrow> I (f w)) \<Longrightarrow> keeps I (c_upd f)"
  by (auto simp: keeps_def c_upd_def)

lemma keeps_all: "(\<And>f. f \<in> set fs \<Longrightarrow> keeps I f) \<Longrightarrow> keeps I (c_all fs)"
  by (induction fs) (auto intro: keeps_intros)

lemma keeps_local: "(\<And>v. keeps I (f v)) \<Longrightarrow> keeps I (\<lambda>w. f w w)"
  by (auto simp: keeps_def)

lemma keeps_Nil [keeps_intros]: "keeps I (c_all [])" by (simp add: keeps_intros)

lemma keeps_Cons [keeps_intros]: "keeps I f \<Longrightarrow> keeps I (c_all fs) \<Longrightarrow> keeps I (c_all (f # fs))"
  by (simp add: keeps_intros)

declare c_all.simps [simp del]

lemma c_all_append: "c_all (fs @ gs) w = c_seq (c_all fs) (c_all gs) w"
proof (induction fs arbitrary: w)
  case Nil
  show ?case by (cases "c_all gs w") (auto simp: c_seq_def c_skip_def c_all.simps)
next
  case (Cons f fs)
  have assoc: "bind_outcome (bind_outcome x g) h = bind_outcome x (\<lambda>y. bind_outcome (g y) h)"
    for x :: "(combat_world \<times> combat_out list) result" and g h :: "combat_world \<times> combat_out list \<Rightarrow> (combat_world \<times> combat_out list) result"
    by (cases x) simp_all
  show ?case
    by (cases "f w") (simp_all add: c_seq_def Cons assoc split_def c_all.simps)
qed

section \<open>Worlds and characters\<close>

definition all_chars :: "(character \<Rightarrow> bool) \<Rightarrow> combat_world \<Rightarrow> bool" where
  "all_chars P w \<longleftrightarrow> (\<forall>(a, p) \<in> set (cw_actors w). P (cb_char p))"

lemma all_chars_fields [simp]:
  "all_chars P (w\<lparr>cw_zone := z\<rparr>) = all_chars P w" "all_chars P (w\<lparr>cw_rows := r\<rparr>) = all_chars P w"
  "all_chars P (w\<lparr>cw_exp := x\<rparr>) = all_chars P w" "all_chars P (w\<lparr>cw_gc := g\<rparr>) = all_chars P w"
  "all_chars P (w\<lparr>cw_saved_status := s\<rparr>) = all_chars P w" "all_chars P (w\<lparr>cw_rng := n\<rparr>) = all_chars P w"
  by (simp_all add: all_chars_def)

lemma all_chars_at: "all_chars P w \<Longrightarrow> char_of a w = Some c \<Longrightarrow> P c"
  by (auto simp: all_chars_def char_of_def combatant_of_def dest: map_of_SomeD)

lemma all_chars_combatant: "all_chars P w \<Longrightarrow> combatant_of a w = Some p \<Longrightarrow> P (cb_char p)"
  by (auto simp: all_chars_def combatant_of_def dest: map_of_SomeD)

lemma all_chars_upd_combatant:
  "all_chars P w \<Longrightarrow> (\<And>p. P (cb_char p) \<Longrightarrow> P (cb_char (f p))) \<Longrightarrow> all_chars P (upd_combatant a f w)"
  by (auto simp: all_chars_def upd_combatant_def)

lemma all_chars_upd: "all_chars P w \<Longrightarrow> (\<And>c. P c \<Longrightarrow> P (f c)) \<Longrightarrow> all_chars P (upd_char a f w)"
  by (simp add: upd_char_def all_chars_upd_combatant)

lemma keeps_c_char:
  assumes "\<And>c c1. f c = Ok c1 \<Longrightarrow> P c \<Longrightarrow> P c1"
  shows "keeps (all_chars P) (c_char a f)"
  by (rule keepsI) (auto simp: c_char_def outcome_simps split: option.splits
    intro!: all_chars_upd intro: assms all_chars_at)

text \<open>What the scripts behind signals and quest kill hooks must keep.\<close>

definition scripts_keep :: "(combat_world \<Rightarrow> bool) \<Rightarrow> combat_env \<Rightarrow> bool" where
  "scripts_keep I e \<longleftrightarrow> (\<forall>w a s. I w \<longrightarrow> I (ce_signal e a s w)) \<and> (\<forall>w a k. I w \<longrightarrow> I (ce_on_kill e a k w))"

text \<open>A gain writes four fields of the character.\<close>

lemma gain_form:
  assumes g: "gain_exp k x c = Some (g, d)"
  shows "\<exists>r sp sl l. d = c\<lparr>ch_rest_bonus := r, ch_skill_point := sp, ch_skill_level := sl, ch_level := l\<rparr>"
proof (cases "length (ch_skill_point c) \<le> unat k")
  case False
  obtain eff rested where 1: "consume_rested_xp x (ch_rest_bonus c) = (eff, rested)" by force
  obtain lvl sp n where 2: "level_up_if_threshold_crossed
      (max (if unat k < length (ch_skill_level c) then ch_skill_level c ! unat k else 1) 1)
      (max (i32_saturating_sum (ch_skill_point c ! unat k) eff) 0) = (lvl, sp, n)" by (metis prod_cases3)
  let ?c1 = "c\<lparr>ch_rest_bonus := rested, ch_skill_point := (ch_skill_point c)[unat k := sp]\<rparr>"
  let ?c2 = "?c1\<lparr>ch_skill_level := (ch_skill_level ?c1)[unat k := lvl], ch_level := (if ch_class c = uint k then lvl else ch_level ?c1)\<rparr>"
  have "d = (if 0 < n then ?c2 else ?c1)"
    using g unfolding gain_exp_def Let_def 1 prod.case 2 by (simp only: False if_False option.inject prod.inject)
  moreover have "?c1 = c\<lparr>ch_rest_bonus := rested, ch_skill_point := (ch_skill_point c)[unat k := sp],
      ch_skill_level := ch_skill_level c, ch_level := ch_level c\<rparr>" by simp
  ultimately show ?thesis by (cases "0 < n"; simp only: if_True if_False; blast)
qed (use g in \<open>simp add: gain_exp_def\<close>)
section \<open>What every handler keeps\<close>

locale char_invariant =
  fixes P :: "character \<Rightarrow> bool"
  assumes pools_only: "pools c = pools d \<Longrightarrow> ch_tp c = ch_tp d \<Longrightarrow> P c = P d"
    and hp_write: "set_hp h c = Ok c1 \<Longrightarrow> P c \<Longrightarrow> P c1"
    and mp_write: "set_mp m c = Ok c1 \<Longrightarrow> P c \<Longrightarrow> P c1"
    and tp_write: "P c \<Longrightarrow> P (add_tp n c)"
    and stats_write: "calculate_base_stats c = Ok c1 \<Longrightarrow> P c \<Longrightarrow> P c1"
    and fall: "P c \<Longrightarrow> 0 < ch_hp c \<Longrightarrow> P (c\<lparr>ch_hp := 0\<rparr>)"
begin

lemma other_fields [simp]:
  "P (c\<lparr>ch_mods := a1\<rparr>) = P c" "P (c\<lparr>ch_status := a2\<rparr>) = P c" "P (c\<lparr>ch_ai := a3\<rparr>) = P c"
  "P (c\<lparr>ch_hate := a4\<rparr>) = P c" "P (c\<lparr>ch_main_state := a5\<rparr>) = P c" "P (c\<lparr>ch_new_main_state := a6\<rparr>) = P c"
  "P (c\<lparr>ch_time_of_death_utc := a7\<rparr>) = P c" "P (c\<lparr>ch_hotbar := a8\<rparr>) = P c" "P (c\<lparr>ch_rest_bonus := a9\<rparr>) = P c"
  "P (c\<lparr>ch_skill_level := b1\<rparr>) = P c" "P (c\<lparr>ch_skill_point := b2\<rparr>) = P c" "P (c\<lparr>ch_level := b3\<rparr>) = P c"
  by (rule pools_only; simp add: pools_def)+

lemma add_hp_keeps: "add_hp d c = Ok c1 \<Longrightarrow> P c \<Longrightarrow> P c1"
  unfolding add_hp_def by (rule hp_write)

lemma add_mp_keeps: "add_mp d c = Ok c1 \<Longrightarrow> P c \<Longrightarrow> P c1"
  unfolding add_mp_def by (rule mp_write)

lemma recalc_keeps: "recalc_character p items eq c = Ok c1 \<Longrightarrow> P c \<Longrightarrow> P c1"
  by (auto simp: recalc_character_def recalculate_stats_def pipeline_is split: if_splits elim!: stats_write)

lemma take_damage_keeps: "take_damage ex b r c = Ok c1 \<Longrightarrow> P c \<Longrightarrow> P c1"
  by (auto simp: take_damage_def outcome_simps Let_def tp_write elim!: add_hp_keeps split: option.splits if_splits
      intro: tp_write)

lemma heal_or_damage_keeps: "heal_or_damage e b f c = Ok c1 \<Longrightarrow> P c \<Longrightarrow> P c1"
  by (auto simp: heal_or_damage_def outcome_simps Let_def elim!: take_damage_keeps elim: add_hp_keeps split: option.splits)

lemma pay_costs_keeps: "pay_costs k n c = Ok c1 \<Longrightarrow> P c \<Longrightarrow> P c1"
  by (auto simp: pay_costs_def outcome_simps Let_def intro!: tp_write elim: add_mp_keeps split: if_splits)

lemma revive_keeps: "revive c = Ok c1 \<Longrightarrow> P c \<Longrightarrow> P c1"
  by (auto simp: revive_def outcome_simps elim!: mp_write hp_write)

lemma mark_dead_keeps: "P c \<Longrightarrow> P (fst (mark_dead now c))"
proof -
  assume c: "P c"
  have "P (c\<lparr>ch_hp := if 0 < ch_hp c then 0 else ch_hp c\<rparr>)"
    using c fall [OF c] by (cases "0 < ch_hp c") simp_all
  then show ?thesis using pools_only [of "fst (mark_dead now c)" "c\<lparr>ch_hp := if 0 < ch_hp c then 0 else ch_hp c\<rparr>"]
    by (simp add: mark_dead_def pools_def case_prod_beta)
qed

lemma forget_dead_keeps: "P (forget_dead dead c) = P c"
  by (rule pools_only) (simp_all add: forget_dead_def Let_def pools_def)

lemma keeps_pools [keeps_intros]:
  "keeps (all_chars P) (apply_hp_delta a d)" "keeps (all_chars P) (apply_mp_delta a d)" "keeps (all_chars P) (apply_tp_delta a d)"
  unfolding apply_hp_delta_def apply_mp_delta_def apply_tp_delta_def
  by (auto intro!: keeps_c_char elim: add_hp_keeps add_mp_keeps simp: tp_write)

lemma keeps_tick_pool [keeps_intros]: "keeps (all_chars P) f \<Longrightarrow> keeps (all_chars P) (tick_pool a p f)"
  by (auto simp: keeps_def tick_pool_def outcome_simps split: if_splits)

lemma keeps_recalc [keeps_intros]: "keeps (all_chars P) (apply_recalc_stats e items a)"
  by (rule keepsI) (auto simp: apply_recalc_stats_def outcome_simps Let_def split: option.splits
    intro!: all_chars_upd elim!: recalc_keeps intro: all_chars_at)

lemma keeps_save [keeps_intros]: "keeps (all_chars P) (save_status e a)"
  by (rule keepsI) (auto simp: save_status_def split: option.splits if_splits)

lemma keeps_status_event [keeps_intros]: "keeps (all_chars P) (dispatch_status_event e items ev)"
  by (cases ev) (simp_all add: keeps_intros)

lemma keeps_status_events [keeps_intros]: "keeps (all_chars P) (dispatch_status_events e items evs)"
  unfolding dispatch_status_events_def by (rule keeps_all) (auto intro: keeps_intros)

lemma keeps_c_status [keeps_intros]: "keeps (all_chars P) (c_status e items a f)"
proof (rule keepsI)
  fix w w1 out
  assume w: "all_chars P w" and run: "c_status e items a f w = Ok (w1, out)"
  show "all_chars P w1"
  proof (cases "char_of a w")
    case (Some c)
    obtain st evs where f: "f (ch_status c) = (st, evs)" by force
    have "all_chars P (upd_char a (\<lambda>c. c\<lparr>ch_status := st\<rparr>) w)" using w by (intro all_chars_upd) simp_all
    then show ?thesis using keepsD [OF keeps_status_events] run Some f by (auto simp: c_status_def)
  qed (use w run in \<open>simp add: c_status_def\<close>)
qed

lemma keeps_trio [keeps_intros]: "keeps (all_chars P) (emit_change_state_trio a st)"
  by (rule keepsI) (auto simp: emit_change_state_trio_def split: option.splits if_splits intro!: all_chars_upd)

lemma keeps_signal [keeps_intros]: "scripts_keep (all_chars P) e \<Longrightarrow> keeps (all_chars P) (fire_content_signal e a s)"
  by (rule keepsI) (auto simp: fire_content_signal_def scripts_keep_def split: option.splits if_splits)

lemma keeps_content: "scripts_keep (all_chars P) e \<Longrightarrow> keeps (all_chars P) (content_complete e a ss)"
proof (induction ss)
  case (Cons s ss)
  show ?case
    by (rule keepsI)
       (use Cons.prems in \<open>auto simp: scripts_keep_def split: option.splits if_splits prod.splits
         dest: keepsD [OF Cons.IH [OF Cons.prems]]\<close>)
qed (auto intro: keepsI)

lemma keeps_complete [keeps_intros]: "scripts_keep (all_chars P) e \<Longrightarrow> keeps (all_chars P) (check_content_battle_complete e a)"
  by (rule keepsI) (auto simp: check_content_battle_complete_def intro: keepsD [OF keeps_content])

lemma zone_forgets_keeps: "all_chars P w \<Longrightarrow> all_chars P (zone_forgets z a w)"
  by (auto simp: all_chars_def zone_forgets_def forget_dead_keeps)

lemma keeps_die [keeps_intros]: "scripts_keep (all_chars P) e \<Longrightarrow> keeps (all_chars P) (apply_die e a)"
proof (rule keepsI)
  fix w w1 out
  assume e: "scripts_keep (all_chars P) e" and w: "all_chars P w" and run: "apply_die e a w = Ok (w1, out)"
  show "all_chars P w1"
  proof (cases "combatant_of a w")
    case (Some p)
    obtain c evs where dead: "mark_dead (ce_now e) (cb_char p) = (c, evs)" by force
    have "P c" using mark_dead_keeps [OF all_chars_combatant [OF w Some], of "ce_now e"] dead by simp
    then have start: "all_chars P (zone_forgets (h_zone_id (cb_handle p)) a (upd_char a (\<lambda>_. c) w))"
      using w by (intro zone_forgets_keeps all_chars_upd)
    let ?bnpc = "h_kind (cb_handle p) = TagBattleNpc"
    let ?fs = "[emit_change_state_trio a MAIN_STATE_DEAD, c_say (if ?bnpc then [CoHateType a HATE_TYPE_DEAD] else []),
      c_when (\<lambda>_. ce_lua e \<and> ce_db e) (dispatch_status_events e (ce_items e) evs),
      c_when (\<lambda>_. ?bnpc \<and> ce_lua e \<and> ce_db e) (check_content_battle_complete e a)]"
    have k: "keeps (all_chars P) (c_all ?fs)" by (intro keeps_intros e)
    show ?thesis
    proof (cases "ch_main_state (cb_char p) = MAIN_STATE_DEAD")
      case False
      then have "c_all ?fs (zone_forgets (h_zone_id (cb_handle p)) a (upd_char a (\<lambda>_. c) w)) = Ok (w1, out)"
        using run Some dead by (simp add: apply_die_def Let_def)
      then show ?thesis using keepsD [OF k _ start] by blast
    qed (use w run Some in \<open>simp add: apply_die_def\<close>)
  qed (use w run in \<open>simp add: apply_die_def\<close>)
qed

lemma keeps_revive [keeps_intros]: "keeps (all_chars P) (apply_revive a)"
proof (rule keepsI)
  fix w w1 out
  assume w: "all_chars P w" and run: "apply_revive a w = Ok (w1, out)"
  have "keeps (all_chars P) (c_seq (c_char a revive) (c_say [CoState a MAIN_STATE_PASSIVE]))"
    by (intro keeps_intros keeps_c_char) (elim revive_keeps)
  then show "all_chars P w1" using w run
    by (auto simp: apply_revive_def split: option.splits if_splits dest: keepsD)
qed

subsection \<open>Experience\<close>

lemma on_hotbar_keeps:
  assumes "\<And>s c. hs_player s = Some c \<Longrightarrow> P c \<Longrightarrow> (case hs_player (fst (f s)) of None \<Rightarrow> True | Some d \<Rightarrow> P d)"
    and w: "all_chars P w" and run: "on_hotbar a f w = Ok (w1, out)"
    and none: "\<And>s. hs_player s = None \<Longrightarrow> hs_player (fst (f s)) = None"
  shows "all_chars P w1"
proof -
  define s where "s = \<lparr>hs_player = char_of a w, hs_rows = cw_rows w, hs_exp = cw_exp w a\<rparr>"
  have "case hs_player (fst (f s)) of None \<Rightarrow> True | Some d \<Rightarrow> P d"
  proof (cases "char_of a w")
    case (Some c)
    then show ?thesis using assms(1) [of s c] all_chars_at [OF w Some] by (simp add: s_def)
  qed (use none [of s] in \<open>simp add: s_def\<close>)
  note player = this
  show ?thesis
  proof (cases "hs_player (fst (f s))")
    case None
    then show ?thesis using run w by (auto simp: on_hotbar_def s_def [symmetric] case_prod_beta Let_def)
  next
    case (Some d)
    have "all_chars P (upd_char a (\<lambda>_. d) w)" using player Some by (intro all_chars_upd w) simp
    then show ?thesis using run Some by (auto simp: on_hotbar_def s_def [symmetric] case_prod_beta Let_def)
  qed
qed

lemma gain_keeps: "gain_exp k x c = Some (g, d) \<Longrightarrow> P d = P c"
  using gain_form [of k x c g d] by (intro pools_only) (auto simp: pools_def)

lemma bar_only_keeps:
  assumes "bar_only s t" "hs_player s = Some c" "P c"
  shows "case hs_player t of None \<Rightarrow> True | Some d \<Rightarrow> P d"
proof -
  obtain b where "hs_player t = Some (c\<lparr>ch_hotbar := b\<rparr>)" using bar_only_player [OF assms(1,2)] by blast
  then show ?thesis using assms(3) by simp
qed

lemma add_exp_keeps:
  assumes "hs_player s = Some c" "P c"
  shows "case hs_player (fst (apply_add_exp v ok k x s)) of None \<Rightarrow> True | Some d \<Rightarrow> P d"
proof (cases "x = 0 \<or> gain_exp k x c = None")
  case False
  then obtain g d where g: "gain_exp k x c = Some (g, d)" by auto
  let ?s = "s\<lparr>hs_player := Some d, hs_exp := persist_gain ok k g (hs_exp s)\<rparr>"
  have "P d" using gain_keeps [OF g] assms by simp
  moreover have "bar_only ?s (fst (apply_add_exp v ok k x s))"
    using False g assms
    by (cases "hv_catalog v") (simp_all add: apply_add_exp_def bar_only_levels case_prod_beta Let_def)
  ultimately show ?thesis by (intro bar_only_keeps [of ?s _ d]) simp_all
qed (use assms in \<open>auto simp: apply_add_exp_def\<close>)

lemma keeps_add_exp [keeps_intros]: "keeps (all_chars P) (add_exp e a k x)"
proof (rule keepsI)
  fix w w1 out
  assume w: "all_chars P w" and run: "add_exp e a k x w = Ok (w1, out)"
  show "all_chars P w1"
    by (rule on_hotbar_keeps [OF add_exp_keeps w run [unfolded add_exp_def]]) (simp_all add: apply_add_exp_def)
qed

lemma keeps_award [keeps_intros]: "keeps (all_chars P) (award_battle_exp e a b l)"
proof (rule keepsI)
  fix w w1 out
  assume w: "all_chars P w" and run: "award_battle_exp e a b l w = Ok (w1, out)"
  have k: "keeps (all_chars P) (c_all [c_status e (lua_items e) a f, c_say rows, add_exp e a cl x])" for f rows cl x
    by (intro keeps_intros)
  show "all_chars P w1"
    using w run keepsD [OF k _ w] by (auto simp: award_battle_exp_def Let_def split: option.splits if_splits)
qed

lemma keeps_fell [keeps_intros]:
  assumes e: "scripts_keep (all_chars P) e"
  shows "keeps (all_chars P) (die_if_defender_fell e d b)"
proof (rule keepsI)
  fix w w1 out
  assume w: "all_chars P w" and run: "die_if_defender_fell e d b w = Ok (w1, out)"
  have kill: "all_chars P (ce_on_kill e x k v)" if "all_chars P v" for x k v using e that by (simp add: scripts_keep_def)
  have "keeps (all_chars P) (c_seq (apply_die e d) (c_when Q (case b of None \<Rightarrow> c_skip | Some x \<Rightarrow> c_all
      [c_upd (\<lambda>w. w\<lparr>cw_gc := award_grand_company_seals (ce_gc_up e) x lvl (cw_gc w)\<rparr>), award_battle_exp e x d lvl,
       c_when (\<lambda>_. ce_lua e) (c_upd (ce_on_kill e x k))])))" for Q lvl k
    by (cases b; simp; intro keeps_intros e; simp add: kill)
  then show "all_chars P w1"
    using w run by (auto simp: die_if_defender_fell_def Let_def split: option.splits if_splits dest: keepsD)
qed

subsection \<open>Attacks, actions and events\<close>

lemma keeps_auto_attack [keeps_intros]:
  assumes e: "scripts_keep (all_chars P) e"
  shows "keeps (all_chars P) (resolve_auto_attack e a d)"
proof (rule keepsI)
  fix w w1 out
  assume w: "all_chars P w" and run: "resolve_auto_attack e a d w = Ok (w1, out)"
  have hit: "keeps (all_chars P) (c_char x (\<lambda>c. take_damage ex y r (c\<lparr>ch_mods := m\<rparr>)))" for x ex y r m
    by (rule keeps_c_char) (auto elim: take_damage_keeps)
  have tp: "keeps (all_chars P) (c_char x (\<lambda>c. Ok (add_tp (f c) c)))" for x f
    by (rule keeps_c_char) (auto intro: tp_write)
  have sig: "keeps (all_chars P) (\<lambda>v. c_all [c_when Q (fire_content_signal e a s), c_when (R v) (fire_content_signal e a t)] v)" for Q R s t
    by (rule keeps_local [of _ "\<lambda>v. c_all [c_when Q (fire_content_signal e a s), c_when (R v) (fire_content_signal e a t)]"])
      (intro keeps_intros e)
  have "keeps (all_chars P) (c_all [c_upd (\<lambda>w. w\<lparr>cw_rng := n\<rparr>),
      c_char d (\<lambda>c. take_damage (ce_exp e) a r (c\<lparr>ch_mods := m\<rparr>)),
      c_when Q1 (c_char a (\<lambda>c. Ok (add_tp (swing_tp c) c))),
      (\<lambda>v. c_all [c_when Q2 (fire_content_signal e a ''playerAttack''), c_when (Q3 v) (fire_content_signal e a ''tpOver1000'')] v),
      c_when Q4 (fire_content_signal e d ''tpOver1000''), c_say rows, c_when Q1 (c_seq (c_quickly d) (c_quickly a)),
      die_if_defender_fell e d (Some a)])" for n r m Q1 Q2 Q3 Q4 rows
    by (intro keeps_intros hit tp sig e) simp
  note k = keepsD [OF this _ w]
  show "all_chars P w1"
  proof (cases "a = d \<or> char_of a w = None \<or> char_of d w = None")
    case False
    then obtain ac dc where "char_of a w = Some ac" "char_of d w = Some dc" "a \<noteq> d" by auto
    then show ?thesis using run w by (auto simp: resolve_auto_attack_def Let_def split: if_splits intro: k)
  qed (use w run in \<open>auto simp: resolve_auto_attack_def split: option.splits\<close>)
qed

lemma keeps_recast [keeps_intros]: "keeps (all_chars P) (start_recast_of e a k)"
  by (rule keepsI) (auto simp: start_recast_of_def Let_def split: option.splits prod.splits if_splits intro!: all_chars_upd)

lemma keeps_action [keeps_intros]:
  assumes e: "scripts_keep (all_chars P) e"
  shows "keeps (all_chars P) (resolve_action e a d k)"
proof (rule keepsI)
  fix w w1 out
  assume w: "all_chars P w" and run: "resolve_action e a d k w = Ok (w1, out)"
  have hit: "keeps (all_chars P) (c_char d (heal_or_damage e a f))" for f
    by (rule keeps_c_char) (elim heal_or_damage_keeps)
  have pay: "keeps (all_chars P) (c_char a (pay_costs k n))" for n
    by (rule keeps_c_char) (elim pay_costs_keeps)
  have "keeps (all_chars P) (c_all [c_upd (\<lambda>w. w\<lparr>cw_rng := n\<rparr>), c_char d (heal_or_damage e a f),
      c_when Q1 (c_seq (c_char a (pay_costs k m)) (start_recast_of e a k)),
      c_when Q2 (fire_content_signal e a ''weaponskillUsed''), c_say rows, c_when Q3 (c_quickly d), c_when Q4 (c_quickly a),
      die_if_defender_fell e d (Some a)])" for n f m Q1 Q2 Q3 Q4 rows
    by (intro keeps_intros hit pay e) simp
  note go = keepsD [OF this _ w]
  show "all_chars P w1"
  proof (cases "char_of a w = None \<or> char_of d w = None")
    case False
    then obtain ac dc where "char_of a w = Some ac" "char_of d w = Some dc" by auto
    then show ?thesis using run w by (auto simp: resolve_action_def Let_def split: if_splits intro: go)
  qed (use w run in \<open>auto simp: resolve_action_def split: option.splits\<close>)
qed

lemma keeps_on_hate [keeps_intros]: "keeps (all_chars P) (on_hate a f)"
  unfolding on_hate_def by (intro keeps_intros) (simp add: all_chars_upd)

lemma keeps_if_bnpc [keeps_intros]: "keeps (all_chars P) (if_bnpc a out)"
  unfolding if_bnpc_def by (intro keeps_intros)

lemma keeps_battle_event [keeps_intros]:
  "scripts_keep (all_chars P) e \<Longrightarrow> keeps (all_chars P) (dispatch_battle_event e ev)"
  by (cases ev) (simp_all add: keeps_intros)

lemma try_status_keeps:
  assumes w: "all_chars P w" and run: "apply_try_status e src a k d m t n w = Ok (b, w1, out)"
  shows "all_chars P w1"
proof (cases "char_of a w")
  case (Some c)
  obtain landed st evs where add: "add_status_effect (effect_new a k m t d n (unix_ms e)) src (unix_ms e)
      DEFAULT_GAIN_TEXT_ID (ch_status c) = (landed, st, evs)" by (metis prod_cases3)
  have "all_chars P (upd_char a (\<lambda>c. c\<lparr>ch_status := st\<rparr>) w)" by (intro all_chars_upd w) simp
  then show ?thesis using run Some add keepsD [OF keeps_status_events]
    by (auto simp: apply_try_status_def outcome_simps Let_def split: if_splits)
qed (use w run in \<open>simp add: apply_try_status_def\<close>)

subsection \<open>The zone tick\<close>

lemma keeps_dead [keeps_intros]: "keeps (all_chars P) (tick_dead t a)"
proof (rule keepsI)
  fix w w1 out
  assume w: "all_chars P w" and run: "tick_dead t a w = Ok (w1, out)"
  have gone: "all_chars P (w\<lparr>cw_actors := filter Q (cw_actors w), cw_zone := z\<rparr>)" for Q z
    using w by (auto simp: all_chars_def)
  have home: "all_chars P (upd_combatant a (\<lambda>p. p\<lparr>cb_position := cb_spawn p\<rparr>) w)"
    using w by (intro all_chars_upd_combatant) simp_all
  show "all_chars P w1"
    using run w gone keepsD [OF keeps_revive _ w] keepsD [OF keeps_revive _ home]
    by (auto simp: tick_dead_def apply_despawn_actor_def split: option.splits death_tick_action.splits)
qed

lemma tick_status_keeps: "P (cb_char p) \<Longrightarrow> P (cb_char (fst (tick_status now a p)))"
  by (simp add: tick_status_def case_prod_beta Let_def)

lemma tick_mind_keeps: "all_chars P w \<Longrightarrow> all_chars P (fst (tick_mind t now a w))"
  by (auto simp: tick_mind_def put_fighter_def case_prod_beta Let_def split: option.split intro!: all_chars_upd_combatant)

lemma keeps_tick_actor [keeps_intros]:
  assumes e: "scripts_keep (all_chars P) (te_combat t)"
  shows "keeps (all_chars P) (tick_actor t now inn a)"
proof (rule keepsI)
  fix w w1 out
  assume w: "all_chars P w" and run: "tick_actor t now inn a w = Ok (w1, out)"
  show "all_chars P w1"
  proof (cases "combatant_of a w")
    case (Some p)
    obtain p1 sev where st: "tick_status now a p = (p1, sev)" by force
    obtain v bev o1 where mind: "tick_mind t now a (upd_combatant a (\<lambda>_. p1) w) = (v, bev, o1)" by (metis prod_cases3)
    have "P (cb_char p1)" using tick_status_keeps [OF all_chars_combatant [OF w Some], of now a] st by simp
    then have "all_chars P (upd_combatant a (\<lambda>_. p1) w)" using w by (intro all_chars_upd_combatant) simp_all
    then have v: "all_chars P v" using tick_mind_keeps mind by (metis fst_conv)
    have house: "all_chars P (upd_combatant a (tick_housekeeping now inn) u)" if "all_chars P u" for u
      using that by (intro all_chars_upd_combatant) (simp_all add: tick_housekeeping_def put_housekeeping_def)
    have "keeps (all_chars P) (c_all (map (dispatch_battle_event (te_combat t)) bev))"
      by (rule keeps_all) (auto intro: keeps_intros e)
    then have k: "keeps (all_chars P) (c_all ([c_say o1, c_upd (upd_combatant a (tick_housekeeping now inn)), tick_dead t a,
        dispatch_status_events (te_combat t) (ce_items (te_combat t)) sev] @ map (dispatch_battle_event (te_combat t)) bev))"
      by (simp, intro keeps_intros house)
    show ?thesis using run Some st mind keepsD [OF k _ v] by (simp add: tick_actor_def)
  qed (use w run in \<open>simp add: tick_actor_def\<close>)
qed

lemma keeps_tick_zone:
  assumes e: "scripts_keep (all_chars P) (te_combat t)"
  shows "keeps (all_chars P) (tick_zone t now)"
proof -
  have sweep: "keeps (all_chars P) (\<lambda>w1. Ok (w1\<lparr>cw_zone := f w1\<rparr>, []))" for f
    by (rule keepsI) auto
  have "keeps (all_chars P) (\<lambda>w. c_all (map (tick_actor t now inn) as @ [\<lambda>w1. Ok (w1\<lparr>cw_zone := f w1\<rparr>, [])]) w)" for inn as f
    by (rule keeps_all) (auto intro: keeps_tick_actor [OF e] sweep)
  then show ?thesis unfolding tick_zone_def Let_def by (rule keeps_local)
qed

end

section \<open>The pools\<close>

definition pools_ok :: "character \<Rightarrow> bool" where
  "pools_ok c \<longleftrightarrow> 0 \<le> ch_hp c \<and> ch_hp c \<le> ch_max_hp c \<and> ch_max_hp c < 32768
     \<and> 0 \<le> ch_mp c \<and> ch_mp c \<le> ch_max_mp c \<and> ch_max_mp c < 32768 \<and> 0 \<le> ch_tp c \<and> ch_tp c \<le> MAX_TP"

lemma i16_wrap_less: "i16_wrap x < 32768"
  using signed_take_bit_int_less_exp [of 15 x] by (simp add: i16_wrap_def)

lemma hp_floor_cases: "hp_floor c = 0 \<or> hp_floor c = 1" by (simp add: hp_floor_def)

lemma set_hp_ok: "set_hp h c = Ok c1 \<Longrightarrow> pools_ok c \<Longrightarrow> pools_ok c1"
  using hp_floor_cases [of c] by (auto simp: set_hp_Ok pools_ok_def)

lemma set_mp_ok: "set_mp m c = Ok c1 \<Longrightarrow> pools_ok c \<Longrightarrow> pools_ok c1"
  by (auto simp: set_mp_Ok pools_ok_def)

lemma set_max_hp_ok: "set_hp h (set_max_hp n c) = Ok d \<Longrightarrow> pools_ok c \<Longrightarrow> pools_ok d"
proof -
  assume run: "set_hp h (set_max_hp n c) = Ok d" and c: "pools_ok c"
  define m where "m = i16_wrap (max n 0)"
  have m: "m < 32768" by (simp add: m_def i16_wrap_less)
  have "hp_floor c \<le> m" and d: "d = (set_max_hp n c)\<lparr>ch_hp := max (hp_floor c) (min m h)\<rparr>"
    using run by (simp_all add: set_hp_Ok m_def)
  then show ?thesis using c m hp_floor_cases [of c]
    by (auto simp: pools_ok_def set_max_hp_def Let_def m_def [symmetric])
qed

lemma set_max_mp_ok: "set_mp h (set_max_mp n c) = Ok d \<Longrightarrow> pools_ok c \<Longrightarrow> pools_ok d"
proof -
  assume run: "set_mp h (set_max_mp n c) = Ok d" and c: "pools_ok c"
  define m where "m = i16_wrap (max n 0)"
  have m: "m < 32768" by (simp add: m_def i16_wrap_less)
  have "0 \<le> m" and d: "d = (set_max_mp n c)\<lparr>ch_mp := max 0 (min m h)\<rparr>"
    using run by (simp_all add: set_mp_Ok m_def set_max_mp_def Let_def)
  then show ?thesis using c m by (auto simp: pools_ok_def set_max_mp_def Let_def m_def [symmetric])
qed

lemma base_stats_ok: "calculate_base_stats c = Ok c1 \<Longrightarrow> pools_ok c \<Longrightarrow> pools_ok c1"
proof -
  assume run: "calculate_base_stats c = Ok c1" and c: "pools_ok c"
  have seed: "pools_ok (seed_hit_count c2) = pools_ok c2" for c2 by (simp add: pools_ok_def seed_hit_count_def)
  show "pools_ok c1"
    using run c
    by (auto simp: calculate_base_stats_def Let_def outcome_simps seed split: if_splits
      elim!: set_max_mp_ok set_max_hp_ok)
qed

interpretation pool: char_invariant pools_ok
proof
  show "pools_ok c = pools_ok d" if "pools c = pools d" "ch_tp c = ch_tp d" for c d
    using that by (simp add: pools_ok_def pools_def)
  show "pools_ok (add_tp n c)" if "pools_ok c" for n c
    using that by (auto simp: pools_ok_def add_tp_def tp_floor_def MAX_TP_def)
  show "pools_ok (c\<lparr>ch_hp := 0\<rparr>)" if "pools_ok c" "0 < ch_hp c" for c
    using that by (simp add: pools_ok_def)
qed (fact set_hp_ok set_mp_ok base_stats_ok)+

text \<open>What the server does to the actors of a zone: a tick, an event, or a status put on an actor.\<close>

inductive play :: "tick_env \<Rightarrow> combat_world \<Rightarrow> combat_world \<Rightarrow> bool" for t where
  tick: "tick_zone t now w = Ok (w1, out) \<Longrightarrow> play t w w1"
| battle: "dispatch_battle_event (te_combat t) ev w = Ok (w1, out) \<Longrightarrow> play t w w1"
| status: "dispatch_status_event (te_combat t) items sev w = Ok (w1, out) \<Longrightarrow> play t w w1"
| put: "apply_try_status (te_combat t) src a k d m n l w = Ok (b, w1, out) \<Longrightarrow> play t w w1"

text \<open>
  C30: whatever the server does to the actors of a zone, the hit and magic points of every actor stay
  between zero and their maximum, and the tactical points between zero and 3000, as long as the
  scripts behind signals and quest hooks keep them so.
\<close>

theorem pools_kept:
  assumes "(play t)\<^sup>*\<^sup>* w w1" and "all_chars pools_ok w" and "scripts_keep (all_chars pools_ok) (te_combat t)"
  shows "all_chars pools_ok w1"
  using assms(1,2)
proof (induction rule: rtranclp_induct)
  case (step v u)
  from step(2) show ?case
  proof cases
    case (tick now out)
    then show ?thesis using keepsD [OF pool.keeps_tick_zone [OF assms(3)]] step by blast
  next
    case (battle ev out)
    then show ?thesis using keepsD [OF pool.keeps_battle_event [OF assms(3)]] step by blast
  next
    case (status items sev out)
    then show ?thesis using keepsD [OF pool.keeps_status_event] step by blast
  next
    case (put src a k d m n l b out)
    then show ?thesis using pool.try_status_keeps step by blast
  qed
qed

text \<open>A character with 30 of 100 hit points in an otherwise empty zone, and scripts that do nothing.\<close>

definition demo_combatant :: "character \<Rightarrow> combatant" where
  "demo_combatant c = \<lparr>cb_handle = h_new 7 TagPlayer 200 9, cb_char = c, cb_position = \<lparr>v_x = 0, v_y = 0, v_z = 0\<rparr>,
     cb_rotation = 0, cb_spawn = \<lparr>v_x = 0, v_y = 0, v_z = 0\<rparr>, cb_respawn_disabled = False, cb_mount_state = 0,
     cb_rental_expire_time = 0, cb_rental_min_left = 0, cb_last_rest_accrual_utc = 0\<rparr>"

definition demo_combat_world :: "character \<Rightarrow> combat_world" where
  "demo_combat_world c = \<lparr>cw_actors = [(7, demo_combatant c)], cw_sessions = [],
     cw_zone = z_new 200 [] 1 [] 0 0 0 False False False False False, cw_rows = [], cw_exp = (\<lambda>_. demo_exp_db),
     cw_gc = \<lparr>gw_players = (\<lambda>_. None), gw_stacks = (\<lambda>_. None), gw_db_current = (\<lambda>_. 0), gw_db_rank = (\<lambda>_. 0)\<rparr>,
     cw_saved_status = (\<lambda>_. []), cw_rng = fixed_rng [0]\<rparr>"

definition demo_combat_env :: combat_env where
  "demo_combat_env = \<lparr>ce_lua = True, ce_db = True, ce_exp = (\<lambda>x. x), ce_items = (\<lambda>_. None), ce_equipment = (\<lambda>_ _. []),
     ce_catalog = \<lparr>hk_unlocked = (\<lambda>_ _. []), hk_max_recast = (\<lambda>_. None)\<rparr>, ce_client = (\<lambda>_. True), ce_now = 1000,
     ce_hotbar_up = (\<lambda>_ _. True), ce_exp_calls = demo_exp_calls, ce_status_up = (\<lambda>_. True), ce_gc_up = (\<lambda>_. True),
     ce_signal = (\<lambda>_ _ w. w), ce_on_kill = (\<lambda>_ _ w. w)\<rparr>"

definition demo_tick_env :: tick_env where
  "demo_tick_env = \<lparr>te_combat = demo_combat_env, te_atan2 = (\<lambda>_ _. 0), te_pa_keys = [], te_ca_names = []\<rparr>"

definition demo_hurt :: character where
  "demo_hurt = (character_new 7)\<lparr>ch_hp := 30, ch_max_hp := 100\<rparr>"

lemma mods_new [simp]: "ch_mods (character_new a) = mod_new" "mod_get k mod_new = 0"
  by (simp_all add: character_new_def mod_get_def mod_new_def)

theorem pools_kept_witness:
  "\<exists>w1 out. dispatch_status_event demo_combat_env Map.empty (StHpTick 7 (- 50)) (demo_combat_world demo_hurt) = Ok (w1, out)
     \<and> map_option ch_hp (char_of 7 w1) = Some 0 \<and> all_chars pools_ok w1"
proof -
  have floor: "\<not> f64_le (f64_lit 1 1) 0" by code_simp
  have wrap: "i32_wrap (- 20) = - 20" by (simp add: i32_wrap_def)
  obtain w1 out where run: "dispatch_status_event demo_combat_env Map.empty (StHpTick 7 (- 50)) (demo_combat_world demo_hurt) = Ok (w1, out)"
    and hp: "map_option ch_hp (char_of 7 w1) = Some 0"
    by (simp add: tick_pool_def apply_hp_delta_def c_char_def char_of_def combatant_of_def demo_combat_world_def
        demo_combatant_def add_hp_def set_hp_def hp_floor_def clamp_int_def demo_hurt_def floor wrap upd_char_def upd_combatant_def)
  have "te_combat demo_tick_env = demo_combat_env" by (simp add: demo_tick_env_def)
  then have "(play demo_tick_env)\<^sup>*\<^sup>* (demo_combat_world demo_hurt) w1"
    using run by (intro r_into_rtranclp, intro play.status [where items = Map.empty and sev = "StHpTick 7 (- 50)" and out = out]) (simp only:)
  then have "all_chars pools_ok w1"
    by (rule pools_kept) (simp_all add: all_chars_def demo_combat_world_def demo_combatant_def demo_hurt_def character_new_def
        pools_ok_def MAX_TP_def scripts_keep_def demo_tick_env_def demo_combat_env_def)
  then show ?thesis using run hp by blast
qed

section \<open>What a status event leaves alone\<close>

text \<open>
  A world without the pools, and with the modifiers seen through a mask. Status events keep it, when
  the mask hides what a recalculation writes.
\<close>

definition rest_of :: "(modifier_map \<Rightarrow> modifier_map) \<Rightarrow> character \<Rightarrow> character" where
  "rest_of M c = c\<lparr>ch_hp := 0, ch_max_hp := 0, ch_mp := 0, ch_max_mp := 0, ch_tp := 0, ch_mods := M (ch_mods c)\<rparr>"

definition world_rest :: "(modifier_map \<Rightarrow> modifier_map) \<Rightarrow> combat_world \<Rightarrow> combat_world" where
  "world_rest M w = w\<lparr>cw_actors := map (\<lambda>(a, p). (a, p\<lparr>cb_char := rest_of M (cb_char p)\<rparr>)) (cw_actors w),
     cw_saved_status := (\<lambda>_. [])\<rparr>"

definition mask_ok :: "(modifier_map \<Rightarrow> modifier_map) \<Rightarrow> item_catalog \<Rightarrow> bool" where
  "mask_ok M items \<longleftrightarrow>
     (\<forall>player eq c c1. recalc_character player items eq c = Ok c1 \<longrightarrow> M (ch_mods c1) = M (ch_mods c))"

lemma mask_all: "mask_ok (\<lambda>_. mod_new) items" by (simp add: mask_ok_def)

lemma rest_frame: "frame c1 = frame c \<Longrightarrow> M (ch_mods c1) = M (ch_mods c) \<Longrightarrow> rest_of M c1 = rest_of M c"
proof -
  assume f: "frame c1 = frame c" and m: "M (ch_mods c1) = M (ch_mods c)"
  have "rest_of M d = (frame d)\<lparr>ch_tp := 0, ch_mods := M (ch_mods d)\<rparr>" for d by (simp add: rest_of_def frame_def)
  then show ?thesis using f m by simp
qed

lemma rest_writes:
  "add_hp d c = Ok c1 \<Longrightarrow> rest_of M c1 = rest_of M c" "add_mp d c = Ok c1 \<Longrightarrow> rest_of M c1 = rest_of M c"
  "rest_of M (add_tp d c) = rest_of M c"
  by (auto simp: add_hp_def add_mp_def add_tp_def set_hp_Ok set_mp_Ok rest_of_def)

lemma rest_recalc: "mask_ok M items \<Longrightarrow> recalc_character p items eq c = Ok c1 \<Longrightarrow> rest_of M c1 = rest_of M c"
  by (rule rest_frame) (auto simp: mask_ok_def recalc_frame)

lemma world_rest_keys: "map fst (cw_actors (world_rest M w)) = map fst (cw_actors w)"
  by (simp add: world_rest_def case_prod_beta comp_def)

lemma world_rest_sessions: "cw_sessions (world_rest M w) = cw_sessions w"
  by (simp add: world_rest_def)

lemma world_rest_upd:
  assumes "distinct (map fst (cw_actors w))" "char_of a w = Some c" "rest_of M c1 = rest_of M c"
  shows "world_rest M (upd_char a (\<lambda>_. c1) w) = world_rest M w"
proof -
  have "p\<lparr>cb_char := rest_of M c1\<rparr> = p\<lparr>cb_char := rest_of M (cb_char p)\<rparr>" if "(a, p) \<in> set (cw_actors w)" for p
    using that assms by (auto simp: char_of_def combatant_of_def)
  then have "map ((\<lambda>(a, p). (a, p\<lparr>cb_char := rest_of M (cb_char p)\<rparr>)) \<circ> (\<lambda>(b, c). (b, if b = a then c\<lparr>cb_char := c1\<rparr> else c)))
      (cw_actors w) = map (\<lambda>(a, p). (a, p\<lparr>cb_char := rest_of M (cb_char p)\<rparr>)) (cw_actors w)"
    by (intro map_cong) auto
  then show ?thesis by (simp add: world_rest_def upd_char_def upd_combatant_def)
qed

lemma world_rest_char:
  assumes "world_rest M w1 = world_rest M w" "combatant_of a w = Some p"
  obtains q where "combatant_of a w1 = Some q" "rest_of M (cb_char q) = rest_of M (cb_char p)"
    "cb_handle q = cb_handle p"
proof -
  have look: "combatant_of a (world_rest M v) = map_option (\<lambda>p. p\<lparr>cb_char := rest_of M (cb_char p)\<rparr>) (combatant_of a v)" for v
    by (simp add: combatant_of_def world_rest_def map_of_map)
  obtain q where q: "combatant_of a w1 = Some q"
    and eq: "q\<lparr>cb_char := rest_of M (cb_char q)\<rparr> = p\<lparr>cb_char := rest_of M (cb_char p)\<rparr>"
    using look [of w1] look [of w] assms by (cases "combatant_of a w1") auto
  show thesis
    using that [OF q] arg_cong [OF eq, of cb_char] arg_cong [OF eq, of cb_handle] by simp
qed

lemma keeps_rest:
  assumes "mask_ok M items" "distinct (map fst (cw_actors X))"
  shows "keeps (\<lambda>w. world_rest M w = X) (dispatch_status_event e items ev)"
proof -
  let ?I = "\<lambda>w. world_rest M w = X"
  have d: "distinct (map fst (cw_actors w))" if "?I w" for w using that assms(2) world_rest_keys [of M w] by auto
  have char: "keeps ?I (c_char a f)" if "\<And>c c1. f c = Ok c1 \<Longrightarrow> rest_of M c1 = rest_of M c" for a f
    by (rule keepsI) (auto simp: c_char_def outcome_simps split: option.splits intro: world_rest_upd d dest: that)
  have tick: "keeps ?I (tick_pool a p f)" if "keeps ?I f" for a p f
    by (rule keepsI) (auto simp: tick_pool_def outcome_simps split: if_splits dest: keepsD [OF that])
  show ?thesis
  proof (cases ev)
    case (StRecalcStats a)
    have "keeps ?I (apply_recalc_stats e items a)"
    proof (rule keepsI)
      fix w w1 out
      assume w: "?I w" and run: "apply_recalc_stats e items a w = Ok (w1, out)"
      show "?I w1"
      proof (cases "char_of a w")
        case (Some c)
        then obtain c1 where "recalc_character (is_player_actor a w) items
            (if is_player_actor a w then ce_equipment e a (resolve_current_class_id c) else []) c = Ok c1"
          and "w1 = upd_char a (\<lambda>_. c1) w"
          using run by (auto simp: apply_recalc_stats_def outcome_simps Let_def)
        then show ?thesis using world_rest_upd [OF d [OF w] Some rest_recalc [OF assms(1)]] w by simp
      qed (use w run in \<open>simp add: apply_recalc_stats_def\<close>)
    qed
    then show ?thesis using StRecalcStats by simp
  next
    case (StDbSave a)
    have "world_rest M (w\<lparr>cw_saved_status := s\<rparr>) = world_rest M w" for w s by (simp add: world_rest_def)
    then show ?thesis using StDbSave by (auto intro!: keepsI simp: save_status_def split: option.splits if_splits)
  qed (auto intro!: keeps_basic tick char simp: apply_hp_delta_def apply_mp_delta_def apply_tp_delta_def
         intro: rest_writes)
qed

lemma status_events_rest:
  assumes "mask_ok M items" "distinct (map fst (cw_actors w))" "dispatch_status_events e items evs w = Ok (w1, out)"
  shows "world_rest M w1 = world_rest M w"
proof -
  have "keeps (\<lambda>v. world_rest M v = world_rest M w) (dispatch_status_events e items evs)"
    unfolding dispatch_status_events_def
    by (rule keeps_all) (use keeps_rest [OF assms(1), of "world_rest M w"] assms(2) in \<open>auto simp: world_rest_keys\<close>)
  then show ?thesis using assms(3) unfolding keeps_def by blast
qed

section \<open>Death\<close>

text \<open>The world right after the writes to the dead and to the others.\<close>

definition fallen :: "combat_env \<Rightarrow> u32 \<Rightarrow> combatant \<Rightarrow> combat_world \<Rightarrow> combat_world" where
  "fallen e a p w = zone_forgets (h_zone_id (cb_handle p)) a (upd_char a (\<lambda>_. fst (mark_dead (ce_now e) (cb_char p))) w)"

lemma map_of_keyed: "map_of (map (\<lambda>(b, c). (b, g b c)) xs) k = map_option (g k) (map_of xs k)"
  by (induction xs) auto

lemma combatant_upd: "combatant_of b (upd_combatant a f w) = map_option (\<lambda>c. if b = a then f c else c) (combatant_of b w)"
  by (simp add: combatant_of_def upd_combatant_def map_of_keyed)

lemma combatant_forgets:
  "combatant_of b (zone_forgets z d w) = map_option (\<lambda>c. if b \<noteq> d \<and> h_zone_id (cb_handle c) = z
     then c\<lparr>cb_char := forget_dead d (cb_char c)\<rparr> else c) (combatant_of b w)"
  by (simp add: combatant_of_def zone_forgets_def map_of_keyed)

lemma fallen_combatant:
  assumes "combatant_of a w = Some p"
  shows "combatant_of a (fallen e a p w) = Some (p\<lparr>cb_char := fst (mark_dead (ce_now e) (cb_char p))\<rparr>)"
    and "b \<noteq> a \<Longrightarrow> combatant_of b (fallen e a p w) = map_option (\<lambda>c. if h_zone_id (cb_handle c) = h_zone_id (cb_handle p)
      then c\<lparr>cb_char := forget_dead a (cb_char c)\<rparr> else c) (combatant_of b w)"
  using assms by (simp_all add: fallen_def combatant_forgets upd_char_def combatant_upd option.map_comp comp_def)

lemma fallen_fields:
  "cw_sessions (fallen e a p w) = cw_sessions w" "map fst (cw_actors (fallen e a p w)) = map fst (cw_actors w)"
  by (simp_all add: fallen_def zone_forgets_def upd_char_def upd_combatant_def split_def comp_def)

lemma mark_dead_fields:
  "ch_main_state (fst (mark_dead now c)) = MAIN_STATE_DEAD" "ch_new_main_state (fst (mark_dead now c)) = MAIN_STATE_DEAD"
  "ai_states (ch_ai (fst (mark_dead now c))) = []" "hc_entries (ch_hate (fst (mark_dead now c))) = []"
  "snd (mark_dead now c) = snd (snd (remove_by_flag SF_LOSE_ON_DEATH (ch_status c)))"
  "ch_mods (fst (mark_dead now c)) = ch_mods c" "ch_class (fst (mark_dead now c)) = ch_class c"
  "ch_level (fst (mark_dead now c)) = ch_level c" "ch_current_job (fst (mark_dead now c)) = ch_current_job c"
  by (simp_all add: mark_dead_def split_def clear_states_def clear_hate_def Let_def)

lemma no_roster: "\<forall>s \<in> set ss. roster_of a s = None \<Longrightarrow> content_complete e a ss w = Ok (w, [])"
  by (induction ss) auto

text \<open>Where no content area watches the dead, the rest of \<open>apply_die\<close> is the events of its lost effects.\<close>

lemma fallen_trio:
  assumes p: "combatant_of a w = Some p" and keys: "distinct (map fst (cw_actors w))"
  obtains x where "emit_change_state_trio a MAIN_STATE_DEAD (fallen e a p w) = Ok (fallen e a p w, x)"
proof -
  let ?w = "fallen e a p w"
  have c: "char_of a ?w = Some (fst (mark_dead (ce_now e) (cb_char p)))"
    by (simp add: char_of_def fallen_combatant(1) [OF p])
  have same: "upd_char a (\<lambda>c. c\<lparr>ch_main_state := MAIN_STATE_DEAD, ch_new_main_state := MAIN_STATE_DEAD\<rparr>) ?w = ?w"
  proof -
    have "q\<lparr>cb_char := (cb_char q)\<lparr>ch_main_state := MAIN_STATE_DEAD, ch_new_main_state := MAIN_STATE_DEAD\<rparr>\<rparr> = q"
      if "(a, q) \<in> set (cw_actors ?w)" for q
    proof -
      have "combatant_of a ?w = Some q" using that keys by (simp add: combatant_of_def fallen_fields)
      then have "q = p\<lparr>cb_char := fst (mark_dead (ce_now e) (cb_char p))\<rparr>" by (simp add: fallen_combatant(1) [OF p])
      then show ?thesis by (simp add: mark_dead_def split_def Let_def)
    qed
    then have "map (\<lambda>(b, q). (b, if b = a then q\<lparr>cb_char := (cb_char q)\<lparr>ch_main_state := MAIN_STATE_DEAD,
        ch_new_main_state := MAIN_STATE_DEAD\<rparr>\<rparr> else q)) (cw_actors ?w) = cw_actors ?w"
      by (intro map_idI) auto
    then show ?thesis by (simp add: upd_char_def upd_combatant_def)
  qed
  then show thesis using that by (simp add: emit_change_state_trio_def c)
qed

lemma apply_die_rest:
  assumes run: "apply_die e a w = Ok (w1, out)" and p: "combatant_of a w = Some p"
    and alive: "ch_main_state (cb_char p) \<noteq> MAIN_STATE_DEAD" and keys: "distinct (map fst (cw_actors w))"
    and free: "\<forall>s \<in> set (cw_sessions w). roster_of a s = None"
  obtains o1 where "(if ce_lua e \<and> ce_db e
      then dispatch_status_events e (ce_items e) (snd (mark_dead (ce_now e) (cb_char p))) (fallen e a p w)
      else Ok (fallen e a p w, [])) = Ok (w1, o1)"
proof -
  let ?w = "fallen e a p w" and ?evs = "snd (mark_dead (ce_now e) (cb_char p))"
  let ?bnpc = "h_kind (cb_handle p) = TagBattleNpc"
  obtain x where trio: "emit_change_state_trio a MAIN_STATE_DEAD ?w = Ok (?w, x)" by (rule fallen_trio [OF p keys])
  have "c_all [emit_change_state_trio a MAIN_STATE_DEAD, c_say (if ?bnpc then [CoHateType a HATE_TYPE_DEAD] else []),
      c_when (\<lambda>_. ce_lua e \<and> ce_db e) (dispatch_status_events e (ce_items e) ?evs),
      c_when (\<lambda>_. ?bnpc \<and> ce_lua e \<and> ce_db e) (check_content_battle_complete e a)] ?w = Ok (w1, out)"
    using run p alive by (simp add: apply_die_def Let_def split_def fallen_def)
  then obtain w2 o2 o3 where events: "c_when (\<lambda>_. ce_lua e \<and> ce_db e) (dispatch_status_events e (ce_items e) ?evs) ?w = Ok (w2, o2)"
    and check: "c_when (\<lambda>_. ?bnpc \<and> ce_lua e \<and> ce_db e) (check_content_battle_complete e a) w2 = Ok (w1, o3)"
    by (auto simp: c_all.simps c_skip_def c_say_def trio elim!: c_seqE)
  have "world_rest (\<lambda>_. mod_new) w2 = world_rest (\<lambda>_. mod_new) ?w"
    using events status_events_rest [OF mask_all, of ?w e "ce_items e" ?evs w2 o2] keys
    by (auto simp: c_when_def fallen_fields split: if_splits)
  then have "cw_sessions w2 = cw_sessions w"
    by (metis world_rest_sessions fallen_fields(1))
  then have "w1 = w2" using check no_roster free
    by (auto simp: c_when_def check_content_battle_complete_def split: if_splits)
  then show thesis using that events by (auto simp: c_when_def split: if_splits)
qed

lemma rest_same:
  assumes "rest_of M d = rest_of M c"
  shows "ch_main_state d = ch_main_state c" "ch_ai d = ch_ai c" "ch_hate d = ch_hate c" "ch_status d = ch_status c"
    "ch_class d = ch_class c" "ch_level d = ch_level c" "M (ch_mods d) = M (ch_mods c)" "ch_current_job d = ch_current_job c"
  using arg_cong [OF assms, of ch_main_state] arg_cong [OF assms, of ch_ai] arg_cong [OF assms, of ch_hate]
    arg_cong [OF assms, of ch_status] arg_cong [OF assms, of ch_class] arg_cong [OF assms, of ch_level]
    arg_cong [OF assms, of ch_mods] arg_cong [OF assms, of ch_current_job] by (simp_all add: rest_of_def)

definition forgotten :: "u32 \<Rightarrow> character \<Rightarrow> bool" where
  "forgotten a c \<longleftrightarrow> \<not> has_hate_for a (ch_hate c)
     \<and> (case current_state (ch_ai c) of None \<Rightarrow> True | Some s \<Rightarrow> bs_target s \<noteq> a)"

lemma forget_dead_forgotten: "forgotten a (forget_dead a c)"
  by (auto simp: forgotten_def forget_dead_def has_hate_for_def hate_get_def clear_hate_def delete_conv'
      clear_states_def current_state_def Let_def split: list.splits)

definition laid_out :: "character \<Rightarrow> bool" where
  "laid_out c \<longleftrightarrow> ch_main_state c = MAIN_STATE_DEAD \<and> ai_states (ch_ai c) = [] \<and> hc_entries (ch_hate c) = []"

text \<open>
  C31: a death that no content area watches leaves the dead marked as such, with no state of its AI and
  no enmity, and every other actor of its zone without enmity for it and not at work on it.
\<close>

theorem death_settles:
  assumes "apply_die e a w = Ok (w1, out)" and "combatant_of a w = Some p"
    and "ch_main_state (cb_char p) \<noteq> MAIN_STATE_DEAD" and "distinct (map fst (cw_actors w))"
    and "\<forall>s \<in> set (cw_sessions w). roster_of a s = None"
  shows "(\<exists>q. combatant_of a w1 = Some q \<and> laid_out (cb_char q))
    \<and> (\<forall>b q. combatant_of b w1 = Some q \<and> b \<noteq> a \<and> h_zone_id (cb_handle q) = h_zone_id (cb_handle p)
          \<longrightarrow> forgotten a (cb_char q))"
proof -
  let ?w = "fallen e a p w" and ?M = "\<lambda>_ :: modifier_map. mod_new"
  obtain o1 where "(if ce_lua e \<and> ce_db e
      then dispatch_status_events e (ce_items e) (snd (mark_dead (ce_now e) (cb_char p))) ?w else Ok (?w, [])) = Ok (w1, o1)"
    using apply_die_rest [OF assms] by blast
  then have rest: "world_rest ?M w1 = world_rest ?M ?w"
    using status_events_rest [OF mask_all, of ?w e "ce_items e" "snd (mark_dead (ce_now e) (cb_char p))" w1 o1] assms(4)
    by (auto simp: fallen_fields split: if_splits)
  obtain q where "combatant_of a w1 = Some q" "rest_of ?M (cb_char q) = rest_of ?M (fst (mark_dead (ce_now e) (cb_char p)))"
    using world_rest_char [OF rest fallen_combatant(1) [OF assms(2)]] by auto
  then have "\<exists>q. combatant_of a w1 = Some q \<and> laid_out (cb_char q)"
    using rest_same [of ?M "cb_char q"] by (auto simp: laid_out_def mark_dead_fields)
  moreover have "forgotten a (cb_char q)"
    if q: "combatant_of b w1 = Some q" "b \<noteq> a" "h_zone_id (cb_handle q) = h_zone_id (cb_handle p)" for b q
  proof -
    obtain r where r: "combatant_of b ?w = Some r" "rest_of ?M (cb_char r) = rest_of ?M (cb_char q)" "cb_handle r = cb_handle q"
      using world_rest_char [OF rest [symmetric] q(1)] by blast
    obtain r0 where "combatant_of b w = Some r0" and r0: "r = (if h_zone_id (cb_handle r0) = h_zone_id (cb_handle p)
        then r0\<lparr>cb_char := forget_dead a (cb_char r0)\<rparr> else r0)"
      using r(1) fallen_combatant(2) [OF assms(2) q(2), of e] by auto
    have "h_zone_id (cb_handle r0) = h_zone_id (cb_handle p)" using r0 r(3) q(3) by (auto split: if_splits)
    then have "cb_char r = forget_dead a (cb_char r0)" using r0 by simp
    then have "forgotten a (cb_char r)" by (simp add: forget_dead_forgotten)
    then show ?thesis using rest_same(2,3) [OF r(2)] by (simp add: forgotten_def)
  qed
  ultimately show ?thesis by blast
qed

definition demo_duel :: combat_world where
  "demo_duel = (demo_combat_world demo_hurt)\<lparr>cw_actors := [(7, demo_combatant demo_hurt),
     (8, (demo_combatant (demo_hurt\<lparr>ch_hate := update_hate 7 5 (hate_new 8)\<rparr>))\<lparr>cb_handle := h_new 8 TagBattleNpc 200 0\<rparr>)]\<rparr>"

theorem death_settles_witness:
  "\<exists>w1 out q. apply_die demo_combat_env 7 demo_duel = Ok (w1, out) \<and> combatant_of 7 w1 = Some q \<and> laid_out (cb_char q)"
proof -
  have none: "remove_by_flag SF_LOSE_ON_DEATH (status_new 7) = (False, status_new 7, [])"
    by (simp add: remove_by_flag_def get_by_flag_def status_new_def)
  have free: "\<forall>s \<in> set (cw_sessions demo_duel). roster_of 7 s = None" by (simp add: demo_duel_def demo_combat_world_def)
  have p: "combatant_of 7 demo_duel = Some (demo_combatant demo_hurt)" by (simp add: combatant_of_def demo_duel_def)
  have alive: "ch_main_state (cb_char (demo_combatant demo_hurt)) \<noteq> MAIN_STATE_DEAD"
    by (simp add: demo_combatant_def demo_hurt_def character_new_def MAIN_STATE_DEAD_def)
  have "\<exists>w1 out. apply_die demo_combat_env 7 demo_duel = Ok (w1, out)"
    using alive
    by (simp add: apply_die_def p mark_dead_def demo_combatant_def demo_hurt_def character_new_def none Let_def
        c_all.simps c_seq_def c_say_def c_skip_def c_when_def emit_change_state_trio_def dispatch_status_events_def
        h_new_def split: option.split)
  then obtain w1 out where run: "apply_die demo_combat_env 7 demo_duel = Ok (w1, out)" by blast
  note settled = death_settles [OF run p alive _ free]
  have "distinct (map fst (cw_actors demo_duel))" by (simp add: demo_duel_def)
  from settled [OF this] show ?thesis using run by blast
qed

section \<open>What a recalculation heals\<close>

definition outside :: "modifier_map \<Rightarrow> modifier_map" where
  "outside m = (\<lambda>k. if k \<in> set pipeline_keys then None else m k)"

lemma outside_eq: "outside m = outside n \<longleftrightarrow> same_outside m n"
  by (auto simp: outside_def same_outside_def fun_eq_iff)

lemma base_stats_outside:
  assumes "calculate_base_stats c = Ok c1"
  shows "same_outside (ch_mods c1) (ch_mods c)"
proof -
  have mp: "ch_mods (set_max_mp x d) = ch_mods d" for x d by (simp add: set_max_mp_def Let_def)
  obtain c0 c2 where "(if 0 < f64_to_i32 (mod_get MOD_HP (ch_mods c))
        then set_hp (pool_of (mod_get MOD_HP_PERCENT (ch_mods c)) (f64_to_i32 (mod_get MOD_HP (ch_mods c))))
               (set_max_hp (f64_to_i32 (mod_get MOD_HP (ch_mods c))) c) else Ok c) = Ok c0"
    and "(if 0 < f64_to_i32 (mod_get MOD_MP (ch_mods c0))
        then set_mp (pool_of (mod_get MOD_MP_PERCENT (ch_mods c0)) (f64_to_i32 (mod_get MOD_MP (ch_mods c0))))
               (set_max_mp (f64_to_i32 (mod_get MOD_MP (ch_mods c0))) c0) else Ok c0) = Ok c2"
    and c1: "c1 = seed_hit_count c2"
    using assms by (auto simp: calculate_base_stats_def Let_def outcome_simps)
  then have "ch_mods c0 = ch_mods c" "ch_mods c2 = ch_mods c0"
    by (auto simp: set_hp_Ok set_mp_Ok mp split: if_splits)
  then show ?thesis by (simp add: c1 seed_hit_count_def inside)
qed

lemma mask_outside:
  assumes "resettable_gear items"
  shows "mask_ok outside items"
  unfolding mask_ok_def outside_eq
proof (intro allI impI)
  fix player eq c c1
  assume run: "recalc_character player items eq c = Ok c1"
  let ?d = "if player then player_pipeline items eq c else c"
  have "same_outside (ch_mods c1) (ch_mods ?d)" using base_stats_outside run by (simp add: recalc_character_def recalculate_stats_def)
  also have "same_outside (ch_mods ?d) (ch_mods c)" by (simp add: pipeline_is pipeline_inside [OF assms])
  finally show "same_outside (ch_mods c1) (ch_mods c)" .
qed

text \<open>The pipeline looks at the class, the level and the modifiers it does not reset.\<close>

lemma pipeline_mods_outside: "outside m = outside n \<Longrightarrow> pipeline_mods items eq cl lvl m = pipeline_mods items eq cl lvl n"
  using reset_same by (simp add: outside_eq pipeline_mods_def)

definition fills :: "combat_env \<Rightarrow> item_catalog \<Rightarrow> u32 \<Rightarrow> character \<Rightarrow> bool" where
  "fills e items a c \<longleftrightarrow> 0 < pipeline_hp items (ce_equipment e a (resolve_current_class_id c)) c
     \<and> no_hp_percent (player_pipeline items (ce_equipment e a (resolve_current_class_id c)) c)"

lemma fills_fields:
  assumes "outside (ch_mods d) = outside (ch_mods c)" "ch_class d = ch_class c" "ch_level d = ch_level c"
    "ch_current_job d = ch_current_job c"
  shows "fills e items a d = fills e items a c"
  using assms pipeline_mods_outside [OF assms(1)]
  by (simp add: fills_def pipeline_hp_def hp_of_mods_def no_hp_percent_def pipeline_is resolve_current_class_id_def)

lemma fills_rest: "rest_of outside d = rest_of outside c \<Longrightarrow> fills e items a d = fills e items a c"
  using rest_same [of outside d c] by (intro fills_fields) simp_all

text \<open>Events that end in a recalculation leave a player with full hit points.\<close>

lemma recalc_last_fills:
  assumes gear: "resettable_gear items" and keys: "distinct (map fst (cw_actors w))"
    and run: "dispatch_status_events e items (evs @ [StRecalcStats a]) w = Ok (w1, out)"
    and p: "combatant_of a w = Some p" "h_kind (cb_handle p) = TagPlayer" and fill: "fills e items a (cb_char p)"
  obtains q where "combatant_of a w1 = Some q" "rest_of outside (cb_char q) = rest_of outside (cb_char p)"
    "ch_hp (cb_char q) = ch_max_hp (cb_char q)" "cb_handle q = cb_handle p"
proof -
  note mask = mask_outside [OF gear]
  obtain w2 o2 o3 where first: "dispatch_status_events e items evs w = Ok (w2, o2)"
    and last: "apply_recalc_stats e items a w2 = Ok (w1, o3)"
  proof -
    have "c_seq (c_all (map (dispatch_status_event e items) evs)) (c_all [apply_recalc_stats e items a]) w = Ok (w1, out)"
      using run by (simp add: dispatch_status_events_def c_all_append)
    then show thesis using that
      by (auto simp: dispatch_status_events_def c_all.simps c_skip_def elim!: c_seqE)
  qed
  have rest: "world_rest outside w2 = world_rest outside w" by (rule status_events_rest [OF mask keys first])
  obtain r where r: "combatant_of a w2 = Some r" "rest_of outside (cb_char r) = rest_of outside (cb_char p)" "cb_handle r = cb_handle p"
    using world_rest_char [OF rest p(1)] by blast
  let ?eq = "ce_equipment e a (resolve_current_class_id (cb_char r))"
  obtain c1 where c1: "recalc_character True items ?eq (cb_char r) = Ok c1" and w1: "w1 = upd_char a (\<lambda>_. c1) w2"
    using last r p(2) by (auto simp: apply_recalc_stats_def char_of_def is_player_actor_def kind_of_def outcome_simps Let_def)
  have "fills e items a (cb_char r)" using fills_rest [OF r(2)] fill by blast
  then have "ch_hp c1 = ch_max_hp c1" using recalc_fills(1) [OF c1] by (simp add: fills_def)
  moreover have "rest_of outside c1 = rest_of outside (cb_char p)" using rest_recalc [OF mask c1] r(2) by simp
  moreover have "combatant_of a w1 = Some (r\<lparr>cb_char := c1\<rparr>)" by (simp add: w1 upd_char_def combatant_upd r(1))
  ultimately show thesis using that [of "r\<lparr>cb_char := c1\<rparr>"] r(3) by simp
qed

subsection \<open>The effects lost on death\<close>

definition recalc_ends :: "u32 \<Rightarrow> status_event list \<Rightarrow> bool" where
  "recalc_ends a evs \<longleftrightarrow> (\<exists>xs. evs = xs @ [StRecalcStats a])"

lemma recalc_ends_append: "evs = [] \<or> recalc_ends a evs \<Longrightarrow> ys = [] \<or> recalc_ends a ys \<Longrightarrow> evs @ ys = [] \<or> recalc_ends a (evs @ ys)"
  unfolding recalc_ends_def by (metis append.assoc append_Nil2)

lemma set_slot_owner: "sc_owner (fst (set_slot i k x c)) = sc_owner c"
  by (simp add: set_slot_def set_status_at_index_def set_time_at_index_def Let_def split_def)

lemma remove_ends:
  "sc_owner (fst (snd (remove_status_effect k x pl c))) = sc_owner c"
  "status_get k c = None \<Longrightarrow> snd (snd (remove_status_effect k x pl c)) = []"
  "status_get k c \<noteq> None \<Longrightarrow> recalc_ends (sc_owner c) (snd (snd (remove_status_effect k x pl c)))"
  by (auto simp: remove_status_effect_def recalc_ends_def set_slot_owner split_def Let_def split: option.splits)

lemma removes_end:
  "sc_owner (fst (remove_effects pl ids c)) = sc_owner c
   \<and> (snd (remove_effects pl ids c) = [] \<or> recalc_ends (sc_owner c) (snd (remove_effects pl ids c)))"
proof (induction pl ids c rule: remove_effects.induct)
  case (2 pl k x rest c)
  obtain b c1 ob1 where r1: "remove_status_effect k x pl c = (b, c1, ob1)" by (cases "remove_status_effect k x pl c")
  obtain c2 ob2 where r2: "remove_effects pl rest c1 = (c2, ob2)" by (cases "remove_effects pl rest c1")
  have "ob1 = [] \<or> recalc_ends (sc_owner c) ob1" "sc_owner c1 = sc_owner c"
    using remove_ends(1) [of k x pl c] remove_ends(2,3) [of k c x pl] by (auto simp: r1)
  moreover have "ob2 = [] \<or> recalc_ends (sc_owner c1) ob2" "sc_owner c2 = sc_owner c1"
    using 2 [OF r1 [symmetric] refl] by (simp_all add: r2)
  ultimately show ?case using recalc_ends_append [of ob1 "sc_owner c" ob2] by (simp add: r1 r2)
qed simp

lemma lost_on_death_ends:
  assumes "keyed (sc_effects c)" "get_by_flag flag c \<noteq> []"
  shows "recalc_ends (sc_owner c) (snd (snd (remove_by_flag flag c)))"
proof -
  obtain e es where es: "get_by_flag flag c = e # es" using assms(2) by (cases "get_by_flag flag c") auto
  then have "e \<in> set (get_by_flag flag c)" by simp
  then have "e \<in> effects_of (sc_effects c)" by (auto simp: get_by_flag_def effects_of_def)
  then have "status_get (se_id e) c \<noteq> None" using keyed_mem [OF assms(1), of e] by (simp add: status_get_def)
  then have first: "recalc_ends (sc_owner c) (snd (snd (remove_status_effect (se_id e) (se_loss_text e) True c)))"
    by (rule remove_ends(3))
  let ?c1 = "fst (snd (remove_status_effect (se_id e) (se_loss_text e) True c))"
    and ?ids = "map (\<lambda>e. (se_id e, se_loss_text e)) es"
  have "snd (snd (remove_by_flag flag c)) = snd (snd (remove_status_effect (se_id e) (se_loss_text e) True c)) @ snd (remove_effects True ?ids ?c1)"
    by (simp add: remove_by_flag_def es split_def Let_def)
  moreover have "snd (remove_effects True ?ids ?c1) = [] \<or> recalc_ends (sc_owner c) (snd (remove_effects True ?ids ?c1))"
    using removes_end [of True ?ids ?c1] by (simp add: remove_ends(1))
  ultimately show ?thesis using recalc_ends_append [of _ "sc_owner c"] first by (auto simp: recalc_ends_def)
qed


text \<open>The hit points of a player of no class, at level 0 and without gear.\<close>

lemma seed_other: "k \<noteq> j \<Longrightarrow> mod_get k (seed_if_zero j v m) = mod_get k m"
  by (simp add: seed_if_zero_def mod_simps)

lemma seeds_other: "k \<notin> set ks \<Longrightarrow> mod_get k (fold (\<lambda>j. seed_if_zero j v) ks m) = mod_get k m"
  by (induction ks arbitrary: m) (auto simp: seed_other)

lemma bare_weapon: "weapon_mods items [] m = m"
  by (simp add: weapon_mods_def weapon_in_def)

lemmas vital_keys = MOD_HP_def MOD_MP_def MOD_TP_def MOD_STRENGTH_def MOD_VITALITY_def MOD_DEXTERITY_def MOD_INTELLIGENCE_def
  MOD_MIND_def MOD_PIETY_def MOD_ATTACK_def MOD_ACCURACY_def MOD_DEFENSE_def MOD_ATTACK_MAGIC_POTENCY_def
  MOD_HEALING_MAGIC_POTENCY_def MOD_MAGIC_ACCURACY_def MOD_MAGIC_EVASION_def MOD_ENFEEBLING_MAGIC_POTENCY_def
  MOD_WEAPON_DAMAGE_POWER_def

lemma bare_vitals:
  "mod_get MOD_HP (pipeline_mods items [] 0 lvl m) = level_curve 250 30 lvl"
  "mod_get MOD_MP (pipeline_mods items [] 0 lvl m) = level_curve 20 5 lvl"
proof -
  have z: "f64_le 0 0" by code_simp
  have emph: "class_emphasis 0 = None" by code_simp
  have magic: "(0 :: int) \<noteq> CLASSID_THM" "(0 :: int) \<noteq> CLASSID_CNJ" by (simp_all add: CLASSID_THM_def CLASSID_CNJ_def)
  let ?r = "fold (\<lambda>k. mod_set k 0) pipeline_keys m"
  have r: "mod_get MOD_HP ?r = 0" "mod_get MOD_MP ?r = 0" by (simp_all add: mod_get_def reset_at)
  have "MOD_HP \<notin> set primaries" "MOD_MP \<notin> set primaries" by (simp_all add: primaries_def vital_keys)
  then have "mod_get MOD_HP (baseline_mods 0 lvl ?r) = level_curve 250 30 lvl"
    "mod_get MOD_MP (baseline_mods 0 lvl ?r) = level_curve 20 5 lvl"
    using magic by (simp_all add: baseline_mods_def Let_def emph seeds_other)
      (simp_all add: seed_if_zero_def r [unfolded MOD_HP_def MOD_MP_def] z mod_simps vital_keys)
  then show "mod_get MOD_HP (pipeline_mods items [] 0 lvl m) = level_curve 250 30 lvl"
    "mod_get MOD_MP (pipeline_mods items [] 0 lvl m) = level_curve 20 5 lvl"
    by (simp_all add: pipeline_mods_def derivation_mods_def weapon_damage_power_mods_def bare_weapon Let_def mod_simps vital_keys)
qed

definition bare :: "character \<Rightarrow> bool" where
  "bare c \<longleftrightarrow> ch_class c = 0 \<and> ch_level c = 0"

lemma bare_curve: "f64_to_i32 (level_curve 250 30 0) = 280" "f64_to_i32 (level_curve 20 5 0) = 25"
  by code_simp+

lemma bare_recalc:
  assumes "bare c"
  shows "\<exists>c1. recalc_character True items [] c = Ok c1"
proof -
  have mods: "ch_mods (set_max_mp x d) = ch_mods d" for x d by (simp add: set_max_mp_def Let_def)
  have floor: "hp_floor d \<le> 280" for d by (simp add: hp_floor_def)
  have wrap: "i16_wrap 280 = 280" "i16_wrap 25 = 25" by (simp_all add: i16_wrap_small)
  have mp: "ch_max_mp (set_max_mp x d) = i16_wrap (max x 0)" for x d by (simp add: set_max_mp_def Let_def)
  let ?d = "player_pipeline items [] c"
  have vitals: "mod_get MOD_HP (ch_mods ?d) = level_curve 250 30 0" "mod_get MOD_MP (ch_mods ?d) = level_curve 20 5 0"
    using assms by (simp_all add: pipeline_is bare_vitals bare_def)
  obtain c1 where c1: "set_hp (pool_of (mod_get MOD_HP_PERCENT (ch_mods ?d)) 280) (set_max_hp 280 ?d) = Ok c1"
      "ch_mods c1 = ch_mods ?d"
    using floor [of ?d] by (auto simp: set_hp_Ok wrap)
  obtain c2 where "set_mp (pool_of (mod_get MOD_MP_PERCENT (ch_mods c1)) 25) (set_max_mp 25 c1) = Ok c2"
    by (auto simp: set_mp_Ok mp wrap)
  then have "calculate_base_stats ?d = Ok (seed_hit_count c2)"
    using c1 by (simp add: calculate_base_stats_def Let_def vitals bare_curve)
  then show ?thesis by (simp add: recalc_character_def recalculate_stats_def)
qed

definition demo_poisoned :: character where
  "demo_poisoned = demo_hurt\<lparr>ch_status := (status_new 7)\<lparr>sc_effects := [(STATUS_POISON,
     (effect_new 7 STATUS_POISON 0 0 0 0 0)\<lparr>se_flags := SF_LOSE_ON_DEATH, se_silent_on_loss := True, se_hidden := True\<rparr>)]\<rparr>\<rparr>"

lemma demo_poisoned_dies:
  "get_by_flag SF_LOSE_ON_DEATH (ch_status demo_poisoned) \<noteq> []" "keyed (sc_effects (ch_status demo_poisoned))"
  "snd (mark_dead 1000 demo_poisoned) = [StLuaCall 7 STATUS_POISON ''onLose'', StRecalcStats 7]"
  "bare (fst (mark_dead 1000 demo_poisoned))"
proof -
  have flag: "sf_intersects SF_LOSE_ON_DEATH SF_LOSE_ON_DEATH" by code_simp
  show "get_by_flag SF_LOSE_ON_DEATH (ch_status demo_poisoned) \<noteq> []" "keyed (sc_effects (ch_status demo_poisoned))"
    "snd (mark_dead 1000 demo_poisoned) = [StLuaCall 7 STATUS_POISON ''onLose'', StRecalcStats 7]"
    by (simp_all add: demo_poisoned_def get_by_flag_def flag effect_new_def keyed_def status_new_def mark_dead_def
        remove_by_flag_def remove_status_effect_def status_get_def Let_def)
  show "bare (fst (mark_dead 1000 demo_poisoned))"
    by (simp add: bare_def mark_dead_fields demo_poisoned_def demo_hurt_def character_new_def)
qed


end
