(* ===== verification/Spec2Isabelle.thy ===== *)
theory Spec2Isabelle
  imports Prelude Bitstream Blowfish SubPacket Packet Utils LuaParam Inventory InventoryMirror InventoryLaws
    TextFormat EventLog Director DirectorLaws GrandCompany GrandCompanyLaws LeveDispatch LeveLaws
    AreaGrid AreaLaws Zone ActorRegistry WorldZones WorldLaws
    WorldWireLaws WorldHandoff WorldGroupLaws
    IeeeLaws BattleLaws BattleRuns BattleTickLaws
    CombatTick HotbarLaws StatusLaws StatLaws ProgressLaws CombatLaws
begin

text \<open>
  Root of the development.
\<close>

end
